(* ===== verification/Prelude.thy ===== *)
theory Prelude
  imports Complex_Main "HOL-Library.Word" "HOL-Library.Monad_Syntax"
begin

text \<open>
  Shared vocabulary of the development: the error values of the Go service, the result type of a
  Go function that returns a value and an error, two's-complement wrap-around of a 64-bit
  integer, and the generic lemmas on lists and results the component theories use.

  A Go \<^verbatim>\<open>error\<close> is modelled by what the program can observe of it: the sentinel values
  found by \<^verbatim>\<open>errors.Is\<close>. A call \<^verbatim>\<open>fmt.Errorf("...: %w", err)\<close> is therefore its wrapped error (the
  message text is diagnostic only), \<^verbatim>\<open>errors.Join\<close> is \<open>ErrJoin\<close>, and an \<^verbatim>\<open>errors.New\<close> value that is
  not a declared sentinel is \<open>ErrPlain\<close> with its text.
\<close>

named_theorems go_defs \<open>definitions of straight-line code, unfolded by the component proofs\<close>
named_theorems go_valid \<open>what a successful validation tells\<close>

subsection \<open>Errors\<close>

type_synonym ID = "128 word"

text \<open>\<open>ProviderError\<close> (ports/provider_error.go) carries its technical cause, which \<^verbatim>\<open>errors.Is\<close> sees.\<close>

datatype error =
    ErrNotFound
  | ErrConflict
  | ErrReferenceViolation
  | ErrInvalidData
  | ErrRetryable
  | ErrDatabaseUnavailable
  | ErrInvalidState
  | ErrCalendarOutOfRange
  | ErrTaskLeaseLost
  | ErrBackfillAlreadyRunning
  | ErrManualRetryAlreadyRunning
  | ErrManualRetrySourceUnavailable
  | ErrAdapterNotRegistered
  | ErrCapabilityUnsupported
  | ErrProviderLimitExceeded
  | ErrContextCanceled
  | ErrDeadlineExceeded
  | ErrPlain string
  | ErrProvider string string string "int option" "error option"
    \<comment> \<open>provider code, error code, safe message, retry-after, cause\<close>
  | ErrJoin error error

fun errors_Is :: "error \<Rightarrow> error \<Rightarrow> bool" where
  "errors_Is (ErrJoin a b) target = (ErrJoin a b = target \<or> errors_Is a target \<or> errors_Is b target)"
| "errors_Is (ErrProvider p c m r (Some cause)) target =
     (ErrProvider p c m r (Some cause) = target \<or> errors_Is cause target)"
| "errors_Is e target = (e = target)"

lemma errors_Is_refl [simp]: "errors_Is e e"
  by (cases "(e, e)" rule: errors_Is.cases) auto

subsection \<open>Results\<close>

text \<open>
  A Go function returning \<open>(T, error)\<close> is modelled in \<open>error + 'a\<close>; one returning only an error
  is modelled in \<open>error option\<close>, with \<open>None\<close> for nil.
\<close>

type_synonym 'a result = "error + 'a"

definition bind_result :: "'a result \<Rightarrow> ('a \<Rightarrow> 'b result) \<Rightarrow> 'b result" where
  "bind_result r f = (case r of Inl e \<Rightarrow> Inl e | Inr v \<Rightarrow> f v)"

definition guard :: "bool \<Rightarrow> error \<Rightarrow> error option" where
  "guard bad e = (if bad then Some e else None)"

text \<open>Sequencing of checks: the first error wins, as an early return does.\<close>

fun first_error :: "error option list \<Rightarrow> error option" where
  "first_error [] = None"
| "first_error (Some e # _) = Some e"
| "first_error (None # rest) = first_error rest"

definition checked :: "error option \<Rightarrow> 'a result \<Rightarrow> 'a result" where
  "checked c r = (case c of Some e \<Rightarrow> Inl e | None \<Rightarrow> r)"

text \<open>Evaluation unfolds the sequencing operators, so that a continuation runs only when it is reached.\<close>

declare bind_result_def [code_unfold] checked_def [code_unfold]

lemma bind_result_simps [simp]:
  "bind_result (Inl e) f = Inl e"
  "bind_result (Inr v) f = f v"
  by (simp_all add: bind_result_def)

lemma bind_result_Inr_iff:
  "bind_result r f = Inr w \<longleftrightarrow> (\<exists>v. r = Inr v \<and> f v = Inr w)"
  by (cases r) auto

lemma bind_result_Inl_iff:
  "bind_result r f = Inl e \<longleftrightarrow> r = Inl e \<or> (\<exists>v. r = Inr v \<and> f v = Inl e)"
  by (cases r) auto

lemma guard_None_iff [simp]: "guard bad e = None \<longleftrightarrow> \<not> bad"
  by (simp add: guard_def)

lemma guard_simps [simp]: "guard True e = Some e" "guard False e = None"
  by (simp_all add: guard_def)

lemma guard_Some_iff: "guard bad e = Some x \<longleftrightarrow> bad \<and> x = e"
  by (auto simp: guard_def)

lemma first_error_None_iff: "first_error cs = None \<longleftrightarrow> (\<forall>c \<in> set cs. c = None)"
  by (induction cs rule: first_error.induct) auto

lemma first_error_Cons_None [simp]:
  "first_error (c # cs) = None \<longleftrightarrow> c = None \<and> first_error cs = None"
  by (cases c) auto

lemma first_error_append [simp]:
  "first_error (xs @ ys) = (case first_error xs of None \<Rightarrow> first_error ys | Some e \<Rightarrow> Some e)"
  by (induction xs rule: first_error.induct) auto

lemma first_error_Some_mem: "first_error cs = Some e \<Longrightarrow> Some e \<in> set cs"
  by (induction cs rule: first_error.induct) auto

lemma first_error_same:
  assumes "\<And>c x. c \<in> set cs \<Longrightarrow> c = Some x \<Longrightarrow> x = e"
  shows "first_error cs = None \<or> first_error cs = Some e"
  using assms by (induction cs rule: first_error.induct) auto

lemma checked_simps [simp]:
  "checked None r = r" "checked (Some e) r = Inl e"
  by (simp_all add: checked_def)

lemma checked_Inr_iff: "checked c r = Inr v \<longleftrightarrow> c = None \<and> r = Inr v"
  by (cases c) auto

text \<open>A computation that may run forever (\<open>None\<close>) or return a result.\<close>

definition bind_run :: "'a result option \<Rightarrow> ('a \<Rightarrow> 'b result option) \<Rightarrow> 'b result option" where
  "bind_run r f = (case r of None \<Rightarrow> None | Some (Inl e) \<Rightarrow> Some (Inl e) | Some (Inr v) \<Rightarrow> f v)"

declare bind_run_def [code_unfold]

lemma bind_run_simps [simp]:
  "bind_run None f = None" "bind_run (Some (Inl e)) f = Some (Inl e)" "bind_run (Some (Inr v)) f = f v"
  by (simp_all add: bind_run_def)

lemma bind_run_Inr_iff:
  "bind_run r f = Some (Inr w) \<longleftrightarrow> (\<exists>v. r = Some (Inr v) \<and> f v = Some (Inr w))"
  by (auto simp: bind_run_def split: option.splits sum.splits)

lemma bind_run_None_iff:
  "bind_run r f = None \<longleftrightarrow> r = None \<or> (\<exists>v. r = Some (Inr v) \<and> f v = None)"
  by (auto simp: bind_run_def split: option.splits sum.splits)

subsection \<open>64-bit wrap-around\<close>

text \<open>The value an \<^verbatim>\<open>int64\<close> holds after arithmetic that produced the mathematical integer \<open>x\<close>.\<close>

definition wrap64 :: "int \<Rightarrow> int" where
  "wrap64 x = (x + 2 ^ 63) mod 2 ^ 64 - 2 ^ 63"

definition max_int64 :: int where
  "max_int64 = 2 ^ 63 - 1"

lemma wrap64_bounds: "- (2 ^ 63) \<le> wrap64 x \<and> wrap64 x < 2 ^ 63"
  unfolding wrap64_def by simp

lemma wrap64_id: "- (2 ^ 63) \<le> x \<Longrightarrow> x < 2 ^ 63 \<Longrightarrow> wrap64 x = x"
  by (simp add: wrap64_def)

lemma wrap64_eq_iff: "wrap64 x = wrap64 y \<longleftrightarrow> x mod 2 ^ 64 = y mod 2 ^ 64"
proof -
  have "wrap64 x = wrap64 y \<longleftrightarrow> (x + 2 ^ 63) mod 2 ^ 64 = (y + 2 ^ 63) mod 2 ^ 64"
    by (simp add: wrap64_def)
  also have "\<dots> \<longleftrightarrow> x mod 2 ^ 64 = y mod 2 ^ 64"
    by (simp add: mod_eq_dvd_iff)
  finally show ?thesis .
qed

lemma wrap64_inj_near:
  assumes "wrap64 x = wrap64 y" and "\<bar>x - y\<bar> < 2 ^ 64"
  shows "x = y"
proof -
  have "2 ^ 64 dvd x - y"
    using assms(1) by (simp add: wrap64_eq_iff mod_eq_dvd_iff)
  then obtain k where k: "x - y = 2 ^ 64 * k" by (auto elim: dvdE)
  have "k = 0"
  proof (rule ccontr)
    assume "k \<noteq> 0"
    then have "1 \<le> \<bar>k\<bar>" by simp
    then have "(2::int) ^ 64 \<le> 2 ^ 64 * \<bar>k\<bar>" by simp
    with k assms(2) show False by (simp add: abs_mult)
  qed
  with k show ?thesis by simp
qed

subsection \<open>Lists\<close>

text \<open>A list whose keys increase strictly from one element to the next.\<close>

definition strictly_ascending :: "('a \<Rightarrow> int) \<Rightarrow> 'a list \<Rightarrow> bool" where
  "strictly_ascending key xs \<longleftrightarrow> sorted_wrt (\<lambda>a b. key a < key b) xs"

lemma strictly_ascending_Nil [simp]: "strictly_ascending key []"
  by (simp add: strictly_ascending_def)

lemma strictly_ascending_Cons [simp]:
  "strictly_ascending key (x # xs) \<longleftrightarrow> (\<forall>y \<in> set xs. key x < key y) \<and> strictly_ascending key xs"
  by (simp add: strictly_ascending_def)

lemma strictly_ascending_append:
  "strictly_ascending key (xs @ ys) \<longleftrightarrow>
     strictly_ascending key xs \<and> strictly_ascending key ys \<and> (\<forall>x \<in> set xs. \<forall>y \<in> set ys. key x < key y)"
  by (auto simp: strictly_ascending_def sorted_wrt_append)

lemma strictly_ascending_distinct: "strictly_ascending key xs \<Longrightarrow> distinct (map key xs)"
  by (induction xs) auto

text \<open>The check a Go loop makes on neighbours is enough for the whole list.\<close>

fun adjacent_ok :: "('a \<Rightarrow> 'a \<Rightarrow> bool) \<Rightarrow> 'a list \<Rightarrow> bool" where
  "adjacent_ok P (x # y # zs) = (P x y \<and> adjacent_ok P (y # zs))"
| "adjacent_ok P _ = True"

lemma adjacent_ok_ascending:
  "adjacent_ok (\<lambda>x y. key x < key y) xs \<longleftrightarrow> strictly_ascending key xs"
proof (induction "\<lambda>x y::'a. key x < key y" xs rule: adjacent_ok.induct)
  case (1 x y zs)
  then show ?case by (auto intro: less_trans)
qed simp_all

lemma find_Some_iff_first:
  "find P xs = Some x \<Longrightarrow> P x \<and> x \<in> set xs"
  by (auto simp: find_Some_iff)

end
