(* ===== verification/GoText.thy ===== *)
theory GoText
  imports Prelude
begin

text \<open>
  Go strings are byte sequences; they are modelled as \<open>string\<close>, one \<open>char\<close> per byte. This theory
  models the operations of the packages \<^verbatim>\<open>unicode/utf8\<close>, \<^verbatim>\<open>strings\<close> and \<^verbatim>\<open>unicode\<close> that the service
  applies to them: the rune count, the trimming of Unicode white space, the test for control
  characters and the prefix test.
\<close>

subsection \<open>UTF-8\<close>

abbreviation byte :: "char \<Rightarrow> nat" where
  "byte \<equiv> of_char"

definition continuation :: "nat \<Rightarrow> nat \<Rightarrow> nat \<Rightarrow> bool" where
  "continuation lo hi b \<longleftrightarrow> lo \<le> b \<and> b \<le> hi"

text \<open>
  The number of bytes of the first rune, by the table of well-formed sequences; a byte that starts
  no well-formed sequence is a rune (U+FFFD) of one byte.
\<close>

fun rune_width :: "nat list \<Rightarrow> nat" where
  "rune_width (b0 # b1 # b2 # b3 # _) =
     (if 194 \<le> b0 \<and> b0 \<le> 223 \<and> continuation 128 191 b1 then 2
      else if b0 = 224 \<and> continuation 160 191 b1 \<and> continuation 128 191 b2 then 3
      else if b0 = 237 \<and> continuation 128 159 b1 \<and> continuation 128 191 b2 then 3
      else if 225 \<le> b0 \<and> b0 \<le> 239 \<and> b0 \<noteq> 237 \<and> continuation 128 191 b1 \<and> continuation 128 191 b2 then 3
      else if b0 = 240 \<and> continuation 144 191 b1 \<and> continuation 128 191 b2 \<and> continuation 128 191 b3 then 4
      else if 241 \<le> b0 \<and> b0 \<le> 243 \<and> continuation 128 191 b1 \<and> continuation 128 191 b2 \<and> continuation 128 191 b3 then 4
      else if b0 = 244 \<and> continuation 128 143 b1 \<and> continuation 128 191 b2 \<and> continuation 128 191 b3 then 4
      else 1)"
| "rune_width [b0, b1, b2] =
     (if 194 \<le> b0 \<and> b0 \<le> 223 \<and> continuation 128 191 b1 then 2
      else if b0 = 224 \<and> continuation 160 191 b1 \<and> continuation 128 191 b2 then 3
      else if b0 = 237 \<and> continuation 128 159 b1 \<and> continuation 128 191 b2 then 3
      else if 225 \<le> b0 \<and> b0 \<le> 239 \<and> b0 \<noteq> 237 \<and> continuation 128 191 b1 \<and> continuation 128 191 b2 then 3
      else 1)"
| "rune_width [b0, b1] = (if 194 \<le> b0 \<and> b0 \<le> 223 \<and> continuation 128 191 b1 then 2 else 1)"
| "rune_width _ = 1"

lemma rune_width_pos: "0 < rune_width bs"
  by (induction bs rule: rune_width.induct) auto

text \<open>The byte sequences of the runes of a string.\<close>

function runes :: "nat list \<Rightarrow> nat list list" where
  "runes [] = []"
| "runes (b # bs) = take (rune_width (b # bs)) (b # bs) # runes (drop (rune_width (b # bs)) (b # bs))"
  by pat_completeness auto
termination
  by (relation "measure length") (auto simp: rune_width_pos)

definition RuneCountInString :: "string \<Rightarrow> int" where
  "RuneCountInString s = int (length (runes (map byte s)))"

text \<open>
  \<^verbatim>\<open>unicode.IsControl\<close> holds for U+0000 to U+001F and U+007F to U+009F; the latter, above U+007F,
  are the two-byte sequences C2 80 to C2 9F.
\<close>

definition rune_is_control :: "nat list \<Rightarrow> bool" where
  "rune_is_control r \<longleftrightarrow>
     (\<exists>b \<in> set r. r = [b] \<and> (b < 32 \<or> b = 127)) \<or> (length r = 2 \<and> r ! 0 = 194 \<and> r ! 1 \<le> 159)"

definition has_control :: "string \<Rightarrow> bool" where
  "has_control s \<longleftrightarrow> list_ex rune_is_control (runes (map byte s))"

subsection \<open>White space\<close>

text \<open>The UTF-8 encodings of the runes for which \<^verbatim>\<open>unicode.IsSpace\<close> holds.\<close>

definition space_encodings :: "nat list list" where
  "space_encodings =
     [[9], [10], [11], [12], [13], [32], [194, 133], [194, 160], [225, 154, 128],
      [226, 128, 128], [226, 128, 129], [226, 128, 130], [226, 128, 131], [226, 128, 132],
      [226, 128, 133], [226, 128, 134], [226, 128, 135], [226, 128, 136], [226, 128, 137],
      [226, 128, 138], [226, 128, 168], [226, 128, 169], [226, 128, 175], [226, 129, 159],
      [227, 128, 128]]"

text \<open>Drop encodings from the front as long as one of them is a prefix.\<close>

function strip :: "nat list list \<Rightarrow> nat list \<Rightarrow> nat list" where
  "strip encs bs =
     (case find (\<lambda>e. e \<noteq> [] \<and> take (length e) bs = e) encs of
        None \<Rightarrow> bs
      | Some e \<Rightarrow> strip encs (drop (length e) bs))"
  by pat_completeness auto
termination
proof (relation "measure (\<lambda>(encs, bs). length bs)")
  fix encs bs e
  assume "find (\<lambda>e. e \<noteq> [] \<and> take (length e) bs = e) encs = Some e"
  then have "e \<noteq> []" and "take (length e) bs = e"
    using find_Some_iff_first by fastforce+
  then have "bs \<noteq> []" by auto
  then show "((encs, drop (length e) bs), encs, bs) \<in> measure (\<lambda>(encs, bs). length bs)"
    using \<open>e \<noteq> []\<close> by (simp add: diff_less)
qed simp

declare strip.simps [simp del]

definition trim_bytes :: "nat list \<Rightarrow> nat list" where
  "trim_bytes bs = rev (strip (map rev space_encodings) (rev (strip space_encodings bs)))"

definition TrimSpace :: "string \<Rightarrow> string" where
  "TrimSpace s = map char_of (trim_bytes (map byte s))"

lemma strip_suffix: "\<exists>n. strip encs bs = drop n bs"
proof (induction encs bs rule: strip.induct)
  case (1 encs bs)
  show ?case
  proof (cases "find (\<lambda>e. e \<noteq> [] \<and> take (length e) bs = e) encs")
    case None
    then have "strip encs bs = drop 0 bs" by (simp add: strip.simps [of encs bs])
    then show ?thesis by blast
  next
    case (Some e)
    with 1 obtain n where "strip encs (drop (length e) bs) = drop n (drop (length e) bs)" by blast
    with Some have "strip encs bs = drop (n + length e) bs"
      by (simp add: strip.simps [of encs bs])
    then show ?thesis by blast
  qed
qed

lemma strip_idem [simp]: "strip encs (strip encs bs) = strip encs bs"
proof (induction encs bs rule: strip.induct)
  case (1 encs bs)
  then show ?case
    by (cases "find (\<lambda>e. e \<noteq> [] \<and> take (length e) bs = e) encs")
      (simp_all add: strip.simps [of encs bs])
qed

subsection \<open>ASCII text\<close>

text \<open>
  Faster equations for the evaluation of text that is ASCII, as most of it is: no rune is longer than a
  byte, and text that starts and ends with a printing character has nothing to trim.
\<close>

definition printing :: "char \<Rightarrow> bool" where
  "printing c \<longleftrightarrow> 32 < byte c \<and> byte c < 127"

definition is_ascii :: "string \<Rightarrow> bool" where
  "is_ascii s \<longleftrightarrow> list_all (\<lambda>c. byte c < 128) s"

lemma rune_width_ascii: "b < 128 \<Longrightarrow> rune_width (b # bs) = 1"
  by (induction "b # bs" rule: rune_width.induct) (auto simp: continuation_def)

lemma runes_ascii: "list_all (\<lambda>b. b < 128) bs \<Longrightarrow> runes bs = map (\<lambda>b. [b]) bs"
  by (induction bs) (simp_all add: rune_width_ascii)

lemma runes_of_ascii: "is_ascii s \<Longrightarrow> runes (map byte s) = map (\<lambda>c. [byte c]) s"
  by (simp add: is_ascii_def runes_ascii list_all_iff comp_def)

lemma length_runes: "length (runes bs) \<le> length bs"
proof (induction bs rule: runes.induct)
  case (2 b bs)
  then show ?case using rune_width_pos [of "b # bs"] by simp
qed simp

lemma strip_id:
  assumes "bs \<noteq> []" "hd bs \<notin> hd ` set encs" shows "strip encs bs = bs"
proof -
  have "\<not> (e \<noteq> [] \<and> take (length e) bs = e)" if "e \<in> set encs" for e
  proof
    assume e: "e \<noteq> [] \<and> take (length e) bs = e"
    then have "hd e = hd bs" by (metis hd_take length_greater_0_conv)
    with assms(2) that show False using imageI [of e "set encs" hd] by simp
  qed
  then have "find (\<lambda>e. e \<noteq> [] \<and> take (length e) bs = e) encs = None" by (simp add: find_None_iff)
  then show ?thesis by (simp add: strip.simps [of encs bs])
qed

lemma TrimSpace_printing:
  assumes "s = [] \<or> (printing (hd s) \<and> printing (last s))" shows "TrimSpace s = s"
proof (cases "s = []")
  case True
  have "strip encs [] = []" for encs
    using strip_suffix [of encs "[]"] by auto
  with True show ?thesis by (simp add: TrimSpace_def trim_bytes_def)
next
  case False
  have "strip space_encodings (map byte s) = map byte s"
    using assms False by (intro strip_id) (auto simp: printing_def space_encodings_def hd_map)
  moreover have "strip (map rev space_encodings) (rev (map byte s)) = rev (map byte s)"
    using assms False by (intro strip_id) (auto simp: printing_def space_encodings_def hd_rev last_map)
  ultimately show ?thesis by (simp add: TrimSpace_def trim_bytes_def o_def)
qed

lemma TrimSpace_code [code]:
  "TrimSpace s = (if s = [] \<or> (printing (hd s) \<and> printing (last s)) then s else map char_of (trim_bytes (map byte s)))"
  using TrimSpace_printing [of s] by (auto simp: TrimSpace_def)

lemma RuneCountInString_code [code]:
  "RuneCountInString s = (if is_ascii s then int (length s) else int (length (runes (map byte s))))"
  by (simp add: RuneCountInString_def runes_of_ascii)

lemma has_control_code [code]:
  "has_control s = (if is_ascii s then list_ex (\<lambda>c. byte c < 32 \<or> byte c = 127) s else list_ex rune_is_control (runes (map byte s)))"
  by (auto simp: has_control_def runes_of_ascii rune_is_control_def list_ex_iff)

subsection \<open>Prefixes\<close>

definition HasPrefix :: "string \<Rightarrow> string \<Rightarrow> bool" where
  "HasPrefix s p \<longleftrightarrow> take (length p) s = p"

lemma HasPrefix_iff: "HasPrefix s p \<longleftrightarrow> (\<exists>rest. s = p @ rest)"
  unfolding HasPrefix_def by (metis append_eq_conv_conj)

subsection \<open>Segmented lower-case codes\<close>

text \<open>
  The regular expressions \<^verbatim>\<open>^[a-z0-9]+(?:[.-][a-z0-9]+)*$\<close> and \<^verbatim>\<open>^[a-z0-9]+(?:[._-][a-z0-9]+)*$\<close>
  as matchers; \<open>seps\<close> are the separator characters. \<open>segments_tail\<close> runs after one character of a
  segment has been read.
\<close>

definition lower_alnum :: "char \<Rightarrow> bool" where
  "lower_alnum c \<longleftrightarrow> (97 \<le> byte c \<and> byte c \<le> 122) \<or> (48 \<le> byte c \<and> byte c \<le> 57)"

fun segments_tail :: "char list \<Rightarrow> string \<Rightarrow> bool" where
  "segments_tail seps [] = True"
| "segments_tail seps [c] = lower_alnum c"
| "segments_tail seps (c # d # s) =
     (if lower_alnum c then segments_tail seps (d # s)
      else c \<in> set seps \<and> lower_alnum d \<and> segments_tail seps s)"

fun match_segments :: "char list \<Rightarrow> string \<Rightarrow> bool" where
  "match_segments seps [] = False"
| "match_segments seps (c # s) = (lower_alnum c \<and> segments_tail seps s)"

text \<open>The language the expression denotes: words of letters and digits, joined by separators.\<close>

inductive segment_word :: "char list \<Rightarrow> string \<Rightarrow> bool" for seps where
  word: "w \<noteq> [] \<Longrightarrow> list_all lower_alnum w \<Longrightarrow> segment_word seps w"
| join: "segment_word seps s \<Longrightarrow> c \<in> set seps \<Longrightarrow> w \<noteq> [] \<Longrightarrow> list_all lower_alnum w
     \<Longrightarrow> segment_word seps (w @ c # s)"

lemma segments_tail_Cons: "lower_alnum c \<Longrightarrow> segments_tail seps (c # s) = segments_tail seps s"
  by (cases s) auto

lemma segments_tail_append:
  "list_all lower_alnum w \<Longrightarrow> segments_tail seps (w @ s) = segments_tail seps s"
  by (induction w) (auto simp: segments_tail_Cons)

lemma segments_tail_all: "list_all lower_alnum w \<Longrightarrow> segments_tail seps w"
  using segments_tail_append [of w seps "[]"] by simp

lemma segment_word_match:
  assumes "segment_word seps s" and "\<forall>c \<in> set seps. \<not> lower_alnum c"
  shows "match_segments seps s"
  using assms
proof (induction rule: segment_word.induct)
  case (word w)
  then obtain c cs where "w = c # cs" by (cases w) auto
  with word show ?case by (simp add: segments_tail_all)
next
  case (join s c w)
  then obtain a as where w: "w = a # as" by (cases w) auto
  from join have "match_segments seps s" by blast
  then obtain d ds where s: "s = d # ds" "lower_alnum d" "segments_tail seps ds"
    by (cases s) auto
  have "segments_tail seps (as @ c # s)"
    using join w s by (simp add: segments_tail_append)
  with w join show ?case by simp
qed

lemma segments_tail_word:
  "segments_tail seps s \<Longrightarrow> lower_alnum a \<Longrightarrow> segment_word seps (a # s)"
proof (induction seps s arbitrary: a rule: segments_tail.induct)
  case (1 seps)
  then show ?case by (intro segment_word.word) auto
next
  case (2 seps c)
  then show ?case by (intro segment_word.word) auto
next
  case (3 seps c d s)
  show ?case
  proof (cases "lower_alnum c")
    case True
    with 3 have "segment_word seps (c # d # s)" by simp
    then show ?thesis
    proof (cases rule: segment_word.cases)
      case word
      with 3 show ?thesis by (intro segment_word.word) auto
    next
      case (join s' c' w)
      then have "a # c # d # s = (a # w) @ c' # s'" by simp
      moreover have "segment_word seps ((a # w) @ c' # s')"
        using join 3 by (intro segment_word.join) auto
      ultimately show ?thesis by simp
    qed
  next
    case False
    with 3 have "c \<in> set seps" "segment_word seps (d # s)" by auto
    with segment_word.join [of seps "d # s" c "[a]"] 3 show ?thesis by simp
  qed
qed

theorem match_segments_iff:
  assumes "\<forall>c \<in> set seps. \<not> lower_alnum c"
  shows "match_segments seps s \<longleftrightarrow> segment_word seps s"
proof
  assume "match_segments seps s"
  then show "segment_word seps s"
    by (cases s) (auto intro: segments_tail_word)
next
  assume "segment_word seps s"
  then show "match_segments seps s" using assms by (rule segment_word_match)
qed

lemma match_segments_nonempty: "match_segments seps s \<Longrightarrow> s \<noteq> []"
  by (cases s) auto

subsection \<open>Decimal numbers\<close>

text \<open>The text of a non-negative integer, and the verb \<^verbatim>\<open>%0wd\<close> that pads it with zeros.\<close>

fun decimal :: "nat \<Rightarrow> string" where
  "decimal n = (if n < 10 then [char_of (48 + n)] else decimal (n div 10) @ [char_of (48 + n mod 10)])"

declare decimal.simps [simp del]

definition fmt0 :: "nat \<Rightarrow> nat \<Rightarrow> string" where
  "fmt0 w n = replicate (w - length (decimal n)) CHR ''0'' @ decimal n"

definition read_decimal :: "string \<Rightarrow> nat" where
  "read_decimal s = foldl (\<lambda>a c. 10 * a + (byte c - 48)) 0 s"

lemma read_decimal_decimal: "read_decimal (decimal n) = n"
proof (induction n rule: decimal.induct)
  case (1 n)
  show ?case
  proof (cases "n < 10")
    case True
    then show ?thesis by (simp add: decimal.simps [of n] read_decimal_def)
  next
    case False
    then have "foldl (\<lambda>a c. 10 * a + (byte c - 48)) 0 (decimal (n div 10)) = n div 10"
      using 1 by (simp add: read_decimal_def)
    with False show ?thesis by (simp add: decimal.simps [of n] read_decimal_def)
  qed
qed

lemma read_decimal_fmt0: "read_decimal (fmt0 w n) = n"
proof -
  have "foldl (\<lambda>a c. 10 * a + (byte c - 48)) 0 (replicate k CHR ''0'') = (0::nat)" for k
    by (induction k) auto
  then show ?thesis
    using read_decimal_decimal [of n] by (simp add: fmt0_def read_decimal_def)
qed

lemma decimal_length: "n < 10 ^ w \<Longrightarrow> 0 < w \<Longrightarrow> length (decimal n) \<le> w"
proof (induction n arbitrary: w rule: decimal.induct)
  case (1 n)
  show ?case
  proof (cases "n < 10")
    case True
    with 1 show ?thesis by (simp add: decimal.simps [of n])
  next
    case False
    with 1(2,3) obtain v where v: "w = Suc v" "0 < v"
      by (cases w; cases "w - 1") auto
    with 1(2) have "n div 10 < 10 ^ v" by (simp add: less_mult_imp_div_less mult.commute)
    with 1(1) [OF False this v(2)] v False show ?thesis by (simp add: decimal.simps [of n])
  qed
qed

lemma length_fmt0: "n < 10 ^ w \<Longrightarrow> 0 < w \<Longrightarrow> length (fmt0 w n) = w"
  using decimal_length [of n w] by (simp add: fmt0_def)

lemma fmt0_inject [simp]: "fmt0 w m = fmt0 w n \<longleftrightarrow> m = n"
  by (metis read_decimal_fmt0)

end
