(* ===== verification/GoTime.thy ===== *)
theory GoTime
  imports GoText
begin

text \<open>
  The part of Go's package \<^verbatim>\<open>time\<close> the service uses. A \<^verbatim>\<open>time.Time\<close> is modelled by its instant: the
  number of nanoseconds since the zero time, January 1, year 1, 00:00:00 UTC. \<^verbatim>\<open>Before\<close>, \<^verbatim>\<open>After\<close>,
  \<^verbatim>\<open>Equal\<close>, \<^verbatim>\<open>Add\<close> and \<^verbatim>\<open>Sub\<close> are then \<open><\<close>, \<open>>\<close>, \<open>=\<close>, \<open>+\<close> and \<open>-\<close>, and \<^verbatim>\<open>UTC()\<close>, which only changes
  the display location, is the identity and is not written. A location is the lookup function of
  its zone table; the table itself (the IANA database) is a parameter wherever it matters.
\<close>

type_synonym time = int
type_synonym duration = int

definition Second :: duration where "Second = 1000000000"
definition Minute :: duration where "Minute = 60 * Second"
definition Hour :: duration where "Hour = 60 * Minute"

lemma duration_values [simp]: "0 < Second" "0 < Minute" "0 < Hour"
  by (simp_all add: Second_def Minute_def Hour_def)

definition IsZero :: "time \<Rightarrow> bool" where
  "IsZero t \<longleftrightarrow> t = 0"

text \<open>\<^verbatim>\<open>Truncate\<close> rounds down to a multiple of the duration since the zero time.\<close>

definition Truncate :: "time \<Rightarrow> duration \<Rightarrow> time" where
  "Truncate t d = (if d \<le> 0 then t else t - t mod d)"

text \<open>Seconds from the zero time to the Unix epoch, and the 64-bit count \<^verbatim>\<open>UnixNano\<close> returns.\<close>

definition unix_epoch :: int where "unix_epoch = 62135596800"

definition UnixNano :: "time \<Rightarrow> int" where
  "UnixNano t = wrap64 (t - unix_epoch * Second)"

lemma Truncate_le: "Truncate t d \<le> t"
  by (simp add: Truncate_def)

lemma Truncate_gt: "0 < d \<Longrightarrow> t - d < Truncate t d"
  by (simp add: Truncate_def)

lemma Truncate_dvd: "0 < d \<Longrightarrow> d dvd Truncate t d"
  by (simp add: Truncate_def minus_mod_eq_mult_div)

lemma Truncate_fixed_iff: "0 < d \<Longrightarrow> Truncate t d = t \<longleftrightarrow> d dvd t"
  by (auto simp: Truncate_def dvd_eq_mod_eq_0)

lemma Truncate_greatest:
  assumes "0 < d" "d dvd u" "u \<le> t" shows "u \<le> Truncate t d"
proof -
  have "u = d * (u div d)" using assms(2) by simp
  moreover have "u div d \<le> t div d" using assms by (simp add: zdiv_mono1)
  ultimately have "u \<le> d * (t div d)" using assms(1) by (metis mult_le_cancel_left_pos)
  then show ?thesis using assms(1) by (simp add: Truncate_def minus_mod_eq_mult_div)
qed

lemma UnixNano_eq_iff_near:
  assumes "\<bar>s - t\<bar> < 2 ^ 64" shows "UnixNano s = UnixNano t \<longleftrightarrow> s = t"
proof
  assume "UnixNano s = UnixNano t"
  then show "s = t"
    using wrap64_inj_near [of "s - unix_epoch * Second" "t - unix_epoch * Second"] assms
    by (simp add: UnixNano_def)
qed simp

subsection \<open>The proleptic Gregorian calendar\<close>

definition leap :: "int \<Rightarrow> bool" where
  "leap y \<longleftrightarrow> 4 dvd y \<and> (\<not> 100 dvd y \<or> 400 dvd y)"

definition year_length :: "int \<Rightarrow> int" where
  "year_length y = (if leap y then 366 else 365)"

definition days_before_year :: "int \<Rightarrow> int" where
  "days_before_year y = 365 * (y - 1) + (y - 1) div 4 - (y - 1) div 100 + (y - 1) div 400"

definition days_before_month :: "bool \<Rightarrow> int \<Rightarrow> int" where
  "days_before_month lp m =
     (if m \<le> 1 then 0 else if m = 2 then 31
      else (if lp then 1 else 0) +
        (if m = 3 then 59 else if m = 4 then 90 else if m = 5 then 120 else if m = 6 then 151
         else if m = 7 then 181 else if m = 8 then 212 else if m = 9 then 243
         else if m = 10 then 273 else if m = 11 then 304 else if m = 12 then 334 else 365))"

definition days_in_month :: "int \<Rightarrow> int \<Rightarrow> int" where
  "days_in_month y m = days_before_month (leap y) (m + 1) - days_before_month (leap y) m"

text \<open>The day number \<^verbatim>\<open>time.Date\<close> computes, with its normalisation of months and days.\<close>

definition date_days :: "int \<Rightarrow> int \<Rightarrow> int \<Rightarrow> int" where
  "date_days y m d =
     (let y' = y + (m - 1) div 12; m' = (m - 1) mod 12 + 1
      in days_before_year y' + days_before_month (leap y') m' + (d - 1))"

text \<open>Year and day of the year of a day number, by cycles of 400, 100, 4 and 1 years.\<close>

definition year_yday :: "int \<Rightarrow> int \<times> int" where
  "year_yday n =
     (let n400 = n div 146097; r400 = n mod 146097;
          n100 = min 3 (r400 div 36524); r100 = r400 - 36524 * n100;
          n4 = r100 div 1461; r4 = r100 mod 1461;
          n1 = min 3 (r4 div 365)
      in (400 * n400 + 100 * n100 + 4 * n4 + n1 + 1, r4 - 365 * n1))"

definition month_of_yday :: "bool \<Rightarrow> int \<Rightarrow> int" where
  "month_of_yday lp yd =
     (let f = days_before_month lp in
      if yd < f 2 then 1 else if yd < f 3 then 2 else if yd < f 4 then 3 else if yd < f 5 then 4
      else if yd < f 6 then 5 else if yd < f 7 then 6 else if yd < f 8 then 7 else if yd < f 9 then 8
      else if yd < f 10 then 9 else if yd < f 11 then 10 else if yd < f 12 then 11 else 12)"

definition civil :: "int \<Rightarrow> int \<times> int \<times> int" where
  "civil n = (let (y, yd) = year_yday n; m = month_of_yday (leap y) yd
     in (y, m, yd - days_before_month (leap y) m + 1))"

lemma year_length_bounds: "365 \<le> year_length y" "year_length y \<le> 366"
  by (simp_all add: year_length_def)

lemma div_pred:
  assumes "1 < (k::int)"
  shows "y div k = (y - 1) div k + (if k dvd y then 1 else 0)"
proof (cases "k dvd y")
  case True
  then have "y - 1 = k * (y div k - 1) + (k - 1)" by (simp add: algebra_simps)
  then have "(y - 1) div k = y div k - 1"
    by (rule int_div_pos_eq) (use assms in auto)
  with True show ?thesis by simp
next
  case False
  then have "0 < y mod k"
    using assms pos_mod_sign [of k y] by (simp add: dvd_eq_mod_eq_0 less_le)
  moreover have "y mod k < k" using assms by simp
  moreover have "y - 1 = k * (y div k) + (y mod k - 1)" by simp
  ultimately have "(y - 1) div k = y div k"
    by (intro int_div_pos_eq [of _ _ _ "y mod k - 1"]) auto
  with False show ?thesis by simp
qed

lemma days_before_year_Suc: "days_before_year (y + 1) = days_before_year y + year_length y"
proof -
  have dvd: "400 dvd y \<Longrightarrow> 100 dvd y" "100 dvd y \<Longrightarrow> 4 dvd y"
    by (erule dvd_trans [rotated], simp)+
  have sum: "365 * y + a - b + c = 365 * (y - 1) + a' - b' + c' + 365 + i - j + k"
    if "a = a' + i" "b = b' + j" "c = c' + k" for a a' b b' c c' i j k :: int
    using that by simp
  have "days_before_year (y + 1) = days_before_year y + 365
      + (if 4 dvd y then 1 else 0) - (if 100 dvd y then 1 else 0) + (if 400 dvd y then 1 else 0)"
    unfolding days_before_year_def add_diff_cancel_right'
    by (rule sum; rule div_pred, simp)
  with dvd show ?thesis
    by (auto simp only: year_length_def leap_def if_True if_False simp_thms split: if_split)
qed

lemma days_before_year_mono: "y < z \<Longrightarrow> days_before_year y + year_length y \<le> days_before_year z"
proof (induction "nat (z - y - 1)" arbitrary: z)
  case 0
  then have "z = y + 1" by simp
  then show ?case by (simp add: days_before_year_Suc)
next
  case (Suc k)
  then have "days_before_year y + year_length y \<le> days_before_year (z - 1)" by simp
  also have "\<dots> \<le> days_before_year z"
    using days_before_year_Suc [of "z - 1"] year_length_bounds(1) [of "z - 1"] by simp
  finally show ?case .
qed

text \<open>The year of a day is the one whose days bracket it.\<close>

lemma year_unique:
  assumes "days_before_year y \<le> n" "n < days_before_year y + year_length y"
    and "days_before_year z \<le> n" "n < days_before_year z + year_length z"
  shows "y = z"
  using assms days_before_year_mono [of y z] days_before_year_mono [of z y] by linarith


lemma days_before_year_cycles:
  assumes "0 \<le> b" "b \<le> 3" "0 \<le> c" "c \<le> 24" "0 \<le> e" "e \<le> 3"
  shows "days_before_year (400 * a + 100 * b + 4 * c + e + 1) = 146097 * a + 36524 * b + 1461 * c + 365 * e"
proof -
  let ?y = "400 * a + 100 * b + 4 * c + e"
  have "?y div 4 = 100 * a + 25 * b + c"
    by (rule int_div_pos_eq [of _ _ _ e]) (use assms in auto)
  moreover have "?y div 100 = 4 * a + b"
    by (rule int_div_pos_eq [of _ _ _ "4 * c + e"]) (use assms in auto)
  moreover have "?y div 400 = a"
    by (rule int_div_pos_eq [of _ _ _ "100 * b + 4 * c + e"]) (use assms in auto)
  ultimately show ?thesis by (simp add: days_before_year_def)
qed

lemma leap_cycles:
  assumes "0 \<le> b" "b \<le> 3" "0 \<le> c" "c \<le> 24" "b = 3 \<or> c < 24"
  shows "leap (400 * a + 100 * b + 4 * c + 3 + 1)"
proof -
  let ?z = "400 * a + 100 * b + 4 * c + 3 + 1"
  have "?z = 4 * (100 * a + 25 * b + c + 1)" by simp
  then have four: "4 dvd ?z" by (metis dvd_triv_left)
  have "400 dvd ?z" if "100 dvd ?z"
  proof -
    have "?z = 100 * (4 * a + b) + (4 * c + 4)" by simp
    with that have "100 dvd 4 * c + 4" by (metis dvd_add_right_iff dvd_triv_left)
    then obtain k where "4 * c + 4 = 100 * k" by (auto elim: dvdE)
    then have k: "c + 1 = 25 * k" by simp
    with assms(3,4) have "0 < k" "k < 2" by simp_all
    with k have "c = 24" by simp
    with assms(5) have "?z = 400 * (a + 1)" by simp
    then show ?thesis by (metis dvd_triv_left)
  qed
  with four show ?thesis by (auto simp: leap_def)
qed

text \<open>The remainders of the cycle decomposition stay in their ranges.\<close>

lemma capped_quotient:
  assumes "0 \<le> r" "r \<le> 4 * k" "0 < (k::int)"
  shows "0 \<le> min 3 (r div k)" "min 3 (r div k) \<le> 3" "0 \<le> r - k * min 3 (r div k)"
    "r - k * min 3 (r div k) \<le> k" "r - k * min 3 (r div k) = k \<longrightarrow> min 3 (r div k) = 3"
proof -
  have r: "k * (r div k) + r mod k = r" "0 \<le> r mod k" "r mod k < k" "0 \<le> r div k"
    using assms by (simp_all add: pos_imp_zdiv_nonneg_iff)
  then show "0 \<le> min 3 (r div k)" "min 3 (r div k) \<le> 3" by simp_all
  have "0 \<le> r - k * min 3 (r div k) \<and> r - k * min 3 (r div k) \<le> k
      \<and> (r - k * min 3 (r div k) = k \<longrightarrow> min 3 (r div k) = 3)"
  proof (cases "r div k \<le> 3")
    case True
    then have q: "min 3 (r div k) = r div k" by simp
    have "r - k * (r div k) = r mod k" using r(1) by linarith
    with r show ?thesis by (simp add: q)
  next
    case False
    then have "k * 4 \<le> k * (r div k)" using assms(3) by (intro mult_left_mono) auto
    moreover have "min 3 (r div k) = 3" using False by simp
    moreover have "k * 4 \<le> r" using calculation(1) r by linarith
    ultimately show ?thesis using r(3) assms by simp
  qed
  then show "0 \<le> r - k * min 3 (r div k)" "r - k * min 3 (r div k) \<le> k"
    "r - k * min 3 (r div k) = k \<longrightarrow> min 3 (r div k) = 3" by blast+
qed

lemma year_yday_parts:
  assumes "year_yday n = (y, yd)"
  shows "\<exists>a b c e. y = 400 * a + 100 * b + 4 * c + e + 1 \<and> 0 \<le> b \<and> b \<le> 3 \<and> 0 \<le> c \<and> c \<le> 24
           \<and> 0 \<le> e \<and> e \<le> 3 \<and> n = 146097 * a + 36524 * b + 1461 * c + 365 * e + yd
           \<and> 0 \<le> yd \<and> (yd < 365 \<or> yd = 365 \<and> e = 3 \<and> (b = 3 \<or> c < 24))"
proof -
  define r400 where "r400 = n mod 146097"
  define b where "b = min 3 (r400 div 36524)"
  define r100 where "r100 = r400 - 36524 * b"
  define c where "c = r100 div 1461"
  define r4 where "r4 = r100 mod 1461"
  define e where "e = min 3 (r4 div 365)"
  have n: "n = 146097 * (n div 146097) + r400" and r400: "0 \<le> r400" "r400 < 146097"
    by (simp_all add: r400_def)
  have b: "0 \<le> b" "b \<le> 3" and r100: "0 \<le> r100" "r100 \<le> 36524" "r100 = 36524 \<longrightarrow> b = 3"
  proof -
    have "r400 \<le> 4 * 36524" using r400 by simp
    note capped_quotient [OF r400(1) this zero_less_numeral, folded b_def, folded r100_def]
    then show "0 \<le> b" "b \<le> 3" "0 \<le> r100" "r100 \<le> 36524" "r100 = 36524 \<longrightarrow> b = 3" .
  qed
  have r100_split: "r100 = 1461 * c + r4" and r4: "0 \<le> r4" "r4 < 1461"
    by (simp_all add: c_def r4_def)
  then have c: "0 \<le> c" "c \<le> 24" using r100 by linarith+
  have e: "0 \<le> e" "e \<le> 3" "0 \<le> r4 - 365 * e" "r4 - 365 * e \<le> 365" "r4 - 365 * e = 365 \<longrightarrow> e = 3"
  proof -
    have "r4 \<le> 4 * 365" using r4 by simp
    note capped_quotient [OF r4(1) this zero_less_numeral, folded e_def]
    then show "0 \<le> e" "e \<le> 3" "0 \<le> r4 - 365 * e" "r4 - 365 * e \<le> 365" "r4 - 365 * e = 365 \<longrightarrow> e = 3" .
  qed
  have y: "y = 400 * (n div 146097) + 100 * b + 4 * c + e + 1" and yd: "yd = r4 - 365 * e"
  proof -
    have "year_yday n = (400 * (n div 146097) + 100 * b + 4 * c + e + 1, r4 - 365 * e)"
      unfolding year_yday_def Let_def e_def r4_def c_def r100_def b_def r400_def by (rule refl)
    with assms show "y = 400 * (n div 146097) + 100 * b + 4 * c + e + 1" "yd = r4 - 365 * e"
      by (simp_all only: prod.inject)
  qed
  have sum: "n = 146097 * (n div 146097) + 36524 * b + 1461 * c + 365 * e + yd"
    using n r100_split yd unfolding r100_def by linarith
  have last_day: "yd < 365 \<or> yd = 365 \<and> e = 3 \<and> (b = 3 \<or> c < 24)"
  proof (cases "yd = 365")
    case True
    then have "e = 3" "r4 = 1460" using e(5) yd by auto
    moreover have "b = 3 \<or> c < 24" using r100(3) r100_split calculation(2) c by auto
    ultimately show ?thesis using True by simp
  next
    case False
    then show ?thesis using e(4) yd by simp
  qed
  show ?thesis
    by (rule exI [of _ "n div 146097"], rule exI [of _ b], rule exI [of _ c], rule exI [of _ e])
      (use y b c e(1-3) yd sum last_day in \<open>blast\<close>)
qed

lemma year_yday_correct:
  assumes "year_yday n = (y, yd)"
  shows "n = days_before_year y + yd" "0 \<le> yd" "yd < year_length y"
proof -
  from year_yday_parts [OF assms] obtain a b c e where
    p: "y = 400 * a + 100 * b + 4 * c + e + 1" "0 \<le> b" "b \<le> 3" "0 \<le> c" "c \<le> 24" "0 \<le> e" "e \<le> 3"
       "n = 146097 * a + 36524 * b + 1461 * c + 365 * e + yd" "0 \<le> yd"
       "yd < 365 \<or> yd = 365 \<and> e = 3 \<and> (b = 3 \<or> c < 24)"
    by blast
  then show "n = days_before_year y + yd" "0 \<le> yd" by (simp_all add: days_before_year_cycles)
  show "yd < year_length y"
    using p leap_cycles [of b c a] by (auto simp: year_length_def)
qed

lemma year_yday_unique:
  assumes "0 \<le> yd" "yd < year_length y"
  shows "year_yday (days_before_year y + yd) = (y, yd)"
proof -
  obtain z zd where z: "year_yday (days_before_year y + yd) = (z, zd)" by fastforce
  have "y = z"
    using year_yday_correct [OF z] assms by (intro year_unique [of _ "days_before_year y + yd"]) auto
  with year_yday_correct [OF z] z show ?thesis by simp
qed

lemma month_range: "1 \<le> month_of_yday lp yd" "month_of_yday lp yd \<le> 12"
  by (auto simp: month_of_yday_def Let_def)

lemma month_of_yday_brackets:
  assumes "0 \<le> yd" "yd < (if lp then 366 else 365)"
  shows "days_before_month lp (month_of_yday lp yd) \<le> yd"
    "yd < days_before_month lp (month_of_yday lp yd + 1)"
proof -
  have "days_before_month lp 1 = 0" "yd < days_before_month lp 13"
    using assms(2) by (simp_all add: days_before_month_def split: if_splits)
  with assms(1) show "days_before_month lp (month_of_yday lp yd) \<le> yd"
    "yd < days_before_month lp (month_of_yday lp yd + 1)"
    unfolding month_of_yday_def Let_def by (simp_all split: if_split)
qed

lemma month_cases:
  assumes "1 \<le> (m::int)" "m \<le> 12"
  obtains "m = 1" | "m = 2" | "m = 3" | "m = 4" | "m = 5" | "m = 6" | "m = 7" | "m = 8" | "m = 9"
    | "m = 10" | "m = 11" | "m = 12"
proof -
  have "m = 1 \<or> m = 2 \<or> m = 3 \<or> m = 4 \<or> m = 5 \<or> m = 6 \<or> m = 7 \<or> m = 8 \<or> m = 9
      \<or> m = 10 \<or> m = 11 \<or> m = 12"
    using assms by presburger
  with that show thesis by blast
qed

lemma month_of_yday_unique:
  assumes "1 \<le> m" "m \<le> 12" "days_before_month lp m \<le> yd" "yd < days_before_month lp (m + 1)"
  shows "month_of_yday lp yd = m"
  using assms(1,2)
  by (cases m rule: month_cases; cases lp)
    (use assms(3,4) in \<open>simp_all add: month_of_yday_def days_before_month_def Let_def\<close>)

lemma month_within_year:
  assumes "1 \<le> m" "m \<le> 12"
  shows "0 \<le> days_before_month lp m" "days_before_month lp (m + 1) \<le> (if lp then 366 else 365)"
  using assms by (auto simp: days_before_month_def)

lemma date_days_valid:
  assumes "1 \<le> m" "m \<le> 12"
  shows "date_days y m d = days_before_year y + days_before_month (leap y) m + (d - 1)"
proof -
  from assms have "(m - 1) div 12 = 0" "(m - 1) mod 12 = m - 1" by simp_all
  then show ?thesis by (simp add: date_days_def)
qed

definition valid_date :: "int \<Rightarrow> int \<Rightarrow> int \<Rightarrow> bool" where
  "valid_date y m d \<longleftrightarrow> 1 \<le> m \<and> m \<le> 12 \<and> 1 \<le> d \<and> d \<le> days_in_month y m"

theorem civil_date_days:
  assumes "valid_date y m d"
  shows "civil (date_days y m d) = (y, m, d)"
proof -
  let ?yd = "days_before_month (leap y) m + (d - 1)"
  from assms have m: "1 \<le> m" "m \<le> 12" and d: "1 \<le> d" "d \<le> days_in_month y m"
    by (auto simp: valid_date_def)
  have up: "?yd < days_before_month (leap y) (m + 1)" using d by (simp add: days_in_month_def)
  then have "year_yday (days_before_year y + ?yd) = (y, ?yd)"
    using month_within_year [OF m, of "leap y"] d
    by (intro year_yday_unique) (auto simp: year_length_def split: if_splits)
  moreover have "month_of_yday (leap y) ?yd = m"
    using m d up by (intro month_of_yday_unique) auto
  ultimately show ?thesis by (simp add: civil_def date_days_valid [OF m] add.assoc)
qed

theorem civil_correct:
  assumes "civil n = (y, m, d)"
  shows "valid_date y m d" "date_days y m d = n"
proof -
  obtain y' yd where "year_yday n = (y', yd)" by fastforce
  with assms have yy: "year_yday n = (y, yd)" and m: "m = month_of_yday (leap y) yd"
    and d: "d = yd - days_before_month (leap y) m + 1"
    by (auto simp: civil_def Let_def)
  note yc = year_yday_correct [OF yy]
  then have "days_before_month (leap y) m \<le> yd" "yd < days_before_month (leap y) (m + 1)"
    using month_of_yday_brackets [of yd "leap y"] m by (auto simp: year_length_def split: if_splits)
  then show "valid_date y m d"
    using m d by (auto simp: valid_date_def days_in_month_def month_range)
  show "date_days y m d = n"
    using m d yc by (simp add: date_days_valid month_range)
qed

lemma date_days_inj:
  "valid_date y m d \<Longrightarrow> valid_date y' m' d' \<Longrightarrow> date_days y m d = date_days y' m' d'
     \<Longrightarrow> y = y' \<and> m = m' \<and> d = d'"
  by (metis civil_date_days prod.inject)

lemma date_days_day [simp]: "date_days y m (d + k) = date_days y m d + k"
  by (simp add: date_days_def Let_def)


subsection \<open>Locations\<close>

text \<open>
  A location answers, for a Unix second, the zone offset in force and the Unix seconds between
  which it is in force (the result of \<^verbatim>\<open>Location.lookup\<close>).
\<close>

type_synonym location = "int \<Rightarrow> int \<times> int \<times> int"

definition UTC_location :: location where
  "UTC_location unix = (0, - (2 ^ 63), 2 ^ 63)"

definition offset_at :: "location \<Rightarrow> time \<Rightarrow> int" where
  "offset_at loc t = fst (loc (t div Second - unix_epoch))"

text \<open>Seconds since the zero time on the wall clock of a location, its day number and date.\<close>

definition local_seconds :: "location \<Rightarrow> time \<Rightarrow> int" where
  "local_seconds loc t = t div Second + offset_at loc t"

definition local_day :: "location \<Rightarrow> time \<Rightarrow> int" where
  "local_day loc t = local_seconds loc t div 86400"

definition time_In_Date :: "location \<Rightarrow> time \<Rightarrow> int \<times> int \<times> int" where
  "time_In_Date loc t = civil (local_day loc t)"

text \<open>\<^verbatim>\<open>Weekday\<close>, with Sunday as 0; the zero time was a Monday.\<close>

definition Weekday :: "location \<Rightarrow> time \<Rightarrow> int" where
  "Weekday loc t = (local_day loc t + 1) mod 7"

text \<open>
  \<^verbatim>\<open>time.Date\<close> looks the offset up at the wall-clock reading taken as UTC, and once more at the
  corrected instant when that lies outside the period of the offset found.
\<close>

definition time_Date :: "location \<Rightarrow> int \<Rightarrow> int \<Rightarrow> int \<Rightarrow> int \<Rightarrow> int \<Rightarrow> int \<Rightarrow> time" where
  "time_Date loc y m d hour minute sec =
     (let unix = date_days y m d * 86400 + hour * 3600 + minute * 60 + sec - unix_epoch;
          (offset, start, end) = loc unix
      in if offset = 0 then (unix + unix_epoch) * Second
         else let utc = unix - offset;
                  offset' = (if utc < start \<or> utc \<ge> end then fst (loc utc) else offset)
              in (unix - offset' + unix_epoch) * Second)"

lemma time_Date_UTC:
  "time_Date UTC_location y m d h mi s = (date_days y m d * 86400 + h * 3600 + mi * 60 + s) * Second"
  by (simp add: time_Date_def UTC_location_def)

lemma time_In_Date_UTC: "time_In_Date UTC_location t = civil (t div Second div 86400)"
  by (simp add: time_In_Date_def local_day_def local_seconds_def offset_at_def UTC_location_def)

text \<open>\<^verbatim>\<open>AddDate(0, 0, k)\<close> on a UTC time adds \<open>k\<close> days and keeps the clock.\<close>

definition AddDate_days_UTC :: "time \<Rightarrow> int \<Rightarrow> time" where
  "AddDate_days_UTC t k =
     (let (y, m, d) = time_In_Date UTC_location t; clock = t mod (86400 * Second)
      in date_days y m (d + k) * 86400 * Second + clock)"

lemma AddDate_days_UTC_eq: "AddDate_days_UTC t k = t + k * 86400 * Second"
proof -
  obtain y m d where c: "civil (t div Second div 86400) = (y, m, d)" by (metis prod_cases3)
  have "t div Second div 86400 = t div (86400 * Second)"
    by (simp add: zdiv_zmult2_eq mult.commute [of 86400])
  moreover have "t div (86400 * Second) * (86400 * Second) + t mod (86400 * Second) = t"
    by (rule div_mult_mod_eq)
  ultimately show ?thesis
    using civil_correct(2) [OF c] c
    by (simp add: AddDate_days_UTC_def time_In_Date_UTC Let_def algebra_simps)
qed

subsection \<open>Text of an instant\<close>

definition civil_text :: "string \<Rightarrow> string \<Rightarrow> string \<Rightarrow> time \<Rightarrow> string" where
  "civil_text dash sep colon t =
     (let (y, m, d) = time_In_Date UTC_location t; s = t div Second mod 86400
      in fmt0 4 (nat y) @ dash @ fmt0 2 (nat m) @ dash @ fmt0 2 (nat d) @ sep
         @ fmt0 2 (nat (s div 3600)) @ colon @ fmt0 2 (nat (s div 60 mod 60)) @ colon @ fmt0 2 (nat (s mod 60)))"

text \<open>The layouts \<^verbatim>\<open>20060102T150405.000000000Z\<close> and \<^verbatim>\<open>RFC3339Nano\<close> on a UTC time.\<close>

definition Format_compact :: "time \<Rightarrow> string" where
  "Format_compact t = civil_text [] ''T'' [] t @ ''.'' @ fmt0 9 (nat (t mod Second)) @ ''Z''"

definition Format_RFC3339Nano :: "time \<Rightarrow> string" where
  "Format_RFC3339Nano t =
     (let frac = rev (dropWhile (\<lambda>c. c = CHR ''0'') (rev (fmt0 9 (nat (t mod Second)))))
      in civil_text ''-'' ''T'' '':'' t @ (if frac = [] then [] else ''.'' @ frac) @ ''Z'')"

end
