(* ===== verification/Domain.thy ===== *)
theory Domain
  imports GoTime
begin

text \<open>
  The package \<^verbatim>\<open>internal/domain\<close>: identities, codes, classifications, catalog entities, market data
  and the ingestion records, with their parsers and validators, in the order of the source files.

  Go's string-based enumerations are strings here too, because a value of such a type can hold any
  text and the validators parse it again. \<^verbatim>\<open>json.RawMessage\<close> is modelled by what a JSON decoder sees in
  it, a \<^verbatim>\<open>Decimal\<close> (an exact decimal of an imported package) by the rational number it denotes.
\<close>

subsection \<open>JSON values\<close>

datatype json =
    JNull | JBool bool | JNumber string | JString string | JArray "json list"
  | JObject "(string \<times> json) list"

text \<open>Raw bytes: none at all, bytes that are not a JSON document, or the encoding of a value.\<close>

datatype RawMessage = RawEmpty | RawInvalid string | RawValue json

definition json_Valid :: "RawMessage \<Rightarrow> bool" where
  "json_Valid raw \<longleftrightarrow> (case raw of RawValue _ \<Rightarrow> True | _ \<Rightarrow> False)"

text \<open>\<^verbatim>\<open>json.Unmarshal\<close> into a Go string: \<^verbatim>\<open>null\<close> leaves the empty string.\<close>

definition json_string :: "RawMessage \<Rightarrow> string result" where
  "json_string raw = (case raw of
     RawValue (JString s) \<Rightarrow> Inr s
   | RawValue JNull \<Rightarrow> Inr ''''
   | _ \<Rightarrow> Inl (ErrPlain ''json''))"

text \<open>\<^verbatim>\<open>json.Valid\<close> and \<^verbatim>\<open>json.Unmarshal\<close> into a map that must not be nil afterwards.\<close>

definition isJSONObject :: "RawMessage \<Rightarrow> bool" where
  "isJSONObject raw \<longleftrightarrow> (case raw of RawValue (JObject _) \<Rightarrow> True | _ \<Rightarrow> False)"

definition emptyJSONObject :: RawMessage where
  "emptyJSONObject = RawValue (JObject [])"

definition normalizedJSON :: "RawMessage \<Rightarrow> RawMessage" where
  "normalizedJSON raw = (if raw = RawEmpty then emptyJSONObject else raw)"

lemma isJSONObject_simps [simp]:
  "isJSONObject emptyJSONObject" "isJSONObject (RawValue (JObject kvs))" "\<not> isJSONObject RawEmpty"
  by (simp_all add: isJSONObject_def emptyJSONObject_def)

lemma normalizedJSON_idem [simp]: "normalizedJSON (normalizedJSON raw) = normalizedJSON raw"
  by (simp add: normalizedJSON_def emptyJSONObject_def)

subsection \<open>Imported packages\<close>

text \<open>
  What the service uses of packages outside the repository: the time-zone names \<^verbatim>\<open>LoadLocation\<close>
  knows, the text form, parser and version field of a UUID, the text form and parser of a decimal,
  and the hexadecimal SHA-256 digest of a byte sequence. Definitions that call them take this record as an argument.
\<close>

record platform =
  LoadLocation_ok :: "string \<Rightarrow> bool"
  UUID_String :: "ID \<Rightarrow> string"
  UUID_Parse :: "string \<Rightarrow> ID option"
  UUID_Version :: "ID \<Rightarrow> int"
  Decimal_String :: "rat \<Rightarrow> string"
  Decimal_Parse :: "string \<Rightarrow> rat option"
  SHA256_hex :: "string \<Rightarrow> string"

subsection \<open>Identities (id.go)\<close>

definition ID_IsZero :: "ID \<Rightarrow> bool" where
  "ID_IsZero i \<longleftrightarrow> i = 0"

definition ParseID :: "platform \<Rightarrow> string \<Rightarrow> ID result" where
  "ParseID pf value = (case UUID_Parse pf value of
     None \<Rightarrow> Inl (ErrPlain ''parse ID'')
   | Some parsed \<Rightarrow>
       if UUID_String pf parsed \<noteq> value then Inl (ErrPlain ''parse ID: non-canonical UUID'')
       else Inr parsed)"

definition ID_MarshalText :: "platform \<Rightarrow> ID \<Rightarrow> string result" where
  "ID_MarshalText pf i =
     (if ID_IsZero i then Inl (ErrPlain ''marshal ID: zero ID'') else Inr (UUID_String pf i))"

text \<open>\<^verbatim>\<open>UnmarshalText\<close> on a non-nil receiver: the new value of the receiver, and the error.\<close>

definition ID_UnmarshalText :: "platform \<Rightarrow> ID \<Rightarrow> string \<Rightarrow> ID \<times> error option" where
  "ID_UnmarshalText pf old value =
     (case ParseID pf value of Inl e \<Rightarrow> (old, Some e) | Inr parsed \<Rightarrow> (parsed, None))"

definition ID_MarshalJSON :: "platform \<Rightarrow> ID \<Rightarrow> RawMessage result" where
  "ID_MarshalJSON pf i = bind_result (ID_MarshalText pf i) (\<lambda>text. Inr (RawValue (JString text)))"

definition ID_UnmarshalJSON :: "platform \<Rightarrow> ID \<Rightarrow> RawMessage \<Rightarrow> ID \<times> error option" where
  "ID_UnmarshalJSON pf old data =
     (case json_string data of Inl e \<Rightarrow> (old, Some e) | Inr text \<Rightarrow> ID_UnmarshalText pf old text)"

subsection \<open>Codes (code.go)\<close>

type_synonym Code = string

definition maximumCodeLength :: nat where "maximumCodeLength = 192"

definition code_separators :: "char list" where "code_separators = [CHR ''.'', CHR ''-'']"

definition codePattern :: "string \<Rightarrow> bool" where
  "codePattern s \<longleftrightarrow> match_segments code_separators s"

definition ParseCode :: "string \<Rightarrow> Code result" where
  "ParseCode value =
     (if length value = 0 \<or> maximumCodeLength < length value \<or> \<not> codePattern value
      then Inl ErrInvalidData else Inr value)"

definition Code_IsZero :: "Code \<Rightarrow> bool" where
  "Code_IsZero c \<longleftrightarrow> c = ''''"

definition Code_MarshalText :: "Code \<Rightarrow> string result" where
  "Code_MarshalText c = (if Code_IsZero c then Inl (ErrPlain ''marshal code: zero code'') else Inr c)"

definition Code_UnmarshalText :: "Code \<Rightarrow> string \<Rightarrow> Code \<times> error option" where
  "Code_UnmarshalText old data =
     (case ParseCode data of Inl e \<Rightarrow> (old, Some e) | Inr parsed \<Rightarrow> (parsed, None))"

definition Code_MarshalJSON :: "Code \<Rightarrow> RawMessage result" where
  "Code_MarshalJSON c = bind_result (Code_MarshalText c) (\<lambda>text. Inr (RawValue (JString text)))"

definition Code_UnmarshalJSON :: "Code \<Rightarrow> RawMessage \<Rightarrow> Code \<times> error option" where
  "Code_UnmarshalJSON old data =
     (case json_string data of Inl e \<Rightarrow> (old, Some e) | Inr text \<Rightarrow> Code_UnmarshalText old text)"

lemma code_separators_not_alnum: "\<forall>c \<in> set code_separators. \<not> lower_alnum c"
  by (simp add: code_separators_def lower_alnum_def)

lemma ParseCode_Inr_iff:
  "ParseCode value = Inr c \<longleftrightarrow> c = value \<and> length value \<le> 192 \<and> segment_word code_separators value"
  using match_segments_nonempty [of code_separators "value"]
  by (auto simp: ParseCode_def codePattern_def maximumCodeLength_def
      match_segments_iff [OF code_separators_not_alnum])

lemma ParseCode_cases: "ParseCode value = Inl ErrInvalidData \<or> ParseCode value = Inr value"
  by (simp add: ParseCode_def)

subsection \<open>Exact decimals and instants (values.go, instant.go)\<close>

definition ParseDecimal :: "platform \<Rightarrow> string \<Rightarrow> rat result" where
  "ParseDecimal pf value = (case Decimal_Parse pf value of
     None \<Rightarrow> Inl (ErrPlain ''parse decimal'') | Some parsed \<Rightarrow> Inr parsed)"

definition Decimal_MarshalJSON :: "platform \<Rightarrow> rat \<Rightarrow> RawMessage result" where
  "Decimal_MarshalJSON pf value = Inr (RawValue (JString (Decimal_String pf value)))"

definition Decimal_UnmarshalJSON :: "platform \<Rightarrow> rat \<Rightarrow> RawMessage \<Rightarrow> rat \<times> error option" where
  "Decimal_UnmarshalJSON pf old data =
     (case json_string data of
        Inl e \<Rightarrow> (old, Some e)
      | Inr text \<Rightarrow> (case ParseDecimal pf text of Inl e \<Rightarrow> (old, Some e) | Inr parsed \<Rightarrow> (parsed, None)))"

type_synonym UTCInstant = time

definition NewUTCInstant :: "time \<Rightarrow> UTCInstant result" where
  "NewUTCInstant value = (if IsZero value then Inl ErrInvalidData else Inr value)"

subsection \<open>Classifications (classification.go, catalog_classification.go, market_data.go)\<close>

type_synonym BarInterval = string

abbreviation "BarInterval1Hour \<equiv> ''1h''"
abbreviation "BarInterval1Day \<equiv> ''1d''"

definition ParseBarInterval :: "string \<Rightarrow> BarInterval result" where
  "ParseBarInterval value =
     (if value \<noteq> BarInterval1Hour \<and> value \<noteq> BarInterval1Day then Inl ErrInvalidData else Inr value)"

text \<open>The parsers written as a switch over the declared constants.\<close>

definition parse_enum :: "string list \<Rightarrow> string \<Rightarrow> string result" where
  "parse_enum allowed value = (if value \<in> set allowed then Inr value else Inl ErrInvalidData)"

definition ParseAssetType :: "string \<Rightarrow> string result" where
  "ParseAssetType = parse_enum [''STOCK'', ''ETF'', ''CRYPTO'', ''CASH'', ''FX'']"

definition ParseInstrumentType :: "string \<Rightarrow> string result" where
  "ParseInstrumentType = parse_enum [''EQUITY'', ''ETF'', ''SPOT'', ''FX'']"

definition ParseAssetStatus :: "string \<Rightarrow> string result" where
  "ParseAssetStatus = parse_enum [''active'', ''inactive'', ''delisted'']"

definition ParseInstrumentStatus :: "string \<Rightarrow> string result" where
  "ParseInstrumentStatus = parse_enum [''active'', ''suspended'', ''delisted'']"

definition ParseProviderType :: "string \<Rightarrow> string result" where
  "ParseProviderType = parse_enum [''BROKER'', ''EXCHANGE'', ''AGGREGATOR'']"

definition ParseProviderStatus :: "string \<Rightarrow> string result" where
  "ParseProviderStatus = parse_enum [''active'', ''disabled'', ''degraded'']"

definition ParseQualityStatus :: "string \<Rightarrow> string result" where
  "ParseQualityStatus = parse_enum [''unchecked'', ''valid'', ''warning'', ''invalid'']"

lemmas parse_enum_defs = ParseAssetType_def ParseInstrumentType_def ParseAssetStatus_def
  ParseInstrumentStatus_def ParseProviderType_def ParseProviderStatus_def ParseQualityStatus_def

definition err_of :: "'a result \<Rightarrow> error option" where
  "err_of r = (case r of Inl e \<Rightarrow> Some e | Inr _ \<Rightarrow> None)"

lemma err_of_simps [simp]: "err_of (Inl e) = Some e" "err_of (Inr v) = None"
  by (simp_all add: err_of_def)

lemma err_of_None_iff: "err_of r = None \<longleftrightarrow> (\<exists>v. r = Inr v)"
  by (cases r) auto

lemma parse_enum_Inr_iff: "parse_enum allowed value = Inr v \<longleftrightarrow> v = value \<and> value \<in> set allowed"
  by (auto simp: parse_enum_def)

lemma err_of_parse_enum [simp]: "err_of (parse_enum allowed value) = None \<longleftrightarrow> value \<in> set allowed"
  by (simp add: parse_enum_def)

lemma ParseBarInterval_Inr_iff:
  "ParseBarInterval value = Inr v \<longleftrightarrow> v = value \<and> (value = BarInterval1Hour \<or> value = BarInterval1Day)"
  by (auto simp: ParseBarInterval_def)

lemma err_of_ParseBarInterval [simp]:
  "err_of (ParseBarInterval value) = None \<longleftrightarrow> value = BarInterval1Hour \<or> value = BarInterval1Day"
  by (auto simp: ParseBarInterval_def)

text \<open>
  Encoding of an enumeration value. \<open>unmarshal_assigning\<close> is the catalog form, which stores the
  parser's result even when it failed; \<open>unmarshal_keeping\<close> leaves the receiver alone on an error.
\<close>

definition marshal_enum :: "string \<Rightarrow> RawMessage result" where
  "marshal_enum value =
     (if value = '''' then Inl (ErrPlain ''marshal: zero value'') else Inr (RawValue (JString value)))"

definition unmarshal_assigning :: "(string \<Rightarrow> string result) \<Rightarrow> string \<Rightarrow> RawMessage \<Rightarrow> string \<times> error option" where
  "unmarshal_assigning parse old data =
     (case json_string data of
        Inl e \<Rightarrow> (old, Some e)
      | Inr text \<Rightarrow> (case parse text of Inl e \<Rightarrow> ('''', Some e) | Inr parsed \<Rightarrow> (parsed, None)))"

definition unmarshal_keeping :: "(string \<Rightarrow> string result) \<Rightarrow> string \<Rightarrow> RawMessage \<Rightarrow> string \<times> error option" where
  "unmarshal_keeping parse old data =
     (case json_string data of
        Inl e \<Rightarrow> (old, Some e)
      | Inr text \<Rightarrow> (case parse text of Inl e \<Rightarrow> (old, Some e) | Inr parsed \<Rightarrow> (parsed, None)))"

lemma unmarshal_marshal_enum:
  assumes "parse v = Inr v" and "v \<noteq> ''''"
  shows "\<exists>raw. marshal_enum v = Inr raw \<and> unmarshal_assigning parse old raw = (v, None)
           \<and> unmarshal_keeping parse old raw = (v, None)"
  using assms by (simp add: marshal_enum_def unmarshal_assigning_def unmarshal_keeping_def json_string_def)

end
