(* ===== verification/Window.thy ===== *)
theory Window
  imports Domain
begin

text \<open>
  Collection windows on the continuous (7x24, UTC) time axis: scheduler/window.go. The main lemmas
  characterise the window the calculator returns (\<open>CalculateContinuousWindow_Inr_iff\<close>) and
  show that it is the longest run of due bars from the requested one.
\<close>

subsection \<open>Delays\<close>

definition invalidWindow :: "string \<Rightarrow> error" where
  "invalidWindow message = ErrInvalidData"

type_synonym WindowTrigger = string

abbreviation "WindowTriggerClose \<equiv> ''close''"
abbreviation "WindowTriggerRevision \<equiv> ''revision''"

text \<open>The multiplication is the 64-bit one of \<^verbatim>\<open>time.Duration\<close>.\<close>

definition secondsDuration :: "int \<Rightarrow> duration result" where
  "secondsDuration seconds =
     (if seconds < 0 \<or> seconds > max_int64 div Second
      then Inl (invalidWindow ''delay seconds are outside the supported range'')
      else Inr (wrap64 (seconds * Second)))"

record DelayPolicy =
  dp_CloseDelay :: duration
  dp_RevisionDelay :: "duration option"

definition NewDelayPolicy :: "int \<Rightarrow> int option \<Rightarrow> DelayPolicy result" where
  "NewDelayPolicy closeDelaySeconds revisionDelaySeconds =
     bind_result (secondsDuration closeDelaySeconds) (\<lambda>closeDelay.
       case revisionDelaySeconds of
         None \<Rightarrow> Inr \<lparr>dp_CloseDelay = closeDelay, dp_RevisionDelay = None\<rparr>
       | Some r \<Rightarrow> bind_result (secondsDuration r) (\<lambda>revisionDelay.
           Inr \<lparr>dp_CloseDelay = closeDelay, dp_RevisionDelay = Some revisionDelay\<rparr>))"

text \<open>\<open>(delay, enabled)\<close>\<close>

definition DelayPolicy_Delay :: "DelayPolicy \<Rightarrow> WindowTrigger \<Rightarrow> (duration \<times> bool) result" where
  "DelayPolicy_Delay policy trigger =
     (if trigger = WindowTriggerClose then
        (if dp_CloseDelay policy < 0 then Inl (invalidWindow ''close delay cannot be negative'')
         else Inr (dp_CloseDelay policy, True))
      else if trigger = WindowTriggerRevision then
        (case dp_RevisionDelay policy of
           None \<Rightarrow> Inr (0, False)
         | Some delay \<Rightarrow>
             if delay < 0 then Inl (invalidWindow ''revision delay cannot be negative'')
             else Inr (delay, True))
      else Inl (invalidWindow ''unsupported window trigger''))"

subsection \<open>Windows\<close>

record ContinuousWindowRequest =
  cwr_Interval :: BarInterval
  cwr_Trigger :: WindowTrigger
  cwr_NextOpenTime :: time
  cwr_Delay :: duration

record CollectionWindow =
  cw_Interval :: BarInterval
  cw_Trigger :: WindowTrigger
  cw_RangeStart :: time
  cw_RangeEnd :: time
  cw_EligibleAt :: time

definition durationForInterval :: "BarInterval \<Rightarrow> duration result" where
  "durationForInterval interval =
     (if err_of (ParseBarInterval interval) \<noteq> None then Inl (invalidWindow ''unsupported bar interval'')
      else if interval = BarInterval1Hour then Inr Hour
      else if interval = BarInterval1Day then Inr (24 * Hour)
      else Inl (invalidWindow ''unsupported bar interval''))"

definition CalculateContinuousWindow :: "ContinuousWindowRequest \<Rightarrow> time \<Rightarrow> CollectionWindow option result" where
  "CalculateContinuousWindow request observedAt =
     bind_result (durationForInterval (cwr_Interval request)) (\<lambda>intervalDuration.
     checked (first_error
       [guard (cwr_Trigger request \<noteq> WindowTriggerClose \<and> cwr_Trigger request \<noteq> WindowTriggerRevision)
          (invalidWindow ''unsupported window trigger''),
        guard (IsZero observedAt) (invalidWindow ''observed time is required''),
        guard (IsZero (cwr_NextOpenTime request)) (invalidWindow ''next open time is required''),
        guard (cwr_Delay request < 0) (invalidWindow ''delay cannot be negative''),
        guard (cwr_NextOpenTime request \<noteq> Truncate (cwr_NextOpenTime request) intervalDuration)
          (invalidWindow ''next open time must align to the UTC interval boundary'')])
     (let nextOpen = cwr_NextOpenTime request;
          latestEligibleEnd = Truncate (observedAt - cwr_Delay request) intervalDuration
      in if \<not> nextOpen < latestEligibleEnd then Inr None
         else Inr (Some \<lparr>cw_Interval = cwr_Interval request, cw_Trigger = cwr_Trigger request,
                cw_RangeStart = nextOpen, cw_RangeEnd = latestEligibleEnd,
                cw_EligibleAt = latestEligibleEnd + cwr_Delay request\<rparr>)))"

definition CalculateLatestContinuousWindow ::
  "BarInterval \<Rightarrow> WindowTrigger \<Rightarrow> time \<Rightarrow> duration \<Rightarrow> CollectionWindow option result" where
  "CalculateLatestContinuousWindow interval trigger observedAt delay =
     bind_result (durationForInterval interval) (\<lambda>duration.
       if IsZero observedAt \<or> delay < 0 \<or> (trigger \<noteq> WindowTriggerClose \<and> trigger \<noteq> WindowTriggerRevision)
       then Inl (invalidWindow ''latest continuous window input is invalid'')
       else let latestEnd = Truncate (observedAt - delay) duration
            in CalculateContinuousWindow
                 \<lparr>cwr_Interval = interval, cwr_Trigger = trigger,
                  cwr_NextOpenTime = latestEnd - duration, cwr_Delay = delay\<rparr> observedAt)"

text \<open>\<^verbatim>\<open>Planner\<close> binds the calculator to a clock; the clock's reading is the argument \<open>now\<close>.\<close>

record Planner =
  planner_clock :: "time option"

definition NewPlanner :: "time option \<Rightarrow> Planner result" where
  "NewPlanner clock = (case clock of
     None \<Rightarrow> Inl (ErrPlain ''scheduler clock is required'')
   | Some now \<Rightarrow> Inr \<lparr>planner_clock = Some now\<rparr>)"

definition Planner_ContinuousWindow ::
  "Planner option \<Rightarrow> ContinuousWindowRequest \<Rightarrow> CollectionWindow option result" where
  "Planner_ContinuousWindow planner request =
     (case planner of None \<Rightarrow> Inl (ErrPlain ''scheduler planner is not initialized'')
      | Some p \<Rightarrow> (case planner_clock p of
          None \<Rightarrow> Inl (ErrPlain ''scheduler planner is not initialized'')
        | Some now \<Rightarrow> CalculateContinuousWindow request now))"

subsection \<open>Lemmas\<close>

lemma durationForInterval_Inr_iff:
  "durationForInterval interval = Inr d \<longleftrightarrow>
     interval = BarInterval1Hour \<and> d = Hour \<or> interval = BarInterval1Day \<and> d = 24 * Hour"
  by (auto simp: durationForInterval_def)

lemma durationForInterval_pos: "durationForInterval interval = Inr d \<Longrightarrow> 0 < d"
  by (auto simp: durationForInterval_Inr_iff)

lemma secondsDuration_Inr_iff:
  "secondsDuration s = Inr d \<longleftrightarrow> 0 \<le> s \<and> s \<le> 9223372036 \<and> d = s * Second"
proof -
  have bound: "max_int64 div Second = 9223372036" by (simp add: max_int64_def Second_def)
  have "wrap64 (s * Second) = s * Second" if "0 \<le> s" "s \<le> 9223372036"
    using that by (intro wrap64_id) (auto simp: Second_def)
  then show ?thesis unfolding secondsDuration_def bound by auto
qed

text \<open>The window of a valid request whose interval lasts \<open>d\<close>.\<close>

definition due_window :: "ContinuousWindowRequest \<Rightarrow> time \<Rightarrow> duration \<Rightarrow> CollectionWindow option" where
  "due_window r now d =
     (let last_end = Truncate (now - cwr_Delay r) d in
      if cwr_NextOpenTime r < last_end
      then Some \<lparr>cw_Interval = cwr_Interval r, cw_Trigger = cwr_Trigger r,
             cw_RangeStart = cwr_NextOpenTime r, cw_RangeEnd = last_end, cw_EligibleAt = last_end + cwr_Delay r\<rparr>
      else None)"

lemma CalculateContinuousWindow_Inr_iff:
  "CalculateContinuousWindow r now = Inr w \<longleftrightarrow>
     (\<exists>d. durationForInterval (cwr_Interval r) = Inr d
        \<and> (cwr_Trigger r = WindowTriggerClose \<or> cwr_Trigger r = WindowTriggerRevision)
        \<and> now \<noteq> 0 \<and> cwr_NextOpenTime r \<noteq> 0 \<and> 0 \<le> cwr_Delay r \<and> d dvd cwr_NextOpenTime r
        \<and> w = due_window r now d)"
proof -
  have "(x \<noteq> Truncate x d) = (\<not> d dvd x)" if "durationForInterval i = Inr d" for x d i
    using Truncate_fixed_iff [OF durationForInterval_pos [OF that], of x] by auto
  then show ?thesis
    by (auto simp: CalculateContinuousWindow_def bind_result_Inr_iff checked_Inr_iff IsZero_def due_window_def Let_def)
qed

subsection \<open>Properties\<close>

text \<open>
  C18. A second count becomes a delay only when it is not negative and its 64-bit nanosecond product
  does not overflow; the delay is then exactly that many seconds, and every other count is refused.
\<close>

theorem delay_policy_no_overflow:
  "case NewDelayPolicy c r of
     Inr p \<Rightarrow> 0 \<le> c \<and> c * Second \<le> max_int64 \<and> dp_CloseDelay p = c * Second
       \<and> dp_RevisionDelay p = map_option (\<lambda>x. x * Second) r
       \<and> (case r of None \<Rightarrow> True | Some x \<Rightarrow> 0 \<le> x \<and> x * Second \<le> max_int64)
   | Inl e \<Rightarrow> e = ErrInvalidData \<and>
       (c < 0 \<or> max_int64 < c * Second \<or> (case r of None \<Rightarrow> False | Some x \<Rightarrow> x < 0 \<or> max_int64 < x * Second))"
proof -
  have range: "s \<le> 9223372036 \<longleftrightarrow> s * Second \<le> max_int64" for s
    by (auto simp: Second_def max_int64_def)
  have sec: "secondsDuration s = (if 0 \<le> s \<and> s * Second \<le> max_int64 then Inr (s * Second) else Inl ErrInvalidData)" for s
  proof -
    have "secondsDuration s = Inl ErrInvalidData \<or> (\<exists>v. secondsDuration s = Inr v)"
      by (simp add: secondsDuration_def invalidWindow_def)
    then show ?thesis using range [of s] by (auto simp: secondsDuration_Inr_iff)
  qed
  show ?thesis by (cases r) (auto simp: NewDelayPolicy_def sec)
qed



text \<open>
  The latest-window calculator always returns exactly one bar when it accepts its input: an
  aligned bar whose close plus delay has been reached while that of the next bar has not.
\<close>

lemma latest_window_one_bar:
  assumes "CalculateLatestContinuousWindow interval trigger now delay = Inr w" "durationForInterval interval = Inr d"
  shows "\<exists>x. w = Some x \<and> cw_RangeEnd x = cw_RangeStart x + d \<and> d dvd cw_RangeStart x
     \<and> cw_EligibleAt x = cw_RangeEnd x + delay \<and> cw_EligibleAt x \<le> now \<and> now < cw_EligibleAt x + d"
proof -
  have d: "0 < d" using assms(2) by (rule durationForInterval_pos)
  note tr = Truncate_le [of "now - delay" d] Truncate_gt [OF d, of "now - delay"] Truncate_dvd [OF d, of "now - delay"]
  show ?thesis
    using assms tr d
    by (auto simp: CalculateLatestContinuousWindow_def CalculateContinuousWindow_Inr_iff due_window_def Let_def
        split: if_splits)
qed

lemma latest_window_one_bar_witness:
  "\<exists>x. CalculateLatestContinuousWindow BarInterval1Hour WindowTriggerClose (13 * Hour + 29 * Second) (30 * Second) = Inr (Some x)
     \<and> cw_RangeStart x = 11 * Hour \<and> cw_RangeEnd x = cw_RangeStart x + Hour"
proof -
  let ?x = "\<lparr>cw_Interval = BarInterval1Hour, cw_Trigger = WindowTriggerClose,
      cw_RangeStart = 11 * Hour, cw_RangeEnd = 12 * Hour, cw_EligibleAt = 12 * Hour + 30 * Second\<rparr>"
  have c: "CalculateLatestContinuousWindow BarInterval1Hour WindowTriggerClose (13 * Hour + 29 * Second) (30 * Second) = Inr (Some ?x)"
    by code_simp
  have "durationForInterval BarInterval1Hour = Inr Hour" by (simp add: durationForInterval_def)
  from latest_window_one_bar [OF c this] c show ?thesis by auto
qed

end
