(* ===== verification/MarketTime.thy ===== *)
theory MarketTime
  imports Domain
begin

text \<open>
  Exchange-session calendars: markettime/calendar.go. The interface \<^verbatim>\<open>TradingCalendar\<close> is the record
  of its methods; \<^verbatim>\<open>NYSECalendar\<close> is its only implementation. The time-zone database is a parameter:
  the exchange location is the lookup function \<^verbatim>\<open>LoadLocation\<close> returned. What the calendar relies on
  is the locale \<open>exchange_location\<close>, and what its clients rely on is the locale \<open>trading_calendar\<close>.
\<close>

subsection \<open>Civil dates\<close>

definition invalidCalendar :: "string \<Rightarrow> error" where
  "invalidCalendar message = ErrInvalidData"

record MarketDate =
  md_Year :: int
  md_Month :: int
  md_Day :: int

definition date_fields :: "MarketDate \<Rightarrow> int \<times> int \<times> int" where
  "date_fields d = (md_Year d, md_Month d, md_Day d)"

definition MarketDate_Validate :: "MarketDate \<Rightarrow> error option" where
  "MarketDate_Validate d = first_error
     [guard (md_Year d < 1 \<or> md_Month d < 1 \<or> md_Month d > 12 \<or> md_Day d < 1 \<or> md_Day d > 31)
        (invalidCalendar ''market date is invalid''),
      (let v = time_Date UTC_location (md_Year d) (md_Month d) (md_Day d) 0 0 0
       in guard (time_In_Date UTC_location v \<noteq> date_fields d) (invalidCalendar ''market date is invalid''))]"

definition NewMarketDate :: "int \<Rightarrow> int \<Rightarrow> int \<Rightarrow> MarketDate result" where
  "NewMarketDate year month day =
     (let date = \<lparr>md_Year = year, md_Month = month, md_Day = day\<rparr>
      in checked (MarketDate_Validate date) (Inr date))"

definition DateInLocation :: "time \<Rightarrow> location option \<Rightarrow> MarketDate result" where
  "DateInLocation t loc = (case loc of
     None \<Rightarrow> Inl (invalidCalendar ''time and location are required'')
   | Some l \<Rightarrow>
       if IsZero t then Inl (invalidCalendar ''time and location are required'')
       else let (year, month, day) = time_In_Date l t in NewMarketDate year month day)"

definition UTCDate :: "time \<Rightarrow> MarketDate result" where
  "UTCDate t =
     (if IsZero t then Inl (invalidCalendar ''time is required'')
      else let (year, month, day) = time_In_Date UTC_location t in NewMarketDate year month day)"

definition MarketDate_String :: "MarketDate \<Rightarrow> string" where
  "MarketDate_String d =
     (if MarketDate_Validate d \<noteq> None then ''''
      else fmt0 4 (nat (md_Year d)) @ ''-'' @ fmt0 2 (nat (md_Month d)) @ ''-'' @ fmt0 2 (nat (md_Day d)))"

definition addDays :: "MarketDate \<Rightarrow> int \<Rightarrow> MarketDate" where
  "addDays d k =
     (let v = AddDate_days_UTC (time_Date UTC_location (md_Year d) (md_Month d) (md_Day d) 12 0 0) k;
          (year, month, day) = time_In_Date UTC_location v
      in \<lparr>md_Year = year, md_Month = month, md_Day = day\<rparr>)"

subsection \<open>Sessions\<close>

record MarketSession =
  ms_Date :: MarketDate
  ms_Open :: time
  ms_Close :: time

definition MarketSession_Validate :: "MarketSession \<Rightarrow> error option" where
  "MarketSession_Validate s = first_error
     [MarketDate_Validate (ms_Date s),
      guard (IsZero (ms_Open s) \<or> IsZero (ms_Close s) \<or> \<not> ms_Open s < ms_Close s)
        (invalidCalendar ''market session bounds are invalid'')]"

text \<open>
  The interface. \<^verbatim>\<open>(MarketSession, bool, error)\<close> of \<^verbatim>\<open>SessionForDate\<close> is an optional session:
  every implementation and caller reads the session only when the flag is true. \<^verbatim>\<open>SessionAt\<close>
  returns a session together with the flag, and the flag is kept.
\<close>

record TradingCalendar =
  tc_Location :: "location option"
  tc_SessionForDate :: "MarketDate \<Rightarrow> MarketSession option result"
  tc_SessionAt :: "time \<Rightarrow> (MarketSession option \<times> bool) result"
  tc_NextSession :: "time \<Rightarrow> MarketSession result"
  tc_PreviousSession :: "time \<Rightarrow> MarketSession result"

subsection \<open>The NYSE calendar\<close>

definition firstNYSEYear :: int where "firstNYSEYear = 2026"
definition lastNYSEYear :: int where "lastNYSEYear = 2028"

record SessionOverride =
  so_Date :: MarketDate
  so_Closed :: bool
  so_CloseHour :: int
  so_CloseMinute :: int

record sessionRule =
  sr_closed :: bool
  sr_closeHour :: int
  sr_closeMinute :: int

record NYSECalendar =
  nyse_location :: "location option"
  nyse_special :: "MarketDate \<rightharpoonup> sessionRule"

abbreviation mdate :: "int \<Rightarrow> int \<Rightarrow> int \<Rightarrow> MarketDate" where
  "mdate y m d \<equiv> \<lparr>md_Year = y, md_Month = m, md_Day = d\<rparr>"

definition nyse_closed :: "MarketDate list" where
  "nyse_closed =
     [mdate 2026 1 1, mdate 2026 1 19, mdate 2026 2 16, mdate 2026 4 3, mdate 2026 5 25, mdate 2026 6 19,
      mdate 2026 7 3, mdate 2026 9 7, mdate 2026 11 26, mdate 2026 12 25,
      mdate 2027 1 1, mdate 2027 1 18, mdate 2027 2 15, mdate 2027 3 26, mdate 2027 5 31, mdate 2027 6 18,
      mdate 2027 7 5, mdate 2027 9 6, mdate 2027 11 25, mdate 2027 12 24,
      mdate 2028 1 17, mdate 2028 2 21, mdate 2028 4 14, mdate 2028 5 29, mdate 2028 6 19, mdate 2028 7 4,
      mdate 2028 9 4, mdate 2028 11 23, mdate 2028 12 25]"

definition nyse_early :: "MarketDate list" where
  "nyse_early = [mdate 2026 11 27, mdate 2026 12 24, mdate 2027 11 26, mdate 2028 7 3, mdate 2028 11 24]"

definition officialNYSERules :: "MarketDate \<rightharpoonup> sessionRule" where
  "officialNYSERules =
     fold (\<lambda>d rules. rules(d \<mapsto> \<lparr>sr_closed = False, sr_closeHour = 13, sr_closeMinute = 0\<rparr>)) nyse_early
       (fold (\<lambda>d rules. rules(d \<mapsto> \<lparr>sr_closed = True, sr_closeHour = 0, sr_closeMinute = 0\<rparr>)) nyse_closed
          Map.empty)"

definition applyOverride :: "NYSECalendar \<Rightarrow> SessionOverride \<Rightarrow> NYSECalendar result" where
  "applyOverride cal ov =
     checked (MarketDate_Validate (so_Date ov))
     (if md_Year (so_Date ov) < firstNYSEYear \<or> md_Year (so_Date ov) > lastNYSEYear
      then Inl ErrCalendarOutOfRange
      else if so_Closed ov then
        (if so_CloseHour ov \<noteq> 0 \<or> so_CloseMinute ov \<noteq> 0
         then Inl (invalidCalendar ''closed NYSE override cannot also define a close time'')
         else Inr (cal\<lparr>nyse_special := (nyse_special cal)
                 (so_Date ov \<mapsto> \<lparr>sr_closed = True, sr_closeHour = 0, sr_closeMinute = 0\<rparr>)\<rparr>))
      else if so_CloseHour ov < 9 \<or> so_CloseHour ov > 16 \<or> so_CloseMinute ov < 0 \<or> so_CloseMinute ov > 59
           \<or> (so_CloseHour ov = 9 \<and> so_CloseMinute ov \<le> 30) \<or> (so_CloseHour ov = 16 \<and> so_CloseMinute ov \<noteq> 0)
      then Inl (invalidCalendar ''NYSE override close must be after 09:30 and no later than 16:00'')
      else Inr (cal\<lparr>nyse_special := (nyse_special cal)
              (so_Date ov \<mapsto> \<lparr>sr_closed = False, sr_closeHour = so_CloseHour ov,
                 sr_closeMinute = so_CloseMinute ov\<rparr>)\<rparr>))"

fun applyOverrides :: "NYSECalendar \<Rightarrow> SessionOverride list \<Rightarrow> NYSECalendar result" where
  "applyOverrides cal [] = Inr cal"
| "applyOverrides cal (ov # rest) = bind_result (applyOverride cal ov) (\<lambda>cal'. applyOverrides cal' rest)"

definition NewNYSECalendar ::
  "(string \<Rightarrow> location result) \<Rightarrow> SessionOverride list \<Rightarrow> NYSECalendar result" where
  "NewNYSECalendar LoadLocation overrides =
     bind_result (LoadLocation ''America/New_York'') (\<lambda>loc.
       applyOverrides \<lparr>nyse_location = Some loc, nyse_special = officialNYSERules\<rparr> overrides)"

text \<open>The receiver is a pointer: \<open>None\<close> is nil.\<close>

definition NYSE_Location :: "NYSECalendar option \<Rightarrow> location option" where
  "NYSE_Location cal = (case cal of None \<Rightarrow> None | Some c \<Rightarrow> nyse_location c)"

definition NYSE_SessionForDate :: "NYSECalendar option \<Rightarrow> MarketDate \<Rightarrow> MarketSession option result" where
  "NYSE_SessionForDate cal date =
     (case cal of None \<Rightarrow> Inl (ErrPlain ''NYSE calendar is not initialized'')
      | Some c \<Rightarrow> (case nyse_location c of None \<Rightarrow> Inl (ErrPlain ''NYSE calendar is not initialized'')
        | Some loc \<Rightarrow>
          checked (MarketDate_Validate date)
          (if md_Year date < firstNYSEYear \<or> md_Year date > lastNYSEYear then Inl ErrCalendarOutOfRange
           else
             let localNoon = time_Date loc (md_Year date) (md_Month date) (md_Day date) 12 0 0 in
             if Weekday loc localNoon = 6 \<or> Weekday loc localNoon = 0 then Inr None
             else
               let rule = nyse_special c date in
               if (case rule of Some r \<Rightarrow> sr_closed r | None \<Rightarrow> False) then Inr None
               else
                 let (closeHour, closeMinute) =
                       (case rule of Some r \<Rightarrow> (sr_closeHour r, sr_closeMinute r) | None \<Rightarrow> (16, 0));
                     session = \<lparr>ms_Date = date,
                       ms_Open = time_Date loc (md_Year date) (md_Month date) (md_Day date) 9 30 0,
                       ms_Close = time_Date loc (md_Year date) (md_Month date) (md_Day date) closeHour closeMinute 0\<rparr>
                 in checked (MarketSession_Validate session) (Inr (Some session)))))"

definition NYSE_SessionAt :: "NYSECalendar option \<Rightarrow> time \<Rightarrow> (MarketSession option \<times> bool) result" where
  "NYSE_SessionAt cal t =
     (if IsZero t then Inl (invalidCalendar ''session instant is required'')
      else bind_result (DateInLocation t (NYSE_Location cal)) (\<lambda>date.
           bind_result (NYSE_SessionForDate cal date) (\<lambda>found. case found of
             None \<Rightarrow> Inr (None, False)
           | Some session \<Rightarrow> Inr (Some session, ms_Open session \<le> t \<and> t < ms_Close session))))"

subsection \<open>Day numbers\<close>

definition day_of :: "MarketDate \<Rightarrow> int" where
  "day_of d = date_days (md_Year d) (md_Month d) (md_Day d)"

definition date_ok :: "MarketDate \<Rightarrow> bool" where
  "date_ok d \<longleftrightarrow> valid_date (md_Year d) (md_Month d) (md_Day d)"

lemma midday_div: "0 \<le> c \<Longrightarrow> c < 86400 \<Longrightarrow> (n * 86400 + c) * Second div Second div 86400 = n"
proof -
  assume c: "0 \<le> c" "c < 86400"
  have "(n * 86400 + c) * Second div Second = n * 86400 + c" by (simp add: Second_def)
  moreover have "(n * 86400 + c) div 86400 = n"
    by (rule int_div_pos_eq [of _ _ _ c]) (use c in auto)
  ultimately show ?thesis by simp
qed

lemma days_in_month_le: "days_in_month y m \<le> 31"
  by (simp add: days_in_month_def days_before_month_def)

lemma MarketDate_valid_iff [go_valid]:
  "MarketDate_Validate d = None \<longleftrightarrow> 1 \<le> md_Year d \<and> date_ok d"
proof -
  let ?y = "md_Year d" and ?m = "md_Month d" and ?d = "md_Day d"
  have "time_In_Date UTC_location (time_Date UTC_location ?y ?m ?d 0 0 0) = civil (date_days ?y ?m ?d)"
    using midday_div [of 0 "date_days ?y ?m ?d"] by (simp add: time_In_Date_UTC time_Date_UTC)
  moreover have "civil (date_days ?y ?m ?d) = (?y, ?m, ?d) \<longleftrightarrow> valid_date ?y ?m ?d"
    using civil_date_days civil_correct(1) by blast
  ultimately show ?thesis
    using days_in_month_le [of ?y ?m]
    by (auto simp: MarketDate_Validate_def Let_def date_fields_def date_ok_def valid_date_def)
qed

lemma addDays_civil: "date_fields (addDays d k) = civil (day_of d + k)"
proof -
  have "(day_of d * 86400 + 43200) * Second + k * 86400 * Second = ((day_of d + k) * 86400 + 43200) * Second"
    by (simp add: algebra_simps)
  then have "time_In_Date UTC_location (AddDate_days_UTC ((day_of d * 86400 + 43200) * Second) k) = civil (day_of d + k)"
    using midday_div [of 43200 "day_of d + k"] by (simp add: time_In_Date_UTC AddDate_days_UTC_eq)
  then show ?thesis
    by (simp add: addDays_def time_Date_UTC Let_def date_fields_def day_of_def split: prod.splits)
qed

lemma addDays_day [simp]: "day_of (addDays d k) = day_of d + k" "date_ok (addDays d k)"
  using civil_correct [of "day_of d + k"] addDays_civil [of d k]
  by (auto simp: date_fields_def day_of_def date_ok_def)

lemma day_of_inj: "date_ok d \<Longrightarrow> date_ok e \<Longrightarrow> day_of d = day_of e \<longleftrightarrow> d = e"
  using date_days_inj [of "md_Year d" "md_Month d" "md_Day d" "md_Year e" "md_Month e" "md_Day e"]
  by (auto simp: day_of_def date_ok_def)

lemma day_of_year:
  assumes "date_ok d"
  shows "days_before_year (md_Year d) \<le> day_of d" "day_of d < days_before_year (md_Year d + 1)"
proof -
  have m: "1 \<le> md_Month d" "md_Month d \<le> 12" and d: "1 \<le> md_Day d" "md_Day d \<le> days_in_month (md_Year d) (md_Month d)"
    using assms by (auto simp: date_ok_def valid_date_def)
  note w = month_within_year [OF m, of "leap (md_Year d)"]
  show "days_before_year (md_Year d) \<le> day_of d"
    using w d by (simp add: day_of_def date_days_valid [OF m])
  show "day_of d < days_before_year (md_Year d + 1)"
    using w(2) d by (auto simp: day_of_def date_days_valid [OF m] days_in_month_def
        days_before_year_Suc year_length_def split: if_splits)
qed

lemma DateInLocation_day:
  assumes "DateInLocation t (Some loc) = Inr d"
  shows "date_ok d" "day_of d = local_day loc t" "MarketDate_Validate d = None"
proof -
  obtain y m k where c: "civil (local_day loc t) = (y, m, k)" by (metis prod_cases3)
  with assms have "d = mdate y m k" "MarketDate_Validate d = None"
    by (auto simp: DateInLocation_def time_In_Date_def NewMarketDate_def checked_Inr_iff Let_def split: if_splits)
  with civil_correct [OF c] show "date_ok d" "day_of d = local_day loc t" "MarketDate_Validate d = None"
    by (auto simp: date_ok_def day_of_def)
qed

subsection \<open>What a session of the NYSE calendar is\<close>

lemma NYSE_SessionForDate_range:
  assumes "NYSE_SessionForDate cal d = Inr found"
  shows "MarketDate_Validate d = None" "2026 \<le> md_Year d" "md_Year d \<le> 2028"
  using assms by (auto simp: NYSE_SessionForDate_def checked_Inr_iff firstNYSEYear_def lastNYSEYear_def
      split: option.splits if_splits)

lemma NYSE_SessionForDate_day:
  assumes "NYSE_SessionForDate cal d = Inr found"
  shows "days_before_year 2026 \<le> day_of d" "day_of d < days_before_year 2029"
proof -
  have ok: "date_ok d" and y: "2026 \<le> md_Year d" "md_Year d \<le> 2028"
    using NYSE_SessionForDate_range [OF assms] by (auto simp: MarketDate_valid_iff)
  have "days_before_year 2026 \<le> days_before_year (md_Year d)"
    using days_before_year_mono [of 2026 "md_Year d"] year_length_bounds(1) [of 2026] y by (cases "md_Year d = 2026") auto
  moreover have "days_before_year (md_Year d + 1) \<le> days_before_year 2029"
    using days_before_year_mono [of "md_Year d + 1" 2029] year_length_bounds(1) [of "md_Year d + 1"] y
    by (cases "md_Year d = 2028") auto
  ultimately show "days_before_year 2026 \<le> day_of d" "day_of d < days_before_year 2029"
    using day_of_year [OF ok] by auto
qed

subsection \<open>The search for a session\<close>

function next_session_loop :: "NYSECalendar option \<Rightarrow> time \<Rightarrow> MarketDate \<Rightarrow> MarketSession result" where
  "next_session_loop cal t date =
     (case NYSE_SessionForDate cal date of
        Inl e \<Rightarrow> Inl e
      | Inr None \<Rightarrow> next_session_loop cal t (addDays date 1)
      | Inr (Some session) \<Rightarrow>
          if t < ms_Open session then Inr session else next_session_loop cal t (addDays date 1))"
  by pat_completeness auto
termination
  by (relation "measure (\<lambda>(cal, t, date). nat (days_before_year 2029 - day_of date))")
    (use NYSE_SessionForDate_day(2) in \<open>auto simp: nat_less_eq_zless\<close>)

function previous_session_loop :: "NYSECalendar option \<Rightarrow> time \<Rightarrow> MarketDate \<Rightarrow> MarketSession result" where
  "previous_session_loop cal t date =
     (case NYSE_SessionForDate cal date of
        Inl e \<Rightarrow> Inl e
      | Inr None \<Rightarrow> previous_session_loop cal t (addDays date (- 1))
      | Inr (Some session) \<Rightarrow>
          if ms_Close session \<le> t then Inr session else previous_session_loop cal t (addDays date (- 1)))"
  by pat_completeness auto
termination
  by (relation "measure (\<lambda>(cal, t, date). nat (day_of date - days_before_year 2026 + 1))")
    (use NYSE_SessionForDate_day(1) in \<open>auto simp: nat_less_eq_zless\<close>)

declare next_session_loop.simps [simp del] previous_session_loop.simps [simp del]

definition NYSE_NextSession :: "NYSECalendar option \<Rightarrow> time \<Rightarrow> MarketSession result" where
  "NYSE_NextSession cal t =
     (if IsZero t then Inl (invalidCalendar ''next-session instant is required'')
      else bind_result (DateInLocation t (NYSE_Location cal)) (next_session_loop cal t))"

definition NYSE_PreviousSession :: "NYSECalendar option \<Rightarrow> time \<Rightarrow> MarketSession result" where
  "NYSE_PreviousSession cal t =
     (if IsZero t then Inl (invalidCalendar ''previous-session instant is required'')
      else bind_result (DateInLocation t (NYSE_Location cal)) (previous_session_loop cal t))"

definition NYSE_TradingCalendar :: "NYSECalendar option \<Rightarrow> TradingCalendar" where
  "NYSE_TradingCalendar cal =
     \<lparr>tc_Location = NYSE_Location cal, tc_SessionForDate = NYSE_SessionForDate cal,
      tc_SessionAt = NYSE_SessionAt cal, tc_NextSession = NYSE_NextSession cal,
      tc_PreviousSession = NYSE_PreviousSession cal\<rparr>"

subsection \<open>What the calendar relies on and what it promises\<close>

text \<open>
  The documented behaviour of an exchange's zone table: the local date never goes back (clock
  changes happen away from midnight), and between 09:00 and 17:00 of a date one offset of less than
  a day is in force, so that a wall-clock reading there names an instant that shows this reading.
\<close>

locale exchange_location =
  fixes loc :: location
  assumes local_day_mono: "s \<le> t \<Longrightarrow> local_day loc s \<le> local_day loc t"
    and trading_hours: "\<exists>offset. \<bar>offset\<bar> < 86400 \<and> (\<forall>h mi. 540 \<le> 60 * h + mi \<longrightarrow> 60 * h + mi \<le> 1020 \<longrightarrow>
       time_Date loc y m d h mi 0 = (date_days y m d * 86400 + h * 3600 + mi * 60 - offset) * Second
       \<and> offset_at loc (time_Date loc y m d h mi 0) = offset)"

text \<open>A session the calendar lists under its own date.\<close>

definition is_session :: "(MarketDate \<Rightarrow> MarketSession option result) \<Rightarrow> MarketSession \<Rightarrow> bool" where
  "is_session session_on s \<longleftrightarrow> session_on (ms_Date s) = Inr (Some s)"

text \<open>
  A table of sessions by date: each session lies on its own date, and the table covers a bounded
  range of days only.
\<close>

locale session_calendar =
  fixes loc :: location
    and session_on :: "MarketDate \<Rightarrow> MarketSession option result"
    and first_day last_day :: int
  assumes day_mono: "x \<le> y \<Longrightarrow> local_day loc x \<le> local_day loc y"
    and session_valid: "session_on d = Inr (Some s) \<Longrightarrow> MarketSession_Validate s = None \<and> ms_Date s = d"
    and session_day: "session_on d = Inr (Some s) \<Longrightarrow>
       local_day loc (ms_Open s) = day_of d \<and> local_day loc (ms_Close s) = day_of d"
    and supported: "session_on d = Inr found \<Longrightarrow> date_ok d \<and> first_day \<le> day_of d \<and> day_of d \<le> last_day"
begin

lemma session_on_is_session: "session_on d = Inr (Some s) \<Longrightarrow> is_session session_on s \<and> ms_Date s = d"
  using session_valid [of d s] by (simp add: is_session_def)

lemma is_session_bounds:
  assumes "is_session session_on s"
  shows "ms_Open s < ms_Close s" "date_ok (ms_Date s)" "ms_Open s \<noteq> 0" "ms_Close s \<noteq> 0"
    "local_day loc (ms_Open s) = day_of (ms_Date s)" "local_day loc (ms_Close s) = day_of (ms_Date s)"
  using assms session_valid [of "ms_Date s" s] session_day [of "ms_Date s" s] supported [of "ms_Date s"]
  by (auto simp: is_session_def MarketSession_Validate_def IsZero_def)

lemma session_order:
  assumes "is_session session_on s" "is_session session_on u" "day_of (ms_Date s) < day_of (ms_Date u)"
  shows "ms_Close s < ms_Open u"
  using day_mono [of "ms_Open u" "ms_Close s"] is_session_bounds [OF assms(1)]
    is_session_bounds [OF assms(2)] assms(3) by linarith

lemma session_eq:
  assumes "is_session session_on s" "is_session session_on u" "day_of (ms_Date s) = day_of (ms_Date u)"
  shows "s = u"
proof -
  have "ms_Date s = ms_Date u"
    using assms(3) day_of_inj is_session_bounds(2) [OF assms(1)] is_session_bounds(2) [OF assms(2)] by blast
  with assms(1,2) show ?thesis by (simp add: is_session_def)
qed

text \<open>Sessions are disjoint: the order of their opens is the order of their dates and closes.\<close>

lemma session_open_cases:
  assumes "is_session session_on s" "is_session session_on u"
  obtains "s = u" | "ms_Close s < ms_Open u" | "ms_Close u < ms_Open s"
  using session_order [OF assms] session_order [OF assms(2,1)] session_eq [OF assms]
  by (meson linorder_less_linear)

lemma session_before_day:
  assumes "is_session session_on s" "day_of (ms_Date s) < local_day loc t"
  shows "ms_Close s < t"
  using day_mono [of t "ms_Close s"] is_session_bounds [OF assms(1)] assms(2) by linarith

lemma session_after_day:
  assumes "is_session session_on s" "local_day loc t < day_of (ms_Date s)"
  shows "t < ms_Open s"
  using day_mono [of "ms_Open s" t] is_session_bounds [OF assms(1)] assms(2) by linarith

end

text \<open>The full interface adds the three searches.\<close>

locale trading_calendar = session_calendar loc "tc_SessionForDate cal" first_day last_day
  for cal :: TradingCalendar and loc first_day last_day +
  assumes location: "tc_Location cal = Some loc"
    and session_at_some: "tc_SessionAt cal t = Inr (Some s, active) \<Longrightarrow>
       is_session (tc_SessionForDate cal) s \<and> (active \<longleftrightarrow> ms_Open s \<le> t \<and> t < ms_Close s)"
    and session_at_none: "tc_SessionAt cal t = Inr (None, active) \<Longrightarrow> \<not> active"
    and session_at_complete: "tc_SessionAt cal t = Inr (found, False) \<Longrightarrow> is_session (tc_SessionForDate cal) s
       \<Longrightarrow> \<not> (ms_Open s \<le> t \<and> t < ms_Close s)"
    and next_session: "tc_NextSession cal t = Inr s \<Longrightarrow> is_session (tc_SessionForDate cal) s \<and> t < ms_Open s"
    and next_session_first: "tc_NextSession cal t = Inr s \<Longrightarrow> is_session (tc_SessionForDate cal) u \<Longrightarrow> t < ms_Open u
       \<Longrightarrow> ms_Open s \<le> ms_Open u"
    and next_session_none: "tc_NextSession cal t = Inl e \<Longrightarrow> errors_Is e ErrCalendarOutOfRange
       \<Longrightarrow> first_day \<le> local_day loc t \<Longrightarrow> is_session (tc_SessionForDate cal) u \<Longrightarrow> \<not> t < ms_Open u"
    and previous_session_none: "tc_PreviousSession cal t = Inl e \<Longrightarrow> errors_Is e ErrCalendarOutOfRange
       \<Longrightarrow> local_day loc t \<le> last_day \<Longrightarrow> is_session (tc_SessionForDate cal) u \<Longrightarrow> \<not> ms_Close u \<le> t"
    and previous_session: "tc_PreviousSession cal t = Inr s \<Longrightarrow> is_session (tc_SessionForDate cal) s \<and> ms_Close s \<le> t"
    and previous_session_last: "tc_PreviousSession cal t = Inr s \<Longrightarrow> is_session (tc_SessionForDate cal) u \<Longrightarrow> ms_Close u \<le> t
       \<Longrightarrow> ms_Close u \<le> ms_Close s"

subsection \<open>The NYSE calendar keeps the contract\<close>

definition rule_ok :: "sessionRule \<Rightarrow> bool" where
  "rule_ok r \<longleftrightarrow> sr_closed r \<or>
     (570 < 60 * sr_closeHour r + sr_closeMinute r \<and> 60 * sr_closeHour r + sr_closeMinute r \<le> 960)"

definition rules_ok :: "NYSECalendar \<Rightarrow> bool" where
  "rules_ok c \<longleftrightarrow> (\<forall>d r. nyse_special c d = Some r \<longrightarrow> rule_ok r)"

lemma rules_ok_update:
  "rules_ok c \<Longrightarrow> rule_ok r \<Longrightarrow> rules_ok (c\<lparr>nyse_special := (nyse_special c)(d \<mapsto> r)\<rparr>)"
  by (auto simp: rules_ok_def)

lemma fold_update_ran:
  "fold (\<lambda>d m. m(d \<mapsto> v)) ds m0 d = Some r \<Longrightarrow> r = v \<or> m0 d = Some r"
proof (induction ds arbitrary: m0)
  case (Cons a ds)
  then show ?case by (cases "d = a") (force split: if_splits)+
qed simp

lemma official_rules_ok: "rules_ok \<lparr>nyse_location = l, nyse_special = officialNYSERules\<rparr>"
  unfolding rules_ok_def officialNYSERules_def
  by (auto dest!: fold_update_ran simp: rule_ok_def)

lemma applyOverride_ok:
  assumes "applyOverride c ov = Inr c'" and "rules_ok c"
  shows "rules_ok c'" "nyse_location c' = nyse_location c"
  using assms by (auto simp: applyOverride_def checked_Inr_iff rule_ok_def
      intro!: rules_ok_update split: if_splits)

lemma applyOverrides_ok:
  assumes "applyOverrides c ovs = Inr c'" and "rules_ok c"
  shows "rules_ok c' \<and> nyse_location c' = nyse_location c"
  using assms
  by (induction c ovs rule: applyOverrides.induct) (auto simp: bind_result_Inr_iff applyOverride_ok)

lemma NewNYSECalendar_ok:
  assumes "NewNYSECalendar load overrides = Inr c"
  obtains loc where "load ''America/New_York'' = Inr loc" "nyse_location c = Some loc" "rules_ok c"
  using assms that applyOverrides_ok [OF _ official_rules_ok]
  by (fastforce simp: NewNYSECalendar_def bind_result_Inr_iff)

locale nyse_calendar = exchange_location loc for loc +
  fixes c :: NYSECalendar
  assumes nyse_loc: "nyse_location c = Some loc" and rules: "rules_ok c"
begin

lemma session_cases:
  assumes "NYSE_SessionForDate (Some c) d = Inr (Some s)"
  obtains h mi where "570 < 60 * h + mi" "60 * h + mi \<le> 960" "ms_Date s = d"
    "ms_Open s = time_Date loc (md_Year d) (md_Month d) (md_Day d) 9 30 0"
    "ms_Close s = time_Date loc (md_Year d) (md_Month d) (md_Day d) h mi 0"
    "MarketSession_Validate s = None"
proof (cases "nyse_special c d")
  case None
  with assms that [of 16 0] nyse_loc show thesis
    by (auto simp: NYSE_SessionForDate_def checked_Inr_iff Let_def split: if_splits)
next
  case (Some r)
  then have "rule_ok r" using rules by (auto simp: rules_ok_def)
  with assms that [of "sr_closeHour r" "sr_closeMinute r"] nyse_loc Some show thesis
    by (auto simp: NYSE_SessionForDate_def checked_Inr_iff Let_def rule_ok_def split: if_splits)
qed

lemma local_day_trading_hours:
  assumes "540 \<le> 60 * h + mi" "60 * h + mi \<le> 1020"
  shows "local_day loc (time_Date loc (md_Year d) (md_Month d) (md_Day d) h mi 0) = day_of d"
proof -
  obtain off where off:
    "time_Date loc (md_Year d) (md_Month d) (md_Day d) h mi 0 = (day_of d * 86400 + h * 3600 + mi * 60 - off) * Second"
    "offset_at loc (time_Date loc (md_Year d) (md_Month d) (md_Day d) h mi 0) = off"
    using trading_hours assms unfolding day_of_def by blast
  have "local_seconds loc (time_Date loc (md_Year d) (md_Month d) (md_Day d) h mi 0)
      = day_of d * 86400 + (h * 3600 + mi * 60)"
    unfolding local_seconds_def off(2) by (simp add: off(1) Second_def)
  moreover have "(day_of d * 86400 + (h * 3600 + mi * 60)) div 86400 = day_of d"
    by (rule int_div_pos_eq [of _ _ _ "h * 3600 + mi * 60"]) (use assms in auto)
  ultimately show ?thesis by (simp add: local_day_def)
qed

lemma nyse_session_day:
  assumes "NYSE_SessionForDate (Some c) d = Inr (Some s)"
  shows "local_day loc (ms_Open s) = day_of d \<and> local_day loc (ms_Close s) = day_of d"
  using assms by (rule session_cases) (simp add: local_day_trading_hours)

end

sublocale nyse_calendar \<subseteq> session_calendar loc "NYSE_SessionForDate (Some c)"
  "days_before_year 2026" "days_before_year 2029 - 1"
proof
  show "MarketSession_Validate s = None \<and> ms_Date s = d"
    if "NYSE_SessionForDate (Some c) d = Inr (Some s)" for d s
    using that by (rule session_cases) simp
qed (use local_day_mono nyse_session_day NYSE_SessionForDate_range NYSE_SessionForDate_day in
     \<open>auto simp: MarketDate_valid_iff\<close>)

context nyse_calendar
begin

abbreviation "session \<equiv> is_session (NYSE_SessionForDate (Some c))"

lemma session_day_eq:
  assumes "session u" "date_ok d" "day_of (ms_Date u) = day_of d"
  shows "NYSE_SessionForDate (Some c) d = Inr (Some u)"
  using assms day_of_inj [of "ms_Date u" d] is_session_bounds(2) [OF assms(1)]
  by (auto simp: is_session_def)

lemma next_session_loop_correct:
  assumes "next_session_loop (Some c) t d = Inr s" "date_ok d"
  shows "session s \<and> t < ms_Open s
       \<and> (\<forall>u. session u \<longrightarrow> t < ms_Open u \<longrightarrow> day_of d \<le> day_of (ms_Date u) \<longrightarrow> ms_Open s \<le> ms_Open u)"
  using assms
proof (induction "Some c" t d rule: next_session_loop.induct)
  case (1 t d)
  have step: "next_session_loop (Some c) t (addDays d 1) = Inr s \<Longrightarrow>
      session s \<and> t < ms_Open s
      \<and> (\<forall>u. session u \<longrightarrow> t < ms_Open u \<longrightarrow> day_of d + 1 \<le> day_of (ms_Date u) \<longrightarrow> ms_Open s \<le> ms_Open u)"
    if "NYSE_SessionForDate (Some c) d = Inr None \<or>
        (\<exists>x. NYSE_SessionForDate (Some c) d = Inr (Some x) \<and> \<not> t < ms_Open x)"
    using 1(1,2) that by auto
  show ?case
  proof (cases "\<exists>x. NYSE_SessionForDate (Some c) d = Inr (Some x) \<and> t < ms_Open x")
    case True
    then obtain x where x: "NYSE_SessionForDate (Some c) d = Inr (Some x)" "t < ms_Open x" by blast
    then have "s = x" using 1(3) by (simp add: next_session_loop.simps [of "Some c" t d])
    moreover have sx: "session x" and dx: "ms_Date x = d" using session_on_is_session [OF x(1)] by auto
    moreover have "ms_Open x \<le> ms_Open u" if "session u" "day_of d \<le> day_of (ms_Date u)" for u
      using session_order [OF sx that(1)] session_eq [OF sx that(1)] is_session_bounds(1) [OF sx]
        is_session_bounds(1) [OF that(1)] that(2) dx by (cases "day_of d = day_of (ms_Date u)") auto
    ultimately show ?thesis using x(2) by blast
  next
    case False
    then have miss: "NYSE_SessionForDate (Some c) d = Inr None \<or>
        (\<exists>x. NYSE_SessionForDate (Some c) d = Inr (Some x) \<and> \<not> t < ms_Open x)"
      using 1(3) by (auto simp: next_session_loop.simps [of "Some c" t d] split: sum.splits option.splits)
    then have "next_session_loop (Some c) t (addDays d 1) = Inr s"
      using 1(3) by (auto simp: next_session_loop.simps [of "Some c" t d])
    note rest = step [OF miss this]
    have "day_of d + 1 \<le> day_of (ms_Date u)"
      if "session u" "t < ms_Open u" "day_of d \<le> day_of (ms_Date u)" for u
      using False session_day_eq [OF that(1) 1(4)] that(2,3) by fastforce
    with rest show ?thesis by blast
  qed
qed

lemma previous_session_loop_correct:
  assumes "previous_session_loop (Some c) t d = Inr s" "date_ok d"
  shows "session s \<and> ms_Close s \<le> t
       \<and> (\<forall>u. session u \<longrightarrow> ms_Close u \<le> t \<longrightarrow> day_of (ms_Date u) \<le> day_of d \<longrightarrow> ms_Close u \<le> ms_Close s)"
  using assms
proof (induction "Some c" t d rule: previous_session_loop.induct)
  case (1 t d)
  have step: "previous_session_loop (Some c) t (addDays d (- 1)) = Inr s \<Longrightarrow>
      session s \<and> ms_Close s \<le> t
      \<and> (\<forall>u. session u \<longrightarrow> ms_Close u \<le> t \<longrightarrow> day_of (ms_Date u) \<le> day_of d - 1 \<longrightarrow> ms_Close u \<le> ms_Close s)"
    if "NYSE_SessionForDate (Some c) d = Inr None \<or>
        (\<exists>x. NYSE_SessionForDate (Some c) d = Inr (Some x) \<and> \<not> ms_Close x \<le> t)"
    using 1(1,2) that by auto
  show ?case
  proof (cases "\<exists>x. NYSE_SessionForDate (Some c) d = Inr (Some x) \<and> ms_Close x \<le> t")
    case True
    then obtain x where x: "NYSE_SessionForDate (Some c) d = Inr (Some x)" "ms_Close x \<le> t" by blast
    then have "s = x" using 1(3) by (simp add: previous_session_loop.simps [of "Some c" t d])
    moreover have sx: "session x" and dx: "ms_Date x = d" using session_on_is_session [OF x(1)] by auto
    moreover have "ms_Close u \<le> ms_Close x" if "session u" "day_of (ms_Date u) \<le> day_of d" for u
      using session_order [OF that(1) sx] session_eq [OF sx that(1)] is_session_bounds(1) [OF sx]
        is_session_bounds(1) [OF that(1)] that(2) dx by (cases "day_of d = day_of (ms_Date u)") auto
    ultimately show ?thesis using x(2) by blast
  next
    case False
    then have miss: "NYSE_SessionForDate (Some c) d = Inr None \<or>
        (\<exists>x. NYSE_SessionForDate (Some c) d = Inr (Some x) \<and> \<not> ms_Close x \<le> t)"
      using 1(3) by (auto simp: previous_session_loop.simps [of "Some c" t d] split: sum.splits option.splits)
    then have "previous_session_loop (Some c) t (addDays d (- 1)) = Inr s"
      using 1(3) by (auto simp: previous_session_loop.simps [of "Some c" t d])
    note rest = step [OF miss this]
    have "day_of (ms_Date u) \<le> day_of d - 1"
      if "session u" "ms_Close u \<le> t" "day_of (ms_Date u) \<le> day_of d" for u
      using False session_day_eq [OF that(1) 1(4)] that(2,3) by fastforce
    with rest show ?thesis by blast
  qed
qed

text \<open>Inside the supported years the table answers for every date.\<close>

lemma SessionForDate_total:
  assumes "date_ok d" "2026 \<le> md_Year d" "md_Year d \<le> 2028"
  shows "\<exists>found. NYSE_SessionForDate (Some c) d = Inr found"
proof -
  have valid: "MarketDate_Validate d = None" using assms by (simp add: MarketDate_valid_iff)
  have "days_before_year 2026 \<le> days_before_year (md_Year d)"
    using days_before_year_mono [of 2026 "md_Year d"] year_length_bounds(1) [of 2026] assms(2)
    by (cases "md_Year d = 2026") auto
  then have late: "739616 \<le> day_of d"
    using day_of_year(1) [OF assms(1)] by (simp add: days_before_year_def)
  obtain off where off: "\<bar>off\<bar> < 86400" "\<And>h mi. 540 \<le> 60 * h + mi \<Longrightarrow> 60 * h + mi \<le> 1020 \<Longrightarrow>
      time_Date loc (md_Year d) (md_Month d) (md_Day d) h mi 0 = (day_of d * 86400 + h * 3600 + mi * 60 - off) * Second"
    using trading_hours [of "md_Year d" "md_Month d" "md_Day d"] unfolding day_of_def by blast
  have ok: "MarketSession_Validate \<lparr>ms_Date = d,
      ms_Open = time_Date loc (md_Year d) (md_Month d) (md_Day d) 9 30 0,
      ms_Close = time_Date loc (md_Year d) (md_Month d) (md_Day d) h mi 0\<rparr> = None"
    if "570 < 60 * h + mi" "60 * h + mi \<le> 960" for h mi
    using off that late valid by (auto simp: MarketSession_Validate_def IsZero_def Second_def)
  show ?thesis
  proof (cases "nyse_special c d")
    case None
    with valid assms ok [of 16 0] nyse_loc show ?thesis
      by (auto simp: NYSE_SessionForDate_def Let_def firstNYSEYear_def lastNYSEYear_def)
  next
    case (Some r)
    then have "rule_ok r" using rules by (auto simp: rules_ok_def)
    with Some valid assms ok [of "sr_closeHour r" "sr_closeMinute r"] nyse_loc show ?thesis
      by (auto simp: NYSE_SessionForDate_def Let_def firstNYSEYear_def lastNYSEYear_def rule_ok_def)
  qed
qed

lemma SessionForDate_error:
  assumes "NYSE_SessionForDate (Some c) d = Inl e" "date_ok d"
  shows "day_of d < days_before_year 2026 \<or> days_before_year 2029 \<le> day_of d"
proof -
  have year: "md_Year d < 2026 \<or> 2028 < md_Year d"
    using SessionForDate_total [OF assms(2)] assms(1) by fastforce
  have below: "days_before_year (md_Year d + 1) \<le> days_before_year 2026" if "md_Year d < 2026"
    using days_before_year_mono [of "md_Year d + 1" 2026] year_length_bounds(1) [of "md_Year d + 1"] that
    by (cases "md_Year d = 2025") auto
  have above: "days_before_year 2029 \<le> days_before_year (md_Year d)" if "2028 < md_Year d"
    using days_before_year_mono [of 2029 "md_Year d"] year_length_bounds(1) [of 2029] that
    by (cases "md_Year d = 2029") auto
  show ?thesis using year below above day_of_year [OF assms(2)] by linarith
qed

lemma next_session_loop_none:
  assumes "next_session_loop (Some c) t d = Inl e" "date_ok d" "days_before_year 2026 \<le> day_of d"
    "session u" "day_of d \<le> day_of (ms_Date u)"
  shows "\<not> t < ms_Open u"
  using assms
proof (induction "Some c" t d rule: next_session_loop.induct)
  case (1 t d)
  show ?case
  proof (cases "NYSE_SessionForDate (Some c) d")
    case (Inl e')
    have "day_of (ms_Date u) < days_before_year 2029"
      using supported [of "ms_Date u"] 1(6) by (auto simp: is_session_def)
    then show ?thesis using SessionForDate_error [OF Inl 1(4)] 1(5,7) by linarith
  next
    case (Inr found)
    then have rec: "next_session_loop (Some c) t (addDays d 1) = Inl e"
      and miss: "\<And>x. found = Some x \<Longrightarrow> \<not> t < ms_Open x"
      using 1(3) by (auto simp: next_session_loop.simps [of "Some c" t d] split: option.splits if_splits)
    show ?thesis
    proof (cases "day_of (ms_Date u) = day_of d")
      case True
      then show ?thesis using session_day_eq [OF 1(6,4)] miss Inr by simp
    next
      case False
      with 1(5,7) have "days_before_year 2026 \<le> day_of (addDays d 1)" "day_of (addDays d 1) \<le> day_of (ms_Date u)"
        by simp_all
      with 1(1,2) Inr rec miss 1(6) show ?thesis by (cases found) auto
    qed
  qed
qed

lemma previous_session_loop_none:
  assumes "previous_session_loop (Some c) t d = Inl e" "date_ok d" "day_of d < days_before_year 2029"
    "session u" "day_of (ms_Date u) \<le> day_of d"
  shows "\<not> ms_Close u \<le> t"
  using assms
proof (induction "Some c" t d rule: previous_session_loop.induct)
  case (1 t d)
  show ?case
  proof (cases "NYSE_SessionForDate (Some c) d")
    case (Inl e')
    have "days_before_year 2026 \<le> day_of (ms_Date u)"
      using supported [of "ms_Date u"] 1(6) by (auto simp: is_session_def)
    then show ?thesis using SessionForDate_error [OF Inl 1(4)] 1(5,7) by linarith
  next
    case (Inr found)
    then have rec: "previous_session_loop (Some c) t (addDays d (- 1)) = Inl e"
      and miss: "\<And>x. found = Some x \<Longrightarrow> \<not> ms_Close x \<le> t"
      using 1(3) by (auto simp: previous_session_loop.simps [of "Some c" t d] split: option.splits if_splits)
    show ?thesis
    proof (cases "day_of (ms_Date u) = day_of d")
      case True
      then show ?thesis using session_day_eq [OF 1(6,4)] miss Inr by simp
    next
      case False
      with 1(5,7) have "day_of (addDays d (- 1)) < days_before_year 2029"
        "day_of (ms_Date u) \<le> day_of (addDays d (- 1))"
        by simp_all
      with 1(1,2) Inr rec miss 1(6) show ?thesis by (cases found) auto
    qed
  qed
qed

lemma DateInLocation_error: "DateInLocation t l = Inl e \<Longrightarrow> e = ErrInvalidData"
  by (auto simp: DateInLocation_def NewMarketDate_def MarketDate_Validate_def invalidCalendar_def
      guard_def Let_def checked_def split: option.splits if_splits prod.splits)

lemma nyse_next_none:
  assumes "NYSE_NextSession (Some c) t = Inl e" "e \<noteq> ErrInvalidData"
    "days_before_year 2026 \<le> local_day loc t" "session u"
  shows "\<not> t < ms_Open u"
proof -
  obtain d where d: "DateInLocation t (Some loc) = Inr d" "next_session_loop (Some c) t d = Inl e"
    using assms(1,2) nyse_loc DateInLocation_error
    by (auto simp: NYSE_NextSession_def NYSE_Location_def bind_result_Inl_iff invalidCalendar_def split: if_splits)
  have "\<not> t < ms_Open u" if "day_of d \<le> day_of (ms_Date u)"
    using next_session_loop_none [OF d(2) _ _ assms(4) that] DateInLocation_day [OF d(1)] assms(3) by simp
  then show ?thesis
    using session_before_day [OF assms(4), of t] is_session_bounds(1) [OF assms(4)]
      DateInLocation_day(2) [OF d(1)] by linarith
qed

lemma nyse_previous_none:
  assumes "NYSE_PreviousSession (Some c) t = Inl e" "e \<noteq> ErrInvalidData"
    "local_day loc t < days_before_year 2029" "session u"
  shows "\<not> ms_Close u \<le> t"
proof -
  obtain d where d: "DateInLocation t (Some loc) = Inr d" "previous_session_loop (Some c) t d = Inl e"
    using assms(1,2) nyse_loc DateInLocation_error
    by (auto simp: NYSE_PreviousSession_def NYSE_Location_def bind_result_Inl_iff invalidCalendar_def split: if_splits)
  have "\<not> ms_Close u \<le> t" if "day_of (ms_Date u) \<le> day_of d"
    using previous_session_loop_none [OF d(2) _ _ assms(4) that] DateInLocation_day [OF d(1)] assms(3) by simp
  then show ?thesis
    using session_after_day [OF assms(4), of t] is_session_bounds(1) [OF assms(4)]
      DateInLocation_day(2) [OF d(1)] by linarith
qed

lemma nyse_next_session:
  assumes "NYSE_NextSession (Some c) t = Inr s"
  shows "session s \<and> t < ms_Open s \<and> (\<forall>u. session u \<longrightarrow> t < ms_Open u \<longrightarrow> ms_Open s \<le> ms_Open u)"
proof -
  obtain d where d: "DateInLocation t (Some loc) = Inr d" "next_session_loop (Some c) t d = Inr s"
    using assms nyse_loc
    by (auto simp: NYSE_NextSession_def NYSE_Location_def bind_result_Inr_iff split: if_splits)
  have "day_of d \<le> day_of (ms_Date u)" if "session u" "t < ms_Open u" for u
    using session_before_day [OF that(1), of t] is_session_bounds(1) [OF that(1)] that(2)
      DateInLocation_day(2) [OF d(1)] by linarith
  then show ?thesis using next_session_loop_correct [OF d(2) DateInLocation_day(1) [OF d(1)]] by blast
qed

lemma nyse_previous_session:
  assumes "NYSE_PreviousSession (Some c) t = Inr s"
  shows "session s \<and> ms_Close s \<le> t \<and> (\<forall>u. session u \<longrightarrow> ms_Close u \<le> t \<longrightarrow> ms_Close u \<le> ms_Close s)"
proof -
  obtain d where d: "DateInLocation t (Some loc) = Inr d" "previous_session_loop (Some c) t d = Inr s"
    using assms nyse_loc
    by (auto simp: NYSE_PreviousSession_def NYSE_Location_def bind_result_Inr_iff split: if_splits)
  have "day_of (ms_Date u) \<le> day_of d" if "session u" "ms_Close u \<le> t" for u
    using session_after_day [OF that(1), of t] is_session_bounds(1) [OF that(1)] that(2)
      DateInLocation_day(2) [OF d(1)] by linarith
  then show ?thesis using previous_session_loop_correct [OF d(2) DateInLocation_day(1) [OF d(1)]] by blast
qed

lemma nyse_session_at:
  assumes "NYSE_SessionAt (Some c) t = Inr (found, active)"
  shows "active \<longleftrightarrow> (\<exists>s. session s \<and> ms_Open s \<le> t \<and> t < ms_Close s)"
    "\<And>s. found = Some s \<Longrightarrow> session s \<and> (active \<longleftrightarrow> ms_Open s \<le> t \<and> t < ms_Close s)"
    "found = None \<Longrightarrow> \<not> active"
proof -
  obtain d f where d: "DateInLocation t (Some loc) = Inr d" "NYSE_SessionForDate (Some c) d = Inr f"
    and found: "(case f of None \<Rightarrow> Inr (None, False)
        | Some s \<Rightarrow> Inr (Some s, ms_Open s \<le> t \<and> t < ms_Close s)) = (Inr (found, active) :: (MarketSession option \<times> bool) result)"
    using assms nyse_loc
    by (auto simp: NYSE_SessionAt_def NYSE_Location_def bind_result_Inr_iff split: if_splits)
  have res: "found = f" "active \<longleftrightarrow> (case f of None \<Rightarrow> False | Some s \<Rightarrow> ms_Open s \<le> t \<and> t < ms_Close s)"
    using found by (cases f; auto)+
  have on_day: "f = Some s" if "session s" "ms_Open s \<le> t" "t < ms_Close s" for s
  proof -
    have "day_of (ms_Date s) = day_of d"
      using day_mono [OF that(2)] day_mono [of t "ms_Close s"] that(3) is_session_bounds(5,6) [OF that(1)]
        DateInLocation_day(2) [OF d(1)] by linarith
    then show ?thesis using session_day_eq [OF that(1) DateInLocation_day(1) [OF d(1)]] d(2) by simp
  qed
  show "session s \<and> (active \<longleftrightarrow> ms_Open s \<le> t \<and> t < ms_Close s)" if "found = Some s" for s
    using session_on_is_session [of d s] d(2) res that by auto
  then show "active \<longleftrightarrow> (\<exists>s. session s \<and> ms_Open s \<le> t \<and> t < ms_Close s)"
    using on_day res by (cases f) auto
  show "\<not> active" if "found = None" using that res by simp
qed

end

sublocale nyse_calendar \<subseteq> full: trading_calendar "NYSE_TradingCalendar (Some c)" loc
  "days_before_year 2026" "days_before_year 2029 - 1"
proof unfold_locales
  fix x y :: time
  assume "x \<le> y"
  then show "local_day loc x \<le> local_day loc y" by (rule day_mono)
next
  fix d s
  assume "tc_SessionForDate (NYSE_TradingCalendar (Some c)) d = Inr (Some s)"
  then have "NYSE_SessionForDate (Some c) d = Inr (Some s)" by (simp add: NYSE_TradingCalendar_def)
  then show "MarketSession_Validate s = None \<and> ms_Date s = d"
    "local_day loc (ms_Open s) = day_of d \<and> local_day loc (ms_Close s) = day_of d"
    by (rule session_valid, rule session_day)
next
  fix d found
  assume "tc_SessionForDate (NYSE_TradingCalendar (Some c)) d = Inr found"
  then show "date_ok d \<and> days_before_year 2026 \<le> day_of d \<and> day_of d \<le> days_before_year 2029 - 1"
    using supported by (simp add: NYSE_TradingCalendar_def)
next
  fix t active
  assume "tc_SessionAt (NYSE_TradingCalendar (Some c)) t = Inr (None, active)"
  then show "\<not> active" by (intro nyse_session_at(3)) (simp_all add: NYSE_TradingCalendar_def)
next
  fix t e u
  assume "tc_NextSession (NYSE_TradingCalendar (Some c)) t = Inl e" "errors_Is e ErrCalendarOutOfRange"
    "days_before_year 2026 \<le> local_day loc t"
    "is_session (tc_SessionForDate (NYSE_TradingCalendar (Some c))) u"
  then show "\<not> t < ms_Open u"
    using nyse_next_none [of t e u] by (cases "e = ErrInvalidData") (auto simp: NYSE_TradingCalendar_def)
next
  fix t e u
  assume "tc_PreviousSession (NYSE_TradingCalendar (Some c)) t = Inl e" "errors_Is e ErrCalendarOutOfRange"
    "local_day loc t \<le> days_before_year 2029 - 1"
    "is_session (tc_SessionForDate (NYSE_TradingCalendar (Some c))) u"
  then show "\<not> ms_Close u \<le> t"
    using nyse_previous_none [of t e u] by (cases "e = ErrInvalidData") (auto simp: NYSE_TradingCalendar_def)
qed (use nyse_session_at(1,2) nyse_next_session nyse_previous_session nyse_loc in
     \<open>auto simp: NYSE_TradingCalendar_def NYSE_Location_def\<close>)

subsection \<open>The zone table of New York for the supported years\<close>

text \<open>
  A location that meets \<open>exchange_location\<close>: the entries of America/New_York from 2026 to 2028
  (daylight saving time from the second Sunday of March to the first Sunday of November, changing
  at 02:00 local time), extended by standard time.
\<close>

definition New_York :: location where
  "New_York u =
     (if u < 1772953200 then (- 18000, - (2 ^ 63), 1772953200)
      else if u < 1793512800 then (- 14400, 1772953200, 1793512800)
      else if u < 1805007600 then (- 18000, 1793512800, 1805007600)
      else if u < 1825567200 then (- 14400, 1805007600, 1825567200)
      else if u < 1836457200 then (- 18000, 1825567200, 1836457200)
      else if u < 1857016800 then (- 14400, 1836457200, 1857016800)
      else (- 18000, 1857016800, 2 ^ 63))"

lemma div_mono_via:
  assumes "(a::int) < (k + 1) * 86400" "k * 86400 \<le> b" shows "a div 86400 \<le> b div 86400"
proof -
  have "a div 86400 \<le> (k * 86400 + 86399) div 86400" using assms(1) by (intro zdiv_mono1) auto
  then have "a div 86400 \<le> k * 86400 div 86400" by simp
  moreover have "k * 86400 div 86400 \<le> b div 86400" using assms(2) by (rule zdiv_mono1) simp
  ultimately show ?thesis by simp
qed

text \<open>Daylight saving time in seconds since the zero time, and by day when the night is excluded.\<close>

definition New_York_dst :: "int \<Rightarrow> bool" where
  "New_York_dst w \<longleftrightarrow>
     739682 * 86400 + 25200 \<le> w \<and> w < 739920 * 86400 + 21600
     \<or> 740053 * 86400 + 25200 \<le> w \<and> w < 740291 * 86400 + 21600
     \<or> 740417 * 86400 + 25200 \<le> w \<and> w < 740655 * 86400 + 21600"

lemma New_York_offset: "fst (New_York (w - unix_epoch)) = (if New_York_dst w then - 14400 else - 18000)"
  by (simp add: New_York_def New_York_dst_def unix_epoch_def)

lemma New_York_dst_day:
  assumes "25200 \<le> r" "r < 86400"
  shows "New_York_dst (n * 86400 + r) \<longleftrightarrow> 739682 \<le> n \<and> n < 739920 \<or> 740053 \<le> n \<and> n < 740291 \<or> 740417 \<le> n \<and> n < 740655"
proof -
  have "k * 86400 + 25200 \<le> n * 86400 + r \<longleftrightarrow> k \<le> n" "n * 86400 + r < k * 86400 + 21600 \<longleftrightarrow> n < k" for k
    using assms by auto
  then show ?thesis by (simp only: New_York_dst_def)
qed

text \<open>The local clock goes back only inside one of three November days.\<close>

lemma New_York_clock:
  assumes "u \<le> v" "New_York_dst u" "\<not> New_York_dst v"
  shows "u - 14400 \<le> v - 18000 \<or> (\<exists>k. u - 14400 < (k + 1) * 86400 \<and> k * 86400 \<le> v - 18000)"
proof -
  have fall: ?thesis if "u < k * 86400 + 21600" "\<not> v < k * 86400 + 21600" for k
    using that by (intro disjI2 exI [of _ k]) auto
  from assms(2) show ?thesis
    unfolding New_York_dst_def
  proof (elim disjE)
    assume u: "739682 * 86400 + 25200 \<le> u \<and> u < 739920 * 86400 + 21600"
    with assms have "\<not> v < 739920 * 86400 + 21600" by (auto simp: New_York_dst_def)
    with u fall show ?thesis by blast
  next
    assume u: "740053 * 86400 + 25200 \<le> u \<and> u < 740291 * 86400 + 21600"
    with assms have "\<not> v < 740291 * 86400 + 21600" by (auto simp: New_York_dst_def)
    with u fall show ?thesis by blast
  next
    assume u: "740417 * 86400 + 25200 \<le> u \<and> u < 740655 * 86400 + 21600"
    with assms have "\<not> v < 740655 * 86400 + 21600" by (auto simp: New_York_dst_def)
    with u fall show ?thesis by blast
  qed
qed

lemma New_York_day_mono:
  assumes "x \<le> y" shows "local_day New_York x \<le> local_day New_York y"
proof -
  have uv: "x div Second \<le> y div Second" using assms by (simp add: zdiv_mono1 Second_def)
  show ?thesis
  proof (cases "New_York_dst (x div Second) \<and> \<not> New_York_dst (y div Second)")
    case True
    with New_York_clock [OF uv] show ?thesis
      by (auto simp: local_day_def local_seconds_def offset_at_def New_York_offset
          intro: div_mono_via zdiv_mono1)
  next
    case False
    with uv show ?thesis
      by (auto simp: local_day_def local_seconds_def offset_at_def New_York_offset intro!: zdiv_mono1)
  qed
qed

lemma New_York_trading_hours:
  "\<exists>offset. \<bar>offset\<bar> < 86400 \<and> (\<forall>h mi. 540 \<le> 60 * h + mi \<longrightarrow> 60 * h + mi \<le> 1020 \<longrightarrow>
     time_Date New_York y m d h mi 0 = (date_days y m d * 86400 + h * 3600 + mi * 60 - offset) * Second
     \<and> offset_at New_York (time_Date New_York y m d h mi 0) = offset)"
proof -
  let ?n = "date_days y m d"
  define off :: int where "off = (if New_York_dst (?n * 86400 + 32400) then - 14400 else - 18000)"
  have off: "off = - 14400 \<or> off = - 18000" by (simp add: off_def)
  have stable: "fst (New_York (?n * 86400 + r - unix_epoch)) = off" if "25200 \<le> r" "r < 86400" for r
    using that by (simp add: New_York_offset New_York_dst_day off_def)
  have hours: "time_Date New_York y m d h mi 0 = (?n * 86400 + (h * 3600 + mi * 60) - off) * Second
      \<and> offset_at New_York ((?n * 86400 + (h * 3600 + mi * 60) - off) * Second) = off"
    if hm: "540 \<le> 60 * h + mi" "60 * h + mi \<le> 1020" for h mi
  proof -
    let ?r = "h * 3600 + mi * 60"
    have r: "25200 \<le> ?r" "?r < 86400" "25200 \<le> ?r - off" "?r - off < 86400" using hm off by auto
    have o1: "fst (New_York (?n * 86400 + ?r - unix_epoch)) = off" using stable r by blast
    have o2: "fst (New_York (?n * 86400 + ?r - unix_epoch - off)) = off"
      using stable [of "?r - off"] r by (simp add: algebra_simps)
    have "time_Date New_York y m d h mi 0 = (?n * 86400 + ?r - off) * Second"
      using o1 o2 off
      by (auto simp: time_Date_def Let_def add.assoc algebra_simps split: prod.splits)
    moreover have "offset_at New_York ((?n * 86400 + ?r - off) * Second) = off"
      using o2 by (simp add: offset_at_def Second_def algebra_simps)
    ultimately show ?thesis by blast
  qed
  have "\<bar>off\<bar> < 86400" using off by auto
  with hours show ?thesis by (auto simp: add.assoc intro!: exI [of _ off])
qed

definition NYSE_2026_2028 :: NYSECalendar where
  "NYSE_2026_2028 = \<lparr>nyse_location = Some New_York, nyse_special = officialNYSERules\<rparr>"

interpretation nyse: nyse_calendar New_York NYSE_2026_2028
  by unfold_locales
    (auto simp: New_York_day_mono New_York_trading_hours official_rules_ok NYSE_2026_2028_def)

context nyse_calendar
begin

lemma listed: "NYSE_SessionForDate (Some c) d = Inr (Some u) \<Longrightarrow> is_session (NYSE_SessionForDate (Some c)) u"
  using session_on_is_session by blast

lemma contract: "trading_calendar (NYSE_TradingCalendar (Some c)) loc (days_before_year 2026) (days_before_year 2029 - 1)"
  by (rule full.trading_calendar_axioms)

end

text \<open>Every calendar the constructor returns keeps the contract.\<close>

lemma NewNYSECalendar_contract:
  assumes "exchange_location loc" "load ''America/New_York'' = Inr loc" "NewNYSECalendar load overrides = Inr c"
  shows "nyse_calendar loc c"
proof -
  obtain l where "load ''America/New_York'' = Inr l" "nyse_location c = Some l" "rules_ok c"
    using assms(3) by (rule NewNYSECalendar_ok)
  with assms show ?thesis by (simp add: nyse_calendar_def nyse_calendar_axioms_def)
qed

lemma New_York_calendar:
  "exchange_location New_York" "NewNYSECalendar (\<lambda>_. Inr New_York) [] = Inr NYSE_2026_2028"
  by (rule nyse.exchange_location_axioms) (simp add: NewNYSECalendar_def NYSE_2026_2028_def)

declare next_session_loop.simps [code] previous_session_loop.simps [code]

subsection \<open>Properties\<close>

text \<open>
  A market date validates exactly when it is a date of the Gregorian calendar from year 1 on, and
  stepping a valid date by \<open>k\<close> days gives the date whose day number is \<open>k\<close> larger.
\<close>

lemma MarketDate_valid_exact:
  "MarketDate_Validate d = None \<longleftrightarrow>
     1 \<le> md_Year d \<and> 1 \<le> md_Month d \<and> md_Month d \<le> 12 \<and> 1 \<le> md_Day d
     \<and> md_Day d \<le> days_in_month (md_Year d) (md_Month d)"
  by (auto simp: MarketDate_valid_iff date_ok_def valid_date_def)



text \<open>
  On every calendar \<^verbatim>\<open>NewNYSECalendar\<close> returns, \<^verbatim>\<open>PreviousSession\<close> returns a session that has closed at
  the given instant, and no session that has closed then closed later. If it reports that the
  calendar is exhausted for an instant before 2029, no session had closed.
\<close>

lemma PreviousSession_last:
  assumes "exchange_location loc" "load ''America/New_York'' = Inr loc" "NewNYSECalendar load overrides = Inr c"
  shows "case NYSE_PreviousSession (Some c) t of
      Inr s \<Rightarrow> NYSE_SessionForDate (Some c) (ms_Date s) = Inr (Some s) \<and> ms_Close s \<le> t
        \<and> (\<forall>d u. NYSE_SessionForDate (Some c) d = Inr (Some u) \<longrightarrow> ms_Close u \<le> t \<longrightarrow> ms_Close u \<le> ms_Close s)
    | Inl e \<Rightarrow> e = ErrInvalidData \<or> days_before_year 2029 \<le> local_day loc t
        \<or> (\<forall>d u. NYSE_SessionForDate (Some c) d = Inr (Some u) \<longrightarrow> t < ms_Close u)"
proof -
  note cal = NewNYSECalendar_contract [OF assms]
  show ?thesis
    using nyse_calendar.nyse_previous_session [OF cal, of t] nyse_calendar.nyse_previous_none [OF cal, of t] nyse_calendar.listed [OF cal]
    by (fastforce simp: is_session_def not_le not_less split: sum.split)
qed

lemma PreviousSession_last_witness:
  "NYSE_PreviousSession (Some NYSE_2026_2028) (63918331200 * Second) =
     Inr \<lparr>ms_Date = mdate 2026 6 26, ms_Open = 63918077400 * Second, ms_Close = 63918100800 * Second\<rparr>
   \<and> NYSE_SessionForDate (Some NYSE_2026_2028) (mdate 2026 6 25) =
       Inr (Some \<lparr>ms_Date = mdate 2026 6 25, ms_Open = 63917991000 * Second, ms_Close = 63918014400 * Second\<rparr>)
   \<and> 63918014400 * Second \<le> 63918100800 * Second"
proof -
  have p: "NYSE_PreviousSession (Some NYSE_2026_2028) (63918331200 * Second) =
     Inr \<lparr>ms_Date = mdate 2026 6 26, ms_Open = 63918077400 * Second, ms_Close = 63918100800 * Second\<rparr>"
    by code_simp
  have u: "NYSE_SessionForDate (Some NYSE_2026_2028) (mdate 2026 6 25) =
       Inr (Some \<lparr>ms_Date = mdate 2026 6 25, ms_Open = 63917991000 * Second, ms_Close = 63918014400 * Second\<rparr>)"
    by code_simp
  have "63918014400 * Second \<le> 63918331200 * Second" by (simp add: Second_def)
  then show ?thesis
    using PreviousSession_last [OF New_York_calendar(1) refl New_York_calendar(2), of "63918331200 * Second"] p u
    by fastforce
qed

end
