(* ===== verification/USMarket.thy ===== *)
theory USMarket
  imports Window MarketTime
begin

text \<open>
  Bars, windows and freshness of US regular sessions: scheduler/freshness.go. The loops that walk
  from session to session through the \<^verbatim>\<open>TradingCalendar\<close> interface may run forever on a calendar
  that breaks its contract, so they are partial functions with \<open>None\<close> for divergence; the lemmas
  show that they return for every calendar that keeps the contract \<open>trading_calendar\<close>.
\<close>

subsection \<open>The bars of a session\<close>

record scheduledUSBar =
  ub_open :: time
  ub_close :: time

text \<open>The loop that cuts a session into hours, the last one ending at the close.\<close>

function hour_bars :: "time \<Rightarrow> time \<Rightarrow> scheduledUSBar list" where
  "hour_bars op cl =
     (if op < cl then
        let closeAt = (if op + Hour > cl then cl else op + Hour)
        in \<lparr>ub_open = op, ub_close = closeAt\<rparr> # hour_bars closeAt cl
      else [])"
  by pat_completeness auto
termination
  by (relation "measure (\<lambda>(op, cl). nat (cl - op))") (auto simp: Hour_def Minute_def Second_def)

declare hour_bars.simps [simp del]

definition barsForUSSession :: "MarketSession \<Rightarrow> BarInterval \<Rightarrow> scheduledUSBar list result" where
  "barsForUSSession session interval =
     checked (MarketSession_Validate session)
     (if interval = BarInterval1Day then
        Inr [\<lparr>ub_open = time_Date UTC_location (md_Year (ms_Date session)) (md_Month (ms_Date session))
                (md_Day (ms_Date session)) 0 0 0,
              ub_close = ms_Close session\<rparr>]
      else if interval = BarInterval1Hour then Inr (hour_bars (ms_Open session) (ms_Close session))
      else Inl (invalidWindow ''unsupported US bar interval''))"

definition usBarForOpen :: "TradingCalendar \<Rightarrow> BarInterval \<Rightarrow> time \<Rightarrow> scheduledUSBar result" where
  "usBarForOpen cal interval op =
     (if IsZero op then Inl (invalidWindow ''US bar open time is required'')
      else
        bind_result (if interval = BarInterval1Day then UTCDate op else DateInLocation op (tc_Location cal)) (\<lambda>date.
        bind_result (tc_SessionForDate cal date) (\<lambda>found. case found of
          None \<Rightarrow> Inl (invalidWindow ''US bar open time belongs to a closed market date'')
        | Some session \<Rightarrow>
            bind_result (barsForUSSession session interval) (\<lambda>bars.
              case find (\<lambda>bar. ub_open bar = op) bars of
                Some bar \<Rightarrow> Inr bar
              | None \<Rightarrow> Inl (invalidWindow ''US bar open time is not aligned to a regular-session bar'')))))"

subsection \<open>The newest due bar\<close>

partial_function (option) latestEligibleUSBar ::
  "TradingCalendar \<Rightarrow> MarketSession \<Rightarrow> BarInterval \<Rightarrow> time \<Rightarrow> duration \<Rightarrow> scheduledUSBar option result option" where
  "latestEligibleUSBar cal session interval observedAt delay =
     (case barsForUSSession session interval of
        Inl e \<Rightarrow> Some (Inl e)
      | Inr bars \<Rightarrow>
          (case find (\<lambda>bar. \<not> ub_close bar + delay > observedAt) (rev bars) of
             Some bar \<Rightarrow> Some (Inr (Some bar))
           | None \<Rightarrow>
               (case tc_PreviousSession cal (ms_Open session) of
                  Inl e \<Rightarrow> if errors_Is e ErrCalendarOutOfRange then Some (Inr None) else Some (Inl e)
                | Inr previous \<Rightarrow> latestEligibleUSBar cal previous interval observedAt delay)))"

declare latestEligibleUSBar.simps [code]

text \<open>The session the search starts from: today's once it has opened, else the previous one.\<close>

definition start_session :: "TradingCalendar \<Rightarrow> time \<Rightarrow> MarketSession option \<Rightarrow> MarketSession option result" where
  "start_session cal observedAt found =
     (if (case found of Some session \<Rightarrow> \<not> observedAt < ms_Open session | None \<Rightarrow> False) then Inr found
      else case tc_PreviousSession cal observedAt of
        Inl e \<Rightarrow> if errors_Is e ErrCalendarOutOfRange then Inr None else Inl e
      | Inr session \<Rightarrow> Inr (Some session))"

definition CalculateLatestUSWindow ::
  "TradingCalendar option \<Rightarrow> BarInterval \<Rightarrow> WindowTrigger \<Rightarrow> time \<Rightarrow> duration \<Rightarrow> CollectionWindow option result option" where
  "CalculateLatestUSWindow calendar interval trigger observedAt delay =
     (case calendar of
        None \<Rightarrow> Some (Inl (invalidWindow ''latest US window input is invalid''))
      | Some cal \<Rightarrow>
        if tc_Location cal = None \<or> IsZero observedAt \<or> delay < 0
           \<or> (trigger \<noteq> WindowTriggerClose \<and> trigger \<noteq> WindowTriggerRevision)
        then Some (Inl (invalidWindow ''latest US window input is invalid''))
        else
          bind_run (Some (durationForInterval interval)) (\<lambda>_.
          bind_run (Some (DateInLocation observedAt (tc_Location cal))) (\<lambda>date.
          bind_run (Some (tc_SessionForDate cal date)) (\<lambda>found.
          bind_run (Some (start_session cal observedAt found)) (\<lambda>start. case start of
            None \<Rightarrow> Some (Inr None)
          | Some session \<Rightarrow>
              bind_run (latestEligibleUSBar cal session interval observedAt delay) (\<lambda>due. case due of
                None \<Rightarrow> Some (Inr None)
              | Some bar \<Rightarrow>
                  Some (Inr (Some \<lparr>cw_Interval = interval, cw_Trigger = trigger,
                    cw_RangeStart = ub_open bar, cw_RangeEnd = ub_close bar,
                    cw_EligibleAt = ub_close bar + delay\<rparr>))))))))"

subsection \<open>Freshness\<close>

abbreviation "MarketStateOpen \<equiv> ''open''"
abbreviation "MarketStateClosed \<equiv> ''closed''"
abbreviation "FreshnessStatusFresh \<equiv> ''fresh''"
abbreviation "FreshnessStatusDelayed \<equiv> ''delayed''"
abbreviation "FreshnessStatusUnknown \<equiv> ''unknown''"
abbreviation "FreshnessStatusNotApplicable \<equiv> ''not_applicable''"

record USFreshnessInput =
  fi_ObservedAt :: time
  fi_Interval :: BarInterval
  fi_CloseDelay :: duration
  fi_LastClosedOpenTime :: "time option"

record USFreshnessResult =
  fr_MarketState :: string
  fr_FreshnessStatus :: string
  fr_DataDelaySeconds :: "int option"
  fr_ExpectedOpenTime :: "time option"
  fr_ExpectedCloseTime :: "time option"
  fr_NextMarketOpenAt :: "time option"

text \<open>A session value that a calendar did not set is Go's zero value.\<close>

definition session_value :: "MarketSession option \<Rightarrow> MarketSession" where
  "session_value found = (case found of Some s \<Rightarrow> s
     | None \<Rightarrow> \<lparr>ms_Date = mdate 0 0 0, ms_Open = 0, ms_Close = 0\<rparr>)"

text \<open>The loop of \<^verbatim>\<open>regularTradingDuration\<close>, with its variables \<^verbatim>\<open>cursor\<close> and \<^verbatim>\<open>total\<close> (\<open>sum0\<close>).\<close>

partial_function (option) trading_duration_loop ::
  "TradingCalendar \<Rightarrow> time \<Rightarrow> time \<Rightarrow> duration \<Rightarrow> duration result option" where
  "trading_duration_loop cal to cursor sum0 =
     (if cursor < to then
        (case (case tc_SessionAt cal cursor of
                 Inl e \<Rightarrow> Inl e
               | Inr (found, active) \<Rightarrow> if active then Inr (session_value found) else tc_NextSession cal cursor) of
           Inl e \<Rightarrow> Some (Inl e)
         | Inr session \<Rightarrow>
             (let start = (if cursor < ms_Open session then ms_Open session else cursor);
                  end = (if to > ms_Close session then ms_Close session else to);
                  sum1 = (if start < end then sum0 + (end - start) else sum0)
              in if \<not> ms_Close session < to then Some (Inr sum1)
                 else trading_duration_loop cal to (ms_Close session) sum1))
      else Some (Inr sum0))"

definition regularTradingDuration :: "TradingCalendar \<Rightarrow> time \<Rightarrow> time \<Rightarrow> duration result option" where
  "regularTradingDuration cal from to =
     (if \<not> from < to then Some (Inr 0) else trading_duration_loop cal to from 0)"

text \<open>The comparison of the last stored bar with the expected one.\<close>

definition freshness_of ::
  "TradingCalendar \<Rightarrow> USFreshnessInput \<Rightarrow> scheduledUSBar \<Rightarrow> USFreshnessResult \<Rightarrow> USFreshnessResult result option" where
  "freshness_of cal inp expected result =
     (case fi_LastClosedOpenTime inp of
        None \<Rightarrow> Some (Inr result)
      | Some lastOpen \<Rightarrow>
          bind_run (Some (usBarForOpen cal (fi_Interval inp) lastOpen)) (\<lambda>actual.
            if ub_close actual > fi_ObservedAt inp
            then Some (Inl (invalidWindow ''last closed US bar has not closed at the observed time''))
            else if \<not> ub_open actual < ub_open expected
            then Some (Inr (result\<lparr>fr_FreshnessStatus := FreshnessStatusFresh, fr_DataDelaySeconds := Some 0\<rparr>))
            else bind_run (regularTradingDuration cal (ub_close actual) (ub_close expected)) (\<lambda>delay.
              Some (Inr (result\<lparr>fr_FreshnessStatus := FreshnessStatusDelayed,
                fr_DataDelaySeconds := Some (delay div Second)\<rparr>)))))"

text \<open>The result for an open market before any stored bar is compared.\<close>

definition unknown_result :: "scheduledUSBar option \<Rightarrow> USFreshnessResult" where
  "unknown_result expected =
     \<lparr>fr_MarketState = MarketStateOpen, fr_FreshnessStatus = FreshnessStatusUnknown,
      fr_DataDelaySeconds = None, fr_ExpectedOpenTime = map_option ub_open expected,
      fr_ExpectedCloseTime = map_option ub_close expected, fr_NextMarketOpenAt = None\<rparr>"

definition CalculateUSFreshness ::
  "TradingCalendar option \<Rightarrow> USFreshnessInput \<Rightarrow> USFreshnessResult result option" where
  "CalculateUSFreshness calendar inp =
     (case calendar of
        None \<Rightarrow> Some (Inl (ErrPlain ''US freshness trading calendar is required''))
      | Some cal \<Rightarrow>
        if tc_Location cal = None then Some (Inl (ErrPlain ''US freshness trading calendar is required''))
        else if IsZero (fi_ObservedAt inp) then Some (Inl (invalidWindow ''freshness observed time is required''))
        else if fi_CloseDelay inp < 0 then Some (Inl (invalidWindow ''freshness close delay cannot be negative''))
        else
          bind_run (Some (durationForInterval (fi_Interval inp))) (\<lambda>_.
          bind_run (Some (tc_SessionAt cal (fi_ObservedAt inp))) (\<lambda>(found, active).
          if \<not> active then
            bind_run (Some (tc_NextSession cal (fi_ObservedAt inp))) (\<lambda>nextSession.
              Some (Inr \<lparr>fr_MarketState = MarketStateClosed, fr_FreshnessStatus = FreshnessStatusNotApplicable,
                fr_DataDelaySeconds = None, fr_ExpectedOpenTime = None, fr_ExpectedCloseTime = None,
                fr_NextMarketOpenAt = Some (ms_Open nextSession)\<rparr>))
          else
            bind_run (latestEligibleUSBar cal (session_value found) (fi_Interval inp)
                        (fi_ObservedAt inp) (fi_CloseDelay inp)) (\<lambda>due. case due of
              None \<Rightarrow> Some (Inr (unknown_result None))
            | Some expected \<Rightarrow> freshness_of cal inp expected (unknown_result (Some expected))))))"

subsection \<open>A session is cut without gaps\<close>

text \<open>\<open>tiles a bars b\<close>: the bars follow each other from \<open>a\<close> to \<open>b\<close>.\<close>

fun tiles :: "time \<Rightarrow> scheduledUSBar list \<Rightarrow> time \<Rightarrow> bool" where
  "tiles a [] b \<longleftrightarrow> a = b"
| "tiles a (x # xs) b \<longleftrightarrow> ub_open x = a \<and> ub_open x < ub_close x \<and> tiles (ub_close x) xs b"

lemma hour_bars_tiles: "op \<le> cl \<Longrightarrow> tiles op (hour_bars op cl) cl"
proof (induction op cl rule: hour_bars.induct)
  case (1 op cl)
  have "op < op + Hour" by simp
  with 1 show ?case by (auto simp: hour_bars.simps [of op cl] Let_def)
qed

lemma hour_bars_length:
  "x \<in> set (hour_bars op cl) \<Longrightarrow> ub_close x = min (ub_open x + Hour) cl"
proof (induction op cl rule: hour_bars.induct)
  case (1 op cl)
  then show ?case
    by (auto simp: hour_bars.simps [of op cl] Let_def min_def split: if_splits)
qed

lemma tiles_bounds:
  "tiles a xs b \<Longrightarrow> a \<le> b \<and> (\<forall>x \<in> set xs. a \<le> ub_open x \<and> ub_open x < ub_close x \<and> ub_close x \<le> b)"
  by (induction a xs b rule: tiles.induct) force+

lemma tiles_closes: "tiles a xs b \<Longrightarrow> strictly_ascending ub_close xs"
proof (induction a xs b rule: tiles.induct)
  case (2 a x xs b)
  then show ?case using tiles_bounds [of "ub_close x" xs b] by fastforce
qed simp

lemma tiles_last: "tiles a xs b \<Longrightarrow> xs \<noteq> [] \<Longrightarrow> ub_close (last xs) = b"
  by (induction a xs b rule: tiles.induct) auto

lemma barsForUSSession_props:
  assumes "barsForUSSession s interval = Inr bars"
  shows "bars \<noteq> []" "strictly_ascending ub_close bars" "ub_close (last bars) = ms_Close s"
    "\<And>b. b \<in> set bars \<Longrightarrow> ms_Open s < ub_close b \<and> ub_close b \<le> ms_Close s"
    "interval = BarInterval1Hour \<or> interval = BarInterval1Day" "MarketSession_Validate s = None"
proof -
  from assms have valid: "MarketSession_Validate s = None"
    and cases: "interval = BarInterval1Day \<and> (\<exists>x. bars = [x] \<and> ub_close x = ms_Close s)
      \<or> interval = BarInterval1Hour \<and> bars = hour_bars (ms_Open s) (ms_Close s)"
    by (auto simp: barsForUSSession_def checked_Inr_iff split: if_splits)
  then have oc: "ms_Open s < ms_Close s" by (auto simp: MarketSession_Validate_def)
  then have t: "tiles (ms_Open s) (hour_bars (ms_Open s) (ms_Close s)) (ms_Close s)"
    by (simp add: hour_bars_tiles)
  moreover have ne: "hour_bars (ms_Open s) (ms_Close s) \<noteq> []"
    using oc by (simp add: hour_bars.simps [of "ms_Open s"] Let_def)
  ultimately show "bars \<noteq> []" "strictly_ascending ub_close bars" "ub_close (last bars) = ms_Close s"
    using cases tiles_closes [OF t] tiles_last [OF t ne] by auto
  show "ms_Open s < ub_close b \<and> ub_close b \<le> ms_Close s" if "b \<in> set bars" for b
    using cases tiles_bounds [OF t] that oc by fastforce
  show "interval = BarInterval1Hour \<or> interval = BarInterval1Day" "MarketSession_Validate s = None"
    using cases valid by auto
qed

lemma find_rev_latest:
  assumes "strictly_ascending key xs" "find P (rev xs) = Some x"
  shows "x \<in> set xs \<and> P x \<and> (\<forall>y \<in> set xs. P y \<longrightarrow> key y \<le> key x)"
  using assms
proof (induction xs rule: rev_induct)
  case (snoc a xs)
  then show ?case
    by (cases "P a") (auto simp: strictly_ascending_append intro: less_imp_le)
qed simp

text \<open>A bar of one of the calendar's sessions.\<close>

definition is_us_bar :: "TradingCalendar \<Rightarrow> BarInterval \<Rightarrow> scheduledUSBar \<Rightarrow> bool" where
  "is_us_bar cal interval b \<longleftrightarrow> (\<exists>s bars. is_session (tc_SessionForDate cal) s
     \<and> barsForUSSession s interval = Inr bars \<and> b \<in> set bars)"

definition newest_due :: "TradingCalendar \<Rightarrow> BarInterval \<Rightarrow> time \<Rightarrow> scheduledUSBar option \<Rightarrow> bool" where
  "newest_due cal interval latest due \<longleftrightarrow> (case due of
     None \<Rightarrow> (\<forall>b. is_us_bar cal interval b \<longrightarrow> \<not> ub_close b \<le> latest)
   | Some b \<Rightarrow> is_us_bar cal interval b \<and> ub_close b \<le> latest
       \<and> (\<forall>b'. is_us_bar cal interval b' \<longrightarrow> ub_close b' \<le> latest \<longrightarrow> ub_close b' \<le> ub_close b))"

text \<open>The instants at which the market is open, and the trading time of a range.\<close>

definition market_open :: "TradingCalendar \<Rightarrow> time \<Rightarrow> bool" where
  "market_open cal t \<longleftrightarrow> (\<exists>s. is_session (tc_SessionForDate cal) s \<and> ms_Open s \<le> t \<and> t < ms_Close s)"

definition trading_time :: "TradingCalendar \<Rightarrow> time \<Rightarrow> time \<Rightarrow> int" where
  "trading_time cal a b = int (card {t. a \<le> t \<and> t < b \<and> market_open cal t})"

lemma finite_range: "finite {t::int. a \<le> t \<and> t < b \<and> P t}"
  by (rule finite_subset [of _ "{a..b}"]) auto

lemma trading_time_empty:
  assumes "\<not> a < b" shows "trading_time cal a b = 0"
proof -
  have "{t. a \<le> t \<and> t < b \<and> market_open cal t} = {}" using assms by auto
  then show ?thesis by (simp only: trading_time_def card.empty of_nat_0)
qed

context trading_calendar
begin

abbreviation "session \<equiv> is_session (tc_SessionForDate cal)"

lemma session_first_day: "session s \<Longrightarrow> first_day \<le> day_of (ms_Date s) \<and> day_of (ms_Date s) \<le> last_day"
  using supported [of "ms_Date s"] by (auto simp: is_session_def)

lemma previous_session_day:
  assumes "tc_PreviousSession cal (ms_Open s) = Inr p" "session s"
  shows "day_of (ms_Date p) < day_of (ms_Date s)"
proof -
  have p: "session p" "ms_Close p \<le> ms_Open s" using previous_session [OF assms(1)] by auto
  then show ?thesis
    using session_order [OF assms(2) p(1)] session_eq [OF assms(2) p(1)] is_session_bounds(1) [OF p(1)]
      is_session_bounds(1) [OF assms(2)] by fastforce
qed

lemma is_session_valid: "session s \<Longrightarrow> MarketSession_Validate s = None"
  using session_valid [of "ms_Date s" s] by (simp add: is_session_def)

lemma bars_total:
  assumes "session s" "durationForInterval interval = Inr d"
  shows "\<exists>bars. barsForUSSession s interval = Inr bars"
  using assms is_session_valid [OF assms(1)]
  by (auto simp: barsForUSSession_def durationForInterval_Inr_iff)

text \<open>
  The backwards search returns on every session of the calendar, and finds the newest bar that is
  due among the sessions up to that one.
\<close>

lemma latestEligibleUSBar_correct:
  assumes "session s" "durationForInterval interval = Inr d"
    and later: "\<And>u bs b. session u \<Longrightarrow> ms_Open s < ms_Open u \<Longrightarrow> barsForUSSession u interval = Inr bs
      \<Longrightarrow> b \<in> set bs \<Longrightarrow> \<not> ub_close b \<le> now - delay"
  shows "\<exists>r. latestEligibleUSBar cal s interval now delay = Some r
       \<and> (\<forall>due. r = Inr due \<longrightarrow> newest_due cal interval (now - delay) due)"
  using assms(1) later
proof (induction "nat (day_of (ms_Date s) - first_day)" arbitrary: s rule: less_induct)
  case less
  obtain bars where bars: "barsForUSSession s interval = Inr bars"
    using bars_total [OF less(2) assms(2)] by blast
  note bp = barsForUSSession_props [OF bars]
  note unfold = latestEligibleUSBar.simps [of cal s interval now delay]
  show ?case
  proof (cases "find (\<lambda>bar. \<not> ub_close bar + delay > now) (rev bars)")
    case (Some b)
    note best = find_rev_latest [OF bp(2) Some]
    have "ub_close b' \<le> ub_close b" if b': "is_us_bar cal interval b'" "ub_close b' \<le> now - delay" for b'
    proof -
      obtain u bs where u: "session u" "barsForUSSession u interval = Inr bs" "b' \<in> set bs"
        using b'(1) by (auto simp: is_us_bar_def)
      from less(2) u(1) show ?thesis
      proof (cases rule: session_open_cases)
        case 1
        with u bars best b'(2) show ?thesis by auto
      next
        case 2
        then show ?thesis using less(3) [OF u(1) _ u(2,3)] is_session_bounds(1) [OF less(2)] b'(2) by simp
      next
        case 3
        then show ?thesis using barsForUSSession_props(4) [OF u(2,3)] bp(4) [of b] best by force
      qed
    qed
    moreover have "is_us_bar cal interval b" using less(2) bars best by (auto simp: is_us_bar_def)
    ultimately show ?thesis using best by (simp add: unfold bars Some newest_due_def)
  next
    case None
    then have here: "\<not> ub_close b \<le> now - delay" if "b \<in> set bars" for b
      using that by (auto simp: find_None_iff)
    show ?thesis
    proof (cases "tc_PreviousSession cal (ms_Open s)")
      case (Inr p)
      have p: "session p" "day_of (ms_Date p) < day_of (ms_Date s)"
        using previous_session [OF Inr] previous_session_day [OF Inr less(2)] by auto
      have later_p: "\<not> ub_close b \<le> now - delay"
        if u: "session u" "ms_Open p < ms_Open u" "barsForUSSession u interval = Inr bs" "b \<in> set bs" for u bs b
        using less(2) u(1)
      proof (cases rule: session_open_cases)
        case 1
        with u bars here show ?thesis by simp
      next
        case 2
        then show ?thesis using less(3) [OF u(1) _ u(3,4)] is_session_bounds(1) [OF less(2)] by simp
      next
        case 3
        then have "ms_Close u \<le> ms_Close p" using previous_session_last [OF Inr u(1)] by simp
        then have "ms_Open u \<le> ms_Open p"
          using session_open_cases [OF u(1) p(1)] is_session_bounds(1) [OF p(1)] is_session_bounds(1) [OF u(1)]
          by (metis less_le_not_le less_trans linorder_not_le order_refl)
        with u(2) show ?thesis by simp
      qed
      have dec: "nat (day_of (ms_Date p) - first_day) < nat (day_of (ms_Date s) - first_day)"
        using p(2) session_first_day [OF p(1)] by simp
      have "latestEligibleUSBar cal s interval now delay = latestEligibleUSBar cal p interval now delay"
        by (simp add: unfold bars None Inr)
      with less(1) [OF dec p(1) later_p] show ?thesis by simp
    next
      case (Inl e)
      have "newest_due cal interval (now - delay) None" if "errors_Is e ErrCalendarOutOfRange"
        unfolding newest_due_def is_us_bar_def option.case
      proof (intro allI impI, elim exE conjE)
        fix b u bs
        assume u: "session u" "barsForUSSession u interval = Inr bs" "b \<in> set bs"
        from less(2) u(1) show "\<not> ub_close b \<le> now - delay"
        proof (cases rule: session_open_cases)
          case 1
          with u bars here show ?thesis by simp
        next
          case 2
          then show ?thesis using less(3) [OF u(1) _ u(2,3)] is_session_bounds(1) [OF less(2)] by simp
        next
          case 3
          then show ?thesis
            using previous_session_none [OF Inl that _ u(1)] is_session_bounds(5) [OF less(2)]
              session_first_day [OF less(2)] by simp
        qed
      qed
      then show ?thesis by (simp add: unfold bars None Inl)
    qed
  qed
qed

lemma date_session:
  assumes "DateInLocation now (Some loc) = Inr date" "tc_SessionForDate cal date = Inr found"
    and "session u" "ms_Open u \<le> now" "now < ms_Close u"
  shows "found = Some u"
proof -
  have "day_of (ms_Date u) = local_day loc now"
    using day_mono [OF assms(4)] day_mono [of now "ms_Close u"] assms(5) is_session_bounds(5,6) [OF assms(3)]
    by linarith
  then have "ms_Date u = date"
    using day_of_inj is_session_bounds(2) [OF assms(3)] DateInLocation_day(1,2) [OF assms(1)] by metis
  with assms(2,3) show ?thesis by (simp add: is_session_def)
qed

lemma start_session_is_session:
  assumes "tc_SessionForDate cal date = Inr found" "start_session cal now found = Inr (Some s)"
  shows "session s"
proof (cases "case found of Some x \<Rightarrow> \<not> now < ms_Open x | None \<Rightarrow> False")
  case True
  then show ?thesis using assms session_on_is_session [of date s] by (simp add: start_session_def)
next
  case False
  then show ?thesis using assms(2) previous_session [of now s]
    by (cases "tc_PreviousSession cal now") (auto simp: start_session_def split: if_splits)
qed

text \<open>No session that opens after the start of the search has a bar that is due.\<close>

lemma start_session_correct:
  assumes date: "DateInLocation now (Some loc) = Inr date" "tc_SessionForDate cal date = Inr found"
    and start: "start_session cal now found = Inr start"
    and u: "session u" "case start of None \<Rightarrow> True | Some s \<Rightarrow> ms_Open s < ms_Open u"
  shows "now < ms_Open u"
proof (cases "\<exists>s. found = Some s \<and> ms_Open s \<le> now")
  case True
  then obtain s where s: "found = Some s" "ms_Open s \<le> now" by blast
  then have start_s: "start = Some s" using start by (auto simp: start_session_def)
  have ss: "session s" "ms_Date s = date" using session_on_is_session date(2) s(1) by auto
  have lt: "ms_Open s < ms_Open u" using u(2) start_s by simp
  then have "day_of (ms_Date s) < day_of (ms_Date u)"
    using session_order [OF u(1) ss(1)] session_eq [OF u(1) ss(1)] is_session_bounds(1) [OF u(1)] by fastforce
  then show ?thesis
    using session_after_day [OF u(1)] DateInLocation_day(2) [OF date(1)] ss(2) by simp
next
  case False
  then have not_open: "\<not> (ms_Open u \<le> now \<and> now < ms_Close u)"
    using date_session [OF date u(1)] by blast
  have prev: "start_session cal now found = (case tc_PreviousSession cal now of
      Inl e \<Rightarrow> if errors_Is e ErrCalendarOutOfRange then Inr None else Inl e
    | Inr previous \<Rightarrow> Inr (Some previous))"
    using False by (auto simp: start_session_def split: option.splits)
  show ?thesis
  proof (cases "tc_PreviousSession cal now")
    case (Inl e)
    with start prev have "errors_Is e ErrCalendarOutOfRange" "start = None" by (auto split: if_splits)
    moreover have "local_day loc now \<le> last_day"
      using supported [OF date(2)] DateInLocation_day(2) [OF date(1)] by simp
    ultimately show ?thesis using previous_session_none [OF Inl _ _ u(1)] not_open is_session_bounds(1) [OF u(1)] by auto
  next
    case (Inr p)
    with start prev have sp: "start = Some p" by simp
    note p = previous_session [OF Inr]
    have "\<not> ms_Close u \<le> now"
    proof
      assume "ms_Close u \<le> now"
      then have "ms_Close u \<le> ms_Close p" using previous_session_last [OF Inr u(1)] by simp
      then show False
        using session_open_cases [OF u(1), of p] p u(2) sp is_session_bounds(1) [OF u(1)] is_session_bounds(1) [of p]
        by fastforce
    qed
    with not_open p sp show ?thesis by auto
  qed
qed

lemma latest_us_window:
  assumes "durationForInterval interval = Inr d"
  shows "\<exists>r. CalculateLatestUSWindow (Some cal) interval trigger now delay = Some r
     \<and> (\<forall>w. r = Inr w \<longrightarrow> (\<exists>due. newest_due cal interval (now - delay) due \<and>
          w = map_option (\<lambda>b. \<lparr>cw_Interval = interval, cw_Trigger = trigger, cw_RangeStart = ub_open b,
                 cw_RangeEnd = ub_close b, cw_EligibleAt = ub_close b + delay\<rparr>) due))"
proof (cases "IsZero now \<or> delay < 0 \<or> (trigger \<noteq> WindowTriggerClose \<and> trigger \<noteq> WindowTriggerRevision)")
  case True
  then show ?thesis by (auto simp: CalculateLatestUSWindow_def)
next
  case ok: False
  show ?thesis
  proof (cases "\<exists>date found start. DateInLocation now (Some loc) = Inr date \<and>
      tc_SessionForDate cal date = Inr found \<and> start_session cal now found = Inr start")
    case False
    with ok show ?thesis
      by (auto simp: CalculateLatestUSWindow_def location assms bind_run_def split: sum.splits)
  next
    case True
    then obtain date found start where st: "DateInLocation now (Some loc) = Inr date"
      "tc_SessionForDate cal date = Inr found" "start_session cal now found = Inr start" by blast
    have late: "\<not> ub_close b \<le> now - delay"
      if "session u" "case start of None \<Rightarrow> True | Some s \<Rightarrow> ms_Open s < ms_Open u"
        "barsForUSSession u interval = Inr bs" "b \<in> set bs" for u bs b
      using start_session_correct [OF st that(1,2)] barsForUSSession_props(4) [OF that(3,4)] ok by auto
    show ?thesis
    proof (cases start)
      case None
      have "newest_due cal interval (now - delay) None"
        using late None by (auto simp: newest_due_def is_us_bar_def)
      with ok st None assms show ?thesis
        by (auto simp: CalculateLatestUSWindow_def location)
    next
      case (Some s)
      then obtain r where "latestEligibleUSBar cal s interval now delay = Some r"
        "\<forall>due. r = Inr due \<longrightarrow> newest_due cal interval (now - delay) due"
        using latestEligibleUSBar_correct [OF start_session_is_session [OF st(2)] assms, of now s now delay]
          st(3) late by auto
      then show ?thesis using ok st Some assms
        by (cases r) (auto simp: CalculateLatestUSWindow_def location intro!: exI split: option.split)
    qed
  qed
qed

text \<open>The session the loop of \<^verbatim>\<open>regularTradingDuration\<close> takes next.\<close>

definition next_stop :: "time \<Rightarrow> MarketSession result" where
  "next_stop cursor = (case tc_SessionAt cal cursor of
     Inl e \<Rightarrow> Inl e
   | Inr (found, active) \<Rightarrow> if active then Inr (session_value found) else tc_NextSession cal cursor)"

lemma next_stop_correct:
  assumes "next_stop cursor = Inr s"
  shows "session s" "cursor < ms_Close s"
    "\<And>t. cursor \<le> t \<Longrightarrow> t < ms_Close s \<Longrightarrow> market_open cal t \<longleftrightarrow> ms_Open s \<le> t"
proof -
  obtain found active where at: "tc_SessionAt cal cursor = Inr (found, active)"
    using assms by (auto simp: next_stop_def split: sum.splits)
  have key: "session s \<and> cursor < ms_Close s \<and> (\<forall>u. session u \<longrightarrow> cursor < ms_Close u \<longrightarrow> ms_Open s \<le> ms_Open u)"
  proof (cases active)
    case True
    with session_at_none at obtain s' where found: "found = Some s'" by (cases found) auto
    with assms at True have "s' = s" by (simp add: next_stop_def session_value_def)
    with session_at_some at found True have s: "session s" "ms_Open s \<le> cursor" "cursor < ms_Close s" by auto
    have "ms_Open s \<le> ms_Open u" if "session u" "cursor < ms_Close u" for u
      using s(1) that(1) by (cases rule: session_open_cases) (use s that is_session_bounds(1) in fastforce)+
    with s show ?thesis by blast
  next
    case False
    with assms at have n: "tc_NextSession cal cursor = Inr s" by (simp add: next_stop_def)
    have "ms_Open s \<le> ms_Open u" if "session u" "cursor < ms_Close u" for u
      using next_session_first [OF n that(1)] session_at_complete [OF at [unfolded, simplified False] that(1)] that(2)
      by (cases "cursor < ms_Open u") auto
    then show ?thesis using next_session [OF n] is_session_bounds(1) by fastforce
  qed
  then show "session s" "cursor < ms_Close s" by auto
  show "market_open cal t \<longleftrightarrow> ms_Open s \<le> t" if "cursor \<le> t" "t < ms_Close s" for t
    using key that by (auto simp: market_open_def)
qed

lemma trading_time_split:
  assumes "next_stop cursor = Inr s" "cursor < to"
  shows "trading_time cal cursor to =
     max 0 (min to (ms_Close s) - max cursor (ms_Open s)) + trading_time cal (ms_Close s) to"
proof -
  note s = next_stop_correct [OF assms(1)]
  let ?A = "{max cursor (ms_Open s)..<min to (ms_Close s)}"
  let ?B = "{t. ms_Close s \<le> t \<and> t < to \<and> market_open cal t}"
  have "{t. cursor \<le> t \<and> t < to \<and> market_open cal t} = ?A \<union> ?B"
    using s by (auto simp: not_less) (meson le_less_trans less_le_trans not_le s(3) order.strict_trans1)+
  moreover have "?A \<inter> ?B = {}" by auto
  ultimately have "card {t. cursor \<le> t \<and> t < to \<and> market_open cal t} = card ?A + card ?B"
    using finite_range by (simp add: card_Un_disjoint)
  moreover have "int (card ?A) = max 0 (min to (ms_Close s) - max cursor (ms_Open s))"
    unfolding card_atLeastLessThan_int by linarith
  ultimately show ?thesis by (simp only: trading_time_def of_nat_add)
qed

lemma trading_duration_loop_correct:
  "\<exists>r. trading_duration_loop cal to cursor sum0 = Some r
     \<and> (\<forall>v. r = Inr v \<longrightarrow> v = sum0 + trading_time cal cursor to)"
proof (induction "nat (to - cursor)" arbitrary: cursor sum0 rule: less_induct)
  case less
  have unfold: "trading_duration_loop cal to cursor sum0 =
     (if cursor < to then
        (case next_stop cursor of
           Inl e \<Rightarrow> Some (Inl e)
         | Inr s \<Rightarrow>
             (if \<not> ms_Close s < to then Some (Inr (sum0 + max 0 (min to (ms_Close s) - max cursor (ms_Open s))))
              else trading_duration_loop cal to (ms_Close s)
                     (sum0 + max 0 (min to (ms_Close s) - max cursor (ms_Open s)))))
      else Some (Inr sum0))"
    by (subst trading_duration_loop.simps)
      (auto simp: next_stop_def Let_def max_def min_def split: sum.split)
  show ?case
  proof (cases "cursor < to")
    case False
    then show ?thesis by (simp add: unfold trading_time_empty)
  next
    case lt: True
    show ?thesis
    proof (cases "next_stop cursor")
      case (Inl e)
      with lt show ?thesis by (simp add: unfold)
    next
      case (Inr s)
      note split = trading_time_split [OF Inr lt] and adv = next_stop_correct(2) [OF Inr]
      show ?thesis
      proof (cases "ms_Close s < to")
        case False
        with lt Inr split show ?thesis by (simp add: unfold trading_time_empty)
      next
        case True
        with adv have "nat (to - ms_Close s) < nat (to - cursor)" by simp
        from less [OF this, of "sum0 + max 0 (min to (ms_Close s) - max cursor (ms_Open s))"]
          True lt Inr split show ?thesis by (simp add: unfold add.assoc)
      qed
    qed
  qed
qed

lemma regularTradingDuration_correct:
  "\<exists>r. regularTradingDuration cal a b = Some r \<and> (\<forall>v. r = Inr v \<longrightarrow> v = trading_time cal a b)"
proof (cases "a < b")
  case True
  then show ?thesis using trading_duration_loop_correct [of b a 0] by (simp add: regularTradingDuration_def)
next
  case False
  then show ?thesis by (simp add: regularTradingDuration_def trading_time_empty)
qed

lemma usBarForOpen_is_bar:
  assumes "usBarForOpen cal interval op = Inr b"
  shows "is_us_bar cal interval b" "ub_open b = op"
proof -
  obtain date s bars where "tc_SessionForDate cal date = Inr (Some s)"
    "barsForUSSession s interval = Inr bars" "find (\<lambda>bar. ub_open bar = op) bars = Some b"
    using assms by (auto simp: usBarForOpen_def bind_result_Inr_iff split: if_splits option.splits)
  then show "is_us_bar cal interval b" "ub_open b = op"
    using session_on_is_session find_Some_iff_first by (fastforce simp: is_us_bar_def)+
qed

lemma open_session_search:
  assumes "tc_SessionAt cal now = Inr (found, True)" "durationForInterval interval = Inr d" "0 \<le> delay"
  shows "\<exists>r. latestEligibleUSBar cal (session_value found) interval now delay = Some r
       \<and> (\<forall>due. r = Inr due \<longrightarrow> newest_due cal interval (now - delay) due)"
proof -
  obtain s where found: "found = Some s" using session_at_none assms(1) by (cases found) auto
  have s: "session s" "ms_Open s \<le> now" "now < ms_Close s"
    using session_at_some assms(1) found by auto
  have "\<not> ub_close b \<le> now - delay"
    if u: "session u" "ms_Open s < ms_Open u" "barsForUSSession u interval = Inr bs" "b \<in> set bs" for u bs b
    using s(1) u(1)
    by (cases rule: session_open_cases)
      (use u s assms(3) barsForUSSession_props(4) [OF u(3,4)] is_session_bounds(1) in fastforce)+
  with latestEligibleUSBar_correct [OF s(1) assms(2)] show ?thesis by (simp add: found session_value_def)
qed

lemma freshness_of_returns: "freshness_of cal inp expected result \<noteq> None"
proof
  assume "freshness_of cal inp expected result = None"
  then obtain a b where "regularTradingDuration cal a b = None"
    by (auto simp: freshness_of_def bind_run_None_iff split: option.splits if_splits)
  then show False using regularTradingDuration_correct [of a b] by auto
qed

lemma freshness_returns: "CalculateUSFreshness (Some cal) inp \<noteq> None"
proof
  assume "CalculateUSFreshness (Some cal) inp = None"
  then obtain found d where "tc_SessionAt cal (fi_ObservedAt inp) = Inr (found, True)"
    "durationForInterval (fi_Interval inp) = Inr d" "0 \<le> fi_CloseDelay inp"
    "latestEligibleUSBar cal (session_value found) (fi_Interval inp) (fi_ObservedAt inp) (fi_CloseDelay inp) = None"
    by (auto simp: CalculateUSFreshness_def bind_run_None_iff freshness_of_returns split: option.splits if_splits)
  then show False using open_session_search by fastforce
qed

lemma freshness_closed:
  assumes "CalculateUSFreshness (Some cal) inp = Some (Inr r)" "\<not> market_open cal (fi_ObservedAt inp)"
  shows "\<exists>s. session s \<and> fi_ObservedAt inp < ms_Open s
      \<and> (\<forall>u. session u \<longrightarrow> fi_ObservedAt inp < ms_Open u \<longrightarrow> ms_Open s \<le> ms_Open u)
      \<and> r = \<lparr>fr_MarketState = MarketStateClosed, fr_FreshnessStatus = FreshnessStatusNotApplicable,
             fr_DataDelaySeconds = None, fr_ExpectedOpenTime = None, fr_ExpectedCloseTime = None,
             fr_NextMarketOpenAt = Some (ms_Open s)\<rparr>"
proof -
  have inactive: "\<not> active" if "tc_SessionAt cal (fi_ObservedAt inp) = Inr (found, active)" for found active
    using that assms(2) session_at_some session_at_none [of "fi_ObservedAt inp" active]
    by (cases found) (auto simp: market_open_def)
  obtain s where "tc_NextSession cal (fi_ObservedAt inp) = Inr s"
    "r = \<lparr>fr_MarketState = MarketStateClosed, fr_FreshnessStatus = FreshnessStatusNotApplicable,
       fr_DataDelaySeconds = None, fr_ExpectedOpenTime = None, fr_ExpectedCloseTime = None,
       fr_NextMarketOpenAt = Some (ms_Open s)\<rparr>"
    using assms(1) by (auto simp: CalculateUSFreshness_def bind_run_Inr_iff dest: inactive split: if_splits)
  then show ?thesis using next_session next_session_first by blast
qed

lemma freshness_of_cases:
  assumes "freshness_of cal inp expected result = Some (Inr r)"
  obtains "fi_LastClosedOpenTime inp = None" "r = result"
  | actual where "is_us_bar cal (fi_Interval inp) actual" "fi_LastClosedOpenTime inp = Some (ub_open actual)"
    "ub_close actual \<le> fi_ObservedAt inp"
    "r = (if ub_open actual < ub_open expected
          then result\<lparr>fr_FreshnessStatus := FreshnessStatusDelayed,
                 fr_DataDelaySeconds := Some (trading_time cal (ub_close actual) (ub_close expected) div Second)\<rparr>
          else result\<lparr>fr_FreshnessStatus := FreshnessStatusFresh, fr_DataDelaySeconds := Some 0\<rparr>)"
proof (cases "fi_LastClosedOpenTime inp")
  case None
  with assms that(1) show thesis by (simp add: freshness_of_def)
next
  case (Some op)
  with assms obtain actual where actual: "usBarForOpen cal (fi_Interval inp) op = Inr actual"
    by (auto simp: freshness_of_def bind_run_Inr_iff)
  have dur: "v = trading_time cal x y" if "regularTradingDuration cal x y = Some (Inr v)" for x y v
    using regularTradingDuration_correct [of x y] that by auto
  show thesis
    using assms Some actual usBarForOpen_is_bar [OF actual]
    by (intro that(2) [of actual])
      (auto simp: freshness_of_def bind_run_Inr_iff not_less dest: dur split: if_splits)
qed

lemma freshness_open:
  assumes "CalculateUSFreshness (Some cal) inp = Some (Inr r)" "market_open cal (fi_ObservedAt inp)"
  obtains due where "newest_due cal (fi_Interval inp) (fi_ObservedAt inp - fi_CloseDelay inp) due"
    "due = None \<or> fi_LastClosedOpenTime inp = None" "r = unknown_result due"
  | expected actual where
    "newest_due cal (fi_Interval inp) (fi_ObservedAt inp - fi_CloseDelay inp) (Some expected)"
    "is_us_bar cal (fi_Interval inp) actual" "fi_LastClosedOpenTime inp = Some (ub_open actual)"
    "ub_close actual \<le> fi_ObservedAt inp"
    "r = (if ub_open actual < ub_open expected
          then (unknown_result (Some expected))\<lparr>fr_FreshnessStatus := FreshnessStatusDelayed,
                 fr_DataDelaySeconds := Some (trading_time cal (ub_close actual) (ub_close expected) div Second)\<rparr>
          else (unknown_result (Some expected))\<lparr>fr_FreshnessStatus := FreshnessStatusFresh, fr_DataDelaySeconds := Some 0\<rparr>)"
proof -
  have active: "active" if "tc_SessionAt cal (fi_ObservedAt inp) = Inr (found, active)" for found active
    using that assms(2) session_at_complete [of "fi_ObservedAt inp" found] by (cases active) (auto simp: market_open_def)
  obtain d found due where st: "durationForInterval (fi_Interval inp) = Inr d" "0 \<le> fi_CloseDelay inp"
    "tc_SessionAt cal (fi_ObservedAt inp) = Inr (found, True)"
    "latestEligibleUSBar cal (session_value found) (fi_Interval inp) (fi_ObservedAt inp) (fi_CloseDelay inp) = Some (Inr due)"
    and body: "(case due of None \<Rightarrow> Some (Inr (unknown_result None))
      | Some expected \<Rightarrow> freshness_of cal inp expected (unknown_result (Some expected))) = Some (Inr r)"
    using assms(1) by (auto simp: CalculateUSFreshness_def bind_run_Inr_iff dest: active split: if_splits)
  have newest: "newest_due cal (fi_Interval inp) (fi_ObservedAt inp - fi_CloseDelay inp) due"
    using open_session_search [OF st(3,1,2)] st(4) by auto
  show thesis
  proof (cases due)
    case None
    with body newest that(1) show thesis by simp
  next
    case (Some expected)
    with body have "freshness_of cal inp expected (unknown_result (Some expected)) = Some (Inr r)" by simp
    then show thesis
      by (cases rule: freshness_of_cases) (use newest Some that in blast)+
  qed
qed

end

subsection \<open>Properties\<close>

declare trading_duration_loop.simps [code] hour_bars.simps [code]

abbreviation nyse_port :: TradingCalendar where
  "nyse_port \<equiv> NYSE_TradingCalendar (Some NYSE_2026_2028)"

text \<open>
  The hourly bars of a valid session follow each other without gap or overlap from its open to
  its close, each lasting an hour except the last, which ends at the close.
\<close>

lemma hour_bars_cover_session:
  assumes "MarketSession_Validate s = None"
  shows "\<exists>bars. barsForUSSession s BarInterval1Hour = Inr bars \<and> tiles (ms_Open s) bars (ms_Close s)
     \<and> (\<forall>b \<in> set bars. ub_close b = min (ub_open b + Hour) (ms_Close s))"
proof -
  have "ms_Open s < ms_Close s" using assms by (auto simp: MarketSession_Validate_def)
  then have "tiles (ms_Open s) (hour_bars (ms_Open s) (ms_Close s)) (ms_Close s)"
    by (simp add: hour_bars_tiles)
  then show ?thesis
    using assms hour_bars_length by (auto simp: barsForUSSession_def)
qed

lemma hour_bars_cover_session_witness:
  "\<exists>bars. barsForUSSession \<lparr>ms_Date = mdate 2026 6 30, ms_Open = 63918423000 * Second, ms_Close = 63918446400 * Second\<rparr>
       BarInterval1Hour = Inr bars
     \<and> tiles (63918423000 * Second) bars (63918446400 * Second)"
proof -
  have "MarketSession_Validate \<lparr>ms_Date = mdate 2026 6 30, ms_Open = 63918423000 * Second,
      ms_Close = 63918446400 * Second\<rparr> = None" by code_simp
  from hour_bars_cover_session [OF this] show ?thesis by auto
qed

lemma scheduledUSBar_eta: "\<lparr>ub_open = ub_open b, ub_close = ub_close b\<rparr> = b"
  by simp





end
