(* ===== verification/Catalog.thy ===== *)
theory Catalog
  imports Domain
begin

text \<open>
  Catalog entities and subscriptions: domain/catalog_entities.go and domain/catalog.go. Each struct
  is a record, each \<^verbatim>\<open>Validate\<close> method the list of its checks in source order (\<open>first_error\<close> returns
  the first that fails), each \<^verbatim>\<open>New...\<close> constructor the normalisation followed by the validation.
\<close>

subsection \<open>Shared checks\<close>

definition invalidData :: error where "invalidData = ErrInvalidData"

definition validateIdentity :: "ID \<Rightarrow> Code \<Rightarrow> string \<Rightarrow> nat \<Rightarrow> error option" where
  "validateIdentity i code prefix maximumLength = first_error
     [guard (ID_IsZero i) invalidData,
      guard (ParseCode code \<noteq> Inr code \<or> maximumLength < length code) invalidData,
      guard (prefix \<noteq> '''' \<and> \<not> HasPrefix code prefix) invalidData]"

definition validateText :: "string \<Rightarrow> int \<Rightarrow> error option" where
  "validateText value maximumLength =
     guard (TrimSpace value = '''' \<or> maximumLength < RuneCountInString value) invalidData"

definition validateScale :: "int option \<Rightarrow> error option" where
  "validateScale value = guard (\<exists>v. value = Some v \<and> (v < 0 \<or> 18 < v)) invalidData"

definition validatePositiveDecimal :: "rat option \<Rightarrow> error option" where
  "validatePositiveDecimal value = guard (\<exists>v. value = Some v \<and> \<not> 0 < v) invalidData"

definition validateValidRange :: "time option \<Rightarrow> time option \<Rightarrow> error option" where
  "validateValidRange from to = guard (\<exists>f t. from = Some f \<and> to = Some t \<and> \<not> f < t) invalidData"

definition validateRecord :: "RawMessage \<Rightarrow> time \<Rightarrow> time \<Rightarrow> error option" where
  "validateRecord metadata createdAt updatedAt = first_error
     [guard (\<not> isJSONObject metadata) invalidData,
      guard (IsZero createdAt \<or> IsZero updatedAt \<or> updatedAt < createdAt) invalidData]"

lemma guard_option_code [code]:
  "validateScale value = guard (case value of None \<Rightarrow> False | Some v \<Rightarrow> v < 0 \<or> 18 < v) invalidData"
  "validatePositiveDecimal dec = guard (case dec of None \<Rightarrow> False | Some v \<Rightarrow> \<not> 0 < v) invalidData"
  "validateValidRange from to =
     guard (case (from, to) of (Some f, Some t) \<Rightarrow> \<not> f < t | _ \<Rightarrow> False) invalidData"
  by (auto simp: validateScale_def validatePositiveDecimal_def validateValidRange_def
      split: option.splits)

subsection \<open>Assets, instruments and providers\<close>

record Asset =
  asset_ID :: ID
  asset_Code :: Code
  asset_AssetType :: string
  asset_CanonicalSymbol :: string
  asset_Name :: string
  asset_Status :: string
  asset_Metadata :: RawMessage
  asset_CreatedAt :: time
  asset_UpdatedAt :: time

definition Asset_Validate :: "Asset \<Rightarrow> error option" where
  "Asset_Validate a = first_error
     [validateIdentity (asset_ID a) (asset_Code a) ''asset.'' 128,
      err_of (ParseAssetType (asset_AssetType a)),
      err_of (ParseAssetStatus (asset_Status a)),
      validateText (asset_CanonicalSymbol a) 64,
      validateText (asset_Name a) 255,
      validateRecord (asset_Metadata a) (asset_CreatedAt a) (asset_UpdatedAt a)]"

definition NewAsset :: "Asset \<Rightarrow> Asset result" where
  "NewAsset a =
     (let a' = a\<lparr>asset_Metadata := normalizedJSON (asset_Metadata a)\<rparr>
      in checked (Asset_Validate a') (Inr a'))"

record Instrument =
  inst_ID :: ID
  inst_Code :: Code
  inst_AssetID :: ID
  inst_Venue :: string
  inst_InstrumentType :: string
  inst_Symbol :: string
  inst_QuoteAssetID :: "ID option"
  inst_QuoteCurrency :: string
  inst_MarketTimezone :: string
  inst_PriceScale :: "int option"
  inst_QuantityScale :: "int option"
  inst_LotSize :: "rat option"
  inst_MinQuantity :: "rat option"
  inst_Status :: string
  inst_ValidFrom :: "time option"
  inst_ValidTo :: "time option"
  inst_Metadata :: RawMessage
  inst_CreatedAt :: time
  inst_UpdatedAt :: time

definition Instrument_Validate :: "platform \<Rightarrow> Instrument \<Rightarrow> error option" where
  "Instrument_Validate pf i = first_error
     [validateIdentity (inst_ID i) (inst_Code i) ''instrument.'' 160,
      guard (ID_IsZero (inst_AssetID i)) invalidData,
      err_of (ParseInstrumentType (inst_InstrumentType i)),
      err_of (ParseInstrumentStatus (inst_Status i)),
      validateText (inst_Venue i) 32,
      validateText (inst_Symbol i) 64,
      validateText (inst_QuoteCurrency i) 16,
      validateText (inst_MarketTimezone i) 64,
      guard (\<not> LoadLocation_ok pf (inst_MarketTimezone i)) invalidData,
      guard (case inst_QuoteAssetID i of None \<Rightarrow> False
             | Some q \<Rightarrow> ID_IsZero q \<or> q = inst_AssetID i) invalidData,
      validateScale (inst_PriceScale i),
      validateScale (inst_QuantityScale i),
      validatePositiveDecimal (inst_LotSize i),
      validatePositiveDecimal (inst_MinQuantity i),
      validateValidRange (inst_ValidFrom i) (inst_ValidTo i),
      validateRecord (inst_Metadata i) (inst_CreatedAt i) (inst_UpdatedAt i)]"

definition NewInstrument :: "platform \<Rightarrow> Instrument \<Rightarrow> Instrument result" where
  "NewInstrument pf i =
     (let i' = i\<lparr>inst_Metadata := normalizedJSON (inst_Metadata i)\<rparr>
      in checked (Instrument_Validate pf i') (Inr i'))"

record Provider =
  prov_ID :: ID
  prov_Code :: Code
  prov_Name :: string
  prov_ProviderType :: string
  prov_Status :: string
  prov_Metadata :: RawMessage
  prov_CreatedAt :: time
  prov_UpdatedAt :: time

definition Provider_Validate :: "Provider \<Rightarrow> error option" where
  "Provider_Validate p = first_error
     [validateIdentity (prov_ID p) (prov_Code p) '''' 64,
      validateText (prov_Name p) 128,
      err_of (ParseProviderType (prov_ProviderType p)),
      err_of (ParseProviderStatus (prov_Status p)),
      validateRecord (prov_Metadata p) (prov_CreatedAt p) (prov_UpdatedAt p)]"

definition NewProvider :: "Provider \<Rightarrow> Provider result" where
  "NewProvider p =
     (let p' = p\<lparr>prov_Metadata := normalizedJSON (prov_Metadata p)\<rparr>
      in checked (Provider_Validate p') (Inr p'))"

subsection \<open>Provider mappings\<close>

record ProviderCapabilities =
  cap_Quote :: bool
  cap_Historical :: bool
  cap_Intervals :: "BarInterval list"

text \<open>The loop over the intervals, with the set of those already seen.\<close>

fun capabilities_loop :: "BarInterval set \<Rightarrow> BarInterval list \<Rightarrow> error option" where
  "capabilities_loop seen [] = None"
| "capabilities_loop seen (interval # rest) =
     (if ParseBarInterval interval \<noteq> Inr interval then Some invalidData
      else if interval \<in> seen then Some invalidData
      else capabilities_loop (insert interval seen) rest)"

definition ProviderCapabilities_Validate :: "ProviderCapabilities \<Rightarrow> error option" where
  "ProviderCapabilities_Validate c = capabilities_loop {} (cap_Intervals c)"

record ProviderInstrument =
  pi_ID :: ID
  pi_Code :: Code
  pi_ProviderID :: ID
  pi_InstrumentID :: ID
  pi_ExternalSymbol :: string
  pi_ProviderMarket :: string
  pi_Capabilities :: ProviderCapabilities
  pi_Priority :: int
  pi_IsDefault :: bool
  pi_Enabled :: bool
  pi_ValidFrom :: "time option"
  pi_ValidTo :: "time option"
  pi_Metadata :: RawMessage
  pi_CreatedAt :: time
  pi_UpdatedAt :: time

definition ProviderInstrument_Validate :: "ProviderInstrument \<Rightarrow> error option" where
  "ProviderInstrument_Validate p = first_error
     [validateIdentity (pi_ID p) (pi_Code p) ''provider.'' 192,
      guard (ID_IsZero (pi_ProviderID p) \<or> ID_IsZero (pi_InstrumentID p)) invalidData,
      validateText (pi_ExternalSymbol p) 128,
      validateText (pi_ProviderMarket p) 32,
      guard (pi_Priority p < 0) invalidData,
      ProviderCapabilities_Validate (pi_Capabilities p),
      validateValidRange (pi_ValidFrom p) (pi_ValidTo p),
      guard (pi_IsDefault p \<and> (\<not> pi_Enabled p \<or> pi_ValidTo p \<noteq> None)) invalidData,
      validateRecord (pi_Metadata p) (pi_CreatedAt p) (pi_UpdatedAt p)]"

definition NewProviderInstrument :: "ProviderInstrument \<Rightarrow> ProviderInstrument result" where
  "NewProviderInstrument p =
     (let p' = p\<lparr>pi_Metadata := normalizedJSON (pi_Metadata p)\<rparr>
      in checked (ProviderInstrument_Validate p') (Inr p'))"

definition ValidateAssetInstrument :: "platform \<Rightarrow> Asset \<Rightarrow> Instrument \<Rightarrow> error option" where
  "ValidateAssetInstrument pf a i = first_error
     [Asset_Validate a,
      Instrument_Validate pf i,
      guard (asset_ID a \<noteq> inst_AssetID i) invalidData,
      guard (\<not> ((asset_AssetType a = ''STOCK'' \<and> inst_InstrumentType i = ''EQUITY'')
              \<or> (asset_AssetType a = ''ETF'' \<and> inst_InstrumentType i = ''ETF'')
              \<or> (asset_AssetType a = ''CRYPTO'' \<and> inst_InstrumentType i = ''SPOT'')
              \<or> (asset_AssetType a = ''FX'' \<and> inst_InstrumentType i = ''FX''))) invalidData]"

definition ValidateProviderMapping :: "platform \<Rightarrow> Provider \<Rightarrow> Instrument \<Rightarrow> ProviderInstrument \<Rightarrow> error option" where
  "ValidateProviderMapping pf p i m = first_error
     [Provider_Validate p,
      Instrument_Validate pf i,
      ProviderInstrument_Validate m,
      guard (pi_ProviderID m \<noteq> prov_ID p \<or> pi_InstrumentID m \<noteq> inst_ID i) invalidData]"

subsection \<open>Subscriptions (catalog.go)\<close>

record CollectionSubscription =
  sub_ID :: ID
  sub_ProviderInstrumentID :: ID
  sub_Interval :: string
  sub_Enabled :: bool
  sub_Priority :: int
  sub_CloseDelaySeconds :: int
  sub_RevisionDelaySeconds :: "int option"
  sub_Metadata :: RawMessage
  sub_CreatedAt :: time
  sub_UpdatedAt :: time

record SubscriptionSettings =
  set_Enabled :: bool
  set_Priority :: int
  set_CloseDelaySeconds :: int
  set_RevisionDelaySeconds :: "int option"

text \<open>\<open>sae_OccurredAtUTC\<close> records whether the \<^verbatim>\<open>Location()\<close> of \<^verbatim>\<open>OccurredAt\<close> is \<^verbatim>\<open>time.UTC\<close>.\<close>

record SubscriptionAuditEntry =
  sae_Action :: string
  sae_RequestedBy :: string
  sae_ActorType :: string
  sae_RequestID :: string
  sae_Reason :: string
  sae_OccurredAt :: time
  sae_OccurredAtUTC :: bool

definition audit_text_bad :: "string \<Rightarrow> int \<Rightarrow> bool" where
  "audit_text_bad text maximum \<longleftrightarrow> text = '''' \<or> text \<noteq> TrimSpace text \<or> maximum < RuneCountInString text"

definition SubscriptionAuditEntry_Validate :: "SubscriptionAuditEntry \<Rightarrow> error option" where
  "SubscriptionAuditEntry_Validate e = first_error
     [guard (sae_Action e \<noteq> ''create'' \<and> sae_Action e \<noteq> ''update'') ErrInvalidData,
      guard (sae_ActorType e \<noteq> ''user'' \<and> sae_ActorType e \<noteq> ''service'') ErrInvalidData,
      guard (audit_text_bad (sae_RequestedBy e) 128) ErrInvalidData,
      guard (audit_text_bad (sae_RequestID e) 128) ErrInvalidData,
      guard (audit_text_bad (sae_Reason e) 512) ErrInvalidData,
      guard (IsZero (sae_OccurredAt e) \<or> \<not> sae_OccurredAtUTC e) ErrInvalidData]"

subsection \<open>What a valid entity satisfies\<close>

lemma capabilities_loop_None_iff:
  "capabilities_loop seen xs = None \<longleftrightarrow>
     distinct xs \<and> set xs \<inter> seen = {} \<and> set xs \<subseteq> {BarInterval1Hour, BarInterval1Day}"
  by (induction seen xs rule: capabilities_loop.induct) (auto simp: ParseBarInterval_def)

lemma ProviderCapabilities_valid [go_valid]:
  "ProviderCapabilities_Validate c = None \<longleftrightarrow>
     distinct (cap_Intervals c) \<and> set (cap_Intervals c) \<subseteq> {BarInterval1Hour, BarInterval1Day}"
  by (simp add: ProviderCapabilities_Validate_def capabilities_loop_None_iff)

lemma capabilities_loop_error: "capabilities_loop seen xs = Some e \<Longrightarrow> e = ErrInvalidData"
  by (induction seen xs rule: capabilities_loop.induct) (auto simp: invalidData_def split: if_splits)

text \<open>Every failure of an entity validator is \<open>ErrInvalidData\<close>.\<close>

definition only_invalid :: "error option \<Rightarrow> bool" where
  "only_invalid c \<longleftrightarrow> c = None \<or> c = Some ErrInvalidData"

named_theorems only_invalids \<open>checks that fail with \<open>ErrInvalidData\<close> only\<close>

lemma only_invalid_first_error [only_invalids]:
  "list_all only_invalid cs \<Longrightarrow> only_invalid (first_error cs)"
  by (induction cs rule: first_error.induct) (auto simp: only_invalid_def)

lemma only_invalid_guard [only_invalids]:
  "only_invalid (guard b invalidData)" "only_invalid (guard b ErrInvalidData)"
  by (simp_all add: guard_def invalidData_def only_invalid_def)

lemma only_invalid_parse [only_invalids]:
  "only_invalid (err_of (parse_enum xs v))" "only_invalid (err_of (ParseBarInterval v))"
  by (simp_all add: parse_enum_def ParseBarInterval_def only_invalid_def)

lemma only_invalid_validators [only_invalids]:
  "only_invalid (validateIdentity i c p n)" "only_invalid (validateText t k)"
  "only_invalid (validateScale s)" "only_invalid (validatePositiveDecimal r)"
  "only_invalid (validateValidRange u v)" "only_invalid (validateRecord raw x y)"
  by (simp_all add: only_invalids validateIdentity_def validateText_def validateScale_def
      validatePositiveDecimal_def validateValidRange_def validateRecord_def)

lemma only_invalid_capabilities [only_invalids]: "only_invalid (ProviderCapabilities_Validate c)"
  using capabilities_loop_error [of "{}" "cap_Intervals c"]
  by (cases "capabilities_loop {} (cap_Intervals c)")
    (auto simp: ProviderCapabilities_Validate_def only_invalid_def)

lemma only_invalid_entities [only_invalids]:
  "only_invalid (Asset_Validate a)" "only_invalid (Instrument_Validate pf i)"
  "only_invalid (Provider_Validate p)" "only_invalid (ProviderInstrument_Validate m)"
  by (simp_all add: only_invalids parse_enum_defs Asset_Validate_def Instrument_Validate_def
      Provider_Validate_def ProviderInstrument_Validate_def)

lemma only_invalid_relations [only_invalids]:
  "only_invalid (ValidateAssetInstrument pf a i)" "only_invalid (ValidateProviderMapping pf p i m)"
  "only_invalid (SubscriptionAuditEntry_Validate e)"
  by (simp_all add: only_invalids ValidateAssetInstrument_def ValidateProviderMapping_def
      SubscriptionAuditEntry_Validate_def)

lemma ProviderInstrument_default_valid [go_valid]:
  assumes "ProviderInstrument_Validate m = None" and "pi_IsDefault m"
  shows "pi_Enabled m \<and> pi_ValidTo m = None"
  using assms by (simp add: ProviderInstrument_Validate_def)

end
