(* ===== verification/MarketData.thy ===== *)
theory MarketData
  imports Catalog
begin

text \<open>
  Quotes, bars and time ranges (domain/market_data.go), and the durable ingestion and quality
  records (domain/ingestion.go, domain/quality.go). The lemmas at the end state what a validated
  bar, quote or range satisfies and that adjacent ranges partition the time axis.
\<close>

subsection \<open>Sources\<close>

record MarketDataSource =
  src_InstrumentID :: ID
  src_ProviderInstrumentID :: ID

definition MarketDataSource_Validate :: "MarketDataSource \<Rightarrow> error option" where
  "MarketDataSource_Validate s =
     guard (ID_IsZero (src_InstrumentID s) \<or> ID_IsZero (src_ProviderInstrumentID s)) invalidData"

definition NewMarketDataSource :: "ID \<Rightarrow> ID \<Rightarrow> MarketDataSource result" where
  "NewMarketDataSource instrumentID providerInstrumentID =
     (let s = \<lparr>src_InstrumentID = instrumentID, src_ProviderInstrumentID = providerInstrumentID\<rparr>
      in checked (MarketDataSource_Validate s) (Inr s))"

definition ValidateProviderInstrument :: "MarketDataSource \<Rightarrow> ProviderInstrument \<Rightarrow> error option" where
  "ValidateProviderInstrument s m = first_error
     [MarketDataSource_Validate s,
      ProviderInstrument_Validate m,
      guard (src_InstrumentID s \<noteq> pi_InstrumentID m \<or> src_ProviderInstrumentID s \<noteq> pi_ID m) invalidData]"

subsection \<open>Time ranges\<close>

record TimeRange =
  tr_Start :: "UTCInstant option"
  tr_End :: "UTCInstant option"

definition TimeRange_Validate :: "TimeRange \<Rightarrow> error option" where
  "TimeRange_Validate r = first_error
     [guard (case tr_Start r of None \<Rightarrow> False | Some s \<Rightarrow> IsZero s) invalidData,
      guard (case tr_End r of None \<Rightarrow> False | Some e \<Rightarrow> IsZero e) invalidData,
      guard (case (tr_Start r, tr_End r) of (Some s, Some e) \<Rightarrow> \<not> s < e | _ \<Rightarrow> False) invalidData]"

definition optional_instant :: "time option \<Rightarrow> UTCInstant option result" where
  "optional_instant t = (case t of
     None \<Rightarrow> Inr None
   | Some v \<Rightarrow> bind_result (NewUTCInstant v) (\<lambda>parsed. Inr (Some parsed)))"

definition NewTimeRange :: "time option \<Rightarrow> time option \<Rightarrow> TimeRange result" where
  "NewTimeRange start end =
     bind_result (optional_instant start) (\<lambda>s.
     bind_result (optional_instant end) (\<lambda>e.
       let r = \<lparr>tr_Start = s, tr_End = e\<rparr> in checked (TimeRange_Validate r) (Inr r)))"

definition NewBoundedTimeRange :: "time \<Rightarrow> time \<Rightarrow> TimeRange result" where
  "NewBoundedTimeRange start end = NewTimeRange (Some start) (Some end)"

definition TimeRange_Contains :: "TimeRange \<Rightarrow> UTCInstant \<Rightarrow> bool" where
  "TimeRange_Contains r instant =
     (if IsZero instant \<or> TimeRange_Validate r \<noteq> None then False
      else if (case tr_Start r of None \<Rightarrow> False | Some s \<Rightarrow> instant < s) then False
      else (case tr_End r of None \<Rightarrow> True | Some e \<Rightarrow> instant < e))"

definition TimeRange_IsBounded :: "TimeRange \<Rightarrow> bool" where
  "TimeRange_IsBounded r \<longleftrightarrow> tr_Start r \<noteq> None \<and> tr_End r \<noteq> None"

subsection \<open>Quotes\<close>

record Quote =
  q_InstrumentID :: ID
  q_ProviderInstrumentID :: ID
  q_MarketTime :: UTCInstant
  q_LastPrice :: rat
  q_BidPrice :: "rat option"
  q_BidSize :: "rat option"
  q_AskPrice :: "rat option"
  q_AskSize :: "rat option"
  q_Open24H :: "rat option"
  q_High24H :: "rat option"
  q_Low24H :: "rat option"
  q_BaseVolume24H :: "rat option"
  q_QuoteVolume24H :: "rat option"
  q_QualityStatus :: string
  q_CollectedAt :: UTCInstant
  q_Metadata :: RawMessage

definition opt_negative :: "rat option \<Rightarrow> bool" where
  "opt_negative v \<longleftrightarrow> (case v of None \<Rightarrow> False | Some x \<Rightarrow> x < 0)"

definition opt_rel :: "(rat \<Rightarrow> rat \<Rightarrow> bool) \<Rightarrow> rat option \<Rightarrow> rat option \<Rightarrow> bool" where
  "opt_rel R u v \<longleftrightarrow> (case (u, v) of (Some x, Some y) \<Rightarrow> R x y | _ \<Rightarrow> False)"

definition validateOptionalOHLC :: "rat option \<Rightarrow> rat option \<Rightarrow> rat option \<Rightarrow> error option" where
  "validateOptionalOHLC op hi lo = first_error
     [guard (opt_rel (<) hi lo) invalidData,
      guard (opt_rel (>) op hi) invalidData,
      guard (opt_rel (<) op lo) invalidData]"

definition Quote_Source :: "Quote \<Rightarrow> MarketDataSource" where
  "Quote_Source q = \<lparr>src_InstrumentID = q_InstrumentID q, src_ProviderInstrumentID = q_ProviderInstrumentID q\<rparr>"

definition Quote_Validate :: "Quote \<Rightarrow> error option" where
  "Quote_Validate q = first_error
     [MarketDataSource_Validate (Quote_Source q),
      guard (IsZero (q_MarketTime q) \<or> IsZero (q_CollectedAt q)) invalidData,
      guard (q_LastPrice q < 0) invalidData,
      first_error (map (\<lambda>v. guard (opt_negative v) invalidData)
        [q_BidPrice q, q_BidSize q, q_AskPrice q, q_AskSize q, q_Open24H q, q_High24H q,
         q_Low24H q, q_BaseVolume24H q, q_QuoteVolume24H q]),
      guard (opt_rel (>) (q_BidPrice q) (q_AskPrice q)) invalidData,
      validateOptionalOHLC (q_Open24H q) (q_High24H q) (q_Low24H q),
      err_of (ParseQualityStatus (q_QualityStatus q)),
      guard (\<not> isJSONObject (q_Metadata q)) invalidData]"

definition NewQuote :: "Quote \<Rightarrow> Quote result" where
  "NewQuote q =
     (let q' = q\<lparr>q_Metadata := normalizedJSON (q_Metadata q)\<rparr>
      in checked (Quote_Validate q') (Inr q'))"

subsection \<open>Bars\<close>

record Bar =
  bar_InstrumentID :: ID
  bar_ProviderInstrumentID :: ID
  bar_Interval :: BarInterval
  bar_OpenTime :: UTCInstant
  bar_Revision :: int
  bar_CloseTime :: UTCInstant
  bar_OpenPrice :: rat
  bar_HighPrice :: rat
  bar_LowPrice :: rat
  bar_ClosePrice :: rat
  bar_BaseVolume :: "rat option"
  bar_QuoteVolume :: "rat option"
  bar_TradeCount :: "int option"
  bar_IsClosed :: bool
  bar_IsCurrent :: bool
  bar_QualityStatus :: string
  bar_ProviderUpdatedAt :: "UTCInstant option"
  bar_CollectedAt :: UTCInstant
  bar_RawHash :: string
  bar_Metadata :: RawMessage

definition validateOHLC :: "rat \<Rightarrow> rat \<Rightarrow> rat \<Rightarrow> rat \<Rightarrow> error option" where
  "validateOHLC op hi lo cl = first_error
     [guard (op < 0 \<or> hi < 0 \<or> lo < 0 \<or> cl < 0) invalidData,
      guard (hi < lo \<or> op > hi \<or> cl > hi \<or> op < lo \<or> cl < lo) invalidData]"

definition Bar_Source :: "Bar \<Rightarrow> MarketDataSource" where
  "Bar_Source b = \<lparr>src_InstrumentID = bar_InstrumentID b, src_ProviderInstrumentID = bar_ProviderInstrumentID b\<rparr>"

definition Bar_Validate :: "Bar \<Rightarrow> error option" where
  "Bar_Validate b = first_error
     [MarketDataSource_Validate (Bar_Source b),
      err_of (ParseBarInterval (bar_Interval b)),
      guard (IsZero (bar_OpenTime b) \<or> IsZero (bar_CloseTime b) \<or> IsZero (bar_CollectedAt b)) invalidData,
      guard (\<not> bar_OpenTime b < bar_CloseTime b) invalidData,
      guard (bar_Revision b < 0) invalidData,
      validateOHLC (bar_OpenPrice b) (bar_HighPrice b) (bar_LowPrice b) (bar_ClosePrice b),
      guard (opt_negative (bar_BaseVolume b)) invalidData,
      guard (opt_negative (bar_QuoteVolume b)) invalidData,
      guard (case bar_TradeCount b of None \<Rightarrow> False | Some n \<Rightarrow> n < 0) invalidData,
      guard (bar_IsClosed b \<and> bar_CollectedAt b < bar_CloseTime b) invalidData,
      guard (case bar_ProviderUpdatedAt b of None \<Rightarrow> False | Some t \<Rightarrow> IsZero t) invalidData,
      err_of (ParseQualityStatus (bar_QualityStatus b)),
      guard (64 < RuneCountInString (bar_RawHash b)) invalidData,
      guard (\<not> isJSONObject (bar_Metadata b)) invalidData]"

definition NewBar :: "Bar \<Rightarrow> Bar result" where
  "NewBar b =
     (let b' = b\<lparr>bar_Metadata := normalizedJSON (bar_Metadata b)\<rparr>
      in checked (Bar_Validate b') (Inr b'))"

definition NewStoredBar :: "Bar \<Rightarrow> Bar result" where
  "NewStoredBar b = bind_result (NewBar b) (\<lambda>b'.
     if bar_Revision b' \<le> 0 then Inl invalidData else Inr b')"

record MarketBarFilter =
  mbf_InstrumentID :: ID
  mbf_ProviderInstrumentID :: ID
  mbf_Interval :: BarInterval
  mbf_Range :: TimeRange
  mbf_BeforeOpenTime :: "UTCInstant option"
  mbf_Limit :: int

definition MarketBarFilter_Validate :: "MarketBarFilter \<Rightarrow> error option" where
  "MarketBarFilter_Validate f = first_error
     [MarketDataSource_Validate \<lparr>src_InstrumentID = mbf_InstrumentID f,
        src_ProviderInstrumentID = mbf_ProviderInstrumentID f\<rparr>,
      err_of (ParseBarInterval (mbf_Interval f)),
      TimeRange_Validate (mbf_Range f),
      guard (case mbf_BeforeOpenTime f of None \<Rightarrow> False | Some t \<Rightarrow> IsZero t) invalidData]"

record MarketBarWriteResult =
  mbw_Applied :: bool
  mbw_Revision :: int

subsection \<open>Ingestion records (ingestion.go, quality.go)\<close>

record IngestionRun =
  run_ID :: ID
  run_RunKey :: string
  run_RunType :: string
  run_TriggerType :: string
  run_Status :: string
  run_ScheduledAt :: "time option"
  run_StartedAt :: "time option"
  run_FinishedAt :: "time option"
  run_RequestedBy :: "string option"
  run_TaskCount :: int
  run_SuccessCount :: int
  run_FailedCount :: int
  run_Context :: RawMessage
  run_ErrorSummary :: RawMessage
  run_CreatedAt :: time

record IngestionTask =
  task_ID :: ID
  task_RunID :: ID
  task_SubscriptionID :: ID
  task_RetryOfTaskID :: "ID option"
  task_RangeStart :: time
  task_RangeEnd :: time
  task_Status :: string
  task_AttemptCount :: int
  task_MaxAttempts :: int
  task_NextAttemptAt :: "time option"
  task_LockedBy :: "string option"
  task_LockedUntil :: "time option"
  task_StartedAt :: "time option"
  task_FinishedAt :: "time option"
  task_ProviderRequestID :: "string option"
  task_ErrorCode :: "string option"
  task_ErrorMessage :: "string option"
  task_ErrorDetails :: RawMessage
  task_CanceledBy :: "string option"
  task_CancelReason :: "string option"
  task_CreatedAt :: time
  task_UpdatedAt :: time

record IngestionCheckpoint =
  cp_SubscriptionID :: ID
  cp_LastSuccessOpenTime :: "time option"
  cp_LastClosedOpenTime :: "time option"
  cp_LastAttemptAt :: "time option"
  cp_LastSuccessAt :: "time option"
  cp_ConsecutiveFailures :: int
  cp_UpdatedAt :: time

record DataQualityIssue =
  dq_ID :: ID
  dq_InstrumentID :: ID
  dq_ProviderInstrumentID :: "ID option"
  dq_Interval :: "string option"
  dq_OpenTime :: "time option"
  dq_RuleCode :: string
  dq_Severity :: string
  dq_Status :: string
  dq_Summary :: string
  dq_Details :: RawMessage
  dq_DetectedAt :: time
  dq_ResolvedAt :: "time option"
  dq_ResolutionNote :: "string option"
  dq_CreatedAt :: time
  dq_UpdatedAt :: time

abbreviation "st_pending \<equiv> ''pending''"
abbreviation "st_running \<equiv> ''running''"
abbreviation "st_retry_wait \<equiv> ''retry_wait''"
abbreviation "st_success \<equiv> ''success''"
abbreviation "st_failed \<equiv> ''failed''"
abbreviation "st_canceled \<equiv> ''canceled''"
abbreviation "st_partial \<equiv> ''partial''"

subsection \<open>What validation guarantees\<close>

lemma Bar_valid_times [go_valid]:
  assumes "Bar_Validate b = None"
  shows "bar_OpenTime b < bar_CloseTime b" "\<not> IsZero (bar_OpenTime b)"
    "bar_IsClosed b \<Longrightarrow> bar_CloseTime b \<le> bar_CollectedAt b" "0 \<le> bar_Revision b"
  using assms by (auto simp: Bar_Validate_def)

lemma Bar_valid_prices [go_valid]:
  assumes "Bar_Validate b = None"
  shows "0 \<le> bar_LowPrice b" "bar_LowPrice b \<le> bar_OpenPrice b" "bar_LowPrice b \<le> bar_ClosePrice b"
    "bar_OpenPrice b \<le> bar_HighPrice b" "bar_ClosePrice b \<le> bar_HighPrice b"
  using assms by (auto simp: Bar_Validate_def validateOHLC_def)

lemma Bar_valid_identity [go_valid]:
  assumes "Bar_Validate b = None"
  shows "bar_InstrumentID b \<noteq> 0" "bar_ProviderInstrumentID b \<noteq> 0"
    "bar_Interval b = BarInterval1Hour \<or> bar_Interval b = BarInterval1Day"
  using assms by (auto simp: Bar_Validate_def MarketDataSource_Validate_def Bar_Source_def ID_IsZero_def)

lemma NewBar_Inr_iff:
  "NewBar b = Inr b' \<longleftrightarrow>
     b' = b\<lparr>bar_Metadata := normalizedJSON (bar_Metadata b)\<rparr> \<and> Bar_Validate b' = None"
  by (auto simp: NewBar_def Let_def checked_Inr_iff)

text \<open>A normalised bar is normalised once and for all.\<close>

lemma NewBar_idem: "NewBar b = Inr b' \<Longrightarrow> NewBar b' = Inr b'"
  by (auto simp: NewBar_Inr_iff)

lemma TimeRange_valid_iff [go_valid]:
  "TimeRange_Validate r = None \<longleftrightarrow>
     tr_Start r \<noteq> Some 0 \<and> tr_End r \<noteq> Some 0
     \<and> (\<forall>s e. tr_Start r = Some s \<longrightarrow> tr_End r = Some e \<longrightarrow> s < e)"
  by (auto simp: TimeRange_Validate_def IsZero_def split: option.splits)

lemma NewBoundedTimeRange_Inr_iff:
  "NewBoundedTimeRange s e = Inr r \<longleftrightarrow>
     s \<noteq> 0 \<and> e \<noteq> 0 \<and> s < e \<and> r = \<lparr>tr_Start = Some s, tr_End = Some e\<rparr>"
  by (auto simp: NewBoundedTimeRange_def NewTimeRange_def optional_instant_def NewUTCInstant_def
      IsZero_def Let_def bind_result_def checked_Inr_iff TimeRange_valid_iff split: if_splits)

lemma TimeRange_Contains_bounded:
  "TimeRange_Contains \<lparr>tr_Start = Some s, tr_End = Some e\<rparr> t \<longleftrightarrow>
     t \<noteq> 0 \<and> s \<noteq> 0 \<and> e \<noteq> 0 \<and> s \<le> t \<and> t < e"
  by (auto simp: TimeRange_Contains_def TimeRange_valid_iff IsZero_def)

text \<open>
  Adjacent half-open ranges neither overlap nor leave a gap: an instant of the joined range is in
  exactly one of the two.
\<close>

lemma TimeRange_adjacent:
  assumes "NewBoundedTimeRange s m = Inr r1" and "NewBoundedTimeRange m e = Inr r2"
    and "NewBoundedTimeRange s e = Inr r"
  shows "TimeRange_Contains r t \<longleftrightarrow> TimeRange_Contains r1 t \<noteq> TimeRange_Contains r2 t"
  using assms by (auto simp: NewBoundedTimeRange_Inr_iff TimeRange_Contains_bounded)

lemma only_invalid_market_data [only_invalids]:
  "only_invalid (MarketDataSource_Validate s)" "only_invalid (TimeRange_Validate r)"
  "only_invalid (validateOptionalOHLC u v w)" "only_invalid (validateOHLC x y z z2)"
  "only_invalid (Quote_Validate q)" "only_invalid (Bar_Validate b)"
  by (simp_all add: only_invalids parse_enum_defs MarketDataSource_Validate_def TimeRange_Validate_def
      validateOptionalOHLC_def validateOHLC_def Quote_Validate_def Bar_Validate_def)

end
