(* ===== verification/CatchUp.thy ===== *)
theory CatchUp
  imports USMarket MarketData
begin

text \<open>
  Catch-up planning: the pure functions of scheduler/catchup.go. From a boundary and the newest due
  window they list every window expected in between (\<open>expectedContinuousWindows\<close>,
  \<open>expectedUSWindows\<close>), then merge those whose bar is missing into bounded groups
  (\<open>missingWindowGroups\<close>).
\<close>

subsection \<open>Expected windows\<close>

definition close_window :: "BarInterval \<Rightarrow> duration \<Rightarrow> time \<Rightarrow> time \<Rightarrow> CollectionWindow" where
  "close_window interval delay op cl = \<lparr>cw_Interval = interval, cw_Trigger = WindowTriggerClose,
     cw_RangeStart = op, cw_RangeEnd = cl, cw_EligibleAt = cl + delay\<rparr>"

text \<open>
  The loop, with the number of windows built so far. The test \<open>0 < d\<close> is not in the source: it
  holds for every duration \<^verbatim>\<open>durationForInterval\<close> returns, and makes the recursion end for the others.
\<close>

function continuous_windows ::
  "BarInterval \<Rightarrow> duration \<Rightarrow> duration \<Rightarrow> int \<Rightarrow> time \<Rightarrow> int \<Rightarrow> time \<Rightarrow> CollectionWindow list" where
  "continuous_windows interval d delay limit lastOpen n op =
     (if (limit \<le> 0 \<or> n < limit) \<and> \<not> op > lastOpen \<and> 0 < d
      then close_window interval delay op (op + d)
             # continuous_windows interval d delay limit lastOpen (n + 1) (op + d)
      else [])"
  by pat_completeness auto
termination
  by (relation "measure (\<lambda>(interval, d, delay, limit, lastOpen, n, op). nat (lastOpen - op + 1))") auto

declare continuous_windows.simps [simp del]

definition expectedContinuousWindows ::
  "BarInterval \<Rightarrow> time \<Rightarrow> CollectionWindow \<Rightarrow> duration \<Rightarrow> int \<Rightarrow> CollectionWindow list result" where
  "expectedContinuousWindows interval boundary latest delay limit =
     bind_result (durationForInterval interval) (\<lambda>d.
       let op = Truncate boundary d;
           op' = (if \<not> op + d > boundary then op + d else op)
       in Inr (continuous_windows interval d delay limit (cw_RangeStart latest) 0 op'))"

definition sessionDateBefore :: "MarketDate \<Rightarrow> time \<Rightarrow> location \<Rightarrow> bool" where
  "sessionDateBefore date end loc =
     (let (year, month, day) = time_In_Date loc end
      in md_Year date < year \<or> (md_Year date = year \<and>
           (md_Month date < month \<or> (md_Month date = month \<and> md_Day date < day))))"

text \<open>The loop over the bars of one session: the windows so far, and whether the limit was reached.\<close>

fun add_bars ::
  "BarInterval \<Rightarrow> time \<Rightarrow> CollectionWindow \<Rightarrow> duration \<Rightarrow> int \<Rightarrow> CollectionWindow list \<Rightarrow> scheduledUSBar list
     \<Rightarrow> CollectionWindow list \<times> bool" where
  "add_bars interval boundary latest delay limit windows [] = (windows, False)"
| "add_bars interval boundary latest delay limit windows (bar # bars) =
     (if ub_close bar > boundary \<and> \<not> ub_open bar > cw_RangeStart latest
      then let windows' = windows @ [close_window interval delay (ub_open bar) (ub_close bar)]
           in if limit > 0 \<and> int (length windows') = limit then (windows', True)
              else add_bars interval boundary latest delay limit windows' bars
      else add_bars interval boundary latest delay limit windows bars)"

definition session_windows ::
  "TradingCalendar \<Rightarrow> BarInterval \<Rightarrow> time \<Rightarrow> CollectionWindow \<Rightarrow> duration \<Rightarrow> int \<Rightarrow> CollectionWindow list \<Rightarrow> MarketDate
     \<Rightarrow> (CollectionWindow list \<times> bool) result" where
  "session_windows cal interval boundary latest delay limit windows date =
     bind_result (tc_SessionForDate cal date) (\<lambda>found. case found of
       None \<Rightarrow> Inr (windows, False)
     | Some session \<Rightarrow> bind_result (barsForUSSession session interval) (\<lambda>bars.
         Inr (add_bars interval boundary latest delay limit windows bars)))"

definition next_date :: "MarketDate \<Rightarrow> MarketDate result" where
  "next_date date =
     (let v = AddDate_days_UTC (time_Date UTC_location (md_Year date) (md_Month date) (md_Day date) 12 0 0) 1;
          (year, month, day) = time_In_Date UTC_location v
      in NewMarketDate year month day)"

lemma next_date_eq: "next_date date = Inr date' \<Longrightarrow> date' = addDays date 1"
  by (auto simp: next_date_def addDays_def NewMarketDate_def checked_Inr_iff Let_def split: prod.splits)

lemma date_before_iff:
  assumes "date_ok d" "date_ok e"
  shows "md_Year d < md_Year e \<or> (md_Year d = md_Year e \<and>
           (md_Month d < md_Month e \<or> (md_Month d = md_Month e \<and> md_Day d < md_Day e)))
         \<longleftrightarrow> day_of d < day_of e"
proof -
  have lt: "day_of x < day_of y" if xy: "date_ok x" "date_ok y" and ord:
    "md_Year x < md_Year y \<or> (md_Year x = md_Year y \<and>
       (md_Month x < md_Month y \<or> (md_Month x = md_Month y \<and> md_Day x < md_Day y)))" for x y
  proof -
    have bx: "1 \<le> md_Month x" "md_Month x \<le> 12" "1 \<le> md_Day x" "md_Day x \<le> days_in_month (md_Year x) (md_Month x)"
      and by': "1 \<le> md_Month y" "md_Month y \<le> 12" "1 \<le> md_Day y"
      using xy by (auto simp: date_ok_def valid_date_def)
    consider "md_Year x < md_Year y" | "md_Year x = md_Year y" "md_Month x < md_Month y"
      | "md_Year x = md_Year y" "md_Month x = md_Month y" "md_Day x < md_Day y" using ord by blast
    then show ?thesis
    proof cases
      case 1
      then have "days_before_year (md_Year x + 1) \<le> days_before_year (md_Year y)"
        using days_before_year_mono [of "md_Year x" "md_Year y"] by (simp add: days_before_year_Suc)
      then show ?thesis using day_of_year [OF xy(1)] day_of_year [OF xy(2)] by linarith
    next
      case 2
      have mono: "days_before_month lp (md_Month x + 1) \<le> days_before_month lp (md_Month y)" for lp
        using bx(1,2) by' 2(2) by (cases "md_Month x" rule: month_cases) (auto simp: days_before_month_def)
      show ?thesis
        using 2 bx by' mono [of "leap (md_Year y)"]
        by (simp add: day_of_def date_days_valid days_in_month_def)
    next
      case 3
      then show ?thesis using bx by' by (simp add: day_of_def date_days_valid)
    qed
  qed
  let ?L = "\<lambda>x y. md_Year x < md_Year y \<or> (md_Year x = md_Year y \<and>
       (md_Month x < md_Month y \<or> (md_Month x = md_Month y \<and> md_Day x < md_Day y)))"
  have "?L d e \<or> ?L e d \<or> d = e" by (cases d, cases e) (simp, linarith)
  moreover have "\<not> day_of d < day_of e" if "?L e d" using lt [OF assms(2,1) that] by simp
  ultimately show ?thesis using lt [OF assms] by blast
qed

lemma sessionDateBefore_iff:
  assumes "date_ok d" shows "sessionDateBefore d t loc \<longleftrightarrow> day_of d < local_day loc t"
proof -
  obtain y m k where c: "civil (local_day loc t) = (y, m, k)" by (metis prod_cases3)
  with civil_correct [OF c] have "date_ok (mdate y m k)" "day_of (mdate y m k) = local_day loc t"
    by (auto simp: date_ok_def day_of_def)
  with date_before_iff [OF assms this(1)] c show ?thesis
    by (simp add: sessionDateBefore_def time_In_Date_def)
qed

function us_windows_loop ::
  "TradingCalendar \<Rightarrow> location \<Rightarrow> BarInterval \<Rightarrow> time \<Rightarrow> CollectionWindow \<Rightarrow> duration \<Rightarrow> int \<Rightarrow> CollectionWindow list
     \<Rightarrow> MarketDate \<Rightarrow> CollectionWindow list result" where
  "us_windows_loop cal loc interval boundary latest delay limit windows date =
     (if limit \<le> 0 \<or> int (length windows) < limit then
        (case session_windows cal interval boundary latest delay limit windows date of
           Inl e \<Rightarrow> Inl e
         | Inr (windows', full) \<Rightarrow>
             if full then Inr windows'
             else if \<not> sessionDateBefore date (cw_RangeEnd latest) loc then Inr windows'
             else (case next_date date of
                     Inl e \<Rightarrow> Inl e
                   | Inr date' \<Rightarrow> us_windows_loop cal loc interval boundary latest delay limit windows' date'))
      else Inr windows)"
  by pat_completeness auto
termination
proof (relation "measure (\<lambda>(cal, loc, interval, boundary, latest, delay, limit, windows, date).
    nat (local_day loc (cw_RangeEnd latest) - day_of date) + (if date_ok date then 0 else 1))", goal_cases)
  case (2 cal loc interval boundary latest delay limit windows date wf windows' full date')
  then have d: "date' = addDays date 1" using next_date_eq by blast
  show ?case
    using 2(5) sessionDateBefore_iff [of date "cw_RangeEnd latest" loc] by (auto simp: d)
qed simp

declare us_windows_loop.simps [simp del]

definition expectedUSWindows ::
  "TradingCalendar option \<Rightarrow> BarInterval \<Rightarrow> time \<Rightarrow> CollectionWindow \<Rightarrow> duration \<Rightarrow> int \<Rightarrow> CollectionWindow list result" where
  "expectedUSWindows calendar interval boundary latest delay limit =
     (case calendar of
        None \<Rightarrow> Inl (ErrPlain ''US catch-up trading calendar is required'')
      | Some cal \<Rightarrow> (case tc_Location cal of
          None \<Rightarrow> Inl (ErrPlain ''US catch-up trading calendar is required'')
        | Some loc \<Rightarrow>
            bind_result (DateInLocation boundary (Some loc)) (\<lambda>date.
              us_windows_loop cal loc interval boundary latest delay limit [] date)))"

subsection \<open>Missing windows\<close>

definition present_opens :: "time list \<Rightarrow> int set" where
  "present_opens existing = set (map UnixNano existing)"

definition window_present :: "time list \<Rightarrow> CollectionWindow \<Rightarrow> bool" where
  "window_present existing w \<longleftrightarrow> UnixNano (cw_RangeStart w) \<in> present_opens existing"

text \<open>The inner loop: the group grown by the missing windows that follow, and the rest.\<close>

fun extend_group ::
  "time list \<Rightarrow> int \<Rightarrow> CollectionWindow \<Rightarrow> int \<Rightarrow> CollectionWindow list \<Rightarrow> CollectionWindow \<times> CollectionWindow list" where
  "extend_group existing maximumBars grp barCount [] = (grp, [])"
| "extend_group existing maximumBars grp barCount (w # ws) =
     (if barCount < maximumBars \<and> \<not> window_present existing w
      then extend_group existing maximumBars
             (grp\<lparr>cw_RangeEnd := cw_RangeEnd w, cw_EligibleAt := cw_EligibleAt w\<rparr>) (barCount + 1) ws
      else (grp, w # ws))"

lemma extend_group_length:
  "length (snd (extend_group existing maximumBars g k ws)) \<le> length ws"
  by (induction existing maximumBars g k ws rule: extend_group.induct) auto

text \<open>The outer loop, with the number of groups built so far.\<close>

function window_groups :: "time list \<Rightarrow> int \<Rightarrow> int \<Rightarrow> int \<Rightarrow> CollectionWindow list \<Rightarrow> CollectionWindow list" where
  "window_groups existing maximumBars maximumGroups n [] = []"
| "window_groups existing maximumBars maximumGroups n (w # ws) =
     (if \<not> n < maximumGroups then []
      else if window_present existing w then window_groups existing maximumBars maximumGroups n ws
      else let (grp, rest) = extend_group existing maximumBars w 1 ws
           in grp # window_groups existing maximumBars maximumGroups (n + 1) rest)"
  by pat_completeness auto
termination
proof (relation "measure (\<lambda>(existing, maximumBars, maximumGroups, n, ws). length ws)", goal_cases)
  case (3 existing maximumBars maximumGroups n w ws p grp rest)
  then have "rest = snd (extend_group existing maximumBars w 1 ws)" by (metis snd_conv)
  then show ?case using extend_group_length [of existing maximumBars w 1 ws] by simp
qed auto

definition missingWindowGroups ::
  "CollectionWindow list \<Rightarrow> time list \<Rightarrow> int \<Rightarrow> int \<Rightarrow> CollectionWindow list" where
  "missingWindowGroups candidates existing maximumBars maximumGroups =
     window_groups existing maximumBars maximumGroups 0 candidates"

definition allWindowsPresent :: "CollectionWindow list \<Rightarrow> time list \<Rightarrow> bool" where
  "allWindowsPresent candidates existing = list_all (window_present existing) candidates"

definition validateCheckpoint :: "ID \<Rightarrow> IngestionCheckpoint \<Rightarrow> error option" where
  "validateCheckpoint subscriptionID checkpoint =
     guard (cp_SubscriptionID checkpoint \<noteq> subscriptionID \<or> IsZero (cp_UpdatedAt checkpoint)
        \<or> cp_ConsecutiveFailures checkpoint < 0
        \<or> (case cp_LastClosedOpenTime checkpoint of None \<Rightarrow> False | Some t \<Rightarrow> IsZero t)) ErrInvalidData"

subsection \<open>Lemmas on the continuous axis\<close>

lemma dvd_range_cases:
  assumes "(d::int) dvd x" "0 \<le> x" "0 < d" shows "x = 0 \<or> d \<le> x"
  using assms by (auto dest: zdvd_imp_le)

lemma set_continuous_windows:
  assumes "limit \<le> 0" "0 < d"
  shows "set (continuous_windows interval d delay limit lastOpen n op) =
     {close_window interval delay q (q + d) | q. d dvd q - op \<and> op \<le> q \<and> q \<le> lastOpen}"
  using assms
proof (induction interval d delay limit lastOpen n op rule: continuous_windows.induct)
  case (1 interval d delay limit lastOpen n op)
  show ?case
  proof (cases "op \<le> lastOpen")
    case False
    then show ?thesis by (auto simp: continuous_windows.simps [of _ _ _ _ _ _ op])
  next
    case True
    have "{close_window interval delay q (q + d) | q. d dvd q - op \<and> op \<le> q \<and> q \<le> lastOpen} =
        insert (close_window interval delay op (op + d))
          {close_window interval delay q (q + d) | q. d dvd q - (op + d) \<and> op + d \<le> q \<and> q \<le> lastOpen}"
      (is "?L = ?R")
    proof
      show "?L \<subseteq> ?R"
      proof
        fix w assume "w \<in> ?L"
        then obtain q where q: "w = close_window interval delay q (q + d)" "d dvd q - op" "op \<le> q" "q \<le> lastOpen" by auto
        have "d dvd q - (op + d)" using dvd_diff [OF q(2), of d] by (simp add: algebra_simps)
        with q dvd_range_cases [OF q(2)] 1(3) show "w \<in> ?R" by (cases "q = op") auto
      qed
      show "?R \<subseteq> ?L"
      proof
        fix w assume "w \<in> ?R"
        then consider "w = close_window interval delay op (op + d)"
          | q where "w = close_window interval delay q (q + d)" "d dvd q - (op + d)" "op + d \<le> q" "q \<le> lastOpen" by auto
        then show "w \<in> ?L"
        proof cases
          case 1
          with True show ?thesis by auto
        next
          case (2 q)
          have "d dvd q - op" using dvd_add [OF 2(2), of d] by (simp add: algebra_simps)
          with 2 \<open>0 < d\<close> show ?thesis by auto
        qed
      qed
    qed
    with 1 True show ?thesis by (simp add: continuous_windows.simps [of _ _ _ _ _ _ op])
  qed
qed

lemma continuous_windows_ascending:
  "0 < d \<Longrightarrow> strictly_ascending cw_RangeStart (continuous_windows interval d delay limit lastOpen n op)
     \<and> (\<forall>w \<in> set (continuous_windows interval d delay limit lastOpen n op). op \<le> cw_RangeStart w)"
proof (induction interval d delay limit lastOpen n op rule: continuous_windows.induct)
  case (1 interval d delay limit lastOpen n op)
  show ?case
  proof (cases "(limit \<le> 0 \<or> n < limit) \<and> \<not> op > lastOpen \<and> 0 < d")
    case True
    with 1 show ?thesis
      by (force simp: continuous_windows.simps [of _ _ _ _ _ _ op] close_window_def)
  next
    case False
    then show ?thesis by (simp only: continuous_windows.simps [of _ _ _ _ _ _ op] if_False) simp
  qed
qed

lemma expectedContinuousWindows_correct:
  assumes "expectedContinuousWindows interval boundary latest delay limit = Inr ws"
    and "durationForInterval interval = Inr d" "limit \<le> 0"
  shows "set ws = {close_window interval delay q (q + d) | q. d dvd q \<and> boundary < q + d \<and> q \<le> cw_RangeStart latest}"
    "strictly_ascending cw_RangeStart ws"
proof -
  have d: "0 < d" using assms(2) by (rule durationForInterval_pos)
  have ws: "ws = continuous_windows interval d delay limit (cw_RangeStart latest) 0 (Truncate boundary d)"
    using assms(1,2) Truncate_gt [OF d, of boundary] by (auto simp: expectedContinuousWindows_def Let_def split: if_splits)
  have "d dvd q - Truncate boundary d \<and> Truncate boundary d \<le> q \<longleftrightarrow> d dvd q \<and> boundary < q + d" for q
  proof -
    note tr = Truncate_dvd [OF d, of boundary]
    have "d dvd q - Truncate boundary d \<longleftrightarrow> d dvd q"
      using tr by (metis dvd_diff_right_iff dvd_diff_commute)
    moreover have "Truncate boundary d \<le> q \<longleftrightarrow> boundary < q + d" if "d dvd q"
    proof
      assume "boundary < q + d"
      then have "Truncate boundary d < q + d" using Truncate_le [of boundary d] by linarith
      moreover have "d dvd q + d - Truncate boundary d" using that tr by (simp add: dvd_diff dvd_add)
      ultimately show "Truncate boundary d \<le> q" using dvd_range_cases [of d "q + d - Truncate boundary d"] d by auto
    qed (use Truncate_gt [OF d, of boundary] in linarith)
    ultimately show ?thesis by blast
  qed
  then show "set ws = {close_window interval delay q (q + d) | q. d dvd q \<and> boundary < q + d \<and> q \<le> cw_RangeStart latest}"
    unfolding ws set_continuous_windows [OF assms(3) d] by blast
  show "strictly_ascending cw_RangeStart ws" unfolding ws using continuous_windows_ascending [OF d] by blast
qed

subsection \<open>Lemmas on the groups\<close>

text \<open>The window that spans a run of windows.\<close>

definition merge_windows :: "CollectionWindow list \<Rightarrow> CollectionWindow" where
  "merge_windows seg = (hd seg)\<lparr>cw_RangeEnd := cw_RangeEnd (last seg), cw_EligibleAt := cw_EligibleAt (last seg)\<rparr>"

lemma extend_group_spec:
  assumes "extend_group existing maximumBars g k ws = (g', rest)"
    and "g = merge_windows seg" "seg \<noteq> []" "k = int (length seg)"
  shows "\<exists>ext. ws = ext @ rest \<and> g' = merge_windows (seg @ ext) \<and> list_all (\<lambda>w. \<not> window_present existing w) ext
       \<and> int (length (seg @ ext)) \<le> max maximumBars k"
  using assms
proof (induction existing maximumBars g k ws arbitrary: seg rule: extend_group.induct)
  case (2 existing maximumBars g k w ws)
  show ?case
  proof (cases "k < maximumBars \<and> \<not> window_present existing w")
    case True
    have "g\<lparr>cw_RangeEnd := cw_RangeEnd w, cw_EligibleAt := cw_EligibleAt w\<rparr> = merge_windows (seg @ [w])"
      using 2(3,4) by (simp add: merge_windows_def)
    with 2 True obtain ext where "ws = ext @ rest" "g' = merge_windows ((seg @ [w]) @ ext)"
      "list_all (\<lambda>w. \<not> window_present existing w) ext" "int (length ((seg @ [w]) @ ext)) \<le> max maximumBars (k + 1)"
      by (metis (no_types, lifting) extend_group.simps(2) snoc_eq_iff_butlast length_append_singleton of_nat_Suc add.commute)
    with True show ?thesis by (intro exI [of _ "w # ext"]) auto
  next
    case False
    with 2 show ?thesis by (intro exI [of _ "[]"]) auto
  qed
qed (auto simp: merge_windows_def)

lemma merge_windows_single: "merge_windows [w] = w"
  by (simp add: merge_windows_def)

text \<open>
  The groups are the spans of runs of missing candidates, cut from the candidate list in order; a
  missing candidate is left out only when the number of groups is exhausted.
\<close>

lemma window_groups_spec:
  "\<exists>segs post. window_groups existing maximumBars maximumGroups n ws = map merge_windows segs
     \<and> filter (\<lambda>w. \<not> window_present existing w) ws = concat segs @ post
     \<and> (\<forall>seg \<in> set segs. seg \<noteq> [] \<and> int (length seg) \<le> max maximumBars 1 \<and> (\<exists>us vs. ws = us @ seg @ vs))
     \<and> int (length segs) \<le> max 0 (maximumGroups - n)
     \<and> (post = [] \<or> int (length segs) \<ge> maximumGroups - n)"
proof (induction existing maximumBars maximumGroups n ws rule: window_groups.induct)
  case (1 existing maximumBars maximumGroups n)
  then show ?case by (auto intro!: exI [of _ "[]"])
next
  case (2 existing maximumBars maximumGroups n w ws)
  consider (full) "\<not> n < maximumGroups" | (present) "n < maximumGroups" "window_present existing w"
    | (missing) "n < maximumGroups" "\<not> window_present existing w" by blast
  then show ?case
  proof cases
    case full
    then show ?thesis
      by (intro exI [of _ "[]"] exI [of _ "filter (\<lambda>w. \<not> window_present existing w) (w # ws)"]) simp
  next
    case present
    with 2(1) obtain segs post where ih: "window_groups existing maximumBars maximumGroups n ws = map merge_windows segs"
      "filter (\<lambda>w. \<not> window_present existing w) ws = concat segs @ post"
      "\<forall>seg \<in> set segs. seg \<noteq> [] \<and> int (length seg) \<le> max maximumBars 1 \<and> (\<exists>us vs. ws = us @ seg @ vs)"
      "int (length segs) \<le> max 0 (maximumGroups - n)" "post = [] \<or> int (length segs) \<ge> maximumGroups - n" by blast
    have "\<exists>us vs. w # ws = us @ seg @ vs" if "seg \<in> set segs" for seg
      using ih(3) that by (metis append_Cons)
    with ih present show ?thesis by (intro exI [of _ segs] exI [of _ post]) auto
  next
    case missing
    obtain grp rest where e: "extend_group existing maximumBars w 1 ws = (grp, rest)" by fastforce
    from extend_group_spec [OF e, of "[w]"] obtain ext where ext: "ws = ext @ rest" "grp = merge_windows (w # ext)"
      "list_all (\<lambda>w. \<not> window_present existing w) ext" "int (length (w # ext)) \<le> max maximumBars 1"
      by (auto simp: merge_windows_single)
    from 2(2) [OF _ missing(2) e [symmetric]] missing obtain segs post where
      ih: "window_groups existing maximumBars maximumGroups (n + 1) rest = map merge_windows segs"
      "filter (\<lambda>w. \<not> window_present existing w) rest = concat segs @ post"
      "\<forall>seg \<in> set segs. seg \<noteq> [] \<and> int (length seg) \<le> max maximumBars 1 \<and> (\<exists>us vs. rest = us @ seg @ vs)"
      "int (length segs) \<le> max 0 (maximumGroups - (n + 1))" "post = [] \<or> int (length segs) \<ge> maximumGroups - (n + 1)"
      by auto
    have runs: "\<exists>us vs. w # ws = us @ seg @ vs" if "seg \<in> set segs" for seg
      using ih(3) that ext(1) by (metis append_Cons append_assoc)
    have "filter (\<lambda>w. \<not> window_present existing w) ext = ext"
      using ext(3) by (simp add: list_all_iff filter_id_conv)
    moreover have "\<exists>us vs. w # ws = us @ (w # ext) @ vs" using ext(1) by (metis append_Cons append_Nil)
    ultimately show ?thesis
      using ih missing e ext runs
      by (intro exI [of _ "(w # ext) # segs"] exI [of _ post]) auto
  qed
qed

text \<open>The presence test compares 64-bit nanosecond counts; on times less than 584 years apart it is exact.\<close>

lemma window_present_iff:
  assumes "\<forall>t \<in> set existing. \<bar>cw_RangeStart w - t\<bar> < 2 ^ 64"
  shows "window_present existing w \<longleftrightarrow> cw_RangeStart w \<in> set existing"
  using assms UnixNano_eq_iff_near by (force simp: window_present_def present_opens_def)

subsection \<open>Properties\<close>

declare continuous_windows.simps [code]

text \<open>
  C16. Without a limit, the expected windows on the continuous axis are exactly the aligned bars that
  close after the boundary and open no later than the newest due bar, each once and in order.
\<close>

theorem expected_continuous_windows_exact:
  assumes "expectedContinuousWindows interval boundary latest delay 0 = Inr ws" "durationForInterval interval = Inr d"
  shows "set ws = {w. \<exists>q. w = \<lparr>cw_Interval = interval, cw_Trigger = WindowTriggerClose, cw_RangeStart = q,
            cw_RangeEnd = q + d, cw_EligibleAt = q + d + delay\<rparr>
          \<and> d dvd q \<and> boundary < q + d \<and> q \<le> cw_RangeStart latest}
     \<and> sorted_wrt (\<lambda>u v. cw_RangeStart u < cw_RangeStart v) ws"
  using expectedContinuousWindows_correct [OF assms]
  by (auto simp: close_window_def strictly_ascending_def)

theorem expected_continuous_windows_exact_witness:
  "\<exists>ws. expectedContinuousWindows BarInterval1Hour (10 * Hour + 1) \<lparr>cw_Interval = BarInterval1Hour,
        cw_Trigger = WindowTriggerClose, cw_RangeStart = 12 * Hour, cw_RangeEnd = 13 * Hour, cw_EligibleAt = 13 * Hour\<rparr> 0 0
        = Inr ws \<and> length ws = 3 \<and> map cw_RangeStart ws = [10 * Hour, 11 * Hour, 12 * Hour]
     \<and> sorted_wrt (\<lambda>u v. cw_RangeStart u < cw_RangeStart v) ws"
proof -
  let ?w = "\<lambda>a b. \<lparr>cw_Interval = BarInterval1Hour, cw_Trigger = WindowTriggerClose, cw_RangeStart = a,
        cw_RangeEnd = b, cw_EligibleAt = b\<rparr>"
  have c: "expectedContinuousWindows BarInterval1Hour (10 * Hour + 1) (?w (12 * Hour) (13 * Hour)) 0 0
        = Inr [?w (10 * Hour) (11 * Hour), ?w (11 * Hour) (12 * Hour), ?w (12 * Hour) (13 * Hour)]"
    by code_simp
  have "durationForInterval BarInterval1Hour = Inr Hour" by (simp add: durationForInterval_def)
  from expected_continuous_windows_exact [OF c this] c show ?thesis by simp
qed

text \<open>
  C14. The missing-window groups are the spans of non-empty runs of consecutive missing candidates,
  in order and disjoint, at most \<open>maximumBars\<close> bars each and at most \<open>maximumGroups\<close> of them; every
  missing candidate is in one of the runs unless the number of groups is exhausted.
\<close>

theorem missing_groups_cover:
  "\<exists>segs post.
     missingWindowGroups candidates existing maximumBars maximumGroups = map merge_windows segs
     \<and> filter (\<lambda>w. \<not> window_present existing w) candidates = concat segs @ post
     \<and> (\<forall>seg \<in> set segs. seg \<noteq> [] \<and> int (length seg) \<le> max maximumBars 1 \<and> (\<exists>us vs. candidates = us @ seg @ vs))
     \<and> int (length segs) \<le> max 0 maximumGroups
     \<and> (post = [] \<or> int (length segs) \<ge> maximumGroups)"
  using window_groups_spec [of existing maximumBars maximumGroups 0 candidates]
  unfolding missingWindowGroups_def by simp

theorem missing_groups_cover_witness:
  "\<exists>segs post. missingWindowGroups
      [close_window BarInterval1Hour 0 Hour (2 * Hour), close_window BarInterval1Hour 0 (2 * Hour) (3 * Hour),
       close_window BarInterval1Hour 0 (3 * Hour) (4 * Hour)] [3 * Hour] 500 20 = map merge_windows segs
     \<and> concat segs @ post =
        [close_window BarInterval1Hour 0 Hour (2 * Hour), close_window BarInterval1Hour 0 (2 * Hour) (3 * Hour)]
     \<and> missingWindowGroups
      [close_window BarInterval1Hour 0 Hour (2 * Hour), close_window BarInterval1Hour 0 (2 * Hour) (3 * Hour),
       close_window BarInterval1Hour 0 (3 * Hour) (4 * Hour)] [3 * Hour] 500 20
        = [close_window BarInterval1Hour 0 Hour (3 * Hour)]"
proof -
  let ?c = "[close_window BarInterval1Hour 0 Hour (2 * Hour), close_window BarInterval1Hour 0 (2 * Hour) (3 * Hour),
       close_window BarInterval1Hour 0 (3 * Hour) (4 * Hour)]"
  have f: "filter (\<lambda>w. \<not> window_present [3 * Hour] w) ?c =
        [close_window BarInterval1Hour 0 Hour (2 * Hour), close_window BarInterval1Hour 0 (2 * Hour) (3 * Hour)]"
    by code_simp
  have g: "missingWindowGroups ?c [3 * Hour] 500 20 = [close_window BarInterval1Hour 0 Hour (3 * Hour)]"
    by code_simp
  show ?thesis using missing_groups_cover [of ?c "[3 * Hour]" 500 20] f g by metis
qed

end
