(* ===== verification/USCatchUp.thy ===== *)
theory USCatchUp
  imports CatchUp
begin

text \<open>
  What \<^verbatim>\<open>expectedUSWindows\<close> (scheduler/catchup.go) returns, for any calendar that keeps the contract
  \<open>trading_calendar\<close>: exactly the regular-session bars between the boundary and the newest due bar.
\<close>

lemma add_bars_unlimited:
  assumes "limit \<le> 0"
  shows "add_bars interval boundary latest delay limit ws bars =
    (ws @ map (\<lambda>b. close_window interval delay (ub_open b) (ub_close b))
       (filter (\<lambda>b. boundary < ub_close b \<and> ub_open b \<le> cw_RangeStart latest) bars), False)"
  using assms by (induction interval boundary latest delay limit ws bars rule: add_bars.induct) (auto simp: Let_def)

lemma tiles_opens: "tiles a xs b \<Longrightarrow> strictly_ascending ub_open xs"
proof (induction a xs b rule: tiles.induct)
  case (2 a x xs b)
  then show ?case using tiles_bounds [of "ub_close x" xs b] by fastforce
qed simp

lemma session_bars_opens:
  assumes "barsForUSSession s interval = Inr bars"
  shows "strictly_ascending ub_open bars"
    "interval = BarInterval1Hour \<Longrightarrow> b \<in> set bars \<Longrightarrow> ms_Open s \<le> ub_open b"
    "interval = BarInterval1Hour \<Longrightarrow> b \<in> set bars \<Longrightarrow> ub_open b < ub_close b"
    "interval \<noteq> BarInterval1Hour \<Longrightarrow> b \<in> set bars \<Longrightarrow>
       ub_open b = time_Date UTC_location (md_Year (ms_Date s)) (md_Month (ms_Date s)) (md_Day (ms_Date s)) 0 0 0"
proof -
  from assms have c: "interval = BarInterval1Day \<and> (\<exists>x. bars = [x] \<and>
        ub_open x = time_Date UTC_location (md_Year (ms_Date s)) (md_Month (ms_Date s)) (md_Day (ms_Date s)) 0 0 0)
      \<or> interval = BarInterval1Hour \<and> bars = hour_bars (ms_Open s) (ms_Close s)"
    and oc: "ms_Open s < ms_Close s"
    by (auto simp: barsForUSSession_def checked_Inr_iff MarketSession_Validate_def split: if_splits)
  then have t: "tiles (ms_Open s) (hour_bars (ms_Open s) (ms_Close s)) (ms_Close s)"
    by (simp add: hour_bars_tiles)
  show "strictly_ascending ub_open bars" using c tiles_opens [OF t] by auto
  show "ms_Open s \<le> ub_open b" "ub_open b < ub_close b" if "interval = BarInterval1Hour" "b \<in> set bars"
    using c that tiles_bounds [OF t] by auto
  show "ub_open b = time_Date UTC_location (md_Year (ms_Date s)) (md_Month (ms_Date s)) (md_Day (ms_Date s)) 0 0 0"
    if "interval \<noteq> BarInterval1Hour" "b \<in> set bars"
    using c that by auto
qed

text \<open>The windows of the bars of the sessions between two days, cut to the boundary and the newest bar.\<close>

definition windows_between ::
  "TradingCalendar \<Rightarrow> BarInterval \<Rightarrow> time \<Rightarrow> CollectionWindow \<Rightarrow> duration \<Rightarrow> int \<Rightarrow> int \<Rightarrow> CollectionWindow set" where
  "windows_between cal interval boundary latest delay lo hi =
     {close_window interval delay (ub_open b) (ub_close b) | b s bars. is_session (tc_SessionForDate cal) s
        \<and> barsForUSSession s interval = Inr bars \<and> b \<in> set bars \<and> lo \<le> day_of (ms_Date s) \<and> day_of (ms_Date s) \<le> hi
        \<and> boundary < ub_close b \<and> ub_open b \<le> cw_RangeStart latest}"

lemma windows_between_split:
  assumes "lo < hi"
  shows "windows_between cal interval boundary latest delay lo hi =
     windows_between cal interval boundary latest delay lo lo
     \<union> windows_between cal interval boundary latest delay (lo + 1) hi"
proof (rule set_eqI)
  fix w
  have eq: "lo \<le> x \<and> x \<le> hi \<longleftrightarrow> (lo \<le> x \<and> x \<le> lo) \<or> (lo + 1 \<le> x \<and> x \<le> hi)" for x
    using assms by auto
  show "w \<in> windows_between cal interval boundary latest delay lo hi \<longleftrightarrow>
      w \<in> windows_between cal interval boundary latest delay lo lo
        \<union> windows_between cal interval boundary latest delay (lo + 1) hi"
    unfolding windows_between_def Un_iff mem_Collect_eq using eq by blast
qed

context trading_calendar
begin

lemma bar_order:
  assumes "session s" "session u" "day_of (ms_Date s) < day_of (ms_Date u)"
    and "barsForUSSession s interval = Inr bs" "barsForUSSession u interval = Inr cs" "b \<in> set bs" "c \<in> set cs"
  shows "ub_open b < ub_open c" "ub_close b < ub_close c"
proof -
  note bp = barsForUSSession_props(4) [OF assms(4,6)] and cp = barsForUSSession_props(4) [OF assms(5,7)]
  have so: "ms_Close s < ms_Open u" by (rule session_order [OF assms(1-3)])
  show "ub_close b < ub_close c" using so bp cp by linarith
  show "ub_open b < ub_open c"
  proof (cases "interval = BarInterval1Hour")
    case True
    have "ub_open b < ub_close b" using session_bars_opens(3) [OF assms(4) True assms(6)] .
    moreover have "ms_Open u \<le> ub_open c" using session_bars_opens(2) [OF assms(5) True assms(7)] .
    ultimately show ?thesis using so bp by linarith
  next
    case False
    show ?thesis
      using assms(3) session_bars_opens(4) [OF assms(4) False assms(6)] session_bars_opens(4) [OF assms(5) False assms(7)]
      by (simp add: day_of_def time_Date_UTC Second_def)
  qed
qed

lemma bar_close_mono:
  assumes "is_us_bar cal interval b" "is_us_bar cal interval c" "ub_open b \<le> ub_open c"
  shows "ub_close b \<le> ub_close c"
proof -
  from assms(1,2) obtain s bs u cs where
    s: "session s" "barsForUSSession s interval = Inr bs" "b \<in> set bs" and
    u: "session u" "barsForUSSession u interval = Inr cs" "c \<in> set cs" by (auto simp: is_us_bar_def)
  consider "day_of (ms_Date s) < day_of (ms_Date u)" | "day_of (ms_Date u) < day_of (ms_Date s)"
    | "day_of (ms_Date s) = day_of (ms_Date u)" by linarith
  then show ?thesis
  proof cases
    case 1
    then show ?thesis using bar_order(2) [OF s(1) u(1) 1 s(2) u(2) s(3) u(3)] by simp
  next
    case 2
    then show ?thesis using bar_order(1) [OF u(1) s(1) 2 u(2) s(2) u(3) s(3)] assms(3) by simp
  next
    case 3
    then have "s = u" by (rule session_eq [OF s(1) u(1)])
    then have bs: "bs = cs" using s(2) u(2) by simp
    obtain i j where i: "i < length cs" "b = cs ! i" and j: "j < length cs" "c = cs ! j"
      using s(3) u(3) bs by (auto simp: in_set_conv_nth)
    have "\<not> j < i"
      using session_bars_opens(1) [OF u(2)] i j assms(3) by (fastforce simp: strictly_ascending_def sorted_wrt_iff_nth_less)
    then consider "i = j" | "i < j" by linarith
    then show ?thesis
      using barsForUSSession_props(2) [OF u(2)] i j
      by cases (fastforce simp: strictly_ascending_def sorted_wrt_iff_nth_less intro: less_imp_le)+
  qed
qed

lemma session_windows_day:
  assumes "session_windows cal interval boundary latest delay 0 ws date = Inr (ws', full)"
  shows "\<not> full \<and> (\<exists>W. ws' = ws @ W \<and> strictly_ascending cw_RangeStart W
     \<and> set W = windows_between cal interval boundary latest delay (day_of date) (day_of date))"
proof -
  obtain found where f: "tc_SessionForDate cal date = Inr found"
    using assms by (auto simp: session_windows_def bind_result_Inr_iff)
  have dk: "date_ok date" using supported [OF f] by simp
  show ?thesis
  proof (cases found)
    case None
    have "\<not> session u" if "day_of (ms_Date u) = day_of date" for u
    proof
      assume "session u"
      with that dk day_of_inj have "ms_Date u = date" using is_session_bounds(2) by blast
      with \<open>session u\<close> f None show False by (simp add: is_session_def)
    qed
    then have "windows_between cal interval boundary latest delay (day_of date) (day_of date) = {}"
      by (force simp: windows_between_def)
    with None f assms show ?thesis by (auto simp: session_windows_def)
  next
    case (Some s)
    then have s: "session s" "ms_Date s = date" using session_on_is_session f by auto
    from assms f Some obtain bars where bars: "barsForUSSession s interval = Inr bars"
      by (auto simp: session_windows_def bind_result_Inr_iff)
    let ?P = "\<lambda>b. boundary < ub_close b \<and> ub_open b \<le> cw_RangeStart latest"
    let ?W = "map (\<lambda>b. close_window interval delay (ub_open b) (ub_close b)) (filter ?P bars)"
    have r: "ws' = ws @ ?W" "\<not> full"
      using assms f Some bars by (auto simp: session_windows_def add_bars_unlimited)
    have uniq: "u = s" if "session u" "day_of (ms_Date u) = day_of date" for u
      using session_eq [OF that(1) s(1)] that(2) s(2) by simp
    have "windows_between cal interval boundary latest delay (day_of date) (day_of date) = set ?W"
    proof
      show "windows_between cal interval boundary latest delay (day_of date) (day_of date) \<subseteq> set ?W"
      proof
        fix w assume "w \<in> windows_between cal interval boundary latest delay (day_of date) (day_of date)"
        then obtain b u bs where "session u" "barsForUSSession u interval = Inr bs" "b \<in> set bs"
          "day_of (ms_Date u) = day_of date" "?P b" "w = close_window interval delay (ub_open b) (ub_close b)"
          by (auto simp: windows_between_def)
        with uniq bars show "w \<in> set ?W" by auto
      qed
      show "set ?W \<subseteq> windows_between cal interval boundary latest delay (day_of date) (day_of date)"
        using s bars by (auto simp: windows_between_def)
    qed
    moreover have "strictly_ascending cw_RangeStart ?W"
    proof -
      have "strictly_ascending ub_open (filter ?P bars)"
        using session_bars_opens(1) [OF bars] by (simp add: strictly_ascending_def sorted_wrt_filter)
      then show ?thesis by (simp add: strictly_ascending_def sorted_wrt_map close_window_def)
    qed
    ultimately show ?thesis using r by blast
  qed
qed

lemma windows_between_order:
  assumes "v \<in> windows_between cal interval boundary latest delay lo mid"
    and "w \<in> windows_between cal interval boundary latest delay (mid + 1) hi"
  shows "cw_RangeStart v < cw_RangeStart w"
proof -
  from assms obtain b s bs c u cs where
    "session s" "barsForUSSession s interval = Inr bs" "b \<in> set bs" "day_of (ms_Date s) \<le> mid"
    "session u" "barsForUSSession u interval = Inr cs" "c \<in> set cs" "mid + 1 \<le> day_of (ms_Date u)"
    "cw_RangeStart v = ub_open b" "cw_RangeStart w = ub_open c"
    by (auto simp: windows_between_def close_window_def)
  then show ?thesis using bar_order(1) [of s u interval bs cs b c] by simp
qed

lemma us_windows_loop_windows:
  assumes "us_windows_loop cal loc interval boundary latest delay 0 ws date = Inr res" "date_ok date"
  shows "\<exists>W. res = ws @ W \<and> strictly_ascending cw_RangeStart W \<and> set W =
     windows_between cal interval boundary latest delay (day_of date) (max (day_of date) (local_day loc (cw_RangeEnd latest)))"
  using assms
proof (induction "nat (local_day loc (cw_RangeEnd latest) - day_of date)" arbitrary: ws date rule: less_induct)
  case less
  let ?L = "local_day loc (cw_RangeEnd latest)"
  let ?B = "windows_between cal interval boundary latest delay"
  obtain ws' full where sw: "session_windows cal interval boundary latest delay 0 ws date = Inr (ws', full)"
    using less.prems(1) by (subst (asm) us_windows_loop.simps) (auto split: sum.splits)
  from session_windows_day [OF sw] obtain W where W: "\<not> full" "ws' = ws @ W" "strictly_ascending cw_RangeStart W"
    "set W = ?B (day_of date) (day_of date)" by blast
  show ?case
  proof (cases "sessionDateBefore date (cw_RangeEnd latest) loc")
    case False
    with less.prems(1) sw W have "res = ws @ W" by (subst (asm) us_windows_loop.simps) simp
    moreover have "max (day_of date) ?L = day_of date"
      using False sessionDateBefore_iff [OF less.prems(2)] by simp
    ultimately show ?thesis using W by auto
  next
    case True
    then have lt: "day_of date < ?L" using sessionDateBefore_iff [OF less.prems(2)] by simp
    obtain date' where d: "next_date date = Inr date'"
      and rest: "us_windows_loop cal loc interval boundary latest delay 0 ws' date' = Inr res"
      using less.prems(1) sw W(1) True by (subst (asm) us_windows_loop.simps) (auto split: sum.splits)
    have d': "day_of date' = day_of date + 1" "date_ok date'" using next_date_eq [OF d] by simp_all
    from less.hyps [OF _ rest d'(2)] lt d'(1) obtain V where V: "res = ws' @ V" "strictly_ascending cw_RangeStart V"
      "set V = ?B (day_of date + 1) (max (day_of date + 1) ?L)" by auto
    have "?B (day_of date) (max (day_of date) ?L) = ?B (day_of date) (day_of date) \<union> ?B (day_of date + 1) (max (day_of date + 1) ?L)"
      using lt windows_between_split [of "day_of date" ?L] by (simp add: max_def)
    moreover have "strictly_ascending cw_RangeStart (W @ V)"
      using W(3,4) V(2,3) windows_between_order by (auto simp: strictly_ascending_append)
    ultimately show ?thesis using W V by (intro exI [of _ "W @ V"]) simp
  qed
qed

lemma expectedUSWindows_correct:
  assumes "expectedUSWindows (Some cal) interval boundary latest delay 0 = Inr ws"
    and latest: "is_us_bar cal interval b0" "cw_RangeStart latest = ub_open b0" "cw_RangeEnd latest = ub_close b0"
  shows "strictly_ascending cw_RangeStart ws"
    "set ws = {close_window interval delay (ub_open b) (ub_close b) | b. is_us_bar cal interval b
       \<and> boundary < ub_close b \<and> ub_open b \<le> ub_open b0}" (is "_ = ?S")
proof -
  obtain date where date: "DateInLocation boundary (Some loc) = Inr date"
    and l: "us_windows_loop cal loc interval boundary latest delay 0 [] date = Inr ws"
    using assms(1) by (auto simp: expectedUSWindows_def location bind_result_Inr_iff)
  note dd = DateInLocation_day(1,2) [OF date]
  let ?L = "local_day loc (cw_RangeEnd latest)"
  from us_windows_loop_windows [OF l dd(1)] show "strictly_ascending cw_RangeStart ws" by auto
  from us_windows_loop_windows [OF l dd(1)] have
    s: "set ws = windows_between cal interval boundary latest delay (day_of date) (max (day_of date) ?L)" by auto
  obtain s0 bs0 where s0: "session s0" "barsForUSSession s0 interval = Inr bs0" "b0 \<in> set bs0"
    using latest(1) by (auto simp: is_us_bar_def)
  have L: "?L = day_of (ms_Date s0)"
    using barsForUSSession_props(4) [OF s0(2,3)] is_session_bounds(5,6) [OF s0(1)]
      day_mono [of "ms_Open s0" "cw_RangeEnd latest"] day_mono [of "cw_RangeEnd latest" "ms_Close s0"] latest(3) by auto
  have days: "day_of date \<le> day_of (ms_Date u) \<and> day_of (ms_Date u) \<le> max (day_of date) ?L"
    if "session u" "barsForUSSession u interval = Inr bs" "b \<in> set bs" "boundary < ub_close b" "ub_open b \<le> ub_open b0"
    for u bs b
  proof -
    have "boundary < ms_Close u" using barsForUSSession_props(4) [OF that(2,3)] that(4) by simp
    then have "day_of date \<le> day_of (ms_Date u)"
      using session_before_day [OF that(1), of boundary] dd(2) by fastforce
    moreover have "day_of (ms_Date u) \<le> ?L"
      using bar_order(1) [OF s0(1) that(1) _ s0(2) that(2) s0(3) that(3)] that(5) L by fastforce
    ultimately show ?thesis by simp
  qed
  show "set ws = ?S"
    unfolding s windows_between_def latest(2) is_us_bar_def using days by blast
qed

end

lemma latest_us_window_bar:
  assumes "trading_calendar cal loc first_day last_day" "durationForInterval interval = Inr d"
    and "CalculateLatestUSWindow (Some cal) interval trigger now delay = Some (Inr (Some w))"
  shows "\<exists>b. is_us_bar cal interval b \<and> cw_Interval w = interval \<and> cw_Trigger w = trigger \<and> cw_RangeStart w = ub_open b
     \<and> cw_RangeEnd w = ub_close b \<and> cw_EligibleAt w = ub_close b + delay \<and> ub_close b + delay \<le> now
     \<and> (\<forall>b'. is_us_bar cal interval b' \<longrightarrow> ub_close b' + delay \<le> now \<longrightarrow> ub_close b' \<le> ub_close b)"
proof -
  obtain due where "newest_due cal interval (now - delay) due"
    "Some w = map_option (\<lambda>b. \<lparr>cw_Interval = interval, cw_Trigger = trigger, cw_RangeStart = ub_open b,
                 cw_RangeEnd = ub_close b, cw_EligibleAt = ub_close b + delay\<rparr>) due"
    using trading_calendar.latest_us_window [OF assms(1,2), of trigger now delay] assms(3) by auto
  then show ?thesis by (cases due) (auto simp: newest_due_def le_diff_eq)
qed


declare us_windows_loop.simps [code]


end
