(* ===== verification/Ports.thy ===== *)
theory Ports
  imports MarketData "HOL-Library.List_Lexorder"
begin

text \<open>
  The provider-independent acquisition boundary: ingestion/ports (requests, normalised quotes and
  bars, their validators and the classified provider error) and the adapter registry
  (providers/registry.go). An adapter is the record of its methods; what the adapters fetch
  is in the theories named after them, and every result passes the validators below before it is used.
\<close>

definition invalidContract :: error where "invalidContract = ErrInvalidData"

subsection \<open>Provider errors (provider_error.go)\<close>

definition provider_error_codes :: "string list" where
  "provider_error_codes = [''rate_limited'', ''network'', ''temporary_unavailable'', ''unauthorized'',
     ''invalid_instrument'', ''unsupported_interval'', ''bad_request'', ''invalid_response'', ''unknown'']"

definition ParseProviderErrorCode :: "string \<Rightarrow> string result" where
  "ParseProviderErrorCode value =
     (if value \<in> set provider_error_codes then Inr value else Inl invalidContract)"

definition Retryable :: "string \<Rightarrow> bool" where
  "Retryable code \<longleftrightarrow> code \<in> set [''rate_limited'', ''network'', ''temporary_unavailable'', ''unknown'']"

text \<open>The fields of a \<^verbatim>\<open>ProviderError\<close>; as an error value they are the arguments of \<open>ErrProvider\<close>.\<close>

record ProviderError =
  pe_ProviderCode :: Code
  pe_Code :: string
  pe_Message :: string
  pe_RetryAfter :: "duration option"
  pe_Cause :: "error option"

definition ProviderError_Validate :: "ProviderError \<Rightarrow> error option" where
  "ProviderError_Validate p = first_error
     [guard (Code_IsZero (pe_ProviderCode p)) invalidContract,
      err_of (ParseProviderErrorCode (pe_Code p)),
      guard (pe_Message p = '''' \<or> TrimSpace (pe_Message p) \<noteq> pe_Message p
             \<or> RuneCountInString (pe_Message p) > 512) invalidContract,
      guard (case pe_RetryAfter p of None \<Rightarrow> False
             | Some d \<Rightarrow> d \<le> 0 \<or> \<not> Retryable (pe_Code p)) invalidContract]"

definition NewProviderError ::
  "Code \<Rightarrow> string \<Rightarrow> string \<Rightarrow> duration option \<Rightarrow> error option \<Rightarrow> ProviderError result" where
  "NewProviderError providerCode code safeMessage retryAfter cause =
     (let p = \<lparr>pe_ProviderCode = providerCode, pe_Code = code, pe_Message = safeMessage,
               pe_RetryAfter = retryAfter, pe_Cause = cause\<rparr>
      in checked (ProviderError_Validate p) (Inr p))"

text \<open>\<^verbatim>\<open>errors.As\<close>: the first provider error met when the error tree is walked from the outside.\<close>

fun errors_As_provider :: "error \<Rightarrow> ProviderError option" where
  "errors_As_provider (ErrProvider p c m r cause) =
     Some \<lparr>pe_ProviderCode = p, pe_Code = c, pe_Message = m, pe_RetryAfter = r, pe_Cause = cause\<rparr>"
| "errors_As_provider (ErrJoin a b) =
     (case errors_As_provider a of Some p \<Rightarrow> Some p | None \<Rightarrow> errors_As_provider b)"
| "errors_As_provider _ = None"

definition AsProviderError :: "error \<Rightarrow> ProviderError option" where
  "AsProviderError err = (case errors_As_provider err of
     None \<Rightarrow> None
   | Some p \<Rightarrow> if ProviderError_Validate p \<noteq> None then None else Some p)"

definition IsRetryableProviderError :: "error \<Rightarrow> bool" where
  "IsRetryableProviderError err = (case AsProviderError err of None \<Rightarrow> False | Some p \<Rightarrow> Retryable (pe_Code p))"

subsection \<open>Capabilities, references and requests (market_data_adapter.go, validation.go)\<close>

record ProviderMarketCapability =
  pmc_ProviderMarket :: string
  pmc_AssetTypes :: "string list"
  pmc_InstrumentTypes :: "string list"
  pmc_SupportsQuote :: bool
  pmc_SupportsBars :: bool
  pmc_Intervals :: "BarInterval list"
  pmc_MaxBatchSize :: int
  pmc_MaxBarsPerRequest :: int

record AdapterCapabilities =
  ac_ProviderCode :: Code
  ac_Markets :: "ProviderMarketCapability list"

record ProviderInstrumentRef =
  ref_ProviderInstrumentID :: ID
  ref_ProviderInstrumentCode :: Code
  ref_InstrumentID :: ID
  ref_AssetID :: ID
  ref_ProviderCode :: Code
  ref_ProviderMarket :: string
  ref_AssetType :: string
  ref_InstrumentType :: string
  ref_ExternalSymbol :: string
  ref_InstrumentCode :: Code
  ref_InstrumentSymbol :: string
  ref_QuoteCurrency :: string
  ref_Metadata :: RawMessage

record ProviderQuote =
  pq_ProviderInstrumentID :: ID
  pq_InstrumentID :: ID
  pq_AssetID :: ID
  pq_ProviderCode :: Code
  pq_LastPrice :: rat
  pq_BidPrice :: "rat option"
  pq_BidSize :: "rat option"
  pq_AskPrice :: "rat option"
  pq_AskSize :: "rat option"
  pq_Open24H :: "rat option"
  pq_High24H :: "rat option"
  pq_Low24H :: "rat option"
  pq_BaseVolume24H :: "rat option"
  pq_QuoteVolume24H :: "rat option"
  pq_MarketTime :: UTCInstant
  pq_ReceivedAt :: UTCInstant
  pq_RawPayload :: RawMessage

record FetchBarsRequest =
  fbr_Instrument :: ProviderInstrumentRef
  fbr_Interval :: BarInterval
  fbr_StartTime :: UTCInstant
  fbr_EndTime :: UTCInstant
  fbr_Limit :: int
  fbr_Cursor :: string

record ProviderBar =
  pb_ProviderInstrumentID :: ID
  pb_InstrumentID :: ID
  pb_AssetID :: ID
  pb_ProviderCode :: Code
  pb_Interval :: BarInterval
  pb_OpenTime :: UTCInstant
  pb_CloseTime :: UTCInstant
  pb_Open :: rat
  pb_High :: rat
  pb_Low :: rat
  pb_Close :: rat
  pb_BaseVolume :: "rat option"
  pb_QuoteVolume :: "rat option"
  pb_TradeCount :: "int option"
  pb_IsClosed :: bool
  pb_ProviderUpdatedAt :: "UTCInstant option"
  pb_ReceivedAt :: UTCInstant
  pb_RawPayload :: RawMessage

record FetchBarsResult =
  fbs_Bars :: "ProviderBar list"
  fbs_NextCursor :: string
  fbs_HasMore :: bool

definition maximumAdapterCursorLength :: int where "maximumAdapterCursorLength = 2048"

definition providerMarketPattern :: "string \<Rightarrow> bool" where
  "providerMarketPattern s \<longleftrightarrow> match_segments [CHR ''.'', CHR ''_'', CHR ''-''] s"

definition validateProviderMarket :: "string \<Rightarrow> error option" where
  "validateProviderMarket value =
     guard (RuneCountInString value > 32 \<or> \<not> providerMarketPattern value) invalidContract"

definition validateAdapterText :: "string \<Rightarrow> int \<Rightarrow> error option" where
  "validateAdapterText value maximum =
     guard (value = '''' \<or> TrimSpace value \<noteq> value \<or> RuneCountInString value > maximum) invalidContract"

text \<open>\<^verbatim>\<open>json.Unmarshal\<close> into a map of raw messages that must not be nil afterwards; empty bytes pass.\<close>

definition validOptionalJSONObject :: "RawMessage \<Rightarrow> bool" where
  "validOptionalJSONObject raw \<longleftrightarrow> raw = RawEmpty \<or> isJSONObject raw"

definition validOptionalJSON :: "RawMessage \<Rightarrow> bool" where
  "validOptionalJSON raw \<longleftrightarrow> raw = RawEmpty \<or> json_Valid raw"

text \<open>The loop shared by the checks of a list of enumeration values: parse each, refuse duplicates.\<close>

fun distinct_loop :: "(string \<Rightarrow> string result) \<Rightarrow> string set \<Rightarrow> string list \<Rightarrow> error option" where
  "distinct_loop parse seen [] = None"
| "distinct_loop parse seen (v # vs) =
     (if parse v \<noteq> Inr v then Some invalidContract
      else if v \<in> seen then Some invalidContract
      else distinct_loop parse (insert v seen) vs)"

definition validateAssetTypes :: "string list \<Rightarrow> error option" where
  "validateAssetTypes vs = (if vs = [] then Some invalidContract else distinct_loop ParseAssetType {} vs)"

definition validateInstrumentTypes :: "string list \<Rightarrow> error option" where
  "validateInstrumentTypes vs = (if vs = [] then Some invalidContract else distinct_loop ParseInstrumentType {} vs)"

definition ProviderMarketCapability_Validate :: "ProviderMarketCapability \<Rightarrow> error option" where
  "ProviderMarketCapability_Validate c = first_error
     [validateProviderMarket (pmc_ProviderMarket c),
      validateAssetTypes (pmc_AssetTypes c),
      validateInstrumentTypes (pmc_InstrumentTypes c),
      guard (\<not> pmc_SupportsQuote c \<and> \<not> pmc_SupportsBars c) invalidContract,
      (if pmc_SupportsQuote c then guard (pmc_MaxBatchSize c \<le> 0) invalidContract
       else guard (pmc_MaxBatchSize c \<noteq> 0) invalidContract),
      (if pmc_SupportsBars c
       then guard (pmc_MaxBarsPerRequest c \<le> 0 \<or> pmc_Intervals c = []) invalidContract
       else guard (pmc_MaxBarsPerRequest c \<noteq> 0 \<or> pmc_Intervals c \<noteq> []) invalidContract),
      distinct_loop ParseBarInterval {} (pmc_Intervals c)]"

fun markets_loop :: "string set \<Rightarrow> ProviderMarketCapability list \<Rightarrow> error option" where
  "markets_loop seen [] = None"
| "markets_loop seen (m # ms) =
     (case ProviderMarketCapability_Validate m of
        Some e \<Rightarrow> Some e
      | None \<Rightarrow> if pmc_ProviderMarket m \<in> seen then Some invalidContract
                else markets_loop (insert (pmc_ProviderMarket m) seen) ms)"

definition AdapterCapabilities_Validate :: "AdapterCapabilities \<Rightarrow> error option" where
  "AdapterCapabilities_Validate c = first_error
     [guard (Code_IsZero (ac_ProviderCode c)) invalidContract,
      guard (ac_Markets c = []) invalidContract,
      markets_loop {} (ac_Markets c)]"

definition ProviderInstrumentRef_Validate :: "ProviderInstrumentRef \<Rightarrow> error option" where
  "ProviderInstrumentRef_Validate r = first_error
     [guard (ID_IsZero (ref_ProviderInstrumentID r) \<or> ID_IsZero (ref_InstrumentID r) \<or> ID_IsZero (ref_AssetID r))
        invalidContract,
      guard (\<not> HasPrefix (ref_ProviderInstrumentCode r) ''provider.'') invalidContract,
      guard (\<not> HasPrefix (ref_InstrumentCode r) ''instrument.'') invalidContract,
      guard (Code_IsZero (ref_ProviderCode r)) invalidContract,
      validateProviderMarket (ref_ProviderMarket r),
      guard (err_of (ParseAssetType (ref_AssetType r)) \<noteq> None) invalidContract,
      guard (err_of (ParseInstrumentType (ref_InstrumentType r)) \<noteq> None) invalidContract,
      validateAdapterText (ref_ExternalSymbol r) 128,
      validateAdapterText (ref_InstrumentSymbol r) 64,
      validateAdapterText (ref_QuoteCurrency r) 16,
      guard (\<not> validOptionalJSONObject (ref_Metadata r)) invalidContract]"

definition ProviderQuote_Validate :: "ProviderQuote \<Rightarrow> error option" where
  "ProviderQuote_Validate q = first_error
     [guard (ID_IsZero (pq_AssetID q) \<or> Code_IsZero (pq_ProviderCode q)) invalidContract,
      err_of (NewQuote \<lparr>q_InstrumentID = pq_InstrumentID q, q_ProviderInstrumentID = pq_ProviderInstrumentID q,
        q_MarketTime = pq_MarketTime q, q_LastPrice = pq_LastPrice q,
        q_BidPrice = pq_BidPrice q, q_BidSize = pq_BidSize q, q_AskPrice = pq_AskPrice q, q_AskSize = pq_AskSize q,
        q_Open24H = pq_Open24H q, q_High24H = pq_High24H q, q_Low24H = pq_Low24H q,
        q_BaseVolume24H = pq_BaseVolume24H q, q_QuoteVolume24H = pq_QuoteVolume24H q,
        q_QualityStatus = ''unchecked'', q_CollectedAt = pq_ReceivedAt q, q_Metadata = emptyJSONObject\<rparr>),
      guard (\<not> validOptionalJSON (pq_RawPayload q)) invalidContract]"

definition ProviderQuote_ValidateFor :: "ProviderQuote \<Rightarrow> ProviderInstrumentRef \<Rightarrow> error option" where
  "ProviderQuote_ValidateFor q r = first_error
     [ProviderInstrumentRef_Validate r,
      ProviderQuote_Validate q,
      guard (pq_ProviderInstrumentID q \<noteq> ref_ProviderInstrumentID r \<or> pq_InstrumentID q \<noteq> ref_InstrumentID r
        \<or> pq_AssetID q \<noteq> ref_AssetID r \<or> pq_ProviderCode q \<noteq> ref_ProviderCode r) invalidContract]"

fun references_loop ::
  "Code \<Rightarrow> (ID \<rightharpoonup> ProviderInstrumentRef) \<Rightarrow> ProviderInstrumentRef list \<Rightarrow> (ID \<rightharpoonup> ProviderInstrumentRef) result" where
  "references_loop code requested [] = Inr requested"
| "references_loop code requested (r # rs) =
     (case ProviderInstrumentRef_Validate r of
        Some e \<Rightarrow> Inl e
      | None \<Rightarrow>
          if ref_ProviderCode r \<noteq> code then Inl invalidContract
          else if requested (ref_ProviderInstrumentID r) \<noteq> None then Inl invalidContract
          else references_loop code (requested(ref_ProviderInstrumentID r \<mapsto> r)) rs)"

fun quotes_loop :: "(ID \<rightharpoonup> ProviderInstrumentRef) \<Rightarrow> ID set \<Rightarrow> ProviderQuote list \<Rightarrow> error option" where
  "quotes_loop requested seen [] = None"
| "quotes_loop requested seen (q # qs) =
     (case requested (pq_ProviderInstrumentID q) of
        None \<Rightarrow> Some invalidContract
      | Some r \<Rightarrow>
          if pq_ProviderInstrumentID q \<in> seen then Some invalidContract
          else (case ProviderQuote_ValidateFor q r of
                  Some e \<Rightarrow> Some e
                | None \<Rightarrow> quotes_loop requested (insert (pq_ProviderInstrumentID q) seen) qs))"

definition ValidateLatestQuoteBatch ::
  "Code \<Rightarrow> ProviderInstrumentRef list \<Rightarrow> ProviderQuote list \<Rightarrow> error option" where
  "ValidateLatestQuoteBatch code references quotes =
     (if Code_IsZero code \<or> references = [] then Some invalidContract
      else case references_loop code Map.empty references of
             Inl e \<Rightarrow> Some e
           | Inr requested \<Rightarrow> quotes_loop requested {} quotes)"

definition FetchBarsRequest_Validate :: "FetchBarsRequest \<Rightarrow> error option" where
  "FetchBarsRequest_Validate r = first_error
     [ProviderInstrumentRef_Validate (fbr_Instrument r),
      guard (err_of (ParseBarInterval (fbr_Interval r)) \<noteq> None) invalidContract,
      guard (IsZero (fbr_StartTime r) \<or> IsZero (fbr_EndTime r) \<or> \<not> fbr_StartTime r < fbr_EndTime r) invalidContract,
      guard (fbr_Limit r \<le> 0) invalidContract,
      guard (int (length (fbr_Cursor r)) > maximumAdapterCursorLength) invalidContract]"

definition ProviderBar_Validate :: "ProviderBar \<Rightarrow> error option" where
  "ProviderBar_Validate b = first_error
     [guard (ID_IsZero (pb_AssetID b) \<or> Code_IsZero (pb_ProviderCode b)) invalidContract,
      err_of (NewBar \<lparr>bar_InstrumentID = pb_InstrumentID b, bar_ProviderInstrumentID = pb_ProviderInstrumentID b,
        bar_Interval = pb_Interval b, bar_OpenTime = pb_OpenTime b, bar_Revision = 0, bar_CloseTime = pb_CloseTime b,
        bar_OpenPrice = pb_Open b, bar_HighPrice = pb_High b, bar_LowPrice = pb_Low b, bar_ClosePrice = pb_Close b,
        bar_BaseVolume = pb_BaseVolume b, bar_QuoteVolume = pb_QuoteVolume b, bar_TradeCount = pb_TradeCount b,
        bar_IsClosed = pb_IsClosed b, bar_IsCurrent = False, bar_QualityStatus = ''unchecked'',
        bar_ProviderUpdatedAt = pb_ProviderUpdatedAt b, bar_CollectedAt = pb_ReceivedAt b, bar_RawHash = '''',
        bar_Metadata = emptyJSONObject\<rparr>),
      guard (\<not> validOptionalJSON (pb_RawPayload b)) invalidContract]"

definition ProviderBar_ValidateFor :: "ProviderBar \<Rightarrow> ProviderInstrumentRef \<Rightarrow> error option" where
  "ProviderBar_ValidateFor b r = first_error
     [ProviderInstrumentRef_Validate r,
      ProviderBar_Validate b,
      guard (pb_ProviderInstrumentID b \<noteq> ref_ProviderInstrumentID r \<or> pb_InstrumentID b \<noteq> ref_InstrumentID r
        \<or> pb_AssetID b \<noteq> ref_AssetID r \<or> pb_ProviderCode b \<noteq> ref_ProviderCode r) invalidContract]"

text \<open>The loop over the bars of a page, with the open time of the bar before.\<close>

fun page_bars_loop :: "FetchBarsRequest \<Rightarrow> time option \<Rightarrow> ProviderBar list \<Rightarrow> error option" where
  "page_bars_loop r previous [] = None"
| "page_bars_loop r previous (b # bs) =
     (case ProviderBar_ValidateFor b (fbr_Instrument r) of
        Some e \<Rightarrow> Some e
      | None \<Rightarrow>
          if pb_Interval b \<noteq> fbr_Interval r \<or> pb_OpenTime b < fbr_StartTime r \<or> \<not> pb_OpenTime b < fbr_EndTime r
          then Some invalidContract
          else if (case previous of None \<Rightarrow> False | Some t \<Rightarrow> \<not> pb_OpenTime b > t) then Some invalidContract
          else page_bars_loop r (Some (pb_OpenTime b)) bs)"

definition FetchBarsResult_Validate :: "FetchBarsResult \<Rightarrow> FetchBarsRequest \<Rightarrow> error option" where
  "FetchBarsResult_Validate res r = first_error
     [FetchBarsRequest_Validate r,
      guard (int (length (fbs_Bars res)) > fbr_Limit r) invalidContract,
      (if fbs_HasMore res then first_error
         [guard (fbs_NextCursor res = '''' \<or> fbs_NextCursor res = fbr_Cursor r \<or> fbs_Bars res = []) invalidContract,
          guard (int (length (fbs_NextCursor res)) > maximumAdapterCursorLength) invalidContract]
       else guard (fbs_NextCursor res \<noteq> '''') invalidContract),
      page_bars_loop r None (fbs_Bars res)]"

subsection \<open>The adapter registry (providers/registry.go)\<close>

text \<open>
  An adapter's identity and capabilities, read once when the registry is built. \<open>ad_key\<close> stands for
  the adapter object itself, which the registry hands out.
\<close>

record MarketDataAdapter =
  ad_key :: nat
  ad_ProviderCode :: Code
  ad_Capabilities :: "AdapterCapabilities result"

record registryEntry =
  re_adapter :: MarketDataAdapter
  re_capabilities :: AdapterCapabilities

record Registry =
  reg_entries :: "Code \<rightharpoonup> registryEntry"
  reg_ordered :: "MarketDataAdapter list"

text \<open>The registration loop; a nil adapter is \<open>None\<close>.\<close>

fun register_loop :: "Registry \<Rightarrow> MarketDataAdapter option list \<Rightarrow> Registry result" where
  "register_loop reg [] = Inr reg"
| "register_loop reg (None # rest) = Inl ErrInvalidData"
| "register_loop reg (Some a # rest) =
     (let code = ad_ProviderCode a in
      if Code_IsZero code then Inl ErrInvalidData
      else if reg_entries reg code \<noteq> None then Inl ErrConflict
      else bind_result (ad_Capabilities a) (\<lambda>caps.
        if ac_ProviderCode caps \<noteq> code then Inl ErrInvalidData
        else (case AdapterCapabilities_Validate caps of
                Some e \<Rightarrow> Inl e
              | None \<Rightarrow> register_loop
                  (reg\<lparr>reg_entries := (reg_entries reg)(code \<mapsto> \<lparr>re_adapter = a, re_capabilities = caps\<rparr>),
                       reg_ordered := reg_ordered reg @ [a]\<rparr>) rest)))"

text \<open>\<^verbatim>\<open>sort.Slice\<close> by the bytes of the code; the codes are distinct, so the order is determined.\<close>

definition code_key :: "MarketDataAdapter \<Rightarrow> nat list" where
  "code_key a = map byte (ad_ProviderCode a)"

definition NewRegistry :: "MarketDataAdapter option list \<Rightarrow> Registry result" where
  "NewRegistry adapters =
     bind_result (register_loop \<lparr>reg_entries = Map.empty, reg_ordered = []\<rparr> adapters) (\<lambda>reg.
       Inr (reg\<lparr>reg_ordered := sort_key code_key (reg_ordered reg)\<rparr>))"

definition Registry_Get :: "Registry \<Rightarrow> Code \<Rightarrow> MarketDataAdapter option" where
  "Registry_Get reg code = map_option re_adapter (reg_entries reg code)"

definition Registry_List :: "Registry \<Rightarrow> MarketDataAdapter list" where
  "Registry_List reg = reg_ordered reg"

definition Registry_Capabilities :: "Registry \<Rightarrow> Code \<Rightarrow> AdapterCapabilities option" where
  "Registry_Capabilities reg code = map_option re_capabilities (reg_entries reg code)"

definition Registry_entry :: "Registry \<Rightarrow> Code \<Rightarrow> registryEntry result" where
  "Registry_entry reg code =
     (if Code_IsZero code then Inl ErrAdapterNotRegistered
      else case reg_entries reg code of None \<Rightarrow> Inl ErrAdapterNotRegistered | Some entry \<Rightarrow> Inr entry)"

definition matchingCapability :: "AdapterCapabilities \<Rightarrow> ProviderInstrumentRef \<Rightarrow> ProviderMarketCapability option" where
  "matchingCapability caps r = find (\<lambda>c. pmc_ProviderMarket c = ref_ProviderMarket r
     \<and> ref_AssetType r \<in> set (pmc_AssetTypes c) \<and> ref_InstrumentType r \<in> set (pmc_InstrumentTypes c)) (ac_Markets caps)"

definition Registry_ValidateBarsRequest :: "Registry \<Rightarrow> FetchBarsRequest \<Rightarrow> error option" where
  "Registry_ValidateBarsRequest reg r =
     (case FetchBarsRequest_Validate r of Some e \<Rightarrow> Some e | None \<Rightarrow>
     (case Registry_entry reg (ref_ProviderCode (fbr_Instrument r)) of Inl e \<Rightarrow> Some e | Inr entry \<Rightarrow>
     (case matchingCapability (re_capabilities entry) (fbr_Instrument r) of
        None \<Rightarrow> Some ErrCapabilityUnsupported
      | Some c \<Rightarrow>
          if \<not> pmc_SupportsBars c \<or> fbr_Interval r \<notin> set (pmc_Intervals c) then Some ErrCapabilityUnsupported
          else if fbr_Limit r > pmc_MaxBarsPerRequest c then Some ErrProviderLimitExceeded
          else None)))"

text \<open>The loop over the references, with the number seen per market and the sources seen.\<close>

fun quote_request_loop ::
  "AdapterCapabilities \<Rightarrow> Code \<Rightarrow> (string \<Rightarrow> int) \<Rightarrow> ID set \<Rightarrow> ProviderInstrumentRef list \<Rightarrow> error option" where
  "quote_request_loop caps code counts seen [] = None"
| "quote_request_loop caps code counts seen (r # rs) =
     (case ProviderInstrumentRef_Validate r of Some e \<Rightarrow> Some e | None \<Rightarrow>
        if ref_ProviderCode r \<noteq> code then Some ErrInvalidData
        else if ref_ProviderInstrumentID r \<in> seen then Some ErrInvalidData
        else (case matchingCapability caps r of
                None \<Rightarrow> Some ErrCapabilityUnsupported
              | Some c \<Rightarrow>
                  if \<not> pmc_SupportsQuote c then Some ErrCapabilityUnsupported
                  else let counts' = counts(ref_ProviderMarket r := counts (ref_ProviderMarket r) + 1) in
                    if counts' (ref_ProviderMarket r) > pmc_MaxBatchSize c then Some ErrProviderLimitExceeded
                    else quote_request_loop caps code counts' (insert (ref_ProviderInstrumentID r) seen) rs))"

definition Registry_ValidateLatestQuoteRequest :: "Registry \<Rightarrow> Code \<Rightarrow> ProviderInstrumentRef list \<Rightarrow> error option" where
  "Registry_ValidateLatestQuoteRequest reg code references =
     (case Registry_entry reg code of Inl e \<Rightarrow> Some e | Inr entry \<Rightarrow>
        if references = [] then Some ErrInvalidData
        else quote_request_loop (re_capabilities entry) code (\<lambda>_. 0) {} references)"

subsection \<open>Lemmas\<close>

lemma distinct_loop_None_iff:
  "distinct_loop parse seen vs = None \<longleftrightarrow> distinct vs \<and> set vs \<inter> seen = {} \<and> (\<forall>v \<in> set vs. parse v = Inr v)"
  by (induction parse seen vs rule: distinct_loop.induct) auto

lemma only_invalid_loops [only_invalids]:
  "only_invalid (distinct_loop parse seen vs)"
  by (induction parse seen vs rule: distinct_loop.induct) (auto simp: only_invalid_def invalidContract_def)

lemma page_bars_loop_None_iff:
  "page_bars_loop r previous bs = None \<longleftrightarrow>
     (\<forall>b \<in> set bs. ProviderBar_ValidateFor b (fbr_Instrument r) = None \<and> pb_Interval b = fbr_Interval r
        \<and> fbr_StartTime r \<le> pb_OpenTime b \<and> pb_OpenTime b < fbr_EndTime r)
     \<and> strictly_ascending pb_OpenTime bs \<and> (\<forall>t. previous = Some t \<longrightarrow> (\<forall>b \<in> set bs. t < pb_OpenTime b))"
proof (induction r previous bs rule: page_bars_loop.induct)
  case (2 r previous b bs)
  show ?case
    using 2 by (auto split: option.splits)
qed simp

lemma FetchBarsResult_valid [go_valid]:
  assumes "FetchBarsResult_Validate res r = None"
  shows "strictly_ascending pb_OpenTime (fbs_Bars res)" "int (length (fbs_Bars res)) \<le> fbr_Limit r"
    "\<And>b. b \<in> set (fbs_Bars res) \<Longrightarrow> ProviderBar_ValidateFor b (fbr_Instrument r) = None \<and> pb_Interval b = fbr_Interval r
        \<and> fbr_StartTime r \<le> pb_OpenTime b \<and> pb_OpenTime b < fbr_EndTime r"
    "fbs_HasMore res \<Longrightarrow> fbs_Bars res \<noteq> [] \<and> fbs_NextCursor res \<noteq> fbr_Cursor r"
    "\<not> fbs_HasMore res \<Longrightarrow> fbs_NextCursor res = ''''"
  using assms by (auto simp: FetchBarsResult_Validate_def page_bars_loop_None_iff split: if_splits)

end
