(* ===== verification/Ingestion.thy ===== *)
theory Ingestion
  imports Ports "HOL-Library.Multiset"
begin

text \<open>
  The ingestion use cases: ingestion/contracts.go, retry.go, run.go, service.go, quality.go. The
  durable store is reached through an interface (\<open>Store\<close>): a record of operations over a state
  of any type, so that other workers' changes between two calls are covered by the choice of the
  operations; the theory Repository gives the operations of the PostgreSQL implementation.
  Clock readings, context errors and the adapter's answers come from the record \<open>env\<close>.
\<close>

subsection \<open>Contracts (contracts.go)\<close>

record TaskClaim =
  claim_Task :: IngestionTask

record ExecutionContext =
  ec_Subscription :: CollectionSubscription
  ec_Asset :: Asset
  ec_Instrument :: Instrument
  ec_Provider :: Provider
  ec_ProviderInstrument :: ProviderInstrument

definition ExecutionContext_Validate :: "platform \<Rightarrow> ExecutionContext \<Rightarrow> error option" where
  "ExecutionContext_Validate pf e = first_error
     [guard (ID_IsZero (sub_ID (ec_Subscription e))
        \<or> sub_ProviderInstrumentID (ec_Subscription e) \<noteq> pi_ID (ec_ProviderInstrument e)
        \<or> \<not> sub_Enabled (ec_Subscription e)) ErrInvalidState,
      ValidateAssetInstrument pf (ec_Asset e) (ec_Instrument e),
      ValidateProviderMapping pf (ec_Provider e) (ec_Instrument e) (ec_ProviderInstrument e),
      guard (asset_Status (ec_Asset e) \<noteq> ''active'' \<or> inst_Status (ec_Instrument e) \<noteq> ''active''
        \<or> prov_Status (ec_Provider e) = ''disabled'' \<or> \<not> pi_Enabled (ec_ProviderInstrument e)) ErrInvalidState,
      guard (err_of (ParseBarInterval (sub_Interval (ec_Subscription e))) \<noteq> None
        \<or> \<not> cap_Historical (pi_Capabilities (ec_ProviderInstrument e))
        \<or> sub_Interval (ec_Subscription e) \<notin> set (cap_Intervals (pi_Capabilities (ec_ProviderInstrument e))))
        ErrInvalidState]"

definition ExecutionContext_Reference :: "platform \<Rightarrow> ExecutionContext \<Rightarrow> ProviderInstrumentRef result" where
  "ExecutionContext_Reference pf e =
     checked (ExecutionContext_Validate pf e)
     (let r = \<lparr>ref_ProviderInstrumentID = pi_ID (ec_ProviderInstrument e),
        ref_ProviderInstrumentCode = pi_Code (ec_ProviderInstrument e),
        ref_InstrumentID = inst_ID (ec_Instrument e),
        ref_AssetID = asset_ID (ec_Asset e),
        ref_ProviderCode = prov_Code (ec_Provider e),
        ref_ProviderMarket = pi_ProviderMarket (ec_ProviderInstrument e),
        ref_AssetType = asset_AssetType (ec_Asset e),
        ref_InstrumentType = inst_InstrumentType (ec_Instrument e),
        ref_ExternalSymbol = pi_ExternalSymbol (ec_ProviderInstrument e),
        ref_InstrumentCode = inst_Code (ec_Instrument e),
        ref_InstrumentSymbol = inst_Symbol (ec_Instrument e),
        ref_QuoteCurrency = inst_QuoteCurrency (ec_Instrument e),
        ref_Metadata = pi_Metadata (ec_ProviderInstrument e)\<rparr>
      in checked (ProviderInstrumentRef_Validate r) (Inr r))"

record QualityResult =
  qr_Bars :: "Bar list"
  qr_Issues :: "DataQualityIssue list"

record SuccessCommit =
  sc_Claim :: TaskClaim
  sc_Bars :: "Bar list"
  sc_Issues :: "DataQualityIssue list"
  sc_Checkpoint :: IngestionCheckpoint
  sc_FinishedAt :: time

record FailureCommit =
  fc_Claim :: TaskClaim
  fc_Status :: string
  fc_NextAttemptAt :: "time option"
  fc_ErrorCode :: string
  fc_ErrorMessage :: string
  fc_ErrorDetails :: RawMessage
  fc_FinishedAt :: time

record RunTaskSnapshot =
  rs_RunID :: ID
  rs_PendingCount :: int
  rs_RunningCount :: int
  rs_RetryWaitCount :: int
  rs_SuccessCount :: int
  rs_FailedCount :: int
  rs_CanceledCount :: int
  rs_EarliestStartedAt :: "time option"
  rs_LatestFinishedAt :: "time option"

definition TaskCount :: "RunTaskSnapshot \<Rightarrow> int" where
  "TaskCount s = rs_PendingCount s + rs_RunningCount s + rs_RetryWaitCount s
     + rs_SuccessCount s + rs_FailedCount s + rs_CanceledCount s"

record RunSummary =
  sum_RunID :: ID
  sum_Status :: string
  sum_TaskCount :: int
  sum_PendingCount :: int
  sum_RunningCount :: int
  sum_RetryWaitCount :: int
  sum_SuccessCount :: int
  sum_FailedCount :: int
  sum_CanceledCount :: int
  sum_EarliestStartedAt :: "time option"
  sum_LatestFinishedAt :: "time option"

text \<open>The interface \<^verbatim>\<open>Store\<close>: each operation returns its error or result and the state it leaves.\<close>

record 's Store =
  LoadRunTaskSnapshot :: "ID \<Rightarrow> 's \<Rightarrow> RunTaskSnapshot result \<times> 's"
  SaveRunSummary :: "RunSummary \<Rightarrow> 's \<Rightarrow> error option \<times> 's"
  LoadExecutionContext :: "ID \<Rightarrow> 's \<Rightarrow> ExecutionContext result \<times> 's"
  CommitSuccess :: "SuccessCommit \<Rightarrow> 's \<Rightarrow> error option \<times> 's"
  CommitFailure :: "FailureCommit \<Rightarrow> 's \<Rightarrow> error option \<times> 's"

subsection \<open>Run aggregation (run.go)\<close>

definition maximumRunRefreshAttempts :: nat where "maximumRunRefreshAttempts = 3"

definition validateRunTaskSnapshot :: "RunTaskSnapshot \<Rightarrow> error option" where
  "validateRunTaskSnapshot s =
     guard (ID_IsZero (rs_RunID s) \<or> rs_PendingCount s < 0 \<or> rs_RunningCount s < 0 \<or> rs_RetryWaitCount s < 0
       \<or> rs_SuccessCount s < 0 \<or> rs_FailedCount s < 0 \<or> rs_CanceledCount s < 0 \<or> TaskCount s = 0) ErrInvalidData"

definition SummarizeRun :: "RunTaskSnapshot \<Rightarrow> RunSummary result" where
  "SummarizeRun s =
     checked (validateRunTaskSnapshot s)
     (let total_count = TaskCount s;
          status =
            (if rs_PendingCount s = total_count then st_pending
             else if rs_PendingCount s + rs_RunningCount s + rs_RetryWaitCount s > 0 then st_running
             else if rs_SuccessCount s = total_count then st_success
             else if rs_FailedCount s = total_count then st_failed
             else if rs_CanceledCount s = total_count then st_canceled
             else st_partial);
          finishedAt = (if status = st_pending \<or> status = st_running then None else rs_LatestFinishedAt s)
      in Inr \<lparr>sum_RunID = rs_RunID s, sum_Status = status, sum_TaskCount = total_count,
           sum_PendingCount = rs_PendingCount s, sum_RunningCount = rs_RunningCount s,
           sum_RetryWaitCount = rs_RetryWaitCount s, sum_SuccessCount = rs_SuccessCount s,
           sum_FailedCount = rs_FailedCount s, sum_CanceledCount = rs_CanceledCount s,
           sum_EarliestStartedAt = rs_EarliestStartedAt s, sum_LatestFinishedAt = finishedAt\<rparr>)"

text \<open>The retry loop of \<^verbatim>\<open>Refresh\<close>, with the number of attempts left.\<close>

fun refresh_loop :: "'s Store \<Rightarrow> ID \<Rightarrow> nat \<Rightarrow> 's \<Rightarrow> RunSummary result \<times> 's" where
  "refresh_loop store runID 0 s = (Inl ErrConflict, s)"
| "refresh_loop store runID (Suc n) s =
     (case LoadRunTaskSnapshot store runID s of
        (Inl e, s1) \<Rightarrow> (Inl e, s1)
      | (Inr snapshot, s1) \<Rightarrow>
          if rs_RunID snapshot \<noteq> runID then (Inl ErrInvalidData, s1)
          else (case SummarizeRun snapshot of
                  Inl e \<Rightarrow> (Inl e, s1)
                | Inr summary \<Rightarrow>
                    (case SaveRunSummary store summary s1 of
                       (None, s2) \<Rightarrow> (Inr summary, s2)
                     | (Some e, s2) \<Rightarrow>
                         if \<not> errors_Is e ErrConflict then (Inl e, s2)
                         else refresh_loop store runID n s2)))"

definition Refresh :: "'s Store \<Rightarrow> ID \<Rightarrow> 's \<Rightarrow> RunSummary result \<times> 's" where
  "Refresh store runID s =
     (if ID_IsZero runID then (Inl ErrInvalidData, s)
      else refresh_loop store runID maximumRunRefreshAttempts s)"

subsection \<open>Retry policy (retry.go)\<close>

definition defaultRetryBackoffs :: "duration list" where
  "defaultRetryBackoffs = [Minute, 5 * Minute, 15 * Minute, 30 * Minute, Hour]"

record Config =
  cfg_BarsPerPage :: int
  cfg_MaximumPages :: int
  cfg_RetryBackoffs :: "duration list"
  cfg_MaximumRetryDelay :: duration

record failureClassification =
  fcl_code :: string
  fcl_message :: string
  fcl_details :: RawMessage
  fcl_retryable :: bool
  fcl_retryAfter :: "duration option"

definition classified :: "string \<Rightarrow> string \<Rightarrow> bool \<Rightarrow> failureClassification" where
  "classified code message retryable =
     \<lparr>fcl_code = code, fcl_message = message, fcl_details = emptyJSONObject,
      fcl_retryable = retryable, fcl_retryAfter = None\<rparr>"

definition classifyFailure :: "error \<Rightarrow> failureClassification" where
  "classifyFailure err =
     (case AsProviderError err of
        Some p \<Rightarrow> \<lparr>fcl_code = pe_Code p, fcl_message = pe_Message p,
          fcl_details = RawValue (JObject [(''provider_code'', JString (pe_ProviderCode p))]),
          fcl_retryable = Retryable (pe_Code p), fcl_retryAfter = pe_RetryAfter p\<rparr>
      | None \<Rightarrow>
          if errors_Is err ErrDatabaseUnavailable
          then classified ''database_unavailable'' ''database temporarily unavailable'' True
          else if errors_Is err ErrRetryable
          then classified ''temporary_failure'' ''service temporarily unavailable'' True
          else if errors_Is err ErrAdapterNotRegistered
          then classified ''adapter_not_registered'' ''provider adapter is not registered'' False
          else if errors_Is err ErrProviderLimitExceeded
          then classified ''provider_limit_exceeded'' ''provider pagination limit was exceeded'' False
          else if errors_Is err ErrNotFound
          then classified ''configuration_not_found'' ''ingestion configuration was not found'' False
          else if errors_Is err ErrInvalidData \<or> errors_Is err ErrInvalidState
            \<or> errors_Is err ErrReferenceViolation \<or> errors_Is err ErrConflict
          then classified ''configuration_invalid'' ''ingestion configuration or data contract is invalid'' False
          else classified ''internal_error'' ''ingestion task failed'' False)"

text \<open>The slice index of the source, clamped to the slice, which is not empty after \<open>validateRetryConfig\<close>.\<close>

definition retryBackoff :: "Config \<Rightarrow> int \<Rightarrow> duration" where
  "retryBackoff cfg attemptCount =
     (let index0 = attemptCount - 1;
          index1 = (if index0 < 0 then 0 else index0);
          index2 = (if index1 \<ge> int (length (cfg_RetryBackoffs cfg)) then int (length (cfg_RetryBackoffs cfg)) - 1 else index1)
      in min (cfg_RetryBackoffs cfg ! nat index2) (cfg_MaximumRetryDelay cfg))"

definition failureCommit :: "Config \<Rightarrow> TaskClaim \<Rightarrow> error \<Rightarrow> time \<Rightarrow> FailureCommit" where
  "failureCommit cfg claim failure finishedAt =
     (let c = classifyFailure failure;
          commit = \<lparr>fc_Claim = claim, fc_Status = st_failed, fc_NextAttemptAt = None, fc_ErrorCode = fcl_code c,
             fc_ErrorMessage = fcl_message c, fc_ErrorDetails = fcl_details c, fc_FinishedAt = finishedAt\<rparr>
      in if \<not> fcl_retryable c \<or> task_AttemptCount (claim_Task claim) \<ge> task_MaxAttempts (claim_Task claim)
         then commit
         else let delay = (case fcl_retryAfter c of
                     None \<Rightarrow> retryBackoff cfg (task_AttemptCount (claim_Task claim))
                   | Some d \<Rightarrow> min d (cfg_MaximumRetryDelay cfg))
              in commit\<lparr>fc_Status := st_retry_wait, fc_NextAttemptAt := Some (finishedAt + delay)\<rparr>)"

text \<open>The loop of \<^verbatim>\<open>validateRetryConfig\<close>, with the delay before.\<close>

fun backoffs_loop :: "duration \<Rightarrow> duration list \<Rightarrow> error option" where
  "backoffs_loop previous [] = None"
| "backoffs_loop previous (delay # delays) =
     (if delay \<le> 0 \<or> delay < previous
      then Some (ErrPlain ''ingestion retry backoffs must be positive and non-decreasing'')
      else backoffs_loop delay delays)"

definition validateRetryConfig :: "Config \<Rightarrow> error option" where
  "validateRetryConfig cfg = first_error
     [guard (cfg_MaximumRetryDelay cfg \<le> 0 \<or> cfg_RetryBackoffs cfg = [])
        (ErrPlain ''ingestion retry backoffs and maximum delay must be positive''),
      backoffs_loop 0 (cfg_RetryBackoffs cfg)]"

text \<open>The configuration \<^verbatim>\<open>NewService\<close> installs.\<close>

definition NewService :: "Config \<Rightarrow> Config result" where
  "NewService cfg =
     (if cfg_BarsPerPage cfg \<le> 0 \<or> cfg_MaximumPages cfg \<le> 0
      then Inl (ErrPlain ''ingestion page size and maximum pages must be positive'')
      else let cfg1 = (if cfg_RetryBackoffs cfg = [] then cfg\<lparr>cfg_RetryBackoffs := defaultRetryBackoffs\<rparr> else cfg);
               cfg2 = (if cfg_MaximumRetryDelay cfg1 = 0 then cfg1\<lparr>cfg_MaximumRetryDelay := Hour\<rparr> else cfg1)
           in checked (validateRetryConfig cfg2) (Inr cfg2))"

subsection \<open>Fetching all pages (service.go)\<close>

text \<open>
  What a task execution reads from outside: the clock at its successive readings, the context's
  error before each page, before each bar and at the end, and the adapter's answer for each page.
\<close>

record env =
  env_now :: "nat \<Rightarrow> time"
  env_ctx_page :: "nat \<Rightarrow> error option"
  env_ctx_bar :: "nat \<Rightarrow> error option"
  env_ctx_final :: "error option"
  env_fetch :: "nat \<Rightarrow> FetchBarsRequest \<Rightarrow> FetchBarsResult result"

text \<open>The loop over the bars of a page: the open times seen and the bars collected.\<close>

fun collect_bars :: "time set \<Rightarrow> ProviderBar list \<Rightarrow> ProviderBar list \<Rightarrow> (time set \<times> ProviderBar list) result" where
  "collect_bars seen bars [] = Inr (seen, bars)"
| "collect_bars seen bars (b # bs) =
     (if pb_OpenTime b \<in> seen then Inl ErrInvalidData
      else collect_bars (insert (pb_OpenTime b) seen) (bars @ [b]) bs)"

text \<open>The loop over the pages, with the page number and the number of pages left.\<close>

fun fetch_loop ::
  "Registry \<Rightarrow> env \<Rightarrow> nat \<Rightarrow> nat \<Rightarrow> time set \<Rightarrow> ProviderBar list \<Rightarrow> FetchBarsRequest \<Rightarrow> ProviderBar list result" where
  "fetch_loop reg env page 0 seen bars request = Inl ErrProviderLimitExceeded"
| "fetch_loop reg env page (Suc left) seen bars request =
     (case env_ctx_page env page of Some e \<Rightarrow> Inl e | None \<Rightarrow>
     (case Registry_ValidateBarsRequest reg request of Some e \<Rightarrow> Inl e | None \<Rightarrow>
     (case env_fetch env page request of Inl e \<Rightarrow> Inl e | Inr res \<Rightarrow>
     (case FetchBarsResult_Validate res request of Some e \<Rightarrow> Inl e | None \<Rightarrow>
     (case collect_bars seen bars (fbs_Bars res) of Inl e \<Rightarrow> Inl e | Inr (seen', bars') \<Rightarrow>
        if \<not> fbs_HasMore res then Inr (sort_key pb_OpenTime bars')
        else fetch_loop reg env (page + 1) left seen' bars' (request\<lparr>fbr_Cursor := fbs_NextCursor res\<rparr>))))))"

definition fetchAllBars :: "Config \<Rightarrow> Registry \<Rightarrow> env \<Rightarrow> FetchBarsRequest \<Rightarrow> ProviderBar list result" where
  "fetchAllBars cfg reg env request = fetch_loop reg env 0 (nat (cfg_MaximumPages cfg)) {} [] request"

subsection \<open>Structural quality validation (quality.go)\<close>

definition rawPayloadMetadata :: "RawMessage \<Rightarrow> RawMessage result" where
  "rawPayloadMetadata raw = (case raw of
     RawEmpty \<Rightarrow> Inr emptyJSONObject
   | RawInvalid _ \<Rightarrow> Inl (ErrPlain ''provider payload is invalid JSON'')
   | RawValue v \<Rightarrow> Inr (RawValue (JObject [(''provider_payload'', v)])))"

definition optionalDecimalText :: "platform \<Rightarrow> rat option \<Rightarrow> string" where
  "optionalDecimalText pf v = (case v of None \<Rightarrow> [] | Some x \<Rightarrow> Decimal_String pf x)"

definition int_text :: "int \<Rightarrow> string" where
  "int_text n = (if n < 0 then ''-'' @ decimal (nat (- n)) else decimal (nat n))"

text \<open>The bytes hashed: each field followed by a zero byte.\<close>

definition bar_hash_input :: "platform \<Rightarrow> ProviderBar \<Rightarrow> string" where
  "bar_hash_input pf b = concat (map (\<lambda>field. field @ [CHR 0x00])
     [Format_RFC3339Nano (pb_OpenTime b), Format_RFC3339Nano (pb_CloseTime b),
      Decimal_String pf (pb_Open b), Decimal_String pf (pb_High b), Decimal_String pf (pb_Low b),
      Decimal_String pf (pb_Close b), optionalDecimalText pf (pb_BaseVolume b),
      optionalDecimalText pf (pb_QuoteVolume b),
      (case pb_TradeCount b of None \<Rightarrow> [] | Some n \<Rightarrow> int_text n),
      (if pb_IsClosed b then ''true'' else ''false'')])"

definition normalizedBarHash :: "platform \<Rightarrow> ProviderBar \<Rightarrow> string" where
  "normalizedBarHash pf b = SHA256_hex pf (bar_hash_input pf b)"

definition normalize_bar :: "platform \<Rightarrow> RawMessage \<Rightarrow> ProviderBar \<Rightarrow> Bar" where
  "normalize_bar pf metadata b =
     \<lparr>bar_InstrumentID = pb_InstrumentID b, bar_ProviderInstrumentID = pb_ProviderInstrumentID b,
      bar_Interval = pb_Interval b, bar_OpenTime = pb_OpenTime b, bar_Revision = 0, bar_CloseTime = pb_CloseTime b,
      bar_OpenPrice = pb_Open b, bar_HighPrice = pb_High b, bar_LowPrice = pb_Low b, bar_ClosePrice = pb_Close b,
      bar_BaseVolume = pb_BaseVolume b, bar_QuoteVolume = pb_QuoteVolume b, bar_TradeCount = pb_TradeCount b,
      bar_IsClosed = pb_IsClosed b, bar_IsCurrent = False,
      bar_QualityStatus = (if pb_IsClosed b then ''valid'' else ''warning''),
      bar_ProviderUpdatedAt = pb_ProviderUpdatedAt b, bar_CollectedAt = pb_ReceivedAt b,
      bar_RawHash = normalizedBarHash pf b, bar_Metadata = metadata\<rparr>"

text \<open>The loop over the provider bars, with the index of the bar.\<close>

fun validate_bars_loop ::
  "platform \<Rightarrow> (nat \<Rightarrow> error option) \<Rightarrow> ProviderInstrumentRef \<Rightarrow> nat \<Rightarrow> ProviderBar list \<Rightarrow> Bar list result" where
  "validate_bars_loop pf ctx_err r i [] = Inr []"
| "validate_bars_loop pf ctx_err r i (b # bs) =
     (case ctx_err i of Some e \<Rightarrow> Inl e | None \<Rightarrow>
     (case ProviderBar_ValidateFor b r of Some e \<Rightarrow> Inl e | None \<Rightarrow>
        bind_result (rawPayloadMetadata (pb_RawPayload b)) (\<lambda>metadata.
        bind_result (NewBar (normalize_bar pf metadata b)) (\<lambda>bar.
        bind_result (validate_bars_loop pf ctx_err r (i + 1) bs) (\<lambda>bars. Inr (bar # bars))))))"

definition ValidateBars ::
  "platform \<Rightarrow> (nat \<Rightarrow> error option) \<Rightarrow> ExecutionContext \<Rightarrow> ProviderBar list \<Rightarrow> QualityResult result" where
  "ValidateBars pf ctx_err e bars =
     bind_result (ExecutionContext_Reference pf e) (\<lambda>r.
     bind_result (validate_bars_loop pf ctx_err r 0 bars) (\<lambda>bs.
       Inr \<lparr>qr_Bars = bs, qr_Issues = []\<rparr>))"

subsection \<open>Executing a claim (service.go)\<close>

definition validateExecutableClaim :: "TaskClaim \<Rightarrow> time \<Rightarrow> error option" where
  "validateExecutableClaim claim now =
     (let task = claim_Task claim in first_error
       [guard (ID_IsZero (task_ID task) \<or> ID_IsZero (task_RunID task) \<or> ID_IsZero (task_SubscriptionID task)
          \<or> task_Status task \<noteq> st_running \<or> task_AttemptCount task \<le> 0 \<or> task_MaxAttempts task \<le> 0
          \<or> \<not> task_RangeEnd task > task_RangeStart task
          \<or> task_LockedBy task = None \<or> task_LockedBy task = Some [] \<or> task_LockedUntil task = None) ErrInvalidData,
        guard (case task_LockedUntil task of None \<Rightarrow> False | Some t \<Rightarrow> \<not> t > now) ErrTaskLeaseLost])"

definition validIssueSeverity :: "string \<Rightarrow> bool" where
  "validIssueSeverity v \<longleftrightarrow> v \<in> set [''info'', ''warning'', ''error'', ''critical'']"

text \<open>The loop over the quality bars: the open times seen and the one before.\<close>

fun quality_bars_loop ::
  "ProviderInstrumentRef \<Rightarrow> BarInterval \<Rightarrow> time \<Rightarrow> time \<Rightarrow> time set \<Rightarrow> time option \<Rightarrow> Bar list \<Rightarrow> error option" where
  "quality_bars_loop r interval start stop seen previous [] = None"
| "quality_bars_loop r interval start stop seen previous (b # bs) =
     (if Bar_Validate b \<noteq> None \<or> bar_InstrumentID b \<noteq> ref_InstrumentID r
         \<or> bar_ProviderInstrumentID b \<noteq> ref_ProviderInstrumentID r \<or> bar_Interval b \<noteq> interval
         \<or> bar_OpenTime b < start \<or> \<not> bar_OpenTime b < stop then Some ErrInvalidData
      else if bar_OpenTime b \<in> seen then Some ErrInvalidData
      else if (case previous of None \<Rightarrow> False | Some t \<Rightarrow> \<not> bar_OpenTime b > t) then Some ErrInvalidData
      else quality_bars_loop r interval start stop (insert (bar_OpenTime b) seen) (Some (bar_OpenTime b)) bs)"

definition quality_issue_check ::
  "ProviderInstrumentRef \<Rightarrow> BarInterval \<Rightarrow> time \<Rightarrow> time \<Rightarrow> DataQualityIssue \<Rightarrow> error option" where
  "quality_issue_check r interval start stop i = first_error
     [guard (ID_IsZero (dq_ID i) \<or> dq_InstrumentID i \<noteq> ref_InstrumentID r
        \<or> dq_ProviderInstrumentID i \<noteq> Some (ref_ProviderInstrumentID r) \<or> dq_RuleCode i = [] \<or> dq_Summary i = []
        \<or> IsZero (dq_DetectedAt i) \<or> IsZero (dq_CreatedAt i) \<or> IsZero (dq_UpdatedAt i)
        \<or> \<not> validIssueSeverity (dq_Severity i)) ErrInvalidData,
      guard (case dq_Interval i of None \<Rightarrow> False | Some v \<Rightarrow> v \<noteq> interval) ErrInvalidData,
      guard (case dq_OpenTime i of None \<Rightarrow> False | Some t \<Rightarrow> t < start \<or> \<not> t < stop) ErrInvalidData,
      guard (dq_Details i \<noteq> RawEmpty \<and> \<not> isJSONObject (dq_Details i)) ErrInvalidData]"

definition validateQualityResult ::
  "QualityResult \<Rightarrow> ProviderInstrumentRef \<Rightarrow> BarInterval \<Rightarrow> time \<Rightarrow> time \<Rightarrow> error option" where
  "validateQualityResult q r interval start stop = first_error
     (quality_bars_loop r interval start stop {} None (qr_Bars q)
      # map (quality_issue_check r interval start stop) (qr_Issues q))"

text \<open>The loop of \<^verbatim>\<open>successfulCheckpoint\<close>: the latest closed open time so far.\<close>

fun latest_closed :: "time option \<Rightarrow> Bar list \<Rightarrow> time option" where
  "latest_closed best [] = best"
| "latest_closed best (b # bs) =
     (if \<not> bar_IsClosed b then latest_closed best bs
      else if best = None \<or> bar_OpenTime b > the best then latest_closed (Some (bar_OpenTime b)) bs
      else latest_closed best bs)"

definition successfulCheckpoint :: "ID \<Rightarrow> Bar list \<Rightarrow> time \<Rightarrow> IngestionCheckpoint" where
  "successfulCheckpoint subscriptionID bars now =
     \<lparr>cp_SubscriptionID = subscriptionID, cp_LastSuccessOpenTime = latest_closed None bars,
      cp_LastClosedOpenTime = latest_closed None bars, cp_LastAttemptAt = Some now,
      cp_LastSuccessAt = Some now, cp_ConsecutiveFailures = 0, cp_UpdatedAt = now\<rparr>"

text \<open>The part of \<^verbatim>\<open>executeClaim\<close> between loading the context and the final transaction.\<close>

definition prepare_commit ::
  "platform \<Rightarrow> Config \<Rightarrow> Registry \<Rightarrow> (ExecutionContext \<Rightarrow> ProviderBar list \<Rightarrow> QualityResult result) \<Rightarrow> env
     \<Rightarrow> TaskClaim \<Rightarrow> ExecutionContext \<Rightarrow> SuccessCommit result" where
  "prepare_commit pf cfg reg quality env claim execution =
     (if sub_ID (ec_Subscription execution) \<noteq> task_SubscriptionID (claim_Task claim) then Inl ErrInvalidData
      else
        bind_result (ExecutionContext_Reference pf execution) (\<lambda>reference.
        bind_result (ParseBarInterval (sub_Interval (ec_Subscription execution))) (\<lambda>interval.
        bind_result (NewUTCInstant (task_RangeStart (claim_Task claim))) (\<lambda>startTime.
        bind_result (NewUTCInstant (task_RangeEnd (claim_Task claim))) (\<lambda>endTime.
        if Registry_Get reg (prov_Code (ec_Provider execution)) = None then Inl ErrAdapterNotRegistered
        else
          bind_result (fetchAllBars cfg reg env \<lparr>fbr_Instrument = reference, fbr_Interval = interval,
            fbr_StartTime = startTime, fbr_EndTime = endTime, fbr_Limit = cfg_BarsPerPage cfg, fbr_Cursor = []\<rparr>)
            (\<lambda>providerBars.
          bind_result (quality execution providerBars) (\<lambda>q.
          checked (validateQualityResult q reference interval startTime endTime)
          (let finishedAt = env_now env 1 in
           checked (validateExecutableClaim claim finishedAt)
             (Inr \<lparr>sc_Claim = claim, sc_Bars = qr_Bars q, sc_Issues = qr_Issues q,
               sc_Checkpoint = successfulCheckpoint (sub_ID (ec_Subscription execution)) (qr_Bars q) finishedAt,
               sc_FinishedAt = finishedAt\<rparr>)))))))))"

definition executeClaim ::
  "platform \<Rightarrow> Config \<Rightarrow> Registry \<Rightarrow> (ExecutionContext \<Rightarrow> ProviderBar list \<Rightarrow> QualityResult result) \<Rightarrow> env
     \<Rightarrow> 's Store \<Rightarrow> TaskClaim \<Rightarrow> 's \<Rightarrow> error option \<times> 's" where
  "executeClaim pf cfg reg quality env store claim s =
     (case LoadExecutionContext store (task_SubscriptionID (claim_Task claim)) s of
        (Inl e, s1) \<Rightarrow> (Some e, s1)
      | (Inr execution, s1) \<Rightarrow>
          (case prepare_commit pf cfg reg quality env claim execution of
             Inl e \<Rightarrow> (Some e, s1)
           | Inr commit \<Rightarrow> CommitSuccess store commit s1))"

definition ExecuteTask ::
  "platform \<Rightarrow> Config \<Rightarrow> Registry \<Rightarrow> (ExecutionContext \<Rightarrow> ProviderBar list \<Rightarrow> QualityResult result) \<Rightarrow> env
     \<Rightarrow> 's Store \<Rightarrow> TaskClaim \<Rightarrow> 's \<Rightarrow> error option \<times> 's" where
  "ExecuteTask pf cfg reg quality env store claim s =
     (case validateExecutableClaim claim (env_now env 0) of
        Some e \<Rightarrow> (Some e, s)
      | None \<Rightarrow>
        (case executeClaim pf cfg reg quality env store claim s of
           (None, s1) \<Rightarrow>
             (case Refresh store (task_RunID (claim_Task claim)) s1 of
                (Inl e, s2) \<Rightarrow> (Some e, s2)
              | (Inr _, s2) \<Rightarrow> (None, s2))
         | (Some err, s1) \<Rightarrow>
             if errors_Is err ErrTaskLeaseLost \<or> env_ctx_final env \<noteq> None then (Some err, s1)
             else if AsProviderError err = None \<and> (errors_Is err ErrContextCanceled \<or> errors_Is err ErrDeadlineExceeded)
             then (Some err, s1)
             else let finishedAt = env_now env 2 in
               (case validateExecutableClaim claim finishedAt of
                  Some leaseErr \<Rightarrow> (Some (ErrJoin err leaseErr), s1)
                | None \<Rightarrow>
                    (case CommitFailure store (failureCommit cfg claim err finishedAt) s1 of
                       (Some e, s2) \<Rightarrow> (Some (ErrJoin err e), s2)
                     | (None, s2) \<Rightarrow>
                         (case Refresh store (task_RunID (claim_Task claim)) s2 of
                            (Inl e, s3) \<Rightarrow> (Some (ErrJoin err e), s3)
                          | (Inr _, s3) \<Rightarrow> (Some err, s3))))))"

subsection \<open>Run aggregation\<close>

lemma validateRunTaskSnapshot_None_iff:
  "validateRunTaskSnapshot s = None \<longleftrightarrow>
     rs_RunID s \<noteq> 0 \<and> 0 \<le> rs_PendingCount s \<and> 0 \<le> rs_RunningCount s \<and> 0 \<le> rs_RetryWaitCount s
     \<and> 0 \<le> rs_SuccessCount s \<and> 0 \<le> rs_FailedCount s \<and> 0 \<le> rs_CanceledCount s \<and> 0 < TaskCount s"
  by (auto simp: validateRunTaskSnapshot_def TaskCount_def ID_IsZero_def)

text \<open>
  The status of a run is determined by its tasks: every valid snapshot gets a summary; it is
  pending when all tasks are pending, running when some task is unfinished but not all are pending,
  success, failed or canceled when all tasks ended that way, and partial when all have ended but
  not all the same way. A finish time is reported only when no task is unfinished.
\<close>
lemma SummarizeRun_status:
  assumes "validateRunTaskSnapshot s = None"
  shows "\<exists>r. SummarizeRun s = Inr r \<and> sum_TaskCount r = TaskCount s
     \<and> (sum_Status r = st_pending \<longleftrightarrow> rs_PendingCount s = TaskCount s)
     \<and> (sum_Status r = st_running \<longleftrightarrow>
          rs_PendingCount s + rs_RunningCount s + rs_RetryWaitCount s > 0 \<and> rs_PendingCount s \<noteq> TaskCount s)
     \<and> (sum_Status r = st_success \<longleftrightarrow> rs_SuccessCount s = TaskCount s)
     \<and> (sum_Status r = st_failed \<longleftrightarrow> rs_FailedCount s = TaskCount s)
     \<and> (sum_Status r = st_canceled \<longleftrightarrow> rs_CanceledCount s = TaskCount s)
     \<and> (sum_Status r = st_partial \<longleftrightarrow>
          rs_SuccessCount s + rs_FailedCount s + rs_CanceledCount s = TaskCount s
          \<and> TaskCount s \<notin> {rs_SuccessCount s, rs_FailedCount s, rs_CanceledCount s})
     \<and> (sum_LatestFinishedAt r =
          (if rs_PendingCount s + rs_RunningCount s + rs_RetryWaitCount s = 0 then rs_LatestFinishedAt s else None))"
proof -
  from assms have "0 \<le> rs_PendingCount s" "0 \<le> rs_RunningCount s" "0 \<le> rs_RetryWaitCount s"
    "0 \<le> rs_SuccessCount s" "0 \<le> rs_FailedCount s" "0 \<le> rs_CanceledCount s" "0 < TaskCount s"
    by (simp_all add: validateRunTaskSnapshot_None_iff)
  then show ?thesis
    by (auto simp: SummarizeRun_def assms Let_def TaskCount_def)
qed

definition sample_snapshot :: RunTaskSnapshot where
  "sample_snapshot = \<lparr>rs_RunID = 7, rs_PendingCount = 0, rs_RunningCount = 0, rs_RetryWaitCount = 0,
     rs_SuccessCount = 2, rs_FailedCount = 1, rs_CanceledCount = 0,
     rs_EarliestStartedAt = Some 10, rs_LatestFinishedAt = Some 20\<rparr>"

lemma SummarizeRun_status_witness:
  "\<exists>r. SummarizeRun sample_snapshot = Inr r \<and> sum_Status r = st_partial \<and> sum_LatestFinishedAt r = Some 20"
proof -
  have "validateRunTaskSnapshot sample_snapshot = None" by code_simp
  from SummarizeRun_status [OF this] show ?thesis
    by (auto simp: sample_snapshot_def TaskCount_def)
qed

lemma SummarizeRun_RunID: "SummarizeRun s = Inr r \<Longrightarrow> sum_RunID r = rs_RunID s"
  by (auto simp: SummarizeRun_def checked_Inr_iff Let_def)

lemma refresh_loop_saved:
  assumes "refresh_loop store runID n s = (Inr summary, s')"
  shows "\<exists>s0 snapshot s1. LoadRunTaskSnapshot store runID s0 = (Inr snapshot, s1) \<and> rs_RunID snapshot = runID
     \<and> SummarizeRun snapshot = Inr summary \<and> SaveRunSummary store summary s1 = (None, s')"
  using assms
proof (induction n arbitrary: s)
  case 0
  then show ?case by simp
next
  case (Suc n)
  obtain r s1 where l: "LoadRunTaskSnapshot store runID s = (r, s1)" by force
  with Suc.prems obtain snapshot where r: "r = Inr snapshot" "rs_RunID snapshot = runID"
    by (cases r) (auto split: if_splits)
  with Suc.prems l obtain sm where sm: "SummarizeRun snapshot = Inr sm"
    by (cases "SummarizeRun snapshot") auto
  obtain e s2 where sv: "SaveRunSummary store sm s1 = (e, s2)" by force
  show ?case
  proof (cases e)
    case None
    with Suc.prems l r sm sv show ?thesis by auto
  next
    case (Some x)
    with Suc.prems l r sm sv show ?thesis using Suc.IH [of s2] by (auto split: if_splits)
  qed
qed

text \<open>
  A refresh that succeeds returns a summary computed from a snapshot of the requested run that
  it loaded, and that summary is the one the store has accepted last, for any store and whatever
  other writers do in between; a refresh never succeeds on a stale summary.
\<close>
lemma Refresh_saved:
  assumes "Refresh store runID s = (Inr summary, s')"
  shows "\<exists>s0 snapshot s1. LoadRunTaskSnapshot store runID s0 = (Inr snapshot, s1) \<and> rs_RunID snapshot = runID
     \<and> SummarizeRun snapshot = Inr summary \<and> SaveRunSummary store summary s1 = (None, s')"
  using assms refresh_loop_saved by (auto simp: Refresh_def split: if_splits)

text \<open>A store whose saves conflict as long as a counter is positive.\<close>

definition counting_store :: "nat Store" where
  "counting_store = \<lparr>LoadRunTaskSnapshot = (\<lambda>runID s. (Inr (sample_snapshot\<lparr>rs_RunID := runID\<rparr>), s)),
     SaveRunSummary = (\<lambda>summary s. if s = 0 then (None, 0) else (Some ErrConflict, s - 1)),
     LoadExecutionContext = (\<lambda>i s. (Inl ErrNotFound, s)),
     CommitSuccess = (\<lambda>c s. (Some ErrTaskLeaseLost, s)), CommitFailure = (\<lambda>c s. (Some ErrTaskLeaseLost, s))\<rparr>"

lemma Refresh_saved_witness:
  "\<exists>summary. fst (Refresh counting_store 9 2) = Inr summary
     \<and> (\<exists>snapshot. rs_RunID snapshot = 9 \<and> SummarizeRun snapshot = Inr summary)"
proof -
  let ?summary = "\<lparr>sum_RunID = 9, sum_Status = st_partial, sum_TaskCount = 3, sum_PendingCount = 0,
    sum_RunningCount = 0, sum_RetryWaitCount = 0, sum_SuccessCount = 2, sum_FailedCount = 1, sum_CanceledCount = 0,
    sum_EarliestStartedAt = Some 10, sum_LatestFinishedAt = Some 20\<rparr>"
  have "Refresh counting_store 9 2 = (Inr ?summary, 0)" by code_simp
  with Refresh_saved [OF this] show ?thesis by auto
qed

subsection \<open>Retry policy\<close>

lemma backoffs_loop_None_iff:
  "backoffs_loop p ds = None \<longleftrightarrow> (\<forall>d \<in> set ds. 0 < d \<and> p \<le> d) \<and> sorted ds"
proof (induction p ds rule: backoffs_loop.induct)
  case (2 previous delay delays)
  then show ?case by (auto intro: order_trans)
qed simp

lemma NewService_valid [go_valid]:
  assumes "NewService cfg = Inr cfg'"
  shows "0 < cfg_BarsPerPage cfg'" "0 < cfg_MaximumPages cfg'" "0 < cfg_MaximumRetryDelay cfg'"
    "cfg_RetryBackoffs cfg' \<noteq> []" "sorted (cfg_RetryBackoffs cfg')" "\<forall>d \<in> set (cfg_RetryBackoffs cfg'). 0 < d"
proof -
  from assms have v: "validateRetryConfig cfg' = None"
    by (auto simp: NewService_def Let_def checked_Inr_iff split: if_splits)
  then show "0 < cfg_MaximumRetryDelay cfg'" "cfg_RetryBackoffs cfg' \<noteq> []" "sorted (cfg_RetryBackoffs cfg')"
    "\<forall>d \<in> set (cfg_RetryBackoffs cfg'). 0 < d"
    by (auto simp: validateRetryConfig_def backoffs_loop_None_iff)
  from assms show "0 < cfg_BarsPerPage cfg'" "0 < cfg_MaximumPages cfg'"
    by (auto simp: NewService_def Let_def checked_Inr_iff split: if_splits)
qed

text \<open>The slice index never leaves the slice: it is the attempt number clamped to it.\<close>

definition backoff_index :: "Config \<Rightarrow> int \<Rightarrow> nat" where
  "backoff_index cfg n = min (nat (n - 1)) (length (cfg_RetryBackoffs cfg) - 1)"

lemma retryBackoff_index:
  assumes "cfg_RetryBackoffs cfg \<noteq> []"
  shows "retryBackoff cfg n = min (cfg_RetryBackoffs cfg ! backoff_index cfg n) (cfg_MaximumRetryDelay cfg)"
    "backoff_index cfg n < length (cfg_RetryBackoffs cfg)"
proof -
  let ?l = "length (cfg_RetryBackoffs cfg)"
  have l: "0 < ?l" using assms by simp
  show "backoff_index cfg n < ?l"
    unfolding backoff_index_def using l by (intro min.strict_coboundedI2) linarith
  have "nat (if (if n - 1 < 0 then 0 else n - 1) \<ge> int ?l then int ?l - 1
             else (if n - 1 < 0 then 0 else n - 1)) = backoff_index cfg n"
    using l by (auto simp: backoff_index_def min_def)
  then show "retryBackoff cfg n = min (cfg_RetryBackoffs cfg ! backoff_index cfg n) (cfg_MaximumRetryDelay cfg)"
    by (simp add: retryBackoff_def Let_def)
qed

text \<open>
  With the configuration the constructor installed, the wait before a retry is positive, at
  most the configured maximum, and does not shrink from one attempt to the next.
\<close>
lemma retryBackoff_bounded_monotone:
  assumes "NewService cfg = Inr cfg'" and "m \<le> n"
  shows "0 < retryBackoff cfg' m \<and> retryBackoff cfg' m \<le> retryBackoff cfg' n
     \<and> retryBackoff cfg' n \<le> cfg_MaximumRetryDelay cfg'"
proof -
  note v = NewService_valid [OF assms(1)]
  let ?b = "cfg_RetryBackoffs cfg'"
  have i: "backoff_index cfg' m \<le> backoff_index cfg' n" using assms(2) by (auto simp: backoff_index_def min_def)
  have "?b ! backoff_index cfg' m \<le> ?b ! backoff_index cfg' n"
    using v(4,5) i retryBackoff_index(2) by (blast intro: sorted_nth_mono)
  moreover have "0 < ?b ! backoff_index cfg' m"
    using v(4,6) retryBackoff_index(2) by (blast intro: nth_mem)
  ultimately show ?thesis using v(3,4) by (simp add: retryBackoff_index(1) min_def)
qed

definition sample_config :: Config where
  "sample_config = \<lparr>cfg_BarsPerPage = 100, cfg_MaximumPages = 20, cfg_RetryBackoffs = [], cfg_MaximumRetryDelay = 0\<rparr>"

definition sample_service :: Config where
  "sample_service = sample_config\<lparr>cfg_RetryBackoffs := defaultRetryBackoffs, cfg_MaximumRetryDelay := Hour\<rparr>"

lemma sample_service_installed: "NewService sample_config = Inr sample_service"
  by code_simp

lemma retryBackoff_bounded_monotone_witness:
  "retryBackoff sample_service 1 = Minute \<and> retryBackoff sample_service 9 = Hour
     \<and> retryBackoff sample_service 1 \<le> retryBackoff sample_service 9"
proof -
  note sample_service_installed
  moreover have "retryBackoff sample_service 1 = Minute" "retryBackoff sample_service 9 = Hour" by code_simp+
  ultimately show ?thesis using retryBackoff_bounded_monotone [of sample_config sample_service 1 9] by simp
qed

lemma AsProviderError_valid [go_valid]:
  assumes "AsProviderError err = Some p"
  shows "ProviderError_Validate p = None" "pe_RetryAfter p = Some d \<Longrightarrow> 0 < d \<and> Retryable (pe_Code p)"
proof -
  from assms show v: "ProviderError_Validate p = None"
    by (auto simp: AsProviderError_def split: option.splits if_splits)
  assume "pe_RetryAfter p = Some d"
  with v show "0 < d \<and> Retryable (pe_Code p)" by (simp add: ProviderError_Validate_def)
qed

lemma classifyFailure_retryAfter:
  "fcl_retryAfter (classifyFailure err) = Some d \<Longrightarrow> 0 < d"
  using AsProviderError_valid(2) [of err]
  by (auto simp: classifyFailure_def classified_def split: option.splits if_splits)

text \<open>
  A failed execution is retried exactly when its error is temporary and the task has attempts
  left; the next attempt is then due strictly later than the failure, by at most the configured
  maximum delay even when the provider asked for more. Otherwise the task ends as failed, with no
  next attempt.
\<close>
lemma failureCommit_retries:
  fixes cfg cfg' claim err now
  defines "c \<equiv> failureCommit cfg' claim err now"
  assumes "NewService cfg = Inr cfg'"
  shows "(if fcl_retryable (classifyFailure err) \<and> task_AttemptCount (claim_Task claim) < task_MaxAttempts (claim_Task claim)
     then fc_Status c = st_retry_wait \<and> (\<exists>t. fc_NextAttemptAt c = Some t \<and> now < t
            \<and> t \<le> now + cfg_MaximumRetryDelay cfg')
     else fc_Status c = st_failed \<and> fc_NextAttemptAt c = None) \<and> fc_Claim c = claim \<and> fc_FinishedAt c = now"
  using retryBackoff_bounded_monotone [OF assms(2) order_refl, of "task_AttemptCount (claim_Task claim)"]
    NewService_valid(3) [OF assms(2)] classifyFailure_retryAfter [of err]
  by (auto simp: c_def failureCommit_def Let_def split: option.splits)

definition sample_task :: IngestionTask where
  "sample_task = \<lparr>task_ID = 31, task_RunID = 9, task_SubscriptionID = 5, task_RetryOfTaskID = None,
     task_RangeStart = 1000 * Hour, task_RangeEnd = 1002 * Hour, task_Status = st_running, task_AttemptCount = 1,
     task_MaxAttempts = 3, task_NextAttemptAt = None, task_LockedBy = Some ''worker-1'',
     task_LockedUntil = Some (1003 * Hour), task_StartedAt = Some (1002 * Hour), task_FinishedAt = None,
     task_ProviderRequestID = None, task_ErrorCode = None, task_ErrorMessage = None,
     task_ErrorDetails = emptyJSONObject, task_CanceledBy = None, task_CancelReason = None,
     task_CreatedAt = 1002 * Hour, task_UpdatedAt = 1002 * Hour\<rparr>"

definition sample_claim :: TaskClaim where
  "sample_claim = \<lparr>claim_Task = sample_task\<rparr>"

lemma failureCommit_retries_witness:
  "fc_Status (failureCommit sample_service sample_claim
      (ErrProvider ''bybit'' ''rate_limited'' ''slow down'' (Some (2 * Hour)) None) (1002 * Hour)) = st_retry_wait
   \<and> fc_Status (failureCommit sample_service sample_claim ErrInvalidState (1002 * Hour)) = st_failed"
proof -
  let ?e = "ErrProvider ''bybit'' ''rate_limited'' ''slow down'' (Some (2 * Hour)) None"
  note n = sample_service_installed
  have "fcl_retryable (classifyFailure ?e)" "\<not> fcl_retryable (classifyFailure ErrInvalidState)" by code_simp+
  moreover have "task_AttemptCount (claim_Task sample_claim) < task_MaxAttempts (claim_Task sample_claim)" by code_simp
  ultimately show ?thesis
    using failureCommit_retries [OF n, of ?e sample_claim "1002 * Hour"]
      failureCommit_retries [OF n, of ErrInvalidState sample_claim "1002 * Hour"] by simp
qed

subsection \<open>Fetching\<close>

text \<open>
  The pages an adapter answered: each is valid for its request, each but the last announces a
  next page, and the next request carries the cursor of the page before.
\<close>

fun page_chain :: "env \<Rightarrow> nat \<Rightarrow> FetchBarsRequest \<Rightarrow> FetchBarsResult list \<Rightarrow> bool" where
  "page_chain env i r [] = False"
| "page_chain env i r (p # ps) =
     (env_fetch env i r = Inr p \<and> FetchBarsResult_Validate p r = None
      \<and> (if fbs_HasMore p then page_chain env (i + 1) (r\<lparr>fbr_Cursor := fbs_NextCursor p\<rparr>) ps else ps = []))"

definition bar_for :: "FetchBarsRequest \<Rightarrow> ProviderBar \<Rightarrow> bool" where
  "bar_for r b \<longleftrightarrow> ProviderBar_ValidateFor b (fbr_Instrument r) = None \<and> pb_Interval b = fbr_Interval r
     \<and> fbr_StartTime r \<le> pb_OpenTime b \<and> pb_OpenTime b < fbr_EndTime r"

lemma bar_for_cursor [simp]: "bar_for (r\<lparr>fbr_Cursor := c\<rparr>) b = bar_for r b"
  by (simp add: bar_for_def)

lemma page_chain_bars:
  "page_chain env i r pages \<Longrightarrow> b \<in> set (concat (map fbs_Bars pages)) \<Longrightarrow> bar_for r b"
  by (induction env i r pages rule: page_chain.induct)
    (auto simp: bar_for_def dest: FetchBarsResult_valid(3) split: if_splits)

lemma collect_bars_Inr_iff:
  "collect_bars seen bars bs = Inr (seen', bars') \<longleftrightarrow>
     seen' = seen \<union> pb_OpenTime ` set bs \<and> bars' = bars @ bs
     \<and> distinct (map pb_OpenTime bs) \<and> pb_OpenTime ` set bs \<inter> seen = {}"
  by (induction seen bars bs rule: collect_bars.induct) auto

lemma fetch_loop_pages:
  assumes "fetch_loop reg env page n seen bars r = Inr res"
    and "seen = pb_OpenTime ` set bars" and "distinct (map pb_OpenTime bars)"
  shows "\<exists>pages. page_chain env page r pages \<and> length pages \<le> n
    \<and> res = sort_key pb_OpenTime (bars @ concat (map fbs_Bars pages))
    \<and> distinct (map pb_OpenTime (bars @ concat (map fbs_Bars pages)))"
  using assms
proof (induction n arbitrary: page seen bars r)
  case 0
  then show ?case by simp
next
  case (Suc n)
  from Suc.prems(1) obtain p seen' bars' where
    p: "env_fetch env page r = Inr p" "FetchBarsResult_Validate p r = None"
      "collect_bars seen bars (fbs_Bars p) = Inr (seen', bars')" and
    rest: "(if \<not> fbs_HasMore p then Inr (sort_key pb_OpenTime bars')
        else fetch_loop reg env (page + 1) n seen' bars' (r\<lparr>fbr_Cursor := fbs_NextCursor p\<rparr>)) = Inr res"
    by (auto split: option.splits sum.splits)
  from p(3) have c: "seen' = seen \<union> pb_OpenTime ` set (fbs_Bars p)" "bars' = bars @ fbs_Bars p"
      "distinct (map pb_OpenTime (fbs_Bars p))" "pb_OpenTime ` set (fbs_Bars p) \<inter> seen = {}"
    by (simp_all only: collect_bars_Inr_iff)
  have inv: "seen' = pb_OpenTime ` set bars'" "distinct (map pb_OpenTime bars')"
    using c Suc.prems(2,3) by auto
  show ?case
  proof (cases "fbs_HasMore p")
    case False
    with p c rest inv show ?thesis by (intro exI [of _ "[p]"]) simp
  next
    case True
    with rest have "fetch_loop reg env (page + 1) n seen' bars' (r\<lparr>fbr_Cursor := fbs_NextCursor p\<rparr>) = Inr res" by simp
    from Suc.IH [OF this inv] obtain pages where
      "page_chain env (page + 1) (r\<lparr>fbr_Cursor := fbs_NextCursor p\<rparr>) pages" "length pages \<le> n"
      "res = sort_key pb_OpenTime (bars' @ concat (map fbs_Bars pages))"
      "distinct (map pb_OpenTime (bars' @ concat (map fbs_Bars pages)))" by blast
    with p c True show ?thesis by (intro exI [of _ "p # pages"]) simp
  qed
qed

lemma sort_key_ascending:
  "distinct (map key xs) \<Longrightarrow> strictly_ascending key (sort_key key xs)"
proof -
  assume d: "distinct (map key xs)"
  have s: "sorted (map key (sort_key key xs))" by simp
  have "distinct (map key (sort_key key xs))"
    using d by (simp add: distinct_map)
  with s show ?thesis
    by (auto simp: strictly_ascending_def sorted_wrt_map [symmetric] strict_sorted_iff)
qed

lemma fetchAllBars_exact_aux:
  assumes "fetchAllBars cfg reg env r = Inr bars"
  shows "\<exists>pages. page_chain env 0 r pages \<and> int (length pages) \<le> cfg_MaximumPages cfg
     \<and> mset bars = mset (concat (map fbs_Bars pages)) \<and> strictly_ascending pb_OpenTime bars
     \<and> (\<forall>b \<in> set bars. bar_for r b)"
proof -
  from fetch_loop_pages [OF assms [unfolded fetchAllBars_def]] obtain pages where
    c: "page_chain env 0 r pages" and l: "length pages \<le> nat (cfg_MaximumPages cfg)" and
    b: "bars = sort_key pb_OpenTime (concat (map fbs_Bars pages))"
       "distinct (map pb_OpenTime (concat (map fbs_Bars pages)))" by auto
  have "pages \<noteq> []" using c by auto
  then have "int (length pages) \<le> cfg_MaximumPages cfg" using l by (cases pages) auto
  moreover have "\<forall>b \<in> set bars. bar_for r b" using page_chain_bars [OF c] b(1) by simp
  ultimately show ?thesis using c b sort_key_ascending [OF b(2)] by (metis mset_sort)
qed

text \<open>
  C20. A fetch that succeeds has followed the provider's cursors to the end within the page limit;
  its result is exactly the bars of those pages, in strictly ascending order of open time, and
  each of them is valid for the requested instrument, interval and range. No bar is lost,
  duplicated or taken from outside the task's range.
\<close>
theorem fetchAllBars_exact:
  assumes "fetchAllBars cfg reg env r = Inr bars"
  shows "\<exists>pages. page_chain env 0 r pages \<and> int (length pages) \<le> cfg_MaximumPages cfg
     \<and> mset bars = mset (concat (map fbs_Bars pages)) \<and> strictly_ascending pb_OpenTime bars
     \<and> (\<forall>b \<in> set bars. bar_for r b)"
  using assms by (rule fetchAllBars_exact_aux)

definition sample_ref :: ProviderInstrumentRef where
  "sample_ref = \<lparr>ref_ProviderInstrumentID = 41, ref_ProviderInstrumentCode = ''provider.bybit.btc'',
     ref_InstrumentID = 42, ref_AssetID = 43, ref_ProviderCode = ''bybit'', ref_ProviderMarket = ''spot'',
     ref_AssetType = ''CRYPTO'', ref_InstrumentType = ''SPOT'', ref_ExternalSymbol = ''BTCUSDT'',
     ref_InstrumentCode = ''instrument.btc'', ref_InstrumentSymbol = ''BTC'', ref_QuoteCurrency = ''USD'',
     ref_Metadata = emptyJSONObject\<rparr>"

definition sample_bar :: "time \<Rightarrow> ProviderBar" where
  "sample_bar t = \<lparr>pb_ProviderInstrumentID = 41, pb_InstrumentID = 42, pb_AssetID = 43, pb_ProviderCode = ''bybit'',
     pb_Interval = BarInterval1Hour, pb_OpenTime = t, pb_CloseTime = t + Hour, pb_Open = 10, pb_High = 12, pb_Low = 9,
     pb_Close = 11, pb_BaseVolume = None, pb_QuoteVolume = None, pb_TradeCount = None, pb_IsClosed = True,
     pb_ProviderUpdatedAt = None, pb_ReceivedAt = t + 2 * Hour, pb_RawPayload = RawEmpty\<rparr>"

definition sample_request :: FetchBarsRequest where
  "sample_request = \<lparr>fbr_Instrument = sample_ref, fbr_Interval = BarInterval1Hour, fbr_StartTime = 1000 * Hour,
     fbr_EndTime = 1002 * Hour, fbr_Limit = 100, fbr_Cursor = []\<rparr>"

definition sample_registry :: Registry where
  "sample_registry = (let caps = \<lparr>ac_ProviderCode = ''bybit'', ac_Markets = [\<lparr>pmc_ProviderMarket = ''spot'',
       pmc_AssetTypes = [''CRYPTO''], pmc_InstrumentTypes = [''SPOT''], pmc_SupportsQuote = False, pmc_SupportsBars = True,
       pmc_Intervals = [BarInterval1Hour], pmc_MaxBatchSize = 0, pmc_MaxBarsPerRequest = 200\<rparr>]\<rparr>;
       adapter = \<lparr>ad_key = 0, ad_ProviderCode = ''bybit'', ad_Capabilities = Inr caps\<rparr>
     in \<lparr>reg_entries = (\<lambda>c. if c = ''bybit'' then Some \<lparr>re_adapter = adapter, re_capabilities = caps\<rparr> else None),
         reg_ordered = [adapter]\<rparr>)"

text \<open>An adapter that answers the newest page first.\<close>

definition sample_env :: env where
  "sample_env = \<lparr>env_now = (\<lambda>i. 1002 * Hour), env_ctx_page = (\<lambda>i. None), env_ctx_bar = (\<lambda>i. None), env_ctx_final = None,
     env_fetch = (\<lambda>i r. if fbr_Cursor r = []
        then Inr \<lparr>fbs_Bars = [sample_bar (1001 * Hour)], fbs_NextCursor = ''next'', fbs_HasMore = True\<rparr>
        else Inr \<lparr>fbs_Bars = [sample_bar (1000 * Hour)], fbs_NextCursor = [], fbs_HasMore = False\<rparr>)\<rparr>"

lemma sample_fetch:
  "fetchAllBars sample_service sample_registry sample_env sample_request
     = Inr [sample_bar (1000 * Hour), sample_bar (1001 * Hour)]"
  by code_simp

lemma fetchAllBars_exact_witness:
  "\<exists>bars. fetchAllBars sample_service sample_registry sample_env sample_request = Inr bars \<and> length bars = 2
     \<and> strictly_ascending pb_OpenTime bars"
  using fetchAllBars_exact [OF sample_fetch] sample_fetch by auto

subsection \<open>Quality and checkpoint\<close>

definition quality_bar_ok :: "ProviderInstrumentRef \<Rightarrow> BarInterval \<Rightarrow> time \<Rightarrow> time \<Rightarrow> Bar \<Rightarrow> bool" where
  "quality_bar_ok r interval start stop b \<longleftrightarrow> Bar_Validate b = None \<and> bar_InstrumentID b = ref_InstrumentID r
     \<and> bar_ProviderInstrumentID b = ref_ProviderInstrumentID r \<and> bar_Interval b = interval
     \<and> start \<le> bar_OpenTime b \<and> bar_OpenTime b < stop"

lemma quality_bars_loop_Cons:
  "quality_bars_loop r interval start stop seen previous (b # bs) = None \<longleftrightarrow>
     quality_bar_ok r interval start stop b \<and> bar_OpenTime b \<notin> seen
     \<and> (\<forall>t. previous = Some t \<longrightarrow> t < bar_OpenTime b)
     \<and> quality_bars_loop r interval start stop (insert (bar_OpenTime b) seen) (Some (bar_OpenTime b)) bs = None"
  by (cases previous) (auto simp: quality_bar_ok_def split: if_splits)

lemma quality_bars_loop_None_iff:
  "quality_bars_loop r interval start stop seen previous bs = None \<longleftrightarrow>
     (\<forall>b \<in> set bs. quality_bar_ok r interval start stop b \<and> bar_OpenTime b \<notin> seen)
     \<and> strictly_ascending bar_OpenTime bs \<and> (\<forall>t. previous = Some t \<longrightarrow> (\<forall>b \<in> set bs. t < bar_OpenTime b))"
proof (induction bs arbitrary: seen previous)
  case (Cons b bs)
  show ?case
    unfolding quality_bars_loop_Cons Cons.IH by (cases previous) force+
qed simp

lemma validate_bars_loop_Inr:
  assumes "validate_bars_loop pf ctx r i bs = Inr bars"
  shows "length bars = length bs \<and> (\<forall>k < length bs. \<exists>metadata. rawPayloadMetadata (pb_RawPayload (bs ! k)) = Inr metadata
     \<and> NewBar (normalize_bar pf metadata (bs ! k)) = Inr (bars ! k) \<and> ProviderBar_ValidateFor (bs ! k) r = None)"
  using assms
proof (induction pf ctx r i bs arbitrary: bars rule: validate_bars_loop.induct)
  case (2 pf ctx r i b bs)
  then obtain metadata bar bars' where *: "ProviderBar_ValidateFor b r = None"
      "rawPayloadMetadata (pb_RawPayload b) = Inr metadata"
      "NewBar (normalize_bar pf metadata b) = Inr bar" "validate_bars_loop pf ctx r (i + 1) bs = Inr bars'"
      "bars = bar # bars'" "ctx i = None"
    by (auto simp: bind_result_Inr_iff split: option.splits)
  have "length bars' = length bs \<and> (\<forall>k < length bs. \<exists>metadata. rawPayloadMetadata (pb_RawPayload (bs ! k)) = Inr metadata
     \<and> NewBar (normalize_bar pf metadata (bs ! k)) = Inr (bars' ! k) \<and> ProviderBar_ValidateFor (bs ! k) r = None)"
    using "2.IH" * by blast
  then show ?case using * by (auto simp: less_Suc_eq_0_disj)
qed simp

lemma normalized_bar_fields:
  assumes "NewBar (normalize_bar pf metadata b) = Inr bar"
  shows "Bar_Validate bar = None" "bar_OpenTime bar = pb_OpenTime b" "bar_InstrumentID bar = pb_InstrumentID b"
    "bar_ProviderInstrumentID bar = pb_ProviderInstrumentID b" "bar_Interval bar = pb_Interval b"
    "bar_RawHash bar = normalizedBarHash pf b" "bar_IsClosed bar = pb_IsClosed b"
  using assms by (auto simp: NewBar_Inr_iff normalize_bar_def)

lemma validate_bars_ascending:
  assumes "validate_bars_loop pf ctx r i bs = Inr bars" and "strictly_ascending pb_OpenTime bs"
  shows "strictly_ascending bar_OpenTime bars"
proof -
  note v = validate_bars_loop_Inr [OF assms(1)]
  have "map bar_OpenTime bars = map pb_OpenTime bs"
  proof (rule nth_equalityI)
    fix k assume "k < length (map bar_OpenTime bars)"
    with v obtain metadata where "NewBar (normalize_bar pf metadata (bs ! k)) = Inr (bars ! k)" "k < length bs" by auto
    with v show "map bar_OpenTime bars ! k = map pb_OpenTime bs ! k" by (simp add: normalized_bar_fields(2))
  qed (use v in simp)
  then show ?thesis using assms(2)
    by (metis strictly_ascending_def sorted_wrt_map)
qed

lemma ProviderBar_ValidateFor_source:
  assumes "ProviderBar_ValidateFor b r = None"
  shows "pb_ProviderInstrumentID b = ref_ProviderInstrumentID r" "pb_InstrumentID b = ref_InstrumentID r"
  using assms by (simp_all add: ProviderBar_ValidateFor_def)

text \<open>
  The bars of a complete fetch always pass the structural checks made before the commit: when
  the default validator normalises them, the result it hands over is accepted for the same
  instrument, interval and range, has one bar per fetched bar, keeps their open times and carries
  the content hash of each.
\<close>
lemma ValidateBars_accepted:
  assumes "fetchAllBars cfg reg env r = Inr bars" and "ExecutionContext_Reference pf e = Inr (fbr_Instrument r)"
    and "ValidateBars pf ctx e bars = Inr q"
  shows "validateQualityResult q (fbr_Instrument r) (fbr_Interval r) (fbr_StartTime r) (fbr_EndTime r) = None
     \<and> map bar_OpenTime (qr_Bars q) = map pb_OpenTime bars
     \<and> map bar_RawHash (qr_Bars q) = map (normalizedBarHash pf) bars"
proof -
  from fetchAllBars_exact_aux [OF assms(1)] have b: "strictly_ascending pb_OpenTime bars"
    "\<And>x. x \<in> set bars \<Longrightarrow> bar_for r x" by auto
  from assms(2,3) obtain out where l: "validate_bars_loop pf ctx (fbr_Instrument r) 0 bars = Inr out"
      and q: "q = \<lparr>qr_Bars = out, qr_Issues = []\<rparr>"
    by (auto simp: ValidateBars_def bind_result_Inr_iff)
  note v = validate_bars_loop_Inr [OF l]
  have f: "quality_bar_ok (fbr_Instrument r) (fbr_Interval r) (fbr_StartTime r) (fbr_EndTime r) (out ! k)
      \<and> bar_OpenTime (out ! k) = pb_OpenTime (bars ! k) \<and> bar_RawHash (out ! k) = normalizedBarHash pf (bars ! k)"
    if "k < length bars" for k
  proof -
    from v that obtain metadata where n: "NewBar (normalize_bar pf metadata (bars ! k)) = Inr (out ! k)"
      and p: "ProviderBar_ValidateFor (bars ! k) (fbr_Instrument r) = None" by blast
    have "bar_for r (bars ! k)" using b(2) that by simp
    then show ?thesis
      using normalized_bar_fields [OF n] ProviderBar_ValidateFor_source [OF p]
      by (simp add: quality_bar_ok_def bar_for_def)
  qed
  have "\<forall>x \<in> set out. quality_bar_ok (fbr_Instrument r) (fbr_Interval r) (fbr_StartTime r) (fbr_EndTime r) x"
    using f v by (auto simp: in_set_conv_nth)
  then have "validateQualityResult q (fbr_Instrument r) (fbr_Interval r) (fbr_StartTime r) (fbr_EndTime r) = None"
    using validate_bars_ascending [OF l b(1)] by (simp add: validateQualityResult_def q quality_bars_loop_None_iff)
  moreover have "map bar_OpenTime out = map pb_OpenTime bars" "map bar_RawHash out = map (normalizedBarHash pf) bars"
    using f v by (auto intro: nth_equalityI)
  ultimately show ?thesis by (simp add: q)
qed

lemma Max_insert_two: "finite A \<Longrightarrow> Max (insert a (insert b A)) = Max (insert (max a b) A)"
  by (cases "A = {}") (simp_all add: max.assoc)

lemma latest_closed_max:
  "latest_closed best bs =
     (let ts = {bar_OpenTime b |b. b \<in> set bs \<and> bar_IsClosed b} \<union> set_option best
      in if ts = {} then None else Some (Max ts))"
proof (induction best bs rule: latest_closed.induct)
  case (1 best)
  then show ?case by (cases best) auto
next
  case (2 best b bs)
  let ?ts = "{bar_OpenTime x |x. x \<in> set bs \<and> bar_IsClosed x}"
  have fin: "finite ?ts" by simp
  show ?case
  proof (cases "bar_IsClosed b")
    case False
    then have "{bar_OpenTime x |x. x \<in> set (b # bs) \<and> bar_IsClosed x} = ?ts" by auto
    with False 2 show ?thesis by simp
  next
    case True
    then have e: "{bar_OpenTime x |x. x \<in> set (b # bs) \<and> bar_IsClosed x} = insert (bar_OpenTime b) ?ts" by auto
    show ?thesis
    proof (cases best)
      case None
      with True 2 e show ?thesis by simp
    next
      case (Some t)
      have "insert (bar_OpenTime b) ?ts \<union> {t} = insert t (insert (bar_OpenTime b) ?ts)" by auto
      moreover have "Max (insert t (insert (bar_OpenTime b) ?ts)) = Max (insert (max t (bar_OpenTime b)) ?ts)"
        using fin by (rule Max_insert_two)
      ultimately show ?thesis
        using True 2 e Some by (auto simp: Let_def max_def split: if_splits)
    qed
  qed
qed

text \<open>
  The checkpoint committed with a batch points to the newest closed bar of the batch, and to
  none when no bar of it is closed: an open bar never advances it.
\<close>
lemma successfulCheckpoint_newest_closed:
  "(cp_LastClosedOpenTime (successfulCheckpoint i bs now) = None \<longleftrightarrow> (\<forall>b \<in> set bs. \<not> bar_IsClosed b))
   \<and> (cp_LastClosedOpenTime (successfulCheckpoint i bs now) = Some t \<longleftrightarrow>
        (\<exists>b \<in> set bs. bar_IsClosed b \<and> bar_OpenTime b = t)
        \<and> (\<forall>b \<in> set bs. bar_IsClosed b \<longrightarrow> bar_OpenTime b \<le> t))"
proof -
  let ?ts = "{bar_OpenTime b |b. b \<in> set bs \<and> bar_IsClosed b}"
  have fin: "finite ?ts" by simp
  have e: "cp_LastClosedOpenTime (successfulCheckpoint i bs now) = (if ?ts = {} then None else Some (Max ?ts))"
    by (simp add: successfulCheckpoint_def latest_closed_max Let_def)
  show ?thesis
  proof (cases "?ts = {}")
    case True
    then show ?thesis unfolding e by auto
  next
    case False
    have "Max ?ts = t \<longleftrightarrow> t \<in> ?ts \<and> (\<forall>x \<in> ?ts. x \<le> t)"
      using fin False by (rule Max_eq_iff)
    with False show ?thesis unfolding e by (simp (no_asm_simp)) blast
  qed
qed

definition sample_platform :: platform where
  "sample_platform = \<lparr>LoadLocation_ok = (\<lambda>z. True), UUID_String = (\<lambda>i. decimal (unat i)), UUID_Parse = (\<lambda>t. None),
     UUID_Version = (\<lambda>i. 7), Decimal_String = (\<lambda>d. ''1''), Decimal_Parse = (\<lambda>t. None), SHA256_hex = (\<lambda>t. t)\<rparr>"

definition sample_execution :: ExecutionContext where
  "sample_execution = \<lparr>
     ec_Subscription = \<lparr>sub_ID = 5, sub_ProviderInstrumentID = 41, sub_Interval = BarInterval1Hour, sub_Enabled = True,
       sub_Priority = 0, sub_CloseDelaySeconds = 60, sub_RevisionDelaySeconds = None, sub_Metadata = emptyJSONObject,
       sub_CreatedAt = Hour, sub_UpdatedAt = Hour\<rparr>,
     ec_Asset = \<lparr>asset_ID = 43, asset_Code = ''asset.btc'', asset_AssetType = ''CRYPTO'', asset_CanonicalSymbol = ''BTC'',
       asset_Name = ''Bitcoin'', asset_Status = ''active'', asset_Metadata = emptyJSONObject,
       asset_CreatedAt = Hour, asset_UpdatedAt = Hour\<rparr>,
     ec_Instrument = \<lparr>inst_ID = 42, inst_Code = ''instrument.btc'', inst_AssetID = 43, inst_Venue = ''bybit'',
       inst_InstrumentType = ''SPOT'', inst_Symbol = ''BTC'', inst_QuoteAssetID = None, inst_QuoteCurrency = ''USD'',
       inst_MarketTimezone = ''UTC'', inst_PriceScale = Some 2, inst_QuantityScale = None, inst_LotSize = None,
       inst_MinQuantity = None, inst_Status = ''active'', inst_ValidFrom = None, inst_ValidTo = None,
       inst_Metadata = emptyJSONObject, inst_CreatedAt = Hour, inst_UpdatedAt = Hour\<rparr>,
     ec_Provider = \<lparr>prov_ID = 44, prov_Code = ''bybit'', prov_Name = ''Bybit'', prov_ProviderType = ''EXCHANGE'',
       prov_Status = ''active'', prov_Metadata = emptyJSONObject, prov_CreatedAt = Hour, prov_UpdatedAt = Hour\<rparr>,
     ec_ProviderInstrument = \<lparr>pi_ID = 41, pi_Code = ''provider.bybit.btc'', pi_ProviderID = 44, pi_InstrumentID = 42,
       pi_ExternalSymbol = ''BTCUSDT'', pi_ProviderMarket = ''spot'',
       pi_Capabilities = \<lparr>cap_Quote = True, cap_Historical = True, cap_Intervals = [BarInterval1Hour]\<rparr>,
       pi_Priority = 0, pi_IsDefault = True, pi_Enabled = True, pi_ValidFrom = None, pi_ValidTo = None,
       pi_Metadata = emptyJSONObject, pi_CreatedAt = Hour, pi_UpdatedAt = Hour\<rparr>\<rparr>"

lemma ValidateBars_accepted_witness:
  "\<exists>bars q. ValidateBars sample_platform (\<lambda>i. None) sample_execution bars = Inr q \<and> length bars = 2
     \<and> validateQualityResult q sample_ref BarInterval1Hour (1000 * Hour) (1002 * Hour) = None"
proof -
  let ?bars = "[sample_bar (1000 * Hour), sample_bar (1001 * Hour)]"
  have r: "ExecutionContext_Reference sample_platform sample_execution = Inr (fbr_Instrument sample_request)" by code_simp
  have "case ValidateBars sample_platform (\<lambda>i. None) sample_execution ?bars of Inl _ \<Rightarrow> False | Inr _ \<Rightarrow> True" by code_simp
  then obtain q where q: "ValidateBars sample_platform (\<lambda>i. None) sample_execution ?bars = Inr q"
    by (auto split: sum.splits)
  have "fbr_Instrument sample_request = sample_ref" "fbr_Interval sample_request = BarInterval1Hour"
    "fbr_StartTime sample_request = 1000 * Hour" "fbr_EndTime sample_request = 1002 * Hour"
    by (simp_all add: sample_request_def)
  then show ?thesis
    using ValidateBars_accepted [OF sample_fetch r q] q by (intro exI [of _ ?bars] exI [of _ q]) simp
qed

definition sample_stored_bar :: Bar where
  "sample_stored_bar = normalize_bar sample_platform emptyJSONObject (sample_bar (1000 * Hour))"

lemma successfulCheckpoint_newest_closed_witness:
  "cp_LastClosedOpenTime (successfulCheckpoint 5 [sample_stored_bar, sample_stored_bar\<lparr>bar_OpenTime := 1001 * Hour, bar_IsClosed := False\<rparr>]
     (1002 * Hour)) = Some (1000 * Hour)"
  by (subst conjunct2 [OF successfulCheckpoint_newest_closed])
    (simp add: sample_stored_bar_def normalize_bar_def sample_bar_def)

subsection \<open>Leases\<close>

lemma validateExecutableClaim_None_iff [go_valid]:
  "validateExecutableClaim claim now = None \<longleftrightarrow>
     (let t = claim_Task claim in task_ID t \<noteq> 0 \<and> task_RunID t \<noteq> 0 \<and> task_SubscriptionID t \<noteq> 0
        \<and> task_Status t = st_running \<and> 0 < task_AttemptCount t \<and> 0 < task_MaxAttempts t
        \<and> task_RangeStart t < task_RangeEnd t
        \<and> (\<exists>owner. task_LockedBy t = Some owner \<and> owner \<noteq> [])
        \<and> (\<exists>deadline. task_LockedUntil t = Some deadline \<and> now < deadline))"
  by (auto simp: validateExecutableClaim_def Let_def ID_IsZero_def not_less split: option.splits)

lemma prepare_commit_lease:
  assumes "prepare_commit pf cfg reg quality env claim execution = Inr c"
  shows "sc_Claim c = claim" "sc_FinishedAt c = env_now env 1" "validateExecutableClaim claim (env_now env 1) = None"
    "sub_ID (ec_Subscription execution) = task_SubscriptionID (claim_Task claim)"
  using assms by (auto simp: prepare_commit_def bind_result_Inr_iff checked_Inr_iff Let_def split: if_splits)



end
