(* ===== verification/ManualTasks.thy ===== *)
theory ManualTasks
  imports Ingestion
begin

text \<open>
  The administrator use cases: one backfill of an explicit range (ingestion/backfill.go) and the
  manual retry and cancellation of tasks (ingestion/manual_tasks.go). The stores are records of
  operations over a state; \<open>TaskTables\<close> gives the PostgreSQL ones. \<open>newID\<close> is the sequence of
  the generator's answers, \<open>now\<close> the clock reading.
\<close>

subsection \<open>Backfill (backfill.go)\<close>

definition defaultBackfillMaximumAttempts :: int where "defaultBackfillMaximumAttempts = 5"
definition maximumBackfillAuditTextLength :: int where "maximumBackfillAuditTextLength = 128"
definition maximumBackfillReasonLength :: int where "maximumBackfillReasonLength = 512"

record BackfillInput =
  bi_ProviderCode :: string
  bi_InstrumentCode :: string
  bi_Interval :: string
  bi_StartTime :: time
  bi_EndTime :: time
  bi_Reason :: string
  bi_RequestedBy :: string
  bi_ActorType :: string
  bi_RequestID :: string

record BackfillResult =
  br_RunID :: ID
  br_TaskID :: ID
  br_Status :: string
  br_CreatedAt :: time

record 's BackfillStore =
  ResolveBackfillTarget :: "Code \<Rightarrow> Code \<Rightarrow> BarInterval \<Rightarrow> time \<Rightarrow> 's \<Rightarrow> ExecutionContext result \<times> 's"
  CreateBackfillRunWithTask :: "IngestionRun \<Rightarrow> IngestionTask \<Rightarrow> 's \<Rightarrow> error option \<times> 's"

text \<open>The attempt limit the constructor installs.\<close>

definition NewBackfillService :: "int \<Rightarrow> int result" where
  "NewBackfillService maximumAttempts =
     (let m = (if maximumAttempts = 0 then defaultBackfillMaximumAttempts else maximumAttempts)
      in if m < 1 then Inl (ErrPlain ''backfill maximum attempts must be positive'') else Inr m)"

record parsedBackfillInput =
  pb_providerCode :: Code
  pb_instrumentCode :: Code
  pb_interval :: BarInterval
  pb_startTime :: time
  pb_endTime :: time
  pb_reason :: string
  pb_requestedBy :: string
  pb_actorType :: string
  pb_requestID :: string
  pb_createdAt :: time

definition validBackfillText :: "string \<Rightarrow> int \<Rightarrow> bool" where
  "validBackfillText text maximumLength \<longleftrightarrow>
     \<not> (text = [] \<or> text \<noteq> TrimSpace text \<or> RuneCountInString text > maximumLength) \<and> \<not> has_control text"

definition validBackfillID :: "platform \<Rightarrow> ID \<Rightarrow> bool" where
  "validBackfillID pf i \<longleftrightarrow> \<not> ID_IsZero i \<and> UUID_Version pf i = 7"

definition parseBackfillInput :: "BackfillInput \<Rightarrow> time \<Rightarrow> parsedBackfillInput result" where
  "parseBackfillInput input now =
     (case (ParseCode (bi_ProviderCode input), ParseCode (bi_InstrumentCode input), ParseBarInterval (bi_Interval input),
            NewBoundedTimeRange (bi_StartTime input) (bi_EndTime input)) of
        (Inr providerCode, Inr instrumentCode, Inr interval, Inr rangeValue) \<Rightarrow>
          if IsZero now \<or> \<not> validBackfillText (bi_Reason input) maximumBackfillReasonLength
             \<or> \<not> validBackfillText (bi_RequestedBy input) maximumBackfillAuditTextLength
             \<or> \<not> validBackfillText (bi_RequestID input) maximumBackfillAuditTextLength
             \<or> (bi_ActorType input \<noteq> ''user'' \<and> bi_ActorType input \<noteq> ''service'')
          then Inl ErrInvalidData
          else (let startTime = the (tr_Start rangeValue); endTime = the (tr_End rangeValue) in
            if endTime > now then Inl ErrInvalidData
            else Inr \<lparr>pb_providerCode = providerCode, pb_instrumentCode = instrumentCode, pb_interval = interval,
                   pb_startTime = startTime, pb_endTime = endTime, pb_reason = bi_Reason input,
                   pb_requestedBy = bi_RequestedBy input, pb_actorType = bi_ActorType input,
                   pb_requestID = bi_RequestID input, pb_createdAt = now\<rparr>)
      | _ \<Rightarrow> Inl ErrInvalidData)"

definition validateBackfillTarget :: "platform \<Rightarrow> ExecutionContext \<Rightarrow> parsedBackfillInput \<Rightarrow> error option" where
  "validateBackfillTarget pf target request = first_error
     [ExecutionContext_Validate pf target,
      guard (prov_Code (ec_Provider target) \<noteq> pb_providerCode request
        \<or> inst_Code (ec_Instrument target) \<noteq> pb_instrumentCode request
        \<or> sub_Interval (ec_Subscription target) \<noteq> pb_interval request
        \<or> sub_ProviderInstrumentID (ec_Subscription target) \<noteq> pi_ID (ec_ProviderInstrument target)) ErrInvalidData]"

text \<open>\<^verbatim>\<open>json.Marshal\<close> of a string map writes its keys in order.\<close>

definition backfillContextJSON :: "parsedBackfillInput \<Rightarrow> RawMessage" where
  "backfillContextJSON request = RawValue (JObject
     [(''actor_type'', JString (pb_actorType request)),
      (''instrument_code'', JString (pb_instrumentCode request)),
      (''interval'', JString (pb_interval request)),
      (''provider'', JString (pb_providerCode request)),
      (''range_end'', JString (Format_RFC3339Nano (pb_endTime request))),
      (''range_start'', JString (Format_RFC3339Nano (pb_startTime request))),
      (''reason'', JString (pb_reason request)),
      (''request_id'', JString (pb_requestID request))])"

text \<open>The two identities: both valid and different.\<close>

definition backfill_ids :: "platform \<Rightarrow> (nat \<Rightarrow> ID result) \<Rightarrow> (ID \<times> ID) result" where
  "backfill_ids pf newID =
     bind_result (newID 0) (\<lambda>runID.
     if \<not> validBackfillID pf runID then Inl ErrInvalidData
     else bind_result (newID 1) (\<lambda>taskID.
       if \<not> validBackfillID pf taskID \<or> taskID = runID then Inl ErrInvalidData else Inr (runID, taskID)))"

definition pending_run ::
  "ID \<Rightarrow> string \<Rightarrow> string \<Rightarrow> string \<Rightarrow> time option \<Rightarrow> string option \<Rightarrow> RawMessage \<Rightarrow> time \<Rightarrow> IngestionRun" where
  "pending_run runID key runType trigger scheduledAt requestedBy context createdAt =
     \<lparr>run_ID = runID, run_RunKey = key, run_RunType = runType, run_TriggerType = trigger, run_Status = st_pending,
      run_ScheduledAt = scheduledAt, run_StartedAt = None, run_FinishedAt = None, run_RequestedBy = requestedBy,
      run_TaskCount = 1, run_SuccessCount = 0, run_FailedCount = 0, run_Context = context,
      run_ErrorSummary = emptyJSONObject, run_CreatedAt = createdAt\<rparr>"

definition pending_task ::
  "ID \<Rightarrow> ID \<Rightarrow> ID \<Rightarrow> ID option \<Rightarrow> time \<Rightarrow> time \<Rightarrow> int \<Rightarrow> time \<Rightarrow> IngestionTask" where
  "pending_task taskID runID subscriptionID retryOf rangeStart rangeEnd maxAttempts createdAt =
     \<lparr>task_ID = taskID, task_RunID = runID, task_SubscriptionID = subscriptionID, task_RetryOfTaskID = retryOf,
      task_RangeStart = rangeStart, task_RangeEnd = rangeEnd, task_Status = st_pending, task_AttemptCount = 0,
      task_MaxAttempts = maxAttempts, task_NextAttemptAt = None, task_LockedBy = None, task_LockedUntil = None,
      task_StartedAt = None, task_FinishedAt = None, task_ProviderRequestID = None, task_ErrorCode = None,
      task_ErrorMessage = None, task_ErrorDetails = emptyJSONObject, task_CanceledBy = None, task_CancelReason = None,
      task_CreatedAt = createdAt, task_UpdatedAt = createdAt\<rparr>"

definition backfill_run :: "platform \<Rightarrow> parsedBackfillInput \<Rightarrow> ID \<Rightarrow> IngestionRun" where
  "backfill_run pf request runID =
     pending_run runID (''backfill.manual.'' @ UUID_String pf runID) ''backfill'' ''manual'' None
       (Some (pb_requestedBy request)) (backfillContextJSON request) (pb_createdAt request)"

definition backfill_task :: "parsedBackfillInput \<Rightarrow> ID \<Rightarrow> ID \<Rightarrow> ID \<Rightarrow> int \<Rightarrow> IngestionTask" where
  "backfill_task request runID taskID subscriptionID maximumAttempts =
     pending_task taskID runID subscriptionID None (pb_startTime request) (pb_endTime request) maximumAttempts
       (pb_createdAt request)"

text \<open>\<^verbatim>\<open>BackfillService.Create\<close>.\<close>

definition Backfill_Create ::
  "platform \<Rightarrow> 's BackfillStore \<Rightarrow> time \<Rightarrow> (nat \<Rightarrow> ID result) \<Rightarrow> int \<Rightarrow> BackfillInput \<Rightarrow> 's \<Rightarrow> BackfillResult result \<times> 's" where
  "Backfill_Create pf store now newID maximumAttempts input s =
     (case parseBackfillInput input now of
        Inl e \<Rightarrow> (Inl e, s)
      | Inr request \<Rightarrow>
          (case ResolveBackfillTarget store (pb_providerCode request) (pb_instrumentCode request) (pb_interval request)
                  (pb_createdAt request) s of
             (Inl e, s1) \<Rightarrow> (Inl e, s1)
           | (Inr target, s1) \<Rightarrow>
               (case checked (validateBackfillTarget pf target request) (backfill_ids pf newID) of
                  Inl e \<Rightarrow> (Inl e, s1)
                | Inr (runID, taskID) \<Rightarrow>
                    (case CreateBackfillRunWithTask store (backfill_run pf request runID)
                            (backfill_task request runID taskID (sub_ID (ec_Subscription target)) maximumAttempts) s1 of
                       (Some e, s2) \<Rightarrow> (Inl e, s2)
                     | (None, s2) \<Rightarrow> (Inr \<lparr>br_RunID = runID, br_TaskID = taskID, br_Status = st_pending,
                         br_CreatedAt = pb_createdAt request\<rparr>, s2)))))"

subsection \<open>Manual retry and cancellation (manual_tasks.go)\<close>

definition defaultManualRetryMaximumAttempts :: int where "defaultManualRetryMaximumAttempts = 5"

record TaskOperationAudit =
  ta_RequestedBy :: string
  ta_ActorType :: string
  ta_RequestID :: string
  ta_Reason :: string

record ManualRetryCreation =
  mr_OriginalTaskID :: ID
  mr_RunID :: ID
  mr_TaskID :: ID
  mr_MaximumAttempts :: int
  mr_Audit :: TaskOperationAudit
  mr_CreatedAt :: time
  mr_RunContext :: RawMessage

record TaskCancellationResult =
  tc_TaskID :: ID
  tc_RunID :: ID
  tc_Status :: string
  tc_CanceledAt :: time

record 's ManualTaskStore =
  CreateManualRetry :: "ManualRetryCreation \<Rightarrow> 's \<Rightarrow> error option \<times> 's"
  CancelTaskWithAudit :: "ID \<Rightarrow> TaskOperationAudit \<Rightarrow> time \<Rightarrow> 's \<Rightarrow> ID result \<times> 's"

definition NewManualTaskService :: "int \<Rightarrow> int result" where
  "NewManualTaskService maximumAttempts =
     (let m = (if maximumAttempts = 0 then defaultManualRetryMaximumAttempts else maximumAttempts)
      in if m < 1 then Inl (ErrPlain ''manual retry maximum attempts must be positive'') else Inr m)"

definition validTaskOperationAudit :: "TaskOperationAudit \<Rightarrow> bool" where
  "validTaskOperationAudit audit \<longleftrightarrow>
     validBackfillText (ta_RequestedBy audit) maximumBackfillAuditTextLength
     \<and> validBackfillText (ta_RequestID audit) maximumBackfillAuditTextLength
     \<and> validBackfillText (ta_Reason audit) maximumBackfillReasonLength
     \<and> (ta_ActorType audit = ''user'' \<or> ta_ActorType audit = ''service'')"

definition retry_context :: "platform \<Rightarrow> TaskOperationAudit \<Rightarrow> ID \<Rightarrow> RawMessage" where
  "retry_context pf audit originalTaskID = RawValue (JObject
     [(''actor_type'', JString (ta_ActorType audit)), (''reason'', JString (ta_Reason audit)),
      (''request_id'', JString (ta_RequestID audit)), (''retry_of_task_id'', JString (UUID_String pf originalTaskID))])"

text \<open>\<^verbatim>\<open>ManualTaskService.Retry\<close>; its result has the fields of a backfill result.\<close>

definition Retry ::
  "platform \<Rightarrow> 's ManualTaskStore \<Rightarrow> time \<Rightarrow> (nat \<Rightarrow> ID result) \<Rightarrow> int \<Rightarrow> ID \<Rightarrow> TaskOperationAudit \<Rightarrow> 's \<Rightarrow> BackfillResult result \<times> 's" where
  "Retry pf store createdAt newID maximumAttempts originalTaskID audit s =
     (if ID_IsZero originalTaskID \<or> \<not> validTaskOperationAudit audit \<or> IsZero createdAt then (Inl ErrInvalidData, s)
      else case newID 0 of Inl e \<Rightarrow> (Inl e, s) | Inr runID \<Rightarrow>
        if \<not> validBackfillID pf runID \<or> runID = originalTaskID then (Inl ErrInvalidData, s)
        else case newID 1 of Inl e \<Rightarrow> (Inl e, s) | Inr taskID \<Rightarrow>
          if \<not> validBackfillID pf taskID \<or> taskID = runID \<or> taskID = originalTaskID then (Inl ErrInvalidData, s)
          else case CreateManualRetry store \<lparr>mr_OriginalTaskID = originalTaskID, mr_RunID = runID, mr_TaskID = taskID,
                   mr_MaximumAttempts = maximumAttempts, mr_Audit = audit, mr_CreatedAt = createdAt,
                   mr_RunContext = retry_context pf audit originalTaskID\<rparr> s of
                 (Some e, s1) \<Rightarrow> (Inl e, s1)
               | (None, s1) \<Rightarrow> (Inr \<lparr>br_RunID = runID, br_TaskID = taskID, br_Status = st_pending, br_CreatedAt = createdAt\<rparr>, s1))"

text \<open>\<^verbatim>\<open>ManualTaskService.Cancel\<close>: the outcome of the refresh of the run is dropped.\<close>

definition Cancel ::
  "'s ManualTaskStore \<Rightarrow> (ID \<Rightarrow> 's \<Rightarrow> RunSummary result \<times> 's) \<Rightarrow> time \<Rightarrow> ID \<Rightarrow> TaskOperationAudit \<Rightarrow> 's
     \<Rightarrow> TaskCancellationResult result \<times> 's" where
  "Cancel store refresh canceledAt taskID audit s =
     (if ID_IsZero taskID \<or> \<not> validTaskOperationAudit audit \<or> IsZero canceledAt then (Inl ErrInvalidData, s)
      else case CancelTaskWithAudit store taskID audit canceledAt s of
             (Inl e, s1) \<Rightarrow> (Inl e, s1)
           | (Inr runID, s1) \<Rightarrow>
               (Inr \<lparr>tc_TaskID = taskID, tc_RunID = runID, tc_Status = st_canceled, tc_CanceledAt = canceledAt\<rparr>,
                snd (refresh runID s1)))"

end
