(* ===== verification/Scheduler.thy ===== *)
theory Scheduler
  imports USCatchUp ManualTasks
begin

text \<open>
  The incremental scheduler: scheduler/incremental.go and the store-facing part of
  scheduler/catchup.go. One scan (\<open>RunOnce\<close>) recovers expired leases, pages through the scheduling
  targets, plans the due windows of each and creates one idempotent batch per window. The store is a
  record of operations over a state; \<open>scan\<close> is the state of a scan: the result counted so far, the
  store's state and the number of identities drawn. A scan that never returns has the value \<open>None\<close>.
\<close>

subsection \<open>Targets and batches\<close>

definition defaultSchedulingPageSize :: int where "defaultSchedulingPageSize = 50"
definition maximumSchedulingPageSize :: int where "maximumSchedulingPageSize = 100"
definition defaultSchedulingMaximumAttempts :: int where "defaultSchedulingMaximumAttempts = 5"
definition defaultMaximumCatchUpBars :: int where "defaultMaximumCatchUpBars = 500"
definition maximumCatchUpBars :: int where "maximumCatchUpBars = 10000"
definition defaultMaximumCatchUpRuns :: int where "defaultMaximumCatchUpRuns = 20"
definition maximumCatchUpRuns :: int where "maximumCatchUpRuns = 100"

record SchedulingTarget =
  st_Subscription :: CollectionSubscription
  st_ProviderCode :: Code
  st_ProviderMarket :: string
  st_InstrumentCode :: Code
  st_AssetType :: string
  st_InstrumentType :: string
  st_Capabilities :: ProviderCapabilities

definition schedulingMarket :: "SchedulingTarget \<Rightarrow> string result" where
  "schedulingMarket target =
     (if st_AssetType target = ''CRYPTO'' \<and> st_InstrumentType target = ''SPOT'' then Inr ''continuous''
      else if st_AssetType target = ''FX'' \<and> st_InstrumentType target = ''FX'' then Inr ''continuous''
      else if st_ProviderMarket target = ''us''
        \<and> ((st_AssetType target = ''STOCK'' \<and> st_InstrumentType target = ''EQUITY'')
           \<or> (st_AssetType target = ''ETF'' \<and> st_InstrumentType target = ''ETF'')) then Inr ''us_regular''
      else Inl ErrInvalidState)"

definition SchedulingTarget_Validate :: "SchedulingTarget \<Rightarrow> error option" where
  "SchedulingTarget_Validate target = (let sub = st_Subscription target in first_error
     [guard (ID_IsZero (sub_ID sub) \<or> ID_IsZero (sub_ProviderInstrumentID sub) \<or> \<not> sub_Enabled sub
        \<or> IsZero (sub_CreatedAt sub) \<or> IsZero (sub_UpdatedAt sub) \<or> Code_IsZero (st_ProviderCode target)
        \<or> Code_IsZero (st_InstrumentCode target) \<or> TrimSpace (st_ProviderMarket target) \<noteq> st_ProviderMarket target
        \<or> st_ProviderMarket target = [] \<or> sub_CloseDelaySeconds sub < 0
        \<or> (case sub_RevisionDelaySeconds sub of None \<Rightarrow> False | Some d \<Rightarrow> d < 0)) ErrInvalidData,
      guard (err_of (ParseBarInterval (sub_Interval sub)) \<noteq> None \<or> \<not> cap_Historical (st_Capabilities target)
        \<or> sub_Interval sub \<notin> set (cap_Intervals (st_Capabilities target))) ErrInvalidState,
      err_of (schedulingMarket target)])"

record SchedulingTargetPage =
  stp_Items :: "SchedulingTarget list"
  stp_NextAfterID :: "ID option"

record ScheduledBatch =
  sb_Trigger :: WindowTrigger
  sb_Run :: IngestionRun
  sb_Task :: IngestionTask

definition run_type_of :: "WindowTrigger \<Rightarrow> string" where
  "run_type_of trigger = (if trigger = WindowTriggerRevision then ''revision'' else ''incremental'')"

fun join_dots :: "string list \<Rightarrow> string" where
  "join_dots [] = []"
| "join_dots [x] = x"
| "join_dots (x # y # zs) = x @ ''.'' @ join_dots (y # zs)"

definition StableRunKey :: "platform \<Rightarrow> WindowTrigger \<Rightarrow> ID \<Rightarrow> time \<Rightarrow> time \<Rightarrow> string" where
  "StableRunKey pf trigger subscriptionID start stop = join_dots
     [run_type_of trigger, ''scheduler'', trigger, UUID_String pf subscriptionID,
      Format_compact start, Format_compact stop]"

text \<open>The scheduler's copy of the JSON-object check.\<close>

definition validJSONObject :: "RawMessage \<Rightarrow> bool" where
  "validJSONObject raw \<longleftrightarrow> isJSONObject raw"

definition ScheduledBatch_Validate :: "platform \<Rightarrow> ScheduledBatch \<Rightarrow> error option" where
  "ScheduledBatch_Validate pf batch = (let run = sb_Run batch; task = sb_Task batch; trigger = sb_Trigger batch in first_error
     [guard (trigger \<noteq> WindowTriggerRevision \<and> trigger \<noteq> WindowTriggerClose) ErrInvalidData,
      guard (ID_IsZero (run_ID run) \<or> ID_IsZero (task_ID task) \<or> UUID_Version pf (run_ID run) \<noteq> 7
        \<or> UUID_Version pf (task_ID task) \<noteq> 7 \<or> run_ID run = task_ID task \<or> task_RunID task \<noteq> run_ID run
        \<or> ID_IsZero (task_SubscriptionID task)
        \<or> run_RunKey run \<noteq> StableRunKey pf trigger (task_SubscriptionID task) (task_RangeStart task) (task_RangeEnd task)
        \<or> run_RunType run \<noteq> run_type_of trigger \<or> run_TriggerType run \<noteq> ''scheduler'' \<or> run_Status run \<noteq> st_pending
        \<or> run_ScheduledAt run = None \<or> run_StartedAt run \<noteq> None \<or> run_FinishedAt run \<noteq> None
        \<or> run_RequestedBy run \<noteq> None \<or> run_TaskCount run \<noteq> 1 \<or> run_SuccessCount run \<noteq> 0 \<or> run_FailedCount run \<noteq> 0
        \<or> IsZero (run_CreatedAt run) \<or> the (run_ScheduledAt run) > run_CreatedAt run
        \<or> \<not> validJSONObject (run_Context run) \<or> \<not> validJSONObject (run_ErrorSummary run)) ErrInvalidData,
      guard (task_Status task \<noteq> st_pending \<or> task_AttemptCount task \<noteq> 0 \<or> task_MaxAttempts task < 1
        \<or> \<not> task_RangeEnd task > task_RangeStart task \<or> task_RangeEnd task > the (run_ScheduledAt run)
        \<or> task_RetryOfTaskID task \<noteq> None \<or> task_NextAttemptAt task \<noteq> None \<or> task_LockedBy task \<noteq> None
        \<or> task_LockedUntil task \<noteq> None \<or> task_StartedAt task \<noteq> None \<or> task_FinishedAt task \<noteq> None
        \<or> task_ProviderRequestID task \<noteq> None \<or> task_ErrorCode task \<noteq> None \<or> task_ErrorMessage task \<noteq> None
        \<or> task_CanceledBy task \<noteq> None \<or> task_CancelReason task \<noteq> None
        \<or> task_CreatedAt task \<noteq> run_CreatedAt run \<or> task_UpdatedAt task \<noteq> run_CreatedAt run
        \<or> \<not> validJSONObject (task_ErrorDetails task)) ErrInvalidData])"

record 's IncrementalStore =
  ListSchedulingTargets :: "ID option \<Rightarrow> int \<Rightarrow> time \<Rightarrow> 's \<Rightarrow> SchedulingTargetPage result \<times> 's"
  LoadSchedulingCheckpoint :: "ID \<Rightarrow> 's \<Rightarrow> IngestionCheckpoint option result \<times> 's"
  ListClosedBarOpenTimes :: "SchedulingTarget \<Rightarrow> time \<Rightarrow> time \<Rightarrow> 's \<Rightarrow> time list result \<times> 's"
  CreateScheduledBatch :: "ScheduledBatch \<Rightarrow> 's \<Rightarrow> bool result \<times> 's"
  RecoverExpiredTasks :: "time \<Rightarrow> 's \<Rightarrow> int result \<times> 's"

record IncrementalConfig =
  ic_PageSize :: int
  ic_MaximumAttempts :: int
  ic_MaximumCatchUpBars :: int
  ic_MaximumCatchUpRuns :: int

record IncrementalResult =
  ir_ScannedSubscriptions :: int
  ir_DueWindows :: int
  ir_CreatedRuns :: int
  ir_ExistingRuns :: int
  ir_RecoveredTasks :: int

text \<open>The scheduler: its collaborators and the limits the constructor installs.\<close>

record 's IncrementalScheduler =
  sch_store :: "'s IncrementalStore"
  sch_newID :: "nat \<Rightarrow> ID result"
  sch_usCalendar :: TradingCalendar
  sch_pageSize :: int
  sch_maximumAttempts :: int
  sch_maximumCatchUpBars :: int
  sch_maximumCatchUpRuns :: int

definition with_default :: "int \<Rightarrow> int \<Rightarrow> int" where
  "with_default d n = (if n = 0 then d else n)"

definition NewIncrementalScheduler ::
  "IncrementalConfig \<Rightarrow> 's IncrementalStore \<Rightarrow> (nat \<Rightarrow> ID result) \<Rightarrow> TradingCalendar \<Rightarrow> 's IncrementalScheduler result" where
  "NewIncrementalScheduler config store newID usCalendar =
     (let pageSize = with_default defaultSchedulingPageSize (ic_PageSize config);
          attempts = with_default defaultSchedulingMaximumAttempts (ic_MaximumAttempts config);
          bars = with_default defaultMaximumCatchUpBars (ic_MaximumCatchUpBars config);
          runs = with_default defaultMaximumCatchUpRuns (ic_MaximumCatchUpRuns config)
      in if pageSize < 1 \<or> pageSize > maximumSchedulingPageSize \<or> attempts < 1
           \<or> bars < 1 \<or> bars > maximumCatchUpBars \<or> runs < 1 \<or> runs > maximumCatchUpRuns
         then Inl (ErrPlain ''incremental scheduler configuration is invalid'')
         else if tc_Location usCalendar = None
         then Inl (ErrPlain ''incremental scheduler dependencies are required'')
         else Inr \<lparr>sch_store = store, sch_newID = newID, sch_usCalendar = usCalendar, sch_pageSize = pageSize,
                sch_maximumAttempts = attempts, sch_maximumCatchUpBars = bars, sch_maximumCatchUpRuns = runs\<rparr>)"

subsection \<open>Planning the windows of a target\<close>

definition latestWindow ::
  "'s IncrementalScheduler \<Rightarrow> SchedulingTarget \<Rightarrow> WindowTrigger \<Rightarrow> duration \<Rightarrow> time \<Rightarrow> CollectionWindow option result option" where
  "latestWindow sched target trigger delay observedAt =
     bind_run (Some (schedulingMarket target)) (\<lambda>market.
       if market = ''continuous''
       then Some (CalculateLatestContinuousWindow (sub_Interval (st_Subscription target)) trigger observedAt delay)
       else CalculateLatestUSWindow (Some (sch_usCalendar sched)) (sub_Interval (st_Subscription target)) trigger observedAt delay)"

definition expectedCloseWindowsUntil ::
  "'s IncrementalScheduler \<Rightarrow> SchedulingTarget \<Rightarrow> time \<Rightarrow> CollectionWindow \<Rightarrow> duration \<Rightarrow> CollectionWindow list result" where
  "expectedCloseWindowsUntil sched target boundary latest delay =
     bind_result (ParseBarInterval (sub_Interval (st_Subscription target))) (\<lambda>interval.
     bind_result (schedulingMarket target) (\<lambda>market.
       if market = ''continuous'' then expectedContinuousWindows interval boundary latest delay 0
       else expectedUSWindows (Some (sch_usCalendar sched)) interval boundary latest delay 0))"

definition expectedCloseWindows ::
  "'s IncrementalScheduler \<Rightarrow> SchedulingTarget \<Rightarrow> time \<Rightarrow> CollectionWindow \<Rightarrow> duration \<Rightarrow> CollectionWindow list result" where
  "expectedCloseWindows sched target boundary latest delay = expectedCloseWindowsUntil sched target boundary latest delay"

definition barForOpen :: "'s IncrementalScheduler \<Rightarrow> SchedulingTarget \<Rightarrow> time \<Rightarrow> scheduledUSBar result" where
  "barForOpen sched target op =
     bind_result (ParseBarInterval (sub_Interval (st_Subscription target))) (\<lambda>interval.
     bind_result (schedulingMarket target) (\<lambda>market.
       if market = ''us_regular'' then usBarForOpen (sch_usCalendar sched) interval op
       else bind_result (durationForInterval interval) (\<lambda>d.
         if op \<noteq> Truncate op d then Inl (invalidWindow ''checkpoint open time is not interval aligned'')
         else Inr \<lparr>ub_open = op, ub_close = op + d\<rparr>)))"

text \<open>
  The plan of a target takes what it reads from the store as arguments: the checkpoint, and the bars
  present in a range. \<open>checkpoint_prefix\<close> lists the windows up to the checkpoint's bar (with that
  bar's close), none when there is no usable checkpoint.
\<close>

definition checkpoint_prefix ::
  "'s IncrementalScheduler \<Rightarrow> SchedulingTarget \<Rightarrow> CollectionWindow \<Rightarrow> duration \<Rightarrow> IngestionCheckpoint option
     \<Rightarrow> (scheduledUSBar \<times> CollectionWindow list) option result" where
  "checkpoint_prefix sched target latest delay checkpoint = (case checkpoint of
     None \<Rightarrow> Inr None
   | Some c \<Rightarrow> checked (validateCheckpoint (sub_ID (st_Subscription target)) c)
       (case cp_LastClosedOpenTime c of
          None \<Rightarrow> Inr None
        | Some op \<Rightarrow>
            bind_result (barForOpen sched target op) (\<lambda>bar.
            bind_result (expectedCloseWindowsUntil sched target (sub_UpdatedAt (st_Subscription target))
                \<lparr>cw_Interval = cw_Interval latest, cw_Trigger = WindowTriggerClose, cw_RangeStart = ub_open bar,
                 cw_RangeEnd = ub_close bar, cw_EligibleAt = ub_close bar + delay\<rparr> delay) (\<lambda>prefix.
              Inr (Some (bar, prefix))))))"

text \<open>The bars present between the first and the last of a list of windows; none is asked for an empty list.\<close>

definition existing_bars ::
  "'s IncrementalStore \<Rightarrow> SchedulingTarget \<Rightarrow> CollectionWindow list \<Rightarrow> 's \<Rightarrow> time list result \<times> 's" where
  "existing_bars store target ws s =
     (if ws = [] then (Inr [], s)
      else ListClosedBarOpenTimes store target (cw_RangeStart (hd ws)) (cw_RangeEnd (last ws)) s)"

definition boundary_after :: "SchedulingTarget \<Rightarrow> (scheduledUSBar \<times> CollectionWindow list) option \<Rightarrow> time list \<Rightarrow> time" where
  "boundary_after target prefix existing = (case prefix of
     None \<Rightarrow> sub_UpdatedAt (st_Subscription target)
   | Some (bar, ws) \<Rightarrow> if ws \<noteq> [] \<and> allWindowsPresent ws existing then ub_close bar
                       else sub_UpdatedAt (st_Subscription target))"

text \<open>\<^verbatim>\<open>catchUpWindows\<close> after the newest due window is known.\<close>

definition plan_catch_up ::
  "'s IncrementalScheduler \<Rightarrow> SchedulingTarget \<Rightarrow> CollectionWindow \<Rightarrow> duration \<Rightarrow> 's \<Rightarrow> CollectionWindow list result \<times> 's" where
  "plan_catch_up sched target latest delay s =
     (case LoadSchedulingCheckpoint (sch_store sched) (sub_ID (st_Subscription target)) s of
        (Inl e, s1) \<Rightarrow> (Inl e, s1)
      | (Inr checkpoint, s1) \<Rightarrow>
        (case checkpoint_prefix sched target latest delay checkpoint of
           Inl e \<Rightarrow> (Inl e, s1)
         | Inr prefix \<Rightarrow>
           (case existing_bars (sch_store sched) target (case prefix of None \<Rightarrow> [] | Some (bar, ws) \<Rightarrow> ws) s1 of
              (Inl e, s2) \<Rightarrow> (Inl e, s2)
            | (Inr verified, s2) \<Rightarrow>
              (case expectedCloseWindows sched target (boundary_after target prefix verified) latest delay of
                 Inl e \<Rightarrow> (Inl e, s2)
               | Inr candidates \<Rightarrow>
                   if candidates = [] then (Inr [], s2)
                   else (case existing_bars (sch_store sched) target candidates s2 of
                           (Inl e, s3) \<Rightarrow> (Inl e, s3)
                         | (Inr existing, s3) \<Rightarrow>
                             (Inr (missingWindowGroups candidates existing (sch_maximumCatchUpBars sched)
                                     (sch_maximumCatchUpRuns sched)), s3))))))"

definition catchUpWindows ::
  "'s IncrementalScheduler \<Rightarrow> SchedulingTarget \<Rightarrow> duration \<Rightarrow> time \<Rightarrow> 's \<Rightarrow> (CollectionWindow list result \<times> 's) option" where
  "catchUpWindows sched target delay observedAt s =
     (case latestWindow sched target WindowTriggerClose delay observedAt of
        None \<Rightarrow> None
      | Some (Inl e) \<Rightarrow> Some (Inl e, s)
      | Some (Inr None) \<Rightarrow> Some (Inr [], s)
      | Some (Inr (Some latest)) \<Rightarrow>
          if \<not> cw_RangeEnd latest > sub_UpdatedAt (st_Subscription target) then Some (Inr [], s)
          else Some (plan_catch_up sched target latest delay s))"

subsection \<open>One scan\<close>

definition validScheduledID :: "platform \<Rightarrow> ID \<Rightarrow> bool" where
  "validScheduledID pf i \<longleftrightarrow> \<not> ID_IsZero i \<and> UUID_Version pf i = 7"

definition scheduled_context :: "platform \<Rightarrow> SchedulingTarget \<Rightarrow> CollectionWindow \<Rightarrow> RawMessage" where
  "scheduled_context pf target w = RawValue (JObject
     [(''instrument_code'', JString (st_InstrumentCode target)), (''interval'', JString (cw_Interval w)),
      (''provider'', JString (st_ProviderCode target)),
      (''range_end'', JString (Format_RFC3339Nano (cw_RangeEnd w))),
      (''range_start'', JString (Format_RFC3339Nano (cw_RangeStart w))),
      (''subscription_id'', JString (UUID_String pf (sub_ID (st_Subscription target)))),
      (''trigger'', JString (cw_Trigger w))])"

text \<open>The batch of a window, given the number of identities drawn before.\<close>

definition newBatch ::
  "platform \<Rightarrow> 's IncrementalScheduler \<Rightarrow> nat \<Rightarrow> SchedulingTarget \<Rightarrow> CollectionWindow \<Rightarrow> time \<Rightarrow> ScheduledBatch result" where
  "newBatch pf sched drawn target w observedAt =
     bind_result (sch_newID sched drawn) (\<lambda>runID.
     if \<not> validScheduledID pf runID then Inl ErrInvalidData
     else bind_result (sch_newID sched (drawn + 1)) (\<lambda>taskID.
     if \<not> validScheduledID pf taskID \<or> taskID = runID then Inl ErrInvalidData
     else
       let subscriptionID = sub_ID (st_Subscription target);
           batch = \<lparr>sb_Trigger = cw_Trigger w,
             sb_Run = pending_run runID (StableRunKey pf (cw_Trigger w) subscriptionID (cw_RangeStart w) (cw_RangeEnd w))
               (run_type_of (cw_Trigger w)) ''scheduler'' (Some (cw_EligibleAt w)) None
               (scheduled_context pf target w) observedAt,
             sb_Task = pending_task taskID runID subscriptionID None (cw_RangeStart w) (cw_RangeEnd w)
               (sch_maximumAttempts sched) observedAt\<rparr>
       in checked (ScheduledBatch_Validate pf batch) (Inr batch)))"

record 's scan =
  scan_result :: IncrementalResult
  scan_store :: 's
  scan_drawn :: nat

text \<open>The loop over the windows of one trigger.\<close>

fun scan_windows ::
  "platform \<Rightarrow> 's IncrementalScheduler \<Rightarrow> SchedulingTarget \<Rightarrow> time \<Rightarrow> CollectionWindow list \<Rightarrow> 's scan \<Rightarrow> error option \<times> 's scan" where
  "scan_windows pf sched target observedAt [] sc = (None, sc)"
| "scan_windows pf sched target observedAt (w # ws) sc =
     (let r = scan_result sc; r1 = r\<lparr>ir_DueWindows := ir_DueWindows r + 1\<rparr> in
      case newBatch pf sched (scan_drawn sc) target w observedAt of
        Inl e \<Rightarrow> (Some e, sc\<lparr>scan_result := r1\<rparr>)
      | Inr batch \<Rightarrow>
          (case CreateScheduledBatch (sch_store sched) batch (scan_store sc) of
             (Inl e, s1) \<Rightarrow> (Some e, sc\<lparr>scan_result := r1, scan_store := s1, scan_drawn := scan_drawn sc + 2\<rparr>)
           | (Inr created, s1) \<Rightarrow>
               scan_windows pf sched target observedAt ws
                 (sc\<lparr>scan_result := (if created then r1\<lparr>ir_CreatedRuns := ir_CreatedRuns r1 + 1\<rparr>
                                    else r1\<lparr>ir_ExistingRuns := ir_ExistingRuns r1 + 1\<rparr>),
                     scan_store := s1, scan_drawn := scan_drawn sc + 2\<rparr>)))"

text \<open>The windows of one trigger of a target.\<close>

definition trigger_windows ::
  "'s IncrementalScheduler \<Rightarrow> SchedulingTarget \<Rightarrow> WindowTrigger \<Rightarrow> duration \<Rightarrow> time \<Rightarrow> 's \<Rightarrow> (CollectionWindow list result \<times> 's) option" where
  "trigger_windows sched target trigger delay observedAt s =
     (if trigger = WindowTriggerClose then catchUpWindows sched target delay observedAt s
      else (case latestWindow sched target trigger delay observedAt of
              None \<Rightarrow> None
            | Some (Inl e) \<Rightarrow> Some (Inl e, s)
            | Some (Inr None) \<Rightarrow> Some (Inr [], s)
            | Some (Inr (Some w)) \<Rightarrow>
                Some (Inr (if cw_RangeEnd w > sub_UpdatedAt (st_Subscription target) then [w] else []), s)))"

fun scan_triggers ::
  "platform \<Rightarrow> 's IncrementalScheduler \<Rightarrow> SchedulingTarget \<Rightarrow> DelayPolicy \<Rightarrow> time \<Rightarrow> WindowTrigger list \<Rightarrow> 's scan
     \<Rightarrow> (error option \<times> 's scan) option" where
  "scan_triggers pf sched target policy observedAt [] sc = Some (None, sc)"
| "scan_triggers pf sched target policy observedAt (trigger # triggers) sc =
     (case DelayPolicy_Delay policy trigger of
        Inl e \<Rightarrow> Some (Some e, sc)
      | Inr (delay, enabled) \<Rightarrow>
          if \<not> enabled then scan_triggers pf sched target policy observedAt triggers sc
          else (case trigger_windows sched target trigger delay observedAt (scan_store sc) of
                  None \<Rightarrow> None
                | Some (Inl e, s1) \<Rightarrow> Some (Some e, sc\<lparr>scan_store := s1\<rparr>)
                | Some (Inr windows, s1) \<Rightarrow>
                    (case scan_windows pf sched target observedAt windows (sc\<lparr>scan_store := s1\<rparr>) of
                       (Some e, sc1) \<Rightarrow> Some (Some e, sc1)
                     | (None, sc1) \<Rightarrow> scan_triggers pf sched target policy observedAt triggers sc1)))"

definition scan_target ::
  "platform \<Rightarrow> 's IncrementalScheduler \<Rightarrow> time \<Rightarrow> SchedulingTarget \<Rightarrow> 's scan \<Rightarrow> (error option \<times> 's scan) option" where
  "scan_target pf sched observedAt target sc =
     (let r = scan_result sc; sc1 = sc\<lparr>scan_result := r\<lparr>ir_ScannedSubscriptions := ir_ScannedSubscriptions r + 1\<rparr>\<rparr> in
      case SchedulingTarget_Validate target of
        Some e \<Rightarrow> Some (Some e, sc1)
      | None \<Rightarrow>
          (case NewDelayPolicy (sub_CloseDelaySeconds (st_Subscription target)) (sub_RevisionDelaySeconds (st_Subscription target)) of
             Inl e \<Rightarrow> Some (Some e, sc1)
           | Inr policy \<Rightarrow>
               scan_triggers pf sched target policy observedAt [WindowTriggerClose, WindowTriggerRevision] sc1))"

fun scan_targets ::
  "platform \<Rightarrow> 's IncrementalScheduler \<Rightarrow> time \<Rightarrow> SchedulingTarget list \<Rightarrow> 's scan \<Rightarrow> (error option \<times> 's scan) option" where
  "scan_targets pf sched observedAt [] sc = Some (None, sc)"
| "scan_targets pf sched observedAt (t # ts) sc =
     (case scan_target pf sched observedAt t sc of
        None \<Rightarrow> None
      | Some (Some e, sc1) \<Rightarrow> Some (Some e, sc1)
      | Some (None, sc1) \<Rightarrow> scan_targets pf sched observedAt ts sc1)"

text \<open>The loop over the pages of targets.\<close>

partial_function (option) scan_pages ::
  "platform \<Rightarrow> 's IncrementalScheduler \<Rightarrow> time \<Rightarrow> ID option \<Rightarrow> 's scan \<Rightarrow> (error option \<times> 's scan) option" where
  "scan_pages pf sched observedAt afterID sc =
     (case ListSchedulingTargets (sch_store sched) afterID (sch_pageSize sched) observedAt (scan_store sc) of
        (Inl e, s1) \<Rightarrow> Some (Some e, sc\<lparr>scan_store := s1\<rparr>)
      | (Inr page, s1) \<Rightarrow>
          if stp_Items page = [] \<and> stp_NextAfterID page \<noteq> None
          then Some (Some ErrInvalidData, sc\<lparr>scan_store := s1\<rparr>)
          else (case scan_targets pf sched observedAt (stp_Items page) (sc\<lparr>scan_store := s1\<rparr>) of
                  None \<Rightarrow> None
                | Some (Some e, sc1) \<Rightarrow> Some (Some e, sc1)
                | Some (None, sc1) \<Rightarrow>
                    (case stp_NextAfterID page of
                       None \<Rightarrow> Some (None, sc1)
                     | Some next \<Rightarrow>
                         if afterID = Some next
                           \<or> (stp_Items page \<noteq> [] \<and> next \<noteq> sub_ID (st_Subscription (last (stp_Items page))))
                         then Some (Some ErrInvalidData, sc1)
                         else scan_pages pf sched observedAt (Some next) sc1)))"

definition empty_result :: IncrementalResult where
  "empty_result = \<lparr>ir_ScannedSubscriptions = 0, ir_DueWindows = 0, ir_CreatedRuns = 0, ir_ExistingRuns = 0,
     ir_RecoveredTasks = 0\<rparr>"

text \<open>\<^verbatim>\<open>RunOnce\<close>: the error and the result counted up to it, and the store's state.\<close>

definition RunOnce ::
  "platform \<Rightarrow> 's IncrementalScheduler \<Rightarrow> time \<Rightarrow> 's \<Rightarrow> (error option \<times> IncrementalResult \<times> 's) option" where
  "RunOnce pf sched observedAt s =
     (if IsZero observedAt then Some (Some ErrInvalidData, empty_result, s)
      else case RecoverExpiredTasks (sch_store sched) observedAt s of
             (Inl e, s1) \<Rightarrow> Some (Some e, empty_result, s1)
           | (Inr recovered, s1) \<Rightarrow>
               (case scan_pages pf sched observedAt None
                  \<lparr>scan_result = empty_result\<lparr>ir_RecoveredTasks := recovered\<rparr>, scan_store = s1, scan_drawn = 0\<rparr> of
                  None \<Rightarrow> None
                | Some (e, sc) \<Rightarrow> Some (e, scan_result sc, scan_store sc)))"

subsection \<open>Planned windows\<close>

text \<open>What every planned window satisfies: a non-empty range whose end plus delay has been reached.\<close>

definition planned :: "time \<Rightarrow> duration \<Rightarrow> WindowTrigger \<Rightarrow> CollectionWindow \<Rightarrow> bool" where
  "planned now delay trigger w \<longleftrightarrow> cw_Trigger w = trigger \<and> cw_RangeStart w < cw_RangeEnd w
     \<and> cw_EligibleAt w = cw_RangeEnd w + delay \<and> cw_EligibleAt w \<le> now"

context nyse_calendar
begin

lemma session_after_utc_midnight:
  assumes "\<And>t. offset_at loc t \<le> 0" and "session s"
  shows "time_Date UTC_location (md_Year (ms_Date s)) (md_Month (ms_Date s)) (md_Day (ms_Date s)) 0 0 0 < ms_Close s"
proof -
  from assms(2) have "NYSE_SessionForDate (Some c) (ms_Date s) = Inr (Some s)" by (simp add: is_session_def)
  then obtain h mi where hm: "570 < 60 * h + mi" "60 * h + mi \<le> 960"
      "ms_Close s = time_Date loc (md_Year (ms_Date s)) (md_Month (ms_Date s)) (md_Day (ms_Date s)) h mi 0"
    by (rule session_cases)
  from trading_hours [of "md_Year (ms_Date s)" "md_Month (ms_Date s)" "md_Day (ms_Date s)"] obtain off where off:
    "\<And>h mi. 540 \<le> 60 * h + mi \<Longrightarrow> 60 * h + mi \<le> 1020 \<Longrightarrow>
       time_Date loc (md_Year (ms_Date s)) (md_Month (ms_Date s)) (md_Day (ms_Date s)) h mi 0 =
         (date_days (md_Year (ms_Date s)) (md_Month (ms_Date s)) (md_Day (ms_Date s)) * 86400 + h * 3600 + mi * 60 - off) * Second
       \<and> offset_at loc (time_Date loc (md_Year (ms_Date s)) (md_Month (ms_Date s)) (md_Day (ms_Date s)) h mi 0) = off"
    by blast
  have "540 \<le> 60 * h + mi" "60 * h + mi \<le> 1020" using hm by linarith+
  note o = off [OF this]
  have "off \<le> 0" using o assms(1) by metis
  moreover have "0 < h * 3600 + mi * 60" using hm(1) by linarith
  ultimately show ?thesis using o hm(3) by (simp add: time_Date_UTC Second_def)
qed

lemma us_bar_range:
  assumes "\<And>t. offset_at loc t \<le> 0" and "is_us_bar (NYSE_TradingCalendar (Some c)) interval b"
  shows "ub_open b < ub_close b"
proof -
  from assms(2) obtain s bars where s: "session s" "barsForUSSession s interval = Inr bars" "b \<in> set bars"
    by (auto simp: is_us_bar_def NYSE_TradingCalendar_def)
  show ?thesis
  proof (cases "interval = BarInterval1Hour")
    case True
    then show ?thesis using session_bars_opens(3) s by blast
  next
    case False
    then have "interval = BarInterval1Day" using barsForUSSession_props(5) [OF s(2)] by simp
    with s False have "ub_close b = ms_Close s"
      by (auto simp: barsForUSSession_def checked_Inr_iff split: if_splits)
    with session_bars_opens(4) [OF s(2) False s(3)] session_after_utc_midnight [OF assms(1) s(1)] show ?thesis by simp
  qed
qed

end

lemma missing_groups_planned:
  assumes "strictly_ascending cw_RangeStart candidates" and "\<forall>w \<in> set candidates. planned now delay trigger w"
    and "g \<in> set (missingWindowGroups candidates existing maximumBars maximumGroups)"
  shows "planned now delay trigger g"
proof -
  from window_groups_spec [of existing maximumBars maximumGroups 0 candidates] assms(3)
  obtain seg us vs where seg: "g = merge_windows seg" "seg \<noteq> []" "candidates = us @ seg @ vs"
    unfolding missingWindowGroups_def by fastforce
  have asc: "strictly_ascending cw_RangeStart seg" using assms(1) seg(3) by (simp add: strictly_ascending_append)
  have p: "planned now delay trigger (hd seg)" "planned now delay trigger (last seg)"
    using assms(2) seg(2,3) by auto
  have "cw_RangeStart (hd seg) \<le> cw_RangeStart (last seg)"
  proof (cases seg)
    case (Cons x xs)
    with asc show ?thesis by (cases xs) (auto intro: less_imp_le)
  qed (use seg in simp)
  with p show ?thesis by (auto simp: seg(1) merge_windows_def planned_def)
qed

lemma latest_continuous_planned:
  assumes "CalculateLatestContinuousWindow interval trigger now delay = Inr (Some w)"
  shows "planned now delay trigger w" "cw_Interval w = interval"
    "\<exists>d. durationForInterval interval = Inr d \<and> cw_RangeEnd w = cw_RangeStart w + d"
proof -
  from assms obtain d where d: "durationForInterval interval = Inr d"
    by (auto simp: CalculateLatestContinuousWindow_def bind_result_Inr_iff)
  note tr = Truncate_le [of "now - delay" d]
  from assms d durationForInterval_pos [OF d] tr show "planned now delay trigger w" "cw_Interval w = interval"
    "\<exists>d. durationForInterval interval = Inr d \<and> cw_RangeEnd w = cw_RangeStart w + d"
    by (auto simp: CalculateLatestContinuousWindow_def CalculateContinuousWindow_Inr_iff due_window_def Let_def planned_def
        split: if_splits)
qed

text \<open>The calendar of a scheduler whose windows are planned: NYSE sessions, west of Greenwich.\<close>

definition us_calendar :: "TradingCalendar \<Rightarrow> bool" where
  "us_calendar cal \<longleftrightarrow> (\<exists>loc c. nyse_calendar loc c \<and> (\<forall>t. offset_at loc t \<le> 0) \<and> cal = NYSE_TradingCalendar (Some c))"

lemma latestWindow_planned:
  assumes "us_calendar (sch_usCalendar sched)"
    and "latestWindow sched target trigger delay now = Some (Inr (Some w))"
    and "ParseBarInterval (sub_Interval (st_Subscription target)) = Inr interval"
  shows "planned now delay trigger w" "cw_Interval w = interval"
    "schedulingMarket target = Inr ''continuous'' \<and> (\<exists>d. durationForInterval interval = Inr d \<and> cw_RangeEnd w = cw_RangeStart w + d)
     \<or> schedulingMarket target \<noteq> Inr ''continuous'' \<and> is_us_bar (sch_usCalendar sched) interval
          \<lparr>ub_open = cw_RangeStart w, ub_close = cw_RangeEnd w\<rparr>"
proof -
  from assms(3) have i: "sub_Interval (st_Subscription target) = interval" and
    v: "interval = BarInterval1Hour \<or> interval = BarInterval1Day" by (auto simp: ParseBarInterval_Inr_iff)
  from assms(1) obtain loc c where nc: "nyse_calendar loc c" "\<And>t. offset_at loc t \<le> 0"
    "sch_usCalendar sched = NYSE_TradingCalendar (Some c)" by (auto simp: us_calendar_def)
  obtain d where d: "durationForInterval interval = Inr d" using v by (auto simp: durationForInterval_Inr_iff)
  have "planned now delay trigger w \<and> cw_Interval w = interval \<and>
     (schedulingMarket target = Inr ''continuous'' \<and> (\<exists>d. durationForInterval interval = Inr d \<and> cw_RangeEnd w = cw_RangeStart w + d)
     \<or> schedulingMarket target \<noteq> Inr ''continuous'' \<and> is_us_bar (sch_usCalendar sched) interval
          \<lparr>ub_open = cw_RangeStart w, ub_close = cw_RangeEnd w\<rparr>)"
  proof (cases "schedulingMarket target = Inr ''continuous''")
    case True
    with assms(2) i have "CalculateLatestContinuousWindow interval trigger now delay = Inr (Some w)"
      by (simp add: latestWindow_def)
    from latest_continuous_planned [OF this] True show ?thesis by blast
  next
    case False
    with assms(2) i have "CalculateLatestUSWindow (Some (sch_usCalendar sched)) interval trigger now delay = Some (Inr (Some w))"
      by (auto simp: latestWindow_def bind_run_Inr_iff split: if_splits)
    from latest_us_window_bar [OF nyse_calendar.contract [OF nc(1)] d this [unfolded nc(3)]] obtain b where
      b: "is_us_bar (sch_usCalendar sched) interval b" "cw_Interval w = interval" "cw_Trigger w = trigger"
        "cw_RangeStart w = ub_open b" "cw_RangeEnd w = ub_close b" "cw_EligibleAt w = ub_close b + delay" "ub_close b + delay \<le> now"
      unfolding nc(3) by blast
    have "ub_open b < ub_close b" using nyse_calendar.us_bar_range [OF nc(1,2)] b(1) nc(3) by simp
    with b False show ?thesis by (simp add: planned_def scheduledUSBar_eta)
  qed
  then show "planned now delay trigger w" "cw_Interval w = interval"
    "schedulingMarket target = Inr ''continuous'' \<and> (\<exists>d. durationForInterval interval = Inr d \<and> cw_RangeEnd w = cw_RangeStart w + d)
     \<or> schedulingMarket target \<noteq> Inr ''continuous'' \<and> is_us_bar (sch_usCalendar sched) interval
          \<lparr>ub_open = cw_RangeStart w, ub_close = cw_RangeEnd w\<rparr>"
    by blast+
qed

text \<open>The candidates up to a planned newest window are planned, in order.\<close>

lemma candidates_planned:
  assumes "us_calendar (sch_usCalendar sched)"
    and "latestWindow sched target WindowTriggerClose delay now = Some (Inr (Some latest))"
    and "expectedCloseWindows sched target boundary latest delay = Inr ws"
  shows "strictly_ascending cw_RangeStart ws" "\<forall>w \<in> set ws. planned now delay WindowTriggerClose w"
proof -
  from assms(3) obtain interval where i: "ParseBarInterval (sub_Interval (st_Subscription target)) = Inr interval"
    by (auto simp: expectedCloseWindows_def expectedCloseWindowsUntil_def bind_result_Inr_iff)
  note lw = latestWindow_planned [OF assms(1,2) i]
  have el: "cw_EligibleAt latest \<le> now" "cw_EligibleAt latest = cw_RangeEnd latest + delay"
    using lw(1) by (simp_all add: planned_def)
  from assms(1) obtain loc c where nc: "nyse_calendar loc c" "\<And>t. offset_at loc t \<le> 0"
    "sch_usCalendar sched = NYSE_TradingCalendar (Some c)" by (auto simp: us_calendar_def)
  note tc = nyse_calendar.contract [OF nc(1)]
  have "strictly_ascending cw_RangeStart ws \<and> (\<forall>w \<in> set ws. planned now delay WindowTriggerClose w)"
    using lw(3)
  proof (elim disjE conjE exE)
    fix d assume m: "schedulingMarket target = Inr ''continuous''"
      and d: "durationForInterval interval = Inr d" "cw_RangeEnd latest = cw_RangeStart latest + d"
    from assms(3) i m have "expectedContinuousWindows interval boundary latest delay 0 = Inr ws"
      by (simp add: expectedCloseWindows_def expectedCloseWindowsUntil_def)
    note cor = expectedContinuousWindows_correct [OF this d(1) order_refl]
    have "planned now delay WindowTriggerClose w" if "w \<in> set ws" for w
    proof -
      from that cor(1) obtain q where q: "w = close_window interval delay q (q + d)" "q \<le> cw_RangeStart latest" by blast
      have "q + d + delay \<le> now" using q(2) el d(2) by linarith
      with durationForInterval_pos [OF d(1)] show ?thesis by (simp add: q(1) planned_def close_window_def)
    qed
    with cor(2) show ?thesis by blast
  next
    assume m: "schedulingMarket target \<noteq> Inr ''continuous''" and
      b: "is_us_bar (sch_usCalendar sched) interval \<lparr>ub_open = cw_RangeStart latest, ub_close = cw_RangeEnd latest\<rparr>"
    from assms(3) i m have e: "expectedUSWindows (Some (NYSE_TradingCalendar (Some c))) interval boundary latest delay 0 = Inr ws"
      by (auto simp: expectedCloseWindows_def expectedCloseWindowsUntil_def bind_result_Inr_iff nc(3) split: if_splits)
    note cor = trading_calendar.expectedUSWindows_correct [OF tc e b [unfolded nc(3)]]
    have "planned now delay WindowTriggerClose w" if "w \<in> set ws" for w
    proof -
      from that cor(2) obtain b' where b': "w = close_window interval delay (ub_open b') (ub_close b')"
        "is_us_bar (NYSE_TradingCalendar (Some c)) interval b'" "ub_open b' \<le> cw_RangeStart latest" by auto
      have "ub_close b' \<le> cw_RangeEnd latest"
        using trading_calendar.bar_close_mono [OF tc b'(2) b [unfolded nc(3)]] b'(3) by simp
      with b' nyse_calendar.us_bar_range [OF nc(1,2) b'(2)] el show ?thesis
        by (simp add: planned_def close_window_def)
    qed
    with cor(1) show ?thesis by simp
  qed
  then show "strictly_ascending cw_RangeStart ws" "\<forall>w \<in> set ws. planned now delay WindowTriggerClose w" by blast+
qed

lemma plan_catch_up_planned:
  assumes "us_calendar (sch_usCalendar sched)"
    and "latestWindow sched target WindowTriggerClose delay now = Some (Inr (Some latest))"
    and "plan_catch_up sched target latest delay s = (Inr ws, s')" and "w \<in> set ws"
  shows "planned now delay WindowTriggerClose w"
proof -
  from assms(3,4) obtain boundary candidates existing where
    c: "expectedCloseWindows sched target boundary latest delay = Inr candidates" and
    w: "ws = missingWindowGroups candidates existing (sch_maximumCatchUpBars sched) (sch_maximumCatchUpRuns sched)"
    by (auto simp: plan_catch_up_def split: prod.splits sum.splits if_splits)
  from missing_groups_planned [OF candidates_planned [OF assms(1,2) c]] assms(4) w show ?thesis by blast
qed

lemma trigger_windows_planned:
  assumes "us_calendar (sch_usCalendar sched)"
    and "trigger_windows sched target trigger delay now s = Some (Inr ws, s')" and "w \<in> set ws"
    and "ParseBarInterval (sub_Interval (st_Subscription target)) = Inr interval"
  shows "planned now delay trigger w"
proof (cases "trigger = WindowTriggerClose")
  case True
  with assms(2,3) obtain latest where
    l: "latestWindow sched target WindowTriggerClose delay now = Some (Inr (Some latest))"
       "plan_catch_up sched target latest delay s = (Inr ws, s')"
    by (auto simp: trigger_windows_def catchUpWindows_def split: option.splits sum.splits if_splits)
  from plan_catch_up_planned [OF assms(1) l assms(3)] True show ?thesis by simp
next
  case False
  with assms(2,3) have "latestWindow sched target trigger delay now = Some (Inr (Some w))"
    by (auto simp: trigger_windows_def split: option.splits sum.splits if_splits)
  from latestWindow_planned(1) [OF assms(1) this assms(4)] show ?thesis .
qed

text \<open>The batch of a planned window always passes the batch contract.\<close>

lemma newBatch_planned:
  assumes "planned now delay trigger w" "trigger = WindowTriggerClose \<or> trigger = WindowTriggerRevision" "0 \<le> delay"
    and "SchedulingTarget_Validate target = None" "1 \<le> sch_maximumAttempts sched" "now \<noteq> 0"
    and "sch_newID sched n = Inr runID" "sch_newID sched (n + 1) = Inr taskID"
    and "validScheduledID pf runID" "validScheduledID pf taskID" "runID \<noteq> taskID"
  shows "\<exists>batch. newBatch pf sched n target w now = Inr batch \<and> ScheduledBatch_Validate pf batch = None
     \<and> sb_Trigger batch = trigger
     \<and> task_RangeStart (sb_Task batch) = cw_RangeStart w \<and> task_RangeEnd (sb_Task batch) = cw_RangeEnd w
     \<and> task_SubscriptionID (sb_Task batch) = sub_ID (st_Subscription target)
     \<and> run_ScheduledAt (sb_Run batch) = Some (cw_EligibleAt w)
     \<and> run_RunKey (sb_Run batch) = StableRunKey pf trigger (sub_ID (st_Subscription target)) (cw_RangeStart w) (cw_RangeEnd w)"
proof -
  let ?sub = "sub_ID (st_Subscription target)"
  have sub: "\<not> ID_IsZero ?sub"
    using assms(4) by (simp add: SchedulingTarget_Validate_def Let_def)
  let ?b = "\<lparr>sb_Trigger = cw_Trigger w,
     sb_Run = pending_run runID (StableRunKey pf (cw_Trigger w) ?sub (cw_RangeStart w) (cw_RangeEnd w))
       (run_type_of (cw_Trigger w)) ''scheduler'' (Some (cw_EligibleAt w)) None (scheduled_context pf target w) now,
     sb_Task = pending_task taskID runID ?sub None (cw_RangeStart w) (cw_RangeEnd w) (sch_maximumAttempts sched) now\<rparr>"
  have p: "cw_Trigger w = trigger" "cw_RangeStart w < cw_RangeEnd w" "cw_RangeEnd w \<le> cw_EligibleAt w" "cw_EligibleAt w \<le> now"
    using assms(1,3) by (simp_all add: planned_def)
  have t: "\<not> (trigger \<noteq> WindowTriggerRevision \<and> trigger \<noteq> WindowTriggerClose)" using assms(2) by blast
  have ids: "\<not> ID_IsZero runID" "\<not> ID_IsZero taskID" "UUID_Version pf runID = 7" "UUID_Version pf taskID = 7" "taskID \<noteq> runID"
    using assms(9-11) by (simp_all add: validScheduledID_def)
  have json: "validJSONObject (scheduled_context pf target w)" "validJSONObject emptyJSONObject"
    by (simp_all add: validJSONObject_def isJSONObject_def emptyJSONObject_def scheduled_context_def)
  have v: "ScheduledBatch_Validate pf ?b = None"
    unfolding ScheduledBatch_Validate_def Let_def pending_run_def pending_task_def first_error_Cons_None guard_None_iff p(1)
      ScheduledBatch.simps IngestionRun.simps IngestionTask.simps
    using p(2-4) t ids json sub assms(5,6) by (simp add: IsZero_def)
  have "newBatch pf sched n target w now = Inr ?b"
    unfolding newBatch_def assms(7,8) bind_result_simps using v assms(9-11) by (simp add: Let_def)
  with v p show ?thesis by (intro exI [of _ ?b]) (simp add: pending_run_def pending_task_def)
qed

subsection \<open>Run keys\<close>

text \<open>The instants whose compact text has the fixed width of a four-digit year.\<close>

definition printable_year :: "time \<Rightarrow> bool" where
  "printable_year t \<longleftrightarrow> (case time_In_Date UTC_location t of (y, m, d) \<Rightarrow> 1 \<le> y \<and> y \<le> 9999)"

lemma days_in_month_small: "days_in_month y m \<le> 31"
  by (simp add: days_in_month_def days_before_month_def)

lemma civil_text_fields:
  assumes "printable_year t" "printable_year u" "civil_text [] ''T'' [] t = civil_text [] ''T'' [] u"
  shows "t div Second = u div Second"
proof -
  obtain y m d where c: "civil (t div Second div 86400) = (y, m, d)" by (metis prod_cases3)
  obtain y' m' d' where c': "civil (u div Second div 86400) = (y', m', d')" by (metis prod_cases3)
  have v: "valid_date y m d" "date_days y m d = t div Second div 86400" using civil_correct [OF c] by auto
  have v': "valid_date y' m' d'" "date_days y' m' d' = u div Second div 86400" using civil_correct [OF c'] by auto
  have b: "1 \<le> y" "y \<le> 9999" "1 \<le> m" "m \<le> 12" "1 \<le> d" "d \<le> 31"
    using assms(1) c v(1) days_in_month_small [of y m] by (auto simp: printable_year_def time_In_Date_UTC valid_date_def)
  have b': "1 \<le> y'" "y' \<le> 9999" "1 \<le> m'" "m' \<le> 12" "1 \<le> d'" "d' \<le> 31"
    using assms(2) c' v'(1) days_in_month_small [of y' m'] by (auto simp: printable_year_def time_In_Date_UTC valid_date_def)
  define s s' where "s = t div Second mod 86400" and "s' = u div Second mod 86400"
  have sb: "0 \<le> s" "s < 86400" "0 \<le> s'" "s' < 86400" by (simp_all add: s_def s'_def)
  have len: "length (fmt0 4 (nat y)) = length (fmt0 4 (nat y'))" "length (fmt0 2 (nat m)) = length (fmt0 2 (nat m'))"
    "length (fmt0 2 (nat d)) = length (fmt0 2 (nat d'))"
    "length (fmt0 2 (nat (s div 3600))) = length (fmt0 2 (nat (s' div 3600)))"
    "length (fmt0 2 (nat (s div 60 mod 60))) = length (fmt0 2 (nat (s' div 60 mod 60)))"
    using b b' sb by (simp_all add: length_fmt0 nat_less_iff)
  have "nat y = nat y' \<and> nat m = nat m' \<and> nat d = nat d' \<and> nat (s div 3600) = nat (s' div 3600)
     \<and> nat (s div 60 mod 60) = nat (s' div 60 mod 60) \<and> nat (s mod 60) = nat (s' mod 60)"
    using assms(3) c c' len by (simp add: civil_text_def time_In_Date_UTC Let_def s_def [symmetric] s'_def [symmetric])
  then have "y = y'" "m = m'" "d = d'" "s div 3600 = s' div 3600" "s div 60 mod 60 = s' div 60 mod 60" "s mod 60 = s' mod 60"
    using b b' sb by (simp_all add: eq_nat_nat_iff pos_imp_zdiv_nonneg_iff)
  have split: "x = x div 3600 * 3600 + x div 60 mod 60 * 60 + x mod 60" for x :: int
  proof -
    have "x div 3600 = x div 60 div 60" using zdiv_zmult2_eq [of 60 x 60] by simp
    then show ?thesis using div_mult_mod_eq [of x 60] div_mult_mod_eq [of "x div 60" 60] by linarith
  qed
  have "s = s'" using split [of s] split [of s'] \<open>s div 3600 = s' div 3600\<close> \<open>s div 60 mod 60 = s' div 60 mod 60\<close> \<open>s mod 60 = s' mod 60\<close> by linarith
  moreover have "t div Second div 86400 = u div Second div 86400" using v(2) v'(2) \<open>y = y'\<close> \<open>m = m'\<close> \<open>d = d'\<close> by simp
  ultimately show ?thesis unfolding s_def s'_def by (metis div_mult_mod_eq)
qed

lemma length_civil_text:
  assumes "printable_year t" shows "length (civil_text [] ''T'' [] t) = 15"
proof -
  obtain y m d where c: "civil (t div Second div 86400) = (y, m, d)" by (metis prod_cases3)
  have v: "valid_date y m d" using civil_correct [OF c] by auto
  have b: "1 \<le> y" "y \<le> 9999" "1 \<le> m" "m \<le> 12" "1 \<le> d" "d \<le> 31"
    using assms(1) c v days_in_month_small [of y m] by (auto simp: printable_year_def time_In_Date_UTC valid_date_def)
  define s where "s = t div Second mod 86400"
  have "0 \<le> s" "s < 86400" by (simp_all add: s_def)
  with b c show ?thesis
    by (simp add: civil_text_def time_In_Date_UTC Let_def s_def [symmetric] length_fmt0 nat_less_iff)
qed

lemma Format_compact_inject:
  assumes "printable_year t" "printable_year u" "Format_compact t = Format_compact u"
  shows "t = u"
proof -
  have sb: "t mod Second < 10 ^ 9" "u mod Second < 10 ^ 9" "0 \<le> t mod Second" "0 \<le> u mod Second" by (simp_all add: Second_def)
  have "civil_text [] ''T'' [] t = civil_text [] ''T'' [] u \<and> fmt0 9 (nat (t mod Second)) = fmt0 9 (nat (u mod Second))"
    using assms by (simp add: Format_compact_def length_civil_text)
  then have "t div Second = u div Second" "t mod Second = u mod Second"
    using civil_text_fields [OF assms(1,2)] sb by (auto simp: eq_nat_nat_iff)
  then show ?thesis by (metis div_mult_mod_eq)
qed

lemma length_Format_compact:
  "printable_year t \<Longrightarrow> length (Format_compact t) = 26"
  by (simp add: Format_compact_def length_civil_text length_fmt0 nat_less_iff Second_def)

text \<open>
  The stable run key identifies the scheduled work: with the fixed-length, injective text form of
  UUIDs, two keys are equal exactly when trigger, subscription and both ends of the range are.
  Two different windows never share a key, and the same window found again always gets the same key.
\<close>
lemma StableRunKey_identifies_work:
  assumes "inj (UUID_String pf)" "\<And>i. length (UUID_String pf i) = 36"
    and "trigger = WindowTriggerClose \<or> trigger = WindowTriggerRevision" "trigger' = WindowTriggerClose \<or> trigger' = WindowTriggerRevision"
    and "printable_year start" "printable_year stop" "printable_year start'" "printable_year stop'"
  shows "StableRunKey pf trigger i start stop = StableRunKey pf trigger' j start' stop'
    \<longleftrightarrow> trigger = trigger' \<and> i = j \<and> start = start' \<and> stop = stop'"
proof -
  have fields: "UUID_String pf i @ ''.'' @ Format_compact start @ ''.'' @ Format_compact stop
      = UUID_String pf j @ ''.'' @ Format_compact start' @ ''.'' @ Format_compact stop'
    \<longleftrightarrow> i = j \<and> start = start' \<and> stop = stop'"
  proof -
    have "UUID_String pf i = UUID_String pf j \<longleftrightarrow> i = j" using assms(1) by (auto dest: injD)
    moreover have "Format_compact start = Format_compact start' \<longleftrightarrow> start = start'"
      "Format_compact stop = Format_compact stop' \<longleftrightarrow> stop = stop'"
      using Format_compact_inject assms(5-8) by blast+
    ultimately show ?thesis
      using assms(2,5-8) by (simp add: append_eq_append_conv length_Format_compact)
  qed
  from assms(3,4) show ?thesis
    by (elim disjE) (simp_all add: StableRunKey_def run_type_of_def fields [simplified])
qed

text \<open>A fixed-length text of identities, for the witnesses.\<close>

fun bytes_of :: "nat \<Rightarrow> nat \<Rightarrow> string" where
  "bytes_of 0 n = []"
| "bytes_of (Suc k) n = char_of (n mod 256) # bytes_of k (n div 256)"

lemma length_bytes_of [simp]: "length (bytes_of k n) = k"
  by (induction k n rule: bytes_of.induct) auto

lemma bytes_of_inject: "bytes_of k m = bytes_of k n \<Longrightarrow> m < 256 ^ k \<Longrightarrow> n < 256 ^ k \<Longrightarrow> m = n"
proof (induction k arbitrary: m n)
  case (Suc k)
  from Suc.prems(1) have "(of_char (char_of (m mod 256) :: char) :: nat) = of_char (char_of (n mod 256) :: char)"
    "bytes_of k (m div 256) = bytes_of k (n div 256)" by simp_all
  then have "m mod 256 = n mod 256" by simp
  moreover have "m div 256 = n div 256"
    using Suc.prems(2,3) Suc.IH [OF \<open>bytes_of k (m div 256) = bytes_of k (n div 256)\<close>]
    by (simp add: less_mult_imp_div_less mult.commute)
  ultimately show ?case by (metis div_mult_mod_eq)
qed simp

definition uuid_platform :: platform where
  "uuid_platform = sample_platform\<lparr>UUID_String := (\<lambda>i. bytes_of 36 (unat i))\<rparr>"

lemma uuid_platform_string:
  "inj (UUID_String uuid_platform)" "length (UUID_String uuid_platform i) = 36"
proof -
  have small: "unat (w :: 128 word) < 256 ^ 36" for w
  proof -
    have "unat w < 2 ^ LENGTH(128)" by (rule unsigned_less)
    then show ?thesis by simp
  qed
  show "inj (UUID_String uuid_platform)"
  proof (rule injI)
    fix x y assume "UUID_String uuid_platform x = UUID_String uuid_platform y"
    then have "unat x = unat y" using bytes_of_inject [OF _ small small, of x y] by (simp add: uuid_platform_def)
    then show "x = y" by (rule unsigned_word_eqI)
  qed
qed (simp add: uuid_platform_def)

lemma StableRunKey_identifies_work_witness:
  "StableRunKey uuid_platform WindowTriggerClose 5 (63918423000 * Second) (63918426600 * Second)
     \<noteq> StableRunKey uuid_platform WindowTriggerRevision 5 (63918423000 * Second) (63918426600 * Second)"
proof -
  have "printable_year (63918423000 * Second)" "printable_year (63918426600 * Second)" by code_simp+
  then show ?thesis
    using StableRunKey_identifies_work [OF uuid_platform_string, of WindowTriggerClose WindowTriggerRevision] by blast
qed

subsection \<open>Scans\<close>

text \<open>
  Whatever the scheduler plans can be scheduled: a window of a valid target, planned for either
  trigger on either kind of market, always becomes a batch that passes the batch contract, with
  exactly the window's range, as soon as two valid identities can be drawn. So a scan is never
  stopped by a window it computed itself.
\<close>
lemma planned_windows_make_batches:
  assumes "exchange_location loc" "load ''America/New_York'' = Inr loc" "NewNYSECalendar load overrides = Inr c"
    and "\<And>t. offset_at loc t \<le> 0"
    and "NewIncrementalScheduler config store newID (NYSE_TradingCalendar (Some c)) = Inr sched"
    and "SchedulingTarget_Validate target = None" "now \<noteq> 0" "0 \<le> delay"
    and "trigger = WindowTriggerClose \<or> trigger = WindowTriggerRevision"
    and "trigger_windows sched target trigger delay now s = Some (Inr ws, s')" "w \<in> set ws"
    and "newID n = Inr runID" "newID (n + 1) = Inr taskID"
    and "validScheduledID pf runID" "validScheduledID pf taskID" "runID \<noteq> taskID"
  shows "\<exists>batch. newBatch pf sched n target w now = Inr batch \<and> ScheduledBatch_Validate pf batch = None
     \<and> task_RangeStart (sb_Task batch) = cw_RangeStart w \<and> task_RangeEnd (sb_Task batch) = cw_RangeEnd w
     \<and> cw_RangeStart w < cw_RangeEnd w \<and> cw_RangeEnd w + delay \<le> now"
proof -
  from assms(5) have sc: "sch_usCalendar sched = NYSE_TradingCalendar (Some c)" "1 \<le> sch_maximumAttempts sched" "sch_newID sched = newID"
    by (auto simp: NewIncrementalScheduler_def Let_def split: if_splits)
  have us: "us_calendar (sch_usCalendar sched)"
    unfolding sc us_calendar_def using NewNYSECalendar_contract [OF assms(1-3)] assms(4) by blast
  obtain interval where i: "ParseBarInterval (sub_Interval (st_Subscription target)) = Inr interval"
    using assms(6) by (auto simp: SchedulingTarget_Validate_def Let_def ParseBarInterval_Inr_iff)
  from trigger_windows_planned [OF us assms(10,11) i] have p: "planned now delay trigger w" .
  from newBatch_planned [OF p assms(9,8,6) sc(2) assms(7) _ _ assms(14-16), of n] assms(12,13) sc(3) p show ?thesis
    by (auto simp: planned_def)
qed

lemma New_York_west: "offset_at New_York t \<le> 0"
  by (simp add: offset_at_def New_York_offset split: if_splits)

definition sample_target :: SchedulingTarget where
  "sample_target = \<lparr>st_Subscription = \<lparr>sub_ID = 5, sub_ProviderInstrumentID = 41, sub_Interval = BarInterval1Hour,
       sub_Enabled = True, sub_Priority = 0, sub_CloseDelaySeconds = 60, sub_RevisionDelaySeconds = None,
       sub_Metadata = emptyJSONObject, sub_CreatedAt = 63918360000 * Second, sub_UpdatedAt = 63918360000 * Second\<rparr>,
     st_ProviderCode = ''longbridge'', st_ProviderMarket = ''us'', st_InstrumentCode = ''instrument.spy'',
     st_AssetType = ''ETF'', st_InstrumentType = ''ETF'',
     st_Capabilities = \<lparr>cap_Quote = True, cap_Historical = True, cap_Intervals = [BarInterval1Hour]\<rparr>\<rparr>"

text \<open>A store that keeps the batches it is given, and lists one target.\<close>

definition list_store :: "ScheduledBatch list IncrementalStore" where
  "list_store = \<lparr>ListSchedulingTargets = (\<lambda>after limit now s. (Inr \<lparr>stp_Items = [sample_target], stp_NextAfterID = None\<rparr>, s)),
     LoadSchedulingCheckpoint = (\<lambda>i s. (Inr None, s)), ListClosedBarOpenTimes = (\<lambda>t a b s. (Inr [], s)),
     CreateScheduledBatch = (\<lambda>b s. if run_RunKey (sb_Run b) \<in> set (map (run_RunKey \<circ> sb_Run) s) then (Inr False, s) else (Inr True, b # s)),
     RecoverExpiredTasks = (\<lambda>now s. (Inr 0, s))\<rparr>"

definition sample_sched :: "ScheduledBatch list IncrementalScheduler" where
  "sample_sched = \<lparr>sch_store = list_store, sch_newID = (\<lambda>n. Inr (word_of_nat (n + 100))), sch_usCalendar = nyse_port,
     sch_pageSize = 50, sch_maximumAttempts = 5, sch_maximumCatchUpBars = 500, sch_maximumCatchUpRuns = 20\<rparr>"

definition sample_group :: CollectionWindow where
  "sample_group = \<lparr>cw_Interval = BarInterval1Hour, cw_Trigger = WindowTriggerClose, cw_RangeStart = 63918423000 * Second,
     cw_RangeEnd = 63918430200 * Second, cw_EligibleAt = 63918430200 * Second + 60 * Second\<rparr>"

lemma sample_sched_new:
  "NewIncrementalScheduler \<lparr>ic_PageSize = 0, ic_MaximumAttempts = 0, ic_MaximumCatchUpBars = 0, ic_MaximumCatchUpRuns = 0\<rparr>
     list_store (\<lambda>n. Inr (word_of_nat (n + 100))) nyse_port = Inr sample_sched"
  by (simp add: NewIncrementalScheduler_def with_default_def sample_sched_def Let_def defaultSchedulingPageSize_def
      defaultSchedulingMaximumAttempts_def defaultMaximumCatchUpBars_def defaultMaximumCatchUpRuns_def
      maximumSchedulingPageSize_def maximumCatchUpBars_def maximumCatchUpRuns_def NYSE_TradingCalendar_def NYSE_Location_def
      NYSE_2026_2028_def)

lemma sample_trigger:
  "trigger_windows sample_sched sample_target WindowTriggerClose (60 * Second) (63918430300 * Second) [] = Some (Inr [sample_group], [])"
  by code_simp

lemma planned_windows_make_batches_witness:
  "\<exists>batch. newBatch uuid_platform sample_sched 0 sample_target sample_group (63918430300 * Second) = Inr batch
     \<and> ScheduledBatch_Validate uuid_platform batch = None \<and> task_RangeStart (sb_Task batch) = 63918423000 * Second"
proof -
  have v: "SchedulingTarget_Validate sample_target = None" by code_simp
  have ids: "validScheduledID uuid_platform 100" "validScheduledID uuid_platform 101"
    by (simp_all add: validScheduledID_def ID_IsZero_def uuid_platform_def sample_platform_def)
  have now: "63918430300 * Second \<noteq> 0" "0 \<le> 60 * Second" by (simp_all add: Second_def)
  have "\<exists>batch. newBatch uuid_platform sample_sched 0 sample_target sample_group (63918430300 * Second) = Inr batch
     \<and> ScheduledBatch_Validate uuid_platform batch = None
     \<and> task_RangeStart (sb_Task batch) = cw_RangeStart sample_group \<and> task_RangeEnd (sb_Task batch) = cw_RangeEnd sample_group
     \<and> cw_RangeStart sample_group < cw_RangeEnd sample_group \<and> cw_RangeEnd sample_group + 60 * Second \<le> 63918430300 * Second"
    by (rule planned_windows_make_batches [OF New_York_calendar(1) refl New_York_calendar(2) New_York_west sample_sched_new v
          now disjI1 [OF refl] sample_trigger _ _ _ ids]) simp_all
  then show ?thesis by (auto simp: sample_group_def)
qed

text \<open>The counters of a scan: every due window was either created or already there, and none is counted twice.\<close>

definition counted :: "IncrementalResult \<Rightarrow> bool" where
  "counted r \<longleftrightarrow> ir_CreatedRuns r + ir_ExistingRuns r = ir_DueWindows r"

definition counted_before_error :: "IncrementalResult \<Rightarrow> bool" where
  "counted_before_error r \<longleftrightarrow> ir_CreatedRuns r + ir_ExistingRuns r + 1 = ir_DueWindows r"

definition scan_ok :: "error option \<times> 's scan \<Rightarrow> bool" where
  "scan_ok outcome \<longleftrightarrow> counted (scan_result (snd outcome))
     \<or> fst outcome \<noteq> None \<and> counted_before_error (scan_result (snd outcome))"

lemma scan_windows_counted:
  "counted (scan_result sc) \<Longrightarrow> scan_ok (scan_windows pf sched target now ws sc)"
proof (induction pf sched target now ws sc rule: scan_windows.induct)
  case (2 pf sched target now w ws sc)
  show ?case
  proof (cases "newBatch pf sched (scan_drawn sc) target w now")
    case (Inl e)
    with 2(2) show ?thesis by (simp add: scan_ok_def counted_def counted_before_error_def Let_def)
  next
    case (Inr batch)
    obtain r s1 where c: "CreateScheduledBatch (sch_store sched) batch (scan_store sc) = (r, s1)" by force
    show ?thesis
    proof (cases r)
      case (Inl e)
      with 2(2) c \<open>newBatch pf sched (scan_drawn sc) target w now = Inr batch\<close> show ?thesis
        by (simp add: scan_ok_def counted_def counted_before_error_def Let_def)
    next
      case (Inr created)
      with 2(2) c \<open>newBatch pf sched (scan_drawn sc) target w now = Inr batch\<close>
        "2.IH" [OF refl refl \<open>newBatch pf sched (scan_drawn sc) target w now = Inr batch\<close> c [symmetric]]
      show ?thesis by (cases created) (simp_all add: counted_def Let_def)
    qed
  qed
qed (simp add: scan_ok_def)

lemma scan_triggers_counted:
  "scan_triggers pf sched target policy now triggers sc = Some outcome \<Longrightarrow> counted (scan_result sc) \<Longrightarrow> scan_ok outcome"
proof (induction triggers arbitrary: sc)
  case Nil
  then show ?case by (auto simp: scan_ok_def)
next
  case (Cons trigger triggers)
  show ?case
  proof (cases "DelayPolicy_Delay policy trigger")
    case (Inl e)
    with Cons.prems show ?thesis by (auto simp: scan_ok_def)
  next
    case (Inr p)
    obtain delay enabled where p: "p = (delay, enabled)" by force
    show ?thesis
    proof (cases "enabled \<and> (\<exists>ws s1. trigger_windows sched target trigger delay now (scan_store sc) = Some (Inr ws, s1))")
      case False
      with Cons Inr p show ?thesis by (fastforce simp: scan_ok_def split: option.splits sum.splits if_splits)
    next
      case True
      then obtain ws s1 where t: "enabled" "trigger_windows sched target trigger delay now (scan_store sc) = Some (Inr ws, s1)" by blast
      obtain e sc1 where w: "scan_windows pf sched target now ws (sc\<lparr>scan_store := s1\<rparr>) = (e, sc1)" by force
      have ok: "scan_ok (e, sc1)"
        using scan_windows_counted [of "sc\<lparr>scan_store := s1\<rparr>" pf sched target now ws] Cons.prems(2) w by simp
      show ?thesis
      proof (cases e)
        case None
        with ok have "counted (scan_result sc1)" by (simp add: scan_ok_def)
        with Cons Inr p t w None show ?thesis by simp
      next
        case (Some x)
        with Cons.prems Inr p t w ok show ?thesis by simp
      qed
    qed
  qed
qed

lemma scan_target_counted:
  "scan_target pf sched now target sc = Some outcome \<Longrightarrow> counted (scan_result sc) \<Longrightarrow> scan_ok outcome"
proof -
  assume t: "scan_target pf sched now target sc = Some outcome" and c: "counted (scan_result sc)"
  let ?sc = "sc\<lparr>scan_result := (scan_result sc)\<lparr>ir_ScannedSubscriptions := ir_ScannedSubscriptions (scan_result sc) + 1\<rparr>\<rparr>"
  have c': "counted (scan_result ?sc)" using c by (simp add: counted_def)
  consider (err) e where "outcome = (Some e, ?sc)"
    | (run) policy where "scan_triggers pf sched target policy now [WindowTriggerClose, WindowTriggerRevision] ?sc = Some outcome"
    using t by (auto simp: scan_target_def Let_def simp del: scan_triggers.simps split: option.splits sum.splits)
  then show "scan_ok outcome"
  proof cases
    case err
    with c' show ?thesis by (simp add: scan_ok_def)
  next
    case run
    from scan_triggers_counted [OF run c'] show ?thesis .
  qed
qed

lemma scan_targets_counted:
  "scan_targets pf sched now ts sc = Some outcome \<Longrightarrow> counted (scan_result sc) \<Longrightarrow> scan_ok outcome"
proof (induction ts arbitrary: sc)
  case (Cons t ts)
  then obtain e sc1 where t: "scan_target pf sched now t sc = Some (e, sc1)" by (cases "scan_target pf sched now t sc") auto
  with Cons.prems scan_target_counted have ok: "scan_ok (e, sc1)" by blast
  with Cons t show ?case by (cases e) (auto simp: scan_ok_def)
qed (auto simp: scan_ok_def)

lemma scan_pages_step:
  assumes "ListSchedulingTargets (sch_store sched) after (sch_pageSize sched) now (scan_store sc) = (r, s1)"
  shows "scan_pages pf sched now after sc = (case r of
      Inl e \<Rightarrow> Some (Some e, sc\<lparr>scan_store := s1\<rparr>)
    | Inr page \<Rightarrow>
        if stp_Items page = [] \<and> stp_NextAfterID page \<noteq> None
        then Some (Some ErrInvalidData, sc\<lparr>scan_store := s1\<rparr>)
        else (case scan_targets pf sched now (stp_Items page) (sc\<lparr>scan_store := s1\<rparr>) of
                None \<Rightarrow> None
              | Some (Some e, sc1) \<Rightarrow> Some (Some e, sc1)
              | Some (None, sc1) \<Rightarrow>
                  (case stp_NextAfterID page of
                     None \<Rightarrow> Some (None, sc1)
                   | Some next \<Rightarrow>
                       if after = Some next
                         \<or> (stp_Items page \<noteq> [] \<and> next \<noteq> sub_ID (st_Subscription (last (stp_Items page))))
                       then Some (Some ErrInvalidData, sc1)
                       else scan_pages pf sched now (Some next) sc1)))"
  by (subst scan_pages.simps) (simp add: assms)

lemma scan_pages_counted:
  assumes "scan_pages pf sched now after sc = Some outcome" and "counted (scan_result sc)"
  shows "scan_ok outcome"
proof -
  have "counted (scan_result sc) \<longrightarrow> scan_ok outcome"
  proof (rule scan_pages.raw_induct [where P = "\<lambda>pf sched now after sc outcome. counted (scan_result sc) \<longrightarrow> scan_ok outcome",
        OF _ assms(1)])
    fix loop :: "platform \<Rightarrow> 'a IncrementalScheduler \<Rightarrow> time \<Rightarrow> ID option \<Rightarrow> 'a scan \<Rightarrow> (error option \<times> 'a scan) option"
      and pf :: platform and sched :: "'a IncrementalScheduler" and now after sc outcome
    assume ih: "\<And>pf sched now after sc outcome. loop pf sched now after sc = Some outcome \<Longrightarrow>
        counted (scan_result sc) \<longrightarrow> scan_ok outcome"
      and body: "(case ListSchedulingTargets (sch_store sched) after (sch_pageSize sched) now (scan_store sc) of
        (Inl e, s1) \<Rightarrow> Some (Some e, sc\<lparr>scan_store := s1\<rparr>)
      | (Inr page, s1) \<Rightarrow>
          if stp_Items page = [] \<and> stp_NextAfterID page \<noteq> None
          then Some (Some ErrInvalidData, sc\<lparr>scan_store := s1\<rparr>)
          else (case scan_targets pf sched now (stp_Items page) (sc\<lparr>scan_store := s1\<rparr>) of
                  None \<Rightarrow> None
                | Some (Some e, sc1) \<Rightarrow> Some (Some e, sc1)
                | Some (None, sc1) \<Rightarrow>
                    (case stp_NextAfterID page of
                       None \<Rightarrow> Some (None, sc1)
                     | Some next \<Rightarrow>
                         if after = Some next
                           \<or> (stp_Items page \<noteq> [] \<and> next \<noteq> sub_ID (st_Subscription (last (stp_Items page))))
                         then Some (Some ErrInvalidData, sc1)
                         else loop pf sched now (Some next) sc1))) = Some outcome"
    show "counted (scan_result sc) \<longrightarrow> scan_ok outcome"
    proof
      assume c: "counted (scan_result sc)"
      obtain r s1 where l: "ListSchedulingTargets (sch_store sched) after (sch_pageSize sched) now (scan_store sc) = (r, s1)" by force
      let ?sc = "sc\<lparr>scan_store := s1\<rparr>"
      consider (page) page e sc1 where "r = Inr page" "scan_targets pf sched now (stp_Items page) ?sc = Some (e, sc1)"
          "\<not> (stp_Items page = [] \<and> stp_NextAfterID page \<noteq> None)"
        | (stop) e where "outcome = (Some e, ?sc)"
        using body l by (auto split: sum.splits if_splits option.splits)
      then show "scan_ok outcome"
      proof cases
        case page
        from scan_targets_counted [OF page(2)] c have ok: "scan_ok (e, sc1)" by simp
        show ?thesis
        proof (cases e)
          case None
          with ok have c1: "counted (scan_result sc1)" by (simp add: scan_ok_def)
          have "outcome = (None, sc1) \<or> outcome = (Some ErrInvalidData, sc1) \<or> (\<exists>next. loop pf sched now (Some next) sc1 = Some outcome)"
            using body l page None by (auto split: option.splits if_splits)
          moreover have "scan_ok outcome" if "loop pf sched now (Some next) sc1 = Some outcome" for "next"
            using ih [OF that] c1 by blast
          ultimately show ?thesis using c1 by (auto simp: scan_ok_def)
        next
          case (Some x)
          with body l page ok show ?thesis by auto
        qed
      qed (use c in \<open>simp add: scan_ok_def\<close>)
    qed
  qed
  with assms(2) show ?thesis by blast
qed

text \<open>
  C21. The counters a scan reports add up, whatever the store does: when it ends without an error,
  every due window is counted as created or as already existing; when it ends with one, at most the
  window it was working on is missing.
\<close>
theorem RunOnce_counts:
  assumes "RunOnce pf sched now s = Some (e, r, s')"
  shows "ir_CreatedRuns r + ir_ExistingRuns r = ir_DueWindows r
    \<or> e \<noteq> None \<and> ir_CreatedRuns r + ir_ExistingRuns r + 1 = ir_DueWindows r"
proof (cases "\<exists>sc recovered s1. scan_pages pf sched now None
       \<lparr>scan_result = empty_result\<lparr>ir_RecoveredTasks := recovered\<rparr>, scan_store = s1, scan_drawn = 0\<rparr> = Some (e, sc)
       \<and> r = scan_result sc")
  case True
  then obtain sc recovered s1 where p: "scan_pages pf sched now None
       \<lparr>scan_result = empty_result\<lparr>ir_RecoveredTasks := recovered\<rparr>, scan_store = s1, scan_drawn = 0\<rparr> = Some (e, sc)"
       "r = scan_result sc" by blast
  have "scan_ok (e, sc)"
    using scan_pages_counted [OF p(1)] by (simp add: counted_def empty_result_def)
  with p(2) show ?thesis by (simp add: scan_ok_def counted_def counted_before_error_def)
next
  case False
  with assms have "r = empty_result"
    by (auto simp: RunOnce_def split: if_splits sum.splits option.splits prod.splits)
  then show ?thesis by (simp add: empty_result_def)
qed

declare scan_pages.simps [code]

text \<open>What the witness looks at of the outcome of a scan.\<close>

definition scan_summary :: "(error option \<times> IncrementalResult \<times> ScheduledBatch list) option \<Rightarrow> (error option \<times> int \<times> int \<times> int) option" where
  "scan_summary out = map_option (\<lambda>(e, r, s). (e, ir_DueWindows r, ir_CreatedRuns r, ir_ExistingRuns r)) out"

text \<open>A scan whose identity generator fails at its first window.\<close>

lemma RunOnce_counts_witness:
  "\<exists>r s'. RunOnce sample_platform (sample_sched\<lparr>sch_newID := (\<lambda>n. Inl ErrRetryable)\<rparr>) (63918430300 * Second) []
       = Some (Some ErrRetryable, r, s')
     \<and> ir_CreatedRuns r + ir_ExistingRuns r + 1 = ir_DueWindows r"
proof -
  have "scan_summary (RunOnce sample_platform (sample_sched\<lparr>sch_newID := (\<lambda>n. Inl ErrRetryable)\<rparr>) (63918430300 * Second) [])
      = Some (Some ErrRetryable, 1, 0, 0)"
    by code_simp
  then obtain r s' where r: "RunOnce sample_platform (sample_sched\<lparr>sch_newID := (\<lambda>n. Inl ErrRetryable)\<rparr>) (63918430300 * Second) []
       = Some (Some ErrRetryable, r, s')" "ir_DueWindows r = 1" "ir_CreatedRuns r = 0" "ir_ExistingRuns r = 0"
    by (auto simp: scan_summary_def)
  with RunOnce_counts [OF r(1)] show ?thesis by auto
qed

subsection \<open>A scan ends\<close>

text \<open>
  What a scan relies on to end: each page's cursor lies after the one before. Identities are 128-bit
  numbers, so a cursor can advance only finitely often.
\<close>

locale paging =
  fixes store :: "'s IncrementalStore"
  assumes cursor_advances: "ListSchedulingTargets store after limit now s = (Inr page, s') \<Longrightarrow>
     stp_NextAfterID page = Some next \<Longrightarrow> after = Some a \<Longrightarrow> a < next"
begin

definition remaining :: "ID option \<Rightarrow> nat" where
  "remaining after = (case after of None \<Rightarrow> 2 ^ 128 + 1 | Some a \<Rightarrow> 2 ^ 128 - unat a)"

lemma remaining_decreases:
  assumes "after = None \<or> (\<exists>a. after = Some a \<and> a < next)"
  shows "remaining (Some next) < remaining after"
proof -
  have "unat next < 2 ^ LENGTH(128)" by (rule unsigned_less)
  then have "unat next < 2 ^ 128" by simp
  then show ?thesis using assms by (auto simp: remaining_def word_less_nat_alt)
qed

lemma scan_pages_return:
  assumes "sch_store sched = store"
    and targets: "\<And>ts sc. scan_targets pf sched now ts sc \<noteq> None"
  shows "scan_pages pf sched now after sc \<noteq> None"
proof (induction "remaining after" arbitrary: after sc rule: less_induct)
  case less
  obtain r s1 where l: "ListSchedulingTargets (sch_store sched) after (sch_pageSize sched) now (scan_store sc) = (r, s1)" by force
  have rec: "scan_pages pf sched now (Some next) sc1 \<noteq> None"
    if "r = Inr page" "stp_NextAfterID page = Some next" for page "next" sc1
  proof (rule less)
    show "remaining (Some next) < remaining after"
      using remaining_decreases cursor_advances [OF l [unfolded assms(1) that(1)] that(2)] by (cases after) auto
  qed
  show ?case
  proof (cases r)
    case (Inr page)
    obtain e sc1 where "scan_targets pf sched now (stp_Items page) (sc\<lparr>scan_store := s1\<rparr>) = Some (e, sc1)"
      using targets by (metis option.exhaust surj_pair)
    then show ?thesis
      unfolding scan_pages_step [OF l] using rec [OF Inr] Inr by (auto split: option.splits)
  qed (simp add: scan_pages_step [OF l])
qed

end

lemma latestWindow_returns:
  assumes "us_calendar (sch_usCalendar sched)" "SchedulingTarget_Validate target = None"
  shows "latestWindow sched target trigger delay now \<noteq> None"
proof -
  obtain interval where i: "ParseBarInterval (sub_Interval (st_Subscription target)) = Inr interval"
    using assms(2) by (auto simp: SchedulingTarget_Validate_def Let_def ParseBarInterval_Inr_iff)
  then have "sub_Interval (st_Subscription target) = interval" by (auto simp: ParseBarInterval_Inr_iff)
  moreover obtain d where d: "durationForInterval interval = Inr d"
    using i by (auto simp: durationForInterval_Inr_iff ParseBarInterval_Inr_iff)
  moreover from assms(1) obtain loc c where nc: "nyse_calendar loc c" "sch_usCalendar sched = NYSE_TradingCalendar (Some c)"
    by (auto simp: us_calendar_def)
  ultimately show ?thesis
    using trading_calendar.latest_us_window [OF nyse_calendar.contract [OF nc(1)] d, of trigger now delay]
    by (auto simp: latestWindow_def bind_run_None_iff nc(2))
qed

lemma scan_triggers_return:
  assumes "us_calendar (sch_usCalendar sched)" "SchedulingTarget_Validate target = None"
  shows "scan_triggers pf sched target policy now triggers sc \<noteq> None"
proof (induction triggers arbitrary: sc)
  case (Cons trigger triggers)
  have "trigger_windows sched target trigger delay now s \<noteq> None" for delay s
  proof -
    obtain x y where "latestWindow sched target WindowTriggerClose delay now = Some x"
      "latestWindow sched target trigger delay now = Some y"
      using latestWindow_returns [OF assms] by (metis option.exhaust)
    then show ?thesis by (auto simp: trigger_windows_def catchUpWindows_def split: option.splits sum.splits)
  qed
  with Cons show ?case
    by (auto simp del: not_None_eq split: sum.splits option.splits prod.splits if_splits)
qed simp

lemma scan_targets_return:
  assumes "us_calendar (sch_usCalendar sched)"
  shows "scan_targets pf sched now ts sc \<noteq> None"
proof (induction ts arbitrary: sc)
  case (Cons t ts)
  have "scan_target pf sched now t sc \<noteq> None"
    using scan_triggers_return [OF assms, of t pf]
    by (auto simp: scan_target_def Let_def simp del: scan_triggers.simps split: option.splits sum.splits)
  with Cons show ?case by (auto split: option.splits)
qed simp

context paging
begin

lemma RunOnce_returns:
  assumes "sch_store sched = store" "us_calendar (sch_usCalendar sched)"
  shows "RunOnce pf sched now s \<noteq> None"
proof -
  obtain r s1 where rec: "RecoverExpiredTasks (sch_store sched) now s = (r, s1)" by force
  have "scan_pages pf sched now None sc \<noteq> None" for sc
    by (rule scan_pages_return [OF assms(1) scan_targets_return [OF assms(2)]])
  then show ?thesis
    by (cases r) (auto simp: RunOnce_def rec simp del: not_None_eq split: option.splits)
qed

end

end
