(* ===== verification/Database.thy ===== *)
theory Database
  imports Scheduler
begin

text \<open>
  The durable state and the shape of a PostgreSQL transaction: repository/postgres/errors.go,
  value.go and the constraints of database/migrations/sql/00003 and 00004. \<open>DB\<close> holds the tables the
  repositories use, one list per table (its order stands for the server's scan order where a query
  has none; deletions do not occur). A value goes into a \<^verbatim>\<open>timestamptz\<close> column with the microsecond precision of the type.

  \<open>faults\<close> are the failures of the driver during an operation: \<open>fault_at n\<close> that of its n-th call, and
  \<open>fault_commit\<close> that of the commit, with whether the server had applied the transaction all the same.
\<close>

subsection \<open>Driver errors (errors.go)\<close>

datatype driver_error =
    NoRows
  | SafeToRetry error
  | NetworkError error
  | PgError string string \<comment> \<open>SQLSTATE, constraint name\<close>
  | OtherError error

fun driver_value :: "driver_error \<Rightarrow> error" where
  "driver_value NoRows = ErrPlain ''no rows in result set''"
| "driver_value (SafeToRetry e) = e"
| "driver_value (NetworkError e) = e"
| "driver_value (PgError code constraint) = ErrPlain code"
| "driver_value (OtherError e) = e"

definition MapError :: "driver_error \<Rightarrow> error" where
  "MapError err = (case err of
     NoRows \<Rightarrow> ErrJoin ErrNotFound (driver_value err)
   | SafeToRetry _ \<Rightarrow> ErrJoin ErrRetryable (driver_value err)
   | NetworkError _ \<Rightarrow> ErrJoin ErrDatabaseUnavailable (driver_value err)
   | PgError code _ \<Rightarrow>
       if code = ''23505'' then ErrJoin ErrConflict (driver_value err)
       else if code = ''23503'' then ErrJoin ErrReferenceViolation (driver_value err)
       else if code \<in> set [''23514'', ''22001'', ''22003'', ''22007'', ''22P02''] then ErrJoin ErrInvalidData (driver_value err)
       else if code \<in> set [''40001'', ''40P01''] then ErrJoin ErrRetryable (driver_value err)
       else if take 2 code = ''08'' then ErrJoin ErrDatabaseUnavailable (driver_value err)
       else driver_value err
   | OtherError e \<Rightarrow> e)"

subsection \<open>Column values (value.go)\<close>

definition TimeToDatabase :: "time \<Rightarrow> time" where
  "TimeToDatabase t = t"

text \<open>The value a \<^verbatim>\<open>timestamptz\<close> column or parameter holds: whole microseconds.\<close>

definition timestamptz :: "time \<Rightarrow> time" where
  "timestamptz t = TimeToDatabase t div 1000 * 1000"

definition jsonValue :: "RawMessage \<Rightarrow> RawMessage" where
  "jsonValue raw = (if raw = RawEmpty then emptyJSONObject else raw)"

definition nullableString :: "string \<Rightarrow> string option" where
  "nullableString text = (if text = [] then None else Some text)"

definition varchar_ok :: "int \<Rightarrow> string \<Rightarrow> bool" where
  "varchar_ok n text \<longleftrightarrow> RuneCountInString text \<le> n"

definition opt_all :: "('a \<Rightarrow> bool) \<Rightarrow> 'a option \<Rightarrow> bool" where
  "opt_all P v = (case v of None \<Rightarrow> True | Some x \<Rightarrow> P x)"

definition int4_ok :: "int \<Rightarrow> bool" where
  "int4_ok n \<longleftrightarrow> - (2 ^ 31) \<le> n \<and> n < 2 ^ 31"

lemma timestamptz_le: "timestamptz t \<le> t"
  by (simp add: timestamptz_def TimeToDatabase_def)

lemma timestamptz_mono: "s \<le> t \<Longrightarrow> timestamptz s \<le> timestamptz t"
  by (simp add: timestamptz_def TimeToDatabase_def zdiv_mono1)

lemma timestamptz_idem [simp]: "timestamptz (timestamptz t) = timestamptz t"
  by (simp add: timestamptz_def TimeToDatabase_def)

lemma timestamptz_id: "1000 dvd t \<Longrightarrow> timestamptz t = t"
  by (simp add: timestamptz_def TimeToDatabase_def)

subsection \<open>Tables\<close>

record DB =
  db_assets :: "Asset list"
  db_instruments :: "Instrument list"
  db_providers :: "Provider list"
  db_mappings :: "ProviderInstrument list"
  db_subs :: "CollectionSubscription list"
  db_runs :: "IngestionRun list"
  db_tasks :: "IngestionTask list"
  db_checkpoints :: "ID \<rightharpoonup> IngestionCheckpoint"
  db_bars :: "Bar list"
  db_quotes :: "ID \<times> ID \<rightharpoonup> Quote"
  db_issues :: "DataQualityIssue list"

text \<open>\<^verbatim>\<open>SELECT ... WHERE key = i\<close> on a unique key: the row, or the driver's no-rows error.\<close>

definition select_by :: "('a \<Rightarrow> 'k) \<Rightarrow> 'k \<Rightarrow> 'a list \<Rightarrow> driver_error + 'a" where
  "select_by key i rows = (case find (\<lambda>r. key r = i) rows of None \<Rightarrow> Inl NoRows | Some r \<Rightarrow> Inr r)"

text \<open>\<^verbatim>\<open>ORDER BY\<close>: \<open>before x y\<close> puts \<open>x\<close> before \<open>y\<close>; rows that are not ordered keep the scan order. Text compares by bytes.\<close>

fun insert_by :: "('a \<Rightarrow> 'a \<Rightarrow> bool) \<Rightarrow> 'a \<Rightarrow> 'a list \<Rightarrow> 'a list" where
  "insert_by before x [] = [x]"
| "insert_by before x (y # ys) = (if before y x then y # insert_by before x ys else x # y # ys)"

definition order_by :: "('a \<Rightarrow> 'a \<Rightarrow> bool) \<Rightarrow> 'a list \<Rightarrow> 'a list" where
  "order_by before rows = foldr (insert_by before) rows []"

definition text_before :: "string \<Rightarrow> string \<Rightarrow> bool" where
  "text_before v w \<longleftrightarrow> ord_class.lexordp (map of_char v :: nat list) (map of_char w)"

lemma set_insert_by [simp]: "set (insert_by before x rows) = insert x (set rows)"
  by (induction rows) auto

lemma set_order_by [simp]: "set (order_by before rows) = set rows"
  by (induction rows) (auto simp: order_by_def)

lemma length_insert_by [simp]: "length (insert_by before x rows) = Suc (length rows)"
  by (induction rows) auto

lemma length_order_by [simp]: "length (order_by before rows) = length rows"
  by (induction rows) (auto simp: order_by_def)

text \<open>\<^verbatim>\<open>UPDATE ... WHERE\<close>, and the number of rows it affects.\<close>

definition update_where :: "('a \<Rightarrow> bool) \<Rightarrow> ('a \<Rightarrow> 'a) \<Rightarrow> 'a list \<Rightarrow> 'a list" where
  "update_where P u rows = map (\<lambda>r. if P r then u r else r) rows"

definition rows_where :: "('a \<Rightarrow> bool) \<Rightarrow> 'a list \<Rightarrow> int" where
  "rows_where P rows = int (length (filter P rows))"

lemma update_where_set: "x \<in> set (update_where P u rows) \<longleftrightarrow> (\<exists>r \<in> set rows. x = (if P r then u r else r))"
  by (auto simp: update_where_def)

lemma update_where_keys:
  assumes "\<And>r. key (u r) = key r" shows "map key (update_where P u rows) = map key rows"
  using assms by (simp add: update_where_def)

lemma rows_where_pos: "rows_where P rows = 1 \<Longrightarrow> \<exists>r \<in> set rows. P r"
  by (cases "filter P rows") (auto simp: rows_where_def filter_eq_Cons_iff)

lemma rows_where_key:
  assumes "distinct (map key rows)" and "\<And>r. P r \<Longrightarrow> key r = i" and "r \<in> set rows" "P r"
  shows "rows_where P rows = 1"
  using assms
proof (induction rows)
  case (Cons x xs)
  show ?case
  proof (cases "P x")
    case True
    then have "filter P xs = []" using Cons.prems by (auto simp: filter_empty_conv image_iff)
    with True show ?thesis by (simp add: rows_where_def)
  next
    case False
    with Cons show ?thesis by (auto simp: rows_where_def)
  qed
qed simp

lemma select_by_Inr: "select_by key i rows = Inr r \<Longrightarrow> r \<in> set rows \<and> key r = i"
  by (auto simp: select_by_def find_Some_iff in_set_conv_nth split: option.splits)

lemma select_by_Inl: "select_by key i rows = Inl e \<longleftrightarrow> e = NoRows \<and> (\<forall>r \<in> set rows. key r \<noteq> i)"
proof (cases "find (\<lambda>r. key r = i) rows")
  case None
  moreover from None have "\<forall>r \<in> set rows. key r \<noteq> i" by (simp add: find_None_iff)
  ultimately show ?thesis by (auto simp: select_by_def)
next
  case (Some r)
  then have "r \<in> set rows \<and> key r = i" by (auto simp: find_Some_iff in_set_conv_nth)
  with Some show ?thesis by (auto simp: select_by_def)
qed

lemma select_by_unique:
  assumes "distinct (map key rows)" "r \<in> set rows" "key r = i"
  shows "select_by key i rows = Inr r"
  using assms by (induction rows) (auto simp: select_by_def image_iff)

subsection \<open>Transactions\<close>

record faults =
  fault_at :: "nat \<Rightarrow> driver_error option"
  fault_commit :: "(driver_error \<times> bool) option"

definition no_faults :: faults where
  "no_faults = \<lparr>fault_at = (\<lambda>_. None), fault_commit = None\<rparr>"

type_synonym 'a tx = "DB \<Rightarrow> 'a result \<times> DB"

text \<open>The n-th call of an operation: the driver's failure if there is one, else the statement's outcome.\<close>

definition call :: "faults \<Rightarrow> nat \<Rightarrow> (driver_error \<Rightarrow> error) \<Rightarrow> (DB \<Rightarrow> (driver_error + 'a) \<times> DB) \<Rightarrow> 'a tx" where
  "call f n map_err statement s =
     (case fault_at f n of
        Some e \<Rightarrow> (Inl (map_err e), s)
      | None \<Rightarrow> (case statement s of (Inl e, _) \<Rightarrow> (Inl (map_err e), s) | (Inr v, s') \<Rightarrow> (Inr v, s')))"

text \<open>
  A row query whose no-rows error the caller takes as an absent row; no-rows is an answer, never a
  failure of the driver.
\<close>

definition call_optional :: "faults \<Rightarrow> nat \<Rightarrow> (driver_error \<Rightarrow> error) \<Rightarrow> (DB \<Rightarrow> driver_error + 'a) \<Rightarrow> 'a option tx" where
  "call_optional f n map_err query s =
     (case fault_at f n of
        Some e \<Rightarrow> (Inl (map_err e), s)
      | None \<Rightarrow>
        (case query s of
           Inl NoRows \<Rightarrow> (Inr None, s)
         | Inl e \<Rightarrow> (Inl (map_err e), s)
         | Inr v \<Rightarrow> (Inr (Some v), s)))"

text \<open>A statement outside a transaction: it commits by itself, and its answer may get lost.\<close>

definition autocommit :: "faults \<Rightarrow> (DB \<Rightarrow> (driver_error + 'a) \<times> DB) \<Rightarrow> DB \<Rightarrow> (driver_error + 'a) \<times> DB" where
  "autocommit f statement s =
     (case fault_at f 0 of
        Some e \<Rightarrow> (Inl e, s)
      | None \<Rightarrow>
        (case statement s of
           (Inl e, _) \<Rightarrow> (Inl e, s)
         | (Inr v, s') \<Rightarrow>
             (case fault_commit f of
                None \<Rightarrow> (Inr v, s')
              | Some (e, applied) \<Rightarrow> (Inl e, if applied then s' else s))))"

definition map_errors :: "(driver_error + 'a) \<times> DB \<Rightarrow> 'a result \<times> DB" where
  "map_errors r = (case r of (Inl e, s) \<Rightarrow> (Inl (MapError e), s) | (Inr v, s) \<Rightarrow> (Inr v, s))"

definition reading :: "(DB \<Rightarrow> driver_error + 'a) \<Rightarrow> DB \<Rightarrow> (driver_error + 'a) \<times> DB" where
  "reading query s = (query s, s)"

definition tx_bind :: "'a tx \<Rightarrow> ('a \<Rightarrow> 'b tx) \<Rightarrow> 'b tx" where
  "tx_bind m g s = (case m s of (Inl e, s') \<Rightarrow> (Inl e, s') | (Inr v, s') \<Rightarrow> g v s')"

definition tx_check :: "error option \<Rightarrow> unit tx" where
  "tx_check c s = (case c of None \<Rightarrow> (Inr (), s) | Some e \<Rightarrow> (Inl e, s))"

definition tx_fail :: "error \<Rightarrow> 'a tx" where
  "tx_fail e s = (Inl e, s)"

definition tx_return :: "'a \<Rightarrow> 'a tx" where
  "tx_return v s = (Inr v, s)"

text \<open>
  A transaction: \<^verbatim>\<open>Begin\<close> (call 0), the body, and the commit when \<open>commits v\<close>; otherwise, and after an
  error, the deferred rollback restores the state.
\<close>

definition transaction_if :: "faults \<Rightarrow> ('a \<Rightarrow> bool) \<Rightarrow> 'a tx \<Rightarrow> 'a tx" where
  "transaction_if f commits body s =
     (case fault_at f 0 of
        Some e \<Rightarrow> (Inl (MapError e), s)
      | None \<Rightarrow>
        (case body s of
           (Inl e, _) \<Rightarrow> (Inl e, s)
         | (Inr v, s') \<Rightarrow>
             if \<not> commits v then (Inr v, s)
             else (case fault_commit f of
                     None \<Rightarrow> (Inr v, s')
                   | Some (e, applied) \<Rightarrow> (Inl (MapError e), if applied then s' else s))))"

definition transaction :: "faults \<Rightarrow> 'a tx \<Rightarrow> 'a tx" where
  "transaction f body = transaction_if f (\<lambda>_. True) body"

text \<open>
  Atomicity: whatever fails, the state is either untouched or the one the complete body leaves.
\<close>

lemma transaction_if_atomic:
  assumes "transaction_if f commits body s = (r, s')"
  shows "s' = s \<or> (\<exists>v. body s = (Inr v, s'))"
  using assms by (auto simp: transaction_if_def split: option.splits prod.splits sum.splits if_splits)

lemma transaction_if_Inr:
  assumes "transaction_if f commits body s = (Inr v, s')"
  shows "(commits v \<and> body s = (Inr v, s')) \<or> (\<not> commits v \<and> s' = s \<and> fst (body s) = Inr v)"
  using assms by (auto simp: transaction_if_def split: option.splits prod.splits sum.splits if_splits)

lemma transaction_atomic: "transaction f body s = (r, s') \<Longrightarrow> s' = s \<or> (\<exists>v. body s = (Inr v, s'))"
  unfolding transaction_def by (rule transaction_if_atomic)

lemma transaction_Inr: "transaction f body s = (Inr v, s') \<Longrightarrow> body s = (Inr v, s')"
  unfolding transaction_def by (drule transaction_if_Inr) simp

lemma transaction_no_faults: "transaction no_faults body s = (case body s of (Inl e, _) \<Rightarrow> (Inl e, s) | (Inr v, s') \<Rightarrow> (Inr v, s'))"
  by (auto simp: transaction_def transaction_if_def no_faults_def split: prod.splits sum.splits)

lemma transaction_Inl:
  assumes "transaction f body s = (Inl e, s')" "fault_at f 0 = None" "fault_commit f = None"
  shows "\<exists>s''. body s = (Inl e, s'') \<and> s' = s"
  using assms by (auto simp: transaction_def transaction_if_def split: prod.splits sum.splits)

lemma call_Inr: "call f n me st s = (Inr v, s') \<Longrightarrow> st s = (Inr v, s') \<and> fault_at f n = None"
  by (auto simp: call_def split: option.splits prod.splits sum.splits)

lemma tx_bind_Inr: "tx_bind m g s = (Inr v, s') \<Longrightarrow> \<exists>w s1. m s = (Inr w, s1) \<and> g w s1 = (Inr v, s')"
  by (auto simp: tx_bind_def split: prod.splits sum.splits)

lemma tx_bind_step: "m s = (Inr w, s1) \<Longrightarrow> tx_bind m g s = g w s1"
  by (simp add: tx_bind_def)

lemma tx_check_Inr: "tx_check c s = (Inr v, s') \<longleftrightarrow> c = None \<and> s' = s"
  by (auto simp: tx_check_def split: option.splits)

lemma call_optional_Inr:
  "call_optional f n me q s = (Inr v, s') \<Longrightarrow> s' = s \<and> (case v of None \<Rightarrow> q s = Inl NoRows | Some r \<Rightarrow> q s = Inr r)"
  by (auto simp: call_optional_def split: option.splits sum.splits driver_error.splits)

lemma call_state: "call f n me (reading q) s = (r, s') \<Longrightarrow> s' = s"
  by (auto simp: call_def reading_def split: option.splits sum.splits)

lemma autocommit_atomic: "autocommit f st s = (r, s') \<Longrightarrow> s' = s \<or> (\<exists>v. st s = (Inr v, s'))"
  by (auto simp: autocommit_def split: option.splits prod.splits sum.splits if_splits)

lemma autocommit_Inr: "autocommit f st s = (Inr v, s') \<Longrightarrow> st s = (Inr v, s')"
  by (auto simp: autocommit_def split: option.splits prod.splits sum.splits)

lemma map_errors_state: "map_errors (r, s) = (r', s') \<Longrightarrow> s' = s"
  by (cases r) (auto simp: map_errors_def)

lemma map_errors_Inr: "map_errors r = (Inr v, s') \<longleftrightarrow> r = (Inr v, s')"
  by (cases r; cases "fst r") (auto simp: map_errors_def)

declare call_def [code_unfold] reading_def [code_unfold] tx_bind_def [code_unfold] tx_check_def [code_unfold]
  tx_return_def [code_unfold] tx_fail_def [code_unfold] call_optional_def [code_unfold] map_errors_def [code_unfold]

end
