(* ===== verification/TaskTables.thy ===== *)
theory TaskTables
  imports Database
begin

text \<open>
  The PostgreSQL operations on runs and tasks that create, cancel and summarise them:
  repository/postgres/ingestion.go (CreateRunWithTask to SaveRunSummary) and manual_tasks.go. The
  statements check what the columns and constraints of migration 00004 check, in the server's order:
  parameter encoding, column types, \<^verbatim>\<open>CHECK\<close>, unique indexes, foreign keys.
\<close>

subsection \<open>Rows\<close>

definition optional_timestamptz :: "time option \<Rightarrow> time option" where
  "optional_timestamptz t = map_option timestamptz t"

text \<open>The row \<^verbatim>\<open>runArguments\<close> and the literals of the statement give: one task, none finished.\<close>

definition runArguments :: "IngestionRun \<Rightarrow> IngestionRun" where
  "runArguments run = run
     \<lparr>run_ScheduledAt := optional_timestamptz (run_ScheduledAt run),
      run_StartedAt := optional_timestamptz (run_StartedAt run),
      run_FinishedAt := optional_timestamptz (run_FinishedAt run),
      run_TaskCount := 1, run_SuccessCount := 0, run_FailedCount := 0,
      run_Context := jsonValue (run_Context run), run_ErrorSummary := jsonValue (run_ErrorSummary run),
      run_CreatedAt := timestamptz (run_CreatedAt run)\<rparr>"

definition taskArguments :: "IngestionTask \<Rightarrow> IngestionTask" where
  "taskArguments task = task
     \<lparr>task_RangeStart := timestamptz (task_RangeStart task), task_RangeEnd := timestamptz (task_RangeEnd task),
      task_NextAttemptAt := optional_timestamptz (task_NextAttemptAt task),
      task_LockedUntil := optional_timestamptz (task_LockedUntil task),
      task_StartedAt := optional_timestamptz (task_StartedAt task),
      task_FinishedAt := optional_timestamptz (task_FinishedAt task),
      task_ErrorDetails := jsonValue (task_ErrorDetails task),
      task_CreatedAt := timestamptz (task_CreatedAt task), task_UpdatedAt := timestamptz (task_UpdatedAt task)\<rparr>"

definition active_statuses :: "string list" where
  "active_statuses = [st_pending, st_running, st_retry_wait]"

definition task_statuses :: "string list" where
  "task_statuses = [st_pending, st_running, st_retry_wait, st_success, st_failed, st_canceled]"

definition encode_int4 :: "int \<Rightarrow> driver_error option" where
  "encode_int4 n = (if int4_ok n then None else Some (OtherError (ErrPlain ''unable to encode int4'')))"

fun first_failure :: "driver_error option list \<Rightarrow> driver_error option" where
  "first_failure [] = None"
| "first_failure (Some e # _) = Some e"
| "first_failure (None # rest) = first_failure rest"

definition violates :: "bool \<Rightarrow> string \<Rightarrow> string \<Rightarrow> driver_error option" where
  "violates bad code constraint = (if bad then Some (PgError code constraint) else None)"

lemma first_failure_Cons_None [simp]: "first_failure (c # cs) = None \<longleftrightarrow> c = None \<and> first_failure cs = None"
  by (cases c) auto

lemma violates_None [simp]: "violates bad code constraint = None \<longleftrightarrow> \<not> bad"
  by (simp add: violates_def)

lemma encode_int4_None [simp]: "encode_int4 n = None \<longleftrightarrow> int4_ok n"
  by (simp add: encode_int4_def)

text \<open>What the server checks of a new row of \<^verbatim>\<open>ingestion_runs\<close>, the unique run key apart.\<close>

definition run_row_checks :: "IngestionRun \<Rightarrow> driver_error option" where
  "run_row_checks r = first_failure
     [violates (\<not> json_Valid (run_Context r) \<or> \<not> json_Valid (run_ErrorSummary r)) ''22P02'' '''',
      violates (\<not> varchar_ok 192 (run_RunKey r) \<or> \<not> varchar_ok 24 (run_RunType r) \<or> \<not> varchar_ok 16 (run_TriggerType r)
        \<or> \<not> varchar_ok 16 (run_Status r) \<or> \<not> opt_all (varchar_ok 128) (run_RequestedBy r)) ''22001'' '''',
      violates (run_RunType r \<notin> set [''incremental'', ''backfill'', ''repair'', ''revision'']) ''23514'' ''ck_ingestion_runs_type'',
      violates (run_TriggerType r \<notin> set [''scheduler'', ''manual'', ''recovery'']) ''23514'' ''ck_ingestion_runs_trigger'',
      violates (run_Status r \<notin> set [st_pending, st_running, st_partial, st_success, st_failed, st_canceled])
        ''23514'' ''ck_ingestion_runs_status'']"

definition run_id_taken :: "DB \<Rightarrow> IngestionRun \<Rightarrow> driver_error option" where
  "run_id_taken s r = violates (run_ID r \<in> set (map run_ID (db_runs s))) ''23505'' ''ingestion_runs_pkey''"

definition run_key_taken :: "DB \<Rightarrow> string \<Rightarrow> bool" where
  "run_key_taken s key \<longleftrightarrow> key \<in> set (map run_RunKey (db_runs s))"

definition insert_run :: "IngestionRun \<Rightarrow> DB \<Rightarrow> (driver_error + unit) \<times> DB" where
  "insert_run run s = (let r = runArguments run in
     case first_failure [run_row_checks r, run_id_taken s r,
            violates (run_key_taken s (run_RunKey r)) ''23505'' ''uq_ingestion_runs_key''] of
       Some e \<Rightarrow> (Inl e, s)
     | None \<Rightarrow> (Inr (), s\<lparr>db_runs := db_runs s @ [r]\<rparr>))"

text \<open>\<^verbatim>\<open>ON CONFLICT (run_key) DO NOTHING\<close>: whether a row was inserted.\<close>

definition insert_run_if_new :: "IngestionRun \<Rightarrow> DB \<Rightarrow> (driver_error + bool) \<times> DB" where
  "insert_run_if_new run s = (let r = runArguments run in
     case run_row_checks r of
       Some e \<Rightarrow> (Inl e, s)
     | None \<Rightarrow>
         if run_key_taken s (run_RunKey r) then (Inr False, s)
         else (case run_id_taken s r of
                 Some e \<Rightarrow> (Inl e, s)
               | None \<Rightarrow> (Inr True, s\<lparr>db_runs := db_runs s @ [r]\<rparr>)))"

definition task_row_checks :: "IngestionTask \<Rightarrow> driver_error option" where
  "task_row_checks t = first_failure
     [encode_int4 (task_AttemptCount t), encode_int4 (task_MaxAttempts t),
      violates (\<not> json_Valid (task_ErrorDetails t)) ''22P02'' '''',
      violates (\<not> varchar_ok 16 (task_Status t) \<or> \<not> opt_all (varchar_ok 128) (task_LockedBy t)
        \<or> \<not> opt_all (varchar_ok 128) (task_ProviderRequestID t) \<or> \<not> opt_all (varchar_ok 64) (task_ErrorCode t)
        \<or> \<not> opt_all (varchar_ok 128) (task_CanceledBy t)) ''22001'' '''',
      violates (\<not> task_RangeEnd t > task_RangeStart t) ''23514'' ''ck_ingestion_tasks_range'',
      violates (task_AttemptCount t < 0 \<or> task_MaxAttempts t \<le> 0) ''23514'' ''ck_ingestion_tasks_attempts'',
      violates (task_Status t \<notin> set task_statuses) ''23514'' ''ck_ingestion_tasks_status'']"

text \<open>The unique indexes and foreign keys of \<^verbatim>\<open>ingestion_tasks\<close>.\<close>

definition same_task_range :: "IngestionTask \<Rightarrow> IngestionTask \<Rightarrow> bool" where
  "same_task_range t u \<longleftrightarrow> task_RunID t = task_RunID u \<and> task_SubscriptionID t = task_SubscriptionID u
     \<and> task_RangeStart t = task_RangeStart u \<and> task_RangeEnd t = task_RangeEnd u"

definition active_retry_of :: "ID \<Rightarrow> IngestionTask \<Rightarrow> bool" where
  "active_retry_of i t \<longleftrightarrow> task_RetryOfTaskID t = Some i \<and> task_Status t \<in> set active_statuses"

definition task_references :: "DB \<Rightarrow> IngestionTask \<Rightarrow> driver_error option" where
  "task_references s t = first_failure
     [violates (task_ID t \<in> set (map task_ID (db_tasks s))) ''23505'' ''ingestion_tasks_pkey'',
      violates (\<exists>u \<in> set (db_tasks s). same_task_range t u) ''23505'' ''uq_ingestion_task_range'',
      violates (task_Status t \<in> set active_statuses
        \<and> (\<exists>u \<in> set (db_tasks s). \<exists>i \<in> set_option (task_RetryOfTaskID t). active_retry_of i u))
        ''23505'' ''uq_active_manual_retry'',
      violates (task_RunID t \<notin> set (map run_ID (db_runs s))) ''23503'' ''ingestion_tasks_run_id_fkey'',
      violates (task_SubscriptionID t \<notin> set (map sub_ID (db_subs s))) ''23503'' ''ingestion_tasks_subscription_id_fkey'',
      violates (\<not> opt_all (\<lambda>i. i \<in> set (map task_ID (db_tasks s))) (task_RetryOfTaskID t))
        ''23503'' ''ingestion_tasks_retry_of_task_id_fkey'']"

definition insert_task :: "IngestionTask \<Rightarrow> DB \<Rightarrow> (driver_error + unit) \<times> DB" where
  "insert_task task s = (let t = taskArguments task in
     case first_failure [task_row_checks t, task_references s t] of
       Some e \<Rightarrow> (Inl e, s)
     | None \<Rightarrow> (Inr (), s\<lparr>db_tasks := db_tasks s @ [t]\<rparr>))"

subsection \<open>Creation\<close>

definition CreateRunWithTask :: "faults \<Rightarrow> IngestionRun \<Rightarrow> IngestionTask \<Rightarrow> DB \<Rightarrow> unit result \<times> DB" where
  "CreateRunWithTask f run task s =
     (if ID_IsZero (run_ID run) \<or> ID_IsZero (task_ID task) \<or> task_RunID task \<noteq> run_ID run
         \<or> ID_IsZero (task_SubscriptionID task) \<or> \<not> task_RangeEnd task > task_RangeStart task
      then (Inl ErrInvalidData, s)
      else transaction f (tx_bind (call f 1 MapError (insert_run run)) (\<lambda>_. call f 2 MapError (insert_task task))) s)"

text \<open>The lock and check of the subscription: \<^verbatim>\<open>SELECT enabled ... FOR SHARE\<close>.\<close>

definition select_enabled :: "ID \<Rightarrow> DB \<Rightarrow> driver_error + bool" where
  "select_enabled i s = map_sum id sub_Enabled (select_by sub_ID i (db_subs s))"

definition require_enabled :: "faults \<Rightarrow> nat \<Rightarrow> ID \<Rightarrow> unit tx" where
  "require_enabled f n i =
     tx_bind (call f n MapError (reading (select_enabled i))) (\<lambda>enabled. tx_check (guard (\<not> enabled) ErrInvalidState))"

text \<open>The join of a run, found by its key, with its tasks.\<close>

definition tasks_of_key :: "string \<Rightarrow> DB \<Rightarrow> (IngestionRun \<times> IngestionTask) list" where
  "tasks_of_key key s = [(r, t). r \<leftarrow> db_runs s, run_RunKey r = key, t \<leftarrow> db_tasks s, task_RunID t = run_ID r]"

definition first_row :: "'a list \<Rightarrow> driver_error + 'a" where
  "first_row rows = (case rows of [] \<Rightarrow> Inl NoRows | r # _ \<Rightarrow> Inr r)"

definition equivalent_query :: "ScheduledBatch \<Rightarrow> DB \<Rightarrow> driver_error + bool" where
  "equivalent_query batch s = (let rows = tasks_of_key (run_RunKey (sb_Run batch)) s in
     case first_row rows of
       Inl e \<Rightarrow> Inl e
     | Inr (r, t) \<Rightarrow>
         (case run_ScheduledAt r of
            None \<Rightarrow> Inl (OtherError (ErrPlain ''cannot scan NULL into time.Time''))
          | Some scheduledAt \<Rightarrow>
              Inr (length rows = 1 \<and> run_RunType r = run_RunType (sb_Run batch)
                \<and> run_TriggerType r = run_TriggerType (sb_Run batch)
                \<and> scheduledAt = TimeToDatabase (the (run_ScheduledAt (sb_Run batch)))
                \<and> task_SubscriptionID t = task_SubscriptionID (sb_Task batch)
                \<and> task_RangeStart t = TimeToDatabase (task_RangeStart (sb_Task batch))
                \<and> task_RangeEnd t = TimeToDatabase (task_RangeEnd (sb_Task batch)))))"

definition equivalentScheduledBatch :: "faults \<Rightarrow> nat \<Rightarrow> ScheduledBatch \<Rightarrow> bool tx" where
  "equivalentScheduledBatch f n batch = call f n MapError (reading (equivalent_query batch))"

text \<open>The transaction commits only when it has created the batch.\<close>

definition scheduled_batch_body :: "faults \<Rightarrow> ScheduledBatch \<Rightarrow> bool tx" where
  "scheduled_batch_body f batch =
     tx_bind (require_enabled f 1 (task_SubscriptionID (sb_Task batch))) (\<lambda>_.
     tx_bind (call f 2 MapError (insert_run_if_new (sb_Run batch))) (\<lambda>inserted.
       if \<not> inserted
       then tx_bind (equivalentScheduledBatch f 3 batch) (\<lambda>equivalent.
            tx_bind (tx_check (guard (\<not> equivalent) ErrConflict)) (\<lambda>_. tx_return False))
       else tx_bind (call f 3 MapError (insert_task (sb_Task batch))) (\<lambda>_. tx_return True)))"

definition db_CreateScheduledBatch :: "platform \<Rightarrow> faults \<Rightarrow> ScheduledBatch \<Rightarrow> DB \<Rightarrow> bool result \<times> DB" where
  "db_CreateScheduledBatch pf f batch s =
     (case ScheduledBatch_Validate pf batch of
        Some e \<Rightarrow> (Inl e, s)
      | None \<Rightarrow> transaction_if f id (scheduled_batch_body f batch) s)"
subsection \<open>Backfills\<close>

definition validateBackfillRunAndTask :: "platform \<Rightarrow> IngestionRun \<Rightarrow> IngestionTask \<Rightarrow> error option" where
  "validateBackfillRunAndTask pf run task = guard
     (ID_IsZero (run_ID run) \<or> ID_IsZero (task_ID task) \<or> UUID_Version pf (run_ID run) \<noteq> 7 \<or> UUID_Version pf (task_ID task) \<noteq> 7
      \<or> task_ID task = run_ID run \<or> task_RunID task \<noteq> run_ID run \<or> ID_IsZero (task_SubscriptionID task)
      \<or> run_RunKey run \<noteq> ''backfill.manual.'' @ UUID_String pf (run_ID run) \<or> run_RunType run \<noteq> ''backfill''
      \<or> run_TriggerType run \<noteq> ''manual'' \<or> run_Status run \<noteq> st_pending
      \<or> run_ScheduledAt run \<noteq> None \<or> run_StartedAt run \<noteq> None \<or> run_FinishedAt run \<noteq> None
      \<or> (case run_RequestedBy run of None \<Rightarrow> True
         | Some by \<Rightarrow> TrimSpace by \<noteq> by \<or> by = [] \<or> RuneCountInString by > 128)
      \<or> run_TaskCount run \<noteq> 1 \<or> run_SuccessCount run \<noteq> 0 \<or> run_FailedCount run \<noteq> 0 \<or> IsZero (run_CreatedAt run)
      \<or> task_Status task \<noteq> st_pending \<or> task_AttemptCount task \<noteq> 0 \<or> task_MaxAttempts task < 1
      \<or> \<not> task_RangeEnd task > task_RangeStart task \<or> task_RangeEnd task > run_CreatedAt run
      \<or> task_RetryOfTaskID task \<noteq> None \<or> task_NextAttemptAt task \<noteq> None \<or> task_LockedBy task \<noteq> None
      \<or> task_LockedUntil task \<noteq> None \<or> task_StartedAt task \<noteq> None \<or> task_FinishedAt task \<noteq> None
      \<or> task_ProviderRequestID task \<noteq> None \<or> task_ErrorCode task \<noteq> None \<or> task_ErrorMessage task \<noteq> None
      \<or> task_CanceledBy task \<noteq> None \<or> task_CancelReason task \<noteq> None
      \<or> task_CreatedAt task \<noteq> run_CreatedAt run \<or> task_UpdatedAt task \<noteq> run_CreatedAt run
      \<or> \<not> isJSONObject (run_Context run) \<or> \<not> isJSONObject (run_ErrorSummary run)
      \<or> \<not> isJSONObject (task_ErrorDetails task)) ErrInvalidData"

text \<open>The advisory lock serialises the transactions that hold the same key.\<close>

definition backfillRangeLockKey :: "platform \<Rightarrow> IngestionTask \<Rightarrow> string" where
  "backfillRangeLockKey pf task = UUID_String pf (task_SubscriptionID task)
     @ ''|'' @ Format_RFC3339Nano (TimeToDatabase (task_RangeStart task))
     @ ''|'' @ Format_RFC3339Nano (TimeToDatabase (task_RangeEnd task))"

definition advisory_lock :: "string \<Rightarrow> DB \<Rightarrow> driver_error + unit" where
  "advisory_lock key s = Inr ()"

definition run_type_is :: "DB \<Rightarrow> string \<Rightarrow> ID \<Rightarrow> bool" where
  "run_type_is s runType i \<longleftrightarrow> (\<exists>r \<in> set (db_runs s). run_ID r = i \<and> run_RunType r = runType)"

definition active_backfill :: "DB \<Rightarrow> ID \<Rightarrow> time \<Rightarrow> time \<Rightarrow> IngestionTask \<Rightarrow> bool" where
  "active_backfill s subscriptionID rangeStart rangeEnd t \<longleftrightarrow>
     task_SubscriptionID t = subscriptionID \<and> task_RangeStart t = timestamptz rangeStart
     \<and> task_RangeEnd t = timestamptz rangeEnd \<and> run_type_is s ''backfill'' (task_RunID t)
     \<and> task_Status t \<in> set active_statuses"

definition active_backfill_query :: "IngestionTask \<Rightarrow> DB \<Rightarrow> driver_error + ID" where
  "active_backfill_query task s = map_sum id task_ID (first_row
     (filter (active_backfill s (task_SubscriptionID task) (task_RangeStart task) (task_RangeEnd task)) (db_tasks s)))"

definition backfill_body :: "platform \<Rightarrow> faults \<Rightarrow> IngestionRun \<Rightarrow> IngestionTask \<Rightarrow> unit tx" where
  "backfill_body pf f run task =
     tx_bind (call f 1 MapError (reading (advisory_lock (backfillRangeLockKey pf task)))) (\<lambda>_.
     tx_bind (require_enabled f 2 (task_SubscriptionID task)) (\<lambda>_.
     tx_bind (call_optional f 3 MapError (active_backfill_query task)) (\<lambda>existing.
     tx_bind (tx_check (guard (existing \<noteq> None) ErrBackfillAlreadyRunning)) (\<lambda>_.
     tx_bind (call f 4 MapError (insert_run run)) (\<lambda>_.
       call f 5 MapError (insert_task task))))))"

definition db_CreateBackfillRunWithTask :: "platform \<Rightarrow> faults \<Rightarrow> IngestionRun \<Rightarrow> IngestionTask \<Rightarrow> DB \<Rightarrow> unit result \<times> DB" where
  "db_CreateBackfillRunWithTask pf f run task s =
     (case validateBackfillRunAndTask pf run task of
        Some e \<Rightarrow> (Inl e, s)
      | None \<Rightarrow> transaction f (backfill_body pf f run task) s)"

subsection \<open>Manual retries (manual_tasks.go)\<close>

definition validRepositoryAuditText :: "string \<Rightarrow> int \<Rightarrow> bool" where
  "validRepositoryAuditText text maximum \<longleftrightarrow>
     \<not> (text = [] \<or> text \<noteq> TrimSpace text \<or> RuneCountInString text > maximum) \<and> \<not> has_control text"

definition repository_validTaskOperationAudit :: "TaskOperationAudit \<Rightarrow> bool" where
  "repository_validTaskOperationAudit audit \<longleftrightarrow>
     validRepositoryAuditText (ta_RequestedBy audit) 128 \<and> validRepositoryAuditText (ta_RequestID audit) 128
     \<and> validRepositoryAuditText (ta_Reason audit) 512 \<and> (ta_ActorType audit = ''user'' \<or> ta_ActorType audit = ''service'')"

definition validateManualRetryCreation :: "ManualRetryCreation \<Rightarrow> error option" where
  "validateManualRetryCreation c = guard
     (ID_IsZero (mr_OriginalTaskID c) \<or> ID_IsZero (mr_RunID c) \<or> ID_IsZero (mr_TaskID c)
      \<or> mr_OriginalTaskID c = mr_RunID c \<or> mr_OriginalTaskID c = mr_TaskID c \<or> mr_RunID c = mr_TaskID c
      \<or> mr_MaximumAttempts c < 1 \<or> IsZero (mr_CreatedAt c) \<or> \<not> repository_validTaskOperationAudit (mr_Audit c)
      \<or> \<not> isJSONObject (mr_RunContext c)) ErrInvalidData"

definition valid_at :: "time option \<Rightarrow> time option \<Rightarrow> time \<Rightarrow> bool" where
  "valid_at validFrom validTo t \<longleftrightarrow> opt_all (\<lambda>a. a \<le> t) validFrom \<and> opt_all (\<lambda>b. b > t) validTo"

text \<open>The rows a subscription joins: its mapping, provider, instrument and asset.\<close>

record source_row =
  sr_Subscription :: CollectionSubscription
  sr_Mapping :: ProviderInstrument
  sr_Provider :: Provider
  sr_Instrument :: Instrument
  sr_Asset :: Asset

definition source_rows :: "DB \<Rightarrow> CollectionSubscription \<Rightarrow> source_row list" where
  "source_rows s sub = [\<lparr>sr_Subscription = sub, sr_Mapping = m, sr_Provider = p, sr_Instrument = i, sr_Asset = a\<rparr>.
     m \<leftarrow> db_mappings s, pi_ID m = sub_ProviderInstrumentID sub,
     p \<leftarrow> db_providers s, prov_ID p = pi_ProviderID m,
     i \<leftarrow> db_instruments s, inst_ID i = pi_InstrumentID m,
     a \<leftarrow> db_assets s, asset_ID a = inst_AssetID i]"

definition mapping_effective :: "source_row \<Rightarrow> time \<Rightarrow> bool" where
  "mapping_effective r t \<longleftrightarrow> pi_Enabled (sr_Mapping r) \<and> valid_at (pi_ValidFrom (sr_Mapping r)) (pi_ValidTo (sr_Mapping r)) t
     \<and> prov_Status (sr_Provider r) \<in> set [''active'', ''degraded'']
     \<and> inst_Status (sr_Instrument r) = ''active''
     \<and> valid_at (inst_ValidFrom (sr_Instrument r)) (inst_ValidTo (sr_Instrument r)) t"

definition source_available :: "source_row \<Rightarrow> time \<Rightarrow> bool" where
  "source_available r t \<longleftrightarrow> sub_Enabled (sr_Subscription r) \<and> mapping_effective r t
     \<and> cap_Historical (pi_Capabilities (sr_Mapping r))
     \<and> sub_Interval (sr_Subscription r) \<in> set (cap_Intervals (pi_Capabilities (sr_Mapping r)))
     \<and> asset_Status (sr_Asset r) = ''active''"

definition retry_source_query :: "ID \<Rightarrow> time \<Rightarrow> DB \<Rightarrow> driver_error + IngestionTask \<times> bool" where
  "retry_source_query i createdAt s = first_row
     [(t, source_available r (timestamptz createdAt)). t \<leftarrow> db_tasks s, task_ID t = i,
        sub \<leftarrow> db_subs s, sub_ID sub = task_SubscriptionID t, r \<leftarrow> source_rows s sub]"

definition retry_active_query :: "ID \<Rightarrow> DB \<Rightarrow> driver_error + bool" where
  "retry_active_query i s = Inr (\<exists>t \<in> set (db_tasks s). active_retry_of i t)"

definition repair_run :: "platform \<Rightarrow> ManualRetryCreation \<Rightarrow> IngestionRun" where
  "repair_run pf c = pending_run (mr_RunID c) (''repair.manual.'' @ UUID_String pf (mr_RunID c)) ''repair'' ''manual'' None
     (Some (ta_RequestedBy (mr_Audit c))) (mr_RunContext c) (mr_CreatedAt c)"

definition repair_task :: "ManualRetryCreation \<Rightarrow> IngestionTask \<Rightarrow> IngestionTask" where
  "repair_task c original = pending_task (mr_TaskID c) (mr_RunID c) (task_SubscriptionID original)
     (Some (mr_OriginalTaskID c)) (task_RangeStart original) (task_RangeEnd original) (mr_MaximumAttempts c) (mr_CreatedAt c)"

definition manualRetryUniqueViolation :: "driver_error \<Rightarrow> bool" where
  "manualRetryUniqueViolation e \<longleftrightarrow> (case e of
     PgError code constraint \<Rightarrow> code = ''23505'' \<and> constraint = ''uq_active_manual_retry''
   | _ \<Rightarrow> False)"

definition manual_retry_body :: "platform \<Rightarrow> faults \<Rightarrow> ManualRetryCreation \<Rightarrow> unit tx" where
  "manual_retry_body pf f c =
     tx_bind (call_optional f 1 MapError (retry_source_query (mr_OriginalTaskID c) (mr_CreatedAt c))) (\<lambda>found. case found of
       None \<Rightarrow> tx_fail ErrNotFound
     | Some (original, available) \<Rightarrow>
         tx_bind (tx_check (first_error [guard (task_Status original \<noteq> st_failed) ErrConflict,
           guard (\<not> available) ErrManualRetrySourceUnavailable])) (\<lambda>_.
         tx_bind (call f 2 MapError (reading (retry_active_query (mr_OriginalTaskID c)))) (\<lambda>active.
         tx_bind (tx_check (guard active ErrManualRetryAlreadyRunning)) (\<lambda>_.
         tx_bind (call f 3 MapError (insert_run (repair_run pf c))) (\<lambda>_.
           call f 4 (\<lambda>e. if manualRetryUniqueViolation e then ErrManualRetryAlreadyRunning else MapError e)
             (insert_task (repair_task c original)))))))"

definition db_CreateManualRetry :: "platform \<Rightarrow> faults \<Rightarrow> ManualRetryCreation \<Rightarrow> DB \<Rightarrow> unit result \<times> DB" where
  "db_CreateManualRetry pf f c s =
     (case validateManualRetryCreation c of
        Some e \<Rightarrow> (Inl e, s)
      | None \<Rightarrow> transaction f (manual_retry_body pf f c) s)"
subsection \<open>Cancellation\<close>

definition cancel_row :: "string \<Rightarrow> string option \<Rightarrow> time \<Rightarrow> IngestionTask \<Rightarrow> IngestionTask" where
  "cancel_row canceledBy reason now t = t
     \<lparr>task_Status := st_canceled, task_CanceledBy := Some canceledBy, task_CancelReason := reason,
      task_NextAttemptAt := None, task_LockedBy := None, task_LockedUntil := None,
      task_FinishedAt := Some (timestamptz now), task_UpdatedAt := timestamptz now\<rparr>"

definition cancel_statement :: "ID \<Rightarrow> string \<Rightarrow> string \<Rightarrow> string option \<Rightarrow> time \<Rightarrow> DB \<Rightarrow> (driver_error + int) \<times> DB" where
  "cancel_statement i status canceledBy reason now s =
     (let P = (\<lambda>t. task_ID t = i \<and> task_Status t = status) in
      case violates (\<not> varchar_ok 128 canceledBy) ''22001'' '''' of
        Some e \<Rightarrow> (Inl e, s)
      | None \<Rightarrow> (Inr (rows_where P (db_tasks s)),
          s\<lparr>db_tasks := update_where P (cancel_row canceledBy reason now) (db_tasks s)\<rparr>))"

text \<open>The lock of the task and the update, shared by both cancellations: the task as it was.\<close>

definition cancel_body :: "faults \<Rightarrow> ID \<Rightarrow> string \<Rightarrow> string option \<Rightarrow> time \<Rightarrow> IngestionTask tx" where
  "cancel_body f i canceledBy reason now =
     tx_bind (call_optional f 1 MapError (\<lambda>s. select_by task_ID i (db_tasks s))) (\<lambda>found. case found of
       None \<Rightarrow> tx_fail ErrNotFound
     | Some t \<Rightarrow>
         tx_bind (tx_check (guard (task_Status t \<noteq> st_pending \<and> task_Status t \<noteq> st_retry_wait \<and> task_Status t \<noteq> st_running)
           ErrConflict)) (\<lambda>_.
         tx_bind (call f 2 MapError (cancel_statement i (task_Status t) canceledBy reason now)) (\<lambda>affected.
         tx_bind (tx_check (guard (affected \<noteq> 1) ErrConflict)) (\<lambda>_. tx_return t))))"

definition CancelTask :: "faults \<Rightarrow> ID \<Rightarrow> string \<Rightarrow> string \<Rightarrow> time \<Rightarrow> DB \<Rightarrow> unit result \<times> DB" where
  "CancelTask f taskID canceledBy reason now s =
     (if ID_IsZero taskID \<or> TrimSpace canceledBy \<noteq> canceledBy \<or> canceledBy = [] \<or> RuneCountInString canceledBy > 128
         \<or> TrimSpace reason \<noteq> reason \<or> IsZero now
      then (Inl ErrInvalidData, s)
      else transaction f (tx_bind (cancel_body f taskID canceledBy (nullableString reason) now) (\<lambda>_. tx_return ())) s)"

definition cancel_audit :: "platform \<Rightarrow> ID \<Rightarrow> TaskOperationAudit \<Rightarrow> time \<Rightarrow> json" where
  "cancel_audit pf taskID audit now = JArray [JObject
     [(''action'', JString ''cancel''), (''actor_type'', JString (ta_ActorType audit)),
      (''occurred_at'', JString (Format_RFC3339Nano now)), (''reason'', JString (ta_Reason audit)),
      (''request_id'', JString (ta_RequestID audit)), (''requested_by'', JString (ta_RequestedBy audit)),
      (''task_id'', JString (UUID_String pf taskID))]]"

text \<open>The server's operators on \<^verbatim>\<open>jsonb\<close>: \<^verbatim>\<open>||\<close>, and \<^verbatim>\<open>jsonb_set\<close> of one key.\<close>

fun json_elements :: "json \<Rightarrow> json list" where
  "json_elements (JArray xs) = xs"
| "json_elements v = [v]"

definition json_concat :: "json \<Rightarrow> json \<Rightarrow> json" where
  "json_concat a b = JArray (json_elements a @ json_elements b)"

definition json_set :: "string \<Rightarrow> json \<Rightarrow> (string \<times> json) list \<Rightarrow> (string \<times> json) list" where
  "json_set k v kvs = (if k \<in> fst ` set kvs then map (\<lambda>(j, w). (j, if j = k then v else w)) kvs else kvs @ [(k, v)])"

definition append_operations :: "json \<Rightarrow> RawMessage \<Rightarrow> driver_error + RawMessage" where
  "append_operations audit context = (case context of
     RawValue (JObject kvs) \<Rightarrow>
       Inr (RawValue (JObject (json_set ''operations''
         (json_concat (case map_of kvs ''operations'' of None \<Rightarrow> JArray [] | Some v \<Rightarrow> v) audit) kvs)))
   | RawValue (JArray _) \<Rightarrow> Inl (PgError ''22P02'' '''')
   | _ \<Rightarrow> Inl (PgError ''22023'' ''''))"

definition audit_statement :: "json \<Rightarrow> ID \<Rightarrow> DB \<Rightarrow> (driver_error + int) \<times> DB" where
  "audit_statement audit i s = (case find (\<lambda>r. run_ID r = i) (db_runs s) of
     None \<Rightarrow> (Inr 0, s)
   | Some r \<Rightarrow>
       (case append_operations audit (run_Context r) of
          Inl e \<Rightarrow> (Inl e, s)
        | Inr context \<Rightarrow> (Inr 1,
            s\<lparr>db_runs := update_where (\<lambda>r'. run_ID r' = i) (\<lambda>r'. r'\<lparr>run_Context := context\<rparr>) (db_runs s)\<rparr>)))"

definition db_CancelTaskWithAudit :: "platform \<Rightarrow> faults \<Rightarrow> ID \<Rightarrow> TaskOperationAudit \<Rightarrow> time \<Rightarrow> DB \<Rightarrow> ID result \<times> DB" where
  "db_CancelTaskWithAudit pf f taskID audit now s =
     (if ID_IsZero taskID \<or> IsZero now \<or> \<not> repository_validTaskOperationAudit audit then (Inl ErrInvalidData, s)
      else transaction f
        (tx_bind (cancel_body f taskID (ta_RequestedBy audit) (Some (ta_Reason audit)) now) (\<lambda>t.
         tx_bind (call f 3 MapError (audit_statement (cancel_audit pf taskID audit now) (task_RunID t))) (\<lambda>affected.
         tx_bind (tx_check (guard (affected \<noteq> 1) ErrReferenceViolation)) (\<lambda>_. tx_return (task_RunID t))))) s)"

subsection \<open>Run aggregation\<close>

definition tasks_of_run :: "DB \<Rightarrow> ID \<Rightarrow> IngestionTask list" where
  "tasks_of_run s i = filter (\<lambda>t. task_RunID t = i) (db_tasks s)"

definition status_count :: "string \<Rightarrow> IngestionTask list \<Rightarrow> int" where
  "status_count st ts = int (length (filter (\<lambda>t. task_Status t = st) ts))"

definition present_values :: "'a option list \<Rightarrow> 'a list" where
  "present_values vs = map the (filter (\<lambda>v. v \<noteq> None) vs)"

definition min_value :: "time option list \<Rightarrow> time option" where
  "min_value vs = (case present_values vs of [] \<Rightarrow> None | x # xs \<Rightarrow> Some (fold min xs x))"

definition max_value :: "time option list \<Rightarrow> time option" where
  "max_value vs = (case present_values vs of [] \<Rightarrow> None | x # xs \<Rightarrow> Some (fold max xs x))"

definition snapshot_of :: "DB \<Rightarrow> ID \<Rightarrow> RunTaskSnapshot" where
  "snapshot_of s i = (let ts = tasks_of_run s i in
     \<lparr>rs_RunID = i, rs_PendingCount = status_count st_pending ts, rs_RunningCount = status_count st_running ts,
      rs_RetryWaitCount = status_count st_retry_wait ts, rs_SuccessCount = status_count st_success ts,
      rs_FailedCount = status_count st_failed ts, rs_CanceledCount = status_count st_canceled ts,
      rs_EarliestStartedAt = min_value (map task_StartedAt ts), rs_LatestFinishedAt = max_value (map task_FinishedAt ts)\<rparr>)"

definition snapshot_query :: "ID \<Rightarrow> DB \<Rightarrow> driver_error + RunTaskSnapshot" where
  "snapshot_query i s = (if i \<in> set (map run_ID (db_runs s)) then Inr (snapshot_of s i) else Inl NoRows)"

definition db_LoadRunTaskSnapshot :: "faults \<Rightarrow> ID \<Rightarrow> DB \<Rightarrow> RunTaskSnapshot result \<times> DB" where
  "db_LoadRunTaskSnapshot f runID s =
     (if ID_IsZero runID then (Inl ErrInvalidData, s) else call f 0 MapError (reading (snapshot_query runID)) s)"

definition summary_snapshot :: "RunSummary \<Rightarrow> RunTaskSnapshot" where
  "summary_snapshot r =
     \<lparr>rs_RunID = sum_RunID r, rs_PendingCount = sum_PendingCount r, rs_RunningCount = sum_RunningCount r,
      rs_RetryWaitCount = sum_RetryWaitCount r, rs_SuccessCount = sum_SuccessCount r,
      rs_FailedCount = sum_FailedCount r, rs_CanceledCount = sum_CanceledCount r,
      rs_EarliestStartedAt = sum_EarliestStartedAt r, rs_LatestFinishedAt = sum_LatestFinishedAt r\<rparr>"

definition validateRunSummary :: "RunSummary \<Rightarrow> error option" where
  "validateRunSummary summary = (case SummarizeRun (summary_snapshot summary) of
     Inl e \<Rightarrow> Some ErrInvalidData
   | Inr expected \<Rightarrow> guard (sum_TaskCount summary \<noteq> sum_TaskCount expected \<or> sum_Status summary \<noteq> sum_Status expected
       \<or> (sum_LatestFinishedAt summary = None) \<noteq> (sum_LatestFinishedAt expected = None)) ErrInvalidData)"

text \<open>The \<^verbatim>\<open>HAVING\<close> clause: a group exists when the run has tasks.\<close>

definition summary_matches :: "RunSummary \<Rightarrow> IngestionTask list \<Rightarrow> bool" where
  "summary_matches r ts \<longleftrightarrow> ts \<noteq> [] \<and> int (length ts) = sum_TaskCount r
     \<and> status_count st_pending ts = sum_PendingCount r \<and> status_count st_running ts = sum_RunningCount r
     \<and> status_count st_retry_wait ts = sum_RetryWaitCount r \<and> status_count st_success ts = sum_SuccessCount r
     \<and> status_count st_failed ts = sum_FailedCount r \<and> status_count st_canceled ts = sum_CanceledCount r"

definition summary_row :: "RunSummary \<Rightarrow> IngestionRun \<Rightarrow> IngestionRun" where
  "summary_row r run = run
     \<lparr>run_Status := sum_Status r, run_TaskCount := sum_TaskCount r, run_SuccessCount := sum_SuccessCount r,
      run_FailedCount := sum_FailedCount r,
      run_StartedAt := (case run_StartedAt run of None \<Rightarrow> optional_timestamptz (sum_EarliestStartedAt r) | Some t \<Rightarrow> Some t),
      run_FinishedAt := optional_timestamptz (sum_LatestFinishedAt r)\<rparr>"

definition summary_statement :: "RunSummary \<Rightarrow> DB \<Rightarrow> (driver_error + int) \<times> DB" where
  "summary_statement r s =
     (let P = (\<lambda>run. run_ID run = sum_RunID r \<and> summary_matches r (tasks_of_run s (run_ID run))) in
      case first_failure (map encode_int4 [sum_TaskCount r, sum_SuccessCount r, sum_FailedCount r,
             sum_PendingCount r, sum_RunningCount r, sum_RetryWaitCount r, sum_CanceledCount r]) of
        Some e \<Rightarrow> (Inl e, s)
      | None \<Rightarrow> (Inr (rows_where P (db_runs s)), s\<lparr>db_runs := update_where P (summary_row r) (db_runs s)\<rparr>))"

definition db_SaveRunSummary :: "faults \<Rightarrow> RunSummary \<Rightarrow> DB \<Rightarrow> error option \<times> DB" where
  "db_SaveRunSummary f summary s =
     (case validateRunSummary summary of
        Some e \<Rightarrow> (Some e, s)
      | None \<Rightarrow>
          (case autocommit f (summary_statement summary) s of
             (Inl e, s') \<Rightarrow> (Some (MapError e), s')
           | (Inr affected, s') \<Rightarrow> (guard (affected \<noteq> 1) ErrConflict, s')))"

end
