(* ===== verification/MarketTables.thy ===== *)
theory MarketTables
  imports TaskTables
begin

text \<open>
  The PostgreSQL operations on market data: bars and latest quotes (repository/postgres/market_data.go
  and the bar writer of ingestion.go), quality issues (quality.go) and checkpoints. Numbers go through
  \<^verbatim>\<open>numeric(38,18)\<close> columns, times through \<^verbatim>\<open>timestamptz\<close>.
\<close>

subsection \<open>Numeric columns\<close>

text \<open>Rounding to 18 fractional digits, half away from zero; 20 digits before the point at most.\<close>

definition round_numeric :: "rat \<Rightarrow> rat" where
  "round_numeric x = (if x < 0 then - (of_int \<lfloor>- x * 10 ^ 18 + 1 / 2\<rfloor> / 10 ^ 18) else of_int \<lfloor>x * 10 ^ 18 + 1 / 2\<rfloor> / 10 ^ 18)"

definition numeric_ok :: "rat \<Rightarrow> bool" where
  "numeric_ok x \<longleftrightarrow> \<bar>round_numeric x\<bar> < 10 ^ 20"

subsection \<open>Bars\<close>

definition marketBarArguments :: "Bar \<Rightarrow> Bar" where
  "marketBarArguments b = b
     \<lparr>bar_OpenTime := timestamptz (bar_OpenTime b), bar_CloseTime := timestamptz (bar_CloseTime b),
      bar_OpenPrice := round_numeric (bar_OpenPrice b), bar_HighPrice := round_numeric (bar_HighPrice b),
      bar_LowPrice := round_numeric (bar_LowPrice b), bar_ClosePrice := round_numeric (bar_ClosePrice b),
      bar_BaseVolume := map_option round_numeric (bar_BaseVolume b),
      bar_QuoteVolume := map_option round_numeric (bar_QuoteVolume b),
      bar_ProviderUpdatedAt := optional_timestamptz (bar_ProviderUpdatedAt b),
      bar_CollectedAt := timestamptz (bar_CollectedAt b), bar_Metadata := jsonValue (bar_Metadata b)\<rparr>"

definition same_bar :: "Bar \<Rightarrow> Bar \<Rightarrow> bool" where
  "same_bar b c \<longleftrightarrow> bar_InstrumentID b = bar_InstrumentID c \<and> bar_ProviderInstrumentID b = bar_ProviderInstrumentID c
     \<and> bar_Interval b = bar_Interval c \<and> bar_OpenTime b = bar_OpenTime c"

text \<open>A row read back: its classifications are parsed and the stored bar validated.\<close>

definition scanMarketBar :: "Bar \<Rightarrow> Bar result" where
  "scanMarketBar b =
     bind_result (ParseBarInterval (bar_Interval b)) (\<lambda>interval.
     bind_result (NewUTCInstant (bar_OpenTime b)) (\<lambda>openTime.
     bind_result (NewUTCInstant (bar_CloseTime b)) (\<lambda>closeTime.
     bind_result (NewUTCInstant (bar_CollectedAt b)) (\<lambda>collectedAt.
     bind_result (optional_instant (bar_ProviderUpdatedAt b)) (\<lambda>providerUpdatedAt.
     bind_result (ParseQualityStatus (bar_QualityStatus b)) (\<lambda>quality.
       NewStoredBar (b\<lparr>bar_Interval := interval, bar_OpenTime := openTime, bar_CloseTime := closeTime,
         bar_CollectedAt := collectedAt, bar_ProviderUpdatedAt := providerUpdatedAt,
         bar_QualityStatus := quality, bar_Metadata := normalizedJSON (bar_Metadata b)\<rparr>)))))))"

definition scanned :: "'a result \<Rightarrow> driver_error + 'a" where
  "scanned r = map_sum OtherError id r"

definition current_bar_query :: "Bar \<Rightarrow> DB \<Rightarrow> driver_error + Bar" where
  "current_bar_query bar s =
     (case first_row (filter (\<lambda>c. same_bar c (marketBarArguments bar) \<and> bar_IsCurrent c) (db_bars s)) of
        Inl e \<Rightarrow> Inl e
      | Inr c \<Rightarrow> scanned (scanMarketBar c))"

definition loadCurrentMarketBar :: "faults \<Rightarrow> nat \<Rightarrow> Bar \<Rightarrow> Bar option tx" where
  "loadCurrentMarketBar f n bar = call_optional f n MapError (current_bar_query bar)"

definition close_bar_statement :: "Bar \<Rightarrow> int \<Rightarrow> DB \<Rightarrow> (driver_error + int) \<times> DB" where
  "close_bar_statement bar revision s =
     (let P = (\<lambda>c. same_bar c (marketBarArguments bar) \<and> bar_Revision c = revision \<and> bar_IsCurrent c) in
      case encode_int4 revision of
        Some e \<Rightarrow> (Inl e, s)
      | None \<Rightarrow> (Inr (rows_where P (db_bars s)),
          s\<lparr>db_bars := update_where P (\<lambda>c. c\<lparr>bar_IsCurrent := False\<rparr>) (db_bars s)\<rparr>))"

definition bar_row_checks :: "Bar \<Rightarrow> driver_error option" where
  "bar_row_checks b = first_failure
     [encode_int4 (bar_Revision b),
      violates (\<not> json_Valid (bar_Metadata b)) ''22P02'' '''',
      violates (\<not> varchar_ok 8 (bar_Interval b) \<or> \<not> varchar_ok 16 (bar_QualityStatus b) \<or> \<not> varchar_ok 64 (bar_RawHash b))
        ''22001'' '''',
      violates (\<not> list_all numeric_ok [bar_OpenPrice b, bar_HighPrice b, bar_LowPrice b, bar_ClosePrice b]
        \<or> \<not> opt_all numeric_ok (bar_BaseVolume b) \<or> \<not> opt_all numeric_ok (bar_QuoteVolume b)) ''22003'' '''',
      violates (bar_Interval b \<notin> set [BarInterval1Hour, BarInterval1Day]) ''23514'' ''ck_market_bars_interval'',
      violates (\<not> bar_Revision b > 0) ''23514'' ''ck_market_bars_revision'',
      violates (\<not> bar_CloseTime b > bar_OpenTime b) ''23514'' ''ck_market_bars_time'',
      violates (\<not> (bar_LowPrice b \<le> bar_OpenPrice b \<and> bar_LowPrice b \<le> bar_ClosePrice b
        \<and> bar_HighPrice b \<ge> bar_OpenPrice b \<and> bar_HighPrice b \<ge> bar_ClosePrice b \<and> bar_HighPrice b \<ge> bar_LowPrice b))
        ''23514'' ''ck_market_bars_ohlc'',
      violates (\<not> opt_all (\<lambda>v. v \<ge> 0) (bar_BaseVolume b) \<or> \<not> opt_all (\<lambda>v. v \<ge> 0) (bar_QuoteVolume b))
        ''23514'' ''ck_market_bars_volume'',
      violates (bar_QualityStatus b \<notin> set [''unchecked'', ''valid'', ''warning'', ''invalid'']) ''23514'' ''ck_market_bars_quality'']"

definition bar_references :: "DB \<Rightarrow> Bar \<Rightarrow> driver_error option" where
  "bar_references s b = first_failure
     [violates (\<exists>c \<in> set (db_bars s). same_bar c b \<and> bar_Revision c = bar_Revision b) ''23505'' ''market_bars_pkey'',
      violates (bar_IsCurrent b \<and> (\<exists>c \<in> set (db_bars s). same_bar c b \<and> bar_IsCurrent c)) ''23505'' ''uq_market_bars_current'',
      violates (bar_InstrumentID b \<notin> set (map inst_ID (db_instruments s))) ''23503'' ''market_bars_instrument_id_fkey'',
      violates (bar_ProviderInstrumentID b \<notin> set (map pi_ID (db_mappings s))) ''23503'' ''market_bars_provider_instrument_id_fkey'']"

definition insert_bar :: "Bar \<Rightarrow> DB \<Rightarrow> (driver_error + unit) \<times> DB" where
  "insert_bar bar s = (let b = marketBarArguments bar in
     case first_failure [bar_row_checks b, bar_references s b] of
       Some e \<Rightarrow> (Inl e, s)
     | None \<Rightarrow> (Inr (), s\<lparr>db_bars := db_bars s @ [b]\<rparr>))"

text \<open>
  The statements of a bar write: the slots \<open>n\<close>, \<open>n + 1\<close> and \<open>n + 2\<close> are the load of the current
  revision, its closing and the insertion of the next one. The writer inside a larger transaction
  (\<open>strict\<close>) also requires that the closing affected one row.
\<close>

definition write_revision :: "faults \<Rightarrow> nat \<Rightarrow> bool \<Rightarrow> Bar \<Rightarrow> MarketBarWriteResult tx" where
  "write_revision f n strict bar =
     tx_bind (loadCurrentMarketBar f n bar) (\<lambda>current. case current of
       None \<Rightarrow>
         tx_bind (call f (n + 2) MapError (insert_bar (bar\<lparr>bar_Revision := 1, bar_IsCurrent := True\<rparr>))) (\<lambda>_.
           tx_return \<lparr>mbw_Applied = True, mbw_Revision = 1\<rparr>)
     | Some c \<Rightarrow>
         if bar_RawHash bar \<noteq> [] \<and> bar_RawHash c = bar_RawHash bar
         then tx_return \<lparr>mbw_Applied = False, mbw_Revision = bar_Revision c\<rparr>
         else
           tx_bind (call f (n + 1) MapError (close_bar_statement bar (bar_Revision c))) (\<lambda>affected.
           tx_bind (tx_check (guard (strict \<and> affected \<noteq> 1) ErrConflict)) (\<lambda>_.
           tx_bind (call f (n + 2) MapError
               (insert_bar (bar\<lparr>bar_Revision := bar_Revision c + 1, bar_IsCurrent := True\<rparr>))) (\<lambda>_.
             tx_return \<lparr>mbw_Applied = True, mbw_Revision = bar_Revision c + 1\<rparr>))))"

definition writeMarketBarInTransaction :: "faults \<Rightarrow> nat \<Rightarrow> Bar \<Rightarrow> MarketBarWriteResult tx" where
  "writeMarketBarInTransaction f n bar s =
     (case NewBar bar of Inl e \<Rightarrow> (Inl e, s) | Inr b \<Rightarrow> write_revision f n True b s)"

definition validateMarketBar :: "Bar \<Rightarrow> error option" where
  "validateMarketBar bar = err_of (NewBar bar)"

definition WriteMarketBar :: "faults \<Rightarrow> Bar \<Rightarrow> DB \<Rightarrow> MarketBarWriteResult result \<times> DB" where
  "WriteMarketBar f bar s =
     (case bind_result (NewBar bar) (\<lambda>b. checked (validateMarketBar b) (Inr b)) of
        Inl e \<Rightarrow> (Inl e, s)
      | Inr b \<Rightarrow> transaction_if f mbw_Applied (write_revision f 1 False b) s)"

definition defaultMarketBarPageSize :: int where "defaultMarketBarPageSize = 200"
definition maximumMarketBarPageSize :: int where "maximumMarketBarPageSize = 1000"

definition marketBarPageLimit :: "int \<Rightarrow> int result" where
  "marketBarPageLimit n =
     (if n = 0 then Inr defaultMarketBarPageSize
      else if n < 0 \<or> n > maximumMarketBarPageSize then Inl ErrInvalidData else Inr n)"

fun scan_rows :: "('a \<Rightarrow> 'b result) \<Rightarrow> 'a list \<Rightarrow> 'b list result" where
  "scan_rows scan [] = Inr []"
| "scan_rows scan (r # rs) = bind_result (scan r) (\<lambda>v. bind_result (scan_rows scan rs) (\<lambda>vs. Inr (v # vs)))"

text \<open>The current bars of a filter, newest first.\<close>

definition current_bars_query :: "MarketBarFilter \<Rightarrow> int \<Rightarrow> DB \<Rightarrow> Bar list" where
  "current_bars_query flt limit s = take (nat limit) (sort_key (\<lambda>b. - bar_OpenTime b)
     [b \<leftarrow> db_bars s. bar_InstrumentID b = mbf_InstrumentID flt
        \<and> bar_ProviderInstrumentID b = mbf_ProviderInstrumentID flt \<and> bar_Interval b = mbf_Interval flt
        \<and> bar_IsCurrent b
        \<and> opt_all (\<lambda>t. bar_OpenTime b \<ge> timestamptz t) (tr_Start (mbf_Range flt))
        \<and> opt_all (\<lambda>t. bar_OpenTime b < timestamptz t) (tr_End (mbf_Range flt))
        \<and> opt_all (\<lambda>t. bar_OpenTime b < timestamptz t) (mbf_BeforeOpenTime flt)])"

definition ListCurrentMarketBars :: "faults \<Rightarrow> MarketBarFilter \<Rightarrow> DB \<Rightarrow> Bar list result" where
  "ListCurrentMarketBars f flt s =
     checked (MarketBarFilter_Validate flt)
       (bind_result (marketBarPageLimit (mbf_Limit flt)) (\<lambda>limit.
         case fault_at f 0 of
           Some e \<Rightarrow> Inl (MapError e)
         | None \<Rightarrow> scan_rows scanMarketBar (current_bars_query flt limit s)))"
subsection \<open>Latest quotes\<close>

definition quoteArguments :: "Quote \<Rightarrow> Quote" where
  "quoteArguments q = q
     \<lparr>q_MarketTime := timestamptz (q_MarketTime q), q_LastPrice := round_numeric (q_LastPrice q),
      q_BidPrice := map_option round_numeric (q_BidPrice q), q_BidSize := map_option round_numeric (q_BidSize q),
      q_AskPrice := map_option round_numeric (q_AskPrice q), q_AskSize := map_option round_numeric (q_AskSize q),
      q_Open24H := map_option round_numeric (q_Open24H q), q_High24H := map_option round_numeric (q_High24H q),
      q_Low24H := map_option round_numeric (q_Low24H q),
      q_BaseVolume24H := map_option round_numeric (q_BaseVolume24H q),
      q_QuoteVolume24H := map_option round_numeric (q_QuoteVolume24H q),
      q_CollectedAt := timestamptz (q_CollectedAt q), q_Metadata := jsonValue (q_Metadata q)\<rparr>"

definition quote_row_checks :: "Quote \<Rightarrow> driver_error option" where
  "quote_row_checks q = first_failure
     [violates (\<not> json_Valid (q_Metadata q)) ''22P02'' '''',
      violates (\<not> varchar_ok 16 (q_QualityStatus q)) ''22001'' '''',
      violates (\<not> numeric_ok (q_LastPrice q) \<or> \<not> list_all (opt_all numeric_ok)
        [q_BidPrice q, q_BidSize q, q_AskPrice q, q_AskSize q, q_Open24H q, q_High24H q, q_Low24H q,
         q_BaseVolume24H q, q_QuoteVolume24H q]) ''22003'' '''',
      violates (\<not> q_LastPrice q \<ge> 0) ''23514'' ''ck_latest_quotes_last_price'',
      violates (\<not> opt_all (\<lambda>v. v \<ge> 0) (q_BidPrice q)) ''23514'' ''ck_latest_quotes_bid_price'',
      violates (\<not> opt_all (\<lambda>v. v \<ge> 0) (q_AskPrice q)) ''23514'' ''ck_latest_quotes_ask_price'',
      violates (q_QualityStatus q \<notin> set [''unchecked'', ''valid'', ''warning'', ''invalid'']) ''23514'' ''ck_latest_quotes_quality'']"

definition quote_references :: "DB \<Rightarrow> Quote \<Rightarrow> driver_error option" where
  "quote_references s q = first_failure
     [violates (q_InstrumentID q \<notin> set (map inst_ID (db_instruments s))) ''23503'' ''latest_quotes_instrument_id_fkey'',
      violates (q_ProviderInstrumentID q \<notin> set (map pi_ID (db_mappings s))) ''23503'' ''latest_quotes_provider_instrument_id_fkey'']"

definition quote_key :: "Quote \<Rightarrow> ID \<times> ID" where
  "quote_key q = (q_InstrumentID q, q_ProviderInstrumentID q)"

text \<open>The upsert returns the stored market time, or no row when the stored quote is at least as new.\<close>

definition upsert_quote_statement :: "Quote \<Rightarrow> DB \<Rightarrow> (driver_error + time) \<times> DB" where
  "upsert_quote_statement quote s = (let q = quoteArguments quote in
     case quote_row_checks q of
       Some e \<Rightarrow> (Inl e, s)
     | None \<Rightarrow>
         (case db_quotes s (quote_key q) of
            None \<Rightarrow>
              (case quote_references s q of
                 Some e \<Rightarrow> (Inl e, s)
               | None \<Rightarrow> (Inr (q_MarketTime q), s\<lparr>db_quotes := (db_quotes s)(quote_key q \<mapsto> q)\<rparr>))
          | Some old \<Rightarrow>
              if q_MarketTime q > q_MarketTime old
              then (Inr (q_MarketTime q), s\<lparr>db_quotes := (db_quotes s)(quote_key q \<mapsto> q)\<rparr>)
              else (Inl NoRows, s)))"

definition UpsertLatestQuote :: "faults \<Rightarrow> Quote \<Rightarrow> DB \<Rightarrow> bool result \<times> DB" where
  "UpsertLatestQuote f quote s =
     (case NewQuote quote of
        Inl e \<Rightarrow> (Inl e, s)
      | Inr q \<Rightarrow>
          (case autocommit f (upsert_quote_statement q) s of
             (Inl NoRows, s') \<Rightarrow> (Inr False, s')
           | (Inl e, s') \<Rightarrow> (Inl (MapError e), s')
           | (Inr _, s') \<Rightarrow> (Inr True, s')))"

definition scanLatestQuote :: "Quote \<Rightarrow> Quote result" where
  "scanLatestQuote q =
     bind_result (NewUTCInstant (q_MarketTime q)) (\<lambda>marketTime.
     bind_result (NewUTCInstant (q_CollectedAt q)) (\<lambda>collectedAt.
     bind_result (ParseQualityStatus (q_QualityStatus q)) (\<lambda>quality.
       NewQuote (q\<lparr>q_MarketTime := marketTime, q_CollectedAt := collectedAt, q_QualityStatus := quality,
         q_Metadata := normalizedJSON (q_Metadata q)\<rparr>))))"

text \<open>The quotes of an instrument: one per mapping of the table, newest first, then by mapping.\<close>

definition quotes_of :: "ID \<Rightarrow> DB \<Rightarrow> Quote list" where
  "quotes_of i s = sort_key (\<lambda>q. - q_MarketTime q)
     (List.map_filter (\<lambda>j. db_quotes s (i, j)) (sorted_list_of_set (set (map pi_ID (db_mappings s)))))"

definition ListLatestQuotes :: "faults \<Rightarrow> ID \<Rightarrow> DB \<Rightarrow> Quote list result" where
  "ListLatestQuotes f instrumentID s =
     (if ID_IsZero instrumentID then Inl ErrInvalidData
      else case fault_at f 0 of Some e \<Rightarrow> Inl (MapError e) | None \<Rightarrow> scan_rows scanLatestQuote (quotes_of instrumentID s))"

subsection \<open>Quality issues (quality.go)\<close>

abbreviation "iss_open \<equiv> ''open''"
abbreviation "iss_acknowledged \<equiv> ''acknowledged''"
abbreviation "iss_resolved \<equiv> ''resolved''"
abbreviation "iss_ignored \<equiv> ''ignored''"

definition issueArguments :: "DataQualityIssue \<Rightarrow> DataQualityIssue" where
  "issueArguments q = q
     \<lparr>dq_OpenTime := optional_timestamptz (dq_OpenTime q), dq_Status := iss_open, dq_Details := jsonValue (dq_Details q),
      dq_DetectedAt := timestamptz (dq_DetectedAt q), dq_ResolvedAt := None, dq_ResolutionNote := None,
      dq_CreatedAt := timestamptz (dq_CreatedAt q), dq_UpdatedAt := timestamptz (dq_UpdatedAt q)\<rparr>"

definition same_issue :: "DataQualityIssue \<Rightarrow> DataQualityIssue \<Rightarrow> bool" where
  "same_issue q r \<longleftrightarrow> dq_InstrumentID q = dq_InstrumentID r \<and> dq_ProviderInstrumentID q = dq_ProviderInstrumentID r
     \<and> dq_Interval q = dq_Interval r \<and> dq_OpenTime q = dq_OpenTime r \<and> dq_RuleCode q = dq_RuleCode r"

definition issue_row_checks :: "DataQualityIssue \<Rightarrow> driver_error option" where
  "issue_row_checks q = first_failure
     [violates (\<not> json_Valid (dq_Details q)) ''22P02'' '''',
      violates (\<not> opt_all (varchar_ok 8) (dq_Interval q) \<or> \<not> varchar_ok 64 (dq_RuleCode q) \<or> \<not> varchar_ok 16 (dq_Severity q)
        \<or> \<not> varchar_ok 512 (dq_Summary q)) ''22001'' '''',
      violates (\<not> opt_all (\<lambda>v. v \<in> set [BarInterval1Hour, BarInterval1Day]) (dq_Interval q)) ''23514'' ''ck_quality_issues_interval'',
      violates (dq_Severity q \<notin> set [''info'', ''warning'', ''error'', ''critical'']) ''23514'' ''ck_quality_issues_severity'']"

definition issue_references :: "DB \<Rightarrow> DataQualityIssue \<Rightarrow> driver_error option" where
  "issue_references s q = first_failure
     [violates (dq_ID q \<in> set (map dq_ID (db_issues s))) ''23505'' ''data_quality_issues_pkey'',
      violates (dq_InstrumentID q \<notin> set (map inst_ID (db_instruments s))) ''23503'' ''data_quality_issues_instrument_id_fkey'',
      violates (\<not> opt_all (\<lambda>i. i \<in> set (map pi_ID (db_mappings s))) (dq_ProviderInstrumentID q))
        ''23503'' ''data_quality_issues_provider_instrument_id_fkey'']"

definition issue_active :: "DataQualityIssue \<Rightarrow> bool" where
  "issue_active q \<longleftrightarrow> dq_Status q = iss_open \<or> dq_Status q = iss_acknowledged"

definition open_issue_statement :: "DataQualityIssue \<Rightarrow> DB \<Rightarrow> (driver_error + ID) \<times> DB" where
  "open_issue_statement issue s = (let q = issueArguments issue in
     case issue_row_checks q of
       Some e \<Rightarrow> (Inl e, s)
     | None \<Rightarrow>
         if \<exists>r \<in> set (db_issues s). same_issue r q \<and> issue_active r then (Inl NoRows, s)
         else (case issue_references s q of
                 Some e \<Rightarrow> (Inl e, s)
               | None \<Rightarrow> (Inr (dq_ID q), s\<lparr>db_issues := db_issues s @ [q]\<rparr>)))"

definition open_issue_input_check :: "DataQualityIssue \<Rightarrow> error option" where
  "open_issue_input_check q = guard (ID_IsZero (dq_ID q) \<or> ID_IsZero (dq_InstrumentID q) \<or> dq_RuleCode q = []
     \<or> IsZero (dq_DetectedAt q) \<or> IsZero (dq_CreatedAt q) \<or> IsZero (dq_UpdatedAt q)) ErrInvalidData"

text \<open>The result of the statement for the caller: an issue already active is not an error.\<close>

definition opened :: "(driver_error + ID) \<times> DB \<Rightarrow> bool result \<times> DB" where
  "opened r = (case r of
     (Inl NoRows, s) \<Rightarrow> (Inr False, s)
   | (Inl e, s) \<Rightarrow> (Inl (MapError e), s)
   | (Inr _, s) \<Rightarrow> (Inr True, s))"

definition openQualityIssue :: "((DB \<Rightarrow> (driver_error + ID) \<times> DB) \<Rightarrow> DB \<Rightarrow> (driver_error + ID) \<times> DB)
    \<Rightarrow> DataQualityIssue \<Rightarrow> bool tx" where
  "openQualityIssue run_statement issue s =
     (case open_issue_input_check issue of
        Some e \<Rightarrow> (Inl e, s)
      | None \<Rightarrow> opened (run_statement (open_issue_statement issue) s))"

text \<open>The statement runs on the pool (\<open>autocommit\<close>), or in slot \<open>n\<close> of a transaction.\<close>

definition OpenIssue :: "faults \<Rightarrow> DataQualityIssue \<Rightarrow> DB \<Rightarrow> bool result \<times> DB" where
  "OpenIssue f issue s = openQualityIssue (autocommit f) issue s"

definition in_transaction :: "faults \<Rightarrow> nat \<Rightarrow> (DB \<Rightarrow> (driver_error + 'a) \<times> DB) \<Rightarrow> DB \<Rightarrow> (driver_error + 'a) \<times> DB" where
  "in_transaction f n statement s = (case fault_at f n of Some e \<Rightarrow> (Inl e, s) | None \<Rightarrow> statement s)"

definition transition_row :: "string \<Rightarrow> string option \<Rightarrow> time option \<Rightarrow> time \<Rightarrow> DataQualityIssue \<Rightarrow> DataQualityIssue" where
  "transition_row target note resolvedAt updatedAt q = q
     \<lparr>dq_Status := target, dq_ResolvedAt := optional_timestamptz resolvedAt, dq_ResolutionNote := note,
      dq_UpdatedAt := timestamptz updatedAt\<rparr>"

definition transition_statement ::
  "ID \<Rightarrow> string list \<Rightarrow> string \<Rightarrow> string option \<Rightarrow> time option \<Rightarrow> time \<Rightarrow> DB \<Rightarrow> (driver_error + int) \<times> DB" where
  "transition_statement i source target note resolvedAt updatedAt s =
     (let P = (\<lambda>q. dq_ID q = i \<and> dq_Status q \<in> set source) in
      (Inr (rows_where P (db_issues s)),
       s\<lparr>db_issues := update_where P (transition_row target note resolvedAt updatedAt) (db_issues s)\<rparr>))"

definition transitionIssue ::
  "faults \<Rightarrow> ID \<Rightarrow> string list \<Rightarrow> string \<Rightarrow> string option \<Rightarrow> time option \<Rightarrow> time \<Rightarrow> DB \<Rightarrow> error option \<times> DB" where
  "transitionIssue f i source target note resolvedAt updatedAt s =
     (if ID_IsZero i \<or> IsZero updatedAt then (Some ErrInvalidData, s)
      else case autocommit f (transition_statement i source target note resolvedAt updatedAt) s of
        (Inl e, s') \<Rightarrow> (Some (MapError e), s')
      | (Inr affected, s') \<Rightarrow>
          if affected = 1 then (None, s')
          else (case call_optional f 1 MapError (\<lambda>s. select_by dq_ID i (db_issues s)) s' of
                  (Inl e, s'') \<Rightarrow> (Some e, s'')
                | (Inr None, s'') \<Rightarrow> (Some ErrNotFound, s'')
                | (Inr (Some _), s'') \<Rightarrow> (Some ErrInvalidState, s'')))"

definition AcknowledgeIssue :: "faults \<Rightarrow> ID \<Rightarrow> time \<Rightarrow> DB \<Rightarrow> error option \<times> DB" where
  "AcknowledgeIssue f i updatedAt = transitionIssue f i [iss_open] iss_acknowledged None None updatedAt"

definition ResolveIssue :: "faults \<Rightarrow> ID \<Rightarrow> string \<Rightarrow> time \<Rightarrow> DB \<Rightarrow> error option \<times> DB" where
  "ResolveIssue f i note updatedAt =
     transitionIssue f i [iss_open, iss_acknowledged] iss_resolved (Some note) (Some updatedAt) updatedAt"

definition IgnoreIssue :: "faults \<Rightarrow> ID \<Rightarrow> string \<Rightarrow> time \<Rightarrow> DB \<Rightarrow> error option \<times> DB" where
  "IgnoreIssue f i note updatedAt =
     transitionIssue f i [iss_open, iss_acknowledged] iss_ignored (Some note) (Some updatedAt) updatedAt"
subsection \<open>Checkpoints (ingestion.go)\<close>

definition checkpoint_checks :: "DB \<Rightarrow> IngestionCheckpoint \<Rightarrow> driver_error option" where
  "checkpoint_checks s c = first_failure
     [violates (\<not> int4_ok (cp_ConsecutiveFailures c)) ''22003'' '''',
      violates (cp_ConsecutiveFailures c < 0) ''23514'' ''ck_ingestion_checkpoints_failures'',
      violates (db_checkpoints s (cp_SubscriptionID c) = None \<and> cp_SubscriptionID c \<notin> set (map sub_ID (db_subs s)))
        ''23503'' ''ingestion_checkpoints_subscription_id_fkey'']"

text \<open>\<^verbatim>\<open>INSERT ... ON CONFLICT DO UPDATE\<close>: \<open>merge\<close> makes the row from the one that is there.\<close>

definition upsert_checkpoint :: "ID \<Rightarrow> (IngestionCheckpoint option \<Rightarrow> IngestionCheckpoint) \<Rightarrow> DB \<Rightarrow> (driver_error + unit) \<times> DB" where
  "upsert_checkpoint i merge s = (let c = merge (db_checkpoints s i) in
     case checkpoint_checks s c of
       Some e \<Rightarrow> (Inl e, s)
     | None \<Rightarrow> (Inr (), s\<lparr>db_checkpoints := (db_checkpoints s)(i \<mapsto> c)\<rparr>))"

definition checkpoint_row :: "IngestionCheckpoint \<Rightarrow> IngestionCheckpoint" where
  "checkpoint_row c = c
     \<lparr>cp_LastSuccessOpenTime := optional_timestamptz (cp_LastSuccessOpenTime c),
      cp_LastClosedOpenTime := optional_timestamptz (cp_LastClosedOpenTime c),
      cp_LastAttemptAt := optional_timestamptz (cp_LastAttemptAt c),
      cp_LastSuccessAt := optional_timestamptz (cp_LastSuccessAt c), cp_UpdatedAt := timestamptz (cp_UpdatedAt c)\<rparr>"

definition UpsertCheckpoint :: "faults \<Rightarrow> IngestionCheckpoint \<Rightarrow> DB \<Rightarrow> unit result \<times> DB" where
  "UpsertCheckpoint f c s =
     (if ID_IsZero (cp_SubscriptionID c) \<or> IsZero (cp_UpdatedAt c) then (Inl ErrInvalidData, s)
      else if \<not> int4_ok (cp_ConsecutiveFailures c) then (Inl (ErrPlain ''unable to encode int4''), s)
      else map_errors (autocommit f (upsert_checkpoint (cp_SubscriptionID c) (\<lambda>_. checkpoint_row c)) s))"

text \<open>The \<^verbatim>\<open>CASE ... GREATEST\<close> of the two open times.\<close>

definition greatest_time :: "time option \<Rightarrow> time option \<Rightarrow> time option" where
  "greatest_time stored new = (case new of
     None \<Rightarrow> stored
   | Some n \<Rightarrow> (case stored of None \<Rightarrow> Some n | Some old \<Rightarrow> Some (max old n)))"

definition merge_success :: "IngestionCheckpoint \<Rightarrow> IngestionCheckpoint option \<Rightarrow> IngestionCheckpoint" where
  "merge_success c stored = (let r = checkpoint_row c in case stored of
     None \<Rightarrow> r\<lparr>cp_ConsecutiveFailures := 0\<rparr>
   | Some old \<Rightarrow> r
       \<lparr>cp_LastSuccessOpenTime := greatest_time (cp_LastSuccessOpenTime old) (cp_LastSuccessOpenTime r),
        cp_LastClosedOpenTime := greatest_time (cp_LastClosedOpenTime old) (cp_LastClosedOpenTime r),
        cp_ConsecutiveFailures := 0\<rparr>)"

definition upsertSuccessfulCheckpoint :: "faults \<Rightarrow> nat \<Rightarrow> IngestionCheckpoint \<Rightarrow> unit tx" where
  "upsertSuccessfulCheckpoint f n c = call f n MapError (upsert_checkpoint (cp_SubscriptionID c) (merge_success c))"

definition merge_failures :: "ID \<Rightarrow> time \<Rightarrow> int \<Rightarrow> IngestionCheckpoint option \<Rightarrow> IngestionCheckpoint" where
  "merge_failures i attemptedAt failures stored = (case stored of
     None \<Rightarrow> \<lparr>cp_SubscriptionID = i, cp_LastSuccessOpenTime = None, cp_LastClosedOpenTime = None,
       cp_LastAttemptAt = Some (timestamptz attemptedAt), cp_LastSuccessAt = None, cp_ConsecutiveFailures = failures,
       cp_UpdatedAt = timestamptz attemptedAt\<rparr>
   | Some old \<Rightarrow> old
       \<lparr>cp_LastAttemptAt := Some (timestamptz attemptedAt),
        cp_ConsecutiveFailures := cp_ConsecutiveFailures old + failures, cp_UpdatedAt := timestamptz attemptedAt\<rparr>)"

definition upsertFailedCheckpoint :: "faults \<Rightarrow> nat \<Rightarrow> ID \<Rightarrow> time \<Rightarrow> unit tx" where
  "upsertFailedCheckpoint f n i attemptedAt = call f n MapError (upsert_checkpoint i (merge_failures i attemptedAt 1))"

definition checkpoint_query :: "ID \<Rightarrow> DB \<Rightarrow> driver_error + IngestionCheckpoint" where
  "checkpoint_query i s = (case db_checkpoints s i of None \<Rightarrow> Inl NoRows | Some c \<Rightarrow> Inr (c\<lparr>cp_SubscriptionID := i\<rparr>))"

definition db_LoadSchedulingCheckpoint :: "faults \<Rightarrow> ID \<Rightarrow> DB \<Rightarrow> IngestionCheckpoint option result \<times> DB" where
  "db_LoadSchedulingCheckpoint f i s =
     (if ID_IsZero i then (Inl ErrInvalidData, s) else call_optional f 0 MapError (checkpoint_query i) s)"

end
