(* ===== verification/ExecutionStore.thy ===== *)
theory ExecutionStore
  imports MarketTables
begin

text \<open>
  The PostgreSQL operations of the scheduler and the workers: reading the execution context and the
  scheduling targets, claiming and recovering tasks, and the two commits (repository/postgres/ingestion.go).
  The last section packs the operations into the interfaces the use cases take.
\<close>

subsection \<open>Execution contexts (scan functions of catalog.go and subscription.go)\<close>

definition scanSubscription :: "CollectionSubscription \<Rightarrow> CollectionSubscription result" where
  "scanSubscription row = Inr (row\<lparr>sub_Metadata := normalizedJSON (sub_Metadata row)\<rparr>)"

definition scanAsset :: "Asset \<Rightarrow> Asset result" where
  "scanAsset row =
     bind_result (ParseCode (asset_Code row)) (\<lambda>code.
     bind_result (ParseAssetType (asset_AssetType row)) (\<lambda>assetType.
     bind_result (ParseAssetStatus (asset_Status row)) (\<lambda>status.
       NewAsset (row\<lparr>asset_Code := code, asset_AssetType := assetType, asset_Status := status,
         asset_Metadata := normalizedJSON (asset_Metadata row)\<rparr>))))"

definition scanInstrument :: "platform \<Rightarrow> Instrument \<Rightarrow> Instrument result" where
  "scanInstrument pf row =
     bind_result (ParseCode (inst_Code row)) (\<lambda>code.
     bind_result (ParseInstrumentType (inst_InstrumentType row)) (\<lambda>instrumentType.
     bind_result (ParseInstrumentStatus (inst_Status row)) (\<lambda>status.
       NewInstrument pf (row\<lparr>inst_Code := code, inst_InstrumentType := instrumentType, inst_Status := status,
         inst_Metadata := normalizedJSON (inst_Metadata row)\<rparr>))))"

definition scanProvider :: "Provider \<Rightarrow> Provider result" where
  "scanProvider row =
     bind_result (ParseCode (prov_Code row)) (\<lambda>code.
     bind_result (ParseProviderType (prov_ProviderType row)) (\<lambda>providerType.
     bind_result (ParseProviderStatus (prov_Status row)) (\<lambda>status.
       NewProvider (row\<lparr>prov_Code := code, prov_ProviderType := providerType, prov_Status := status,
         prov_Metadata := normalizedJSON (prov_Metadata row)\<rparr>))))"

text \<open>The capabilities column is read by \<open>ParseProviderCapabilities\<close>, whose result the row holds.\<close>

definition scanProviderInstrument :: "ProviderInstrument \<Rightarrow> ProviderInstrument result" where
  "scanProviderInstrument row =
     bind_result (ParseCode (pi_Code row)) (\<lambda>code.
       NewProviderInstrument (row\<lparr>pi_Code := code, pi_Metadata := normalizedJSON (pi_Metadata row)\<rparr>))"

text \<open>One row by its identity, scanned.\<close>

definition load_row :: "faults \<Rightarrow> nat \<Rightarrow> (DB \<Rightarrow> driver_error + 'a) \<Rightarrow> ('a \<Rightarrow> 'b result) \<Rightarrow> DB \<Rightarrow> 'b result" where
  "load_row f n query scan s = fst (call f n MapError
     (reading (\<lambda>s. case query s of Inl e \<Rightarrow> Inl e | Inr row \<Rightarrow> scanned (scan row))) s)"

definition db_LoadExecutionContext :: "platform \<Rightarrow> faults \<Rightarrow> ID \<Rightarrow> DB \<Rightarrow> ExecutionContext result" where
  "db_LoadExecutionContext pf f i s =
     checked (guard (ID_IsZero i) ErrInvalidData)
     (bind_result (load_row f 0 (\<lambda>s. select_by sub_ID i (db_subs s)) scanSubscription s) (\<lambda>subscription.
      bind_result (load_row f 1 (\<lambda>s. select_by pi_ID (sub_ProviderInstrumentID subscription) (db_mappings s))
        scanProviderInstrument s) (\<lambda>mapping.
      bind_result (load_row f 2 (\<lambda>s. select_by prov_ID (pi_ProviderID mapping) (db_providers s)) scanProvider s) (\<lambda>provider.
      bind_result (load_row f 3 (\<lambda>s. select_by inst_ID (pi_InstrumentID mapping) (db_instruments s)) (scanInstrument pf) s)
        (\<lambda>instrument.
      bind_result (load_row f 4 (\<lambda>s. select_by asset_ID (inst_AssetID instrument) (db_assets s)) scanAsset s) (\<lambda>asset.
        let execution = \<lparr>ec_Subscription = subscription, ec_Asset = asset, ec_Instrument = instrument,
              ec_Provider = provider, ec_ProviderInstrument = mapping\<rparr>
        in checked (ExecutionContext_Validate pf execution) (Inr execution)))))))"

subsection \<open>Scheduling targets\<close>

definition target_effective :: "source_row \<Rightarrow> time \<Rightarrow> bool" where
  "target_effective r t \<longleftrightarrow> sub_Enabled (sr_Subscription r) \<and> mapping_effective r t \<and> asset_Status (sr_Asset r) = ''active''"

text \<open>Identities in order; \<^verbatim>\<open>uuid\<close> values compare as 128-bit numbers.\<close>

definition target_ids :: "ID option \<Rightarrow> int \<Rightarrow> time \<Rightarrow> DB \<Rightarrow> ID list" where
  "target_ids afterID n effectiveAt s = take (nat n) (sort
     [sub_ID sub. sub \<leftarrow> db_subs s, opt_all (\<lambda>a. sub_ID sub > a) afterID,
        r \<leftarrow> source_rows s sub, target_effective r (timestamptz effectiveAt)])"

definition target_of :: "ExecutionContext \<Rightarrow> SchedulingTarget" where
  "target_of e = \<lparr>st_Subscription = ec_Subscription e, st_ProviderCode = prov_Code (ec_Provider e),
     st_ProviderMarket = pi_ProviderMarket (ec_ProviderInstrument e), st_InstrumentCode = inst_Code (ec_Instrument e),
     st_AssetType = asset_AssetType (ec_Asset e), st_InstrumentType = inst_InstrumentType (ec_Instrument e),
     st_Capabilities = pi_Capabilities (ec_ProviderInstrument e)\<rparr>"

definition load_target :: "platform \<Rightarrow> faults \<Rightarrow> DB \<Rightarrow> ID \<Rightarrow> SchedulingTarget result" where
  "load_target pf f s i = bind_result (db_LoadExecutionContext pf f i s) (\<lambda>e.
     checked (SchedulingTarget_Validate (target_of e)) (Inr (target_of e)))"

text \<open>\<open>fs k\<close> are the faults of the k-th target's reads.\<close>

fun load_targets :: "platform \<Rightarrow> (nat \<Rightarrow> faults) \<Rightarrow> nat \<Rightarrow> DB \<Rightarrow> ID list \<Rightarrow> SchedulingTarget list result" where
  "load_targets pf fs k s [] = Inr []"
| "load_targets pf fs k s (i # ids) = bind_result (load_target pf (fs k) s i) (\<lambda>t.
     bind_result (load_targets pf fs (Suc k) s ids) (\<lambda>ts. Inr (t # ts)))"

definition db_ListSchedulingTargets ::
  "platform \<Rightarrow> faults \<Rightarrow> (nat \<Rightarrow> faults) \<Rightarrow> ID option \<Rightarrow> int \<Rightarrow> time \<Rightarrow> DB \<Rightarrow> SchedulingTargetPage result" where
  "db_ListSchedulingTargets pf f fs afterID limit effectiveAt s =
     (if limit < 1 \<or> limit > 100 \<or> IsZero effectiveAt \<or> \<not> opt_all (\<lambda>i. \<not> ID_IsZero i) afterID then Inl ErrInvalidData
      else case fault_at f 0 of Some e \<Rightarrow> Inl (MapError e) | None \<Rightarrow>
        (let ids = target_ids afterID (limit + 1) effectiveAt s;
             more = int (length ids) > limit
         in bind_result (load_targets pf fs 0 s (if more then take (nat limit) ids else ids)) (\<lambda>items.
              Inr \<lparr>stp_Items = items, stp_NextAfterID = (if more then Some (ids ! nat (limit - 1)) else None)\<rparr>)))"

definition closed_open_times :: "SchedulingTarget \<Rightarrow> time \<Rightarrow> time \<Rightarrow> DB \<Rightarrow> time list" where
  "closed_open_times target rangeStart rangeEnd s = sort
     [bar_OpenTime b. b \<leftarrow> db_bars s, bar_ProviderInstrumentID b = sub_ProviderInstrumentID (st_Subscription target),
        bar_Interval b = sub_Interval (st_Subscription target),
        bar_OpenTime b \<ge> timestamptz rangeStart, bar_OpenTime b < timestamptz rangeEnd,
        bar_IsCurrent b, bar_IsClosed b, bar_QualityStatus b \<in> set [''valid'', ''warning'']]"

definition db_ListClosedBarOpenTimes :: "faults \<Rightarrow> SchedulingTarget \<Rightarrow> time \<Rightarrow> time \<Rightarrow> DB \<Rightarrow> time list result" where
  "db_ListClosedBarOpenTimes f target rangeStart rangeEnd s =
     (if SchedulingTarget_Validate target \<noteq> None \<or> IsZero rangeStart \<or> IsZero rangeEnd \<or> \<not> rangeEnd > rangeStart
      then Inl ErrInvalidData
      else case fault_at f 0 of Some e \<Rightarrow> Inl (MapError e) | None \<Rightarrow> Inr (closed_open_times target rangeStart rangeEnd s))"

text \<open>The default order of the mappings of an instrument: default first, then priority, then code.\<close>

definition mapping_first :: "ProviderInstrument \<Rightarrow> ProviderInstrument \<Rightarrow> bool" where
  "mapping_first m n \<longleftrightarrow>
     (if pi_IsDefault m \<noteq> pi_IsDefault n then pi_IsDefault m
      else if pi_Priority m \<noteq> pi_Priority n then pi_Priority m < pi_Priority n
      else text_before (pi_Code m) (pi_Code n))"

definition mapping_before :: "source_row \<Rightarrow> source_row \<Rightarrow> bool" where
  "mapping_before a b \<longleftrightarrow> mapping_first (sr_Mapping a) (sr_Mapping b)"

fun best_row :: "source_row list \<Rightarrow> source_row option" where
  "best_row [] = None"
| "best_row (r # rs) = (case best_row rs of None \<Rightarrow> Some r | Some b \<Rightarrow> Some (if mapping_before b r then b else r))"

definition backfill_rows :: "Code \<Rightarrow> Code \<Rightarrow> BarInterval \<Rightarrow> time \<Rightarrow> DB \<Rightarrow> source_row list" where
  "backfill_rows providerCode instrumentCode interval t s =
     [r. sub \<leftarrow> db_subs s, sub_Interval sub = interval, sub_Enabled sub, r \<leftarrow> source_rows s sub,
        prov_Code (sr_Provider r) = providerCode, inst_Code (sr_Instrument r) = instrumentCode, mapping_effective r t]"

definition db_ResolveBackfillTarget ::
  "platform \<Rightarrow> faults \<Rightarrow> faults \<Rightarrow> Code \<Rightarrow> Code \<Rightarrow> BarInterval \<Rightarrow> time \<Rightarrow> DB \<Rightarrow> ExecutionContext result" where
  "db_ResolveBackfillTarget pf f g providerCode instrumentCode interval effectiveAt s =
     (if Code_IsZero providerCode \<or> Code_IsZero instrumentCode \<or> IsZero effectiveAt
         \<or> err_of (ParseBarInterval interval) \<noteq> None
      then Inl ErrInvalidData
      else case fault_at f 0 of Some e \<Rightarrow> Inl (MapError e) | None \<Rightarrow>
        (case best_row (backfill_rows providerCode instrumentCode interval (timestamptz effectiveAt) s) of
           None \<Rightarrow> Inl (MapError NoRows)
         | Some r \<Rightarrow> db_LoadExecutionContext pf g (sub_ID (sr_Subscription r)) s))"
subsection \<open>Claiming\<close>

definition claimable :: "time \<Rightarrow> IngestionTask \<Rightarrow> bool" where
  "claimable now t \<longleftrightarrow> task_Status t = st_pending
     \<or> (task_Status t = st_retry_wait \<and> (case task_NextAttemptAt t of None \<Rightarrow> False | Some due \<Rightarrow> due \<le> timestamptz now))"

text \<open>\<open>locked\<close> are the tasks whose rows other transactions hold; \<^verbatim>\<open>SKIP LOCKED\<close> passes over them.\<close>

definition claim_candidate :: "ID set \<Rightarrow> time \<Rightarrow> IngestionTask list \<Rightarrow> IngestionTask option" where
  "claim_candidate locked now ts =
     (case sort_key task_CreatedAt (filter (\<lambda>t. claimable now t \<and> task_ID t \<notin> locked) ts) of
        [] \<Rightarrow> None | t # _ \<Rightarrow> Some t)"

definition claim_row :: "string \<Rightarrow> time \<Rightarrow> time \<Rightarrow> IngestionTask \<Rightarrow> IngestionTask" where
  "claim_row workerID now leaseUntil t = t
     \<lparr>task_Status := st_running, task_LockedBy := Some workerID, task_LockedUntil := Some (timestamptz leaseUntil),
      task_AttemptCount := task_AttemptCount t + 1, task_NextAttemptAt := None,
      task_StartedAt := Some (timestamptz now), task_UpdatedAt := timestamptz now\<rparr>"

definition claim_statement :: "ID set \<Rightarrow> string \<Rightarrow> time \<Rightarrow> time \<Rightarrow> DB \<Rightarrow> (driver_error + IngestionTask) \<times> DB" where
  "claim_statement locked workerID now leaseUntil s =
     (case claim_candidate locked now (db_tasks s) of
        None \<Rightarrow> (Inl NoRows, s)
      | Some t \<Rightarrow>
          (case first_failure [violates (\<not> int4_ok (task_AttemptCount t + 1)) ''22003'' '''',
                  violates (\<not> varchar_ok 128 workerID) ''22001'' ''''] of
             Some e \<Rightarrow> (Inl e, s)
           | None \<Rightarrow> (Inr (claim_row workerID now leaseUntil t),
               s\<lparr>db_tasks := update_where (\<lambda>u. task_ID u = task_ID t) (claim_row workerID now leaseUntil) (db_tasks s)\<rparr>)))"

definition ClaimNextTask :: "faults \<Rightarrow> ID set \<Rightarrow> string \<Rightarrow> time \<Rightarrow> duration \<Rightarrow> DB \<Rightarrow> TaskClaim option result \<times> DB" where
  "ClaimNextTask f locked workerID now leaseDuration s =
     (if workerID = [] \<or> IsZero now \<or> leaseDuration \<le> 0 then (Inl ErrInvalidData, s)
      else case autocommit f (claim_statement locked workerID now (now + leaseDuration)) s of
        (Inl NoRows, s') \<Rightarrow> (Inr None, s')
      | (Inl e, s') \<Rightarrow> (Inl (MapError e), s')
      | (Inr t, s') \<Rightarrow> (Inr (Some \<lparr>claim_Task = t\<rparr>), s'))"

subsection \<open>Recovery of expired leases\<close>

definition lease_expired :: "time \<Rightarrow> IngestionTask \<Rightarrow> bool" where
  "lease_expired now t \<longleftrightarrow> task_Status t = st_running
     \<and> (case task_LockedUntil t of None \<Rightarrow> False | Some u \<Rightarrow> u < timestamptz now)"

definition recover_row :: "time \<Rightarrow> IngestionTask \<Rightarrow> IngestionTask" where
  "recover_row now t = (let exhausted = task_AttemptCount t \<ge> task_MaxAttempts t in t
     \<lparr>task_Status := (if exhausted then st_failed else st_pending), task_NextAttemptAt := None,
      task_LockedBy := None, task_LockedUntil := None,
      task_FinishedAt := (if exhausted then Some (timestamptz now) else None),
      task_ErrorCode := Some ''lease_expired'', task_ErrorMessage := Some ''worker lease expired before completion'',
      task_ErrorDetails := emptyJSONObject, task_UpdatedAt := timestamptz now\<rparr>)"

text \<open>The checkpoint of every subscription of a recovered task counts its failures.\<close>

fun recover_checkpoints :: "time \<Rightarrow> (ID \<times> int) list \<Rightarrow> DB \<Rightarrow> (driver_error + unit) \<times> DB" where
  "recover_checkpoints now [] s = (Inr (), s)"
| "recover_checkpoints now ((i, n) # rest) s =
     (case upsert_checkpoint i (merge_failures i now n) s of
        (Inl e, _) \<Rightarrow> (Inl e, s)
      | (Inr _, s') \<Rightarrow> recover_checkpoints now rest s')"

definition failure_counts :: "IngestionTask list \<Rightarrow> (ID \<times> int) list" where
  "failure_counts ts = map (\<lambda>i. (i, int (length (filter (\<lambda>t. task_SubscriptionID t = i) ts))))
     (remdups (map task_SubscriptionID ts))"

definition recover_statement :: "ID set \<Rightarrow> time \<Rightarrow> DB \<Rightarrow> (driver_error + int) \<times> DB" where
  "recover_statement locked now s =
     (let P = (\<lambda>t. lease_expired now t \<and> task_ID t \<notin> locked); expired = filter P (db_tasks s) in
      case recover_checkpoints now (failure_counts expired)
             (s\<lparr>db_tasks := update_where P (recover_row now) (db_tasks s)\<rparr>) of
        (Inl e, _) \<Rightarrow> (Inl e, s)
      | (Inr _, s') \<Rightarrow> (Inr (int (length expired)), s'))"

definition db_RecoverExpiredTasks :: "faults \<Rightarrow> ID set \<Rightarrow> time \<Rightarrow> DB \<Rightarrow> int result \<times> DB" where
  "db_RecoverExpiredTasks f locked now s =
     (if IsZero now then (Inl ErrInvalidData, s) else map_errors (autocommit f (recover_statement locked now) s))"

subsection \<open>Commits\<close>

text \<open>The checks of a claim shared by both commits: a running task with an unexpired lease.\<close>

definition claim_check :: "IngestionTask \<Rightarrow> time \<Rightarrow> error option" where
  "claim_check t finishedAt = guard
     (ID_IsZero (task_ID t) \<or> ID_IsZero (task_SubscriptionID t) \<or> task_Status t \<noteq> st_running \<or> task_AttemptCount t \<le> 0
      \<or> (case task_LockedBy t of None \<Rightarrow> True | Some by \<Rightarrow> by = [])
      \<or> (case task_LockedUntil t of None \<Rightarrow> True | Some u \<Rightarrow> IsZero finishedAt \<or> \<not> u > finishedAt)) ErrInvalidData"

definition validateFailureCommit :: "FailureCommit \<Rightarrow> error option" where
  "validateFailureCommit c = first_error
     [claim_check (claim_Task (fc_Claim c)) (fc_FinishedAt c),
      guard (task_MaxAttempts (claim_Task (fc_Claim c)) \<le> 0) ErrInvalidData,
      guard (fc_Status c \<noteq> st_retry_wait \<and> fc_Status c \<noteq> st_failed) ErrInvalidData,
      guard ((fc_Status c = st_retry_wait) \<noteq> (fc_NextAttemptAt c \<noteq> None)
        \<or> \<not> opt_all (\<lambda>t. t > fc_FinishedAt c) (fc_NextAttemptAt c)) ErrInvalidData,
      guard (TrimSpace (fc_ErrorCode c) \<noteq> fc_ErrorCode c \<or> fc_ErrorCode c = [] \<or> RuneCountInString (fc_ErrorCode c) > 64
        \<or> TrimSpace (fc_ErrorMessage c) \<noteq> fc_ErrorMessage c \<or> fc_ErrorMessage c = []
        \<or> RuneCountInString (fc_ErrorMessage c) > 512) ErrInvalidData,
      guard (\<not> isJSONObject (fc_ErrorDetails c)) ErrInvalidData]"

text \<open>The loop over the bars of a success, with the keys seen.\<close>

fun success_bars_loop :: "(ID \<times> ID \<times> string \<times> time) set \<Rightarrow> Bar list \<Rightarrow> error option" where
  "success_bars_loop seen [] = None"
| "success_bars_loop seen (b # bs) =
     (case NewBar b of
        Inl e \<Rightarrow> Some e
      | Inr _ \<Rightarrow>
          (let key = (bar_InstrumentID b, bar_ProviderInstrumentID b, bar_Interval b, bar_OpenTime b) in
           if key \<in> seen then Some ErrInvalidData else success_bars_loop (insert key seen) bs))"

definition success_issue_check :: "DataQualityIssue \<Rightarrow> error option" where
  "success_issue_check q = guard (ID_IsZero (dq_ID q) \<or> ID_IsZero (dq_InstrumentID q) \<or> dq_RuleCode q = []
     \<or> dq_Severity q = [] \<or> dq_Summary q = [] \<or> IsZero (dq_DetectedAt q) \<or> IsZero (dq_CreatedAt q)
     \<or> IsZero (dq_UpdatedAt q)) ErrInvalidData"

definition validateSuccessCommit :: "SuccessCommit \<Rightarrow> error option" where
  "validateSuccessCommit c = first_error
     [claim_check (claim_Task (sc_Claim c)) (sc_FinishedAt c),
      guard (cp_SubscriptionID (sc_Checkpoint c) \<noteq> task_SubscriptionID (claim_Task (sc_Claim c))
        \<or> IsZero (cp_UpdatedAt (sc_Checkpoint c)) \<or> cp_LastAttemptAt (sc_Checkpoint c) = None
        \<or> cp_LastSuccessAt (sc_Checkpoint c) = None) ErrInvalidData,
      success_bars_loop {} (sc_Bars c),
      first_error (map success_issue_check (sc_Issues c))]"

text \<open>The fence: the locked row still carries the attempt, the worker and the lease of the claim.\<close>

definition lease_matches :: "IngestionTask \<Rightarrow> IngestionTask \<Rightarrow> time \<Rightarrow> bool" where
  "lease_matches row claim finishedAt \<longleftrightarrow>
     task_Status row = st_running \<and> task_AttemptCount row = task_AttemptCount claim
     \<and> task_SubscriptionID row = task_SubscriptionID claim
     \<and> task_LockedBy row \<noteq> None \<and> task_LockedBy row = task_LockedBy claim
     \<and> (case task_LockedUntil row of None \<Rightarrow> False
        | Some u \<Rightarrow> u = TimeToDatabase (the (task_LockedUntil claim)) \<and> u > finishedAt)"

definition lockAndValidateFailureClaim :: "faults \<Rightarrow> nat \<Rightarrow> FailureCommit \<Rightarrow> unit tx" where
  "lockAndValidateFailureClaim f n c =
     tx_bind (call_optional f n MapError (\<lambda>s. select_by task_ID (task_ID (claim_Task (fc_Claim c))) (db_tasks s))) (\<lambda>found.
       case found of
         None \<Rightarrow> tx_fail ErrTaskLeaseLost
       | Some row \<Rightarrow> tx_check (guard (\<not> lease_matches row (claim_Task (fc_Claim c)) (fc_FinishedAt c)) ErrTaskLeaseLost))"

definition claimed_source_query :: "ID \<Rightarrow> DB \<Rightarrow> driver_error + IngestionTask \<times> CollectionSubscription \<times> ProviderInstrument" where
  "claimed_source_query i s = first_row
     [(t, sub, m). t \<leftarrow> db_tasks s, task_ID t = i, sub \<leftarrow> db_subs s, sub_ID sub = task_SubscriptionID t,
        m \<leftarrow> db_mappings s, pi_ID m = sub_ProviderInstrumentID sub]"

definition bar_of_source :: "CollectionSubscription \<Rightarrow> ProviderInstrument \<Rightarrow> Bar \<Rightarrow> bool" where
  "bar_of_source sub m b \<longleftrightarrow> bar_InstrumentID b = pi_InstrumentID m
     \<and> bar_ProviderInstrumentID b = sub_ProviderInstrumentID sub \<and> bar_Interval b = sub_Interval sub"

definition issue_of_source :: "CollectionSubscription \<Rightarrow> ProviderInstrument \<Rightarrow> DataQualityIssue \<Rightarrow> bool" where
  "issue_of_source sub m q \<longleftrightarrow> dq_InstrumentID q = pi_InstrumentID m
     \<and> dq_ProviderInstrumentID q = Some (sub_ProviderInstrumentID sub)
     \<and> opt_all (\<lambda>v. v = sub_Interval sub) (dq_Interval q)"

definition lockAndValidateTaskClaim :: "faults \<Rightarrow> nat \<Rightarrow> SuccessCommit \<Rightarrow> unit tx" where
  "lockAndValidateTaskClaim f n c =
     tx_bind (call_optional f n MapError (claimed_source_query (task_ID (claim_Task (sc_Claim c))))) (\<lambda>found. case found of
       None \<Rightarrow> tx_fail ErrTaskLeaseLost
     | Some (row, sub, m) \<Rightarrow> tx_check (first_error
         [guard (\<not> lease_matches row (claim_Task (sc_Claim c)) (sc_FinishedAt c)) ErrTaskLeaseLost,
          guard (\<not> list_all (bar_of_source sub m) (sc_Bars c)) ErrInvalidData,
          guard (\<not> list_all (issue_of_source sub m) (sc_Issues c)) ErrInvalidData]))"

text \<open>The loops over the bars (three slots each) and over the issues (one slot each).\<close>

fun write_bars :: "faults \<Rightarrow> nat \<Rightarrow> Bar list \<Rightarrow> unit tx" where
  "write_bars f n [] = tx_return ()"
| "write_bars f n (b # bs) = tx_bind (writeMarketBarInTransaction f n b) (\<lambda>_. write_bars f (n + 3) bs)"

fun open_issues :: "faults \<Rightarrow> nat \<Rightarrow> DataQualityIssue list \<Rightarrow> unit tx" where
  "open_issues f n [] = tx_return ()"
| "open_issues f n (q # qs) = tx_bind (openQualityIssue (in_transaction f n) q) (\<lambda>_. open_issues f (n + 1) qs)"

definition still_claimed :: "IngestionTask \<Rightarrow> time \<Rightarrow> IngestionTask \<Rightarrow> bool" where
  "still_claimed claim finishedAt t \<longleftrightarrow> task_ID t = task_ID claim \<and> task_Status t = st_running
     \<and> task_AttemptCount t = task_AttemptCount claim \<and> task_LockedBy t = task_LockedBy claim
     \<and> task_LockedUntil t = optional_timestamptz (task_LockedUntil claim)
     \<and> opt_all (\<lambda>u. u > timestamptz finishedAt) (task_LockedUntil t)"

definition success_row :: "time \<Rightarrow> IngestionTask \<Rightarrow> IngestionTask" where
  "success_row finishedAt t = t
     \<lparr>task_Status := st_success, task_NextAttemptAt := None, task_LockedBy := None, task_LockedUntil := None,
      task_FinishedAt := Some (timestamptz finishedAt), task_ErrorCode := None, task_ErrorMessage := None,
      task_ErrorDetails := emptyJSONObject, task_UpdatedAt := timestamptz finishedAt\<rparr>"

definition failure_row :: "FailureCommit \<Rightarrow> IngestionTask \<Rightarrow> IngestionTask" where
  "failure_row c t = t
     \<lparr>task_Status := fc_Status c, task_NextAttemptAt := optional_timestamptz (fc_NextAttemptAt c),
      task_LockedBy := None, task_LockedUntil := None,
      task_FinishedAt := (if fc_Status c = st_failed then Some (timestamptz (fc_FinishedAt c)) else None),
      task_ErrorCode := Some (fc_ErrorCode c), task_ErrorMessage := Some (fc_ErrorMessage c),
      task_ErrorDetails := fc_ErrorDetails c, task_UpdatedAt := timestamptz (fc_FinishedAt c)\<rparr>"

definition finish_statement ::
  "IngestionTask \<Rightarrow> time \<Rightarrow> (IngestionTask \<Rightarrow> IngestionTask) \<Rightarrow> DB \<Rightarrow> (driver_error + int) \<times> DB" where
  "finish_statement claim finishedAt row s = (let P = still_claimed claim finishedAt in
     (Inr (rows_where P (db_tasks s)), s\<lparr>db_tasks := update_where P row (db_tasks s)\<rparr>))"

definition finish_task :: "faults \<Rightarrow> nat \<Rightarrow> IngestionTask \<Rightarrow> time \<Rightarrow> (IngestionTask \<Rightarrow> IngestionTask) \<Rightarrow> unit tx" where
  "finish_task f n claim finishedAt row =
     tx_bind (call f n MapError (finish_statement claim finishedAt row)) (\<lambda>affected.
       tx_check (guard (affected \<noteq> 1) ErrTaskLeaseLost))"

definition success_body :: "faults \<Rightarrow> SuccessCommit \<Rightarrow> unit tx" where
  "success_body f c = (let n = 2 + 3 * length (sc_Bars c); m = n + length (sc_Issues c) in
     tx_bind (lockAndValidateTaskClaim f 1 c) (\<lambda>_.
     tx_bind (write_bars f 2 (sc_Bars c)) (\<lambda>_.
     tx_bind (open_issues f n (sc_Issues c)) (\<lambda>_.
     tx_bind (upsertSuccessfulCheckpoint f m (sc_Checkpoint c)) (\<lambda>_.
       finish_task f (m + 1) (claim_Task (sc_Claim c)) (sc_FinishedAt c) (success_row (sc_FinishedAt c)))))))"

definition db_CommitSuccess :: "faults \<Rightarrow> SuccessCommit \<Rightarrow> DB \<Rightarrow> unit result \<times> DB" where
  "db_CommitSuccess f c s =
     (case validateSuccessCommit c of Some e \<Rightarrow> (Inl e, s) | None \<Rightarrow> transaction f (success_body f c) s)"

definition failure_body :: "faults \<Rightarrow> FailureCommit \<Rightarrow> unit tx" where
  "failure_body f c =
     tx_bind (lockAndValidateFailureClaim f 1 c) (\<lambda>_.
     tx_bind (upsertFailedCheckpoint f 2 (task_SubscriptionID (claim_Task (fc_Claim c))) (fc_FinishedAt c)) (\<lambda>_.
       finish_task f 3 (claim_Task (fc_Claim c)) (fc_FinishedAt c) (failure_row c)))"

definition db_CommitFailure :: "faults \<Rightarrow> FailureCommit \<Rightarrow> DB \<Rightarrow> unit result \<times> DB" where
  "db_CommitFailure f c s =
     (case validateFailureCommit c of Some e \<Rightarrow> (Inl e, s) | None \<Rightarrow> transaction f (failure_body f c) s)"
subsection \<open>The interfaces of the use cases\<close>

text \<open>
  A session is what the operations of one client meet: before its n-th operation the other clients
  change the database by \<open>ses_others n\<close> and hold the task rows \<open>ses_locked n\<close>; the operation has the
  faults \<open>ses_faults n\<close>, and \<open>ses_nested n k\<close> in the k-th of the reads it makes after its first.
\<close>

record session =
  ses_others :: "nat \<Rightarrow> DB \<Rightarrow> DB"
  ses_locked :: "nat \<Rightarrow> ID set"
  ses_faults :: "nat \<Rightarrow> faults"
  ses_nested :: "nat \<Rightarrow> nat \<Rightarrow> faults"

record client =
  cl_db :: DB
  cl_calls :: nat

definition on_db :: "session \<Rightarrow> (nat \<Rightarrow> DB \<Rightarrow> 'r \<times> DB) \<Rightarrow> client \<Rightarrow> 'r \<times> client" where
  "on_db ses operation c =
     (case operation (cl_calls c) (ses_others ses (cl_calls c) (cl_db c)) of
        (r, s) \<Rightarrow> (r, \<lparr>cl_db = s, cl_calls = Suc (cl_calls c)\<rparr>))"

definition pure_read :: "(DB \<Rightarrow> 'r) \<Rightarrow> DB \<Rightarrow> 'r \<times> DB" where
  "pure_read query s = (query s, s)"

definition as_error :: "unit result \<times> DB \<Rightarrow> error option \<times> DB" where
  "as_error r = (err_of (fst r), snd r)"

definition postgres_store :: "platform \<Rightarrow> session \<Rightarrow> client Store" where
  "postgres_store pf ses =
     \<lparr>LoadRunTaskSnapshot = (\<lambda>i. on_db ses (\<lambda>n. db_LoadRunTaskSnapshot (ses_faults ses n) i)),
      SaveRunSummary = (\<lambda>r. on_db ses (\<lambda>n. db_SaveRunSummary (ses_faults ses n) r)),
      LoadExecutionContext = (\<lambda>i. on_db ses (\<lambda>n. pure_read (db_LoadExecutionContext pf (ses_faults ses n) i))),
      CommitSuccess = (\<lambda>c. on_db ses (\<lambda>n s. as_error (db_CommitSuccess (ses_faults ses n) c s))),
      CommitFailure = (\<lambda>c. on_db ses (\<lambda>n s. as_error (db_CommitFailure (ses_faults ses n) c s)))\<rparr>"

definition postgres_scheduling :: "platform \<Rightarrow> session \<Rightarrow> client IncrementalStore" where
  "postgres_scheduling pf ses =
     \<lparr>ListSchedulingTargets = (\<lambda>afterID limit t. on_db ses (\<lambda>n.
        pure_read (db_ListSchedulingTargets pf (ses_faults ses n) (ses_nested ses n) afterID limit t))),
      LoadSchedulingCheckpoint = (\<lambda>i. on_db ses (\<lambda>n. db_LoadSchedulingCheckpoint (ses_faults ses n) i)),
      ListClosedBarOpenTimes = (\<lambda>target a b. on_db ses (\<lambda>n.
        pure_read (db_ListClosedBarOpenTimes (ses_faults ses n) target a b))),
      CreateScheduledBatch = (\<lambda>batch. on_db ses (\<lambda>n. db_CreateScheduledBatch pf (ses_faults ses n) batch)),
      RecoverExpiredTasks = (\<lambda>t. on_db ses (\<lambda>n. db_RecoverExpiredTasks (ses_faults ses n) (ses_locked ses n) t))\<rparr>"

definition postgres_backfills :: "platform \<Rightarrow> session \<Rightarrow> client BackfillStore" where
  "postgres_backfills pf ses =
     \<lparr>ResolveBackfillTarget = (\<lambda>p i v t. on_db ses (\<lambda>n.
        pure_read (db_ResolveBackfillTarget pf (ses_faults ses n) (ses_nested ses n 0) p i v t))),
      CreateBackfillRunWithTask = (\<lambda>run task. on_db ses (\<lambda>n s.
        as_error (db_CreateBackfillRunWithTask pf (ses_faults ses n) run task s)))\<rparr>"

definition postgres_manual_tasks :: "platform \<Rightarrow> session \<Rightarrow> client ManualTaskStore" where
  "postgres_manual_tasks pf ses =
     \<lparr>CreateManualRetry = (\<lambda>c. on_db ses (\<lambda>n s. as_error (db_CreateManualRetry pf (ses_faults ses n) c s))),
      CancelTaskWithAudit = (\<lambda>i audit t. on_db ses (\<lambda>n. db_CancelTaskWithAudit pf (ses_faults ses n) i audit t))\<rparr>"

end
