(* ===== verification/TaskLifecycle.thy ===== *)
theory TaskLifecycle
  imports ExecutionStore
begin

text \<open>
  The life of a task over all the operations of the repository. Each operation's effect on the table of
  tasks is first reduced to one of three forms (\<open>tasks_change\<close>): nothing, one new pending task, or the
  moves of some rows. The invariants of the reachable states follow from these forms.
\<close>

subsection \<open>What a transaction that returned has done\<close>

named_theorems tx_elims \<open>eliminations of a step that returned a value\<close>

lemma tx_bind_E [tx_elims]:
  assumes "tx_bind m g s = (Inr v, s')"
  obtains w s1 where "m s = (Inr w, s1)" "g w s1 = (Inr v, s')"
  using tx_bind_Inr [OF assms] by blast

lemma call_E [tx_elims]:
  assumes "call f n me st s = (Inr v, s')"
  obtains "st s = (Inr v, s')" "fault_at f n = None"
  using call_Inr [OF assms] that by simp

lemma call_optional_E [tx_elims]:
  assumes "call_optional f n me q s = (Inr v, s')"
  obtains "s' = s" "v = None" "q s = Inl NoRows" | r where "s' = s" "v = Some r" "q s = Inr r"
  using call_optional_Inr [OF assms] by (cases v) auto

lemma tx_check_E [tx_elims]:
  assumes "tx_check c s = (Inr v, s')"
  obtains "c = None" "s' = s"
  using assms by (auto simp: tx_check_Inr)

lemma tx_return_E [tx_elims]:
  assumes "tx_return w s = (Inr v, s')"
  obtains "w = v" "s' = s"
  using assms by (simp add: tx_return_def)

lemma tx_fail_E [tx_elims]: "tx_fail e s = (Inr v, s') \<Longrightarrow> Q"
  by (simp add: tx_fail_def)

lemma reading_Inr: "reading q s = (Inr v, s') \<longleftrightarrow> q s = Inr v \<and> s' = s"
  by (auto simp: reading_def)

lemma first_row_Inr: "first_row rows = Inr r \<Longrightarrow> r \<in> set rows"
  by (auto simp: first_row_def split: list.splits)

subsection \<open>Statements\<close>

lemma insert_run_Inr:
  assumes "insert_run run s = (Inr v, s')"
  shows "s' = s\<lparr>db_runs := db_runs s @ [runArguments run]\<rparr> \<and> run_row_checks (runArguments run) = None
    \<and> run_ID run \<notin> set (map run_ID (db_runs s)) \<and> run_RunKey run \<notin> set (map run_RunKey (db_runs s))"
  using assms by (auto simp: insert_run_def Let_def run_id_taken_def run_key_taken_def runArguments_def
      split: option.splits)

lemma insert_run_if_new_Inr:
  assumes "insert_run_if_new run s = (Inr v, s')"
  shows "(\<not> v \<and> s' = s \<and> run_RunKey run \<in> set (map run_RunKey (db_runs s)))
    \<or> (v \<and> s' = s\<lparr>db_runs := db_runs s @ [runArguments run]\<rparr> \<and> run_row_checks (runArguments run) = None
        \<and> run_ID run \<notin> set (map run_ID (db_runs s)) \<and> run_RunKey run \<notin> set (map run_RunKey (db_runs s)))"
  using assms by (auto simp: insert_run_if_new_def Let_def run_id_taken_def run_key_taken_def runArguments_def
      split: option.splits if_splits)

lemma insert_run_if_new_False: "insert_run_if_new run s = (Inr False, s') \<Longrightarrow> s' = s"
  by (drule insert_run_if_new_Inr) simp

lemma insert_task_Inr:
  assumes "insert_task task s = (Inr v, s')"
  shows "s' = s\<lparr>db_tasks := db_tasks s @ [taskArguments task]\<rparr> \<and> task_row_checks (taskArguments task) = None
    \<and> task_references s (taskArguments task) = None"
  using assms by (auto simp: insert_task_def Let_def split: option.splits)

lemma require_enabled_E [tx_elims]:
  assumes "require_enabled f n i s = (Inr v, s')"
  obtains sub where "s' = s" "select_by sub_ID i (db_subs s) = Inr sub" "sub_Enabled sub"
  using assms unfolding require_enabled_def
  by (auto simp: reading_Inr select_enabled_def elim!: tx_elims) (cases "select_by sub_ID i (db_subs s)"; auto)

subsection \<open>The moves of a task\<close>

inductive task_move :: "IngestionTask \<Rightarrow> IngestionTask \<Rightarrow> bool" where
  claim: "claimable now t \<Longrightarrow> task_move t (claim_row worker now leaseUntil t)"
| cancel: "task_Status t \<in> set active_statuses \<Longrightarrow> task_move t (cancel_row canceledBy reason now t)"
| recover: "lease_expired now t \<Longrightarrow> task_move t (recover_row now t)"
| succeed: "task_Status t = st_running \<Longrightarrow> task_move t (success_row finishedAt t)"
| fail: "\<lbrakk>task_Status t = st_running; validateFailureCommit c = None;
    fc_Status c = st_retry_wait \<Longrightarrow> task_AttemptCount t < task_MaxAttempts t\<rbrakk> \<Longrightarrow> task_move t (failure_row c t)"

inductive_cases task_move_cases: "task_move t t'"

text \<open>A task as the creating operations insert it.\<close>

definition new_task :: "IngestionTask \<Rightarrow> bool" where
  "new_task t \<longleftrightarrow> task_Status t = st_pending \<and> task_AttemptCount t = 0 \<and> 1 \<le> task_MaxAttempts t
     \<and> task_RangeStart t < task_RangeEnd t \<and> task_NextAttemptAt t = None \<and> task_LockedBy t = None
     \<and> task_LockedUntil t = None \<and> task_StartedAt t = None \<and> task_FinishedAt t = None"

definition tasks_moved :: "IngestionTask list \<Rightarrow> IngestionTask list \<Rightarrow> bool" where
  "tasks_moved ts ts' \<longleftrightarrow> (\<exists>P u. ts' = update_where P u ts \<and> (\<forall>t \<in> set ts. P t \<longrightarrow> task_move t (u t)))"

text \<open>A new task has a new identity and is not a second active retry of a task.\<close>

definition tasks_added :: "IngestionTask list \<Rightarrow> IngestionTask \<Rightarrow> bool" where
  "tasks_added ts t \<longleftrightarrow> new_task t \<and> task_ID t \<notin> set (map task_ID ts)
     \<and> (\<forall>i \<in> set_option (task_RetryOfTaskID t). \<forall>u \<in> set ts. \<not> active_retry_of i u)"

definition tasks_change :: "IngestionTask list \<Rightarrow> IngestionTask list \<Rightarrow> bool" where
  "tasks_change ts ts' \<longleftrightarrow> tasks_moved ts ts' \<or> (\<exists>t. tasks_added ts t \<and> ts' = ts @ [t])"

text \<open>What holds of every stored task: its fields agree with its status, and its attempts are bounded.\<close>

definition task_ok :: "IngestionTask \<Rightarrow> bool" where
  "task_ok t \<longleftrightarrow> task_Status t \<in> set task_statuses
     \<and> 0 \<le> task_AttemptCount t \<and> task_AttemptCount t \<le> task_MaxAttempts t \<and> 1 \<le> task_MaxAttempts t
     \<and> task_RangeStart t < task_RangeEnd t
     \<and> (task_Status t \<in> {st_pending, st_retry_wait} \<longrightarrow> task_AttemptCount t < task_MaxAttempts t)
     \<and> (task_Status t = st_running \<longrightarrow> 1 \<le> task_AttemptCount t \<and> task_StartedAt t \<noteq> None)
     \<and> (task_Status t = st_running \<longleftrightarrow> task_LockedBy t \<noteq> None)
     \<and> (task_Status t = st_running \<longleftrightarrow> task_LockedUntil t \<noteq> None)
     \<and> (task_Status t = st_retry_wait \<longleftrightarrow> task_NextAttemptAt t \<noteq> None)
     \<and> (task_Status t \<in> {st_success, st_failed, st_canceled} \<longleftrightarrow> task_FinishedAt t \<noteq> None)"

lemma new_task_ok: "new_task t \<Longrightarrow> task_ok t"
  by (simp add: new_task_def task_ok_def task_statuses_def)

lemma validateFailureCommit_next:
  assumes "validateFailureCommit c = None"
  shows "fc_Status c \<in> {st_retry_wait, st_failed} \<and> (fc_Status c = st_retry_wait \<longleftrightarrow> fc_NextAttemptAt c \<noteq> None)"
  using assms by (auto simp: validateFailureCommit_def)

lemma task_move_ok: "task_move t t' \<Longrightarrow> task_ok t \<Longrightarrow> task_ok t'"
proof (induction rule: task_move.induct)
  case (claim now t worker leaseUntil)
  then show ?case by (auto simp: task_ok_def task_statuses_def claimable_def claim_row_def split: option.splits)
next
  case (cancel t canceledBy reason now)
  then show ?case by (auto simp: task_ok_def task_statuses_def active_statuses_def cancel_row_def)
next
  case (recover now t)
  then show ?case by (auto simp: task_ok_def task_statuses_def lease_expired_def recover_row_def Let_def split: option.splits)
next
  case (succeed t finishedAt)
  then show ?case by (auto simp: task_ok_def task_statuses_def success_row_def)
next
  case (fail t c)
  from fail.hyps(2) have "fc_Status c \<in> {st_retry_wait, st_failed}" "fc_Status c = st_retry_wait \<longleftrightarrow> fc_NextAttemptAt c \<noteq> None"
    using validateFailureCommit_next by blast+
  with fail show ?case
    by (auto simp: task_ok_def task_statuses_def failure_row_def optional_timestamptz_def)
qed

text \<open>What no move changes, and the attempts: only a claim counts one.\<close>

lemma task_move_fixed:
  assumes "task_move t t'"
  shows "task_ID t' = task_ID t" "task_RunID t' = task_RunID t" "task_SubscriptionID t' = task_SubscriptionID t"
    "task_RangeStart t' = task_RangeStart t" "task_RangeEnd t' = task_RangeEnd t" "task_MaxAttempts t' = task_MaxAttempts t"
    "task_RetryOfTaskID t' = task_RetryOfTaskID t" "task_CreatedAt t' = task_CreatedAt t"
  using assms by (induction rule: task_move.induct)
    (auto simp: claim_row_def cancel_row_def recover_row_def success_row_def failure_row_def Let_def)

lemma task_move_attempts:
  assumes "task_move t t'"
  shows "task_AttemptCount t' = task_AttemptCount t + (if task_Status t' = st_running then 1 else 0)"
  using assms
proof (induction rule: task_move.induct)
  case (fail t c)
  then show ?case using validateFailureCommit_next [OF fail.hyps(2)] by (auto simp: failure_row_def)
qed (auto simp: claim_row_def cancel_row_def recover_row_def success_row_def Let_def)

definition terminal :: "IngestionTask \<Rightarrow> bool" where
  "terminal t \<longleftrightarrow> task_Status t \<in> {st_success, st_failed, st_canceled}"

lemma task_move_not_terminal: "task_move t t' \<Longrightarrow> \<not> terminal t"
  by (induction rule: task_move.induct)
    (auto simp: terminal_def claimable_def active_statuses_def lease_expired_def)

subsection \<open>The table of tasks\<close>

definition tasks_ok :: "IngestionTask list \<Rightarrow> bool" where
  "tasks_ok ts \<longleftrightarrow> distinct (map task_ID ts) \<and> list_all task_ok ts"

lemma tasks_moved_refl [intro]: "tasks_moved ts ts"
  unfolding tasks_moved_def by (rule exI [of _ "\<lambda>_. False"]) (simp add: update_where_def)

lemma tasks_moved_change [intro]: "tasks_moved ts ts' \<Longrightarrow> tasks_change ts ts'"
  by (simp add: tasks_change_def)

lemma tasks_change_refl [intro]: "tasks_change ts ts"
  by (intro tasks_moved_change tasks_moved_refl)

lemma tasks_change_ok:
  assumes "tasks_change ts ts'" "tasks_ok ts" shows "tasks_ok ts'"
  using assms(1) unfolding tasks_change_def tasks_moved_def
proof (elim disjE exE conjE)
  fix P u assume u: "ts' = update_where P u ts" "\<forall>t \<in> set ts. P t \<longrightarrow> task_move t (u t)"
  have "map task_ID ts' = map task_ID ts"
    using u task_move_fixed(1) by (auto simp: update_where_def)
  moreover have "list_all task_ok ts'"
    using u assms(2) task_move_ok by (fastforce simp: list_all_iff tasks_ok_def update_where_set)
  ultimately show ?thesis using assms(2) by (simp add: tasks_ok_def)
qed (use assms(2) new_task_ok in \<open>auto simp: tasks_ok_def tasks_added_def\<close>)

text \<open>A task of the table before is in the table after, moved at most once.\<close>

lemma tasks_change_mem:
  assumes "tasks_change ts ts'" "t \<in> set ts"
  shows "t \<in> set ts' \<or> (\<exists>t' \<in> set ts'. task_move t t')"
  using assms unfolding tasks_change_def tasks_moved_def by (fastforce simp: update_where_set)

lemma tasks_change_terminal:
  assumes "tasks_change ts ts'" "t \<in> set ts" "terminal t" shows "t \<in> set ts'"
  using tasks_change_mem [OF assms(1,2)] task_move_not_terminal assms(3) by blast
subsection \<open>Every operation changes the tasks by moves\<close>

named_theorems keeps_tasks \<open>statements that leave the tasks alone\<close>

lemma insert_run_tasks [keeps_tasks]: "insert_run run s = (Inr v, s') \<Longrightarrow> db_tasks s' = db_tasks s"
  by (drule insert_run_Inr) simp

lemma insert_run_if_new_tasks [keeps_tasks]: "insert_run_if_new run s = (Inr v, s') \<Longrightarrow> db_tasks s' = db_tasks s"
  by (drule insert_run_if_new_Inr) auto

lemma audit_tasks [keeps_tasks]: "audit_statement a i s = (Inr v, s') \<Longrightarrow> db_tasks s' = db_tasks s"
  by (auto simp: audit_statement_def split: option.splits sum.splits)

lemma upsert_checkpoint_tasks [keeps_tasks]: "upsert_checkpoint i m s = (Inr v, s') \<Longrightarrow> db_tasks s' = db_tasks s"
  by (auto simp: upsert_checkpoint_def Let_def split: option.splits)

lemma recover_checkpoints_tasks [keeps_tasks]: "recover_checkpoints now cs s = (Inr v, s') \<Longrightarrow> db_tasks s' = db_tasks s"
  by (induction now cs s arbitrary: s' rule: recover_checkpoints.induct)
    (auto dest: upsert_checkpoint_tasks split: prod.splits sum.splits)

lemma insert_bar_tasks [keeps_tasks]: "insert_bar b s = (Inr v, s') \<Longrightarrow> db_tasks s' = db_tasks s"
  by (auto simp: insert_bar_def Let_def split: option.splits)

lemma close_bar_tasks [keeps_tasks]: "close_bar_statement b n s = (Inr v, s') \<Longrightarrow> db_tasks s' = db_tasks s"
  by (auto simp: close_bar_statement_def Let_def split: option.splits)

lemma write_revision_tasks [keeps_tasks]: "write_revision f n strict b s = (Inr v, s') \<Longrightarrow> db_tasks s' = db_tasks s"
  unfolding write_revision_def loadCurrentMarketBar_def
  by (auto elim!: tx_elims split: if_splits dest!: keeps_tasks)

lemma write_bars_tasks [keeps_tasks]: "write_bars f n bs s = (Inr v, s') \<Longrightarrow> db_tasks s' = db_tasks s"
  by (induction f n bs arbitrary: s rule: write_bars.induct)
    (auto simp: writeMarketBarInTransaction_def elim!: tx_elims split: sum.splits dest!: write_revision_tasks)

lemma open_issue_tasks [keeps_tasks]:
  "openQualityIssue (in_transaction f n) q s = (Inr v, s') \<Longrightarrow> db_tasks s' = db_tasks s"
  by (auto simp: openQualityIssue_def opened_def in_transaction_def open_issue_statement_def Let_def
      split: option.splits prod.splits sum.splits driver_error.splits if_splits)

lemma open_issues_tasks [keeps_tasks]: "open_issues f n qs s = (Inr v, s') \<Longrightarrow> db_tasks s' = db_tasks s"
  by (induction f n qs arbitrary: s rule: open_issues.induct) (auto elim!: tx_elims dest!: open_issue_tasks)

lemma insert_task_change:
  assumes "insert_task t s = (Inr v, s')"
    and "task_Status t = st_pending" "task_AttemptCount t = 0" "1 \<le> task_MaxAttempts t" "task_NextAttemptAt t = None"
      "task_LockedBy t = None" "task_LockedUntil t = None" "task_StartedAt t = None" "task_FinishedAt t = None"
  shows "tasks_change (db_tasks s) (db_tasks s')"
proof -
  from insert_task_Inr [OF assms(1)]
  have s': "db_tasks s' = db_tasks s @ [taskArguments t]" and checks: "task_row_checks (taskArguments t) = None"
    and refs: "task_references s (taskArguments t) = None" by auto
  have "new_task (taskArguments t)"
    using checks assms(2-) by (simp add: new_task_def taskArguments_def task_row_checks_def optional_timestamptz_def)
  moreover from this refs have "tasks_added (db_tasks s) (taskArguments t)"
    by (auto simp: tasks_added_def task_references_def new_task_def active_statuses_def)
  ultimately show ?thesis using s' unfolding tasks_change_def by blast
qed

lemma pending_task_change:
  assumes "insert_task (pending_task i r b o1 x y m c) s = (Inr v, s')" "1 \<le> m"
  shows "tasks_change (db_tasks s) (db_tasks s')"
  using assms(2) by (intro insert_task_change [OF assms(1)]) (simp_all add: pending_task_def)

text \<open>The inserts of a creation that changed the database.\<close>

lemma CreateScheduledBatch_effect:
  assumes "db_CreateScheduledBatch pf f batch s = (r, s')" "s' \<noteq> s"
  obtains s1 where "ScheduledBatch_Validate pf batch = None" "insert_run_if_new (sb_Run batch) s = (Inr True, s1)"
    "insert_task (sb_Task batch) s1 = (Inr (), s')"
proof -
  from assms have valid: "ScheduledBatch_Validate pf batch = None"
    by (auto simp: db_CreateScheduledBatch_def split: option.splits)
  with assms obtain created where "scheduled_batch_body f batch s = (Inr created, s')"
    using transaction_if_atomic [of f id "scheduled_batch_body f batch" s r s']
    by (auto simp: db_CreateScheduledBatch_def)
  with assms(2) obtain s1 where "insert_run_if_new (sb_Run batch) s = (Inr True, s1)"
    "insert_task (sb_Task batch) s1 = (Inr (), s')"
    unfolding scheduled_batch_body_def equivalentScheduledBatch_def
    by (auto elim!: tx_elims split: if_splits simp: reading_Inr dest!: insert_run_if_new_False)
  with valid show thesis by (rule that)
qed

lemma CreateBackfill_effect:
  assumes "db_CreateBackfillRunWithTask pf f run task s = (r, s')" "s' \<noteq> s"
  obtains s1 where "validateBackfillRunAndTask pf run task = None" "active_backfill_query task s = Inl NoRows"
    "insert_run run s = (Inr (), s1)" "insert_task task s1 = (Inr (), s')"
proof -
  from assms have valid: "validateBackfillRunAndTask pf run task = None"
    by (auto simp: db_CreateBackfillRunWithTask_def split: option.splits)
  with assms obtain v where "backfill_body pf f run task s = (Inr v, s')"
    using transaction_atomic [of f "backfill_body pf f run task" s r s']
    by (auto simp: db_CreateBackfillRunWithTask_def)
  then obtain s1 where "active_backfill_query task s = Inl NoRows" "insert_run run s = (Inr (), s1)"
    "insert_task task s1 = (Inr (), s')"
    unfolding backfill_body_def by (auto elim!: tx_elims simp: reading_Inr)
  with valid show thesis by (rule that)
qed

lemma CreateManualRetry_effect:
  assumes "db_CreateManualRetry pf f c s = (r, s')" "s' \<noteq> s"
  obtains s1 original where "validateManualRetryCreation c = None" "insert_run (repair_run pf c) s = (Inr (), s1)"
    "insert_task (repair_task c original) s1 = (Inr (), s')"
proof -
  from assms have valid: "validateManualRetryCreation c = None"
    by (auto simp: db_CreateManualRetry_def split: option.splits)
  with assms obtain v where "manual_retry_body pf f c s = (Inr v, s')"
    using transaction_atomic [of f "manual_retry_body pf f c" s r s'] by (auto simp: db_CreateManualRetry_def)
  then obtain s1 original where "insert_run (repair_run pf c) s = (Inr (), s1)"
    "insert_task (repair_task c original) s1 = (Inr (), s')"
    unfolding manual_retry_body_def by (auto elim!: tx_elims simp: reading_Inr)
  with valid show thesis by (rule that)
qed

lemma CreateScheduledBatch_tasks:
  assumes "db_CreateScheduledBatch pf f batch s = (r, s')" shows "tasks_change (db_tasks s) (db_tasks s')"
proof (cases "s' = s")
  case False
  from CreateScheduledBatch_effect [OF assms False] obtain s1 where valid: "ScheduledBatch_Validate pf batch = None"
    and run: "insert_run_if_new (sb_Run batch) s = (Inr True, s1)" and task: "insert_task (sb_Task batch) s1 = (Inr (), s')" .
  have "tasks_change (db_tasks s1) (db_tasks s')"
    using valid by (intro insert_task_change [OF task]) (auto simp: ScheduledBatch_Validate_def Let_def)
  with run show ?thesis by (auto dest: keeps_tasks)
qed auto

lemma CreateBackfill_tasks:
  assumes "db_CreateBackfillRunWithTask pf f run task s = (r, s')" shows "tasks_change (db_tasks s) (db_tasks s')"
proof (cases "s' = s")
  case False
  from CreateBackfill_effect [OF assms False] obtain s1 where valid: "validateBackfillRunAndTask pf run task = None"
    and run: "insert_run run s = (Inr (), s1)" and task: "insert_task task s1 = (Inr (), s')" .
  have "tasks_change (db_tasks s1) (db_tasks s')"
    using valid by (intro insert_task_change [OF task]) (auto simp: validateBackfillRunAndTask_def)
  with run show ?thesis by (auto dest: keeps_tasks)
qed auto

lemma CreateManualRetry_tasks:
  assumes "db_CreateManualRetry pf f c s = (r, s')" shows "tasks_change (db_tasks s) (db_tasks s')"
proof (cases "s' = s")
  case False
  from CreateManualRetry_effect [OF assms False] obtain s1 original where valid: "validateManualRetryCreation c = None"
    and run: "insert_run (repair_run pf c) s = (Inr (), s1)" and task: "insert_task (repair_task c original) s1 = (Inr (), s')" .
  have "tasks_change (db_tasks s1) (db_tasks s')"
    using task valid unfolding repair_task_def
    by (intro pending_task_change) (auto simp: validateManualRetryCreation_def)
  with run show ?thesis by (auto dest: keeps_tasks)
qed auto

lemma tasks_moved_update:
  assumes "\<And>t. t \<in> set ts \<Longrightarrow> P t \<Longrightarrow> task_move t (u t)" shows "tasks_moved ts (update_where P u ts)"
  using assms unfolding tasks_moved_def by blast

lemma cancel_body_moved:
  assumes "cancel_body f i canceledBy reason now s = (Inr t, s')"
  shows "tasks_moved (db_tasks s) (db_tasks s') \<and> t \<in> set (db_tasks s) \<and> task_ID t = i"
proof -
  from assms obtain n where t: "select_by task_ID i (db_tasks s) = Inr t"
    and active: "task_Status t \<in> set active_statuses"
    and st: "cancel_statement i (task_Status t) canceledBy reason now s = (Inr n, s')"
    unfolding cancel_body_def by (auto elim!: tx_elims simp: active_statuses_def)
  from st have "db_tasks s' = update_where (\<lambda>u. task_ID u = i \<and> task_Status u = task_Status t)
      (cancel_row canceledBy reason now) (db_tasks s)"
    by (auto simp: cancel_statement_def Let_def split: option.splits)
  moreover have "tasks_moved (db_tasks s) \<dots>"
    using active by (intro tasks_moved_update) (auto intro: task_move.cancel)
  ultimately show ?thesis using select_by_Inr [OF t] by simp
qed

lemma CancelTask_moved:
  assumes "CancelTask f i by reason now s = (r, s')" shows "tasks_moved (db_tasks s) (db_tasks s')"
  using assms transaction_atomic [of f "tx_bind (cancel_body f i by (nullableString reason) now) (\<lambda>_. tx_return ())" s r s']
  by (auto simp: CancelTask_def split: if_splits elim!: tx_elims dest: cancel_body_moved)

lemma CancelTaskWithAudit_moved:
  assumes "db_CancelTaskWithAudit pf f i audit now s = (r, s')" shows "tasks_moved (db_tasks s) (db_tasks s')"
proof (cases "s' = s")
  case False
  let ?body = "tx_bind (cancel_body f i (ta_RequestedBy audit) (Some (ta_Reason audit)) now) (\<lambda>t.
         tx_bind (call f 3 MapError (audit_statement (cancel_audit pf i audit now) (task_RunID t))) (\<lambda>affected.
         tx_bind (tx_check (guard (affected \<noteq> 1) ErrReferenceViolation)) (\<lambda>_. tx_return (task_RunID t))))"
  from assms False obtain v where "?body s = (Inr v, s')"
    using transaction_atomic [of f ?body s r s'] by (auto simp: db_CancelTaskWithAudit_def split: if_splits)
  then show ?thesis by (auto elim!: tx_elims dest!: cancel_body_moved audit_tasks)
qed auto

lemma ClaimNextTask_tasks:
  assumes "ClaimNextTask f locked worker now d s = (r, s')"
  shows "s' = s \<or> (\<exists>t. claim_candidate locked now (db_tasks s) = Some t
    \<and> s' = s\<lparr>db_tasks := update_where (\<lambda>u. task_ID u = task_ID t) (claim_row worker now (now + d)) (db_tasks s)\<rparr>
    \<and> (\<forall>c. r = Inr (Some c) \<longrightarrow> claim_Task c = claim_row worker now (now + d) t))"
proof (cases "s' = s")
  case False
  with assms obtain q where st: "autocommit f (claim_statement locked worker now (now + d)) s = (q, s')"
    and r: "\<forall>c. r = Inr (Some c) \<longrightarrow> q = Inr (claim_Task c)"
    by (cases "autocommit f (claim_statement locked worker now (now + d)) s")
      (auto simp: ClaimNextTask_def split: if_splits sum.splits driver_error.splits)
  with False obtain v where v: "claim_statement locked worker now (now + d) s = (Inr v, s')"
    using autocommit_atomic [OF st] by auto
  then have "\<forall>c. r = Inr (Some c) \<longrightarrow> v = claim_Task c"
    using r autocommit_Inr [of f "claim_statement locked worker now (now + d)" s] st by fastforce
  with v show ?thesis by (auto simp: claim_statement_def split: option.splits)
qed auto

lemma claim_candidate_Some:
  assumes "claim_candidate locked now ts = Some t"
  shows "t \<in> set ts" "claimable now t" "task_ID t \<notin> locked"
    "\<And>u. u \<in> set ts \<Longrightarrow> claimable now u \<Longrightarrow> task_ID u \<notin> locked \<Longrightarrow> task_CreatedAt t \<le> task_CreatedAt u"
proof -
  let ?xs = "filter (\<lambda>t. claimable now t \<and> task_ID t \<notin> locked) ts"
  from assms obtain rest where r: "sort_key task_CreatedAt ?xs = t # rest"
    by (auto simp: claim_candidate_def split: list.splits)
  then have "t \<in> set ?xs" using set_sort [of task_CreatedAt ?xs] by (metis list.set_intros(1))
  then show "t \<in> set ts" "claimable now t" "task_ID t \<notin> locked" by auto
  fix u assume "u \<in> set ts" "claimable now u" "task_ID u \<notin> locked"
  then have "u \<in> set (t # rest)" using set_sort [of task_CreatedAt ?xs] r by auto
  moreover have "sorted (map task_CreatedAt (t # rest))" using sorted_sort_key [of task_CreatedAt ?xs] r by simp
  ultimately show "task_CreatedAt t \<le> task_CreatedAt u" by auto
qed

lemma key_unique:
  assumes "distinct (map key xs)" "x \<in> set xs" "y \<in> set xs" "key x = key y" shows "x = y"
  using assms by (induction xs) (auto simp: image_iff)

lemma ClaimNextTask_moved:
  assumes "ClaimNextTask f locked worker now d s = (r, s')" "distinct (map task_ID (db_tasks s))"
  shows "tasks_moved (db_tasks s) (db_tasks s')"
  using ClaimNextTask_tasks [OF assms(1)]
proof (elim disjE exE conjE)
  fix t assume t: "claim_candidate locked now (db_tasks s) = Some t"
    and s': "s' = s\<lparr>db_tasks := update_where (\<lambda>u. task_ID u = task_ID t) (claim_row worker now (now + d)) (db_tasks s)\<rparr>"
  have "tasks_moved (db_tasks s) (update_where (\<lambda>u. task_ID u = task_ID t) (claim_row worker now (now + d)) (db_tasks s))"
    using claim_candidate_Some(1,2) [OF t] key_unique [OF assms(2)] by (intro tasks_moved_update) (metis task_move.claim)
  with s' show ?thesis by simp
qed auto

lemma RecoverExpiredTasks_tasks:
  assumes "db_RecoverExpiredTasks f locked now s = (r, s')"
  shows "db_tasks s' = db_tasks s \<or>
    db_tasks s' = update_where (\<lambda>t. lease_expired now t \<and> task_ID t \<notin> locked) (recover_row now) (db_tasks s)"
proof (cases "s' = s")
  case False
  with assms obtain q where "autocommit f (recover_statement locked now) s = (q, s')"
    by (cases "autocommit f (recover_statement locked now) s")
      (auto simp: db_RecoverExpiredTasks_def split: if_splits dest: map_errors_state)
  with False obtain v where "recover_statement locked now s = (Inr v, s')"
    using autocommit_atomic by blast
  then show ?thesis by (auto simp: recover_statement_def Let_def split: prod.splits sum.splits dest: recover_checkpoints_tasks)
qed auto

lemma RecoverExpiredTasks_moved:
  assumes "db_RecoverExpiredTasks f locked now s = (r, s')" shows "tasks_moved (db_tasks s) (db_tasks s')"
  using RecoverExpiredTasks_tasks [OF assms]
proof
  assume "db_tasks s' = update_where (\<lambda>t. lease_expired now t \<and> task_ID t \<notin> locked) (recover_row now) (db_tasks s)"
  moreover have "tasks_moved (db_tasks s) \<dots>"
    by (intro tasks_moved_update) (auto intro: task_move.recover)
  ultimately show ?thesis by simp
qed auto

lemma SaveRunSummary_tasks: "db_SaveRunSummary f summary s = (r, s') \<Longrightarrow> db_tasks s' = db_tasks s"
proof -
  have st: "autocommit f (summary_statement summary) s = (q, s'') \<Longrightarrow> db_tasks s'' = db_tasks s" for q s''
    by (auto dest!: autocommit_atomic simp: summary_statement_def Let_def split: option.splits)
  assume "db_SaveRunSummary f summary s = (r, s')"
  with st show ?thesis by (auto simp: db_SaveRunSummary_def split: option.splits prod.splits sum.splits)
qed
subsection \<open>Commits are fenced\<close>

text \<open>A commit that took effect found the task as the claim describes it and ended that row only.\<close>

definition fenced :: "IngestionTask \<Rightarrow> time \<Rightarrow> (IngestionTask \<Rightarrow> IngestionTask) \<Rightarrow> DB \<Rightarrow> DB \<Rightarrow> bool" where
  "fenced claim finishedAt row s s' \<longleftrightarrow>
     (\<exists>t \<in> set (db_tasks s). task_ID t = task_ID claim \<and> lease_matches t claim finishedAt)
     \<and> (\<exists>t \<in> set (db_tasks s). still_claimed claim finishedAt t)
     \<and> db_tasks s' = update_where (still_claimed claim finishedAt) row (db_tasks s)"

lemma finish_task_Inr:
  assumes "finish_task f n claim finishedAt row s = (Inr v, s')"
  shows "(\<exists>t \<in> set (db_tasks s). still_claimed claim finishedAt t)
    \<and> s' = s\<lparr>db_tasks := update_where (still_claimed claim finishedAt) row (db_tasks s)\<rparr>"
proof -
  from assms have "rows_where (still_claimed claim finishedAt) (db_tasks s) = 1"
    and "s' = s\<lparr>db_tasks := update_where (still_claimed claim finishedAt) row (db_tasks s)\<rparr>"
    unfolding finish_task_def by (auto elim!: tx_elims simp: finish_statement_def Let_def)
  with rows_where_pos show ?thesis by blast
qed

lemma success_body_fenced:
  assumes "success_body f c s = (Inr v, s')"
  shows "fenced (claim_Task (sc_Claim c)) (sc_FinishedAt c) (success_row (sc_FinishedAt c)) s s'"
proof -
  let ?n = "2 + 3 * length (sc_Bars c)" and ?claim = "claim_Task (sc_Claim c)"
  from assms obtain s0 s1 s2 s3 where lock: "lockAndValidateTaskClaim f 1 c s = (Inr (), s0)"
    and b: "write_bars f 2 (sc_Bars c) s0 = (Inr (), s1)" and i: "open_issues f ?n (sc_Issues c) s1 = (Inr (), s2)"
    and cp: "upsertSuccessfulCheckpoint f (?n + length (sc_Issues c)) (sc_Checkpoint c) s2 = (Inr (), s3)"
    and fin: "finish_task f (?n + length (sc_Issues c) + 1) ?claim (sc_FinishedAt c) (success_row (sc_FinishedAt c)) s3 = (Inr v, s')"
    unfolding success_body_def Let_def by (elim tx_bind_E) auto
  from lock obtain row where s0: "s0 = s" and row: "row \<in> set (db_tasks s)" "task_ID row = task_ID ?claim"
    "lease_matches row ?claim (sc_FinishedAt c)"
    unfolding lockAndValidateTaskClaim_def
    by (auto elim!: tx_elims simp: claimed_source_query_def dest!: first_row_Inr)
  have "db_tasks s3 = db_tasks s"
    using b i cp s0 unfolding upsertSuccessfulCheckpoint_def by (auto elim!: tx_elims dest!: keeps_tasks)
  with finish_task_Inr [OF fin] row show ?thesis unfolding fenced_def by auto
qed

lemma failure_body_fenced:
  assumes "failure_body f c s = (Inr v, s')"
  shows "fenced (claim_Task (fc_Claim c)) (fc_FinishedAt c) (failure_row c) s s'"
proof -
  let ?claim = "claim_Task (fc_Claim c)"
  from assms obtain s0 s1 where lock: "lockAndValidateFailureClaim f 1 c s = (Inr (), s0)"
    and cp: "upsertFailedCheckpoint f 2 (task_SubscriptionID ?claim) (fc_FinishedAt c) s0 = (Inr (), s1)"
    and fin: "finish_task f 3 ?claim (fc_FinishedAt c) (failure_row c) s1 = (Inr v, s')"
    unfolding failure_body_def by (elim tx_bind_E) auto
  from lock obtain row where s0: "s0 = s" and row: "row \<in> set (db_tasks s)" "task_ID row = task_ID ?claim"
    "lease_matches row ?claim (fc_FinishedAt c)"
    unfolding lockAndValidateFailureClaim_def by (auto elim!: tx_elims dest!: select_by_Inr)
  have "db_tasks s1 = db_tasks s"
    using cp s0 unfolding upsertFailedCheckpoint_def by (auto elim!: tx_elims dest!: keeps_tasks)
  with finish_task_Inr [OF fin] row show ?thesis unfolding fenced_def by auto
qed

lemma CommitSuccess_fenced:
  assumes "db_CommitSuccess f c s = (r, s')"
  shows "s' = s \<and> (\<exists>e. r = Inl e) \<or> validateSuccessCommit c = None
    \<and> fenced (claim_Task (sc_Claim c)) (sc_FinishedAt c) (success_row (sc_FinishedAt c)) s s'"
  using assms transaction_atomic [of f "success_body f c" s r s'] transaction_Inr [of f "success_body f c" s _ s']
    success_body_fenced [of f c s]
  by (cases r) (auto simp: db_CommitSuccess_def split: option.splits)

lemma CommitFailure_fenced:
  assumes "db_CommitFailure f c s = (r, s')"
  shows "s' = s \<and> (\<exists>e. r = Inl e) \<or> validateFailureCommit c = None
    \<and> fenced (claim_Task (fc_Claim c)) (fc_FinishedAt c) (failure_row c) s s'"
  using assms transaction_atomic [of f "failure_body f c" s r s'] transaction_Inr [of f "failure_body f c" s _ s']
    failure_body_fenced [of f c s]
  by (cases r) (auto simp: db_CommitFailure_def split: option.splits)

lemma fenced_moved:
  assumes "fenced claim finishedAt row s s'"
    "\<And>t. t \<in> set (db_tasks s) \<Longrightarrow> still_claimed claim finishedAt t \<Longrightarrow> task_move t (row t)"
  shows "tasks_moved (db_tasks s) (db_tasks s')"
  using assms unfolding fenced_def by (simp add: tasks_moved_update)

subsection \<open>The world\<close>

text \<open>
  \<open>w_claims\<close> are the claims handed out to workers, \<open>w_commits\<close> the task and attempt of every commit
  that took effect. Workers commit the claims they were given; a failure is the one the service
  builds (\<open>failureCommit\<close>) for some error. Any operation may have any faults.
\<close>

record world =
  w_db :: DB
  w_claims :: "IngestionTask set"
  w_commits :: "(ID \<times> int) list"

definition committed :: "world \<Rightarrow> IngestionTask \<Rightarrow> DB \<Rightarrow> world" where
  "committed w claim s' = w\<lparr>w_db := s', w_commits :=
     (if db_tasks s' = db_tasks (w_db w) then w_commits w else (task_ID claim, task_AttemptCount claim) # w_commits w)\<rparr>"

inductive world_step :: "platform \<Rightarrow> Config \<Rightarrow> world \<Rightarrow> world \<Rightarrow> bool" for pf cfg where
  schedule: "db_CreateScheduledBatch pf f batch (w_db w) = (r, s') \<Longrightarrow> world_step pf cfg w (w\<lparr>w_db := s'\<rparr>)"
| backfill: "db_CreateBackfillRunWithTask pf f run task (w_db w) = (r, s') \<Longrightarrow> world_step pf cfg w (w\<lparr>w_db := s'\<rparr>)"
| retry: "db_CreateManualRetry pf f c (w_db w) = (r, s') \<Longrightarrow> world_step pf cfg w (w\<lparr>w_db := s'\<rparr>)"
| cancel: "CancelTask f i by reason now (w_db w) = (r, s') \<Longrightarrow> world_step pf cfg w (w\<lparr>w_db := s'\<rparr>)"
| cancel_audit: "db_CancelTaskWithAudit pf f i audit now (w_db w) = (r, s') \<Longrightarrow> world_step pf cfg w (w\<lparr>w_db := s'\<rparr>)"
| recover: "db_RecoverExpiredTasks f locked now (w_db w) = (r, s') \<Longrightarrow> world_step pf cfg w (w\<lparr>w_db := s'\<rparr>)"
| summarize: "db_SaveRunSummary f summary (w_db w) = (r, s') \<Longrightarrow> world_step pf cfg w (w\<lparr>w_db := s'\<rparr>)"
| claim: "ClaimNextTask f locked worker now d (w_db w) = (r, s') \<Longrightarrow>
    world_step pf cfg w (w\<lparr>w_db := s', w_claims := w_claims w \<union> {claim_Task c | c. r = Inr (Some c)}\<rparr>)"
| success: "db_CommitSuccess f c (w_db w) = (r, s') \<Longrightarrow> claim_Task (sc_Claim c) \<in> w_claims w \<Longrightarrow>
    world_step pf cfg w (committed w (claim_Task (sc_Claim c)) s')"
| failure: "db_CommitFailure f (failureCommit cfg claim e finishedAt) (w_db w) = (r, s') \<Longrightarrow>
    claim_Task claim \<in> w_claims w \<Longrightarrow> world_step pf cfg w (committed w (claim_Task claim) s')"

inductive reachable :: "platform \<Rightarrow> Config \<Rightarrow> DB \<Rightarrow> world \<Rightarrow> bool" for pf cfg s0 where
  start: "reachable pf cfg s0 \<lparr>w_db = s0, w_claims = {}, w_commits = []\<rparr>"
| step: "reachable pf cfg s0 w \<Longrightarrow> world_step pf cfg w w' \<Longrightarrow> reachable pf cfg s0 w'"

text \<open>
  A claim agrees with its task: the identity and the limit are the same, the task has had at least
  the claim's attempts, and while it runs the claim's attempt it carries the claim's lease.
\<close>

definition claim_ok :: "IngestionTask list \<Rightarrow> IngestionTask \<Rightarrow> bool" where
  "claim_ok ts c \<longleftrightarrow> (\<exists>t \<in> set ts. task_ID t = task_ID c \<and> task_MaxAttempts t = task_MaxAttempts c
     \<and> task_AttemptCount c \<le> task_AttemptCount t)"

definition commit_ok :: "IngestionTask list \<Rightarrow> ID \<times> int \<Rightarrow> bool" where
  "commit_ok ts e \<longleftrightarrow> (\<exists>t \<in> set ts. task_ID t = fst e \<and> snd e \<le> task_AttemptCount t
     \<and> (task_AttemptCount t = snd e \<longrightarrow> task_Status t \<noteq> st_running))"

definition world_ok :: "world \<Rightarrow> bool" where
  "world_ok w \<longleftrightarrow> tasks_ok (db_tasks (w_db w)) \<and> (\<forall>c \<in> w_claims w. claim_ok (db_tasks (w_db w)) c)
     \<and> distinct (w_commits w) \<and> (\<forall>e \<in> set (w_commits w). commit_ok (db_tasks (w_db w)) e)"

lemma claim_ok_change:
  assumes "tasks_change ts ts'" "claim_ok ts c" shows "claim_ok ts' c"
proof -
  from assms(2) obtain t where t: "t \<in> set ts" "task_ID t = task_ID c" "task_MaxAttempts t = task_MaxAttempts c"
    "task_AttemptCount c \<le> task_AttemptCount t" by (auto simp: claim_ok_def)
  from tasks_change_mem [OF assms(1) t(1)] show ?thesis
  proof
    assume "\<exists>t' \<in> set ts'. task_move t t'"
    then obtain t' where "t' \<in> set ts'" "task_move t t'" by blast
    then show ?thesis using t task_move_fixed [of t t'] task_move_attempts [of t t'] unfolding claim_ok_def
      by (intro bexI [of _ t']) auto
  qed (use t in \<open>auto simp: claim_ok_def\<close>)
qed

lemma commit_ok_change:
  assumes "tasks_change ts ts'" "commit_ok ts e" shows "commit_ok ts' e"
proof -
  from assms(2) obtain t where t: "t \<in> set ts" "task_ID t = fst e" "snd e \<le> task_AttemptCount t"
    "task_AttemptCount t = snd e \<longrightarrow> task_Status t \<noteq> st_running" by (auto simp: commit_ok_def)
  from tasks_change_mem [OF assms(1) t(1)] show ?thesis
  proof
    assume "\<exists>t' \<in> set ts'. task_move t t'"
    then obtain t' where "t' \<in> set ts'" "task_move t t'" by blast
    then show ?thesis using t task_move_fixed [of t t'] task_move_attempts [of t t'] unfolding commit_ok_def
      by (intro bexI [of _ t']) auto
  qed (use t in \<open>auto simp: commit_ok_def\<close>)
qed

lemma world_ok_change:
  assumes "world_ok w" "tasks_change (db_tasks (w_db w)) (db_tasks s')" shows "world_ok (w\<lparr>w_db := s'\<rparr>)"
  using assms tasks_change_ok claim_ok_change commit_ok_change by (auto simp: world_ok_def)

text \<open>A commit that took effect is new, and ends the claim's attempt.\<close>

lemma world_ok_committed:
  assumes w: "world_ok w" and f: "fenced claim finishedAt row (w_db w) s'"
    and move: "\<And>t. t \<in> set (db_tasks (w_db w)) \<Longrightarrow> still_claimed claim finishedAt t \<Longrightarrow>
      task_move t (row t) \<and> task_Status (row t) \<noteq> st_running"
  shows "world_ok (committed w claim s')"
proof (cases "db_tasks s' = db_tasks (w_db w)")
  case True
  then show ?thesis using w by (simp add: committed_def world_ok_def)
next
  case False
  let ?ts = "db_tasks (w_db w)" and ?e = "(task_ID claim, task_AttemptCount claim)"
  have change: "tasks_change ?ts (db_tasks s')" using f move by (intro tasks_moved_change fenced_moved) auto
  from f obtain t where t: "t \<in> set ?ts" "still_claimed claim finishedAt t"
    and s': "db_tasks s' = update_where (still_claimed claim finishedAt) row ?ts" by (auto simp: fenced_def)
  have "\<not> commit_ok ?ts ?e"
  proof
    assume "commit_ok ?ts ?e"
    then obtain u where "u \<in> set ?ts" "task_ID u = task_ID claim" "task_AttemptCount u = task_AttemptCount claim
        \<longrightarrow> task_Status u \<noteq> st_running" by (auto simp: commit_ok_def)
    moreover from this have "u = t"
      using w t key_unique [of task_ID ?ts u t] by (auto simp: world_ok_def tasks_ok_def still_claimed_def)
    ultimately show False using t by (simp add: still_claimed_def)
  qed
  then have "?e \<notin> set (w_commits w)" using w by (auto simp: world_ok_def)
  moreover have "commit_ok (db_tasks s') ?e"
  proof -
    have "row t \<in> set (db_tasks s')" using t s' by (auto simp: update_where_set)
    moreover have "task_ID (row t) = task_ID claim" "task_AttemptCount (row t) = task_AttemptCount claim"
      using t move [OF t] task_move_fixed(1) [of t "row t"] task_move_attempts [of t "row t"] by (auto simp: still_claimed_def)
    ultimately show ?thesis using move [OF t] by (auto simp: commit_ok_def)
  qed
  moreover have "world_ok (w\<lparr>w_db := s'\<rparr>)" by (rule world_ok_change [OF w change])
  ultimately show ?thesis using False by (simp add: committed_def world_ok_def)
qed

lemma failureCommit_claim: "fc_Claim (failureCommit cfg claim e now) = claim" "fc_FinishedAt (failureCommit cfg claim e now) = now"
  by (simp_all add: failureCommit_def Let_def)

lemma failureCommit_attempts:
  "fc_Status (failureCommit cfg claim e now) = st_retry_wait \<Longrightarrow>
     task_AttemptCount (claim_Task claim) < task_MaxAttempts (claim_Task claim)"
  by (auto simp: failureCommit_def Let_def split: if_splits)
lemma ClaimNextTask_Some:
  assumes "ClaimNextTask f locked worker now d s = (Inr (Some c), s')"
  obtains t where "claim_candidate locked now (db_tasks s) = Some t" "claim_Task c = claim_row worker now (now + d) t"
    "s' = s\<lparr>db_tasks := update_where (\<lambda>u. task_ID u = task_ID t) (claim_row worker now (now + d)) (db_tasks s)\<rparr>"
proof -
  from assms have "autocommit f (claim_statement locked worker now (now + d)) s = (Inr (claim_Task c), s')"
    by (cases "autocommit f (claim_statement locked worker now (now + d)) s")
      (auto simp: ClaimNextTask_def split: if_splits sum.splits driver_error.splits)
  then have "claim_statement locked worker now (now + d) s = (Inr (claim_Task c), s')" by (rule autocommit_Inr)
  then show thesis using that by (auto simp: claim_statement_def split: option.splits)
qed

lemma world_ok_claim:
  assumes w: "world_ok w" and st: "ClaimNextTask f locked worker now d (w_db w) = (r, s')"
  shows "world_ok (w\<lparr>w_db := s', w_claims := w_claims w \<union> {claim_Task c | c. r = Inr (Some c)}\<rparr>)"
proof -
  let ?ts = "db_tasks (w_db w)"
  have change: "tasks_change ?ts (db_tasks s')"
    using w by (intro tasks_moved_change ClaimNextTask_moved [OF st]) (simp add: world_ok_def tasks_ok_def)
  have "claim_ok (db_tasks s') (claim_Task c)" if "r = Inr (Some c)" for c
  proof -
    from st that obtain t where t: "claim_candidate locked now ?ts = Some t"
      and c: "claim_Task c = claim_row worker now (now + d) t"
      and s': "s' = (w_db w)\<lparr>db_tasks := update_where (\<lambda>u. task_ID u = task_ID t) (claim_row worker now (now + d)) ?ts\<rparr>"
      by (auto elim: ClaimNextTask_Some)
    have "claim_row worker now (now + d) t \<in> set (db_tasks s')"
      using claim_candidate_Some(1) [OF t] s' by (auto simp: update_where_set intro!: bexI [of _ t])
    then show ?thesis using c unfolding claim_ok_def by auto
  qed
  moreover have "world_ok (w\<lparr>w_db := s'\<rparr>)" by (rule world_ok_change [OF w change])
  ultimately show ?thesis by (auto simp: world_ok_def)
qed

lemma SaveRunSummary_moved:
  "db_SaveRunSummary f summary s = (r, s') \<Longrightarrow> tasks_moved (db_tasks s) (db_tasks s')"
  using SaveRunSummary_tasks by (metis tasks_moved_refl)

text \<open>The moves the two commits make of the rows they end.\<close>

lemma success_moves:
  assumes "still_claimed claim finishedAt t"
  shows "task_move t (success_row finishedAt t) \<and> task_Status (success_row finishedAt t) \<noteq> st_running"
  using assms task_move.succeed [of t finishedAt] by (simp add: still_claimed_def) (simp add: success_row_def)

lemma failure_moves:
  assumes w: "world_ok w" and claim: "claim_Task claim \<in> w_claims w"
    and valid: "validateFailureCommit (failureCommit cfg claim e finishedAt) = None"
    and t: "t \<in> set (db_tasks (w_db w))" "still_claimed (claim_Task claim) finishedAt t"
  shows "task_move t (failure_row (failureCommit cfg claim e finishedAt) t)
    \<and> task_Status (failure_row (failureCommit cfg claim e finishedAt) t) \<noteq> st_running"
proof
  from w claim obtain u where u: "u \<in> set (db_tasks (w_db w))" "task_ID u = task_ID (claim_Task claim)"
    "task_MaxAttempts u = task_MaxAttempts (claim_Task claim)" by (fastforce simp: world_ok_def claim_ok_def)
  with t w have "u = t"
    using key_unique [of task_ID "db_tasks (w_db w)" u t] by (simp add: world_ok_def tasks_ok_def still_claimed_def)
  then have "task_MaxAttempts t = task_MaxAttempts (claim_Task claim)" using u by simp
  then show "task_move t (failure_row (failureCommit cfg claim e finishedAt) t)"
    using t valid failureCommit_attempts [of cfg claim e finishedAt]
    by (intro task_move.fail) (auto simp: still_claimed_def)
  show "task_Status (failure_row (failureCommit cfg claim e finishedAt) t) \<noteq> st_running"
    using validateFailureCommit_next [OF valid] by (auto simp: failure_row_def)
qed

lemma CommitFailure_effect:
  assumes "db_CommitFailure f (failureCommit cfg claim e finishedAt) s = (r, s')" "s' \<noteq> s"
  shows "validateFailureCommit (failureCommit cfg claim e finishedAt) = None"
    and "fenced (claim_Task claim) finishedAt (failure_row (failureCommit cfg claim e finishedAt)) s s'"
  using CommitFailure_fenced [OF assms(1)] assms(2) by (auto simp: failureCommit_claim)

lemma CommitSuccess_effect:
  assumes "db_CommitSuccess f c s = (r, s')" "s' \<noteq> s"
  shows "validateSuccessCommit c = None"
    and "fenced (claim_Task (sc_Claim c)) (sc_FinishedAt c) (success_row (sc_FinishedAt c)) s s'"
  using CommitSuccess_fenced [OF assms(1)] assms(2) by auto

lemma world_step_tasks:
  assumes "world_step pf cfg w w'" "world_ok w" shows "tasks_change (db_tasks (w_db w)) (db_tasks (w_db w'))"
  using assms
proof (induction rule: world_step.induct)
  case (success f c w r s')
  show ?case
  proof (cases "s' = w_db w")
    case False
    from CommitSuccess_effect(2) [OF success.hyps(1) False] success_moves show ?thesis
      by (simp add: committed_def fenced_moved tasks_moved_change)
  qed (auto simp: committed_def)
next
  case (failure f claim e finishedAt w r s')
  show ?case
  proof (cases "s' = w_db w")
    case False
    note eff = CommitFailure_effect [OF failure.hyps(1) False]
    have "tasks_change (db_tasks (w_db w)) (db_tasks s')"
      using failure_moves [OF failure.prems failure.hyps(2) eff(1)] by (intro tasks_moved_change fenced_moved [OF eff(2)]) blast
    then show ?thesis by (simp add: committed_def)
  qed (auto simp: committed_def)
next
  case (claim f locked worker now d w r s')
  then show ?case by (auto simp: world_ok_def tasks_ok_def intro: ClaimNextTask_moved)
qed (auto dest: CreateScheduledBatch_tasks CreateBackfill_tasks CreateManualRetry_tasks CancelTask_moved
    CancelTaskWithAudit_moved RecoverExpiredTasks_moved SaveRunSummary_moved)

lemma world_step_ok:
  assumes "world_step pf cfg w w'" "world_ok w" shows "world_ok w'"
  using assms
proof (induction rule: world_step.induct)
  case (success f c w r s')
  show ?case
  proof (cases "s' = w_db w")
    case False
    from CommitSuccess_effect(2) [OF success.hyps(1) False] success_moves success.prems show ?thesis
      by (intro world_ok_committed) auto
  qed (use success.prems in \<open>simp add: committed_def world_ok_def\<close>)
next
  case (failure f claim e finishedAt w r s')
  show ?case
  proof (cases "s' = w_db w")
    case False
    note eff = CommitFailure_effect [OF failure.hyps(1) False]
    from failure_moves [OF failure.prems failure.hyps(2) eff(1)] failure.prems show ?thesis
      by (intro world_ok_committed [OF _ eff(2)]) auto
  qed (use failure.prems in \<open>simp add: committed_def world_ok_def\<close>)
next
  case (claim f locked worker now d w r s')
  then show ?case by (intro world_ok_claim)
qed (auto intro!: world_ok_change dest: CreateScheduledBatch_tasks CreateBackfill_tasks CreateManualRetry_tasks CancelTask_moved
    CancelTaskWithAudit_moved RecoverExpiredTasks_moved SaveRunSummary_moved)

lemma reachable_ok:
  assumes "reachable pf cfg s0 w" "tasks_ok (db_tasks s0)" shows "world_ok w"
  using assms(1)
proof (induction rule: reachable.induct)
  case start
  then show ?case using assms(2) by (simp add: world_ok_def)
next
  case (step w w')
  then show ?case using world_step_ok by blast
qed

subsection \<open>A sample database\<close>

definition sample_pending :: IngestionTask where
  "sample_pending = pending_task 31 9 5 None (1000 * Hour) (1002 * Hour) 2 (1002 * Hour)"

definition sample_db :: DB where
  "sample_db = \<lparr>db_assets = [ec_Asset sample_execution], db_instruments = [ec_Instrument sample_execution],
     db_providers = [ec_Provider sample_execution], db_mappings = [ec_ProviderInstrument sample_execution],
     db_subs = [ec_Subscription sample_execution],
     db_runs = [pending_run 9 ''run.9'' ''incremental'' ''scheduler'' (Some (1002 * Hour)) None emptyJSONObject (1002 * Hour)],
     db_tasks = [sample_pending], db_checkpoints = Map.empty, db_bars = [], db_quotes = Map.empty, db_issues = []\<rparr>"

definition sample_claimed :: "TaskClaim option result \<times> DB" where
  "sample_claimed = ClaimNextTask no_faults {} ''worker-1'' (1003 * Hour) Hour sample_db"

definition sample_running :: IngestionTask where
  "sample_running = claim_row ''worker-1'' (1003 * Hour) (1004 * Hour) sample_pending"

lemma sample_db_ok: "tasks_ok (db_tasks sample_db)"
  by code_simp

lemma sample_claimed_eq:
  "sample_claimed = (Inr (Some \<lparr>claim_Task = sample_running\<rparr>), sample_db\<lparr>db_tasks := [sample_running]\<rparr>)"
proof -
  have "claim_candidate {} (1003 * Hour) (db_tasks sample_db) = Some sample_pending" by code_simp
  moreover have "int4_ok (task_AttemptCount sample_pending + 1)" "varchar_ok 128 ''worker-1''" by code_simp+
  moreover have "\<not> IsZero (1003 * Hour)" "\<not> Hour \<le> 0" "1003 * Hour + Hour = 1004 * Hour" by code_simp+
  moreover have "db_tasks sample_db = [sample_pending]" by (simp add: sample_db_def)
  ultimately show ?thesis
    by (simp add: sample_claimed_def ClaimNextTask_def autocommit_def claim_statement_def no_faults_def
        sample_running_def update_where_def violates_def)
qed
subsection \<open>The properties of the life cycle\<close>

definition sample_world :: world where
  "sample_world = \<lparr>w_db = snd sample_claimed, w_claims = {sample_running}, w_commits = []\<rparr>"

lemma sample_world_reachable: "reachable sample_platform sample_service sample_db sample_world"
proof -
  let ?w = "\<lparr>w_db = sample_db, w_claims = {}, w_commits = []\<rparr>"
  have "ClaimNextTask no_faults {} ''worker-1'' (1003 * Hour) Hour (w_db ?w)
      = (Inr (Some \<lparr>claim_Task = sample_running\<rparr>), snd sample_claimed)"
    using sample_claimed_eq by (simp add: sample_claimed_def)
  from reachable.step [OF reachable.start world_step.claim [OF this]] show ?thesis
    by (simp add: sample_world_def)
qed

text \<open>The worker's execution fails: the task goes back to the queue.\<close>

definition sample_failed :: "unit result \<times> DB" where
  "sample_failed = db_CommitFailure no_faults
     (failureCommit sample_service \<lparr>claim_Task = sample_running\<rparr> ErrRetryable (1003 * Hour + Minute)) (w_db sample_world)"

definition sample_failed_world :: world where
  "sample_failed_world = committed sample_world sample_running (snd sample_failed)"

lemma sample_failed_world_step: "world_step sample_platform sample_service sample_world sample_failed_world"
proof -
  have "db_CommitFailure no_faults (failureCommit sample_service \<lparr>claim_Task = sample_running\<rparr> ErrRetryable (1003 * Hour + Minute))
      (w_db sample_world) = (fst sample_failed, snd sample_failed)" by (simp add: sample_failed_def)
  from world_step.failure [OF this] show ?thesis by (simp add: sample_failed_world_def sample_world_def)
qed

lemma sample_failed_tasks: "map task_Status (db_tasks (snd sample_failed)) = [st_retry_wait]"
  by code_simp

text \<open>
  C1. In every reachable state the table of tasks is well formed: identities are unique, no task has
  had more attempts than its limit, a waiting task has an attempt left, and the lease, the next attempt
  and the finishing time are set exactly in the statuses running, retry_wait and terminal.
\<close>
theorem task_table_invariant:
  assumes "reachable pf cfg s0 w" and "tasks_ok (db_tasks s0)"
  shows "tasks_ok (db_tasks (w_db w))"
  using reachable_ok [OF assms] by (simp add: world_ok_def)

theorem task_table_invariant_witness:
  "map task_Status (db_tasks (w_db sample_failed_world)) = [st_retry_wait] \<and> tasks_ok (db_tasks (w_db sample_failed_world))"
  using task_table_invariant [OF reachable.step [OF sample_world_reachable sample_failed_world_step] sample_db_ok] sample_failed_tasks
  by (simp add: sample_failed_world_def committed_def)

text \<open>
  C2. Every attempt of a task is committed at most once: whatever workers, scheduler and administrators
  do, with any faults and answers lost, no task and attempt take effect in two commits.
\<close>
theorem commits_at_most_once:
  assumes "reachable pf cfg s0 w" and "tasks_ok (db_tasks s0)"
  shows "distinct (w_commits w)"
  using reachable_ok [OF assms] by (simp add: world_ok_def)

theorem commits_at_most_once_witness:
  "w_commits sample_failed_world = [(31, 1)] \<and> distinct (w_commits sample_failed_world)"
proof -
  have "db_tasks (snd sample_failed) \<noteq> db_tasks (w_db sample_world)"
  proof -
    have "map task_Status (db_tasks (w_db sample_world)) = [st_running]"
      by (simp add: sample_world_def sample_claimed_eq) (simp add: sample_running_def claim_row_def)
    then show ?thesis using sample_failed_tasks by auto
  qed
  then have "w_commits sample_failed_world = [(31, 1)]"
    by (simp add: sample_failed_world_def committed_def)
      (simp add: sample_world_def sample_running_def claim_row_def sample_pending_def pending_task_def)
  then show ?thesis
    using commits_at_most_once [OF reachable.step [OF sample_world_reachable sample_failed_world_step] sample_db_ok] by simp
qed

lemma steps_ok:
  assumes "(world_step pf cfg)\<^sup>*\<^sup>* w w'" "world_ok w" shows "world_ok w'"
  using assms by (induction rule: rtranclp_induct) (auto intro: world_step_ok)

text \<open>
  C3. A terminal task is never changed again: once a task succeeded, failed or was cancelled, every
  later state holds the same row.
\<close>
theorem terminal_tasks_stay:
  assumes "reachable pf cfg s0 w" and "tasks_ok (db_tasks s0)"
    and "(world_step pf cfg)\<^sup>*\<^sup>* w w'" and "t \<in> set (db_tasks (w_db w))"
    and "task_Status t \<in> {st_success, st_failed, st_canceled}"
  shows "t \<in> set (db_tasks (w_db w'))"
  using assms(3)
proof (induction rule: rtranclp_induct)
  case (step v v')
  have "world_ok v" using steps_ok [OF step.hyps(1)] reachable_ok [OF assms(1,2)] by blast
  from tasks_change_terminal [OF world_step_tasks [OF step.hyps(2) this] step.IH] assms(5) show ?case
    by (simp add: terminal_def)
qed (rule assms(4))
definition sample_canceled :: DB where
  "sample_canceled = snd (CancelTask no_faults 31 ''operator'' '''' (1003 * Hour) sample_db)"

theorem terminal_tasks_stay_witness:
  "\<exists>t. db_tasks sample_canceled = [t] \<and> task_Status t = st_canceled
     \<and> t \<in> set (db_tasks (snd (db_RecoverExpiredTasks no_faults {} (1009 * Hour) sample_canceled)))"
proof -
  have "map task_Status (db_tasks sample_canceled) = [st_canceled]" by code_simp
  then obtain t where t: "db_tasks sample_canceled = [t]" "task_Status t = st_canceled" by (auto simp: map_eq_Cons_conv)
  let ?start = "\<lparr>w_db = sample_db, w_claims = {}, w_commits = []\<rparr>" and ?w = "\<lparr>w_db = sample_canceled, w_claims = {}, w_commits = []\<rparr>"
  have "CancelTask no_faults 31 ''operator'' '''' (1003 * Hour) (w_db ?start)
      = (fst (CancelTask no_faults 31 ''operator'' '''' (1003 * Hour) sample_db), sample_canceled)"
    by (simp add: sample_canceled_def)
  from reachable.step [OF reachable.start world_step.cancel [OF this]]
  have r: "reachable sample_platform sample_service sample_db ?w" by simp
  have "db_RecoverExpiredTasks no_faults {} (1009 * Hour) (w_db ?w)
      = (fst (db_RecoverExpiredTasks no_faults {} (1009 * Hour) sample_canceled),
         snd (db_RecoverExpiredTasks no_faults {} (1009 * Hour) sample_canceled))" by simp
  from terminal_tasks_stay [OF r sample_db_ok r_into_rtranclp, OF world_step.recover [OF this], of t] t
  show ?thesis by simp
qed

text \<open>
  C4. A success is committed only for the attempt that holds the lease: if the database changed or the
  commit was confirmed, the task was running under the claim's attempt, worker and lease, which had not
  expired, and exactly that task ends as success. Otherwise nothing changed and an error is reported.
\<close>
theorem CommitSuccess_exact:
  assumes "db_CommitSuccess f c s = (r, s')" and "distinct (map task_ID (db_tasks s))"
  shows "s' = s \<and> (\<exists>e. r = Inl e) \<or>
    (\<exists>t \<in> set (db_tasks s). task_ID t = task_ID (claim_Task (sc_Claim c)) \<and> task_Status t = st_running
       \<and> task_AttemptCount t = task_AttemptCount (claim_Task (sc_Claim c))
       \<and> task_LockedBy t = task_LockedBy (claim_Task (sc_Claim c))
       \<and> task_LockedUntil t = task_LockedUntil (claim_Task (sc_Claim c))
       \<and> opt_all (\<lambda>u. sc_FinishedAt c < u) (task_LockedUntil t)
       \<and> db_tasks s' = map (\<lambda>u. if u = t then success_row (sc_FinishedAt c) t else u) (db_tasks s))"
proof -
  let ?claim = "claim_Task (sc_Claim c)" and ?fin = "sc_FinishedAt c"
  {
    assume v: "validateSuccessCommit c = None" and f: "fenced ?claim ?fin (success_row ?fin) s s'"
    from f obtain t where t: "t \<in> set (db_tasks s)" "task_ID t = task_ID ?claim" "lease_matches t ?claim ?fin"
      unfolding fenced_def by blast
    from f obtain u where u: "u \<in> set (db_tasks s)" "still_claimed ?claim ?fin u" unfolding fenced_def by blast
    then have ut: "u = t" using key_unique [OF assms(2) u(1) t(1)] t(2) by (simp add: still_claimed_def)
    have "still_claimed ?claim ?fin x \<longleftrightarrow> x = t" if "x \<in> set (db_tasks s)" for x
      using that u ut key_unique [OF assms(2) that t(1)] t(2) by (auto simp: still_claimed_def)
    then have "db_tasks s' = map (\<lambda>u. if u = t then success_row ?fin t else u) (db_tasks s)"
      using f by (auto simp: fenced_def update_where_def)
    moreover have "task_LockedUntil ?claim \<noteq> None"
      using v by (auto simp: validateSuccessCommit_def claim_check_def split: option.splits)
    ultimately have ?thesis using t
      by (auto simp: lease_matches_def TimeToDatabase_def opt_all_def split: option.splits intro!: bexI [of _ t])
  }
  then show ?thesis using CommitSuccess_fenced [OF assms(1)] by auto
qed
definition sample_commit :: SuccessCommit where
  "sample_commit = \<lparr>sc_Claim = \<lparr>claim_Task = sample_running\<rparr>, sc_Bars = [], sc_Issues = [],
     sc_Checkpoint = successfulCheckpoint 5 [] (1003 * Hour + Minute), sc_FinishedAt = 1003 * Hour + Minute\<rparr>"

lemma sample_commit_accepted: "fst (db_CommitSuccess no_faults sample_commit (snd sample_claimed)) = Inr ()"
  by code_simp

theorem CommitSuccess_exact_witness:
  "map task_Status (db_tasks (snd (db_CommitSuccess no_faults sample_commit (snd sample_claimed)))) = [st_success]"
proof -
  let ?r = "db_CommitSuccess no_faults sample_commit (snd sample_claimed)"
  have eq: "db_CommitSuccess no_faults sample_commit (snd sample_claimed) = (fst ?r, snd ?r)" by simp
  have "distinct (map task_ID (db_tasks (snd sample_claimed)))" by (simp add: sample_claimed_eq)
  from CommitSuccess_exact [OF eq this] sample_commit_accepted show ?thesis
    by (auto simp: sample_claimed_eq success_row_def)
qed

end
