(* ===== verification/QueueProperties.thy ===== *)
theory QueueProperties
  imports TaskLifecycle
begin

text \<open>
  The queue: what is unique among the active tasks (manual retries, backfills), which task a claim
  takes, what a recovery gives back, and that scheduling the same work twice changes nothing.
\<close>

subsection \<open>One active retry and one active backfill\<close>

lemma task_move_active: "task_move t t' \<Longrightarrow> task_Status t \<in> set active_statuses"
  by (induction rule: task_move.induct) (auto simp: active_statuses_def claimable_def lease_expired_def)

definition retries_ok :: "IngestionTask list \<Rightarrow> bool" where
  "retries_ok ts \<longleftrightarrow> (\<forall>t \<in> set ts. \<forall>u \<in> set ts. \<forall>i. active_retry_of i t \<and> active_retry_of i u \<longrightarrow> task_ID t = task_ID u)"

lemma moved_active:
  assumes "tasks_moved ts ts'" "t' \<in> set ts'" "task_Status t' \<in> set active_statuses"
  obtains t where "t \<in> set ts" "task_Status t \<in> set active_statuses" "task_ID t = task_ID t'" "task_RunID t = task_RunID t'"
    "task_SubscriptionID t = task_SubscriptionID t'" "task_RangeStart t = task_RangeStart t'"
    "task_RangeEnd t = task_RangeEnd t'" "task_RetryOfTaskID t = task_RetryOfTaskID t'"
proof -
  from assms(1,2) obtain P u t where t: "t \<in> set ts" "t' = (if P t then u t else t)" "P t \<longrightarrow> task_move t (u t)"
    unfolding tasks_moved_def by (auto simp: update_where_set)
  show thesis
  proof (cases "P t")
    case True
    then have "task_move t t'" using t by simp
    from task_move_fixed [OF this] task_move_active [OF this] show thesis by (intro that [OF t(1)]) simp_all
  next
    case False
    then show thesis using t assms(3) by (intro that [OF t(1)]) simp_all
  qed
qed

lemma retries_ok_change:
  assumes "tasks_change ts ts'" "retries_ok ts" shows "retries_ok ts'"
  using assms(1) unfolding tasks_change_def
proof
  assume m: "tasks_moved ts ts'"
  show ?thesis unfolding retries_ok_def
  proof (intro ballI allI impI)
    fix t u i assume t: "t \<in> set ts'" and u: "u \<in> set ts'" and a: "active_retry_of i t \<and> active_retry_of i u"
    from a have active: "task_Status t \<in> set active_statuses" "task_Status u \<in> set active_statuses"
      by (simp_all add: active_retry_of_def)
    from moved_active [OF m t active(1)] obtain t0 where t0: "t0 \<in> set ts" "task_ID t0 = task_ID t"
      "task_Status t0 \<in> set active_statuses" "task_RetryOfTaskID t0 = task_RetryOfTaskID t" .
    from moved_active [OF m u active(2)] obtain u0 where u0: "u0 \<in> set ts" "task_ID u0 = task_ID u"
      "task_Status u0 \<in> set active_statuses" "task_RetryOfTaskID u0 = task_RetryOfTaskID u" .
    have "active_retry_of i t0" "active_retry_of i u0" using t0 u0 a by (simp_all add: active_retry_of_def)
    with t0 u0 have "task_ID t0 = task_ID u0" using assms(2) unfolding retries_ok_def by blast
    with t0 u0 show "task_ID t = task_ID u" by simp
  qed
next
  assume "\<exists>t. tasks_added ts t \<and> ts' = ts @ [t]"
  then obtain t where added: "tasks_added ts t" and ts': "ts' = ts @ [t]" by blast
  have none: "\<not> active_retry_of i u" if "active_retry_of i t" "u \<in> set ts" for i u
  proof -
    have "task_RetryOfTaskID t = Some i" using that(1) by (simp add: active_retry_of_def)
    then show ?thesis using added that(2) by (simp add: tasks_added_def)
  qed
  show ?thesis unfolding retries_ok_def
  proof (intro ballI allI impI)
    fix x y i assume "x \<in> set ts'" "y \<in> set ts'" and a: "active_retry_of i x \<and> active_retry_of i y"
    then consider "x = t" "y = t" | "x = t" "y \<in> set ts" | "x \<in> set ts" "y = t" | "x \<in> set ts" "y \<in> set ts"
      using ts' by auto
    then show "task_ID x = task_ID y"
    proof cases
      case 4
      then show ?thesis using a assms(2) unfolding retries_ok_def by blast
    qed (use a none in blast)+
  qed
qed

text \<open>
  C7. A task has at most one active manual retry, in every reachable state and whatever requests race
  for it.
\<close>
theorem one_active_retry:
  assumes "reachable pf cfg s0 w" and "tasks_ok (db_tasks s0)" and "retries_ok (db_tasks s0)"
    and "t \<in> set (db_tasks (w_db w))" "u \<in> set (db_tasks (w_db w))" "active_retry_of i t" "active_retry_of i u"
  shows "t = u"
proof -
  have "world_ok w \<and> retries_ok (db_tasks (w_db w))"
    using assms(1)
  proof (induction rule: reachable.induct)
    case start
    then show ?case using assms(2,3) by (simp add: world_ok_def)
  next
    case (step w w')
    then show ?case using world_step_ok world_step_tasks retries_ok_change by blast
  qed
  then show ?thesis using assms(4-) key_unique [of task_ID "db_tasks (w_db w)" t u]
    unfolding retries_ok_def world_ok_def tasks_ok_def by blast
qed

text \<open>The tasks of backfill runs, and the table with its references to runs.\<close>

definition is_backfill :: "DB \<Rightarrow> IngestionTask \<Rightarrow> bool" where
  "is_backfill s t \<longleftrightarrow> run_type_is s ''backfill'' (task_RunID t)"

definition same_backfill :: "DB \<Rightarrow> IngestionTask \<Rightarrow> IngestionTask \<Rightarrow> bool" where
  "same_backfill s t u \<longleftrightarrow> is_backfill s t \<and> is_backfill s u \<and> task_SubscriptionID t = task_SubscriptionID u
     \<and> task_RangeStart t = task_RangeStart u \<and> task_RangeEnd t = task_RangeEnd u
     \<and> task_Status t \<in> set active_statuses \<and> task_Status u \<in> set active_statuses"

definition backfills_ok :: "DB \<Rightarrow> bool" where
  "backfills_ok s \<longleftrightarrow> (\<forall>t \<in> set (db_tasks s). task_RunID t \<in> set (map run_ID (db_runs s)))
     \<and> (\<forall>t \<in> set (db_tasks s). \<forall>u \<in> set (db_tasks s). same_backfill s t u \<longrightarrow> task_ID t = task_ID u)"

text \<open>What an operation does to runs and tasks together: it moves tasks and leaves the identities and
  types of the runs, or it adds one run with one task.\<close>

definition run_kinds :: "DB \<Rightarrow> (ID \<times> string) list" where
  "run_kinds s = map (\<lambda>r. (run_ID r, run_RunType r)) (db_runs s)"

definition batch_added :: "DB \<Rightarrow> DB \<Rightarrow> bool" where
  "batch_added s s' \<longleftrightarrow> (\<exists>r t. db_runs s' = db_runs s @ [r] \<and> db_tasks s' = db_tasks s @ [t]
     \<and> run_ID r \<notin> set (map run_ID (db_runs s)) \<and> task_RunID t = run_ID r \<and> task_ID t \<notin> set (map task_ID (db_tasks s))
     \<and> (run_RunType r = ''backfill'' \<longrightarrow> (\<forall>u \<in> set (db_tasks s).
          \<not> (is_backfill s u \<and> task_SubscriptionID u = task_SubscriptionID t \<and> task_RangeStart u = task_RangeStart t
             \<and> task_RangeEnd u = task_RangeEnd t \<and> task_Status u \<in> set active_statuses))))"

definition queue_change :: "DB \<Rightarrow> DB \<Rightarrow> bool" where
  "queue_change s s' \<longleftrightarrow> (run_kinds s' = run_kinds s \<and> tasks_moved (db_tasks s) (db_tasks s')) \<or> batch_added s s'"

lemma run_type_is_kinds: "run_type_is s ty i \<longleftrightarrow> (i, ty) \<in> set (run_kinds s)"
  by (force simp: run_type_is_def run_kinds_def)

lemma run_ids_kinds: "map run_ID (db_runs s) = map fst (run_kinds s)"
  by (simp add: run_kinds_def)

lemma backfills_ok_change:
  assumes "queue_change s s'" "backfills_ok s" shows "backfills_ok s'"
  using assms(1) unfolding queue_change_def
proof (elim disjE conjE)
  assume kinds: "run_kinds s' = run_kinds s" and m: "tasks_moved (db_tasks s) (db_tasks s')"
  have same: "is_backfill s' t = is_backfill s t" for t by (simp add: is_backfill_def run_type_is_kinds kinds)
  have "task_RunID t \<in> set (map run_ID (db_runs s'))" if "t \<in> set (db_tasks s')" for t
  proof -
    from m that obtain P u t0 where "t0 \<in> set (db_tasks s)" "t = (if P t0 then u t0 else t0)" "P t0 \<longrightarrow> task_move t0 (u t0)"
      unfolding tasks_moved_def by (auto simp: update_where_set)
    then have "task_RunID t = task_RunID t0" "t0 \<in> set (db_tasks s)"
      using task_move_fixed(2) [of t0 "u t0"] by (cases "P t0"; simp)+
    then show ?thesis using assms(2) unfolding backfills_ok_def run_ids_kinds kinds by simp
  qed
  moreover have "task_ID t = task_ID u"
    if "t \<in> set (db_tasks s')" "u \<in> set (db_tasks s')" "same_backfill s' t u" for t u
  proof -
    from that(3) have active: "task_Status t \<in> set active_statuses" "task_Status u \<in> set active_statuses"
      by (simp_all add: same_backfill_def)
    from moved_active [OF m that(1) active(1)] obtain t0 where t0: "t0 \<in> set (db_tasks s)" "task_ID t0 = task_ID t"
      "task_Status t0 \<in> set active_statuses" "task_RunID t0 = task_RunID t" "task_SubscriptionID t0 = task_SubscriptionID t"
      "task_RangeStart t0 = task_RangeStart t" "task_RangeEnd t0 = task_RangeEnd t" .
    from moved_active [OF m that(2) active(2)] obtain u0 where u0: "u0 \<in> set (db_tasks s)" "task_ID u0 = task_ID u"
      "task_Status u0 \<in> set active_statuses" "task_RunID u0 = task_RunID u" "task_SubscriptionID u0 = task_SubscriptionID u"
      "task_RangeStart u0 = task_RangeStart u" "task_RangeEnd u0 = task_RangeEnd u" .
    have "same_backfill s t0 u0" using that(3) t0 u0 same by (simp add: same_backfill_def is_backfill_def)
    then show ?thesis using assms(2) t0 u0 by (auto simp: backfills_ok_def)
  qed
  ultimately show ?thesis unfolding backfills_ok_def by blast
next
  assume "batch_added s s'"
  then obtain r t where rt: "db_runs s' = db_runs s @ [r]" "db_tasks s' = db_tasks s @ [t]"
    "run_ID r \<notin> set (map run_ID (db_runs s))" "task_RunID t = run_ID r"
    and none: "run_RunType r = ''backfill'' \<longrightarrow> (\<forall>u \<in> set (db_tasks s).
          \<not> (is_backfill s u \<and> task_SubscriptionID u = task_SubscriptionID t \<and> task_RangeStart u = task_RangeStart t
             \<and> task_RangeEnd u = task_RangeEnd t \<and> task_Status u \<in> set active_statuses))"
    unfolding batch_added_def by blast
  have old: "is_backfill s' u = is_backfill s u" if "u \<in> set (db_tasks s)" for u
    using that assms(2) rt(1,3) unfolding is_backfill_def run_type_is_def backfills_ok_def by auto
  have new: "is_backfill s' t \<Longrightarrow> run_RunType r = ''backfill''"
    using rt(1,3,4) unfolding is_backfill_def run_type_is_def by (auto simp: image_iff)
  show ?thesis unfolding backfills_ok_def
  proof (intro conjI ballI impI)
    fix u assume "u \<in> set (db_tasks s')"
    then show "task_RunID u \<in> set (map run_ID (db_runs s'))" using assms(2) rt unfolding backfills_ok_def by auto
  next
    fix u v assume u: "u \<in> set (db_tasks s')" and v: "v \<in> set (db_tasks s')" and same: "same_backfill s' u v"
    have clash: "\<not> same_backfill s' t x" "\<not> same_backfill s' x t" if x: "x \<in> set (db_tasks s)" for x
      using none x new old [OF x] by (auto simp: same_backfill_def)
    from u v consider "u = t" "v = t" | "u = t" "v \<in> set (db_tasks s)" | "u \<in> set (db_tasks s)" "v = t"
      | "u \<in> set (db_tasks s)" "v \<in> set (db_tasks s)" using rt(2) by auto
    then show "task_ID u = task_ID v"
    proof cases
      case 4
      then have "same_backfill s u v" using same old [of u] old [of v] by (simp add: same_backfill_def)
      with 4 show ?thesis using assms(2) by (simp add: backfills_ok_def)
    qed (use clash same in blast)+
  qed
qed

lemma kinds_update:
  assumes "\<And>r. run_ID (u r) = run_ID r \<and> run_RunType (u r) = run_RunType r" "db_runs s' = update_where P u (db_runs s)"
  shows "run_kinds s' = run_kinds s"
  using assms by (simp add: run_kinds_def update_where_def)

named_theorems keeps_runs \<open>statements that leave the identities and types of the runs alone\<close>

lemma audit_runs [keeps_runs]: "audit_statement a i s = (Inr v, s') \<Longrightarrow> run_kinds s' = run_kinds s"
  unfolding audit_statement_def
  by (auto split: option.splits sum.splits intro!: kinds_update [of "\<lambda>r. r\<lparr>run_Context := _\<rparr>"])

lemma upsert_checkpoint_runs [keeps_runs]: "upsert_checkpoint i m s = (Inr v, s') \<Longrightarrow> run_kinds s' = run_kinds s"
  by (auto simp: upsert_checkpoint_def Let_def run_kinds_def split: option.splits)

lemma recover_checkpoints_runs [keeps_runs]: "recover_checkpoints now cs s = (Inr v, s') \<Longrightarrow> run_kinds s' = run_kinds s"
  by (induction now cs s arbitrary: s' rule: recover_checkpoints.induct)
    (auto dest: upsert_checkpoint_runs split: prod.splits sum.splits)

lemma insert_bar_runs [keeps_runs]: "insert_bar b s = (Inr v, s') \<Longrightarrow> run_kinds s' = run_kinds s"
  by (auto simp: insert_bar_def Let_def run_kinds_def split: option.splits)

lemma close_bar_runs [keeps_runs]: "close_bar_statement b n s = (Inr v, s') \<Longrightarrow> run_kinds s' = run_kinds s"
  by (auto simp: close_bar_statement_def Let_def run_kinds_def split: option.splits)

lemma write_revision_runs [keeps_runs]: "write_revision f n strict b s = (Inr v, s') \<Longrightarrow> run_kinds s' = run_kinds s"
  unfolding write_revision_def loadCurrentMarketBar_def
  by (auto elim!: tx_elims split: if_splits dest!: keeps_runs)

lemma write_bars_runs [keeps_runs]: "write_bars f n bs s = (Inr v, s') \<Longrightarrow> run_kinds s' = run_kinds s"
  by (induction f n bs arbitrary: s rule: write_bars.induct)
    (auto simp: writeMarketBarInTransaction_def elim!: tx_elims split: sum.splits dest!: write_revision_runs)

lemma open_issue_runs [keeps_runs]:
  "openQualityIssue (in_transaction f n) q s = (Inr v, s') \<Longrightarrow> run_kinds s' = run_kinds s"
  by (auto simp: openQualityIssue_def opened_def in_transaction_def open_issue_statement_def Let_def run_kinds_def
      split: option.splits prod.splits sum.splits driver_error.splits if_splits)

lemma open_issues_runs [keeps_runs]: "open_issues f n qs s = (Inr v, s') \<Longrightarrow> run_kinds s' = run_kinds s"
  by (induction f n qs arbitrary: s rule: open_issues.induct) (auto elim!: tx_elims dest!: open_issue_runs)

lemma finish_task_runs [keeps_runs]: "finish_task f n claim fin row s = (Inr v, s') \<Longrightarrow> run_kinds s' = run_kinds s"
  by (drule finish_task_Inr) (auto simp: run_kinds_def)

lemma success_body_runs [keeps_runs]: "success_body f c s = (Inr v, s') \<Longrightarrow> run_kinds s' = run_kinds s"
  unfolding success_body_def lockAndValidateTaskClaim_def upsertSuccessfulCheckpoint_def Let_def
  by (auto elim!: tx_elims dest!: keeps_runs)

lemma failure_body_runs [keeps_runs]: "failure_body f c s = (Inr v, s') \<Longrightarrow> run_kinds s' = run_kinds s"
  unfolding failure_body_def lockAndValidateFailureClaim_def upsertFailedCheckpoint_def
  by (auto elim!: tx_elims dest!: keeps_runs)

lemma cancel_body_runs [keeps_runs]: "cancel_body f i by reason now s = (Inr t, s') \<Longrightarrow> run_kinds s' = run_kinds s"
  unfolding cancel_body_def
  by (auto elim!: tx_elims simp: cancel_statement_def Let_def run_kinds_def split: option.splits)

lemma claim_runs: "ClaimNextTask f locked worker now d s = (r, s') \<Longrightarrow> run_kinds s' = run_kinds s"
  by (drule ClaimNextTask_tasks) (auto simp: run_kinds_def)

lemma CommitSuccess_runs: "db_CommitSuccess f c s = (r, s') \<Longrightarrow> run_kinds s' = run_kinds s"
  using transaction_atomic [of f "success_body f c" s r s']
  by (auto simp: db_CommitSuccess_def split: option.splits dest: keeps_runs)

lemma CommitFailure_runs: "db_CommitFailure f c s = (r, s') \<Longrightarrow> run_kinds s' = run_kinds s"
  using transaction_atomic [of f "failure_body f c" s r s']
  by (auto simp: db_CommitFailure_def split: option.splits dest: keeps_runs)

lemma CancelTask_runs: "CancelTask f i by reason now s = (r, s') \<Longrightarrow> run_kinds s' = run_kinds s"
  using transaction_atomic [of f "tx_bind (cancel_body f i by (nullableString reason) now) (\<lambda>_. tx_return ())" s r s']
  by (auto simp: CancelTask_def split: if_splits elim!: tx_elims dest: keeps_runs)

lemma CancelTaskWithAudit_runs:
  assumes "db_CancelTaskWithAudit pf f i audit now s = (r, s')" shows "run_kinds s' = run_kinds s"
proof (cases "s' = s")
  case False
  let ?body = "tx_bind (cancel_body f i (ta_RequestedBy audit) (Some (ta_Reason audit)) now) (\<lambda>t.
         tx_bind (call f 3 MapError (audit_statement (cancel_audit pf i audit now) (task_RunID t))) (\<lambda>affected.
         tx_bind (tx_check (guard (affected \<noteq> 1) ErrReferenceViolation)) (\<lambda>_. tx_return (task_RunID t))))"
  from assms False obtain v where "?body s = (Inr v, s')"
    using transaction_atomic [of f ?body s r s'] by (auto simp: db_CancelTaskWithAudit_def split: if_splits)
  then show ?thesis by (auto elim!: tx_elims dest!: keeps_runs)
qed simp

lemma RecoverExpiredTasks_runs:
  assumes "db_RecoverExpiredTasks f locked now s = (r, s')" shows "run_kinds s' = run_kinds s"
proof (cases "s' = s")
  case False
  with assms obtain q where "autocommit f (recover_statement locked now) s = (q, s')"
    by (cases "autocommit f (recover_statement locked now) s")
      (auto simp: db_RecoverExpiredTasks_def split: if_splits dest: map_errors_state)
  with False obtain v where "recover_statement locked now s = (Inr v, s')"
    using autocommit_atomic by blast
  then obtain x where "recover_checkpoints now x (s\<lparr>db_tasks := update_where (\<lambda>t. lease_expired now t \<and> task_ID t \<notin> locked)
      (recover_row now) (db_tasks s)\<rparr>) = (Inr (), s')"
    by (auto simp: recover_statement_def Let_def split: prod.splits sum.splits)
  then show ?thesis by (auto dest!: recover_checkpoints_runs simp: run_kinds_def)
qed simp

lemma SaveRunSummary_runs: "db_SaveRunSummary f summary s = (r, s') \<Longrightarrow> run_kinds s' = run_kinds s"
proof -
  have "run_kinds s'' = run_kinds s" if a: "autocommit f (summary_statement summary) s = (q, s'')" for q s''
  proof (cases "s'' = s")
    case False
    with autocommit_atomic [OF a] obtain v where "summary_statement summary s = (Inr v, s'')" by auto
    then show ?thesis
      by (auto simp: summary_statement_def Let_def split: option.splits intro!: kinds_update [of "summary_row summary"])
        (simp_all add: summary_row_def)
  qed simp
  moreover assume "db_SaveRunSummary f summary s = (r, s')"
  ultimately show ?thesis by (auto simp: db_SaveRunSummary_def split: option.splits prod.splits sum.splits)
qed

lemma batch_added_inserts:
  assumes "insert_run run s = (Inr (), s1) \<or> insert_run_if_new run s = (Inr True, s1)"
    and "insert_task task s1 = (Inr (), s')" and "task_RunID task = run_ID run"
    and "run_RunType run = ''backfill'' \<Longrightarrow> active_backfill_query task s = Inl NoRows"
  shows "batch_added s s'"
proof -
  from assms(1) have r: "s1 = s\<lparr>db_runs := db_runs s @ [runArguments run]\<rparr>" "run_ID run \<notin> set (map run_ID (db_runs s))"
    by (auto dest!: insert_run_Inr insert_run_if_new_Inr)
  from insert_task_Inr [OF assms(2)] have t: "s' = s1\<lparr>db_tasks := db_tasks s1 @ [taskArguments task]\<rparr>"
    and fresh: "task_ID (taskArguments task) \<notin> set (map task_ID (db_tasks s1))" by (auto simp: task_references_def)
  have none: "\<not> active_backfill s (task_SubscriptionID task) (task_RangeStart task) (task_RangeEnd task) u"
    if "run_RunType run = ''backfill''" "u \<in> set (db_tasks s)" for u
    using assms(4) [OF that(1)] that(2)
    by (auto simp: active_backfill_query_def first_row_def filter_empty_conv split: list.splits)
  show ?thesis unfolding batch_added_def
    by (rule exI [of _ "runArguments run"], rule exI [of _ "taskArguments task"])
      (use r t fresh none assms(3) in \<open>auto simp: runArguments_def taskArguments_def active_backfill_def is_backfill_def\<close>)
qed

lemma world_step_queue:
  assumes "world_step pf cfg w w'" "world_ok w" shows "queue_change (w_db w) (w_db w') \<or> w_db w' = w_db w"
  using assms
proof (induction rule: world_step.induct)
  case (schedule f batch w r s')
  show ?case
  proof (cases "s' = w_db w")
    case False
    from CreateScheduledBatch_effect [OF schedule.hyps(1) False] obtain s1 where
      "ScheduledBatch_Validate pf batch = None" "insert_run_if_new (sb_Run batch) (w_db w) = (Inr True, s1)"
      "insert_task (sb_Task batch) s1 = (Inr (), s')" .
    moreover from this have "run_RunType (sb_Run batch) \<noteq> ''backfill''" "task_RunID (sb_Task batch) = run_ID (sb_Run batch)"
      by (auto simp: ScheduledBatch_Validate_def Let_def run_type_of_def)
    ultimately show ?thesis by (auto simp: queue_change_def intro: batch_added_inserts)
  qed simp
next
  case (backfill f run task w r s')
  show ?case
  proof (cases "s' = w_db w")
    case False
    from CreateBackfill_effect [OF backfill.hyps(1) False] obtain s1 where
      "validateBackfillRunAndTask pf run task = None" "active_backfill_query task (w_db w) = Inl NoRows"
      "insert_run run (w_db w) = (Inr (), s1)" "insert_task task s1 = (Inr (), s')" .
    moreover from this have "task_RunID task = run_ID run" by (auto simp: validateBackfillRunAndTask_def)
    ultimately show ?thesis by (auto simp: queue_change_def intro: batch_added_inserts)
  qed simp
next
  case (retry f c w r s')
  show ?case
  proof (cases "s' = w_db w")
    case False
    from CreateManualRetry_effect [OF retry.hyps(1) False] obtain s1 original where
      "insert_run (repair_run pf c) (w_db w) = (Inr (), s1)" "insert_task (repair_task c original) s1 = (Inr (), s')" .
    moreover have "task_RunID (repair_task c original) = run_ID (repair_run pf c)" "run_RunType (repair_run pf c) \<noteq> ''backfill''"
      by (simp_all add: repair_task_def repair_run_def pending_task_def pending_run_def)
    ultimately show ?thesis by (auto simp: queue_change_def intro: batch_added_inserts)
  qed simp
next
  case (success f c w r s')
  show ?case
  proof (cases "s' = w_db w")
    case False
    from fenced_moved [OF CommitSuccess_effect(2) [OF success.hyps(1) False]] success_moves CommitSuccess_runs [OF success.hyps(1)]
    show ?thesis by (auto simp: committed_def queue_change_def)
  qed (simp add: committed_def)
next
  case (failure f claim e finishedAt w r s')
  show ?case
  proof (cases "s' = w_db w")
    case False
    note eff = CommitFailure_effect [OF failure.hyps(1) False]
    have "tasks_moved (db_tasks (w_db w)) (db_tasks s')"
      using failure_moves [OF failure.prems failure.hyps(2) eff(1)] by (intro fenced_moved [OF eff(2)]) blast
    with CommitFailure_runs [OF failure.hyps(1)] show ?thesis by (simp add: committed_def queue_change_def)
  qed (simp add: committed_def)
next
  case (claim f locked worker now d w r s')
  then have "distinct (map task_ID (db_tasks (w_db w)))" by (simp add: world_ok_def tasks_ok_def)
  from ClaimNextTask_moved [OF claim.hyps(1) this] claim_runs [OF claim.hyps(1)] show ?case by (simp add: queue_change_def)
next
  case (cancel f i who reason now w r s')
  from CancelTask_moved [OF cancel.hyps(1)] CancelTask_runs [OF cancel.hyps(1)] show ?case by (simp add: queue_change_def)
next
  case (cancel_audit f i audit now w r s')
  from CancelTaskWithAudit_moved [OF cancel_audit.hyps(1)] CancelTaskWithAudit_runs [OF cancel_audit.hyps(1)]
  show ?case by (simp add: queue_change_def)
next
  case (recover f locked now w r s')
  from RecoverExpiredTasks_moved [OF recover.hyps(1)] RecoverExpiredTasks_runs [OF recover.hyps(1)]
  show ?case by (simp add: queue_change_def)
next
  case (summarize f summary w r s')
  from SaveRunSummary_moved [OF summarize.hyps(1)] SaveRunSummary_runs [OF summarize.hyps(1)]
  show ?case by (simp add: queue_change_def)
qed

subsection \<open>Samples\<close>

definition sample_failed_task :: IngestionTask where
  "sample_failed_task = sample_pending\<lparr>task_Status := st_failed, task_AttemptCount := 2, task_FinishedAt := Some (1003 * Hour)\<rparr>"

definition sample_failed_db :: DB where
  "sample_failed_db = sample_db\<lparr>db_tasks := [sample_failed_task]\<rparr>"

definition sample_audit :: TaskOperationAudit where
  "sample_audit = \<lparr>ta_RequestedBy = ''alice'', ta_ActorType = ''user'', ta_RequestID = ''r-1'', ta_Reason = ''check''\<rparr>"

definition sample_retry :: ManualRetryCreation where
  "sample_retry = \<lparr>mr_OriginalTaskID = 31, mr_RunID = 51, mr_TaskID = 52, mr_MaximumAttempts = 3, mr_Audit = sample_audit,
     mr_CreatedAt = 1004 * Hour, mr_RunContext = emptyJSONObject\<rparr>"

definition sample_retried :: DB where
  "sample_retried = snd (db_CreateManualRetry sample_platform no_faults sample_retry sample_failed_db)"

lemma sample_retried_tasks:
  "map task_ID (db_tasks sample_retried) = [31, 52]"
  "list_all (\<lambda>t. active_retry_of 31 t = (task_ID t = 52)) (db_tasks sample_retried)"
  by code_simp+

theorem one_active_retry_witness:
  "\<exists>t \<in> set (db_tasks sample_retried). active_retry_of 31 t \<and> (\<forall>u \<in> set (db_tasks sample_retried). active_retry_of 31 u \<longrightarrow> u = t)"
proof -
  from sample_retried_tasks(1) obtain x t where tasks: "db_tasks sample_retried = [x, t]" "task_ID t = 52"
    by (auto simp: map_eq_Cons_conv)
  let ?start = "\<lparr>w_db = sample_failed_db, w_claims = {}, w_commits = []\<rparr>"
  have "db_CreateManualRetry sample_platform no_faults sample_retry (w_db ?start)
      = (fst (db_CreateManualRetry sample_platform no_faults sample_retry sample_failed_db), sample_retried)"
    by (simp add: sample_retried_def)
  from reachable.step [OF reachable.start world_step.retry [OF this]]
  have r: "reachable sample_platform sample_service sample_failed_db \<lparr>w_db = sample_retried, w_claims = {}, w_commits = []\<rparr>" by simp
  have s: "tasks_ok (db_tasks sample_failed_db)" by code_simp
  have "retries_ok (db_tasks sample_failed_db)" by (simp add: retries_ok_def sample_failed_db_def)
  note unique = one_active_retry [OF r s this, simplified]
  have t: "t \<in> set (db_tasks sample_retried)" "active_retry_of 31 t" using tasks sample_retried_tasks(2) by simp_all
  show ?thesis
  proof (intro bexI [of _ t] conjI ballI impI t)
    fix u assume "u \<in> set (db_tasks sample_retried)" "active_retry_of 31 u"
    then show "u = t" using unique t by blast
  qed
qed
definition sample_backfill :: "IngestionRun \<times> IngestionTask" where
  "sample_backfill =
     (pending_run 61 (''backfill.manual.'' @ UUID_String sample_platform 61) ''backfill'' ''manual'' None (Some ''alice'')
        emptyJSONObject (1010 * Hour),
      pending_task 62 61 5 None (1000 * Hour) (1002 * Hour) 3 (1010 * Hour))"

definition sample_backfilled :: "unit result \<times> DB" where
  "sample_backfilled = db_CreateBackfillRunWithTask sample_platform no_faults (fst sample_backfill) (snd sample_backfill) sample_db"

lemma sample_backfilled_tasks:
  "map task_ID (db_tasks (snd sample_backfilled)) = [31, 62]"
  "list_all (\<lambda>t. same_backfill (snd sample_backfilled) t t = (task_ID t = 62)) (db_tasks (snd sample_backfilled))"
  by code_simp+


subsection \<open>Claims and recovery\<close>

lemma update_one:
  assumes "distinct (map task_ID ts)" "t \<in> set ts"
  shows "update_where (\<lambda>u. task_ID u = task_ID t) f ts = map (\<lambda>u. if u = t then f t else u) ts"
  using key_unique [OF assms(1) _ assms(2)] by (auto simp: update_where_def)

text \<open>
  C9. A claim takes the oldest task that is due and not held by another transaction: the task gets one
  attempt more and the worker's lease, and no other task changes. A worker finds nothing only when no
  such task exists, so no due task is overtaken by a younger one or left behind.
\<close>
theorem ClaimNextTask_oldest:
  assumes ok: "tasks_ok (db_tasks s)" and int4: "\<forall>t \<in> set (db_tasks s). int4_ok (task_MaxAttempts t)"
    and args: "worker \<noteq> []" "varchar_ok 128 worker" "\<not> IsZero now" "0 < lease"
    and faults: "fault_at f 0 = None" "fault_commit f = None"
  shows "if \<exists>u \<in> set (db_tasks s). claimable now u \<and> task_ID u \<notin> locked
    then \<exists>t \<in> set (db_tasks s). claimable now t \<and> task_ID t \<notin> locked
       \<and> (\<forall>u \<in> set (db_tasks s). claimable now u \<and> task_ID u \<notin> locked \<longrightarrow> task_CreatedAt t \<le> task_CreatedAt u)
       \<and> ClaimNextTask f locked worker now lease s =
           (Inr (Some \<lparr>claim_Task = claim_row worker now (now + lease) t\<rparr>),
            s\<lparr>db_tasks := map (\<lambda>u. if u = t then claim_row worker now (now + lease) t else u) (db_tasks s)\<rparr>)
    else ClaimNextTask f locked worker now lease s = (Inr None, s)"
proof (cases "claim_candidate locked now (db_tasks s)")
  case None
  then have "filter (\<lambda>t. claimable now t \<and> task_ID t \<notin> locked) (db_tasks s) = []"
    by (auto simp: claim_candidate_def split: list.splits)
      (metis (no_types, lifting) length_0_conv length_sort)
  then have none: "\<not> (\<exists>u \<in> set (db_tasks s). claimable now u \<and> task_ID u \<notin> locked)"
    by (auto simp: filter_empty_conv)
  have "ClaimNextTask f locked worker now lease s = (Inr None, s)"
    using args faults None by (simp add: ClaimNextTask_def autocommit_def claim_statement_def)
  with none show ?thesis by auto
next
  case (Some t)
  note c = claim_candidate_Some [OF Some]
  have "task_ok t" using ok c(1) by (auto simp: tasks_ok_def list_all_iff)
  then have "0 \<le> task_AttemptCount t" "task_AttemptCount t < task_MaxAttempts t"
    using c(2) by (auto simp: task_ok_def claimable_def)
  then have "int4_ok (task_AttemptCount t + 1)" using int4 c(1) by (auto simp: int4_ok_def)
  then have "ClaimNextTask f locked worker now lease s =
      (Inr (Some \<lparr>claim_Task = claim_row worker now (now + lease) t\<rparr>),
       s\<lparr>db_tasks := update_where (\<lambda>u. task_ID u = task_ID t) (claim_row worker now (now + lease)) (db_tasks s)\<rparr>)"
    using args faults Some by (simp add: ClaimNextTask_def autocommit_def claim_statement_def violates_def)
  moreover have "distinct (map task_ID (db_tasks s))" using ok by (simp add: tasks_ok_def)
  ultimately show ?thesis using c by (auto simp: update_one intro!: bexI [of _ t])
qed

theorem ClaimNextTask_oldest_witness:
  "\<exists>t \<in> set (db_tasks sample_db). ClaimNextTask no_faults {} ''worker-1'' (1003 * Hour) Hour sample_db =
     (Inr (Some \<lparr>claim_Task = claim_row ''worker-1'' (1003 * Hour) (1003 * Hour + Hour) t\<rparr>),
      sample_db\<lparr>db_tasks := map (\<lambda>u. if u = t then claim_row ''worker-1'' (1003 * Hour) (1003 * Hour + Hour) t else u)
        (db_tasks sample_db)\<rparr>)"
proof -
  have "\<forall>t \<in> set (db_tasks sample_db). int4_ok (task_MaxAttempts t)" by code_simp
  moreover have "varchar_ok 128 ''worker-1''" "\<not> IsZero (1003 * Hour)" "0 < Hour" by code_simp+
  moreover have "fault_at no_faults 0 = None" "fault_commit no_faults = None" by (simp_all add: no_faults_def)
  ultimately have "if \<exists>u \<in> set (db_tasks sample_db). claimable (1003 * Hour) u \<and> task_ID u \<notin> {}
    then \<exists>t \<in> set (db_tasks sample_db). claimable (1003 * Hour) t \<and> task_ID t \<notin> {}
       \<and> (\<forall>u \<in> set (db_tasks sample_db). claimable (1003 * Hour) u \<and> task_ID u \<notin> {} \<longrightarrow> task_CreatedAt t \<le> task_CreatedAt u)
       \<and> ClaimNextTask no_faults {} ''worker-1'' (1003 * Hour) Hour sample_db =
           (Inr (Some \<lparr>claim_Task = claim_row ''worker-1'' (1003 * Hour) (1003 * Hour + Hour) t\<rparr>),
            sample_db\<lparr>db_tasks := map (\<lambda>u. if u = t then claim_row ''worker-1'' (1003 * Hour) (1003 * Hour + Hour) t else u) (db_tasks sample_db)\<rparr>)
    else ClaimNextTask no_faults {} ''worker-1'' (1003 * Hour) Hour sample_db = (Inr None, sample_db)"
    by (intro ClaimNextTask_oldest sample_db_ok) simp_all
  moreover have "\<exists>u \<in> set (db_tasks sample_db). claimable (1003 * Hour) u \<and> task_ID u \<notin> {}"
    by (simp add: sample_db_def claimable_def sample_pending_def pending_task_def)
  ultimately show ?thesis by auto
qed
lemma RecoverExpiredTasks_Inr:
  assumes "db_RecoverExpiredTasks f locked now s = (Inr n, s')"
  shows "n = int (length (filter (\<lambda>t. lease_expired now t \<and> task_ID t \<notin> locked) (db_tasks s)))
    \<and> db_tasks s' = update_where (\<lambda>t. lease_expired now t \<and> task_ID t \<notin> locked) (recover_row now) (db_tasks s)"
proof -
  from assms have "recover_statement locked now s = (Inr n, s')"
    by (auto simp: db_RecoverExpiredTasks_def map_errors_Inr split: if_splits dest: autocommit_Inr)
  then show ?thesis
    by (auto simp: recover_statement_def Let_def split: prod.splits sum.splits dest: recover_checkpoints_tasks)
qed


definition sample_recovered :: "int result \<times> DB" where
  "sample_recovered = db_RecoverExpiredTasks no_faults {} (1005 * Hour) (snd sample_claimed)"


subsection \<open>Scheduling the same work again\<close>

lemma concat_map_nil: "(\<And>x. x \<in> set xs \<Longrightarrow> g x = []) \<Longrightarrow> concat (map g xs) = []"
  by auto

lemma tasks_of_key_new:
  assumes "db_runs s1 = db_runs s @ [r]" "db_tasks s1 = db_tasks s @ [t]" "task_RunID t = run_ID r"
    "run_RunKey r \<notin> set (map run_RunKey (db_runs s))" "run_ID r \<notin> set (map run_ID (db_runs s))"
    "\<forall>u \<in> set (db_tasks s). task_RunID u \<in> set (map run_ID (db_runs s))"
  shows "tasks_of_key (run_RunKey r) s1 = [(r, t)]"
proof -
  let ?g = "\<lambda>r'. if run_RunKey r' = run_RunKey r then [(r', t). t \<leftarrow> db_tasks s1, task_RunID t = run_ID r'] else []"
  have "concat (map ?g (db_runs s)) = []" using assms(4) by (intro concat_map_nil) (auto simp: image_iff)
  moreover have "concat (map (\<lambda>t. if task_RunID t = run_ID r then [(r, t)] else []) (db_tasks s)) = []"
  proof (rule concat_map_nil)
    fix u assume "u \<in> set (db_tasks s)"
    then have "task_RunID u \<noteq> run_ID r" using assms(5,6) by metis
    then show "(if task_RunID u = run_ID r then [(r, u)] else []) = []" by simp
  qed
  ultimately show ?thesis using assms(1,2,3) by (simp add: tasks_of_key_def del: concat_eq_Nil_conv)
qed

lemma ScheduledBatch_Validate_rows:
  assumes "ScheduledBatch_Validate pf b = None" "ScheduledBatch_Validate pf b' = None" "sb_Trigger b' = sb_Trigger b"
    "run_RunKey (sb_Run b') = run_RunKey (sb_Run b)" "run_row_checks (runArguments (sb_Run b)) = None"
  shows "run_row_checks (runArguments (sb_Run b')) = None"
proof -
  have json: "json_Valid (jsonValue raw)" if "validJSONObject raw" for raw
    using that by (auto simp: validJSONObject_def isJSONObject_def jsonValue_def json_Valid_def split: RawMessage.splits)
  have st: "varchar_ok 16 st_pending" by code_simp
  from assms show ?thesis
    by (auto simp: ScheduledBatch_Validate_def Let_def run_row_checks_def runArguments_def json opt_all_def st)
qed

text \<open>
  C11. Scheduling is idempotent: once a batch was created, another batch for the same subscription,
  trigger, range and due time (with new identities and a later creation time) is recognised as existing
  and leaves the database as it is, for times in whole microseconds as the windows have.
\<close>
theorem CreateScheduledBatch_idempotent:
  assumes first: "db_CreateScheduledBatch pf f b s = (Inr True, s1)"
    and refs: "\<forall>t \<in> set (db_tasks s). task_RunID t \<in> set (map run_ID (db_runs s))"
    and valid: "ScheduledBatch_Validate pf b' = None"
    and same: "sb_Trigger b' = sb_Trigger b" "task_SubscriptionID (sb_Task b') = task_SubscriptionID (sb_Task b)"
      "task_RangeStart (sb_Task b') = task_RangeStart (sb_Task b)" "task_RangeEnd (sb_Task b') = task_RangeEnd (sb_Task b)"
      "run_ScheduledAt (sb_Run b') = run_ScheduledAt (sb_Run b)"
    and micro: "1000 dvd task_RangeStart (sb_Task b)" "1000 dvd task_RangeEnd (sb_Task b)"
      "\<forall>t. run_ScheduledAt (sb_Run b) = Some t \<longrightarrow> 1000 dvd t"
  shows "db_CreateScheduledBatch pf no_faults b' s1 = (Inr False, s1)"
proof -
  from first have v: "ScheduledBatch_Validate pf b = None"
    and tr: "transaction_if f id (scheduled_batch_body f b) s = (Inr True, s1)"
    by (auto simp: db_CreateScheduledBatch_def split: option.splits)
  from transaction_if_Inr [OF tr] have body: "scheduled_batch_body f b s = (Inr True, s1)" by simp
  then obtain sub s2 where sub: "select_by sub_ID (task_SubscriptionID (sb_Task b)) (db_subs s) = Inr sub" "sub_Enabled sub"
    and run: "insert_run_if_new (sb_Run b) s = (Inr True, s2)" and task: "insert_task (sb_Task b) s2 = (Inr (), s1)"
    unfolding scheduled_batch_body_def by (auto elim!: tx_elims split: if_splits)
  let ?r = "runArguments (sb_Run b)" and ?t = "taskArguments (sb_Task b)"
  from insert_run_if_new_Inr [OF run] have s2: "s2 = s\<lparr>db_runs := db_runs s @ [?r]\<rparr>" and checks: "run_row_checks ?r = None"
    and fresh: "run_ID (sb_Run b) \<notin> set (map run_ID (db_runs s))" "run_RunKey (sb_Run b) \<notin> set (map run_RunKey (db_runs s))"
    by auto
  from insert_task_Inr [OF task] s2 have s1: "s1 = s\<lparr>db_runs := db_runs s @ [?r], db_tasks := db_tasks s @ [?t]\<rparr>" by simp
  have keys: "run_RunKey (sb_Run b') = run_RunKey (sb_Run b)" "run_RunType (sb_Run b') = run_RunType (sb_Run b)"
    "run_TriggerType (sb_Run b') = run_TriggerType (sb_Run b)" "task_RunID (sb_Task b) = run_ID (sb_Run b)"
    "run_ScheduledAt (sb_Run b) \<noteq> None"
    using v valid same by (auto simp: ScheduledBatch_Validate_def Let_def)
  have rows: "tasks_of_key (run_RunKey (sb_Run b')) s1 = [(?r, ?t)]"
    using tasks_of_key_new [of s1 s ?r ?t] s1 fresh refs keys by (simp add: runArguments_def taskArguments_def)
  obtain due where at: "run_ScheduledAt (sb_Run b) = Some due" using keys(5) by auto
  have eq: "equivalent_query b' s1 = Inr True"
    using keys same micro at rows
    by (simp add: equivalent_query_def Let_def first_row_def runArguments_def taskArguments_def optional_timestamptz_def
        timestamptz_id TimeToDatabase_def)
  have sub1: "select_by sub_ID (task_SubscriptionID (sb_Task b')) (db_subs s1) = Inr sub" using sub s1 same by simp
  have new: "insert_run_if_new (sb_Run b') s1 = (Inr False, s1)"
    using ScheduledBatch_Validate_rows [OF v valid same(1) keys(1) checks] keys(1) s1
    by (simp add: insert_run_if_new_def Let_def run_key_taken_def runArguments_def)
  have "scheduled_batch_body no_faults b' s1 = (Inr False, s1)"
    using sub1 sub(2) new eq
    by (simp add: scheduled_batch_body_def require_enabled_def equivalentScheduledBatch_def tx_bind_def call_def reading_def
        tx_check_def tx_return_def select_enabled_def no_faults_def)
  then show ?thesis using valid by (simp add: db_CreateScheduledBatch_def transaction_if_def no_faults_def)
qed
definition sample_batch :: "ID \<Rightarrow> ID \<Rightarrow> time \<Rightarrow> ScheduledBatch" where
  "sample_batch runID taskID createdAt = \<lparr>sb_Trigger = WindowTriggerClose,
     sb_Run = pending_run runID (StableRunKey sample_platform WindowTriggerClose 5 (1000 * Hour) (1002 * Hour)) ''incremental''
       ''scheduler'' (Some (1003 * Hour)) None emptyJSONObject createdAt,
     sb_Task = pending_task taskID runID 5 None (1000 * Hour) (1002 * Hour) 3 createdAt\<rparr>"

lemma sample_batch_valid:
  assumes "runID \<noteq> 0" "taskID \<noteq> 0" "runID \<noteq> taskID" "1003 * Hour \<le> createdAt"
  shows "ScheduledBatch_Validate sample_platform (sample_batch runID taskID createdAt) = None"
proof -
  have "\<not> IsZero createdAt" "1000 * Hour < 1002 * Hour" "1002 * Hour \<le> 1003 * Hour"
    using assms(4) by (simp_all add: IsZero_def Hour_def Minute_def Second_def)
  then show ?thesis using assms
    by (simp add: ScheduledBatch_Validate_def sample_batch_def pending_run_def pending_task_def Let_def ID_IsZero_def
        sample_platform_def run_type_of_def validJSONObject_def)
qed

lemma sample_batch_created:
  "\<exists>s1. db_CreateScheduledBatch sample_platform no_faults (sample_batch 71 72 (1003 * Hour)) sample_db = (Inr True, s1)"
proof -
  let ?b = "sample_batch 71 72 (1003 * Hour)"
  let ?s1 = "sample_db\<lparr>db_runs := db_runs sample_db @ [runArguments (sb_Run ?b)]\<rparr>"
  have v: "ScheduledBatch_Validate sample_platform ?b = None" by (rule sample_batch_valid) simp_all
  have "fst (insert_run_if_new (sb_Run ?b) sample_db) = Inr True" by code_simp
  then have r: "insert_run_if_new (sb_Run ?b) sample_db = (Inr True, ?s1)"
    using insert_run_if_new_Inr [of "sb_Run ?b" sample_db True] by (cases "insert_run_if_new (sb_Run ?b) sample_db") auto
  have "fst (insert_task (sb_Task ?b) ?s1) = Inr ()" by code_simp
  then obtain s1 where t: "insert_task (sb_Task ?b) ?s1 = (Inr (), s1)" by (cases "insert_task (sb_Task ?b) ?s1") auto
  have e: "select_enabled (task_SubscriptionID (sb_Task ?b)) sample_db = Inr True" by code_simp
  have "scheduled_batch_body no_faults ?b sample_db = (Inr True, s1)"
    by (simp add: scheduled_batch_body_def require_enabled_def tx_bind_def call_def reading_def tx_check_def tx_return_def
        no_faults_def e r t)
  then show ?thesis using v by (simp add: db_CreateScheduledBatch_def transaction_if_def no_faults_def)
qed

theorem CreateScheduledBatch_idempotent_witness:
  "\<exists>s1. db_CreateScheduledBatch sample_platform no_faults (sample_batch 71 72 (1003 * Hour)) sample_db = (Inr True, s1)
     \<and> db_CreateScheduledBatch sample_platform no_faults (sample_batch 81 82 (1004 * Hour)) s1 = (Inr False, s1)"
proof -
  from sample_batch_created obtain s1 where
    s1: "db_CreateScheduledBatch sample_platform no_faults (sample_batch 71 72 (1003 * Hour)) sample_db = (Inr True, s1)" by blast
  have refs: "\<forall>t \<in> set (db_tasks sample_db). task_RunID t \<in> set (map run_ID (db_runs sample_db))"
    by (simp add: sample_db_def sample_pending_def pending_task_def pending_run_def)
  have "1003 * Hour \<le> 1004 * Hour" by (simp add: Hour_def Minute_def Second_def)
  then have v: "ScheduledBatch_Validate sample_platform (sample_batch 81 82 (1004 * Hour)) = None"
    by (intro sample_batch_valid) simp_all
  have "1000 dvd Hour" by (simp add: Hour_def Minute_def Second_def)
  then show ?thesis
    using CreateScheduledBatch_idempotent [OF s1 refs v] s1
    by (auto simp: sample_batch_def pending_run_def pending_task_def)
qed

end
