(* ===== verification/MarketProperties.thy ===== *)
theory MarketProperties
  imports TaskLifecycle
begin

text \<open>
  The market data tables. The revisions of a bar form a history: numbered from 1 without gaps, the last
  one current. Writing is proved to refine an abstract history of contents that grows only by changed
  contents. Latest quotes are the newest ones received, checkpoints move forward only.
\<close>

subsection \<open>Histories\<close>

definition history :: "Bar \<Rightarrow> DB \<Rightarrow> Bar list" where
  "history k s = filter (same_bar k) (db_bars s)"

definition history_ok :: "Bar list \<Rightarrow> bool" where
  "history_ok h \<longleftrightarrow> map bar_Revision h = [1..int (length h)]
     \<and> (\<forall>i < length h. bar_IsCurrent (h ! i) \<longleftrightarrow> Suc i = length h)"

definition bars_ok :: "DB \<Rightarrow> bool" where
  "bars_ok s \<longleftrightarrow> (\<forall>k. history_ok (history k s))"

lemma same_bar_sym: "same_bar a b \<longleftrightarrow> same_bar b a"
  by (auto simp: same_bar_def)

lemma same_bar_trans: "same_bar a b \<Longrightarrow> same_bar c a \<longleftrightarrow> same_bar c b"
  by (auto simp: same_bar_def)

lemma same_bar_refl [simp]: "same_bar a a"
  by (simp add: same_bar_def)

lemma history_cong: "same_bar a b \<Longrightarrow> history a s = history b s"
proof -
  assume "same_bar a b"
  then have "same_bar a = same_bar b" by (auto simp: same_bar_def fun_eq_iff)
  then show ?thesis by (simp add: history_def)
qed

lemma history_current:
  assumes "history_ok h" "c \<in> set h" "bar_IsCurrent c" shows "c = last h" "bar_Revision c = int (length h)"
proof -
  from assms obtain i where i: "i < length h" "c = h ! i" "Suc i = length h"
    by (auto simp: history_ok_def in_set_conv_nth)
  then have "h \<noteq> []" "length h - 1 = i" by auto
  then show "c = last h" using i(2) by (simp add: last_conv_nth)
  have "bar_Revision c = map bar_Revision h ! i" using i by simp
  also have "\<dots> = [1..int (length h)] ! i" using assms(1) by (simp add: history_ok_def)
  also have "\<dots> = 1 + int i" using i by (intro nth_upto) simp
  finally show "bar_Revision c = int (length h)" using i(3) by simp
qed

lemma history_last:
  assumes "history_ok h" "h \<noteq> []" shows "bar_IsCurrent (last h)"
  using assms by (auto simp: history_ok_def last_conv_nth)

lemma history_ok_append:
  assumes "history_ok h" "bar_Revision b = int (length h) + 1" "bar_IsCurrent b"
    and close: "h' = map (\<lambda>c. c\<lparr>bar_IsCurrent := False\<rparr>) h"
  shows "history_ok (h' @ [b])"
proof -
  have "map bar_Revision h' = map bar_Revision h" "length h' = length h" using close by (simp_all add: comp_def)
  moreover have "[1..int (length h) + 1] = [1..int (length h)] @ [int (length h) + 1]"
    using upto_rec2 [of 1 "int (length h) + 1"] by simp
  ultimately have "map bar_Revision (h' @ [b]) = [1..int (length (h' @ [b]))]"
    using assms(1,2) by (simp add: history_ok_def add.commute)
  moreover have "bar_IsCurrent ((h' @ [b]) ! i) \<longleftrightarrow> Suc i = length (h' @ [b])" if "i < length (h' @ [b])" for i
    using that assms(3) close by (auto simp: nth_append less_Suc_eq)
  ultimately show ?thesis by (simp add: history_ok_def)
qed

subsection \<open>Writing a bar\<close>

lemma scanMarketBar_Inr:
  "scanMarketBar c = Inr c' \<Longrightarrow> bar_RawHash c' = bar_RawHash c \<and> bar_Revision c' = bar_Revision c"
  by (auto simp: scanMarketBar_def bind_result_Inr_iff NewStoredBar_def NewBar_def checked_Inr_iff Let_def split: if_splits)

lemma scanned_iff [simp]: "scanned r = Inr v \<longleftrightarrow> r = Inr v" "scanned r \<noteq> Inl NoRows"
  by (cases r; simp add: scanned_def)+

lemma same_bar_arguments [simp]:
  "same_bar c (marketBarArguments (bar\<lparr>bar_Revision := n, bar_IsCurrent := b\<rparr>)) = same_bar c (marketBarArguments bar)"
  by (simp add: same_bar_def marketBarArguments_def)

lemma current_bar_Inr:
  assumes "bars_ok s" "current_bar_query bar s = Inr c"
  shows "history (marketBarArguments bar) s \<noteq> []
    \<and> bar_RawHash c = bar_RawHash (last (history (marketBarArguments bar) s))
    \<and> bar_Revision c = int (length (history (marketBarArguments bar) s))"
proof -
  let ?h = "history (marketBarArguments bar) s"
  from assms(2) obtain r where row: "first_row (filter (\<lambda>c. same_bar c (marketBarArguments bar) \<and> bar_IsCurrent c) (db_bars s)) = Inr r"
    and scan: "scanMarketBar r = Inr c"
    by (auto simp: current_bar_query_def split: sum.splits)
  from first_row_Inr [OF row] have r: "r \<in> set ?h" "bar_IsCurrent r"
    using same_bar_sym by (auto simp: history_def)
  then show ?thesis using history_current [of ?h r] assms(1) scanMarketBar_Inr [OF scan] by (auto simp: bars_ok_def)
qed

lemma current_bar_NoRows:
  assumes "bars_ok s" "current_bar_query bar s = Inl NoRows" shows "history (marketBarArguments bar) s = []"
proof (rule ccontr)
  let ?h = "history (marketBarArguments bar) s"
  assume "?h \<noteq> []"
  then have "last ?h \<in> set ?h" "bar_IsCurrent (last ?h)" using assms(1) history_last by (auto simp: bars_ok_def)
  then have "\<exists>c \<in> set (db_bars s). same_bar c (marketBarArguments bar) \<and> bar_IsCurrent c"
    using same_bar_sym by (fastforce simp: history_def)
  moreover have "filter (\<lambda>c. same_bar c (marketBarArguments bar) \<and> bar_IsCurrent c) (db_bars s) = []"
    using assms(2) by (cases "filter (\<lambda>c. same_bar c (marketBarArguments bar) \<and> bar_IsCurrent c) (db_bars s)")
      (auto simp: current_bar_query_def first_row_def)
  ultimately show False by (auto simp: filter_empty_conv)
qed

text \<open>The table after a write that applied.\<close>

definition revised :: "Bar \<Rightarrow> DB \<Rightarrow> Bar list" where
  "revised bar s = (let k = marketBarArguments bar in
     map (\<lambda>c. if same_bar c k \<and> bar_IsCurrent c then c\<lparr>bar_IsCurrent := False\<rparr> else c) (db_bars s)
       @ [k\<lparr>bar_Revision := int (length (history k s)) + 1, bar_IsCurrent := True\<rparr>])"

definition unchanged_hash :: "Bar \<Rightarrow> DB \<Rightarrow> bool" where
  "unchanged_hash bar s \<longleftrightarrow> (let h = history (marketBarArguments bar) s in
     bar_RawHash bar \<noteq> [] \<and> h \<noteq> [] \<and> bar_RawHash (last h) = bar_RawHash bar)"

lemma insert_bar_Inr:
  "insert_bar b s = (Inr v, s') \<Longrightarrow> s' = s\<lparr>db_bars := db_bars s @ [marketBarArguments b]\<rparr>"
  by (auto simp: insert_bar_def Let_def split: option.splits)

lemma write_revision_Inr:
  assumes "bars_ok s" "write_revision f n strict bar s = (Inr r, s')"
  shows "if unchanged_hash bar s
    then s' = s \<and> r = \<lparr>mbw_Applied = False, mbw_Revision = int (length (history (marketBarArguments bar) s))\<rparr>
    else s' = s\<lparr>db_bars := revised bar s\<rparr>
      \<and> r = \<lparr>mbw_Applied = True, mbw_Revision = int (length (history (marketBarArguments bar) s)) + 1\<rparr>"
proof -
  let ?k = "marketBarArguments bar"
  let ?h = "history ?k s"
  from assms(2) obtain current s0 where cur: "loadCurrentMarketBar f n bar s = (Inr current, s0)"
    and rest0: "(case current of
       None \<Rightarrow>
         tx_bind (call f (n + 2) MapError (insert_bar (bar\<lparr>bar_Revision := 1, bar_IsCurrent := True\<rparr>))) (\<lambda>_.
           tx_return \<lparr>mbw_Applied = True, mbw_Revision = 1\<rparr>)
     | Some c \<Rightarrow>
         if bar_RawHash bar \<noteq> [] \<and> bar_RawHash c = bar_RawHash bar
         then tx_return \<lparr>mbw_Applied = False, mbw_Revision = bar_Revision c\<rparr>
         else
           tx_bind (call f (n + 1) MapError (close_bar_statement bar (bar_Revision c))) (\<lambda>affected.
           tx_bind (tx_check (guard (strict \<and> affected \<noteq> 1) ErrConflict)) (\<lambda>_.
           tx_bind (call f (n + 2) MapError
               (insert_bar (bar\<lparr>bar_Revision := bar_Revision c + 1, bar_IsCurrent := True\<rparr>))) (\<lambda>_.
             tx_return \<lparr>mbw_Applied = True, mbw_Revision = bar_Revision c + 1\<rparr>)))) s0 = (Inr r, s')"
    unfolding write_revision_def by (elim tx_bind_E)
  have s0: "s0 = s" using call_optional_Inr cur unfolding loadCurrentMarketBar_def by blast
  note rest = rest0 [unfolded s0]
  show ?thesis
  proof (cases current)
    case None
    have q: "current_bar_query bar s = Inl NoRows"
      using cur None s0 unfolding loadCurrentMarketBar_def by (auto elim!: tx_elims)
    then have h: "?h = []" using current_bar_NoRows assms(1) by blast
    then have none: "\<not> (same_bar c ?k \<and> bar_IsCurrent c)" if "c \<in> set (db_bars s)" for c
      using that same_bar_sym by (auto simp: history_def filter_empty_conv)
    from rest None have "s' = s\<lparr>db_bars := db_bars s @ [?k\<lparr>bar_Revision := 1, bar_IsCurrent := True\<rparr>]\<rparr>"
      "r = \<lparr>mbw_Applied = True, mbw_Revision = 1\<rparr>"
      by (auto elim!: tx_elims dest!: insert_bar_Inr simp: marketBarArguments_def)
    moreover have "map (\<lambda>c. if same_bar c ?k \<and> bar_IsCurrent c then c\<lparr>bar_IsCurrent := False\<rparr> else c) (db_bars s) = db_bars s"
      using none by (auto intro: map_idI)
    ultimately show ?thesis using h by (simp add: unchanged_hash_def revised_def Let_def)
  next
    case (Some c)
    have "current_bar_query bar s = Inr c"
      using cur Some s0 unfolding loadCurrentMarketBar_def by (auto elim!: tx_elims)
    note c = current_bar_Inr [OF assms(1) this]
    show ?thesis
    proof (cases "bar_RawHash bar \<noteq> [] \<and> bar_RawHash c = bar_RawHash bar")
      case True
      then have "unchanged_hash bar s" using c by (simp add: unchanged_hash_def)
      with True rest Some c show ?thesis by (auto elim!: tx_elims)
    next
      case False
      then have "\<not> unchanged_hash bar s" using c by (auto simp: unchanged_hash_def Let_def)
      let ?P = "\<lambda>d. same_bar d ?k \<and> bar_Revision d = bar_Revision c \<and> bar_IsCurrent d"
      from rest Some False obtain s1 m where s1: "close_bar_statement bar (bar_Revision c) s = (Inr m, s1)"
        and s': "insert_bar (bar\<lparr>bar_Revision := bar_Revision c + 1, bar_IsCurrent := True\<rparr>) s1 = (Inr (), s')"
        and r: "r = \<lparr>mbw_Applied = True, mbw_Revision = bar_Revision c + 1\<rparr>"
        by (auto elim!: tx_elims)
      from s1 have "s1 = s\<lparr>db_bars := update_where ?P (\<lambda>d. d\<lparr>bar_IsCurrent := False\<rparr>) (db_bars s)\<rparr>"
        by (auto simp: close_bar_statement_def Let_def split: option.splits)
      moreover have "?P d \<longleftrightarrow> same_bar d ?k \<and> bar_IsCurrent d" if "d \<in> set (db_bars s)" for d
      proof -
        have "bar_Revision d = int (length ?h)" if "same_bar d ?k" "bar_IsCurrent d"
          using history_current(2) [of ?h d] assms(1) that same_bar_sym \<open>d \<in> set (db_bars s)\<close>
          by (auto simp: bars_ok_def history_def)
        then show ?thesis using c by auto
      qed
      ultimately have "s1 = s\<lparr>db_bars := map (\<lambda>d. if same_bar d ?k \<and> bar_IsCurrent d then d\<lparr>bar_IsCurrent := False\<rparr> else d) (db_bars s)\<rparr>"
        by (simp add: update_where_def cong: map_cong)
      with s' c have "s' = s\<lparr>db_bars := revised bar s\<rparr>"
        by (auto dest!: insert_bar_Inr simp: revised_def Let_def marketBarArguments_def)
      with r c \<open>\<not> unchanged_hash bar s\<close> show ?thesis by simp
    qed
  qed
qed
subsection \<open>The abstract history of contents\<close>

lemma same_bar_current [simp]: "same_bar k (c\<lparr>bar_IsCurrent := b\<rparr>) = same_bar k c"
  "same_bar k (c\<lparr>bar_Revision := n\<rparr>) = same_bar k c"
  by (simp_all add: same_bar_def)

lemma filter_map_close:
  "filter (same_bar k) (map (\<lambda>c. if same_bar c m \<and> bar_IsCurrent c then c\<lparr>bar_IsCurrent := False\<rparr> else c) bs)
     = map (\<lambda>c. if same_bar c m \<and> bar_IsCurrent c then c\<lparr>bar_IsCurrent := False\<rparr> else c) (filter (same_bar k) bs)"
  by (induction bs) auto

lemma history_revised:
  assumes "db_bars s' = revised bar s"
  shows "history k s' = (if same_bar k (marketBarArguments bar)
     then map (\<lambda>c. c\<lparr>bar_IsCurrent := False\<rparr>) (history k s)
       @ [(marketBarArguments bar)\<lparr>bar_Revision := int (length (history k s)) + 1, bar_IsCurrent := True\<rparr>]
     else history k s)"
proof (cases "same_bar k (marketBarArguments bar)")
  case True
  let ?m = "marketBarArguments bar"
  have h: "history ?m s = history k s" using history_cong True same_bar_sym by blast
  have "(if same_bar c ?m \<and> bar_IsCurrent c then c\<lparr>bar_IsCurrent := False\<rparr> else c) = c\<lparr>bar_IsCurrent := False\<rparr>"
    if "c \<in> set (history k s)" for c
    using that True by (cases "bar_IsCurrent c") (auto simp: history_def same_bar_def)
  then show ?thesis using True h assms
    by (simp add: revised_def Let_def history_def filter_map_close cong: map_cong)
next
  case False
  have "(if same_bar c (marketBarArguments bar) \<and> bar_IsCurrent c then c\<lparr>bar_IsCurrent := False\<rparr> else c) = c"
    if "c \<in> set (filter (same_bar k) (db_bars s))" for c
    using that False by (auto simp: same_bar_def)
  then have "map (\<lambda>c. if same_bar c (marketBarArguments bar) \<and> bar_IsCurrent c then c\<lparr>bar_IsCurrent := False\<rparr> else c)
      (filter (same_bar k) (db_bars s)) = filter (same_bar k) (db_bars s)" by (intro map_idI)
  then show ?thesis using False assms by (simp add: revised_def Let_def history_def filter_map_close)
qed

lemma bars_ok_revised:
  assumes "bars_ok s" "db_bars s' = revised bar s" shows "bars_ok s'"
  using assms(1) history_revised [OF assms(2)] history_ok_append by (auto simp: bars_ok_def)

lemma write_revision_bars_ok:
  assumes "bars_ok s" "write_revision f n strict bar s = (Inr r, s')" shows "bars_ok s'"
  using write_revision_Inr [OF assms] assms(1) bars_ok_revised [OF assms(1)] by (auto split: if_splits)

text \<open>The content of a revision, and the contents a bar has had.\<close>

definition bar_content :: "Bar \<Rightarrow> Bar" where
  "bar_content b = b\<lparr>bar_Revision := 0, bar_IsCurrent := False\<rparr>"

definition bar_contents :: "DB \<Rightarrow> Bar \<Rightarrow> Bar list" where
  "bar_contents s k = map bar_content (history k s)"

definition record_content :: "Bar \<Rightarrow> Bar list \<Rightarrow> Bar list" where
  "record_content b contents =
     (if contents \<noteq> [] \<and> bar_RawHash b \<noteq> [] \<and> bar_RawHash (last contents) = bar_RawHash b then contents
      else contents @ [bar_content b])"

lemma bar_content_close [simp]: "bar_content (c\<lparr>bar_IsCurrent := b\<rparr>) = bar_content c"
  "bar_content (c\<lparr>bar_Revision := n\<rparr>) = bar_content c"
  by (simp_all add: bar_content_def)

lemma write_revision_contents:
  assumes "bars_ok s" "write_revision f n strict bar s = (Inr r, s')"
  shows "bar_contents s' = (\<lambda>k. if same_bar k (marketBarArguments bar)
      then record_content (marketBarArguments bar) (bar_contents s k) else bar_contents s k)"
    and "mbw_Revision r = int (length (bar_contents s' (marketBarArguments bar)))"
    and "mbw_Applied r \<longleftrightarrow> \<not> unchanged_hash bar s"
proof -
  let ?m = "marketBarArguments bar"
  have hash: "unchanged_hash bar s \<longleftrightarrow> bar_contents s k \<noteq> [] \<and> bar_RawHash ?m \<noteq> []
      \<and> bar_RawHash (last (bar_contents s k)) = bar_RawHash ?m" if "same_bar k ?m" for k
    using history_cong [of k ?m] that
    by (auto simp: unchanged_hash_def Let_def bar_contents_def last_map bar_content_def marketBarArguments_def)
  note eff = write_revision_Inr [OF assms]
  show "bar_contents s' = (\<lambda>k. if same_bar k ?m then record_content ?m (bar_contents s k) else bar_contents s k)"
  proof
    fix k
    show "bar_contents s' k = (if same_bar k ?m then record_content ?m (bar_contents s k) else bar_contents s k)"
    proof (cases "unchanged_hash bar s")
      case True
      with eff hash [of k] show ?thesis by (auto simp: record_content_def)
    next
      case False
      with eff have "db_bars s' = revised bar s" by simp
      from history_revised [OF this, of k] have "bar_contents s' k = (if same_bar k ?m
          then bar_contents s k @ [bar_content ?m] else bar_contents s k)"
        by (simp add: bar_contents_def comp_def)
      with False hash [of k] show ?thesis by (auto simp: record_content_def)
    qed
  qed
  then show "mbw_Revision r = int (length (bar_contents s' ?m))"
    using eff hash [of ?m] by (auto simp: record_content_def bar_contents_def split: if_splits)
  show "mbw_Applied r \<longleftrightarrow> \<not> unchanged_hash bar s" using eff by (auto split: if_splits)
qed

text \<open>
  C5. Writing a bar refines the abstract history of its contents: a confirmed write adds the content
  (rounded and truncated as the columns store it) to the history of its key unless the last content has
  the same hash, touches no other history, and reports the number of contents as the revision.
\<close>
theorem WriteMarketBar_refines_history:
  assumes "bars_ok s" and "NewBar bar = Inr b" and "WriteMarketBar f bar s = (Inr r, s')"
  shows "bar_contents s' = (\<lambda>k. if same_bar k (marketBarArguments b)
      then record_content (marketBarArguments b) (bar_contents s k) else bar_contents s k)
    \<and> mbw_Revision r = int (length (bar_contents s' (marketBarArguments b)))"
proof -
  have "NewBar b = Inr b" using assms(2) by (auto simp: NewBar_def Let_def checked_Inr_iff)
  then have tr: "transaction_if f mbw_Applied (write_revision f 1 False b) s = (Inr r, s')"
    using assms(2,3) by (simp add: WriteMarketBar_def validateMarketBar_def)
  from transaction_if_Inr [OF tr] obtain s'' where body: "write_revision f 1 False b s = (Inr r, s'')"
    and s': "mbw_Applied r \<and> s'' = s' \<or> \<not> mbw_Applied r \<and> s' = s"
    by (cases "write_revision f 1 False b s") auto
  have "s'' = s'"
    using s' write_revision_Inr [OF assms(1) body] write_revision_contents(3) [OF assms(1) body] by auto
  with write_revision_contents(1,2) [OF assms(1) body] show ?thesis by simp
qed
definition sample_written :: "MarketBarWriteResult result \<times> DB" where
  "sample_written = WriteMarketBar no_faults sample_stored_bar sample_db"

lemma sample_db_bars_ok: "bars_ok sample_db"
  by (simp add: bars_ok_def history_def history_ok_def sample_db_def)

lemma sample_written_result: "fst sample_written = Inr \<lparr>mbw_Applied = True, mbw_Revision = 1\<rparr>"
  "NewBar sample_stored_bar = Inr sample_stored_bar"
  by code_simp+

lemma sample_written_eq:
  "WriteMarketBar no_faults sample_stored_bar sample_db = (Inr \<lparr>mbw_Applied = True, mbw_Revision = 1\<rparr>, snd sample_written)"
  using sample_written_result by (simp add: sample_written_def prod_eq_iff)

theorem WriteMarketBar_refines_history_witness:
  "bar_contents (snd sample_written) (marketBarArguments sample_stored_bar) = [bar_content (marketBarArguments sample_stored_bar)]"
proof -
  have "bar_contents sample_db k = []" for k by (simp add: bar_contents_def history_def sample_db_def)
  then show ?thesis
    using WriteMarketBar_refines_history [OF sample_db_bars_ok sample_written_result(2) sample_written_eq]
    by (simp add: record_content_def)
qed

subsection \<open>Every writer of bars\<close>

named_theorems keeps_bars \<open>statements that leave the bars alone\<close>

lemma upsert_checkpoint_bars [keeps_bars]: "upsert_checkpoint i m s = (Inr v, s') \<Longrightarrow> db_bars s' = db_bars s"
  by (auto simp: upsert_checkpoint_def Let_def split: option.splits)

lemma open_issue_bars [keeps_bars]: "openQualityIssue (in_transaction f n) q s = (Inr v, s') \<Longrightarrow> db_bars s' = db_bars s"
  by (auto simp: openQualityIssue_def opened_def in_transaction_def open_issue_statement_def Let_def
      split: option.splits prod.splits sum.splits driver_error.splits if_splits)

lemma open_issues_bars [keeps_bars]: "open_issues f n qs s = (Inr v, s') \<Longrightarrow> db_bars s' = db_bars s"
  by (induction f n qs arbitrary: s rule: open_issues.induct) (auto elim!: tx_elims dest!: open_issue_bars)

lemma finish_task_bars [keeps_bars]: "finish_task f n claim fin row s = (Inr v, s') \<Longrightarrow> db_bars s' = db_bars s"
  by (drule finish_task_Inr) auto

definition record_bar :: "Bar \<Rightarrow> (Bar \<Rightarrow> Bar list) \<Rightarrow> Bar \<Rightarrow> Bar list" where
  "record_bar b contents = (\<lambda>k. if same_bar k (marketBarArguments b)
     then record_content (marketBarArguments b) (contents k) else contents k)"

lemma NewBar_arguments: "NewBar bar = Inr b \<Longrightarrow> marketBarArguments b = marketBarArguments bar"
  by (auto simp: NewBar_def Let_def checked_Inr_iff marketBarArguments_def jsonValue_def normalizedJSON_def)

lemma write_bars_contents:
  assumes "bars_ok s" "write_bars f n bs s = (Inr v, s')"
  shows "bars_ok s' \<and> bar_contents s' = fold record_bar bs (bar_contents s)"
  using assms
proof (induction f n bs arbitrary: s rule: write_bars.induct)
  case (2 f n b bs)
  from "2.prems"(2) obtain r s1 where w: "writeMarketBarInTransaction f n b s = (Inr r, s1)"
    and rest: "write_bars f (n + 3) bs s1 = (Inr v, s')" by (auto elim!: tx_bind_E)
  from w obtain b' where b': "NewBar b = Inr b'" "write_revision f n True b' s = (Inr r, s1)"
    by (auto simp: writeMarketBarInTransaction_def split: sum.splits)
  have "bars_ok s1" by (rule write_revision_bars_ok [OF "2.prems"(1) b'(2)])
  moreover have "bar_contents s1 = record_bar b (bar_contents s)"
    unfolding record_bar_def NewBar_arguments [OF b'(1), symmetric]
    by (rule write_revision_contents(1) [OF "2.prems"(1) b'(2)])
  ultimately show ?case using "2.IH" [OF _ rest] by simp
qed (auto elim!: tx_elims)

lemma success_body_bars:
  assumes "bars_ok s" "success_body f c s = (Inr v, s')"
  shows "bars_ok s' \<and> bar_contents s' = fold record_bar (sc_Bars c) (bar_contents s)"
proof -
  from assms(2) obtain s1 where w: "write_bars f 2 (sc_Bars c) s = (Inr (), s1)" and s': "db_bars s' = db_bars s1"
    unfolding success_body_def lockAndValidateTaskClaim_def upsertSuccessfulCheckpoint_def Let_def
    by (auto elim!: tx_elims dest!: keeps_bars)
  have "history k s' = history k s1" for k using s' by (simp add: history_def)
  then have "bar_contents s' = bar_contents s1" "bars_ok s' = bars_ok s1"
    by (simp_all add: bar_contents_def bars_ok_def fun_eq_iff)
  with write_bars_contents [OF assms(1) w] show ?thesis by simp
qed

text \<open>
  C6. The revisions of every bar stay numbered from 1 without gaps with exactly the last one current,
  through single writes and success commits with any faults; and a success commit that was confirmed
  has recorded its bars, one after the other, in the abstract histories.
\<close>
theorem bar_revisions_contiguous:
  assumes "bars_ok s"
  shows "bars_ok (snd (WriteMarketBar f bar s)) \<and> bars_ok (snd (db_CommitSuccess g c s))
    \<and> (fst (db_CommitSuccess g c s) = Inr () \<longrightarrow>
        bar_contents (snd (db_CommitSuccess g c s)) = fold record_bar (sc_Bars c) (bar_contents s))"
proof (intro conjI impI)
  obtain r s' where w: "WriteMarketBar f bar s = (r, s')" by (meson surj_pair)
  show "bars_ok (snd (WriteMarketBar f bar s))"
  proof (cases "s' = s")
    case False
    with w obtain b where "transaction_if f mbw_Applied (write_revision f 1 False b) s = (r, s')"
      by (auto simp: WriteMarketBar_def split: sum.splits)
    with False obtain v where "write_revision f 1 False b s = (Inr v, s')" using transaction_if_atomic by blast
    with w show ?thesis using write_revision_bars_ok [OF assms] by auto
  qed (use w assms in simp)
next
  obtain r s' where c: "db_CommitSuccess g c s = (r, s')" by (meson surj_pair)
  show "bars_ok (snd (db_CommitSuccess g c s))"
  proof (cases "s' = s")
    case False
    with c have "transaction g (success_body g c) s = (r, s')" by (auto simp: db_CommitSuccess_def split: option.splits)
    with False obtain v where "success_body g c s = (Inr v, s')" using transaction_atomic by blast
    with c show ?thesis using success_body_bars [OF assms] by auto
  qed (use c assms in simp)
  assume "fst (db_CommitSuccess g c s) = Inr ()"
  with c have "transaction g (success_body g c) s = (Inr (), s')" by (auto simp: db_CommitSuccess_def split: option.splits)
  from success_body_bars [OF assms transaction_Inr [OF this]] c
  show "bar_contents (snd (db_CommitSuccess g c s)) = fold record_bar (sc_Bars c) (bar_contents s)" by simp
qed

theorem bar_revisions_contiguous_witness:
  "bars_ok (snd (WriteMarketBar no_faults sample_stored_bar sample_db))
     \<and> map bar_Revision (db_bars (snd (WriteMarketBar no_faults sample_stored_bar sample_db))) = [1]"
proof -
  have "map bar_Revision (db_bars (snd sample_written)) = [1]" by code_simp
  then show ?thesis using bar_revisions_contiguous [OF sample_db_bars_ok] by (simp add: sample_written_def)
qed

end
