(* ===== verification/Composition.thy ===== *)
theory Composition
  imports TaskLifecycle
begin

text \<open>
  The use cases over the PostgreSQL repositories. Each use case is written over an interface
  (a record of operations); here the interfaces' laws are proved of the repositories' model, with any
  other clients and any failures in between, and the use cases' promises follow: a scheduler scan ends,
  a refreshed run agrees with its tasks, and an executed task is settled.
\<close>

subsection \<open>Paging of the scheduling targets\<close>

lemma target_ids_after: "i \<in> set (target_ids (Some a) n t s) \<Longrightarrow> a < i"
  by (auto simp: target_ids_def opt_all_def dest!: in_set_takeD)

lemma ListSchedulingTargets_next:
  assumes "db_ListSchedulingTargets pf f fs (Some a) limit t s = Inr page" "stp_NextAfterID page = Some i"
  shows "a < i"
proof -
  let ?ids = "target_ids (Some a) (limit + 1) t s"
  from assms have more: "int (length ?ids) > limit" and "1 \<le> limit" and i: "i = ?ids ! nat (limit - 1)"
    by (auto simp: db_ListSchedulingTargets_def Let_def bind_result_Inr_iff split: if_splits option.splits)
  then have "nat (limit - 1) < length ?ids" by linarith
  then show ?thesis using i target_ids_after nth_mem by blast
qed

lemma on_db_Pair: "on_db ses op c = (r, c') \<longleftrightarrow>
    op (cl_calls c) (ses_others ses (cl_calls c) (cl_db c)) = (r, cl_db c') \<and> cl_calls c' = Suc (cl_calls c)"
  by (auto simp: on_db_def split: prod.splits)

interpretation postgres_paging: paging "postgres_scheduling pf ses" for pf ses
  by unfold_locales (auto simp: postgres_scheduling_def on_db_Pair pure_read_def dest: ListSchedulingTargets_next)


subsection \<open>Run aggregation\<close>

text \<open>The status of a run with these tasks.\<close>

definition run_status_of :: "IngestionTask list \<Rightarrow> string" where
  "run_status_of ts =
     (if list_all (\<lambda>t. task_Status t = st_pending) ts then st_pending
      else if list_ex (\<lambda>t. task_Status t \<in> {st_pending, st_running, st_retry_wait}) ts then st_running
      else if list_all (\<lambda>t. task_Status t = st_success) ts then st_success
      else if list_all (\<lambda>t. task_Status t = st_failed) ts then st_failed
      else if list_all (\<lambda>t. task_Status t = st_canceled) ts then st_canceled
      else st_partial)"

definition aggregated :: "IngestionRun \<Rightarrow> IngestionTask list \<Rightarrow> bool" where
  "aggregated run ts \<longleftrightarrow> ts \<noteq> [] \<and> run_Status run = run_status_of ts \<and> run_TaskCount run = int (length ts)
     \<and> run_SuccessCount run = status_count st_success ts \<and> run_FailedCount run = status_count st_failed ts"

lemma status_count_bounds: "0 \<le> status_count st ts \<and> status_count st ts \<le> int (length ts)"
  by (simp add: status_count_def)

lemma status_count_all: "status_count st ts = int (length ts) \<longleftrightarrow> list_all (\<lambda>t. task_Status t = st) ts"
  using length_filter_less [of _ ts "\<lambda>t. task_Status t = st"]
  by (auto simp: status_count_def list_all_iff) blast

lemma status_count_pos: "0 < status_count st ts \<longleftrightarrow> list_ex (\<lambda>t. task_Status t = st) ts"
  by (auto simp: status_count_def list_ex_iff filter_empty_conv)

lemma SummarizeRun_run_status:
  assumes "SummarizeRun snapshot = Inr r" "summary_matches r ts"
  shows "sum_Status r = run_status_of ts"
proof -
  let ?c = "\<lambda>st. status_count st ts"
  have unfinished: "list_ex (\<lambda>t. task_Status t \<in> {st_pending, st_running, st_retry_wait}) ts
      \<longleftrightarrow> 0 < ?c st_pending + ?c st_running + ?c st_retry_wait"
  proof -
    have "0 < ?c st_pending + ?c st_running + ?c st_retry_wait
        \<longleftrightarrow> 0 < ?c st_pending \<or> 0 < ?c st_running \<or> 0 < ?c st_retry_wait"
      using status_count_bounds [of st_pending ts] status_count_bounds [of st_running ts]
        status_count_bounds [of st_retry_wait ts] by linarith
    then show ?thesis unfolding status_count_pos by (auto simp: list_ex_iff)
  qed
  have "sum_Status r =
      (if sum_PendingCount r = sum_TaskCount r then st_pending
       else if 0 < sum_PendingCount r + sum_RunningCount r + sum_RetryWaitCount r then st_running
       else if sum_SuccessCount r = sum_TaskCount r then st_success
       else if sum_FailedCount r = sum_TaskCount r then st_failed
       else if sum_CanceledCount r = sum_TaskCount r then st_canceled else st_partial)"
    using assms(1) unfolding SummarizeRun_def Let_def checked_Inr_iff by (elim conjE, clarify) (simp split del: if_split cong: if_cong)
  then show ?thesis
    using assms(2) unfolding run_status_of_def unfinished status_count_all [symmetric] summary_matches_def
    by (elim conjE, simp split del: if_split cong: if_cong)
qed

text \<open>
  What the run service relies on: a summary the store accepted agrees with the tasks of its run as they
  are then, and is in the row of the run.
\<close>

locale run_store =
  fixes store :: "'s Store"
    and tasks_in :: "'s \<Rightarrow> ID \<Rightarrow> IngestionTask list"
    and runs_in :: "'s \<Rightarrow> IngestionRun list"
  assumes saved_matches: "SaveRunSummary store r s = (None, s') \<Longrightarrow> summary_matches r (tasks_in s' (sum_RunID r))"
    and saved_row: "SaveRunSummary store r s = (None, s') \<Longrightarrow>
      \<exists>run \<in> set (runs_in s'). run_ID run = sum_RunID r \<and> run_Status run = sum_Status r
        \<and> run_TaskCount run = sum_TaskCount r \<and> run_SuccessCount run = sum_SuccessCount r
        \<and> run_FailedCount run = sum_FailedCount r"
begin

lemma refresh_loop_aggregates:
  assumes "refresh_loop store i n s = (Inr r, s')"
  shows "sum_RunID r = i \<and> (\<exists>run \<in> set (runs_in s'). run_ID run = i \<and> aggregated run (tasks_in s' i))"
proof -
  from refresh_loop_saved [OF assms] obtain snapshot s1 where snap: "rs_RunID snapshot = i"
    "SummarizeRun snapshot = Inr r" and save: "SaveRunSummary store r s1 = (None, s')" by blast
  have id: "sum_RunID r = i" using SummarizeRun_RunID [OF snap(2)] snap(1) by simp
  have m: "summary_matches r (tasks_in s' i)" using saved_matches [OF save] id by simp
  then have "sum_Status r = run_status_of (tasks_in s' i)" by (rule SummarizeRun_run_status [OF snap(2)])
  with saved_row [OF save] id m show ?thesis by (fastforce simp: aggregated_def summary_matches_def)
qed

lemma Refresh_aggregates:
  "Refresh store i s = (Inr r, s') \<Longrightarrow> \<exists>run \<in> set (runs_in s'). run_ID run = i \<and> aggregated run (tasks_in s' i)"
  by (auto simp: Refresh_def dest: refresh_loop_aggregates split: if_splits)

end

lemma SaveRunSummary_None:
  assumes "db_SaveRunSummary f r s = (None, s')"
  shows "summary_matches r (tasks_of_run s' (sum_RunID r))
    \<and> (\<exists>run \<in> set (db_runs s'). run_ID run = sum_RunID r \<and> run_Status run = sum_Status r
        \<and> run_TaskCount run = sum_TaskCount r \<and> run_SuccessCount run = sum_SuccessCount r
        \<and> run_FailedCount run = sum_FailedCount r)"
proof -
  let ?P = "\<lambda>run. run_ID run = sum_RunID r \<and> summary_matches r (tasks_of_run s (run_ID run))"
  from assms obtain n where a: "autocommit f (summary_statement r) s = (Inr n, s')" "n = 1"
    by (auto simp: db_SaveRunSummary_def split: option.splits prod.splits sum.splits)
  from autocommit_Inr [OF a(1)] have "summary_statement r s = (Inr n, s')" by simp
  then have n: "rows_where ?P (db_runs s) = 1" and s': "s' = s\<lparr>db_runs := update_where ?P (summary_row r) (db_runs s)\<rparr>"
    using a(2) by (auto simp: summary_statement_def Let_def split: option.splits)
  obtain run where run: "run \<in> set (db_runs s)" "?P run" using rows_where_pos [OF n] by blast
  then have "summary_row r run \<in> set (db_runs s')" by (auto simp: s' update_where_set)
  moreover have "tasks_of_run s' i = tasks_of_run s i" for i by (simp add: s' tasks_of_run_def)
  ultimately show ?thesis using run(2) by (auto simp: summary_row_def intro!: bexI [of _ "summary_row r run"])
qed

interpretation postgres_runs: run_store "postgres_store pf ses" "tasks_of_run \<circ> cl_db" "db_runs \<circ> cl_db" for pf ses
  by unfold_locales (auto simp: postgres_store_def on_db_Pair dest: SaveRunSummary_None)

text \<open>
  C24. A refresh that returned has left the row of the run in agreement with the tasks of that run in the
  same database state: its status is the one the tasks' statuses determine and its counts are theirs,
  although other clients may have moved tasks between the reading of the snapshot and the saving.
\<close>
theorem Refresh_agrees_with_tasks:
  assumes "Refresh (postgres_store pf ses) runID c = (Inr summary, c')"
  shows "\<exists>run \<in> set (db_runs (cl_db c')). run_ID run = runID \<and> aggregated run (tasks_of_run (cl_db c') runID)"
  using postgres_runs.Refresh_aggregates [OF assms] by simp
subsection \<open>The commits a service prepares\<close>

definition stored_text :: "int \<Rightarrow> string \<Rightarrow> bool" where
  "stored_text n v \<longleftrightarrow> v \<noteq> [] \<and> TrimSpace v = v \<and> RuneCountInString v \<le> n"

definition plain_failures :: "failureClassification list" where
  "plain_failures =
     [classified ''database_unavailable'' ''database temporarily unavailable'' True,
      classified ''temporary_failure'' ''service temporarily unavailable'' True,
      classified ''adapter_not_registered'' ''provider adapter is not registered'' False,
      classified ''provider_limit_exceeded'' ''provider pagination limit was exceeded'' False,
      classified ''configuration_not_found'' ''ingestion configuration was not found'' False,
      classified ''configuration_invalid'' ''ingestion configuration or data contract is invalid'' False,
      classified ''internal_error'' ''ingestion task failed'' False]"

lemma classifyFailure_stored:
  "stored_text 64 (fcl_code (classifyFailure err)) \<and> stored_text 512 (fcl_message (classifyFailure err))
    \<and> isJSONObject (fcl_details (classifyFailure err))"
proof (cases "AsProviderError err")
  case None
  then have "classifyFailure err \<in> set plain_failures"
    unfolding classifyFailure_def plain_failures_def
    by (simp only: option.case list.set insert_iff refl simp_thms split: if_split)
  moreover have "list_all (\<lambda>k. stored_text 64 (fcl_code k) \<and> stored_text 512 (fcl_message k)
      \<and> isJSONObject (fcl_details k)) plain_failures" by code_simp
  ultimately show ?thesis by (auto simp: list_all_iff)
next
  case (Some p)
  have "list_all (stored_text 64) provider_error_codes" by code_simp
  moreover have v: "ProviderError_Validate p = None" using Some by (rule AsProviderError_valid)
  then have "pe_Code p \<in> set provider_error_codes" by (auto simp: ProviderError_Validate_def ParseProviderErrorCode_def split: if_splits)
  moreover have "stored_text 512 (pe_Message p)" using v by (simp add: ProviderError_Validate_def stored_text_def)
  ultimately show ?thesis using Some by (auto simp: classifyFailure_def list_all_iff)
qed

lemma validateExecutableClaim_claim_check:
  assumes "validateExecutableClaim claim now = None" "\<not> IsZero now"
  shows "claim_check (claim_Task claim) now = None" "0 < task_MaxAttempts (claim_Task claim)"
  using assms by (auto simp: validateExecutableClaim_def claim_check_def Let_def split: option.splits)

lemma failureCommit_next:
  assumes "NewService cfg = Inr cfg'"
  shows "(fc_Status (failureCommit cfg' claim err now) = st_retry_wait
      \<and> (\<exists>t. fc_NextAttemptAt (failureCommit cfg' claim err now) = Some t \<and> now < t))
    \<or> (fc_Status (failureCommit cfg' claim err now) = st_failed \<and> fc_NextAttemptAt (failureCommit cfg' claim err now) = None)"
  using retryBackoff_bounded_monotone [OF assms order_refl, of "task_AttemptCount (claim_Task claim)"]
    NewService_valid(3) [OF assms] classifyFailure_retryAfter [of err]
  by (auto simp: failureCommit_def Let_def split: option.splits)

text \<open>
  The failure a service hands to the repository passes the repository's own checks, whatever the error.
\<close>

lemma failureCommit_valid:
  assumes "NewService cfg0 = Inr cfg" "validateExecutableClaim claim now = None" "\<not> IsZero now"
  shows "validateFailureCommit (failureCommit cfg claim err now) = None"
proof -
  let ?c = "failureCommit cfg claim err now"
  have f: "fc_Claim ?c = claim" "fc_FinishedAt ?c = now" by (rule failureCommit_claim)+
  have fields: "fc_ErrorCode ?c = fcl_code (classifyFailure err)" "fc_ErrorMessage ?c = fcl_message (classifyFailure err)"
    "fc_ErrorDetails ?c = fcl_details (classifyFailure err)"
    by (simp_all add: failureCommit_def Let_def)
  have st: "(fc_Status ?c = st_retry_wait \<and> (\<exists>t. fc_NextAttemptAt ?c = Some t \<and> now < t))
      \<or> (fc_Status ?c = st_failed \<and> fc_NextAttemptAt ?c = None)"
    using failureCommit_next [OF assms(1), of claim err now] by auto
  show ?thesis
    using validateExecutableClaim_claim_check [OF assms(2,3)] classifyFailure_stored [of err] st
    unfolding validateFailureCommit_def f fields stored_text_def by (auto simp: opt_all_def)
qed
subsection \<open>Settling a task\<close>

text \<open>A session no other client and no failure interferes with.\<close>

definition quiet :: "session \<Rightarrow> bool" where
  "quiet ses \<longleftrightarrow> (\<forall>n s. ses_others ses n s = s) \<and> (\<forall>n. ses_faults ses n = no_faults)"

lemma transaction_without_faults:
  "transaction no_faults body s = (case body s of (Inl e, _) \<Rightarrow> (Inl e, s) | (Inr v, s') \<Rightarrow> (Inr v, s'))"
  by (simp add: transaction_def transaction_if_def no_faults_def split: prod.splits sum.splits)

lemma no_faults_at [simp]: "fault_at no_faults n = None" by (simp add: no_faults_def)

text \<open>The checkpoint of a subscription can count one more failure.\<close>

definition checkpoint_room :: "DB \<Rightarrow> ID \<Rightarrow> bool" where
  "checkpoint_room s i \<longleftrightarrow> i \<in> set (map sub_ID (db_subs s))
     \<and> opt_all (\<lambda>c. cp_SubscriptionID c = i \<and> 0 \<le> cp_ConsecutiveFailures c \<and> cp_ConsecutiveFailures c < 2 ^ 31 - 1)
         (db_checkpoints s i)"

lemma checkpoint_room_upsert:
  assumes "checkpoint_room s i"
  shows "upsert_checkpoint i (merge_failures i t 1) s
    = (Inr (), s\<lparr>db_checkpoints := (db_checkpoints s)(i \<mapsto> merge_failures i t 1 (db_checkpoints s i))\<rparr>)"
proof -
  have "checkpoint_checks s (merge_failures i t 1 (db_checkpoints s i)) = None"
    using assms by (auto simp: checkpoint_room_def checkpoint_checks_def merge_failures_def violates_def int4_ok_def
        opt_all_def split: option.splits)
  then show ?thesis by (simp add: upsert_checkpoint_def Let_def)
qed

text \<open>A stored row whose own claim is held: it is running, with a lease of whole microseconds.\<close>

definition claim_held :: "DB \<Rightarrow> IngestionTask \<Rightarrow> bool" where
  "claim_held s t \<longleftrightarrow> distinct (map task_ID (db_tasks s)) \<and> t \<in> set (db_tasks s) \<and> task_Status t = st_running
     \<and> task_LockedBy t \<noteq> None \<and> opt_all (\<lambda>u. timestamptz u = u) (task_LockedUntil t)"

lemma claim_held_rows:
  assumes "claim_held s t" "opt_all (\<lambda>u. u > now) (task_LockedUntil t)"
  shows "still_claimed t now t" "rows_where (still_claimed t now) (db_tasks s) = 1"
proof -
  show c: "still_claimed t now t"
    using assms timestamptz_le [of now]
    by (auto simp: claim_held_def still_claimed_def opt_all_def optional_timestamptz_def split: option.splits)
  show "rows_where (still_claimed t now) (db_tasks s) = 1"
    using assms(1) c by (intro rows_where_key [where r = t and key = task_ID and i = "task_ID t"])
      (auto simp: claim_held_def still_claimed_def)
qed

lemma CommitFailure_settles:
  assumes "validateFailureCommit c = None" "claim_held s (claim_Task (fc_Claim c))"
    "checkpoint_room s (task_SubscriptionID (claim_Task (fc_Claim c)))"
  obtains s' where "db_CommitFailure no_faults c s = (Inr (), s')"
    "failure_row c (claim_Task (fc_Claim c)) \<in> set (db_tasks s')"
proof -
  let ?t = "claim_Task (fc_Claim c)" and ?now = "fc_FinishedAt c"
  from assms(1) have chk: "claim_check ?t ?now = None" by (simp add: validateFailureCommit_def)
  then obtain u where u: "task_LockedUntil ?t = Some u" "u > ?now" by (auto simp: claim_check_def split: option.splits)
  then have later: "opt_all (\<lambda>u. u > ?now) (task_LockedUntil ?t)" by (simp add: opt_all_def)
  note rows = claim_held_rows [OF assms(2) later]
  have sel: "select_by task_ID (task_ID ?t) (db_tasks s) = Inr ?t"
    using assms(2) by (intro select_by_unique) (auto simp: claim_held_def)
  have m: "lease_matches ?t ?t ?now"
    using assms(2) u by (simp add: claim_held_def lease_matches_def TimeToDatabase_def)
  let ?s1 = "s\<lparr>db_checkpoints := (db_checkpoints s)(task_SubscriptionID ?t \<mapsto>
      merge_failures (task_SubscriptionID ?t) ?now 1 (db_checkpoints s (task_SubscriptionID ?t)))\<rparr>"
  let ?s2 = "?s1\<lparr>db_tasks := update_where (still_claimed ?t ?now) (failure_row c) (db_tasks s)\<rparr>"
  have "failure_body no_faults c s = (Inr (), ?s2)"
    using rows(2) by (simp add: failure_body_def lockAndValidateFailureClaim_def tx_bind_def call_optional_def sel tx_check_def m
        upsertFailedCheckpoint_def call_def checkpoint_room_upsert [OF assms(3)] finish_task_def finish_statement_def)
  then have "db_CommitFailure no_faults c s = (Inr (), ?s2)"
    by (simp add: db_CommitFailure_def assms(1) transaction_without_faults)
  moreover have "failure_row c ?t \<in> set (db_tasks ?s2)"
    using rows(1) assms(2) by (auto simp: update_where_set claim_held_def)
  ultimately show thesis by (rule that)
qed

lemma quiet_on_db:
  assumes "quiet ses" "on_db ses op c = (r, c')"
  shows "op (cl_calls c) (cl_db c) = (r, cl_db c')"
  using assms by (simp add: on_db_Pair quiet_def)

lemma quiet_Refresh_tasks:
  assumes "quiet ses" "Refresh (postgres_store pf ses) i c = (r, c')"
  shows "db_tasks (cl_db c') = db_tasks (cl_db c)"
proof -
  have load: "LoadRunTaskSnapshot (postgres_store pf ses) j d = (q, d') \<Longrightarrow> db_tasks (cl_db d') = db_tasks (cl_db d)" for j d q d'
    by (auto simp: postgres_store_def db_LoadRunTaskSnapshot_def call_def reading_def
        dest!: quiet_on_db [OF assms(1)] split: if_splits option.splits prod.splits sum.splits)
  have save: "SaveRunSummary (postgres_store pf ses) m d = (q, d') \<Longrightarrow> db_tasks (cl_db d') = db_tasks (cl_db d)" for m d q d'
    by (auto simp: postgres_store_def dest!: quiet_on_db [OF assms(1)] dest: SaveRunSummary_tasks)
  have "refresh_loop (postgres_store pf ses) i n c = (r, c') \<Longrightarrow> db_tasks (cl_db c') = db_tasks (cl_db c)" for n
  proof (induction n arbitrary: c)
    case (Suc n)
    then show ?case
      by (auto split: prod.splits sum.splits option.splits if_splits dest!: load save)
  qed simp
  with assms(2) show ?thesis by (auto simp: Refresh_def split: if_splits)
qed

lemma executeClaim_error_keeps:
  assumes "quiet ses" "executeClaim pf cfg reg quality env (postgres_store pf ses) claim c = (Some e, c')"
  shows "cl_db c' = cl_db c"
  using assms(2)
  by (auto simp: executeClaim_def postgres_store_def pure_read_def as_error_def db_CommitSuccess_def transaction_without_faults
      dest!: quiet_on_db [OF assms(1)] simp: assms(1) [unfolded quiet_def] split: prod.splits sum.splits option.splits)

lemma as_error_None: "as_error r = (None, s) \<longleftrightarrow> r = (Inr (), s)"
  by (cases r) (auto simp: as_error_def err_of_def split: sum.splits)

lemma executeClaim_success:
  assumes "quiet ses" "executeClaim pf cfg reg quality env (postgres_store pf ses) claim c = (None, c')"
  shows "\<exists>t' \<in> set (db_tasks (cl_db c')). task_ID t' = task_ID (claim_Task claim) \<and> task_Status t' = st_success"
proof -
  from assms(2) obtain execution c1 commit where load: "LoadExecutionContext (postgres_store pf ses) (task_SubscriptionID (claim_Task claim)) c = (Inr execution, c1)"
    and prep: "prepare_commit pf cfg reg quality env claim execution = Inr commit"
    and com: "CommitSuccess (postgres_store pf ses) commit c1 = (None, c')"
    by (auto simp: executeClaim_def split: prod.splits sum.splits)
  from com have "db_CommitSuccess (ses_faults ses (cl_calls c1)) commit (cl_db c1) = (Inr (), cl_db c')"
    by (auto simp: postgres_store_def as_error_None dest!: quiet_on_db [OF assms(1)])
  from CommitSuccess_fenced [OF this] obtain t where t: "t \<in> set (db_tasks (cl_db c1))"
    "still_claimed (claim_Task (sc_Claim commit)) (sc_FinishedAt commit) t"
    "db_tasks (cl_db c') = update_where (still_claimed (claim_Task (sc_Claim commit)) (sc_FinishedAt commit))
       (success_row (sc_FinishedAt commit)) (db_tasks (cl_db c1))"
    unfolding fenced_def by auto
  have "sc_Claim commit = claim" using prep by (auto simp: prepare_commit_def Let_def bind_result_Inr_iff checked_Inr_iff split: if_splits)
  with t show ?thesis
    by (intro bexI [of _ "success_row (sc_FinishedAt commit) t"])
      (auto simp: update_where_set success_row_def still_claimed_def)
qed


subsection \<open>The success a service hands over\<close>

lemma NewBar_of_valid: "Bar_Validate b = None \<Longrightarrow> \<exists>b'. NewBar b = Inr b'"
  by (auto simp: NewBar_def Let_def checked_def Bar_Validate_def Bar_Source_def normalizedJSON_def split: option.splits)

lemma quality_bars_success:
  assumes "quality_bars_loop r interval start stop seen previous bs = None"
    and "\<forall>(i, m, v, t) \<in> keys. t \<in> seen"
  shows "success_bars_loop keys bs = None"
  using assms
proof (induction bs arbitrary: seen previous keys)
  case (Cons b bs)
  let ?key = "(bar_InstrumentID b, bar_ProviderInstrumentID b, bar_Interval b, bar_OpenTime b)"
  from Cons.prems(1) [unfolded quality_bars_loop_Cons quality_bar_ok_def] have "Bar_Validate b = None" "bar_OpenTime b \<notin> seen"
    and rest: "quality_bars_loop r interval start stop (insert (bar_OpenTime b) seen) (Some (bar_OpenTime b)) bs = None"
    by blast+
  then obtain b' where "NewBar b = Inr b'" "?key \<notin> keys" using NewBar_of_valid Cons.prems(2) by fastforce
  moreover have "success_bars_loop (insert ?key keys) bs = None"
    using Cons.prems(2) by (intro Cons.IH [OF rest]) auto
  ultimately show ?case by simp
qed simp

lemma quality_issue_success:
  assumes "quality_issue_check r interval start stop q = None" "\<not> ID_IsZero (ref_InstrumentID r)"
  shows "success_issue_check q = None"
  using assms by (auto simp: quality_issue_check_def success_issue_check_def validIssueSeverity_def)

lemma first_error_map_None: "first_error (map f xs) = None \<longleftrightarrow> (\<forall>x \<in> set xs. f x = None)"
  by (induction xs) (auto split: option.splits)

lemma prepare_commit_valid:
  assumes "prepare_commit pf cfg reg quality env claim execution = Inr commit" "\<not> IsZero (env_now env 1)"
  shows "validateSuccessCommit commit = None"
proof -
  from assms(1) obtain r interval start stop q where
    sub: "sub_ID (ec_Subscription execution) = task_SubscriptionID (claim_Task claim)"
    and r: "ExecutionContext_Reference pf execution = Inr r"
    and q: "validateQualityResult q r interval start stop = None"
    and claim: "validateExecutableClaim claim (env_now env 1) = None"
    and c: "commit = \<lparr>sc_Claim = claim, sc_Bars = qr_Bars q, sc_Issues = qr_Issues q,
               sc_Checkpoint = successfulCheckpoint (sub_ID (ec_Subscription execution)) (qr_Bars q) (env_now env 1),
               sc_FinishedAt = env_now env 1\<rparr>"
    by (auto simp: prepare_commit_def Let_def bind_result_Inr_iff checked_Inr_iff split: if_splits)
  from q have bars: "quality_bars_loop r interval start stop {} None (qr_Bars q) = None"
    and issues: "\<forall>i \<in> set (qr_Issues q). quality_issue_check r interval start stop i = None"
    by (auto simp: validateQualityResult_def first_error_map_None)
  have "\<not> ID_IsZero (ref_InstrumentID r)"
    using r by (auto simp: ExecutionContext_Reference_def Let_def checked_Inr_iff bind_result_Inr_iff
      ProviderInstrumentRef_Validate_def split: if_splits)
  then show ?thesis
    using bars issues sub quality_issue_success validateExecutableClaim_claim_check(1) [OF claim assms(2)] assms(2)
      quality_bars_success [OF bars, of "{}"]
    by (auto simp: validateSuccessCommit_def c successfulCheckpoint_def first_error_map_None)
qed

text \<open>
  What the service hands to the repository passes the repository's own validation: every success it
  prepares from a complete, checked fetch, and the failure it builds from any error whatsoever. The
  second line of checks never turns an execution's outcome into a validation error.
\<close>
lemma prepared_commits_pass_validation:
  assumes "NewService cfg0 = Inr cfg"
    and "\<not> IsZero (env_now env 1)" and "\<not> IsZero now" and "validateExecutableClaim claim now = None"
  shows "(\<forall>commit. prepare_commit pf cfg reg quality env claim execution = Inr commit \<longrightarrow> validateSuccessCommit commit = None)
    \<and> validateFailureCommit (failureCommit cfg claim err now) = None"
  using prepare_commit_valid [OF _ assms(2)] failureCommit_valid [OF assms(1,4,3)] by blast

subsection \<open>Samples\<close>

definition sample_session :: session where
  "sample_session = \<lparr>ses_others = (\<lambda>n s. s), ses_locked = (\<lambda>n. {}), ses_faults = (\<lambda>n. no_faults), ses_nested = (\<lambda>n k. no_faults)\<rparr>"

definition sample_scheduler :: "client IncrementalScheduler" where
  "sample_scheduler = \<lparr>sch_store = postgres_scheduling sample_platform sample_session,
     sch_newID = (\<lambda>n. Inr (word_of_nat (n + 100))), sch_usCalendar = nyse_port,
     sch_pageSize = 50, sch_maximumAttempts = 5, sch_maximumCatchUpBars = 500, sch_maximumCatchUpRuns = 20\<rparr>"


text \<open>A worker executes the claimed task; the provider is unreachable.\<close>

definition sample_client :: client where
  "sample_client = \<lparr>cl_db = snd sample_claimed, cl_calls = 0\<rparr>"

definition failing_env :: env where
  "failing_env = sample_env\<lparr>env_now := (\<lambda>i. 1003 * Hour + Minute), env_fetch := (\<lambda>i r. Inl ErrRetryable)\<rparr>"

lemma sample_session_quiet: "quiet sample_session"
  by (simp add: quiet_def sample_session_def)
lemma sample_execution_fails:
  "fst (executeClaim sample_platform sample_service sample_registry (ValidateBars sample_platform (\<lambda>i. None)) failing_env
     (postgres_store sample_platform sample_session) \<lparr>claim_Task = sample_running\<rparr> sample_client) = Some ErrRetryable"
  by code_simp


text \<open>A refresh after the task was cancelled.\<close>

definition canceled_client :: client where
  "canceled_client = \<lparr>cl_db = sample_canceled, cl_calls = 0\<rparr>"

definition sample_summary :: RunSummary where
  "sample_summary = \<lparr>sum_RunID = 9, sum_Status = st_canceled, sum_TaskCount = 1, sum_PendingCount = 0, sum_RunningCount = 0,
     sum_RetryWaitCount = 0, sum_SuccessCount = 0, sum_FailedCount = 0, sum_CanceledCount = 1,
     sum_EarliestStartedAt = None, sum_LatestFinishedAt = Some (1003 * Hour)\<rparr>"

theorem Refresh_agrees_with_tasks_witness:
  "\<exists>run \<in> set (db_runs (cl_db (snd (Refresh (postgres_store sample_platform sample_session) 9 canceled_client)))).
     run_ID run = 9 \<and> aggregated run (tasks_of_run (cl_db (snd (Refresh (postgres_store sample_platform sample_session) 9 canceled_client))) 9)"
proof -
  let ?r = "Refresh (postgres_store sample_platform sample_session) 9 canceled_client"
  have "fst ?r = Inr sample_summary" by code_simp
  then have "?r = (Inr sample_summary, snd ?r)" by (simp add: prod_eq_iff)
  from Refresh_agrees_with_tasks [OF this] show ?thesis .
qed

lemma prepared_commits_pass_validation_witness:
  "validateFailureCommit (failureCommit sample_service sample_claim ErrInvalidState (1002 * Hour)) = None"
proof -
  have "\<not> IsZero (env_now sample_env 1)" "\<not> IsZero (1002 * Hour)" "validateExecutableClaim sample_claim (1002 * Hour) = None"
    by code_simp+
  from prepared_commits_pass_validation [OF sample_service_installed this] show ?thesis by blast
qed

end
