(* ===== verification/Worker.thy ===== *)
theory Worker
  imports TaskLifecycle
begin

text \<open>
  The worker process and the service host: ingestion/worker/worker.go, servicehost/group.go and
  servicehost/scheduler.go. A worker runs \<open>Concurrency\<close> claim loops (slots) that share the run context.
  Each loop is a state machine whose transitions are the code between two points where it waits for
  something outside (the clock, the claim, the execution, the wait); the slots interleave freely with one
  another, with the cancellation and with other clients of the queue.
\<close>

subsection \<open>Configuration and claims\<close>

record WorkerConfig =
  wc_WorkerID :: string
  wc_Concurrency :: int
  wc_LeaseDuration :: duration
  wc_PollInterval :: duration
  wc_ClaimErrorBackoff :: duration

definition maximumWorkerIDLength :: int where "maximumWorkerIDLength = 128"

definition validateConfig :: "WorkerConfig \<Rightarrow> error option" where
  "validateConfig config = first_error
     [guard (TrimSpace (wc_WorkerID config) \<noteq> wc_WorkerID config \<or> wc_WorkerID config = []
         \<or> int (length (wc_WorkerID config)) > maximumWorkerIDLength)
        (ErrPlain ''invalid worker ID: must be 1-128 non-whitespace-padded bytes''),
      guard (wc_Concurrency config \<le> 0) (ErrPlain ''worker concurrency must be positive''),
      guard (wc_LeaseDuration config \<le> 0 \<or> wc_PollInterval config \<le> 0 \<or> wc_ClaimErrorBackoff config \<le> 0)
        (ErrPlain ''worker lease, poll interval, and claim error backoff must be positive'')]"

definition validateClaim :: "TaskClaim \<Rightarrow> string \<Rightarrow> time \<Rightarrow> error option" where
  "validateClaim claim workerID claimedAt = (let task = claim_Task claim in
     guard (ID_IsZero (task_ID task) \<or> task_Status task \<noteq> st_running \<or> task_AttemptCount task \<le> 0
         \<or> task_MaxAttempts task \<le> 0 \<or> task_LockedBy task \<noteq> Some workerID
         \<or> (case task_LockedUntil task of None \<Rightarrow> True | Some t \<Rightarrow> \<not> t > claimedAt))
       ErrInvalidData)"

subsection \<open>The claim loop\<close>

text \<open>
  Where a slot is: at the top of the loop, in \<^verbatim>\<open>ClaimNextTask\<close>, with its answer, executing, with the
  execution's outcome, in \<^verbatim>\<open>Wait\<close>, with its answer, about to cancel its siblings, and returned.
\<close>

datatype slot =
    Top
  | Claiming time
  | Answered time "TaskClaim option result"
  | Executing TaskClaim
  | Executed TaskClaim "error option"
  | Waiting duration
  | Waited "error option"
  | Failing error
  | Returned "error option"

text \<open>The code after each answer, with the context's state when it is read, and the error it reports.\<close>

definition after_claim :: "WorkerConfig \<Rightarrow> bool \<Rightarrow> time \<Rightarrow> TaskClaim option result \<Rightarrow> slot \<times> error option" where
  "after_claim config canceled claimedAt answer =
     (case answer of
        Inl e \<Rightarrow> if canceled then (Returned None, None) else (Waiting (wc_ClaimErrorBackoff config), Some e)
      | Inr None \<Rightarrow> (Waiting (wc_PollInterval config), None)
      | Inr (Some claim) \<Rightarrow>
          (case validateClaim claim (wc_WorkerID config) claimedAt of
             Some e \<Rightarrow> (Waiting (wc_ClaimErrorBackoff config), Some e)
           | None \<Rightarrow> if canceled then (Returned None, None) else (Executing claim, None)))"

definition after_execution :: "bool \<Rightarrow> error option \<Rightarrow> slot \<times> error option" where
  "after_execution canceled outcome =
     (case outcome of
        None \<Rightarrow> (Top, None)
      | Some e \<Rightarrow> if canceled then (Returned None, None) else (Top, Some e))"

definition after_wait :: "bool \<Rightarrow> error option \<Rightarrow> slot" where
  "after_wait canceled answer =
     (case answer of None \<Rightarrow> Top | Some e \<Rightarrow> if canceled then Top else Failing e)"

record 's worker =
  wk_slots :: "slot list"
  wk_canceled :: bool
  wk_reports :: "error list"
  wk_results :: "error option list"
  wk_queue :: 's
  wk_executions :: "TaskClaim list"

text \<open>
  \<^verbatim>\<open>Run\<close>: refused while the worker runs; otherwise all slots start at the top of their loops. Its result
  is the first error among the slots' results, in the order they arrive. \<open>wk_executions\<close> records the
  claims handed to the executor.
\<close>

definition worker_start :: "WorkerConfig \<Rightarrow> bool \<Rightarrow> 's \<Rightarrow> 's worker result" where
  "worker_start config running queue =
     (if running then Inl (ErrPlain ''worker is already running'')
      else Inr \<lparr>wk_slots = replicate (nat (wc_Concurrency config)) Top, wk_canceled = False, wk_reports = [],
        wk_results = [], wk_queue = queue, wk_executions = []\<rparr>)"

definition worker_finished :: "'s worker \<Rightarrow> bool" where
  "worker_finished w \<longleftrightarrow> length (wk_results w) = length (wk_slots w)"

definition worker_result :: "'s worker \<Rightarrow> error option" where
  "worker_result w = first_error (wk_results w)"

definition set_slot :: "nat \<Rightarrow> slot \<Rightarrow> 's worker \<Rightarrow> 's worker" where
  "set_slot i x w = w\<lparr>wk_slots := (wk_slots w)[i := x],
     wk_results := wk_results w @ (case x of Returned r \<Rightarrow> [r] | _ \<Rightarrow> []),
     wk_executions := (case x of Executing c \<Rightarrow> [c] | _ \<Rightarrow> []) @ wk_executions w\<rparr>"

definition reporting :: "error option \<Rightarrow> 's worker \<Rightarrow> 's worker" where
  "reporting e w = w\<lparr>wk_reports := wk_reports w @ (case e of None \<Rightarrow> [] | Some x \<Rightarrow> [x])\<rparr>"

text \<open>
  The steps of slot \<open>i\<close>. \<open>claim x\<close> is \<^verbatim>\<open>ClaimNextTask\<close> under the circumstances \<open>x\<close> (its failures, the
  rows others hold); the execution and the wait answer anything.
\<close>

inductive slot_step ::
  "('x \<Rightarrow> string \<Rightarrow> time \<Rightarrow> duration \<Rightarrow> 's \<Rightarrow> TaskClaim option result \<times> 's) \<Rightarrow> WorkerConfig \<Rightarrow> nat \<Rightarrow> 's worker \<Rightarrow> 's worker \<Rightarrow> bool"
  for claim config i where
  stop: "\<lbrakk>wk_slots w ! i = Top; wk_canceled w\<rbrakk> \<Longrightarrow> slot_step claim config i w (set_slot i (Returned None) w)"
| begin_claim: "\<lbrakk>wk_slots w ! i = Top; \<not> wk_canceled w\<rbrakk> \<Longrightarrow> slot_step claim config i w (set_slot i (Claiming now) w)"
| claim_task: "\<lbrakk>wk_slots w ! i = Claiming now;
    claim x (wc_WorkerID config) now (wc_LeaseDuration config) (wk_queue w) = (r, q)\<rbrakk> \<Longrightarrow>
    slot_step claim config i w (set_slot i (Answered now r) (w\<lparr>wk_queue := q\<rparr>))"
| answered: "\<lbrakk>wk_slots w ! i = Answered now r; after_claim config (wk_canceled w) now r = (x, e)\<rbrakk> \<Longrightarrow>
    slot_step claim config i w (reporting e (set_slot i x w))"
| execute: "wk_slots w ! i = Executing c \<Longrightarrow> slot_step claim config i w (set_slot i (Executed c outcome) w)"
| executed: "\<lbrakk>wk_slots w ! i = Executed c outcome; after_execution (wk_canceled w) outcome = (x, e)\<rbrakk> \<Longrightarrow>
    slot_step claim config i w (reporting e (set_slot i x w))"
| wait: "wk_slots w ! i = Waiting d \<Longrightarrow> slot_step claim config i w (set_slot i (Waited answer) w)"
| waited: "wk_slots w ! i = Waited answer \<Longrightarrow> slot_step claim config i w (set_slot i (after_wait (wk_canceled w) answer) w)"
| fail: "wk_slots w ! i = Failing e \<Longrightarrow>
    slot_step claim config i w ((set_slot i (Returned (Some e)) w)\<lparr>wk_canceled := True\<rparr>)"

inductive_cases slot_stepE: "slot_step claim config i w w'"

text \<open>A step of a slot, the cancellation of the context, or a change of the queue by others (\<open>others\<close>).\<close>

inductive worker_step ::
  "('x \<Rightarrow> string \<Rightarrow> time \<Rightarrow> duration \<Rightarrow> 's \<Rightarrow> TaskClaim option result \<times> 's) \<Rightarrow> ('s \<Rightarrow> 's \<Rightarrow> bool) \<Rightarrow> WorkerConfig
     \<Rightarrow> 's worker \<Rightarrow> 's worker \<Rightarrow> bool"
  for claim others config where
  slot: "\<lbrakk>i < length (wk_slots w); slot_step claim config i w w'\<rbrakk> \<Longrightarrow> worker_step claim others config w w'"
| cancel: "\<not> wk_canceled w \<Longrightarrow> worker_step claim others config w (w\<lparr>wk_canceled := True\<rparr>)"
| others: "others (wk_queue w) q \<Longrightarrow> worker_step claim others config w (w\<lparr>wk_queue := q\<rparr>)"

inductive worker_run ::
  "('x \<Rightarrow> string \<Rightarrow> time \<Rightarrow> duration \<Rightarrow> 's \<Rightarrow> TaskClaim option result \<times> 's) \<Rightarrow> ('s \<Rightarrow> 's \<Rightarrow> bool) \<Rightarrow> WorkerConfig
     \<Rightarrow> 's \<Rightarrow> 's worker \<Rightarrow> bool"
  for claim others config queue where
  started: "worker_start config False queue = Inr w \<Longrightarrow> worker_run claim others config queue w"
| moved: "\<lbrakk>worker_run claim others config queue w; worker_step claim others config w w'\<rbrakk> \<Longrightarrow>
    worker_run claim others config queue w'"

subsection \<open>No attempt is executed twice\<close>

definition claim_key :: "TaskClaim \<Rightarrow> ID \<times> int" where
  "claim_key c = (task_ID (claim_Task c), task_AttemptCount (claim_Task c))"

text \<open>The claim a slot has been handed and not yet passed on.\<close>

definition pending_claim :: "slot \<Rightarrow> TaskClaim option" where
  "pending_claim x = (case x of Answered now (Inr (Some c)) \<Rightarrow> Some c | _ \<Rightarrow> None)"

definition executing :: "slot \<Rightarrow> TaskClaim option" where
  "executing x = (case x of Executing c \<Rightarrow> Some c | _ \<Rightarrow> None)"

lemma set_slot_simps [simp]:
  "wk_queue (set_slot i x w) = wk_queue w" "wk_slots (set_slot i x w) = (wk_slots w)[i := x]"
  "wk_canceled (set_slot i x w) = wk_canceled w"
  "wk_executions (set_slot i x w) = (case executing x of Some c \<Rightarrow> c # wk_executions w | None \<Rightarrow> wk_executions w)"
  by (simp_all add: set_slot_def executing_def split: slot.splits)

lemma reporting_simps [simp]:
  "wk_queue (reporting e w) = wk_queue w" "wk_slots (reporting e w) = wk_slots w"
  "wk_canceled (reporting e w) = wk_canceled w" "wk_executions (reporting e w) = wk_executions w"
  by (simp_all add: reporting_def)

definition pending :: "'s worker \<Rightarrow> nat \<Rightarrow> TaskClaim option" where
  "pending w i = (if i < length (wk_slots w) then pending_claim (wk_slots w ! i) else None)"

lemma pending_set_slot:
  "i < length (wk_slots w) \<Longrightarrow> pending (set_slot i x w) = (pending w)(i := pending_claim x)"
  by (auto simp: pending_def fun_eq_iff nth_list_update)

lemma pending_simps [simp]:
  "pending (w\<lparr>wk_queue := q\<rparr>) = pending w" "pending (w\<lparr>wk_canceled := b\<rparr>) = pending w" "pending (reporting e w) = pending w"
  by (simp_all add: pending_def fun_eq_iff)

text \<open>
  What the worker relies on: a claim is new (its attempt was not handed out before), and what was handed
  out stays so, whatever the other clients do.
\<close>

locale claim_queue =
  fixes claim :: "'x \<Rightarrow> string \<Rightarrow> time \<Rightarrow> duration \<Rightarrow> 's \<Rightarrow> TaskClaim option result \<times> 's"
    and others :: "'s \<Rightarrow> 's \<Rightarrow> bool"
    and queue_ok :: "'s \<Rightarrow> bool"
    and handed_out :: "'s \<Rightarrow> (ID \<times> int) set"
  assumes claim_new: "queue_ok q \<Longrightarrow> claim x worker now d q = (Inr (Some c), q') \<Longrightarrow>
      claim_key c \<notin> handed_out q \<and> claim_key c \<in> handed_out q'"
    and claim_keeps: "queue_ok q \<Longrightarrow> claim x worker now d q = (r, q') \<Longrightarrow> queue_ok q' \<and> handed_out q \<subseteq> handed_out q'"
    and others_keep: "queue_ok q \<Longrightarrow> others q q' \<Longrightarrow> queue_ok q' \<and> handed_out q \<subseteq> handed_out q'"
begin

definition exclusive :: "'s worker \<Rightarrow> bool" where
  "exclusive w \<longleftrightarrow> queue_ok (wk_queue w)
     \<and> distinct (map claim_key (wk_executions w)) \<and> claim_key ` set (wk_executions w) \<subseteq> handed_out (wk_queue w)
     \<and> (\<forall>i c. pending w i = Some c \<longrightarrow> claim_key c \<in> handed_out (wk_queue w) - claim_key ` set (wk_executions w))
     \<and> (\<forall>i j c d. pending w i = Some c \<longrightarrow> pending w j = Some d \<longrightarrow> i \<noteq> j \<longrightarrow> claim_key c \<noteq> claim_key d)"

lemma exclusive_quiet:
  assumes "exclusive w" "i < length (wk_slots w)" "pending_claim x = None" "executing x = None" shows "exclusive (set_slot i x w)"
  using assms by (simp add: exclusive_def pending_set_slot)

lemma exclusive_queue:
  assumes "exclusive w" "queue_ok q" "handed_out (wk_queue w) \<subseteq> handed_out q" shows "exclusive (w\<lparr>wk_queue := q\<rparr>)"
  using assms unfolding exclusive_def by auto

lemma exclusive_simps [simp]: "exclusive (reporting e w) = exclusive w" "exclusive (w\<lparr>wk_canceled := b\<rparr>) = exclusive w"
  by (simp_all add: exclusive_def)

lemma exclusive_ok: "exclusive w \<Longrightarrow> queue_ok (wk_queue w)"
  by (simp only: exclusive_def)

lemma exclusive_claimed:
  assumes w: "exclusive w" "i < length (wk_slots w)" and c: "claim x worker now d (wk_queue w) = (r, q)"
  shows "exclusive (set_slot i (Answered now r) (w\<lparr>wk_queue := q\<rparr>))"
proof (cases "pending_claim (Answered now r)")
  case None
  moreover have "exclusive (w\<lparr>wk_queue := q\<rparr>)"
    using w claim_keeps [OF _ c] by (intro exclusive_queue) (auto simp: exclusive_def)
  ultimately show ?thesis using w(2) by (intro exclusive_quiet) (auto simp: executing_def)
next
  case (Some k)
  then have r: "r = Inr (Some k)" by (auto simp: pending_claim_def split: sum.splits option.splits)
  have ok: "queue_ok (wk_queue w)" using w by (simp add: exclusive_def)
  have new: "claim_key k \<notin> handed_out (wk_queue w)" "claim_key k \<in> handed_out q"
    using claim_new [OF ok] c r by auto
  have keep: "queue_ok q" "handed_out (wk_queue w) \<subseteq> handed_out q" using claim_keeps [OF ok c] by auto
  have free: "claim_key d \<noteq> claim_key k" if "pending w j = Some d" for j d
  proof -
    have "claim_key d \<in> handed_out (wk_queue w)" using w(1) that by (auto simp: exclusive_def)
    then show ?thesis using new(1) by metis
  qed
  have x: "pending (set_slot i (Answered now r) (w\<lparr>wk_queue := q\<rparr>)) = (pending w)(i := Some k)"
    using w(2) Some by (simp add: pending_set_slot)
  show ?thesis
    using w(1) new keep free unfolding exclusive_def x by (auto simp: executing_def)
qed

lemma exclusive_executed:
  assumes w: "exclusive w" "i < length (wk_slots w)" and c: "pending w i = Some c"
  shows "exclusive (set_slot i (Executing c) w)"
proof -
  have x: "pending (set_slot i (Executing c) w) = (pending w)(i := None)"
    using w(2) by (simp add: pending_set_slot pending_claim_def)
  have "claim_key c \<noteq> claim_key d" if "pending w j = Some d" "j \<noteq> i" for j d
    using w(1) c that by (auto simp: exclusive_def)
  then show ?thesis using w(1) c unfolding exclusive_def x by (auto simp: executing_def)
qed

lemma slot_step_exclusive:
  assumes "slot_step claim config i w w'" "i < length (wk_slots w)" "exclusive w" shows "exclusive w'"
  using assms
proof (induction rule: slot_step.induct)
  case (claim_task w now x r q)
  then show ?case by (intro exclusive_claimed)
next
  case (answered w now r x e)
  show ?case
  proof (cases "executing x")
    case (Some c)
    then have "x = Executing c" "pending w i = Some c"
      using answered.hyps answered.prems by (auto simp: pending_def after_claim_def executing_def pending_claim_def split: sum.splits option.splits if_splits)
    then show ?thesis using exclusive_executed answered.prems by simp
  next
    case None
    then show ?thesis using answered exclusive_quiet
      by (auto simp: after_claim_def pending_claim_def split: sum.splits option.splits if_splits)
  qed
next
  case (executed w c outcome x e)
  then show ?case using exclusive_quiet
    by (auto simp: after_execution_def pending_claim_def executing_def split: option.splits if_splits)
next
  case (fail w e)
  then have "exclusive (set_slot i (Returned (Some e)) w)" by (intro exclusive_quiet) (auto simp: pending_claim_def executing_def)
  then show ?case by simp
qed (auto intro!: exclusive_quiet simp: pending_claim_def executing_def after_wait_def split: option.splits)

lemma worker_run_exclusive:
  assumes "worker_run claim others config queue w" "queue_ok queue" shows "exclusive w"
  using assms(1)
proof (induction rule: worker_run.induct)
  case (started w)
  then show ?case using assms(2) by (auto simp: worker_start_def exclusive_def pending_def pending_claim_def)
next
  case (moved w w')
  from moved.hyps(2) moved.IH show ?case
  proof (induction rule: worker_step.induct)
    case (slot i w w')
    from slot_step_exclusive [OF slot.hyps(2,1) slot.prems] show ?case .
  next
    case (cancel w)
    then show ?case by simp
  next
    case (others w q)
    from others_keep [OF exclusive_ok [OF others.prems] others.hyps] show ?case
      by (intro exclusive_queue [OF others.prems]) simp_all
  qed
qed

end

text \<open>The PostgreSQL queue: every attempt a task has had was handed out once.\<close>

definition attempts_of :: "DB \<Rightarrow> (ID \<times> int) set" where
  "attempts_of s = {(i, n). \<exists>t \<in> set (db_tasks s). task_ID t = i \<and> n \<le> task_AttemptCount t}"

lemma attempts_of_change:
  assumes "tasks_change (db_tasks s) (db_tasks s')" shows "attempts_of s \<subseteq> attempts_of s'"
proof
  fix e assume "e \<in> attempts_of s"
  then obtain t where t: "t \<in> set (db_tasks s)" "task_ID t = fst e" "snd e \<le> task_AttemptCount t"
    by (auto simp: attempts_of_def)
  from tasks_change_mem [OF assms t(1)] show "e \<in> attempts_of s'"
  proof
    assume "\<exists>t' \<in> set (db_tasks s'). task_move t t'"
    then obtain t' where "t' \<in> set (db_tasks s')" "task_move t t'" by blast
    then show ?thesis using t task_move_fixed(1) [of t t'] task_move_attempts [of t t']
      by (auto simp: attempts_of_def case_prod_beta intro!: bexI [of _ t'])
  qed (use t in \<open>auto simp: attempts_of_def case_prod_beta\<close>)
qed

lemma ClaimNextTask_new:
  assumes "tasks_ok (db_tasks s)" "ClaimNextTask f locked worker now d s = (Inr (Some c), s')"
  shows "claim_key c \<notin> attempts_of s \<and> claim_key c \<in> attempts_of s'"
proof -
  from assms(2) obtain t where t: "claim_candidate locked now (db_tasks s) = Some t"
    and c: "claim_Task c = claim_row worker now (now + d) t"
    and s': "s' = s\<lparr>db_tasks := update_where (\<lambda>u. task_ID u = task_ID t) (claim_row worker now (now + d)) (db_tasks s)\<rparr>"
    by (rule ClaimNextTask_Some)
  note mem = claim_candidate_Some(1) [OF t]
  have key: "claim_key c = (task_ID t, task_AttemptCount t + 1)"
    using c by (simp add: claim_key_def claim_row_def)
  have "claim_row worker now (now + d) t \<in> set (db_tasks s')" using mem s' by (auto simp: update_where_set)
  then have "claim_key c \<in> attempts_of s'"
    unfolding attempts_of_def key by (auto simp: claim_row_def intro!: bexI [of _ "claim_row worker now (now + d) t"])
  moreover have "claim_key c \<notin> attempts_of s"
    using assms(1) key_unique [of task_ID "db_tasks s" _ t] mem unfolding attempts_of_def key tasks_ok_def by fastforce
  ultimately show ?thesis by simp
qed

definition claim_on :: "faults \<times> ID set \<Rightarrow> string \<Rightarrow> time \<Rightarrow> duration \<Rightarrow> DB \<Rightarrow> TaskClaim option result \<times> DB" where
  "claim_on x = ClaimNextTask (fst x) (snd x)"

definition tasks_changed :: "DB \<Rightarrow> DB \<Rightarrow> bool" where
  "tasks_changed s s' \<longleftrightarrow> tasks_change (db_tasks s) (db_tasks s')"

interpretation postgres_queue: claim_queue claim_on tasks_changed "tasks_ok \<circ> db_tasks" attempts_of
proof unfold_locales
  fix q x worker now d r q' assume q: "(tasks_ok \<circ> db_tasks) q" and c: "claim_on x worker now d q = (r, q')"
  have "tasks_change (db_tasks q) (db_tasks q')"
    using q c by (intro tasks_moved_change ClaimNextTask_moved [of "fst x" "snd x" worker now d q r])
      (auto simp: claim_on_def tasks_ok_def)
  then show "(tasks_ok \<circ> db_tasks) q' \<and> attempts_of q \<subseteq> attempts_of q'"
    using q tasks_change_ok attempts_of_change by auto
qed (auto simp: claim_on_def tasks_changed_def dest: ClaimNextTask_new tasks_change_ok attempts_of_change)

lemma slot_step_validated:
  assumes "slot_step claim config i w w'"
    and "\<forall>c \<in> set (wk_executions w). \<exists>now. validateClaim c (wc_WorkerID config) now = None"
  shows "\<forall>c \<in> set (wk_executions w'). \<exists>now. validateClaim c (wc_WorkerID config) now = None"
  using assms
proof (induction rule: slot_step.induct)
  case (answered w now r x e)
  then show ?case
    by (auto simp: after_claim_def executing_def split: sum.splits option.splits if_splits)
qed (auto simp: executing_def after_execution_def after_wait_def split: option.splits if_splits)

lemma slot_step_length: "slot_step claim config i w w' \<Longrightarrow> length (wk_slots w') = length (wk_slots w)"
  by (induction rule: slot_step.induct) auto

lemma worker_run_slots:
  assumes "worker_run claim others config queue w"
  shows "length (wk_slots w) = nat (wc_Concurrency config)
    \<and> (\<forall>c \<in> set (wk_executions w). \<exists>now. validateClaim c (wc_WorkerID config) now = None)"
  using assms
proof (induction rule: worker_run.induct)
  case (moved w w')
  from moved.hyps(2) moved.IH show ?case
    by (induction rule: worker_step.induct) (auto simp: slot_step_length slot_step_validated)
qed (auto simp: worker_start_def)

text \<open>
  C26. A worker executes no attempt of a task twice: over the PostgreSQL queue, with its slots, the
  cancellation and all other clients interleaved in any way and any failures, the claims it hands to the
  executor differ in task or attempt, each was checked to be running under this worker's lease, and there
  are never more slots than the configured concurrency.
\<close>
theorem worker_executes_once:
  assumes "worker_run claim_on tasks_changed config s0 w" and "tasks_ok (db_tasks s0)"
  shows "distinct (map claim_key (wk_executions w)) \<and> length (wk_slots w) = nat (wc_Concurrency config)
    \<and> (\<forall>c \<in> set (wk_executions w). task_Status (claim_Task c) = st_running
         \<and> task_LockedBy (claim_Task c) = Some (wc_WorkerID config))"
  using postgres_queue.worker_run_exclusive [OF assms(1)] assms(2) worker_run_slots [OF assms(1)]
  by (fastforce simp: postgres_queue.exclusive_def validateClaim_def Let_def)

subsection \<open>Graceful shutdown\<close>

text \<open>How many steps a slot has left once the context is cancelled, at most.\<close>

fun slot_rank :: "slot \<Rightarrow> nat" where
  "slot_rank (Returned r) = 0"
| "slot_rank Top = 1"
| "slot_rank (Failing e) = 1"
| "slot_rank (Waited a) = 2"
| "slot_rank (Executed c e) = 2"
| "slot_rank (Waiting d) = 3"
| "slot_rank (Executing c) = 3"
| "slot_rank (Answered t r) = 4"
| "slot_rank (Claiming t) = 5"

definition worker_rank :: "'s worker \<Rightarrow> nat" where
  "worker_rank w = sum_list (map slot_rank (wk_slots w))"

lemma worker_rank_set_slot:
  assumes "i < length (wk_slots w)" "slot_rank x < slot_rank (wk_slots w ! i)"
  shows "worker_rank (set_slot i x w) < worker_rank w"
proof -
  have "sum_list (map slot_rank ((wk_slots w)[i := x])) + slot_rank (wk_slots w ! i)
      = sum_list (map slot_rank (wk_slots w)) + slot_rank x"
    using assms(1) elem_le_sum_list [of i "map slot_rank (wk_slots w)"] by (simp add: map_update sum_list_update)
  with assms(2) show ?thesis by (simp add: worker_rank_def)
qed

lemma worker_rank_simps [simp]:
  "worker_rank (w\<lparr>wk_queue := q\<rparr>) = worker_rank w" "worker_rank (w\<lparr>wk_canceled := b\<rparr>) = worker_rank w"
  "worker_rank (reporting e w) = worker_rank w"
  by (simp_all add: worker_rank_def)

lemma slot_step_rank:
  assumes "slot_step claim config i w w'" "i < length (wk_slots w)" "wk_canceled w"
  shows "worker_rank w' < worker_rank w \<and> wk_canceled w'"
  using assms
proof (induction rule: slot_step.induct)
  case (claim_task w now x r q)
  then show ?case using worker_rank_set_slot [of i "w\<lparr>wk_queue := q\<rparr>" "Answered now r"] by simp
next
  case (answered w now r x e)
  then have "slot_rank x < slot_rank (wk_slots w ! i)"
    by (auto simp: after_claim_def split: sum.splits option.splits)
  then show ?case using answered.prems worker_rank_set_slot by simp
next
  case (executed w c outcome x e)
  then have "slot_rank x < slot_rank (wk_slots w ! i)" by (auto simp: after_execution_def split: option.splits)
  then show ?case using executed.prems worker_rank_set_slot by simp
next
  case (waited w answer)
  then have "slot_rank (after_wait True answer) < slot_rank (wk_slots w ! i)" by (auto simp: after_wait_def split: option.splits)
  then show ?case using waited.prems worker_rank_set_slot by simp
qed (auto intro: worker_rank_set_slot)

lemma slot_can_step:
  assumes "\<And>r. wk_slots w ! i \<noteq> Returned r" shows "\<exists>w'. slot_step claim config i w w'"
proof (cases "wk_slots w ! i")
  case Top
  then show ?thesis by (cases "wk_canceled w") (blast intro: slot_step.intros)+
next
  case (Claiming t)
  obtain r q where "claim undefined (wc_WorkerID config) t (wc_LeaseDuration config) (wk_queue w) = (r, q)" by force
  with Claiming show ?thesis by (blast intro: slot_step.intros)
next
  case (Answered t r)
  obtain x e where "after_claim config (wk_canceled w) t r = (x, e)" by force
  with Answered show ?thesis by (blast intro: slot_step.intros)
next
  case (Executed c outcome)
  obtain x e where "after_execution (wk_canceled w) outcome = (x, e)" by force
  with Executed show ?thesis by (blast intro: slot_step.intros)
qed (use assms in \<open>auto intro: slot_step.intros\<close>)

text \<open>A run of which \<open>n\<close> steps are the worker's own.\<close>

inductive worker_steps ::
  "('x \<Rightarrow> string \<Rightarrow> time \<Rightarrow> duration \<Rightarrow> 's \<Rightarrow> TaskClaim option result \<times> 's) \<Rightarrow> ('s \<Rightarrow> 's \<Rightarrow> bool) \<Rightarrow> WorkerConfig
     \<Rightarrow> nat \<Rightarrow> 's worker \<Rightarrow> 's worker \<Rightarrow> bool"
  for claim others config where
  none: "worker_steps claim others config 0 w w"
| own: "\<lbrakk>worker_steps claim others config n w w1; i < length (wk_slots w1); slot_step claim config i w1 w2\<rbrakk> \<Longrightarrow>
    worker_steps claim others config (Suc n) w w2"
| foreign: "\<lbrakk>worker_steps claim others config n w w1; others (wk_queue w1) q\<rbrakk> \<Longrightarrow>
    worker_steps claim others config n w (w1\<lparr>wk_queue := q\<rparr>)"

lemma worker_steps_rank:
  assumes "worker_steps claim others config n w w'" "wk_canceled w"
  shows "n + worker_rank w' \<le> worker_rank w \<and> wk_canceled w' \<and> length (wk_slots w') = length (wk_slots w)"
  using assms
proof (induction rule: worker_steps.induct)
  case (own n w w1 i w2)
  then show ?case using slot_step_rank [of claim config i w1 w2] slot_step_length [of claim config i w1 w2] by auto
qed auto

lemma worker_rank_le: "worker_rank w \<le> 5 * length (wk_slots w)"
proof -
  have "slot_rank x \<le> 5" for x by (cases x) auto
  then have "sum_list (map slot_rank xs) \<le> 5 * length xs" for xs
    by (induction xs) (auto simp: add_le_mono)
  then show ?thesis by (simp add: worker_rank_def)
qed

text \<open>
  C34. Shutdown is graceful: once the context is cancelled the worker makes at most five more steps per
  slot, whatever the claims, executions and waits answer and whatever others do to the queue; and as long
  as some loop has not returned it can move on. So every loop returns, and \<^verbatim>\<open>Run\<close> with them.
\<close>
theorem worker_stops:
  assumes "wk_canceled w" and "worker_steps claim others config n w w'"
  shows "n \<le> 5 * length (wk_slots w)
    \<and> (list_all (\<lambda>x. \<exists>r. x = Returned r) (wk_slots w') \<or> (\<exists>i < length (wk_slots w'). \<exists>w2. slot_step claim config i w' w2))"
proof
  show "n \<le> 5 * length (wk_slots w)"
    using worker_steps_rank [OF assms(2,1)] worker_rank_le [of w] by linarith
  show "list_all (\<lambda>x. \<exists>r. x = Returned r) (wk_slots w') \<or> (\<exists>i < length (wk_slots w'). \<exists>w2. slot_step claim config i w' w2)"
    using slot_can_step [of w' _ claim config] unfolding list_all_length by blast
qed

definition sample_worker :: WorkerConfig where
  "sample_worker = \<lparr>wc_WorkerID = ''worker-1'', wc_Concurrency = 1, wc_LeaseDuration = Hour, wc_PollInterval = Second,
     wc_ClaimErrorBackoff = Second\<rparr>"

definition idle_worker :: "DB worker" where
  "idle_worker = \<lparr>wk_slots = [Top], wk_canceled = False, wk_reports = [], wk_results = [], wk_queue = sample_db, wk_executions = []\<rparr>"

lemma idle_worker_started: "worker_start sample_worker False sample_db = Inr idle_worker"
  by (simp add: worker_start_def sample_worker_def idle_worker_def)

theorem worker_executes_once_witness:
  "\<exists>w. worker_run claim_on tasks_changed sample_worker sample_db w \<and> wk_executions w = [\<lparr>claim_Task = sample_running\<rparr>]
     \<and> distinct (map claim_key (wk_executions w)) \<and> task_LockedBy sample_running = Some ''worker-1''"
proof -
  let ?c = "\<lparr>claim_Task = sample_running\<rparr>" and ?now = "1003 * Hour"
  let ?w1 = "set_slot 0 (Claiming ?now) idle_worker"
  let ?w2 = "set_slot 0 (Answered ?now (Inr (Some ?c))) (?w1\<lparr>wk_queue := snd sample_claimed\<rparr>)"
  let ?w3 = "reporting None (set_slot 0 (Executing ?c) ?w2)"
  have idle: "wk_slots idle_worker = [Top]" "\<not> wk_canceled idle_worker" "wk_queue idle_worker = sample_db" "wk_executions idle_worker = []"
    by (simp_all add: idle_worker_def)
  have s1: "slot_step claim_on sample_worker 0 idle_worker ?w1"
    by (rule slot_step.begin_claim) (simp_all add: idle)
  have s2: "slot_step claim_on sample_worker 0 ?w1 ?w2"
    by (rule slot_step.claim_task [where x = "(no_faults, {})"])
      (simp_all add: idle claim_on_def sample_worker_def sample_claimed_def [symmetric] sample_claimed_eq)
  have "validateClaim ?c (wc_WorkerID sample_worker) ?now = None" by code_simp
  then have "after_claim sample_worker (wk_canceled ?w2) ?now (Inr (Some ?c)) = (Executing ?c, None)"
    by (simp add: after_claim_def idle)
  from slot_step.answered [OF _ this, of 0 claim_on] have s3: "slot_step claim_on sample_worker 0 ?w2 ?w3"
    by (simp add: idle)
  have run: "worker_run claim_on tasks_changed sample_worker sample_db ?w3"
    by (rule worker_run.moved [OF worker_run.moved [OF worker_run.moved [OF worker_run.started [OF idle_worker_started]]]])
      (rule worker_step.slot [where i = 0, OF _ s1] worker_step.slot [where i = 0, OF _ s2] worker_step.slot [where i = 0, OF _ s3],
        simp add: idle)+
  have "wk_executions ?w3 = [?c]" by (simp add: idle executing_def)
  with worker_executes_once [OF run sample_db_ok] run show ?thesis
    by (intro exI [of _ ?w3]) (simp add: sample_worker_def)
qed

theorem worker_stops_witness:
  "list_all (\<lambda>x. \<exists>r. x = Returned r) (wk_slots (set_slot 0 (Returned None) (idle_worker\<lparr>wk_canceled := True\<rparr>)))
     \<or> (\<exists>w2. slot_step claim_on sample_worker 0 (set_slot 0 (Returned None) (idle_worker\<lparr>wk_canceled := True\<rparr>)) w2)"
proof -
  let ?w = "idle_worker\<lparr>wk_canceled := True\<rparr>"
  have "slot_step claim_on sample_worker 0 ?w (set_slot 0 (Returned None) ?w)"
    by (rule slot_step.stop) (simp_all add: idle_worker_def)
  then have "worker_steps claim_on tasks_changed sample_worker (Suc 0) ?w (set_slot 0 (Returned None) ?w)"
    by (intro worker_steps.own [OF worker_steps.none]) (simp_all add: idle_worker_def)
  from worker_stops [OF _ this] show ?thesis by (simp add: idle_worker_def)
qed

subsection \<open>The service host (group.go, scheduler.go)\<close>

text \<open>
  The results of the components in the order they arrive, and whether the parent context is cancelled
  when all have. The first to stop cancels the others; a stop without error while the parent is active
  is a failure too.
\<close>

definition host_run :: "bool \<Rightarrow> (string \<times> error option) list \<Rightarrow> error option" where
  "host_run canceled results =
     (case find (\<lambda>(name, err). err \<noteq> None) results of
        Some (name, Some e) \<Rightarrow> Some e
      | _ \<Rightarrow> if canceled then None else Some (ErrPlain (fst (hd results) @ '' component stopped unexpectedly'')))"

definition host_check :: "string list \<Rightarrow> error option" where
  "host_check names = first_error
     [guard (names = []) (ErrPlain ''at least one service host component is required''),
      guard ([] \<in> set names) (ErrPlain ''service host component name and runner are required'')]"

datatype scheduler_report = SchedulerResult IncrementalResult | SchedulerError error

text \<open>
  The scheduler loop: for each firing of the timer whether the context is cancelled before, the outcome
  of the scan, and whether it is cancelled after. It ends with the first cancellation.
\<close>

fun scheduler_loop :: "(bool \<times> (error option \<times> IncrementalResult) \<times> bool) list \<Rightarrow> scheduler_report list" where
  "scheduler_loop [] = []"
| "scheduler_loop ((before, (err, r), after) # firings) =
     (if before \<or> after then []
      else (case err of Some e \<Rightarrow> SchedulerError e | None \<Rightarrow> SchedulerResult r) # scheduler_loop firings)"

definition NewSchedulerLoop :: "duration \<Rightarrow> duration result" where
  "NewSchedulerLoop interval = (if interval \<le> 0 then Inl (ErrPlain ''scheduler interval must be positive'') else Inr interval)"

lemma host_run_None: "host_run canceled results = None \<longleftrightarrow> canceled \<and> (\<forall>(name, err) \<in> set results. err = None)"
proof -
  have "find (\<lambda>(name, err). err \<noteq> None) results = None \<longleftrightarrow> (\<forall>(name, err) \<in> set results. err = None)"
    by (auto simp: find_None_iff)
  moreover have "find (\<lambda>(name, err). err \<noteq> None) results = Some (name, err) \<Longrightarrow> err \<noteq> None" for name err
    by (auto simp: find_Some_iff)
  ultimately show ?thesis by (auto simp: host_run_def split: option.splits prod.splits)
qed

end
