(* ===== verification/Application.thy ===== *)
theory Application
  imports ExecutionStore
begin

text \<open>
  The vocabulary of the package \<^verbatim>\<open>internal/application\<close>: its error values (errors.go), callers, permissions
  and audit contexts (auth.go), the checks the query services share, and the walk of a client through the
  pages of a keyset-paginated query with its completeness contract (\<open>keyset_pages\<close>).

  A use case fails with an application error (\<open>App\<close>) or passes an error of the layers below on (\<open>Cause\<close>).
  Its output is therefore an \<open>answer\<close>. The \<^verbatim>\<open>Details\<close> of an error are the list of their entries.
\<close>

subsection \<open>Application errors (errors.go)\<close>

definition knownErrorCodes :: "string list" where
  "knownErrorCodes =
     [''INVALID_ARGUMENT'', ''INVALID_TIME_RANGE'', ''UNSUPPORTED_INTERVAL'', ''UNAUTHENTICATED'', ''PERMISSION_DENIED'',
      ''NOT_FOUND'', ''ASSET_NOT_FOUND'', ''INSTRUMENT_NOT_FOUND'', ''SUBSCRIPTION_NOT_FOUND'', ''TASK_NOT_FOUND'',
      ''CONFLICT'', ''SUBSCRIPTION_ALREADY_EXISTS'', ''TASK_STATE_CONFLICT'', ''BACKFILL_ALREADY_RUNNING'',
      ''MANUAL_RETRY_ALREADY_RUNNING'', ''RATE_LIMITED'', ''INTERNAL_ERROR'', ''SERVICE_UNAVAILABLE'',
      ''DATABASE_UNAVAILABLE'']"

definition ErrorCode_Valid :: "string \<Rightarrow> bool" where
  "ErrorCode_Valid code \<longleftrightarrow> code \<in> set knownErrorCodes"

record FieldViolation =
  fv_Field :: string
  fv_Reason :: string

datatype detail = DetailText string | DetailFields "FieldViolation list"

record AppError =
  ae_Code :: string
  ae_Message :: string
  ae_Retryable :: bool
  ae_Details :: "(string \<times> detail) list"
  ae_Cause :: "error option"

definition NewError :: "string \<Rightarrow> string \<Rightarrow> bool \<Rightarrow> (string \<times> detail) list \<Rightarrow> AppError" where
  "NewError code message retryable details =
     \<lparr>ae_Code = code, ae_Message = message, ae_Retryable = retryable, ae_Details = details, ae_Cause = None\<rparr>"

definition WrapError :: "error \<Rightarrow> string \<Rightarrow> string \<Rightarrow> bool \<Rightarrow> (string \<times> detail) list \<Rightarrow> AppError" where
  "WrapError cause code message retryable details =
     (NewError code message retryable details)\<lparr>ae_Cause := Some cause\<rparr>"

definition AppError_Validate :: "AppError \<Rightarrow> error option" where
  "AppError_Validate e = first_error
     [guard (\<not> ErrorCode_Valid (ae_Code e)) (ErrPlain ''unknown application error code''),
      guard (ae_Message e = []) (ErrPlain ''application error message is required'')]"

definition ValidationError :: "FieldViolation list \<Rightarrow> AppError" where
  "ValidationError violations =
     NewError ''INVALID_ARGUMENT'' ''request validation failed'' False
       (if violations = [] then [] else [(''fields'', DetailFields violations)])"

datatype failure = App AppError | Cause error

type_synonym 'a answer = "failure + 'a"

text \<open>\<^verbatim>\<open>errors.Is\<close> sees through \<^verbatim>\<open>Unwrap\<close>.\<close>

definition failure_Is :: "failure \<Rightarrow> error \<Rightarrow> bool" where
  "failure_Is f target = (case f of
     App e \<Rightarrow> (case ae_Cause e of None \<Rightarrow> False | Some cause \<Rightarrow> errors_Is cause target)
   | Cause e \<Rightarrow> errors_Is e target)"

definition violation :: "bool \<Rightarrow> string \<Rightarrow> string \<Rightarrow> FieldViolation list" where
  "violation bad field reason = (if bad then [\<lparr>fv_Field = field, fv_Reason = reason\<rparr>] else [])"

definition refused :: "string \<Rightarrow> string \<Rightarrow> failure" where
  "refused field reason = App (ValidationError [\<lparr>fv_Field = field, fv_Reason = reason\<rparr>])"

text \<open>A use case continues after a call (\<open>answered\<close>) with the call's error turned into its own.\<close>

definition answered :: "(error \<Rightarrow> failure) \<Rightarrow> 'a result \<Rightarrow> ('a \<Rightarrow> 'b answer) \<Rightarrow> 'b answer" where
  "answered classify r f = (case r of Inl e \<Rightarrow> Inl (classify e) | Inr v \<Rightarrow> f v)"

definition refusing :: "failure option \<Rightarrow> 'a answer \<Rightarrow> 'a answer" where
  "refusing c r = (case c of Some e \<Rightarrow> Inl e | None \<Rightarrow> r)"

definition bind_answer :: "'a answer \<Rightarrow> ('a \<Rightarrow> 'b answer) \<Rightarrow> 'b answer" where
  "bind_answer r f = (case r of Inl e \<Rightarrow> Inl e | Inr v \<Rightarrow> f v)"

definition failing :: "bool \<Rightarrow> failure \<Rightarrow> failure option" where
  "failing bad e = (if bad then Some e else None)"

text \<open>A step made only for a value that is there.\<close>

definition optional_step :: "'a option \<Rightarrow> ('a \<Rightarrow> 'b answer) \<Rightarrow> 'b option answer" where
  "optional_step v f = (case v of None \<Rightarrow> Inr None | Some x \<Rightarrow> bind_answer (f x) (\<lambda>y. Inr (Some y)))"

declare optional_step_def [code_unfold] answered_def [code_unfold] refusing_def [code_unfold] bind_answer_def [code_unfold]

lemma answered_Inr_iff: "answered classify r f = Inr w \<longleftrightarrow> (\<exists>v. r = Inr v \<and> f v = Inr w)"
  by (cases r) (auto simp: answered_def)

lemma answered_simps [simp]: "answered classify (Inr v) f = f v" "answered classify (Inl e) f = Inl (classify e)"
  by (simp_all add: answered_def)

lemma refusing_Inr_iff: "refusing c r = Inr w \<longleftrightarrow> c = None \<and> r = Inr w"
  by (cases c) (auto simp: refusing_def)

lemma refusing_None [simp]: "refusing None r = r"
  by (simp add: refusing_def)

lemma bind_answer_Inr_iff: "bind_answer r f = Inr w \<longleftrightarrow> (\<exists>v. r = Inr v \<and> f v = Inr w)"
  by (cases r) (auto simp: bind_answer_def)

lemma bind_answer_simps [simp]: "bind_answer (Inr v) f = f v" "bind_answer (Inl e) f = Inl e"
  by (simp_all add: bind_answer_def)

lemma violation_Nil [simp]: "violation bad field reason = [] \<longleftrightarrow> \<not> bad"
  by (simp add: violation_def)

lemma violation_False [simp]: "violation False field reason = []"
  by (simp add: violation_def)

subsection \<open>Failures of the layers below\<close>

text \<open>
  A failure that may pass is handed on with its sentinel; any other one is an internal error that hides
  its cause from the client. Every query service has this function under a name of its own.
\<close>

definition classifyLatestQuoteFailure :: "error \<Rightarrow> failure" where
  "classifyLatestQuoteFailure err =
     (if errors_Is err ErrDatabaseUnavailable \<or> errors_Is err ErrRetryable then Cause err
      else App (WrapError err ''INTERNAL_ERROR'' ''internal server error'' False []))"

definition mapCatalogQueryError :: "string \<Rightarrow> string \<Rightarrow> error \<Rightarrow> failure" where
  "mapCatalogQueryError notFoundCode message err =
     (if errors_Is err ErrNotFound then App (WrapError err notFoundCode message False [])
      else classifyLatestQuoteFailure err)"

definition effectiveAtWithin :: "time \<Rightarrow> time option \<Rightarrow> time option \<Rightarrow> bool" where
  "effectiveAtWithin t validFrom validTo \<longleftrightarrow> \<not> IsZero t
     \<and> (case validFrom of None \<Rightarrow> True | Some a \<Rightarrow> \<not> t < a) \<and> (case validTo of None \<Rightarrow> True | Some b \<Rightarrow> t < b)"

subsection \<open>Callers and audit contexts (auth.go)\<close>

definition maximumSubjectLength :: int where "maximumSubjectLength = 128"
definition maximumRequestIDLength :: int where "maximumRequestIDLength = 128"
definition maximumBearerTokenLength :: nat where "maximumBearerTokenLength = 4096"

definition validAuditText :: "string \<Rightarrow> int \<Rightarrow> bool" where
  "validAuditText v maximumLength \<longleftrightarrow>
     \<not> (v = [] \<or> v \<noteq> TrimSpace v \<or> RuneCountInString v > maximumLength) \<and> \<not> has_control v"

definition knownPermissions :: "string list" where
  "knownPermissions = [''operations.read'', ''subscriptions.manage'', ''ingestion.manage'']"

definition Permission_Valid :: "string \<Rightarrow> bool" where
  "Permission_Valid p \<longleftrightarrow> p \<in> set knownPermissions"

text \<open>
  A bearer token is made of the bytes 0x21 to 0x7e; a longer rune is above them all, so the loop over
  the runes is one over the bytes.
\<close>

definition NewBearerToken :: "string \<Rightarrow> string result" where
  "NewBearerToken v =
     (if v = [] \<or> length v > maximumBearerTokenLength then Inl (ErrPlain ''invalid credentials'')
      else if list_ex (\<lambda>c. byte c < 0x21 \<or> byte c > 0x7e) v then Inl (ErrPlain ''invalid credentials'')
      else Inr v)"

record Principal =
  pr_subject :: string
  pr_actorType :: string
  pr_permissions :: "string set"

fun permission_loop :: "string set \<Rightarrow> string list \<Rightarrow> string set result" where
  "permission_loop seen [] = Inr seen"
| "permission_loop seen (p # ps) =
     (if \<not> Permission_Valid p then Inl (ErrPlain ''invalid principal permission'')
      else if p \<in> seen then Inl (ErrPlain ''duplicate principal permission'')
      else permission_loop (insert p seen) ps)"

definition NewPrincipal :: "string \<Rightarrow> string \<Rightarrow> string list \<Rightarrow> Principal result" where
  "NewPrincipal subject actorType permissions =
     (if \<not> validAuditText subject maximumSubjectLength then Inl (ErrPlain ''invalid principal subject'')
      else if actorType \<noteq> ''user'' \<and> actorType \<noteq> ''service'' then Inl (ErrPlain ''invalid principal actor type'')
      else bind_result (permission_loop {} permissions) (\<lambda>permissionSet.
        Inr \<lparr>pr_subject = subject, pr_actorType = actorType, pr_permissions = permissionSet\<rparr>))"

text \<open>The permissions of the zero value and of a constructed one are a set; \<^verbatim>\<open>Permissions\<close> lists it.\<close>

definition Principal_Validate :: "Principal \<Rightarrow> error option" where
  "Principal_Validate p = first_error
     [guard (\<not> validAuditText (pr_subject p) maximumSubjectLength) (ErrPlain ''invalid principal subject''),
      guard (pr_actorType p \<noteq> ''user'' \<and> pr_actorType p \<noteq> ''service'') (ErrPlain ''invalid principal actor type''),
      guard (\<not> (\<forall>x \<in> pr_permissions p. Permission_Valid x)) (ErrPlain ''invalid principal permission'')]"

definition HasPermission :: "Principal \<Rightarrow> string \<Rightarrow> bool" where
  "HasPermission p permission \<longleftrightarrow> Permission_Valid permission \<and> permission \<in> pr_permissions p"

record AuditContext =
  au_requestedBy :: string
  au_actorType :: string
  au_requestID :: string

definition NewAuditContext :: "Principal \<Rightarrow> string \<Rightarrow> AuditContext result" where
  "NewAuditContext caller requestID =
     checked (Principal_Validate caller)
     (checked (guard (\<not> validAuditText requestID maximumRequestIDLength) (ErrPlain ''invalid audit request ID''))
     (Inr \<lparr>au_requestedBy = pr_subject caller, au_actorType = pr_actorType caller, au_requestID = requestID\<rparr>))"

text \<open>What the context of a request carries.\<close>

record request_context =
  rc_principal :: "Principal option"
  rc_audit :: "AuditContext option"

definition WithPrincipal :: "Principal \<Rightarrow> request_context \<Rightarrow> request_context" where
  "WithPrincipal p ctx = ctx\<lparr>rc_principal := Some p\<rparr>"

definition WithAuditContext :: "AuditContext \<Rightarrow> request_context \<Rightarrow> request_context" where
  "WithAuditContext a ctx = ctx\<lparr>rc_audit := Some a\<rparr>"

definition PrincipalFromContext :: "request_context \<Rightarrow> Principal option" where
  "PrincipalFromContext ctx = (case rc_principal ctx of
     None \<Rightarrow> None | Some p \<Rightarrow> if Principal_Validate p = None then Some p else None)"

definition AuditContextFromContext :: "request_context \<Rightarrow> AuditContext option" where
  "AuditContextFromContext ctx = (case rc_audit ctx of
     None \<Rightarrow> None
   | Some a \<Rightarrow>
       if (au_actorType a = ''user'' \<or> au_actorType a = ''service'')
         \<and> validAuditText (au_requestedBy a) maximumSubjectLength \<and> validAuditText (au_requestID a) maximumRequestIDLength
       then Some a else None)"

lemma permission_loop_Inr:
  "permission_loop seen ps = Inr all \<Longrightarrow> all = seen \<union> set ps \<and> (\<forall>p \<in> set ps. Permission_Valid p \<and> p \<notin> seen) \<and> distinct ps"
  by (induction seen ps arbitrary: all rule: permission_loop.induct) (auto split: if_splits)

lemma NewPrincipal_valid: "NewPrincipal subject actorType ps = Inr p \<Longrightarrow> Principal_Validate p = None"
  by (auto simp: NewPrincipal_def bind_result_Inr_iff Principal_Validate_def dest!: permission_loop_Inr split: if_splits)

lemma AuditContext_accepted:
  "NewAuditContext p requestID = Inr a \<Longrightarrow> AuditContextFromContext (WithAuditContext a ctx) = Some a"
  by (auto simp: NewAuditContext_def checked_Inr_iff Principal_Validate_def AuditContextFromContext_def WithAuditContext_def)

subsection \<open>Keyset pagination\<close>

text \<open>
  The page a service cuts from the rows of a query that was asked for one row more than the limit, and
  the walk of a client that follows the cursors (at most \<open>n\<close> requests).
\<close>

definition cut_page :: "('r \<Rightarrow> 'k) \<Rightarrow> nat \<Rightarrow> 'r list \<Rightarrow> 'r list \<times> 'k option" where
  "cut_page key limit rows =
     (if length rows > limit then (take limit rows, Some (key (last (take limit rows)))) else (rows, None))"

fun follow_pages :: "nat \<Rightarrow> ('k option \<Rightarrow> ('r list \<times> 'k option) answer) \<Rightarrow> 'k option \<Rightarrow> 'r list answer option" where
  "follow_pages 0 page cursor = None"
| "follow_pages (Suc n) page cursor =
     (case page cursor of
        Inl e \<Rightarrow> Some (Inl e)
      | Inr (rows, None) \<Rightarrow> Some (Inr rows)
      | Inr (rows, Some next) \<Rightarrow> map_option (map_sum id (\<lambda>rest. rows @ rest)) (follow_pages n page (Some next)))"

definition after_key :: "('k \<Rightarrow> 'k \<Rightarrow> bool) \<Rightarrow> ('r \<Rightarrow> 'k) \<Rightarrow> 'k option \<Rightarrow> 'r list \<Rightarrow> 'r list" where
  "after_key before key cursor rows = (case cursor of None \<Rightarrow> rows | Some k \<Rightarrow> filter (\<lambda>r. before k (key r)) rows)"

lemma cut_page_more: "cut_page key limit (take (Suc limit) rows) = cut_page key limit rows"
  by (cases "length rows > limit") (auto simp: cut_page_def min_def)

lemma after_key_last:
  assumes "sorted_wrt (\<lambda>a b. before (key a) (key b)) rows" and "transp before" and "irreflp before" and "0 < n" "n \<le> length rows"
  shows "after_key before key (Some (key (last (take n rows)))) rows = drop n rows"
proof -
  let ?l = "last (take n rows)"
  have ne: "take n rows \<noteq> []" using assms(4,5) by auto
  have split: "rows = take n rows @ drop n rows" by simp
  have sorted: "sorted_wrt (\<lambda>a b. before (key a) (key b)) (take n rows @ drop n rows)" using assms(1) by simp
  have later: "before (key ?l) (key r)" if "r \<in> set (drop n rows)" for r
    using sorted that last_in_set [OF ne] by (simp only: sorted_wrt_append)
  have "\<not> before (key ?l) (key r)" if "r \<in> set (take n rows)" for r
  proof
    assume less: "before (key ?l) (key r)"
    have "take n rows = butlast (take n rows) @ [?l]" using ne by simp
    then have "r \<in> set (butlast (take n rows)) \<or> r = ?l" using that by (metis Un_iff empty_iff list.set set_append insert_iff)
    moreover have "sorted_wrt (\<lambda>a b. before (key a) (key b)) (butlast (take n rows) @ [?l])"
      using sorted ne by (simp add: sorted_wrt_append)
    then have "before (key x) (key ?l)" if "x \<in> set (butlast (take n rows))" for x
      using that by (auto simp: sorted_wrt_append)
    ultimately show False using less assms(2,3) by (metis irreflpD transpD)
  qed
  then have "filter (\<lambda>r. before (key ?l) (key r)) (take n rows) = []" by (simp add: filter_empty_conv)
  moreover have "filter (\<lambda>r. before (key ?l) (key r)) (drop n rows) = drop n rows"
    using later by (simp add: filter_id_conv)
  ultimately show ?thesis unfolding after_key_def by (subst split) (simp only: filter_append option.case append_Nil)
qed

lemma after_key_drop:
  assumes "sorted_wrt (\<lambda>a b. before (key a) (key b)) rows" and "transp before" and "irreflp before"
    and "cut_page key limit (after_key before key cursor rows) = (page, Some next)" "0 < limit"
  shows "after_key before key (Some next) rows = drop limit (after_key before key cursor rows)
    \<and> page = take limit (after_key before key cursor rows) \<and> next \<in> key ` set rows
    \<and> length (after_key before key cursor rows) > limit"
proof -
  let ?rest = "after_key before key cursor rows"
  have rest: "sorted_wrt (\<lambda>a b. before (key a) (key b)) ?rest" "set ?rest \<subseteq> set rows"
    using assms(1) by (auto simp: after_key_def sorted_wrt_filter split: option.splits)
  have long: "length ?rest > limit" and page: "page = take limit ?rest" and key: "next = key (last (take limit ?rest))"
    using assms(4) by (auto simp: cut_page_def split: if_splits)
  have "last (take limit ?rest) \<in> set ?rest"
    using long assms(5) by (metis in_set_takeD last_in_set length_0_conv length_take less_imp_le min.absorb2 not_gr_zero)
  then have mem: "next \<in> key ` set rows" using key rest(2) by auto
  have inner: "after_key before key (Some next) ?rest = drop limit ?rest"
    using after_key_last [OF rest(1) assms(2,3) assms(5)] long key by simp
  have "after_key before key (Some next) ?rest = after_key before key (Some next) rows"
  proof (cases cursor)
    case (Some k)
    from \<open>last (take limit ?rest) \<in> set ?rest\<close> have "before k next" using Some key by (auto simp: after_key_def)
    then have "before k (key r)" if "before next (key r)" for r using that assms(2) by (metis transpD)
    then show ?thesis using Some by (auto simp: after_key_def intro!: filter_cong)
  qed (simp add: after_key_def)
  with inner page mem long show ?thesis by simp
qed

text \<open>
  The contract of a keyset-paginated query in the circumstances \<open>x\<close> (data, filter, limit): as long as they
  are in order (\<open>ok\<close>) a page is cut from the rows behind its cursor. What a client gets for it: following
  the cursors, it reads every row once, in order, and then stops.
\<close>

locale keyset_pages =
  fixes serve :: "'x \<Rightarrow> 'k option \<Rightarrow> ('r list \<times> 'k option) answer"
    and ok :: "'x \<Rightarrow> bool"
    and all_rows :: "'x \<Rightarrow> 'r list"
    and key :: "'r \<Rightarrow> 'k"
    and before :: "'x \<Rightarrow> 'k \<Rightarrow> 'k \<Rightarrow> bool"
    and limit :: "'x \<Rightarrow> nat"
  assumes serves: "ok x \<Longrightarrow> cursor = None \<or> (\<exists>k \<in> key ` set (all_rows x). cursor = Some k) \<Longrightarrow>
      serve x cursor = Inr (cut_page key (limit x) (after_key (before x) key cursor (all_rows x)))"
    and in_order: "ok x \<Longrightarrow> sorted_wrt (\<lambda>a b. before x (key a) (key b)) (all_rows x)"
    and strict: "transp (before x)" "irreflp (before x)"
    and some_rows: "ok x \<Longrightarrow> 0 < limit x"
begin

lemma walk_from:
  assumes "ok x" and "cursor = None \<or> (\<exists>k \<in> key ` set (all_rows x). cursor = Some k)"
    and "length (after_key (before x) key cursor (all_rows x)) < n"
  shows "follow_pages n (serve x) cursor = Some (Inr (after_key (before x) key cursor (all_rows x)))"
  using assms(2,3)
proof (induction n arbitrary: cursor)
  case (Suc n)
  let ?rest = "after_key (before x) key cursor (all_rows x)"
  obtain page more where cut: "cut_page key (limit x) ?rest = (page, more)" by force
  have serve: "serve x cursor = Inr (page, more)" using serves [OF assms(1) Suc.prems(1)] cut by simp
  show ?case
  proof (cases more)
    case None
    then have "page = ?rest" using cut by (auto simp: cut_page_def split: if_splits)
    with serve None show ?thesis by simp
  next
    case (Some k)
    from after_key_drop [OF in_order [OF assms(1)] strict cut [unfolded Some] some_rows [OF assms(1)]]
    have tail: "after_key (before x) key (Some k) (all_rows x) = drop (limit x) ?rest"
      "page = take (limit x) ?rest" "k \<in> key ` set (all_rows x)" "length ?rest > limit x" by simp_all
    have "follow_pages n (serve x) (Some k) = Some (Inr (drop (limit x) ?rest))"
      using Suc.IH [of "Some k"] Suc.prems(2) tail some_rows [OF assms(1)] by simp
    with serve Some tail(2) show ?thesis by simp
  qed
qed simp

lemma walk_complete:
  assumes "ok x" shows "follow_pages (Suc (length (all_rows x))) (serve x) None = Some (Inr (all_rows x))"
  using walk_from [OF assms, of None "Suc (length (all_rows x))"] by (simp add: after_key_def del: follow_pages.simps)

end

end
