(* ===== verification/CatalogQueries.thy ===== *)
theory CatalogQueries
  imports Application
begin

text \<open>
  The provider catalog in PostgreSQL (repository/postgres/catalog.go, migration 00002): lookups of assets,
  instruments and providers, the creation of providers and provider mappings with the constraints of their
  tables, and the rows the query services join. The catalog's invariant is at the end.
\<close>

subsection \<open>Lookups\<close>

definition FindAssetByCode :: "faults \<Rightarrow> string \<Rightarrow> DB \<Rightarrow> Asset result" where
  "FindAssetByCode f code = load_row f 0 (\<lambda>s. select_by asset_Code code (db_assets s)) scanAsset"

definition FindAssetByID :: "faults \<Rightarrow> ID \<Rightarrow> DB \<Rightarrow> Asset result" where
  "FindAssetByID f i s = checked (guard (ID_IsZero i) ErrInvalidData)
     (load_row f 0 (\<lambda>s. select_by asset_ID i (db_assets s)) scanAsset s)"

definition FindInstrumentByCode :: "platform \<Rightarrow> faults \<Rightarrow> string \<Rightarrow> DB \<Rightarrow> Instrument result" where
  "FindInstrumentByCode pf f code = load_row f 0 (\<lambda>s. select_by inst_Code code (db_instruments s)) (scanInstrument pf)"

definition FindProviderByCode :: "faults \<Rightarrow> string \<Rightarrow> DB \<Rightarrow> Provider result" where
  "FindProviderByCode f code = load_row f 0 (\<lambda>s. select_by prov_Code code (db_providers s)) scanProvider"

text \<open>A query for many rows: the driver's failure, or the rows scanned one by one.\<close>

definition query_rows :: "faults \<Rightarrow> ('a \<Rightarrow> 'b result) \<Rightarrow> 'a list \<Rightarrow> 'b list result" where
  "query_rows f scan rows = (case fault_at f 0 of Some e \<Rightarrow> Inl (MapError e) | None \<Rightarrow> scan_rows scan rows)"

definition FindInstrumentsByIDs :: "platform \<Rightarrow> faults \<Rightarrow> ID list \<Rightarrow> DB \<Rightarrow> Instrument list result" where
  "FindInstrumentsByIDs pf f ids s =
     (if ids = [] \<or> list_ex ID_IsZero ids then Inl ErrInvalidData
      else query_rows f (scanInstrument pf) [i \<leftarrow> db_instruments s. inst_ID i \<in> set ids])"

text \<open>Enabled mappings without an end, in the default order.\<close>

definition ListActiveProviderInstruments :: "faults \<Rightarrow> ID \<Rightarrow> DB \<Rightarrow> ProviderInstrument list result" where
  "ListActiveProviderInstruments f instrumentID s =
     (if ID_IsZero instrumentID then Inl ErrInvalidData
      else query_rows f scanProviderInstrument (order_by mapping_first
        [m \<leftarrow> db_mappings s. pi_InstrumentID m = instrumentID \<and> pi_Enabled m \<and> pi_ValidTo m = None]))"

subsection \<open>Commands\<close>

text \<open>The tables' checks \<^verbatim>\<open>code = lower(code)\<close> hold for every value of the type \<^verbatim>\<open>Code\<close>, whose parser admits no capitals.\<close>

definition providerArguments :: "Provider \<Rightarrow> Provider" where
  "providerArguments p = p\<lparr>prov_Metadata := jsonValue (prov_Metadata p),
     prov_CreatedAt := timestamptz (prov_CreatedAt p), prov_UpdatedAt := timestamptz (prov_UpdatedAt p)\<rparr>"

definition provider_row_checks :: "Provider \<Rightarrow> driver_error option" where
  "provider_row_checks p = first_failure
     [violates (\<not> json_Valid (prov_Metadata p)) ''22P02'' '''',
      violates (\<not> varchar_ok 64 (prov_Code p) \<or> \<not> varchar_ok 128 (prov_Name p) \<or> \<not> varchar_ok 24 (prov_ProviderType p)
        \<or> \<not> varchar_ok 16 (prov_Status p)) ''22001'' '''',
      violates (prov_Status p \<notin> set [''active'', ''disabled'', ''degraded'']) ''23514'' ''ck_providers_status'',
      violates (prov_ProviderType p \<notin> set [''BROKER'', ''EXCHANGE'', ''AGGREGATOR'']) ''23514'' ''ck_providers_type'']"

definition insert_provider :: "Provider \<Rightarrow> DB \<Rightarrow> (driver_error + unit) \<times> DB" where
  "insert_provider provider s = (let p = providerArguments provider in
     case first_failure [provider_row_checks p,
            violates (prov_ID p \<in> set (map prov_ID (db_providers s))) ''23505'' ''providers_pkey'',
            violates (prov_Code p \<in> set (map prov_Code (db_providers s))) ''23505'' ''uq_providers_code''] of
       Some e \<Rightarrow> (Inl e, s)
     | None \<Rightarrow> (Inr (), s\<lparr>db_providers := db_providers s @ [p]\<rparr>))"

definition CreateProvider :: "faults \<Rightarrow> Provider \<Rightarrow> DB \<Rightarrow> unit result \<times> DB" where
  "CreateProvider f provider s =
     (case NewProvider provider of
        Inl e \<Rightarrow> (Inl e, s)
      | Inr p \<Rightarrow> map_errors (autocommit f (insert_provider p) s))"

definition mappingArguments :: "ProviderInstrument \<Rightarrow> ProviderInstrument" where
  "mappingArguments m = m\<lparr>pi_Metadata := jsonValue (pi_Metadata m), pi_ValidFrom := optional_timestamptz (pi_ValidFrom m),
     pi_ValidTo := optional_timestamptz (pi_ValidTo m), pi_CreatedAt := timestamptz (pi_CreatedAt m),
     pi_UpdatedAt := timestamptz (pi_UpdatedAt m)\<rparr>"

definition mapping_row_checks :: "ProviderInstrument \<Rightarrow> driver_error option" where
  "mapping_row_checks m = first_failure
     [violates (\<not> json_Valid (pi_Metadata m)) ''22P02'' '''',
      violates (\<not> varchar_ok 192 (pi_Code m) \<or> \<not> varchar_ok 128 (pi_ExternalSymbol m) \<or> \<not> varchar_ok 32 (pi_ProviderMarket m))
        ''22001'' '''',
      violates (pi_Priority m < 0) ''23514'' ''ck_provider_instruments_priority'',
      violates (\<not> (case (pi_ValidFrom m, pi_ValidTo m) of (Some a, Some b) \<Rightarrow> b > a | _ \<Rightarrow> True))
        ''23514'' ''ck_provider_instruments_valid_range'']"

text \<open>The partial unique indexes: one open mapping per external symbol, one open default per instrument.\<close>

definition same_external :: "ProviderInstrument \<Rightarrow> ProviderInstrument \<Rightarrow> bool" where
  "same_external m n \<longleftrightarrow> pi_ValidTo m = None \<and> pi_ValidTo n = None \<and> pi_ProviderID m = pi_ProviderID n
     \<and> pi_ProviderMarket m = pi_ProviderMarket n \<and> pi_ExternalSymbol m = pi_ExternalSymbol n"

definition same_default :: "ProviderInstrument \<Rightarrow> ProviderInstrument \<Rightarrow> bool" where
  "same_default m n \<longleftrightarrow> pi_ValidTo m = None \<and> pi_ValidTo n = None \<and> pi_Enabled m \<and> pi_Enabled n
     \<and> pi_IsDefault m \<and> pi_IsDefault n \<and> pi_InstrumentID m = pi_InstrumentID n"

definition mapping_references :: "DB \<Rightarrow> ProviderInstrument \<Rightarrow> driver_error option" where
  "mapping_references s m = first_failure
     [violates (pi_ID m \<in> set (map pi_ID (db_mappings s))) ''23505'' ''provider_instruments_pkey'',
      violates (pi_Code m \<in> set (map pi_Code (db_mappings s))) ''23505'' ''uq_provider_instruments_code'',
      violates (list_ex (same_external m) (db_mappings s)) ''23505'' ''uq_active_provider_external_symbol'',
      violates (list_ex (same_default m) (db_mappings s)) ''23505'' ''uq_enabled_default_provider_instrument'',
      violates (pi_ProviderID m \<notin> set (map prov_ID (db_providers s))) ''23503'' ''provider_instruments_provider_id_fkey'',
      violates (pi_InstrumentID m \<notin> set (map inst_ID (db_instruments s))) ''23503'' ''provider_instruments_instrument_id_fkey'']"

definition insert_mapping :: "ProviderInstrument \<Rightarrow> DB \<Rightarrow> (driver_error + unit) \<times> DB" where
  "insert_mapping mapping s = (let m = mappingArguments mapping in
     case first_failure [mapping_row_checks m, mapping_references s m] of
       Some e \<Rightarrow> (Inl e, s)
     | None \<Rightarrow> (Inr (), s\<lparr>db_mappings := db_mappings s @ [m]\<rparr>))"

definition CreateProviderInstrument :: "faults \<Rightarrow> ProviderInstrument \<Rightarrow> DB \<Rightarrow> unit result \<times> DB" where
  "CreateProviderInstrument f mapping s =
     (case NewProviderInstrument mapping of
        Inl e \<Rightarrow> (Inl e, s)
      | Inr m \<Rightarrow> map_errors (autocommit f (insert_mapping m) s))"

subsection \<open>The rows the query services join\<close>

record mapping_row =
  mr_Mapping :: ProviderInstrument
  mr_Provider :: Provider
  mr_Instrument :: Instrument

definition mapping_rows :: "DB \<Rightarrow> mapping_row list" where
  "mapping_rows s = [\<lparr>mr_Mapping = m, mr_Provider = p, mr_Instrument = i\<rparr>.
     m \<leftarrow> db_mappings s, p \<leftarrow> db_providers s, prov_ID p = pi_ProviderID m,
     i \<leftarrow> db_instruments s, inst_ID i = pi_InstrumentID m]"

text \<open>The mapping is on at the instant, its provider not disabled.\<close>

definition mapping_on :: "mapping_row \<Rightarrow> time \<Rightarrow> bool" where
  "mapping_on r t \<longleftrightarrow> pi_Enabled (mr_Mapping r) \<and> valid_at (pi_ValidFrom (mr_Mapping r)) (pi_ValidTo (mr_Mapping r)) t
     \<and> prov_Status (mr_Provider r) \<in> set [''active'', ''degraded'']"

definition instrument_on :: "Instrument \<Rightarrow> time \<Rightarrow> bool" where
  "instrument_on i t \<longleftrightarrow> inst_Status i = ''active'' \<and> valid_at (inst_ValidFrom i) (inst_ValidTo i) t"

definition row_first :: "mapping_row \<Rightarrow> mapping_row \<Rightarrow> bool" where
  "row_first a b \<longleftrightarrow> mapping_first (mr_Mapping a) (mr_Mapping b)"

subsection \<open>The invariant of the catalog\<close>

text \<open>Identities and codes are unique, mappings refer to rows that exist, and the partial indexes hold.\<close>

definition catalog_ok :: "DB \<Rightarrow> bool" where
  "catalog_ok s \<longleftrightarrow> distinct (map prov_ID (db_providers s)) \<and> distinct (map prov_Code (db_providers s))
     \<and> distinct (map pi_ID (db_mappings s)) \<and> distinct (map pi_Code (db_mappings s))
     \<and> (\<forall>m \<in> set (db_mappings s). pi_ProviderID m \<in> set (map prov_ID (db_providers s))
          \<and> pi_InstrumentID m \<in> set (map inst_ID (db_instruments s)))
     \<and> sorted_wrt (\<lambda>m n. \<not> same_external m n \<and> \<not> same_default m n) (db_mappings s)"

lemma same_sym: "same_external m n = same_external n m" "same_default m n = same_default n m"
  by (auto simp: same_external_def same_default_def)

lemma insert_provider_catalog:
  assumes "catalog_ok s" "insert_provider p s = (Inr v, s')" shows "catalog_ok s'"
  using assms by (auto simp: insert_provider_def catalog_ok_def Let_def split: option.splits)

lemma insert_mapping_catalog:
  assumes "catalog_ok s" "insert_mapping m s = (Inr v, s')" shows "catalog_ok s'"
  using assms same_sym
  by (auto simp: insert_mapping_def catalog_ok_def Let_def mapping_references_def sorted_wrt_append list_ex_iff split: option.splits)

lemma autocommit_catalog:
  assumes "catalog_ok s" and "\<And>v s'. st s = (Inr v, s') \<Longrightarrow> catalog_ok s'"
    and "map_errors (autocommit f st s) = (r, s')" shows "catalog_ok s'"
proof -
  obtain r' where "autocommit f st s = (r', s')"
    using assms(3) by (cases "autocommit f st s") (auto simp: map_errors_def split: sum.splits)
  from autocommit_atomic [OF this] assms(1,2) show ?thesis by auto
qed

lemma CreateProvider_catalog:
  "catalog_ok s \<Longrightarrow> CreateProvider f p s = (r, s') \<Longrightarrow> catalog_ok s'"
  unfolding CreateProvider_def
  by (auto split: sum.splits elim!: autocommit_catalog [rotated 2] intro: insert_provider_catalog)

lemma CreateProviderInstrument_catalog:
  "catalog_ok s \<Longrightarrow> CreateProviderInstrument f m s = (r, s') \<Longrightarrow> catalog_ok s'"
  unfolding CreateProviderInstrument_def
  by (auto split: sum.splits elim!: autocommit_catalog [rotated 2] intro: insert_mapping_catalog)

text \<open>Sorting rows by a relation that orders them.\<close>

definition weak_order :: "('a \<Rightarrow> 'a \<Rightarrow> bool) \<Rightarrow> bool" where
  "weak_order before \<longleftrightarrow> (\<forall>a b c. \<not> before b a \<longrightarrow> \<not> before c b \<longrightarrow> \<not> before c a) \<and> (\<forall>a b. before a b \<longrightarrow> \<not> before b a)"

lemma weak_orderD:
  assumes "weak_order before"
  shows "before a b \<Longrightarrow> \<not> before b a" "\<not> before b a \<Longrightarrow> \<not> before c b \<Longrightarrow> \<not> before c a"
  using assms unfolding weak_order_def by fast+

lemma insert_by_sorted:
  assumes "sorted_wrt (\<lambda>a b. \<not> before b a) rows" "weak_order before"
  shows "sorted_wrt (\<lambda>a b. \<not> before b a) (insert_by before x rows)"
  using assms(1)
proof (induction rows)
  case (Cons y ys)
  show ?case
  proof (cases "before y x")
    case True
    from weak_orderD(1) [OF assms(2) this] have "\<not> before x y" .
    then show ?thesis using Cons True by simp
  next
    case False
    have "\<not> before z x" if "z \<in> set ys" for z
      using Cons.prems that by (intro weak_orderD(2) [OF assms(2) False]) simp
    then show ?thesis using Cons.prems False by simp
  qed
qed simp

lemma order_by_sorted:
  assumes "weak_order before" shows "sorted_wrt (\<lambda>a b. \<not> before b a) (order_by before rows)"
  by (induction rows) (simp_all add: order_by_def insert_by_sorted assms)

lemma text_before_order:
  "\<not> text_before w v \<Longrightarrow> \<not> text_before u w \<Longrightarrow> \<not> text_before u v" "text_before v w \<Longrightarrow> \<not> text_before w v"
  unfolding text_before_def
  by (meson lexordp_linear lexordp_trans lexordp_antisym lexordp_irreflexive' lexordp_conv_lexordp_eq lexordp_eq_linear lexordp_eq_trans)+

lemma mapping_first_order: "weak_order mapping_first"
proof -
  have bytes: "weak_order text_before" using text_before_order unfolding weak_order_def by blast
  show ?thesis
    unfolding weak_order_def mapping_first_def
    by (intro conjI allI impI) (auto split: if_splits dest: weak_orderD [OF bytes])
qed

lemma distinct_order_by [simp]: "distinct (order_by before rows) = distinct rows"
proof -
  have "distinct (insert_by before x ys) \<longleftrightarrow> x \<notin> set ys \<and> distinct ys" for x and ys :: "'a list"
    by (induction ys) auto
  moreover have "x \<notin> set (foldr (insert_by before) rows []) \<longleftrightarrow> x \<notin> set rows" for x and rows :: "'a list"
    using set_order_by [of before rows] by (simp add: order_by_def)
  ultimately show ?thesis by (induction rows) (simp_all add: order_by_def)
qed

lemma same_default_unique:
  assumes "catalog_ok s" "m \<in> set (db_mappings s)" "n \<in> set (db_mappings s)" "same_default m n" shows "m = n"
proof (rule ccontr)
  assume "m \<noteq> n"
  from assms(2,3) obtain i j where ij: "i < length (db_mappings s)" "j < length (db_mappings s)"
    "m = db_mappings s ! i" "n = db_mappings s ! j" by (auto simp: in_set_conv_nth)
  with \<open>m \<noteq> n\<close> have "i \<noteq> j" by auto
  then consider "i < j" | "j < i" by linarith
  moreover have "same_default n m" using assms(4) by (simp add: same_default_def)
  ultimately show False
    using assms(1,4) ij by cases (auto simp: catalog_ok_def sorted_wrt_iff_nth_less)
qed

lemma scan_rows_Inr:
  "scan_rows scan rows = Inr vs \<longleftrightarrow> list_all2 (\<lambda>r v. scan r = Inr v) rows vs"
  by (induction rows arbitrary: vs) (auto simp: bind_result_Inr_iff list_all2_Cons1)

lemma scanProviderInstrument_default: "scanProviderInstrument m = Inr n \<Longrightarrow> pi_IsDefault n = pi_IsDefault m"
  by (auto simp: scanProviderInstrument_def bind_result_Inr_iff NewProviderInstrument_def Let_def checked_Inr_iff)

lemma ListActive_default_first:
  assumes s: "catalog_ok s" and list: "ListActiveProviderInstruments f i s = Inr ms" and k: "k < length ms" "pi_IsDefault (ms ! k)"
  shows "k = 0"
proof (rule ccontr)
  assume "k \<noteq> 0"
  let ?active = "[m \<leftarrow> db_mappings s. pi_InstrumentID m = i \<and> pi_Enabled m \<and> pi_ValidTo m = None]"
  let ?rows = "order_by mapping_first ?active"
  have all: "list_all2 (\<lambda>r v. scanProviderInstrument r = Inr v) ?rows ms"
    using list by (auto simp: ListActiveProviderInstruments_def query_rows_def scan_rows_Inr split: if_splits option.splits)
  have n: "length ?rows = length ms" "k < length ?rows" using list_all2_lengthD [OF all] k(1) by simp_all
  then have "scanProviderInstrument (?rows ! k) = Inr (ms ! k)" using list_all2_nthD [OF all] by blast
  then have default: "pi_IsDefault (?rows ! k)" using k(2) scanProviderInstrument_default by blast
  have "\<not> mapping_first (?rows ! k) (?rows ! 0)"
    using order_by_sorted [OF mapping_first_order] n(2) \<open>k \<noteq> 0\<close> by (simp only: sorted_wrt_iff_nth_less) simp
  then have "pi_IsDefault (?rows ! 0)" using default by (auto simp: mapping_first_def split: if_splits)
  moreover have mem: "?rows ! k \<in> set ?active" "?rows ! 0 \<in> set ?active"
    using n(2) nth_mem [of k ?rows] nth_mem [of 0 ?rows] by (simp_all only: set_order_by)
  ultimately have "same_default (?rows ! k) (?rows ! 0)" using default by (auto simp: same_default_def)
  then have "?rows ! k = ?rows ! 0" using mem by (intro same_default_unique [OF s]) auto
  moreover have "distinct ?rows" using s by (auto simp: catalog_ok_def distinct_map)
  then have "?rows ! k \<noteq> ?rows ! 0" using n(2) \<open>k \<noteq> 0\<close> by (subst nth_eq_iff_index_eq) auto
  ultimately show False by simp
qed

text \<open>
  C27. The provider catalog stays consistent through every command, with any failure of the driver or the
  commit: unique identities and codes, mappings of existing providers and instruments only, one open mapping
  per external symbol and one open default per instrument. The listing of an instrument's active mappings
  relies on it: no mapping but the first can be the default.
\<close>
theorem catalog_stays_consistent:
  assumes "catalog_ok s"
  shows "(CreateProvider f p s = (r, s') \<longrightarrow> catalog_ok s')
    \<and> (CreateProviderInstrument f m s = (r, s') \<longrightarrow> catalog_ok s')
    \<and> (ListActiveProviderInstruments f i s = Inr ms \<longrightarrow> (\<forall>k < length ms. pi_IsDefault (ms ! k) \<longrightarrow> k = 0))"
  using CreateProvider_catalog [OF assms] CreateProviderInstrument_catalog [OF assms] ListActive_default_first [OF assms] by blast

definition sample_catalog :: DB where
  "sample_catalog = \<lparr>db_assets = [ec_Asset sample_execution], db_instruments = [ec_Instrument sample_execution],
     db_providers = [ec_Provider sample_execution], db_mappings = [ec_ProviderInstrument sample_execution],
     db_subs = [], db_runs = [], db_tasks = [], db_checkpoints = Map.empty, db_bars = [], db_quotes = Map.empty, db_issues = []\<rparr>"

definition second_mapping :: ProviderInstrument where
  "second_mapping = (ec_ProviderInstrument sample_execution)
     \<lparr>pi_ID := 441, pi_Code := ''provider.bybit.other'', pi_ExternalSymbol := ''OTHER'', pi_IsDefault := False\<rparr>"

lemma sample_catalog_ok: "catalog_ok sample_catalog"
  by code_simp

theorem catalog_stays_consistent_witness:
  "catalog_ok (snd (CreateProviderInstrument no_faults second_mapping sample_catalog))
    \<and> length (db_mappings (snd (CreateProviderInstrument no_faults second_mapping sample_catalog))) = 2"
proof
  show "length (db_mappings (snd (CreateProviderInstrument no_faults second_mapping sample_catalog))) = 2" by code_simp
  show "catalog_ok (snd (CreateProviderInstrument no_faults second_mapping sample_catalog))"
    using catalog_stays_consistent [OF sample_catalog_ok, where f = no_faults and m = second_mapping] by (metis prod.collapse)
qed

end
