(* ===== verification/BarQuery.thy ===== *)
theory BarQuery
  imports CatalogQueries MarketProperties
begin

text \<open>
  The public bar query: application/bars.go over repository/postgres/bar_query.go. The properties are the
  completeness of its pages (an interpretation of \<open>keyset_pages\<close>) and the round trip of a written bar.
\<close>

subsection \<open>Requests and results\<close>

definition MaximumBarsPageSize :: int where "MaximumBarsPageSize = 1000"

record BarsInput =
  bi_InstrumentCode :: string
  bi_ProviderCode :: string
  bi_Interval :: string
  bi_StartTime :: "time option"
  bi_EndTime :: "time option"
  bi_Order :: string
  bi_CursorOpenTime :: "time option"
  bi_Limit :: int

record BarSourceFilter =
  bsf_InstrumentID :: ID
  bsf_ProviderID :: ID
  bsf_EffectiveAt :: time

record BarSourceRecord =
  bs_InstrumentID :: ID
  bs_BaseAssetCode :: Code
  bs_QuoteAssetCode :: "Code option"
  bs_QuoteCurrency :: string
  bs_ProviderID :: ID
  bs_ProviderInstrumentID :: ID
  bs_ProviderInstrumentCode :: Code
  bs_ProviderSymbol :: string
  bs_Capabilities :: ProviderCapabilities

record BarReadFilter =
  brf_InstrumentID :: ID
  brf_ProviderInstrumentID :: ID
  brf_Interval :: BarInterval
  brf_Range :: TimeRange
  brf_Order :: string
  brf_CursorOpenTime :: "UTCInstant option"
  brf_Limit :: int

text \<open>The ports \<^verbatim>\<open>BarCatalog\<close> and \<^verbatim>\<open>BarReader\<close>; each is called at most once by a query.\<close>

record BarPorts =
  bp_FindInstrumentByCode :: "string \<Rightarrow> Instrument result"
  bp_FindProviderByCode :: "string \<Rightarrow> Provider result"
  bp_ResolveBarSource :: "BarSourceFilter \<Rightarrow> BarSourceRecord result"
  bp_ListBars :: "BarReadFilter \<Rightarrow> Bar list result"

record BarsResult =
  brs_Instrument :: Instrument
  brs_Provider :: Provider
  brs_Source :: BarSourceRecord
  brs_Interval :: BarInterval
  brs_Order :: string
  brs_Bars :: "Bar list"
  brs_NextCursorOpenTime :: "UTCInstant option"

record parsedBarsInput =
  pb_instrumentCode :: Code
  pb_providerCode :: Code
  pb_interval :: BarInterval
  pb_timeRange :: TimeRange
  pb_order :: string
  pb_cursorOpenTime :: "UTCInstant option"

definition bars_order :: "BarsInput \<Rightarrow> string" where
  "bars_order input = (if bi_Order input = [] then ''desc'' else bi_Order input)"

definition bars_violations :: "BarsInput \<Rightarrow> FieldViolation list" where
  "bars_violations input =
     violation (err_of (ParseCode (bi_InstrumentCode input)) \<noteq> None \<or> \<not> HasPrefix (bi_InstrumentCode input) ''instrument.'')
       ''instrument_code'' ''must be a valid instrument code''
     @ violation (err_of (ParseCode (bi_ProviderCode input)) \<noteq> None) ''provider'' ''must be a valid provider code''
     @ violation (err_of (ParseBarInterval (bi_Interval input)) \<noteq> None) ''interval'' ''must be a supported interval value''
     @ violation (bars_order input \<noteq> ''asc'' \<and> bars_order input \<noteq> ''desc'') ''order'' ''must be asc or desc''
     @ violation (bi_Limit input \<le> 0 \<or> bi_Limit input > MaximumBarsPageSize) ''limit''
         ''must be an integer between 1 and 1000''"

definition parse_bars_cursor :: "TimeRange \<Rightarrow> time option \<Rightarrow> UTCInstant option answer" where
  "parse_bars_cursor timeRange cursor =
     (case cursor of
        None \<Rightarrow> Inr None
      | Some c \<Rightarrow>
          (case NewUTCInstant c of
             Inl e \<Rightarrow> Inl (refused ''cursor'' ''contains a position outside the requested time range'')
           | Inr parsed \<Rightarrow>
               if \<not> TimeRange_Contains timeRange parsed
               then Inl (refused ''cursor'' ''contains a position outside the requested time range'')
               else Inr (Some parsed)))"

definition parseBarsInput :: "BarsInput \<Rightarrow> parsedBarsInput answer" where
  "parseBarsInput input =
     (if bars_violations input \<noteq> [] then Inl (App (ValidationError (bars_violations input)))
      else answered (\<lambda>e. App (WrapError e ''INVALID_TIME_RANGE'' ''start_time must be before end_time'' False []))
        (NewTimeRange (bi_StartTime input) (bi_EndTime input)) (\<lambda>timeRange.
        bind_answer (parse_bars_cursor timeRange (bi_CursorOpenTime input)) (\<lambda>cursor.
          Inr \<lparr>pb_instrumentCode = bi_InstrumentCode input, pb_providerCode = bi_ProviderCode input,
            pb_interval = bi_Interval input, pb_timeRange = timeRange, pb_order = bars_order input,
            pb_cursorOpenTime = cursor\<rparr>)))"

definition validateBarSource :: "BarSourceRecord \<Rightarrow> ID \<Rightarrow> ID \<Rightarrow> error option" where
  "validateBarSource source instrumentID providerID = first_error
     [guard (bs_InstrumentID source \<noteq> instrumentID \<or> bs_ProviderID source \<noteq> providerID
        \<or> ID_IsZero (bs_ProviderInstrumentID source) \<or> \<not> HasPrefix (bs_BaseAssetCode source) ''asset.''
        \<or> \<not> HasPrefix (bs_ProviderInstrumentCode source) ''provider.''
        \<or> TrimSpace (bs_ProviderSymbol source) = [] \<or> TrimSpace (bs_QuoteCurrency source) = []) ErrInvalidData,
      guard (\<not> opt_all (\<lambda>c. HasPrefix c ''asset.'') (bs_QuoteAssetCode source)) ErrInvalidData,
      ProviderCapabilities_Validate (bs_Capabilities source)]"

definition in_bar_order :: "string \<Rightarrow> time \<Rightarrow> time \<Rightarrow> bool" where
  "in_bar_order order earlier later \<longleftrightarrow> (if order = ''asc'' then earlier < later else earlier > later)"

fun bar_page_loop :: "BarReadFilter \<Rightarrow> time option \<Rightarrow> Bar list \<Rightarrow> error option" where
  "bar_page_loop flt previous [] = None"
| "bar_page_loop flt previous (b # bs) = first_error
     [err_of (NewStoredBar b),
      guard (bar_InstrumentID b \<noteq> brf_InstrumentID flt \<or> bar_ProviderInstrumentID b \<noteq> brf_ProviderInstrumentID flt
        \<or> bar_Interval b \<noteq> brf_Interval flt \<or> \<not> TimeRange_Contains (brf_Range flt) (bar_OpenTime b)) ErrInvalidData,
      guard (\<not> opt_all (\<lambda>c. in_bar_order (brf_Order flt) c (bar_OpenTime b)) (brf_CursorOpenTime flt)) ErrInvalidData,
      guard (\<not> opt_all (\<lambda>p. in_bar_order (brf_Order flt) p (bar_OpenTime b)) previous) ErrInvalidData,
      bar_page_loop flt (Some (bar_OpenTime b)) bs]"

definition validateBarPage :: "Bar list \<Rightarrow> BarReadFilter \<Rightarrow> error option" where
  "validateBarPage bars flt = bar_page_loop flt None bars"

definition supportsBarInterval :: "BarInterval list \<Rightarrow> BarInterval \<Rightarrow> bool" where
  "supportsBarInterval intervals target \<longleftrightarrow> target \<in> set intervals"

definition unavailableBarSource :: failure where
  "unavailableBarSource = refused ''provider'' ''is not currently available for instrument_code''"

definition classifyBarQueryFailure :: "error \<Rightarrow> failure" where
  "classifyBarQueryFailure = classifyLatestQuoteFailure"

definition bars_filter :: "parsedBarsInput \<Rightarrow> ID \<Rightarrow> ID \<Rightarrow> int \<Rightarrow> BarReadFilter" where
  "bars_filter parsed instrumentID mappingID limit =
     \<lparr>brf_InstrumentID = instrumentID, brf_ProviderInstrumentID = mappingID, brf_Interval = pb_interval parsed,
      brf_Range = pb_timeRange parsed, brf_Order = pb_order parsed, brf_CursorOpenTime = pb_cursorOpenTime parsed,
      brf_Limit = limit\<rparr>"

text \<open>The source of a query: exactly one mapping of the instrument at the provider.\<close>

definition bars_source :: "BarPorts \<Rightarrow> time \<Rightarrow> parsedBarsInput \<Rightarrow> (Instrument \<times> Provider \<times> BarSourceRecord) answer" where
  "bars_source ports now parsed =
     answered (mapCatalogQueryError ''INSTRUMENT_NOT_FOUND'' ''instrument not found'')
       (bp_FindInstrumentByCode ports (pb_instrumentCode parsed)) (\<lambda>instrument.
     refusing (failing (inst_Code instrument \<noteq> pb_instrumentCode parsed) (classifyBarQueryFailure ErrInvalidData))
     (answered (\<lambda>e. if errors_Is e ErrNotFound then refused ''provider'' ''does not identify a known provider''
           else classifyBarQueryFailure e)
       (bp_FindProviderByCode ports (pb_providerCode parsed)) (\<lambda>provider.
     refusing (failing (prov_Code provider \<noteq> pb_providerCode parsed) (classifyBarQueryFailure ErrInvalidData))
     (refusing (failing (inst_Status instrument \<noteq> ''active''
          \<or> \<not> effectiveAtWithin now (inst_ValidFrom instrument) (inst_ValidTo instrument)
          \<or> prov_Status provider = ''disabled'') unavailableBarSource)
     (answered (\<lambda>e. if errors_Is e ErrNotFound then unavailableBarSource else classifyBarQueryFailure e)
       (bp_ResolveBarSource ports \<lparr>bsf_InstrumentID = inst_ID instrument, bsf_ProviderID = prov_ID provider,
          bsf_EffectiveAt = now\<rparr>) (\<lambda>source.
     refusing (map_option classifyBarQueryFailure (validateBarSource source (inst_ID instrument) (prov_ID provider)))
     (refusing (failing (\<not> cap_Historical (bs_Capabilities source)
          \<or> \<not> supportsBarInterval (cap_Intervals (bs_Capabilities source)) (pb_interval parsed))
        (App (NewError ''UNSUPPORTED_INTERVAL'' ''provider does not support the requested interval'' False
           [(''interval'', DetailText (pb_interval parsed))])))
     (Inr (instrument, provider, source)))))))))"

definition Bars_List :: "BarPorts \<Rightarrow> time \<Rightarrow> BarsInput \<Rightarrow> BarsResult answer" where
  "Bars_List ports now input =
     bind_answer (parseBarsInput input) (\<lambda>parsed.
     bind_answer (bars_source ports now parsed) (\<lambda>(instrument, provider, source).
       let flt = bars_filter parsed (inst_ID instrument) (bs_ProviderInstrumentID source) (bi_Limit input + 1) in
       answered classifyBarQueryFailure (bp_ListBars ports flt) (\<lambda>bars.
       refusing (map_option classifyBarQueryFailure (validateBarPage bars flt))
       (let cut = cut_page bar_OpenTime (nat (bi_Limit input)) bars in
         Inr \<lparr>brs_Instrument = instrument, brs_Provider = provider, brs_Source = source,
           brs_Interval = pb_interval parsed, brs_Order = pb_order parsed, brs_Bars = fst cut,
           brs_NextCursorOpenTime = snd cut\<rparr>))))"

subsection \<open>The PostgreSQL reader (bar_query.go)\<close>

record bar_source_row =
  bsr_Row :: mapping_row
  bsr_Base :: Asset
  bsr_Quote :: "Asset option"

definition bar_source_rows :: "DB \<Rightarrow> bar_source_row list" where
  "bar_source_rows s = [\<lparr>bsr_Row = r, bsr_Base = a,
       bsr_Quote = Option.bind (inst_QuoteAssetID (mr_Instrument r)) (\<lambda>q. find (\<lambda>x. asset_ID x = q) (db_assets s))\<rparr>.
     r \<leftarrow> mapping_rows s, a \<leftarrow> db_assets s, asset_ID a = inst_AssetID (mr_Instrument r)]"

definition bar_source_query :: "BarSourceFilter \<Rightarrow> DB \<Rightarrow> driver_error + bar_source_row" where
  "bar_source_query flt s = (let t = timestamptz (bsf_EffectiveAt flt) in
     first_row (order_by (\<lambda>a b. row_first (bsr_Row a) (bsr_Row b))
       [x \<leftarrow> bar_source_rows s. inst_ID (mr_Instrument (bsr_Row x)) = bsf_InstrumentID flt
          \<and> prov_ID (mr_Provider (bsr_Row x)) = bsf_ProviderID flt
          \<and> instrument_on (mr_Instrument (bsr_Row x)) t \<and> asset_Status (bsr_Base x) = ''active''
          \<and> mapping_on (bsr_Row x) t]))"

definition optional_code :: "string option \<Rightarrow> Code option result" where
  "optional_code text = (case text of None \<Rightarrow> Inr None | Some c \<Rightarrow> bind_result (ParseCode c) (\<lambda>parsed. Inr (Some parsed)))"

definition scanBarSource :: "bar_source_row \<Rightarrow> BarSourceRecord result" where
  "scanBarSource x = (let r = bsr_Row x; m = mr_Mapping r in
     bind_result (ParseCode (asset_Code (bsr_Base x))) (\<lambda>baseAssetCode.
     bind_result (ParseCode (pi_Code m)) (\<lambda>mappingCode.
     bind_result (optional_code (map_option asset_Code (bsr_Quote x))) (\<lambda>quoteAssetCode.
       Inr \<lparr>bs_InstrumentID = inst_ID (mr_Instrument r), bs_BaseAssetCode = baseAssetCode, bs_QuoteAssetCode = quoteAssetCode,
         bs_QuoteCurrency = inst_QuoteCurrency (mr_Instrument r), bs_ProviderID = prov_ID (mr_Provider r),
         bs_ProviderInstrumentID = pi_ID m, bs_ProviderInstrumentCode = mappingCode,
         bs_ProviderSymbol = pi_ExternalSymbol m, bs_Capabilities = pi_Capabilities m\<rparr>))))"

definition ResolveBarSource :: "faults \<Rightarrow> BarSourceFilter \<Rightarrow> DB \<Rightarrow> BarSourceRecord result" where
  "ResolveBarSource f flt s = checked
     (guard (ID_IsZero (bsf_InstrumentID flt) \<or> ID_IsZero (bsf_ProviderID flt) \<or> IsZero (bsf_EffectiveAt flt)) ErrInvalidData)
     (load_row f 0 (bar_source_query flt) scanBarSource s)"

definition validateBarReadFilter :: "BarReadFilter \<Rightarrow> error option" where
  "validateBarReadFilter flt = first_error
     [guard (ID_IsZero (brf_InstrumentID flt) \<or> ID_IsZero (brf_ProviderInstrumentID flt) \<or> brf_Limit flt \<le> 0
        \<or> brf_Limit flt > MaximumBarsPageSize + 1) ErrInvalidData,
      err_of (ParseBarInterval (brf_Interval flt)),
      TimeRange_Validate (brf_Range flt),
      guard (brf_Order flt \<noteq> ''asc'' \<and> brf_Order flt \<noteq> ''desc'') ErrInvalidData,
      guard (\<not> opt_all (\<lambda>t. \<not> IsZero t) (brf_CursorOpenTime flt)) ErrInvalidData]"

text \<open>The current bars of a source in a range; the \<^verbatim>\<open>ORDER BY\<close>.\<close>

definition bars_in_range :: "BarReadFilter \<Rightarrow> DB \<Rightarrow> Bar list" where
  "bars_in_range flt s =
     [b \<leftarrow> db_bars s. bar_InstrumentID b = brf_InstrumentID flt \<and> bar_ProviderInstrumentID b = brf_ProviderInstrumentID flt
        \<and> bar_Interval b = brf_Interval flt \<and> bar_IsCurrent b
        \<and> opt_all (\<lambda>t. bar_OpenTime b \<ge> timestamptz t) (tr_Start (brf_Range flt))
        \<and> opt_all (\<lambda>t. bar_OpenTime b < timestamptz t) (tr_End (brf_Range flt))]"

definition sorted_bars :: "string \<Rightarrow> Bar list \<Rightarrow> Bar list" where
  "sorted_bars order = sort_key (\<lambda>b. if order = ''asc'' then bar_OpenTime b else - bar_OpenTime b)"

definition bars_query :: "BarReadFilter \<Rightarrow> DB \<Rightarrow> Bar list" where
  "bars_query flt s = take (nat (brf_Limit flt)) (sorted_bars (brf_Order flt)
     [b \<leftarrow> bars_in_range flt s.
        opt_all (\<lambda>c. in_bar_order (brf_Order flt) (timestamptz c) (bar_OpenTime b)) (brf_CursorOpenTime flt)])"

definition ListBars :: "faults \<Rightarrow> BarReadFilter \<Rightarrow> DB \<Rightarrow> Bar list result" where
  "ListBars f flt s = checked (validateBarReadFilter flt) (query_rows f scanMarketBar (bars_query flt s))"

text \<open>The repositories as the ports of a query: its k-th call meets the faults \<open>f k\<close> and the database \<open>s k\<close>.\<close>

definition postgres_bars :: "platform \<Rightarrow> (nat \<Rightarrow> faults) \<Rightarrow> (nat \<Rightarrow> DB) \<Rightarrow> BarPorts" where
  "postgres_bars pf f s =
     \<lparr>bp_FindInstrumentByCode = (\<lambda>code. FindInstrumentByCode pf (f 0) code (s 0)),
      bp_FindProviderByCode = (\<lambda>code. FindProviderByCode (f 1) code (s 1)),
      bp_ResolveBarSource = (\<lambda>flt. ResolveBarSource (f 2) flt (s 2)),
      bp_ListBars = (\<lambda>flt. ListBars (f 3) flt (s 3))\<rparr>"

subsection \<open>Pages are complete\<close>

lemma history_one_current:
  assumes "history_ok h" shows "length (filter bar_IsCurrent h) \<le> 1"
proof (cases h rule: rev_cases)
  case (snoc hs x)
  have "\<not> bar_IsCurrent (h ! i)" if "i < length hs" for i
    using assms snoc that by (auto simp: history_ok_def)
  then have "filter bar_IsCurrent hs = []"
    using snoc by (auto simp: filter_empty_conv in_set_conv_nth nth_append)
  then show ?thesis using snoc by simp
qed simp

lemma distinct_map_filter:
  assumes "\<And>k. length (filter (\<lambda>x. P x \<and> f x = k) xs) \<le> 1" shows "distinct (map f (filter P xs))"
  using assms
proof (induction xs)
  case (Cons x xs)
  have step: "length (filter (\<lambda>y. P y \<and> f y = k) xs) \<le> 1" for k
    using Cons.prems [of k] by (auto split: if_splits)
  show ?case
  proof (cases "P x")
    case True
    have "filter (\<lambda>y. P y \<and> f y = f x) xs = []" using Cons.prems [of "f x"] True by simp
    then have "f x \<notin> f ` set (filter P xs)" by (auto simp: filter_empty_conv)
    then show ?thesis using True Cons.IH [OF step] by simp
  qed (use Cons.IH [OF step] in simp)
qed simp

lemma bars_in_range_distinct:
  assumes "bars_ok s" shows "distinct (map bar_OpenTime (bars_in_range flt s))"
  unfolding bars_in_range_def
proof (rule distinct_map_filter)
  fix t
  let ?P = "\<lambda>b. bar_InstrumentID b = brf_InstrumentID flt \<and> bar_ProviderInstrumentID b = brf_ProviderInstrumentID flt
        \<and> bar_Interval b = brf_Interval flt \<and> bar_IsCurrent b
        \<and> opt_all (\<lambda>t. bar_OpenTime b \<ge> timestamptz t) (tr_Start (brf_Range flt))
        \<and> opt_all (\<lambda>t. bar_OpenTime b < timestamptz t) (tr_End (brf_Range flt))"
  show "length (filter (\<lambda>b. ?P b \<and> bar_OpenTime b = t) (db_bars s)) \<le> 1"
  proof (cases "filter (\<lambda>b. ?P b \<and> bar_OpenTime b = t) (db_bars s)")
    case (Cons k ks)
    then have "k \<in> set (filter (\<lambda>b. ?P b \<and> bar_OpenTime b = t) (db_bars s))" by simp
    then have k: "?P k" "bar_OpenTime k = t" by auto
    have "filter (\<lambda>b. ?P b \<and> bar_OpenTime b = t) (db_bars s)
        = filter (\<lambda>b. ?P b \<and> bar_OpenTime b = t) (filter bar_IsCurrent (history k s))"
      unfolding history_def filter_filter using k by (intro filter_cong) (auto simp: same_bar_def)
    then have "length (filter (\<lambda>b. ?P b \<and> bar_OpenTime b = t) (db_bars s)) \<le> length (filter bar_IsCurrent (history k s))"
      by (simp only: length_filter_le)
    also have "\<dots> \<le> 1" using history_one_current assms by (auto simp: bars_ok_def)
    finally show ?thesis .
  qed simp
qed

text \<open>Every stored bar can be read back, and opens on a whole microsecond.\<close>

definition bars_readable :: "DB \<Rightarrow> bool" where
  "bars_readable s \<longleftrightarrow> (\<forall>b \<in> set (db_bars s). scanMarketBar b = Inr b \<and> 1000 dvd bar_OpenTime b)"

lemma scan_rows_id: "\<forall>b \<in> set bs. scan b = Inr b \<Longrightarrow> scan_rows scan bs = Inr bs"
  by (induction bs) auto

lemma scanMarketBar_stored:
  assumes "scanMarketBar b = Inr b" shows "NewStoredBar b = Inr b" "bar_OpenTime b \<noteq> 0"
proof -
  from assms obtain x where "NewStoredBar x = Inr b"
    unfolding scanMarketBar_def bind_result_Inr_iff by blast
  then have x: "NewBar x = Inr b" "\<not> bar_Revision b \<le> 0"
    unfolding NewStoredBar_def bind_result_Inr_iff by (auto split: if_splits)
  show "NewStoredBar b = Inr b" using NewBar_idem [OF x(1)] x(2) by (simp add: NewStoredBar_def)
  have "Bar_Validate b = None" using x(1) unfolding NewBar_Inr_iff by blast
  from Bar_valid_times(2) [OF this] show "bar_OpenTime b \<noteq> 0" by (simp add: IsZero_def)
qed

lemma in_bar_order_strict: "transp (in_bar_order order)" "irreflp (in_bar_order order)"
  by (auto simp: in_bar_order_def transp_def irreflp_def)

lemma sorted_bars_strict:
  assumes "distinct (map bar_OpenTime bs)"
  shows "sorted_wrt (\<lambda>a b. in_bar_order order (bar_OpenTime a) (bar_OpenTime b)) (sorted_bars order bs)"
proof -
  let ?f = "\<lambda>b. if order = ''asc'' then bar_OpenTime b else - bar_OpenTime b"
  have "sorted (map ?f (sorted_bars order bs))" by (simp add: sorted_bars_def)
  moreover have "distinct (map ?f bs)"
    using assms by (auto simp: distinct_map inj_on_def)
  then have "distinct (map ?f (sorted_bars order bs))"
    by (simp add: sorted_bars_def distinct_map)
  ultimately have "sorted_wrt (<) (map ?f (sorted_bars order bs))"
    by (simp add: strict_sorted_iff)
  then show ?thesis by (auto simp: sorted_wrt_map in_bar_order_def elim!: sorted_wrt_mono_rel [rotated])
qed

lemma set_sorted_bars [simp]: "set (sorted_bars order bs) = set bs"
  by (simp add: sorted_bars_def)

text \<open>
  The circumstances of a walk through the pages: imported packages, the stored data, the time, and the
  request, whose cursor is what changes from page to page.
\<close>

type_synonym bars_walk = "platform \<times> DB \<times> time \<times> BarsInput"

definition quiet_ports :: "platform \<Rightarrow> DB \<Rightarrow> BarPorts" where
  "quiet_ports pf s = postgres_bars pf (\<lambda>_. no_faults) (\<lambda>_. s)"

definition bars_page :: "bars_walk \<Rightarrow> time option \<Rightarrow> (Bar list \<times> time option) answer" where
  "bars_page x cursor = (case x of (pf, s, now, input) \<Rightarrow>
     map_sum id (\<lambda>r. (brs_Bars r, brs_NextCursorOpenTime r))
       (Bars_List (quiet_ports pf s) now (input\<lparr>bi_CursorOpenTime := cursor\<rparr>)))"

text \<open>All current bars of the answered source in the requested range, in the requested order.\<close>

definition bars_of_source :: "BarsInput \<Rightarrow> BarsResult \<Rightarrow> DB \<Rightarrow> Bar list" where
  "bars_of_source input r s = sorted_bars (bars_order input) (bars_in_range
     \<lparr>brf_InstrumentID = inst_ID (brs_Instrument r), brf_ProviderInstrumentID = bs_ProviderInstrumentID (brs_Source r),
      brf_Interval = bi_Interval input, brf_Range = \<lparr>tr_Start = bi_StartTime input, tr_End = bi_EndTime input\<rparr>,
      brf_Order = bars_order input, brf_CursorOpenTime = None, brf_Limit = bi_Limit input + 1\<rparr> s)"

definition bars_first :: "bars_walk \<Rightarrow> BarsResult answer" where
  "bars_first x = (case x of (pf, s, now, input) \<Rightarrow> Bars_List (quiet_ports pf s) now (input\<lparr>bi_CursorOpenTime := None\<rparr>))"

definition bars_walk_ok :: "bars_walk \<Rightarrow> bool" where
  "bars_walk_ok x \<longleftrightarrow> (case x of (pf, s, now, input) \<Rightarrow> (\<exists>r. bars_first x = Inr r) \<and> bars_ok s \<and> bars_readable s
     \<and> opt_all ((dvd) 1000) (bi_StartTime input) \<and> opt_all ((dvd) 1000) (bi_EndTime input))"

definition bars_walk_rows :: "bars_walk \<Rightarrow> Bar list" where
  "bars_walk_rows x = (case x of (pf, s, now, input) \<Rightarrow> (case bars_first x of Inr r \<Rightarrow> bars_of_source input r s | Inl _ \<Rightarrow> []))"

lemma bars_violations_cursor [simp]: "bars_violations (input\<lparr>bi_CursorOpenTime := c\<rparr>) = bars_violations input"
  "bars_order (input\<lparr>bi_CursorOpenTime := c\<rparr>) = bars_order input"
  by (simp_all add: bars_violations_def bars_order_def)

lemma optional_instant_Inr: "optional_instant t = Inr v \<Longrightarrow> v = t"
  by (auto simp: optional_instant_def NewUTCInstant_def bind_result_def split: option.splits if_splits)

lemma NewTimeRange_Inr: "NewTimeRange a b = Inr r \<Longrightarrow> r = \<lparr>tr_Start = a, tr_End = b\<rparr> \<and> TimeRange_Validate r = None"
  by (auto simp: NewTimeRange_def bind_result_Inr_iff checked_Inr_iff Let_def dest!: optional_instant_Inr)

lemma parseBarsInput_Inr:
  assumes "parseBarsInput (input\<lparr>bi_CursorOpenTime := None\<rparr>) = Inr p"
  shows "p = \<lparr>pb_instrumentCode = bi_InstrumentCode input, pb_providerCode = bi_ProviderCode input,
        pb_interval = bi_Interval input, pb_timeRange = \<lparr>tr_Start = bi_StartTime input, tr_End = bi_EndTime input\<rparr>,
        pb_order = bars_order input, pb_cursorOpenTime = None\<rparr>"
    and "bars_violations input = []" and "TimeRange_Validate (pb_timeRange p) = None"
  using assms by (auto simp: parseBarsInput_def parse_bars_cursor_def answered_Inr_iff dest!: NewTimeRange_Inr split: if_splits)

lemma parseBarsInput_cursor:
  assumes "parseBarsInput (input\<lparr>bi_CursorOpenTime := None\<rparr>) = Inr p" "c \<noteq> 0" "TimeRange_Contains (pb_timeRange p) c"
  shows "parseBarsInput (input\<lparr>bi_CursorOpenTime := Some c\<rparr>) = Inr (p\<lparr>pb_cursorOpenTime := Some c\<rparr>)"
  using assms by (auto simp: parseBarsInput_def parse_bars_cursor_def answered_Inr_iff NewUTCInstant_def IsZero_def split: if_splits)

lemma bars_source_cursor [simp]: "bars_source ports now (p\<lparr>pb_cursorOpenTime := c\<rparr>) = bars_source ports now p"
  by (simp add: bars_source_def)

lemma bar_page_loop_None:
  assumes "\<forall>b \<in> set bs. NewStoredBar b = Inr b \<and> bar_InstrumentID b = brf_InstrumentID flt
      \<and> bar_ProviderInstrumentID b = brf_ProviderInstrumentID flt \<and> bar_Interval b = brf_Interval flt
      \<and> TimeRange_Contains (brf_Range flt) (bar_OpenTime b)
      \<and> opt_all (\<lambda>c. in_bar_order (brf_Order flt) c (bar_OpenTime b)) (brf_CursorOpenTime flt)"
    and "sorted_wrt (\<lambda>a b. in_bar_order (brf_Order flt) (bar_OpenTime a) (bar_OpenTime b)) bs"
    and "\<forall>b \<in> set bs. opt_all (\<lambda>p. in_bar_order (brf_Order flt) p (bar_OpenTime b)) previous"
  shows "bar_page_loop flt previous bs = None"
  using assms
proof (induction flt previous bs rule: bar_page_loop.induct)
  case (2 flt previous b bs)
  have "bar_page_loop flt (Some (bar_OpenTime b)) bs = None"
    by (rule "2.IH") (use "2.prems" in \<open>auto simp: opt_all_def\<close>)
  then show ?case using "2.prems" by simp
qed simp

lemma Bars_List_Inr:
  assumes "Bars_List ports now input = Inr r"
  shows "\<exists>p pr bars. parseBarsInput input = Inr p
    \<and> bars_source ports now p = Inr (brs_Instrument r, pr, brs_Source r)
    \<and> bp_ListBars ports (bars_filter p (inst_ID (brs_Instrument r)) (bs_ProviderInstrumentID (brs_Source r)) (bi_Limit input + 1)) = Inr bars"
  using assms by (auto simp: Bars_List_def bind_answer_Inr_iff answered_Inr_iff refusing_Inr_iff Let_def)

lemma bars_query_rows:
  assumes "opt_all ((dvd) 1000) (brf_CursorOpenTime flt)"
  shows "bars_query flt s = take (nat (brf_Limit flt)) (after_key (in_bar_order (brf_Order flt)) bar_OpenTime (brf_CursorOpenTime flt)
    (sorted_bars (brf_Order flt) (bars_in_range flt s)))"
proof (cases "brf_CursorOpenTime flt")
  case (Some c)
  then have "timestamptz c = c" using assms by (simp add: opt_all_def timestamptz_id)
  with Some show ?thesis by (simp add: bars_query_def after_key_def sorted_bars_def filter_sort opt_all_def)
qed (simp add: bars_query_def after_key_def opt_all_def)

lemma readable_rows:
  assumes "bars_readable s" "b \<in> set (bars_in_range flt s)"
  shows "scanMarketBar b = Inr b" "NewStoredBar b = Inr b" "bar_OpenTime b \<noteq> 0" "1000 dvd bar_OpenTime b"
  using assms scanMarketBar_stored by (auto simp: bars_readable_def bars_in_range_def)

lemma bars_in_range_contains:
  assumes "bars_readable s" "b \<in> set (bars_in_range flt s)" "TimeRange_Validate (brf_Range flt) = None"
    and "opt_all ((dvd) 1000) (tr_Start (brf_Range flt))" "opt_all ((dvd) 1000) (tr_End (brf_Range flt))"
  shows "TimeRange_Contains (brf_Range flt) (bar_OpenTime b)"
proof -
  have "bar_OpenTime b \<noteq> 0" using readable_rows [OF assms(1,2)] by simp
  then show ?thesis
    using assms(2-5) by (auto simp: TimeRange_Contains_def IsZero_def bars_in_range_def opt_all_def timestamptz_id split: option.splits)
qed

text \<open>The reader's page passes the checks of the service.\<close>

lemma validateBarPage_query:
  assumes "bars_ok s" "bars_readable s" "TimeRange_Validate (brf_Range flt) = None"
    and "opt_all ((dvd) 1000) (tr_Start (brf_Range flt))" "opt_all ((dvd) 1000) (tr_End (brf_Range flt))"
    and "opt_all ((dvd) 1000) (brf_CursorOpenTime flt)"
  shows "validateBarPage (bars_query flt s) flt = None"
proof -
  let ?rows = "sorted_bars (brf_Order flt) (bars_in_range flt s)"
  let ?page = "after_key (in_bar_order (brf_Order flt)) bar_OpenTime (brf_CursorOpenTime flt) ?rows"
  have sorted: "sorted_wrt (\<lambda>a b. in_bar_order (brf_Order flt) (bar_OpenTime a) (bar_OpenTime b)) ?page"
    using sorted_bars_strict [OF bars_in_range_distinct [OF assms(1)], of "brf_Order flt" flt]
    by (auto simp: after_key_def sorted_wrt_filter split: option.splits)
  have mem: "b \<in> set (bars_in_range flt s)
      \<and> opt_all (\<lambda>c. in_bar_order (brf_Order flt) c (bar_OpenTime b)) (brf_CursorOpenTime flt)" if "b \<in> set ?page" for b
    using that by (auto simp: after_key_def opt_all_def split: option.splits)
  have ok: "NewStoredBar b = Inr b \<and> bar_InstrumentID b = brf_InstrumentID flt
      \<and> bar_ProviderInstrumentID b = brf_ProviderInstrumentID flt \<and> bar_Interval b = brf_Interval flt
      \<and> TimeRange_Contains (brf_Range flt) (bar_OpenTime b)
      \<and> opt_all (\<lambda>c. in_bar_order (brf_Order flt) c (bar_OpenTime b)) (brf_CursorOpenTime flt)" if "b \<in> set ?page" for b
    using mem [OF that] readable_rows(2) [OF assms(2)] bars_in_range_contains [OF assms(2) _ assms(3-5)]
    by (auto simp: bars_in_range_def)
  show ?thesis
    unfolding validateBarPage_def bars_query_rows [OF assms(6)]
  proof (rule bar_page_loop_None)
    show "sorted_wrt (\<lambda>a b. in_bar_order (brf_Order flt) (bar_OpenTime a) (bar_OpenTime b)) (take (nat (brf_Limit flt)) ?page)"
      using sorted by (rule sorted_wrt_take)
  qed (use ok in \<open>auto simp: opt_all_def dest: in_set_takeD\<close>)
qed

lemma ListBars_query:
  assumes "ListBars f (flt\<lparr>brf_CursorOpenTime := None\<rparr>) s0 = Inr bars" "bars_readable s"
    and "opt_all (\<lambda>t. \<not> IsZero t) cursor"
  shows "ListBars no_faults (flt\<lparr>brf_CursorOpenTime := cursor\<rparr>) s = Inr (bars_query (flt\<lparr>brf_CursorOpenTime := cursor\<rparr>) s)"
    "TimeRange_Validate (brf_Range flt) = None"
proof -
  have valid: "validateBarReadFilter (flt\<lparr>brf_CursorOpenTime := None\<rparr>) = None"
    using assms(1) by (auto simp: ListBars_def checked_Inr_iff)
  then show "TimeRange_Validate (brf_Range flt) = None" by (simp add: validateBarReadFilter_def)
  have "\<forall>b \<in> set (bars_query (flt\<lparr>brf_CursorOpenTime := cursor\<rparr>) s). scanMarketBar b = Inr b"
    using readable_rows(1) [OF assms(2)] by (auto simp: bars_query_def dest!: in_set_takeD)
  moreover have "validateBarReadFilter (flt\<lparr>brf_CursorOpenTime := cursor\<rparr>) = None"
    using valid assms(3) by (simp add: validateBarReadFilter_def opt_all_def split: option.splits)
  ultimately show "ListBars no_faults (flt\<lparr>brf_CursorOpenTime := cursor\<rparr>) s = Inr (bars_query (flt\<lparr>brf_CursorOpenTime := cursor\<rparr>) s)"
    by (simp add: ListBars_def query_rows_def no_faults_def scan_rows_id)
qed

lemma Bars_List_page:
  assumes first: "Bars_List (quiet_ports pf s) now (input\<lparr>bi_CursorOpenTime := None\<rparr>) = Inr r"
    and s: "bars_ok s" "bars_readable s"
    and whole: "opt_all ((dvd) 1000) (bi_StartTime input)" "opt_all ((dvd) 1000) (bi_EndTime input)"
    and cursor: "cursor = None \<or> (\<exists>b \<in> set (bars_of_source input r s). cursor = Some (bar_OpenTime b))"
  shows "\<exists>r'. Bars_List (quiet_ports pf s) now (input\<lparr>bi_CursorOpenTime := cursor\<rparr>) = Inr r'
    \<and> (brs_Bars r', brs_NextCursorOpenTime r') = cut_page bar_OpenTime (nat (bi_Limit input))
        (after_key (in_bar_order (bars_order input)) bar_OpenTime cursor (bars_of_source input r s))
    \<and> 0 < bi_Limit input"
proof -
  from Bars_List_Inr [OF first] obtain p pr bars where
    p: "parseBarsInput (input\<lparr>bi_CursorOpenTime := None\<rparr>) = Inr p"
    and src: "bars_source (quiet_ports pf s) now p = Inr (brs_Instrument r, pr, brs_Source r)"
    and read: "bp_ListBars (quiet_ports pf s) (bars_filter p (inst_ID (brs_Instrument r))
      (bs_ProviderInstrumentID (brs_Source r)) (bi_Limit input + 1)) = Inr bars"
    by auto
  note parsed = parseBarsInput_Inr [OF p]
  have limit: "0 < bi_Limit input" using parsed(2) by (simp add: bars_violations_def)
  let ?flt = "bars_filter p (inst_ID (brs_Instrument r)) (bs_ProviderInstrumentID (brs_Source r)) (bi_Limit input + 1)"
  have flt: "?flt\<lparr>brf_CursorOpenTime := None\<rparr> = ?flt" by (simp add: bars_filter_def parsed(1))
  have rows: "bars_of_source input r s = sorted_bars (bars_order input) (bars_in_range ?flt s)"
    by (simp add: bars_of_source_def bars_filter_def parsed(1))
  have range: "brf_Range ?flt = \<lparr>tr_Start = bi_StartTime input, tr_End = bi_EndTime input\<rparr>" "brf_Order ?flt = bars_order input"
    "brf_Limit ?flt = bi_Limit input + 1" "brf_Range ?flt = pb_timeRange p"
    by (simp_all add: bars_filter_def parsed(1))
  have at: "c \<noteq> 0 \<and> 1000 dvd c \<and> TimeRange_Contains (pb_timeRange p) c" if "cursor = Some c" for c
  proof -
    from cursor that rows obtain b where b: "b \<in> set (bars_in_range ?flt s)" "c = bar_OpenTime b" by auto
    then show ?thesis
      using readable_rows [OF s(2) b(1)] bars_in_range_contains [OF s(2) b(1)] parsed(3) whole range by simp
  qed
  let ?p = "p\<lparr>pb_cursorOpenTime := cursor\<rparr>" and ?fc = "?flt\<lparr>brf_CursorOpenTime := cursor\<rparr>"
  have parse: "parseBarsInput (input\<lparr>bi_CursorOpenTime := cursor\<rparr>) = Inr ?p"
  proof (cases cursor)
    case None
    then show ?thesis using p by (simp add: parsed(1))
  next
    case (Some c)
    then show ?thesis using parseBarsInput_cursor [OF p] at [OF Some] by simp
  qed
  have fc: "bars_filter ?p (inst_ID (brs_Instrument r)) (bs_ProviderInstrumentID (brs_Source r)) (bi_Limit input + 1) = ?fc"
    by (simp add: bars_filter_def)
  have cursor_ok: "opt_all (\<lambda>t. \<not> IsZero t) cursor" "opt_all ((dvd) 1000) cursor"
    using at by (auto simp: opt_all_def IsZero_def split: option.splits)
  have list: "bp_ListBars (quiet_ports pf s) ?fc = Inr (bars_query ?fc s)" and valid: "TimeRange_Validate (brf_Range ?flt) = None"
    using ListBars_query [OF _ s(2) cursor_ok(1), of no_faults ?flt s bars] read flt
    by (simp_all add: quiet_ports_def postgres_bars_def)
  have page: "validateBarPage (bars_query ?fc s) ?fc = None"
    using validateBarPage_query [OF s, of ?fc] valid whole range cursor_ok by simp
  have "bars_query ?fc s = take (Suc (nat (bi_Limit input)))
      (after_key (in_bar_order (bars_order input)) bar_OpenTime cursor (bars_of_source input r s))"
  proof -
    have "bars_in_range ?fc s = bars_in_range ?flt s" by (simp add: bars_in_range_def)
    moreover have "nat (bi_Limit input + 1) = Suc (nat (bi_Limit input))" using limit by simp
    ultimately show ?thesis using bars_query_rows [of ?fc s] cursor_ok range by (simp add: rows)
  qed
  then show ?thesis
    using parse src fc list page limit
    by (simp add: Bars_List_def Let_def cut_page_more)
qed

interpretation bar_pages: keyset_pages bars_page bars_walk_ok bars_walk_rows bar_OpenTime
  "\<lambda>(pf, s, now, input). in_bar_order (bars_order input)" "\<lambda>(pf, s, now, input). nat (bi_Limit input)"
proof
  fix x :: bars_walk and cursor
  assume x: "bars_walk_ok x" and cursor: "cursor = None \<or> (\<exists>k \<in> bar_OpenTime ` set (bars_walk_rows x). cursor = Some k)"
  obtain pf s now input where [simp]: "x = (pf, s, now, input)" by (cases x)
  from x obtain r where r: "bars_first x = Inr r" by (auto simp: bars_walk_ok_def)
  then have rows: "bars_walk_rows x = bars_of_source input r s" by (simp add: bars_walk_rows_def)
  have c: "cursor = None \<or> (\<exists>b \<in> set (bars_of_source input r s). cursor = Some (bar_OpenTime b))"
    using cursor rows by auto
  have "Bars_List (quiet_ports pf s) now (input\<lparr>bi_CursorOpenTime := None\<rparr>) = Inr r" using r by (simp add: bars_first_def)
  from Bars_List_page [OF this _ _ _ _ c] x
  show "bars_page x cursor = Inr (cut_page bar_OpenTime ((\<lambda>(pf, s, now, input). nat (bi_Limit input)) x)
      (after_key ((\<lambda>(pf, s, now, input). in_bar_order (bars_order input)) x) bar_OpenTime cursor (bars_walk_rows x)))"
    unfolding rows by (force simp: bars_page_def bars_walk_ok_def)
next
  fix x assume x: "bars_walk_ok x"
  then show "sorted_wrt (\<lambda>a b. (\<lambda>(pf, s, now, input). in_bar_order (bars_order input)) x (bar_OpenTime a) (bar_OpenTime b)) (bars_walk_rows x)"
    by (auto simp: bars_walk_ok_def bars_walk_rows_def bars_of_source_def intro!: sorted_bars_strict bars_in_range_distinct)
  show "0 < (\<lambda>(pf, s, now, input). nat (bi_Limit input)) x"
    using x by (auto simp: bars_walk_ok_def bars_first_def bars_violations_def dest!: Bars_List_Inr parseBarsInput_Inr(2))
next
  fix x show "transp ((\<lambda>(pf, s, now, input). in_bar_order (bars_order input)) (x :: bars_walk))"
    and "irreflp ((\<lambda>(pf, s, now, input). in_bar_order (bars_order input)) (x :: bars_walk))"
    by (auto simp: in_bar_order_strict split: prod.splits)
qed

text \<open>
  C28. The pages of the bar query are complete: when the first page is answered, a client that follows the
  cursors over unchanged data gets every current bar of the answered source in the requested range exactly
  once, in the requested order, and then no more pages; the walk takes at most one page more than there are
  bars. The range has to be given in whole microseconds, the precision of the stored times.
\<close>
theorem bar_pages_complete:
  assumes "Bars_List (quiet_ports pf s) now (input\<lparr>bi_CursorOpenTime := None\<rparr>) = Inr r"
    and "bars_ok s" "bars_readable s"
    and "opt_all ((dvd) 1000) (bi_StartTime input)" "opt_all ((dvd) 1000) (bi_EndTime input)"
  shows "follow_pages (Suc (length (bars_of_source input r s))) (bars_page (pf, s, now, input)) None
      = Some (Inr (bars_of_source input r s))
    \<and> distinct (map bar_OpenTime (bars_of_source input r s))"
proof -
  have "bars_walk_ok (pf, s, now, input)" using assms by (auto simp: bars_walk_ok_def bars_first_def)
  from bar_pages.walk_complete [OF this] assms(1) show ?thesis
    using bars_in_range_distinct [OF assms(2)]
    by (simp add: bars_walk_rows_def bars_first_def bars_of_source_def distinct_map sorted_bars_def)
qed

subsection \<open>What is written can be read back\<close>

lemma round_numeric_nonneg: "0 \<le> x \<Longrightarrow> 0 \<le> round_numeric x"
  by (simp add: round_numeric_def divide_nonneg_pos)

lemma timestamptz_nonzero: "1000 \<le> t \<Longrightarrow> timestamptz t \<noteq> 0"
  by (simp add: timestamptz_def TimeToDatabase_def)

text \<open>The instants of a bar are not within the first microsecond of the year 1.\<close>

definition bar_times_storable :: "Bar \<Rightarrow> bool" where
  "bar_times_storable b \<longleftrightarrow> 1000 \<le> bar_OpenTime b \<and> 1000 \<le> bar_CloseTime b \<and> 1000 \<le> bar_CollectedAt b
     \<and> opt_all (\<lambda>t. 1000 \<le> t) (bar_ProviderUpdatedAt b)"

lemma stored_bar_valid:
  assumes "Bar_Validate b = None" "bar_times_storable b" and row: "x = marketBarArguments b" "bar_row_checks x = None"
  shows "Bar_Validate x = None"
proof -
  have x [simp]: "bar_InstrumentID x = bar_InstrumentID b" "bar_ProviderInstrumentID x = bar_ProviderInstrumentID b"
    "bar_Interval x = bar_Interval b" "bar_OpenTime x = timestamptz (bar_OpenTime b)"
    "bar_CloseTime x = timestamptz (bar_CloseTime b)" "bar_CollectedAt x = timestamptz (bar_CollectedAt b)"
    "bar_ProviderUpdatedAt x = optional_timestamptz (bar_ProviderUpdatedAt b)"
    "bar_OpenPrice x = round_numeric (bar_OpenPrice b)" "bar_HighPrice x = round_numeric (bar_HighPrice b)"
    "bar_LowPrice x = round_numeric (bar_LowPrice b)" "bar_ClosePrice x = round_numeric (bar_ClosePrice b)"
    "bar_TradeCount x = bar_TradeCount b" "bar_IsClosed x = bar_IsClosed b"
    "bar_QualityStatus x = bar_QualityStatus b" "bar_RawHash x = bar_RawHash b" "bar_Revision x = bar_Revision b"
    "bar_Metadata x = jsonValue (bar_Metadata b)"
    by (simp_all add: row(1) marketBarArguments_def)
  have checks: "bar_CloseTime x > bar_OpenTime x" "bar_Revision x > 0"
    "bar_LowPrice x \<le> bar_OpenPrice x" "bar_LowPrice x \<le> bar_ClosePrice x" "bar_HighPrice x \<ge> bar_OpenPrice x"
    "bar_HighPrice x \<ge> bar_ClosePrice x" "bar_HighPrice x \<ge> bar_LowPrice x"
    "opt_all (\<lambda>v. v \<ge> 0) (bar_BaseVolume x)" "opt_all (\<lambda>v. v \<ge> 0) (bar_QuoteVolume x)"
    using row(2) unfolding bar_row_checks_def by simp_all
  have prices: "0 \<le> round_numeric (bar_OpenPrice b)" "0 \<le> round_numeric (bar_HighPrice b)"
    "0 \<le> round_numeric (bar_LowPrice b)" "0 \<le> round_numeric (bar_ClosePrice b)"
    using Bar_valid_prices [OF assms(1)] by (simp_all add: round_numeric_nonneg)
  have times: "timestamptz (bar_OpenTime b) \<noteq> 0" "timestamptz (bar_CloseTime b) \<noteq> 0" "timestamptz (bar_CollectedAt b) \<noteq> 0"
    "opt_all (\<lambda>t. t \<noteq> 0) (optional_timestamptz (bar_ProviderUpdatedAt b))"
    using assms(2) by (auto simp: bar_times_storable_def timestamptz_nonzero optional_timestamptz_def opt_all_def split: option.splits)
  have closed: "\<not> (bar_IsClosed b \<and> timestamptz (bar_CollectedAt b) < timestamptz (bar_CloseTime b))"
    using Bar_valid_times(3) [OF assms(1)] timestamptz_mono by (auto simp: not_less)
  have meta: "jsonValue (bar_Metadata b) = bar_Metadata b"
    using assms(1) by (auto simp: Bar_Validate_def jsonValue_def)
  show ?thesis
    using assms(1) checks prices times closed
    by (simp add: Bar_Validate_def Bar_Source_def meta validateOHLC_def opt_negative_def IsZero_def opt_all_def not_less
        split: option.splits)
qed

lemma scanMarketBar_valid:
  assumes "Bar_Validate x = None" "0 < bar_Revision x" "opt_all (\<lambda>t. t \<noteq> 0) (bar_ProviderUpdatedAt x)"
  shows "scanMarketBar x = Inr x"
proof -
  have meta: "normalizedJSON (bar_Metadata x) = bar_Metadata x"
    using assms(1) by (auto simp: Bar_Validate_def normalizedJSON_def)
  have x: "x\<lparr>bar_Interval := bar_Interval x, bar_OpenTime := bar_OpenTime x, bar_CloseTime := bar_CloseTime x,
      bar_CollectedAt := bar_CollectedAt x, bar_ProviderUpdatedAt := bar_ProviderUpdatedAt x,
      bar_QualityStatus := bar_QualityStatus x, bar_Metadata := bar_Metadata x\<rparr> = x" by simp
  have stored: "NewStoredBar x = Inr x"
    using assms(1,2) meta by (simp add: NewStoredBar_def NewBar_def Let_def)
  have parse: "ParseBarInterval (bar_Interval x) = Inr (bar_Interval x)"
    "NewUTCInstant (bar_OpenTime x) = Inr (bar_OpenTime x)" "NewUTCInstant (bar_CloseTime x) = Inr (bar_CloseTime x)"
    "NewUTCInstant (bar_CollectedAt x) = Inr (bar_CollectedAt x)"
    "optional_instant (bar_ProviderUpdatedAt x) = Inr (bar_ProviderUpdatedAt x)"
    "ParseQualityStatus (bar_QualityStatus x) = Inr (bar_QualityStatus x)"
    using assms(1,3) by (auto simp: Bar_Validate_def NewUTCInstant_def ParseBarInterval_Inr_iff optional_instant_def opt_all_def
        IsZero_def ParseQualityStatus_def parse_enum_Inr_iff split: option.splits)
  show ?thesis unfolding scanMarketBar_def parse bind_result_simps meta by (simp only: x stored)
qed

text \<open>A write that applies inserts a row the table accepts.\<close>

lemma insert_bar_checks:
  "insert_bar b s = (Inr v, s') \<Longrightarrow> bar_row_checks (marketBarArguments b) = None"
  by (auto simp: insert_bar_def Let_def split: option.splits)

lemma write_revision_row:
  assumes "write_revision f n strict bar s = (Inr r, s')" "mbw_Applied r"
  shows "bar_row_checks (marketBarArguments (bar\<lparr>bar_Revision := mbw_Revision r, bar_IsCurrent := True\<rparr>)) = None"
  using assms unfolding write_revision_def
  by (auto elim!: tx_elims dest!: insert_bar_checks split: option.splits if_splits)

lemma scanMarketBar_close:
  assumes "scanMarketBar c = Inr c" shows "scanMarketBar (c\<lparr>bar_IsCurrent := b\<rparr>) = Inr (c\<lparr>bar_IsCurrent := b\<rparr>)"
proof -
  have c: "NewStoredBar c = Inr c" by (rule scanMarketBar_stored(1) [OF assms])
  then have new: "NewBar c = Inr c" "0 < bar_Revision c"
    unfolding NewStoredBar_def bind_result_Inr_iff by (auto split: if_splits)
  then have "Bar_Validate c = None" unfolding NewBar_Inr_iff by blast
  then have "Bar_Validate (c\<lparr>bar_IsCurrent := b\<rparr>) = None" "opt_all (\<lambda>t. t \<noteq> 0) (bar_ProviderUpdatedAt c)"
    by (auto simp: Bar_Validate_def Bar_Source_def opt_all_def IsZero_def split: option.splits)
  with new(2) show ?thesis by (intro scanMarketBar_valid) simp_all
qed

text \<open>The stored form of a bar.\<close>

definition stored_bar :: "Bar \<Rightarrow> int \<Rightarrow> Bar" where
  "stored_bar bar revision = (marketBarArguments bar)\<lparr>bar_Revision := revision, bar_IsCurrent := True\<rparr>"

lemma stored_bar_arguments: "marketBarArguments (bar\<lparr>bar_Revision := n, bar_IsCurrent := True\<rparr>) = stored_bar bar n"
  by (simp add: stored_bar_def marketBarArguments_def)

lemma stored_bar_readable:
  assumes "Bar_Validate b = None" "bar_times_storable b" "bar_row_checks (stored_bar b n) = None"
  shows "scanMarketBar (stored_bar b n) = Inr (stored_bar b n)"
proof (rule scanMarketBar_valid)
  let ?b = "b\<lparr>bar_Revision := n, bar_IsCurrent := True\<rparr>"
  have pos: "0 < n" using assms(3) by (simp add: bar_row_checks_def stored_bar_def)
  then have b: "Bar_Validate ?b = None" using assms(1) by (simp add: Bar_Validate_def Bar_Source_def)
  have "bar_times_storable ?b" using assms(2) by (simp add: bar_times_storable_def)
  from stored_bar_valid [OF b this stored_bar_arguments [symmetric] assms(3)] show "Bar_Validate (stored_bar b n) = None" .
  show "0 < bar_Revision (stored_bar b n)" using pos by (simp add: stored_bar_def)
  show "opt_all (\<lambda>t. t \<noteq> 0) (bar_ProviderUpdatedAt (stored_bar b n))"
    using assms(2) by (auto simp: stored_bar_def marketBarArguments_def bar_times_storable_def optional_timestamptz_def
        opt_all_def timestamptz_nonzero split: option.splits)
qed

lemma write_revision_table:
  assumes "bars_ok s" "write_revision f n strict bar s = (Inr r, s')" "mbw_Applied r"
  shows "db_bars s' = map (\<lambda>c. if same_bar c (marketBarArguments bar) \<and> bar_IsCurrent c then c\<lparr>bar_IsCurrent := False\<rparr> else c) (db_bars s)
      @ [stored_bar bar (mbw_Revision r)]"
  using write_revision_Inr [OF assms(1,2)] assms(3)
  by (auto simp: revised_def Let_def stored_bar_def split: if_splits)

lemma write_revision_readable:
  assumes "bars_ok s" "bars_readable s" "NewBar b = Inr b" "bar_times_storable b" "write_revision f n strict b s = (Inr r, s')"
  shows "bars_readable s'"
proof (cases "mbw_Applied r")
  case True
  have "bar_row_checks (stored_bar b (mbw_Revision r)) = None"
    using write_revision_row [OF assms(5) True] by (simp add: stored_bar_arguments)
  moreover have "Bar_Validate b = None" using assms(3) unfolding NewBar_Inr_iff by blast
  ultimately have new: "scanMarketBar (stored_bar b (mbw_Revision r)) = Inr (stored_bar b (mbw_Revision r))"
    using assms(4) by (intro stored_bar_readable)
  have "1000 dvd bar_OpenTime (stored_bar b (mbw_Revision r))"
    by (simp add: stored_bar_def marketBarArguments_def timestamptz_def)
  with new show ?thesis
    unfolding bars_readable_def write_revision_table [OF assms(1,5) True]
    using assms(2) scanMarketBar_close by (auto simp: bars_readable_def)
next
  case False
  then show ?thesis using write_revision_Inr [OF assms(1,5)] assms(2) by (auto split: if_splits)
qed

lemma WriteMarketBar_Inr:
  assumes "bars_ok s" "WriteMarketBar f bar s = (Inr r, s')"
  shows "\<exists>b. NewBar bar = Inr b \<and> NewBar b = Inr b \<and> write_revision f 1 False b s = (Inr r, s')"
proof -
  from assms(2) obtain b where b: "NewBar bar = Inr b" "transaction_if f mbw_Applied (write_revision f 1 False b) s = (Inr r, s')"
    by (auto simp: WriteMarketBar_def bind_result_def checked_Inr_iff validateMarketBar_def split: sum.splits option.splits)
  from transaction_if_Inr [OF b(2)] obtain s'' where body: "write_revision f 1 False b s = (Inr r, s'')"
    and s': "mbw_Applied r \<and> s'' = s' \<or> \<not> mbw_Applied r \<and> s' = s"
    by (cases "write_revision f 1 False b s") auto
  have "s'' = s'" using s' write_revision_Inr [OF assms(1) body] by (auto split: if_splits)
  then show ?thesis using b(1) NewBar_idem [OF b(1)] body by blast
qed

definition bar_key_filter :: "Bar \<Rightarrow> MarketBarFilter" where
  "bar_key_filter b = (let t = timestamptz (bar_OpenTime b) in
     \<lparr>mbf_InstrumentID = bar_InstrumentID b, mbf_ProviderInstrumentID = bar_ProviderInstrumentID b,
      mbf_Interval = bar_Interval b, mbf_Range = \<lparr>tr_Start = Some t, tr_End = Some (t + 1000)\<rparr>,
      mbf_BeforeOpenTime = None, mbf_Limit = 1\<rparr>)"

lemma same_microsecond: "\<lbrakk>(1000::int) dvd a; 1000 dvd b; a \<le> b; b < a + 1000\<rbrakk> \<Longrightarrow> b = a"
  by (auto elim!: dvdE)


subsection \<open>Samples\<close>

definition sample_bar_at :: "time \<Rightarrow> Bar" where
  "sample_bar_at t = stored_bar (normalize_bar sample_platform emptyJSONObject (sample_bar t)) 1"

definition sample_bars_db :: DB where
  "sample_bars_db = sample_db\<lparr>db_bars := map sample_bar_at [1001 * Hour, 1000 * Hour]\<rparr>"

definition sample_bars_input :: BarsInput where
  "sample_bars_input = \<lparr>bi_InstrumentCode = inst_Code (ec_Instrument sample_execution),
     bi_ProviderCode = prov_Code (ec_Provider sample_execution), bi_Interval = ''1h'', bi_StartTime = Some (1000 * Hour),
     bi_EndTime = None, bi_Order = ''asc'', bi_CursorOpenTime = None, bi_Limit = 1\<rparr>"

lemma sample_bars_times: "map bar_OpenTime (db_bars sample_bars_db) = [1001 * Hour, 1000 * Hour]"
  by code_simp

lemma sample_bars_readable: "bars_readable sample_bars_db"
proof -
  have "list_all (\<lambda>b. scanMarketBar b = Inr b \<and> bar_OpenTime b mod 1000 = 0) (db_bars sample_bars_db)" by code_simp
  then show ?thesis by (simp add: bars_readable_def list_all_iff dvd_eq_mod_eq_0)
qed

lemma sample_bars_ok: "bars_ok sample_bars_db"
proof -
  have "bar_OpenTime (sample_bar_at (1000 * Hour)) \<noteq> bar_OpenTime (sample_bar_at (1001 * Hour))" by code_simp
  then have "\<not> (same_bar k (sample_bar_at (1000 * Hour)) \<and> same_bar k (sample_bar_at (1001 * Hour)))" for k
    by (auto simp: same_bar_def)
  moreover have "bar_Revision (sample_bar_at t) = 1" "bar_IsCurrent (sample_bar_at t)" for t
    by (simp_all add: sample_bar_at_def stored_bar_def)
  ultimately show ?thesis
    by (auto simp: bars_ok_def history_def history_ok_def sample_bars_db_def)
qed

theorem bar_pages_complete_witness:
  "\<exists>r. Bars_List (quiet_ports sample_platform sample_bars_db) (1005 * Hour) sample_bars_input = Inr r
    \<and> map bar_OpenTime (brs_Bars r) = [1000 * Hour]
    \<and> map bar_OpenTime (bars_of_source sample_bars_input r sample_bars_db) = [1000 * Hour, 1001 * Hour]
    \<and> follow_pages 3 (bars_page (sample_platform, sample_bars_db, 1005 * Hour, sample_bars_input)) None
        = Some (Inr (bars_of_source sample_bars_input r sample_bars_db))"
proof -
  let ?q = "Bars_List (quiet_ports sample_platform sample_bars_db) (1005 * Hour)"
  have "map_sum (\<lambda>_. ()) (\<lambda>r. (map bar_OpenTime (brs_Bars r), map bar_OpenTime (bars_of_source sample_bars_input r sample_bars_db)))
      (?q sample_bars_input) = Inr ([1000 * Hour], [1000 * Hour, 1001 * Hour])"
    by code_simp
  then obtain r where r: "?q sample_bars_input = Inr r" "map bar_OpenTime (brs_Bars r) = [1000 * Hour]"
    and rows: "map bar_OpenTime (bars_of_source sample_bars_input r sample_bars_db) = [1000 * Hour, 1001 * Hour]"
    by (cases "?q sample_bars_input") auto
  have "sample_bars_input\<lparr>bi_CursorOpenTime := None\<rparr> = sample_bars_input" by (simp add: sample_bars_input_def)
  moreover have "opt_all ((dvd) 1000) (bi_StartTime sample_bars_input)" "opt_all ((dvd) 1000) (bi_EndTime sample_bars_input)"
    by (simp_all add: sample_bars_input_def opt_all_def Hour_def Minute_def Second_def)
  moreover have "length (bars_of_source sample_bars_input r sample_bars_db) = 2" using arg_cong [OF rows, of length] by simp
  ultimately show ?thesis
    using bar_pages_complete [OF _ sample_bars_ok sample_bars_readable, of sample_platform "1005 * Hour" sample_bars_input r] r rows
    by (simp add: eval_nat_numeral)
qed


text \<open>
  The bounds of a range have to be whole microseconds: asked from within the microsecond a bar opens in, the
  column comparison still finds the bar, the service's check refuses it, and the request fails as an internal error.
\<close>

lemma sub_microsecond_start_fails:
  "map_sum (\<lambda>e. case e of App a \<Rightarrow> ae_Code a | Cause _ \<Rightarrow> []) (\<lambda>_. ())
     (Bars_List (quiet_ports sample_platform sample_bars_db) (1005 * Hour)
       (sample_bars_input\<lparr>bi_StartTime := Some (1000 * Hour + 1)\<rparr>)) = Inl ''INTERNAL_ERROR''"
  by code_simp

end
