(* ===== verification/QuoteQuery.thy ===== *)
theory QuoteQuery
  imports CatalogQueries
begin

text \<open>
  The latest-quote query: application/latest_quotes.go over repository/postgres/latest_quote_query.go. Its
  property composes the query with the writers of the table: what a query serves is never older than a
  quote whose write was answered.
\<close>

subsection \<open>The use case (latest_quotes.go)\<close>

record LatestQuotesInput =
  lq_AssetCode :: string
  lq_InstrumentCode :: string
  lq_ProviderCode :: string

record LatestQuoteFilter =
  lqf_AssetID :: ID
  lqf_InstrumentID :: "ID option"
  lqf_ProviderID :: "ID option"
  lqf_EffectiveAt :: time

record LatestQuoteRecord =
  lqr_InstrumentCode :: Code
  lqr_QuoteCurrency :: string
  lqr_ProviderID :: ID
  lqr_ProviderCode :: Code
  lqr_ProviderInstrumentCode :: Code
  lqr_ProviderSymbol :: string
  lqr_Quote :: Quote

record LatestQuotePorts =
  lqp_FindAssetByCode :: "string \<Rightarrow> Asset result"
  lqp_FindAssetByID :: "ID \<Rightarrow> Asset result"
  lqp_FindInstrumentByCode :: "string \<Rightarrow> Instrument result"
  lqp_FindProviderByCode :: "string \<Rightarrow> Provider result"
  lqp_ListLatestQuoteRecords :: "LatestQuoteFilter \<Rightarrow> LatestQuoteRecord list result"

record LatestQuotesResult =
  lqs_Asset :: Asset
  lqs_Quotes :: "LatestQuoteRecord list"

record parsedLatestQuotesInput =
  plq_assetCode :: "Code option"
  plq_instrumentCode :: "Code option"
  plq_providerCode :: "Code option"

definition code_with_prefix :: "string \<Rightarrow> string \<Rightarrow> bool" where
  "code_with_prefix prefix text \<longleftrightarrow> err_of (ParseCode text) = None \<and> HasPrefix text prefix"

definition given :: "string \<Rightarrow> Code option" where
  "given text = (if text = [] then None else Some text)"

definition latest_quotes_violations :: "LatestQuotesInput \<Rightarrow> FieldViolation list" where
  "latest_quotes_violations input =
     violation (lq_AssetCode input = [] \<and> lq_InstrumentCode input = [])
       ''asset_code'' ''asset_code or instrument_code is required''
     @ violation (lq_AssetCode input = [] \<and> lq_InstrumentCode input = [])
       ''instrument_code'' ''asset_code or instrument_code is required''
     @ violation (lq_AssetCode input \<noteq> [] \<and> \<not> code_with_prefix ''asset.'' (lq_AssetCode input))
       ''asset_code'' ''must be a valid asset code''
     @ violation (lq_InstrumentCode input \<noteq> [] \<and> \<not> code_with_prefix ''instrument.'' (lq_InstrumentCode input))
       ''instrument_code'' ''must be a valid instrument code''
     @ violation (lq_ProviderCode input \<noteq> [] \<and> err_of (ParseCode (lq_ProviderCode input)) \<noteq> None)
       ''provider'' ''must be a valid provider code''"

definition parseLatestQuotesInput :: "LatestQuotesInput \<Rightarrow> parsedLatestQuotesInput answer" where
  "parseLatestQuotesInput input =
     (if latest_quotes_violations input \<noteq> [] then Inl (App (ValidationError (latest_quotes_violations input)))
      else Inr \<lparr>plq_assetCode = given (lq_AssetCode input), plq_instrumentCode = given (lq_InstrumentCode input),
        plq_providerCode = given (lq_ProviderCode input)\<rparr>)"

definition zero_asset :: Asset where
  "zero_asset = \<lparr>asset_ID = 0, asset_Code = [], asset_AssetType = [], asset_CanonicalSymbol = [], asset_Name = [],
     asset_Status = [], asset_Metadata = RawEmpty, asset_CreatedAt = 0, asset_UpdatedAt = 0\<rparr>"

definition resolveMarketIdentity :: "LatestQuotePorts \<Rightarrow> parsedLatestQuotesInput \<Rightarrow> (Asset \<times> Instrument option) answer" where
  "resolveMarketIdentity ports input =
     bind_answer (optional_step (plq_assetCode input) (\<lambda>code.
       answered (mapCatalogQueryError ''ASSET_NOT_FOUND'' ''asset not found'') (lqp_FindAssetByCode ports code) (\<lambda>loaded.
       refusing (failing (asset_Code loaded \<noteq> code) (classifyLatestQuoteFailure ErrInvalidData)) (Inr loaded)))) (\<lambda>assetByCode.
     bind_answer (optional_step (plq_instrumentCode input) (\<lambda>code.
       answered (mapCatalogQueryError ''INSTRUMENT_NOT_FOUND'' ''instrument not found'') (lqp_FindInstrumentByCode ports code) (\<lambda>loaded.
       refusing (failing (inst_Code loaded \<noteq> code) (classifyLatestQuoteFailure ErrInvalidData)) (Inr loaded)))) (\<lambda>instrument.
     bind_answer
       (case (assetByCode, instrument) of
          (Some asset, _) \<Rightarrow> Inr asset
        | (None, None) \<Rightarrow> Inr zero_asset
        | (None, Some loaded) \<Rightarrow>
            answered classifyLatestQuoteFailure (lqp_FindAssetByID ports (inst_AssetID loaded)) (\<lambda>asset.
            refusing (failing (asset_ID asset \<noteq> inst_AssetID loaded) (classifyLatestQuoteFailure ErrInvalidData))
            (Inr asset))) (\<lambda>asset.
     refusing (failing (\<not> opt_all (\<lambda>i. inst_AssetID i = asset_ID asset) instrument)
       (refused ''instrument_code'' ''does not belong to asset_code''))
     (Inr (asset, instrument)))))"

definition resolveProvider :: "LatestQuotePorts \<Rightarrow> Code option \<Rightarrow> Provider option answer" where
  "resolveProvider ports code = optional_step code (\<lambda>c.
     answered (\<lambda>e. if errors_Is e ErrNotFound then refused ''provider'' ''does not identify a known provider''
         else classifyLatestQuoteFailure e) (lqp_FindProviderByCode ports c) (\<lambda>provider.
     refusing (failing (prov_Code provider \<noteq> c) (classifyLatestQuoteFailure ErrInvalidData)) (Inr provider)))"

fun quote_records_loop :: "LatestQuoteFilter \<Rightarrow> LatestQuoteRecord list \<Rightarrow> error option" where
  "quote_records_loop flt [] = None"
| "quote_records_loop flt (r # rs) = first_error
     [Quote_Validate (lqr_Quote r),
      guard (\<not> HasPrefix (lqr_InstrumentCode r) ''instrument.'' \<or> \<not> HasPrefix (lqr_ProviderInstrumentCode r) ''provider.''
        \<or> ID_IsZero (lqr_ProviderID r) \<or> Code_IsZero (lqr_ProviderCode r)
        \<or> TrimSpace (lqr_ProviderSymbol r) = [] \<or> TrimSpace (lqr_QuoteCurrency r) = []) ErrInvalidData,
      guard (\<not> opt_all (\<lambda>i. q_InstrumentID (lqr_Quote r) = i) (lqf_InstrumentID flt)) ErrInvalidData,
      guard (\<not> opt_all (\<lambda>i. lqr_ProviderID r = i) (lqf_ProviderID flt)) ErrInvalidData,
      quote_records_loop flt rs]"

definition validateLatestQuoteRecords :: "LatestQuoteRecord list \<Rightarrow> LatestQuoteFilter \<Rightarrow> error option" where
  "validateLatestQuoteRecords records flt = quote_records_loop flt records"

definition record_before :: "LatestQuoteRecord \<Rightarrow> LatestQuoteRecord \<Rightarrow> bool" where
  "record_before a b \<longleftrightarrow>
     (if lqr_InstrumentCode a \<noteq> lqr_InstrumentCode b then text_before (lqr_InstrumentCode a) (lqr_InstrumentCode b)
      else if lqr_ProviderCode a \<noteq> lqr_ProviderCode b then text_before (lqr_ProviderCode a) (lqr_ProviderCode b)
      else text_before (lqr_ProviderInstrumentCode a) (lqr_ProviderInstrumentCode b))"

definition latest_quotes_filter :: "time \<Rightarrow> Asset \<Rightarrow> Instrument option \<Rightarrow> Provider option \<Rightarrow> LatestQuoteFilter" where
  "latest_quotes_filter now asset instrument provider =
     \<lparr>lqf_AssetID = asset_ID asset, lqf_InstrumentID = map_option inst_ID instrument,
      lqf_ProviderID = map_option prov_ID provider, lqf_EffectiveAt = now\<rparr>"

definition LatestQuotes_List :: "LatestQuotePorts \<Rightarrow> time \<Rightarrow> LatestQuotesInput \<Rightarrow> LatestQuotesResult answer" where
  "LatestQuotes_List ports now input =
     bind_answer (parseLatestQuotesInput input) (\<lambda>parsed.
     bind_answer (resolveMarketIdentity ports parsed) (\<lambda>(asset, instrument).
     bind_answer (resolveProvider ports (plq_providerCode parsed)) (\<lambda>provider.
       if asset_Status asset \<noteq> ''active''
         \<or> \<not> opt_all (\<lambda>i. inst_Status i = ''active'' \<and> effectiveAtWithin now (inst_ValidFrom i) (inst_ValidTo i)) instrument
         \<or> \<not> opt_all (\<lambda>p. prov_Status p \<noteq> ''disabled'') provider
       then Inr \<lparr>lqs_Asset = asset, lqs_Quotes = []\<rparr>
       else let flt = latest_quotes_filter now asset instrument provider in
         answered classifyLatestQuoteFailure (lqp_ListLatestQuoteRecords ports flt) (\<lambda>records.
         refusing (map_option classifyLatestQuoteFailure (validateLatestQuoteRecords records flt))
         (Inr \<lparr>lqs_Asset = asset, lqs_Quotes = order_by record_before records\<rparr>)))))"

subsection \<open>The PostgreSQL reader (latest_quote_query.go)\<close>

definition validateLatestQuoteFilter :: "LatestQuoteFilter \<Rightarrow> error option" where
  "validateLatestQuoteFilter flt = first_error
     [guard (ID_IsZero (lqf_AssetID flt) \<or> IsZero (lqf_EffectiveAt flt)) ErrInvalidData,
      guard (\<not> opt_all (\<lambda>i. \<not> ID_IsZero i) (lqf_InstrumentID flt)) ErrInvalidData,
      guard (\<not> opt_all (\<lambda>i. \<not> ID_IsZero i) (lqf_ProviderID flt)) ErrInvalidData]"

definition quote_served :: "LatestQuoteFilter \<Rightarrow> mapping_row \<Rightarrow> bool" where
  "quote_served flt r \<longleftrightarrow> (let t = timestamptz (lqf_EffectiveAt flt) in
     inst_AssetID (mr_Instrument r) = lqf_AssetID flt \<and> instrument_on (mr_Instrument r) t \<and> mapping_on r t
     \<and> cap_Quote (pi_Capabilities (mr_Mapping r))
     \<and> opt_all (\<lambda>i. inst_ID (mr_Instrument r) = i) (lqf_InstrumentID flt)
     \<and> opt_all (\<lambda>i. prov_ID (mr_Provider r) = i) (lqf_ProviderID flt))"

definition quote_row_before :: "mapping_row \<times> Quote \<Rightarrow> mapping_row \<times> Quote \<Rightarrow> bool" where
  "quote_row_before a b \<longleftrightarrow> (let m = fst a; n = fst b in
     if inst_Code (mr_Instrument m) \<noteq> inst_Code (mr_Instrument n) then text_before (inst_Code (mr_Instrument m)) (inst_Code (mr_Instrument n))
     else if prov_Code (mr_Provider m) \<noteq> prov_Code (mr_Provider n) then text_before (prov_Code (mr_Provider m)) (prov_Code (mr_Provider n))
     else text_before (pi_Code (mr_Mapping m)) (pi_Code (mr_Mapping n)))"

definition quote_rows :: "LatestQuoteFilter \<Rightarrow> DB \<Rightarrow> (mapping_row \<times> Quote) list" where
  "quote_rows flt s = order_by quote_row_before
     (List.map_filter (\<lambda>r. map_option (Pair r) (db_quotes s (inst_ID (mr_Instrument r), pi_ID (mr_Mapping r))))
       (filter (quote_served flt) (mapping_rows s)))"

definition scanLatestQuoteRecord :: "mapping_row \<times> Quote \<Rightarrow> LatestQuoteRecord result" where
  "scanLatestQuoteRecord x = (let r = fst x; q = snd x in
     bind_result (ParseCode (inst_Code (mr_Instrument r))) (\<lambda>instrumentCode.
     bind_result (ParseCode (prov_Code (mr_Provider r))) (\<lambda>providerCode.
     bind_result (ParseCode (pi_Code (mr_Mapping r))) (\<lambda>mappingCode.
     bind_result (NewUTCInstant (q_MarketTime q)) (\<lambda>marketTime.
     bind_result (NewUTCInstant (q_CollectedAt q)) (\<lambda>collectedAt.
     bind_result (ParseQualityStatus (q_QualityStatus q)) (\<lambda>quality.
     bind_result (NewQuote (q\<lparr>q_MarketTime := marketTime, q_QualityStatus := quality, q_CollectedAt := collectedAt,
        q_Metadata := normalizedJSON (q_Metadata q)\<rparr>)) (\<lambda>quote.
       Inr \<lparr>lqr_InstrumentCode = instrumentCode, lqr_QuoteCurrency = inst_QuoteCurrency (mr_Instrument r),
         lqr_ProviderID = prov_ID (mr_Provider r), lqr_ProviderCode = providerCode, lqr_ProviderInstrumentCode = mappingCode,
         lqr_ProviderSymbol = pi_ExternalSymbol (mr_Mapping r), lqr_Quote = quote\<rparr>))))))))"

definition ListLatestQuoteRecords :: "faults \<Rightarrow> LatestQuoteFilter \<Rightarrow> DB \<Rightarrow> LatestQuoteRecord list result" where
  "ListLatestQuoteRecords f flt s =
     checked (validateLatestQuoteFilter flt) (query_rows f scanLatestQuoteRecord (quote_rows flt s))"

definition postgres_quotes :: "platform \<Rightarrow> (nat \<Rightarrow> faults) \<Rightarrow> (nat \<Rightarrow> DB) \<Rightarrow> LatestQuotePorts" where
  "postgres_quotes pf f s =
     \<lparr>lqp_FindAssetByCode = (\<lambda>code. FindAssetByCode (f 0) code (s 0)),
      lqp_FindAssetByID = (\<lambda>i. FindAssetByID (f 1) i (s 1)),
      lqp_FindInstrumentByCode = (\<lambda>code. FindInstrumentByCode pf (f 2) code (s 2)),
      lqp_FindProviderByCode = (\<lambda>code. FindProviderByCode (f 3) code (s 3)),
      lqp_ListLatestQuoteRecords = (\<lambda>flt. ListLatestQuoteRecords (f 4) flt (s 4))\<rparr>"

subsection \<open>What is served is the newest quote written\<close>

text \<open>The writers: a sequence of upserts, each with its failures, and their answers.\<close>

fun run_upserts :: "(faults \<times> Quote) list \<Rightarrow> DB \<Rightarrow> bool result list \<times> DB" where
  "run_upserts [] s = ([], s)"
| "run_upserts (w # ws) s =
     (case UpsertLatestQuote (fst w) (snd w) s of (r, s1) \<Rightarrow> (case run_upserts ws s1 of (rs, s2) \<Rightarrow> (r # rs, s2)))"

definition quotes_keyed :: "DB \<Rightarrow> bool" where
  "quotes_keyed s \<longleftrightarrow> (\<forall>k q. db_quotes s k = Some q \<longrightarrow> quote_key q = k)"

definition not_older :: "Quote option \<Rightarrow> Quote option \<Rightarrow> bool" where
  "not_older old new \<longleftrightarrow> (\<forall>q. old = Some q \<longrightarrow> (\<exists>q'. new = Some q' \<and> q_MarketTime q \<le> q_MarketTime q'))"

lemma not_older_trans: "not_older a b \<Longrightarrow> not_older b c \<Longrightarrow> not_older a c"
  by (fastforce simp: not_older_def)

lemma quote_key_arguments [simp]: "quote_key (quoteArguments q) = quote_key q"
  "q_MarketTime (quoteArguments q) = timestamptz (q_MarketTime q)"
  by (simp_all add: quote_key_def quoteArguments_def)

lemma NewQuote_key: "NewQuote q = Inr q' \<Longrightarrow> quote_key q' = quote_key q \<and> q_MarketTime q' = q_MarketTime q"
  by (auto simp: NewQuote_def Let_def checked_Inr_iff quote_key_def)

text \<open>The effect of one statement on the table.\<close>

lemma upsert_statement_effect:
  assumes "upsert_quote_statement q s = (r, s')"
  shows "s' = s \<or> s' = s\<lparr>db_quotes := (db_quotes s)(quote_key q \<mapsto> quoteArguments q)\<rparr>"
    and "not_older (db_quotes s k) (db_quotes s' k)"
    and "\<forall>e. r = Inl e \<longrightarrow> s' = s"
    and "(\<exists>v. r = Inr v) \<or> r = Inl NoRows \<Longrightarrow>
      \<exists>x. db_quotes s' (quote_key q) = Some x \<and> timestamptz (q_MarketTime q) \<le> q_MarketTime x"
  using assms
  by (auto simp: upsert_quote_statement_def Let_def not_older_def quote_row_checks_def violates_def quote_references_def
      split: option.splits if_splits)

text \<open>The driver reports no rows as an answer only, never as a failure.\<close>

definition failures_only :: "faults \<Rightarrow> bool" where
  "failures_only f \<longleftrightarrow> (\<forall>n. fault_at f n \<noteq> Some NoRows) \<and> (\<forall>applied. fault_commit f \<noteq> Some (NoRows, applied))"

lemma autocommit_cases:
  assumes "autocommit f st s = (r, s')" "failures_only f" "st s = (a, s1)" "\<forall>e. a = Inl e \<longrightarrow> s1 = s"
  shows "s' = s \<or> s' = s1" and "(\<exists>v. r = Inr v) \<or> r = Inl NoRows \<Longrightarrow> r = a \<and> s' = s1"
  using assms by (auto simp: autocommit_def failures_only_def split: option.splits sum.splits if_splits)

lemma UpsertLatestQuote_effect:
  assumes "UpsertLatestQuote f q s = (r, s')" "failures_only f"
  shows "s' = s \<or> (\<exists>q'. NewQuote q = Inr q' \<and> s' = s\<lparr>db_quotes := (db_quotes s)(quote_key q \<mapsto> quoteArguments q')\<rparr>)"
    and "not_older (db_quotes s k) (db_quotes s' k)"
    and "r = Inr b \<Longrightarrow> \<exists>x. db_quotes s' (quote_key q) = Some x \<and> timestamptz (q_MarketTime q) \<le> q_MarketTime x"
proof -
  have same: "not_older (db_quotes s k) (db_quotes s k)" by (simp add: not_older_def)
  have "(s' = s \<or> (\<exists>q'. NewQuote q = Inr q' \<and> s' = s\<lparr>db_quotes := (db_quotes s)(quote_key q \<mapsto> quoteArguments q')\<rparr>))
    \<and> not_older (db_quotes s k) (db_quotes s' k)
    \<and> (r = Inr b \<longrightarrow> (\<exists>x. db_quotes s' (quote_key q) = Some x \<and> timestamptz (q_MarketTime q) \<le> q_MarketTime x))"
  proof (cases "NewQuote q")
    case (Inl e)
    then have "s' = s" "r = Inl e" using assms(1) by (simp_all add: UpsertLatestQuote_def)
    then show ?thesis using same by simp
  next
    case (Inr q')
    obtain a s1 where st: "upsert_quote_statement q' s = (a, s1)" by force
    obtain r1 s2 where auto: "autocommit f (upsert_quote_statement q') s = (r1, s2)" by force
    note effect = upsert_statement_effect [OF st] and key = NewQuote_key [OF Inr]
    have s2: "s2 = s'" using assms(1) Inr auto by (auto simp: UpsertLatestQuote_def split: sum.splits driver_error.splits)
    have r1: "r = Inr b \<Longrightarrow> (\<exists>v. r1 = Inr v) \<or> r1 = Inl NoRows"
      using assms(1) Inr auto by (auto simp: UpsertLatestQuote_def split: sum.splits driver_error.splits)
    note cases = autocommit_cases [OF auto assms(2) st effect(3)]
    have "not_older (db_quotes s k) (db_quotes s' k)" using cases(1) effect(2) [of k] same s2 by auto
    moreover have "s' = s \<or> s' = s\<lparr>db_quotes := (db_quotes s)(quote_key q \<mapsto> quoteArguments q')\<rparr>"
      using cases(1) effect(1) s2 key by auto
    moreover have "r = Inr b \<Longrightarrow> \<exists>x. db_quotes s' (quote_key q) = Some x \<and> timestamptz (q_MarketTime q) \<le> q_MarketTime x"
      using cases(2) [OF r1] effect(4) r1 s2 key by auto
    ultimately show ?thesis using Inr by auto
  qed
  then show "s' = s \<or> (\<exists>q'. NewQuote q = Inr q' \<and> s' = s\<lparr>db_quotes := (db_quotes s)(quote_key q \<mapsto> quoteArguments q')\<rparr>)"
    "not_older (db_quotes s k) (db_quotes s' k)"
    "r = Inr b \<Longrightarrow> \<exists>x. db_quotes s' (quote_key q) = Some x \<and> timestamptz (q_MarketTime q) \<le> q_MarketTime x" by blast+
qed

lemma run_upserts_effect:
  assumes "run_upserts ws s = (rs, s')" "\<forall>w \<in> set ws. failures_only (fst w)"
  shows "(\<exists>x. s' = s\<lparr>db_quotes := x\<rparr>) \<and> length rs = length ws \<and> (\<forall>k. not_older (db_quotes s k) (db_quotes s' k))
    \<and> (\<forall>i b. i < length ws \<longrightarrow> rs ! i = Inr b \<longrightarrow> (\<exists>x. db_quotes s' (quote_key (snd (ws ! i))) = Some x
        \<and> timestamptz (q_MarketTime (snd (ws ! i))) \<le> q_MarketTime x))
    \<and> (\<forall>k. db_quotes s' k = db_quotes s k \<or> (\<exists>w \<in> set ws. \<exists>q'. NewQuote (snd w) = Inr q' \<and> quote_key (snd w) = k
        \<and> db_quotes s' k = Some (quoteArguments q')))"
  using assms
proof (induction ws arbitrary: s rs)
  case Nil
  then show ?case by (auto simp: not_older_def intro: exI [of _ "db_quotes s"])
next
  case (Cons w ws)
  obtain r s1 rs' where first: "UpsertLatestQuote (fst w) (snd w) s = (r, s1)" and rest: "run_upserts ws s1 = (rs', s')"
    and rs: "rs = r # rs'"
    using Cons.prems(1) by (auto split: prod.splits)
  have ok: "failures_only (fst w)" using Cons.prems(2) by simp
  note one = UpsertLatestQuote_effect [OF first ok]
  have "\<forall>w \<in> set ws. failures_only (fst w)" using Cons.prems(2) by simp
  note IH = Cons.IH [OF rest this]
  have "\<exists>x. s1 = s\<lparr>db_quotes := x\<rparr>" using one(1) by (auto intro: exI [of _ "db_quotes s"])
  then have "\<exists>x. s' = s\<lparr>db_quotes := x\<rparr>" using IH by auto
  moreover have "not_older (db_quotes s k) (db_quotes s' k)" for k
    using IH one(2) [of k] not_older_trans by blast
  moreover have "\<exists>x. db_quotes s' (quote_key (snd ((w # ws) ! i))) = Some x \<and> timestamptz (q_MarketTime (snd ((w # ws) ! i))) \<le> q_MarketTime x"
    if i: "i < length (w # ws)" "rs ! i = Inr b" for i b
  proof (cases i)
    case 0
    from one(3) 0 i(2) rs obtain x where "db_quotes s1 (quote_key (snd w)) = Some x" "timestamptz (q_MarketTime (snd w)) \<le> q_MarketTime x"
      by auto
    moreover have "not_older (db_quotes s1 (quote_key (snd w))) (db_quotes s' (quote_key (snd w)))" using IH by blast
    ultimately show ?thesis using 0 by (fastforce simp: not_older_def)
  next
    case (Suc j)
    then show ?thesis using IH i rs by auto
  qed
  moreover have "db_quotes s' k = db_quotes s k \<or> (\<exists>v \<in> set (w # ws). \<exists>q'. NewQuote (snd v) = Inr q' \<and> quote_key (snd v) = k
        \<and> db_quotes s' k = Some (quoteArguments q'))" for k
  proof -
    have "db_quotes s1 k = db_quotes s k \<or> (\<exists>q'. NewQuote (snd w) = Inr q' \<and> quote_key (snd w) = k \<and> db_quotes s1 k = Some (quoteArguments q'))"
      using one(1) by (auto split: if_splits)
    moreover have "db_quotes s' k = db_quotes s1 k \<or> (\<exists>v \<in> set ws. \<exists>q'. NewQuote (snd v) = Inr q' \<and> quote_key (snd v) = k
        \<and> db_quotes s' k = Some (quoteArguments q'))" using IH by blast
    ultimately show ?thesis by auto
  qed
  ultimately show ?case using IH rs by simp
qed

text \<open>One row per mapping: unique identities join at most once.\<close>

lemma concat_unique_key:
  assumes "distinct (map k xs)" "\<And>x. length (h x) \<le> 1"
  shows "length (concat (map (\<lambda>x. if k x = v then h x else []) xs)) \<le> 1"
  using assms(1)
proof (induction xs)
  case (Cons x xs)
  show ?case
  proof (cases "k x = v")
    case True
    then have "\<forall>y \<in> set xs. k y \<noteq> v" using Cons.prems by (auto intro: rev_image_eqI)
    then have rest: "concat (map (\<lambda>x. if k x = v then h x else []) xs) = []" by simp
    show ?thesis unfolding list.map concat.simps rest using True assms(2) [of x] by simp
  qed (use Cons in simp)
qed simp

lemma distinct_concat_keys:
  assumes "distinct (map k xs)" "\<And>x. length (g x) \<le> 1" "\<And>x r. r \<in> set (g x) \<Longrightarrow> key r = k x"
  shows "distinct (map key (concat (map g xs)))"
  using assms(1)
proof (induction xs)
  case (Cons x xs)
  have "distinct (map key (g x))" using assms(2) [of x] by (cases "g x") auto
  moreover have "key r \<noteq> key r'" if "r \<in> set (g x)" "r' \<in> set (concat (map g xs))" for r r'
    using that assms(3) Cons.prems by (fastforce simp: image_iff)
  ultimately show ?case using Cons by (auto simp: image_iff)
qed simp

lemma mapping_rows_distinct:
  assumes "catalog_ok s" "distinct (map inst_ID (db_instruments s))"
  shows "distinct (map (\<lambda>r. pi_ID (mr_Mapping r)) (mapping_rows s))"
  unfolding mapping_rows_def
proof (rule distinct_concat_keys [where k = pi_ID])
  show "distinct (map pi_ID (db_mappings s))" using assms(1) by (simp add: catalog_ok_def)
  fix m
  show "length (concat (map (\<lambda>p. if prov_ID p = pi_ProviderID m
      then concat (map (\<lambda>i. if inst_ID i = pi_InstrumentID m then [\<lparr>mr_Mapping = m, mr_Provider = p, mr_Instrument = i\<rparr>] else [])
        (db_instruments s)) else []) (db_providers s))) \<le> 1"
    using assms by (intro concat_unique_key) (simp_all add: catalog_ok_def)
qed auto

definition mapping_key :: "mapping_row \<Rightarrow> ID \<times> ID" where
  "mapping_key m = (inst_ID (mr_Instrument m), pi_ID (mr_Mapping m))"

lemma scanLatestQuoteRecord_key:
  "scanLatestQuoteRecord x = Inr r \<Longrightarrow> quote_key (lqr_Quote r) = quote_key (snd x)
    \<and> q_MarketTime (lqr_Quote r) = q_MarketTime (snd x)"
  by (auto simp: scanLatestQuoteRecord_def Let_def bind_result_Inr_iff NewUTCInstant_def quote_key_def dest!: NewQuote_key split: if_splits)

lemma set_map_filter: "y \<in> set (List.map_filter f xs) \<longleftrightarrow> (\<exists>x \<in> set xs. f x = Some y)"
  by (induction xs) (auto simp: List.map_filter_simps split: option.splits)

lemma distinct_map_filter_keys:
  assumes "distinct (map k xs)" "\<And>x y. f x = Some y \<Longrightarrow> key y = k x" shows "distinct (map key (List.map_filter f xs))"
  using assms(1)
proof (induction xs)
  case (Cons x xs)
  show ?case
  proof (cases "f x")
    case (Some y)
    have "key y \<noteq> key z" if "z \<in> set (List.map_filter f xs)" for z
      using that Some assms(2) Cons.prems by (fastforce simp: set_map_filter image_iff)
    then have "key y \<notin> key ` set (List.map_filter f xs)" by blast
    then show ?thesis using Cons Some by (simp add: List.map_filter_simps)
  qed (use Cons in \<open>simp add: List.map_filter_simps\<close>)
qed (simp add: List.map_filter_simps)

lemma quote_rows_set:
  "x \<in> set (quote_rows flt s) \<longleftrightarrow> fst x \<in> set (mapping_rows s) \<and> quote_served flt (fst x)
    \<and> db_quotes s (mapping_key (fst x)) = Some (snd x)"
  by (cases x) (auto simp: quote_rows_def set_map_filter mapping_key_def)

lemma order_by_map_distinct: "distinct (map f (order_by before rows)) \<longleftrightarrow> distinct (map f rows)"
  by (simp add: distinct_map)

lemma quote_rows_distinct:
  assumes "catalog_ok s" "distinct (map inst_ID (db_instruments s))"
  shows "distinct (map (\<lambda>x. pi_ID (mr_Mapping (fst x))) (quote_rows flt s))"
  unfolding quote_rows_def order_by_map_distinct
proof (rule distinct_map_filter_keys [where k = "\<lambda>r. pi_ID (mr_Mapping r)"])
  show "distinct (map (\<lambda>r. pi_ID (mr_Mapping r)) (filter (quote_served flt) (mapping_rows s)))"
    using mapping_rows_distinct [OF assms] by (simp add: distinct_map inj_on_def)
qed auto

text \<open>What an answered query read.\<close>

lemma quotes_port: "lqp_ListLatestQuoteRecords (postgres_quotes pf f d) flt = ListLatestQuoteRecords (f 4) flt (d 4)"
  by (simp add: postgres_quotes_def)

lemma LatestQuotes_read:
  assumes "LatestQuotes_List (postgres_quotes pf f d) now input = Inr r"
  obtains "lqs_Quotes r = []" "lq_InstrumentCode input = [] \<Longrightarrow> lq_ProviderCode input = [] \<Longrightarrow> asset_Status (lqs_Asset r) \<noteq> ''active''"
  | flt records where "lqs_Quotes r = order_by record_before records"
      "list_all2 (\<lambda>x v. scanLatestQuoteRecord x = Inr v) (quote_rows flt (d 4)) records"
      "lq_InstrumentCode input = [] \<Longrightarrow> lq_ProviderCode input = [] \<Longrightarrow> flt = latest_quotes_filter now (lqs_Asset r) None None"
proof -
  obtain parsed asset instrument provider where parsed: "parseLatestQuotesInput input = Inr parsed"
    and identity: "resolveMarketIdentity (postgres_quotes pf f d) parsed = Inr (asset, instrument)"
    and provider: "resolveProvider (postgres_quotes pf f d) (plq_providerCode parsed) = Inr provider"
    and rest: "(if asset_Status asset \<noteq> ''active''
         \<or> \<not> opt_all (\<lambda>i. inst_Status i = ''active'' \<and> effectiveAtWithin now (inst_ValidFrom i) (inst_ValidTo i)) instrument
         \<or> \<not> opt_all (\<lambda>p. prov_Status p \<noteq> ''disabled'') provider
       then Inr \<lparr>lqs_Asset = asset, lqs_Quotes = []\<rparr>
       else let flt = latest_quotes_filter now asset instrument provider in
         answered classifyLatestQuoteFailure (ListLatestQuoteRecords (f 4) flt (d 4)) (\<lambda>records.
         refusing (map_option classifyLatestQuoteFailure (validateLatestQuoteRecords records flt))
         (Inr \<lparr>lqs_Asset = asset, lqs_Quotes = order_by record_before records\<rparr>))) = Inr r"
    using assms unfolding LatestQuotes_List_def bind_answer_Inr_iff split_paired_Ex prod.case quotes_port by blast
  have unfiltered: "instrument = None \<and> provider = None" if "lq_InstrumentCode input = []" "lq_ProviderCode input = []"
  proof -
    have "plq_instrumentCode parsed = None" "plq_providerCode parsed = None"
      using parsed that by (auto simp: parseLatestQuotesInput_def given_def split: if_splits)
    with identity provider show ?thesis
      by (auto simp: resolveMarketIdentity_def resolveProvider_def bind_answer_Inr_iff refusing_Inr_iff optional_step_def)
  qed
  show thesis
  proof (cases "asset_Status asset \<noteq> ''active''
         \<or> \<not> opt_all (\<lambda>i. inst_Status i = ''active'' \<and> effectiveAtWithin now (inst_ValidFrom i) (inst_ValidTo i)) instrument
         \<or> \<not> opt_all (\<lambda>p. prov_Status p \<noteq> ''disabled'') provider")
    case True
    then have "lqs_Quotes r = []" "lqs_Asset r = asset" using rest by auto
    moreover have "asset_Status asset \<noteq> ''active''" if "instrument = None \<and> provider = None"
      using True that by (auto simp: opt_all_def)
    ultimately show thesis using that(1) unfiltered by blast
  next
    case False
    then obtain records where records: "ListLatestQuoteRecords (f 4) (latest_quotes_filter now asset instrument provider) (d 4) = Inr records"
      "lqs_Quotes r = order_by record_before records" "lqs_Asset r = asset"
      using rest by (auto simp: Let_def answered_Inr_iff refusing_Inr_iff)
    then have "list_all2 (\<lambda>x v. scanLatestQuoteRecord x = Inr v) (quote_rows (latest_quotes_filter now asset instrument provider) (d 4)) records"
      by (auto simp: ListLatestQuoteRecords_def checked_Inr_iff query_rows_def scan_rows_Inr split: option.splits)
    then show thesis using that(2) records(2,3) unfiltered by blast
  qed
qed

lemma list_all2_mem:
  "list_all2 P xs ys \<Longrightarrow> y \<in> set ys \<Longrightarrow> \<exists>x \<in> set xs. P x y" "list_all2 P xs ys \<Longrightarrow> x \<in> set xs \<Longrightarrow> \<exists>y \<in> set ys. P x y"
  by (induction xs ys rule: list_all2_induct) auto

lemma scanned_keys_distinct:
  assumes "list_all2 (\<lambda>x v. scanLatestQuoteRecord x = Inr v) rows records" "distinct (map (\<lambda>x. pi_ID (mr_Mapping (fst x))) rows)"
    and "\<forall>x \<in> set rows. quote_key (snd x) = mapping_key (fst x)"
  shows "distinct (map (\<lambda>v. quote_key (lqr_Quote v)) records)"
proof -
  have "map (\<lambda>v. quote_key (lqr_Quote v)) records = map (\<lambda>x. mapping_key (fst x)) rows"
    using assms(1,3) by (induction rows records rule: list_all2_induct) (simp_all add: scanLatestQuoteRecord_key)
  moreover have "distinct (map (\<lambda>x. mapping_key (fst x)) rows)"
    using assms(2) by (induction rows) (auto simp: mapping_key_def)
  ultimately show ?thesis by simp
qed

text \<open>
  C30. What a client reads as the latest quotes after any sequence of writes, whatever failed among them: one
  quote per mapping at most, each stored before or written, and none older than the stored one or than any
  write for its mapping that was answered, in whichever order the writes came. A query for the whole of an
  active asset leaves out no mapping that is on and has an answered write.
\<close>
theorem latest_quotes_serve_newest:
  assumes "catalog_ok s" "distinct (map inst_ID (db_instruments s))" "quotes_keyed s"
    and "run_upserts ws s = (answers, s')" "\<forall>w \<in> set ws. failures_only (fst w)"
    and "LatestQuotes_List (postgres_quotes pf f (\<lambda>_. s')) now input = Inr r"
  shows "distinct (map (\<lambda>v. quote_key (lqr_Quote v)) (lqs_Quotes r))
    \<and> (\<forall>v \<in> set (lqs_Quotes r).
        (\<exists>m q. scanLatestQuoteRecord (m, q) = Inr v \<and> (db_quotes s (quote_key (lqr_Quote v)) = Some q
            \<or> (\<exists>w \<in> set ws. \<exists>q'. NewQuote (snd w) = Inr q' \<and> q = quoteArguments q')))
        \<and> (\<forall>q. db_quotes s (quote_key (lqr_Quote v)) = Some q \<longrightarrow> q_MarketTime q \<le> q_MarketTime (lqr_Quote v))
        \<and> (\<forall>i b. i < length ws \<longrightarrow> answers ! i = Inr b \<longrightarrow> quote_key (snd (ws ! i)) = quote_key (lqr_Quote v) \<longrightarrow>
             timestamptz (q_MarketTime (snd (ws ! i))) \<le> q_MarketTime (lqr_Quote v)))
    \<and> (lq_InstrumentCode input = [] \<longrightarrow> lq_ProviderCode input = [] \<longrightarrow> asset_Status (lqs_Asset r) = ''active'' \<longrightarrow>
        (\<forall>m \<in> set (mapping_rows s). quote_served (latest_quotes_filter now (lqs_Asset r) None None) m \<longrightarrow>
          (\<forall>i b. i < length ws \<longrightarrow> answers ! i = Inr b \<longrightarrow> quote_key (snd (ws ! i)) = mapping_key m \<longrightarrow>
             (\<exists>v \<in> set (lqs_Quotes r). quote_key (lqr_Quote v) = mapping_key m))))"
proof -
  note written = run_upserts_effect [OF assms(4,5)]
  obtain x where s': "s' = s\<lparr>db_quotes := x\<rparr>" using written by blast
  have rows: "mapping_rows s' = mapping_rows s" and catalog: "catalog_ok s'" "distinct (map inst_ID (db_instruments s'))"
    using assms(1,2) by (simp_all add: s' mapping_rows_def catalog_ok_def cong: if_cong)
  have keyed: "quotes_keyed s'"
    unfolding quotes_keyed_def
  proof (intro allI impI)
    fix k q assume q: "db_quotes s' k = Some q"
    from written have "db_quotes s' k = db_quotes s k \<or> (\<exists>w \<in> set ws. \<exists>q'. NewQuote (snd w) = Inr q' \<and> quote_key (snd w) = k
      \<and> db_quotes s' k = Some (quoteArguments q'))" by blast
    then show "quote_key q = k"
    proof
      assume "db_quotes s' k = db_quotes s k" then show ?thesis using q assms(3) unfolding quotes_keyed_def by metis
    next
      assume "\<exists>w \<in> set ws. \<exists>q'. NewQuote (snd w) = Inr q' \<and> quote_key (snd w) = k \<and> db_quotes s' k = Some (quoteArguments q')"
      then obtain w q' where "NewQuote (snd w) = Inr q'" "quote_key (snd w) = k" "q = quoteArguments q'" using q by auto
      then show ?thesis using NewQuote_key [of "snd w" q'] by simp
    qed
  qed
  show ?thesis
  proof (cases rule: LatestQuotes_read [OF assms(6)])
    case 1
    then show ?thesis by auto
  next
    case (2 flt records)
    have set: "set (lqs_Quotes r) = set records" using 2(1) by simp
    let ?rows = "quote_rows flt s'"
    have all: "list_all2 (\<lambda>x v. scanLatestQuoteRecord x = Inr v) ?rows records" using 2(2) by simp
    have key: "\<forall>x \<in> set ?rows. quote_key (snd x) = mapping_key (fst x)"
      using keyed by (simp add: quotes_keyed_def quote_rows_set del: split_paired_All)
    have "distinct (map (\<lambda>v. quote_key (lqr_Quote v)) records)"
      by (rule scanned_keys_distinct [OF all quote_rows_distinct [OF catalog] key])
    then have once: "distinct (map (\<lambda>v. quote_key (lqr_Quote v)) (lqs_Quotes r))"
      by (simp add: 2(1) order_by_map_distinct)
    have stored: "\<exists>m q. scanLatestQuoteRecord (m, q) = Inr v \<and> db_quotes s' (quote_key (lqr_Quote v)) = Some q
      \<and> q_MarketTime (lqr_Quote v) = q_MarketTime q" if "v \<in> set (lqs_Quotes r)" for v
    proof -
      from that set list_all2_mem(1) [OF all] obtain x where "x \<in> set ?rows" "scanLatestQuoteRecord x = Inr v" by blast
      with key show ?thesis using scanLatestQuoteRecord_key [of x v]
        by (intro exI [of _ "fst x"] exI [of _ "snd x"]) (simp add: quote_rows_set)
    qed
    have newest: "(\<exists>m q. scanLatestQuoteRecord (m, q) = Inr v \<and> (db_quotes s (quote_key (lqr_Quote v)) = Some q
            \<or> (\<exists>w \<in> set ws. \<exists>q'. NewQuote (snd w) = Inr q' \<and> q = quoteArguments q')))
        \<and> (\<forall>q. db_quotes s (quote_key (lqr_Quote v)) = Some q \<longrightarrow> q_MarketTime q \<le> q_MarketTime (lqr_Quote v))
        \<and> (\<forall>i b. i < length ws \<longrightarrow> answers ! i = Inr b \<longrightarrow> quote_key (snd (ws ! i)) = quote_key (lqr_Quote v) \<longrightarrow>
             timestamptz (q_MarketTime (snd (ws ! i))) \<le> q_MarketTime (lqr_Quote v))" if "v \<in> set (lqs_Quotes r)" for v
    proof -
      from stored [OF that] obtain m q where v: "scanLatestQuoteRecord (m, q) = Inr v"
        "db_quotes s' (quote_key (lqr_Quote v)) = Some q" "q_MarketTime (lqr_Quote v) = q_MarketTime q" by blast
      have "db_quotes s (quote_key (lqr_Quote v)) = Some q \<or> (\<exists>w \<in> set ws. \<exists>q'. NewQuote (snd w) = Inr q' \<and> q = quoteArguments q')"
        using written v(2) by (metis option.inject)
      moreover have "\<forall>q. db_quotes s (quote_key (lqr_Quote v)) = Some q \<longrightarrow> q_MarketTime q \<le> q_MarketTime (lqr_Quote v)"
        using written v(2,3) by (metis not_older_def option.inject)
      moreover have "\<forall>i b. i < length ws \<longrightarrow> answers ! i = Inr b \<longrightarrow> quote_key (snd (ws ! i)) = quote_key (lqr_Quote v) \<longrightarrow>
             timestamptz (q_MarketTime (snd (ws ! i))) \<le> q_MarketTime (lqr_Quote v)"
        using written v(2,3) by (metis option.inject)
      ultimately show ?thesis using v(1) by blast
    qed
    have complete: "\<exists>v \<in> set (lqs_Quotes r). quote_key (lqr_Quote v) = mapping_key m"
      if m: "m \<in> set (mapping_rows s)" "quote_served flt m" and i: "i < length ws" "answers ! i = Inr b" "quote_key (snd (ws ! i)) = mapping_key m"
      for m i b
    proof -
      from written i obtain q where "db_quotes s' (mapping_key m) = Some q" by metis
      then have "(m, q) \<in> set ?rows" using m rows by (simp add: quote_rows_set)
      then obtain v where v: "v \<in> set records" "scanLatestQuoteRecord (m, q) = Inr v"
        using list_all2_mem(2) [OF all] by blast
      moreover have "quote_key q = mapping_key m" using key \<open>(m, q) \<in> set ?rows\<close> by fastforce
      ultimately show ?thesis using scanLatestQuoteRecord_key [OF v(2)] set by auto
    qed
    show ?thesis using once newest complete 2(3) by blast
  qed
qed

definition sample_quote :: "time \<Rightarrow> Quote" where
  "sample_quote t = \<lparr>q_InstrumentID = inst_ID (ec_Instrument sample_execution), q_ProviderInstrumentID = pi_ID (ec_ProviderInstrument sample_execution),
     q_MarketTime = t, q_LastPrice = 5, q_BidPrice = None, q_BidSize = None, q_AskPrice = None, q_AskSize = None,
     q_Open24H = None, q_High24H = None, q_Low24H = None, q_BaseVolume24H = None, q_QuoteVolume24H = None,
     q_QualityStatus = ''valid'', q_CollectedAt = t, q_Metadata = RawEmpty\<rparr>"

definition sample_writes :: "(faults \<times> Quote) list" where
  "sample_writes = [(no_faults, sample_quote (1002 * Hour)), (no_faults, sample_quote (1001 * Hour))]"

definition sample_quotes_input :: LatestQuotesInput where
  "sample_quotes_input = \<lparr>lq_AssetCode = asset_Code (ec_Asset sample_execution), lq_InstrumentCode = [], lq_ProviderCode = []\<rparr>"

definition sample_quote_answer :: "LatestQuotesResult answer" where
  "sample_quote_answer = LatestQuotes_List (postgres_quotes sample_platform (\<lambda>_. no_faults) (\<lambda>_. snd (run_upserts sample_writes sample_catalog)))
     (1005 * Hour) sample_quotes_input"

lemma sample_quote_keys: "quote_key (sample_quote t) = (42, 41)"
  by (simp add: quote_key_def sample_quote_def sample_execution_def)

lemma map_sum_InrD: "map_sum f g x = Inr y \<Longrightarrow> \<exists>r. x = Inr r \<and> g r = y"
  by (cases x) auto

theorem latest_quotes_serve_newest_witness:
  "\<exists>r. sample_quote_answer = Inr r \<and> map (\<lambda>v. q_MarketTime (lqr_Quote v)) (lqs_Quotes r) = [1002 * Hour]
    \<and> fst (run_upserts sample_writes sample_catalog) = [Inr True, Inr False]
    \<and> distinct (map (\<lambda>v. quote_key (lqr_Quote v)) (lqs_Quotes r))"
proof -
  have "map_sum (\<lambda>_. ()) (\<lambda>r. map (\<lambda>v. q_MarketTime (lqr_Quote v)) (lqs_Quotes r)) sample_quote_answer = Inr [1002 * Hour]"
    by code_simp
  note evaluated = map_sum_InrD [OF this]
  define times :: "LatestQuotesResult \<Rightarrow> time list" where "times = (\<lambda>r. map (\<lambda>v. q_MarketTime (lqr_Quote v)) (lqs_Quotes r))"
  from evaluated have "\<exists>r. sample_quote_answer = Inr r \<and> times r = [1002 * Hour]" unfolding times_def .
  then obtain r where r: "sample_quote_answer = Inr r" "times r = [1002 * Hour]" by blast
  have answers: "fst (run_upserts sample_writes sample_catalog) = [Inr True, Inr False]" by code_simp
  have start: "distinct (map inst_ID (db_instruments sample_catalog))" "quotes_keyed sample_catalog"
    by (simp_all add: sample_catalog_def quotes_keyed_def)
  have failures: "\<forall>w \<in> set sample_writes. failures_only (fst w)"
    by (simp add: sample_writes_def failures_only_def no_faults_def)
  have "distinct (map (\<lambda>v. quote_key (lqr_Quote v)) (lqs_Quotes r))"
    using latest_quotes_serve_newest [OF sample_catalog_ok start surjective_pairing failures r(1) [unfolded sample_quote_answer_def]] ..
  with r answers show ?thesis unfolding times_def by (intro exI [of _ r] conjI)
qed

end
