(* ===== verification/Subscriptions.thy ===== *)
theory Subscriptions
  imports CatalogQueries
begin

text \<open>
  Subscription administration: application/subscriptions.go over repository/postgres/subscription.go with the
  constraints of migration 00002. A store takes and returns the state, so that what other clients do between
  two calls of a command is covered by the choice of the store.
\<close>

subsection \<open>Inputs, records and stores\<close>

record SubscriptionFilter =
  sf_ProviderCode :: string
  sf_InstrumentCode :: string
  sf_Interval :: string
  sf_Enabled :: "bool option"
  sf_AfterID :: "ID option"
  sf_Limit :: int

record SubscriptionPage =
  sp_Items :: "CollectionSubscription list"
  sp_NextAfterID :: "ID option"

definition MaximumSubscriptionsPageSize :: int where "MaximumSubscriptionsPageSize = 100"

record CreateSubscriptionInput =
  cs_ProviderCode :: string
  cs_InstrumentCode :: string
  cs_Interval :: string
  cs_Enabled :: bool
  cs_Priority :: int
  cs_CloseDelaySeconds :: int
  cs_RevisionDelaySeconds :: "int option"
  cs_Reason :: string

record UpdateSubscriptionInput =
  us_ID :: ID
  us_Enabled :: "bool option"
  us_Priority :: "int option"
  us_CloseDelaySeconds :: "int option"
  us_RevisionDelaySeconds :: "int option"
  us_RevisionDelaySecondsSet :: bool
  us_Reason :: string

record SubscriptionRecord =
  sur_Subscription :: CollectionSubscription
  sur_ProviderCode :: Code
  sur_InstrumentCode :: Code
  sur_ProviderInstrumentCode :: Code
  sur_ProviderSymbol :: string

record SubscriptionSource =
  sus_ProviderID :: ID
  sus_ProviderCode :: Code
  sus_ProviderStatus :: string
  sus_InstrumentID :: ID
  sus_InstrumentCode :: Code
  sus_InstrumentStatus :: string
  sus_ProviderInstrumentID :: ID
  sus_ProviderInstrumentCode :: Code
  sus_ProviderSymbol :: string
  sus_Capabilities :: ProviderCapabilities
  sus_Enabled :: bool
  sus_ValidFrom :: "time option"
  sus_ValidTo :: "time option"

text \<open>
  \<^verbatim>\<open>SubscriptionListInput\<close> and \<^verbatim>\<open>SubscriptionReadFilter\<close> have the fields of a \<open>SubscriptionFilter\<close>.
\<close>

record 's SubscriptionStore =
  CreateSubscription :: "CollectionSubscription \<Rightarrow> 's \<Rightarrow> unit result \<times> 's"
  UpdateSubscriptionSettings :: "ID \<Rightarrow> SubscriptionSettings \<Rightarrow> SubscriptionAuditEntry \<Rightarrow> 's \<Rightarrow> unit result \<times> 's"
  ListSubscriptionRecords :: "SubscriptionFilter \<Rightarrow> 's \<Rightarrow> SubscriptionRecord list result \<times> 's"
  FindSubscriptionSources :: "string \<Rightarrow> string \<Rightarrow> time \<Rightarrow> 's \<Rightarrow> SubscriptionSource list result \<times> 's"
  GetSubscriptionRecord :: "ID \<Rightarrow> 's \<Rightarrow> SubscriptionRecord result \<times> 's"

record ServicePage =
  svp_Items :: "SubscriptionRecord list"
  svp_NextAfterID :: "ID option"

text \<open>A conversion to \<^verbatim>\<open>int16\<close> keeps the low bits.\<close>

definition int16 :: "int \<Rightarrow> int" where
  "int16 n = (n + 2 ^ 15) mod 2 ^ 16 - 2 ^ 15"

lemma int16_id: "0 \<le> n \<Longrightarrow> n \<le> 32767 \<Longrightarrow> int16 n = n"
  by (simp add: int16_def)

subsection \<open>Validation\<close>

definition validateSubscriptionSettings :: "int \<Rightarrow> int \<Rightarrow> int option \<Rightarrow> FieldViolation list" where
  "validateSubscriptionSettings priority closeDelay revisionDelay =
     violation (priority < 0 \<or> priority > 32767) ''priority'' ''must be between 0 and 32767''
     @ violation (closeDelay < 0 \<or> closeDelay > 2147483647) ''close_delay_seconds'' ''must be between 0 and 2147483647''
     @ violation (\<not> opt_all (\<lambda>d. \<not> (d < 0 \<or> d > 2147483647)) revisionDelay)
         ''revision_delay_seconds'' ''must be null or between 0 and 2147483647''"

text \<open>\<^verbatim>\<open>len([]rune(reason))\<close> counts the runes as \<^verbatim>\<open>utf8.RuneCountInString\<close> does.\<close>

definition validateSubscriptionReason :: "string \<Rightarrow> error option" where
  "validateSubscriptionReason reason =
     guard (reason = [] \<or> reason \<noteq> TrimSpace reason \<or> RuneCountInString reason > 512) ErrInvalidData"

definition reason_violation :: "string \<Rightarrow> FieldViolation list" where
  "reason_violation reason = violation (validateSubscriptionReason reason \<noteq> None)
     ''reason'' ''must be non-empty, trimmed and at most 512 characters''"

definition validateSubscriptionListInput :: "SubscriptionFilter \<Rightarrow> SubscriptionFilter answer" where
  "validateSubscriptionListInput input = (let violations =
      violation (sf_ProviderCode input \<noteq> [] \<and> err_of (ParseCode (sf_ProviderCode input)) \<noteq> None)
        ''provider'' ''must be a valid provider code''
      @ violation (sf_InstrumentCode input \<noteq> [] \<and> \<not> (err_of (ParseCode (sf_InstrumentCode input)) = None
          \<and> HasPrefix (sf_InstrumentCode input) ''instrument.'')) ''instrument_code'' ''must be a valid instrument code''
      @ violation (sf_Interval input \<noteq> [] \<and> err_of (ParseBarInterval (sf_Interval input)) \<noteq> None)
        ''interval'' ''must be a supported interval value''
      @ violation (\<not> opt_all (\<lambda>i. \<not> ID_IsZero i) (sf_AfterID input)) ''cursor'' ''contains an invalid subscription position''
      @ violation (sf_Limit input \<le> 0 \<or> sf_Limit input > MaximumSubscriptionsPageSize)
        ''limit'' ''must be an integer between 1 and 100''
    in if violations \<noteq> [] then Inl (App (ValidationError violations))
       else Inr (input\<lparr>sf_Limit := sf_Limit input + 1\<rparr>))"

definition validateCreateSubscriptionInput ::
  "CreateSubscriptionInput \<Rightarrow> (Code \<times> Code \<times> BarInterval \<times> SubscriptionSettings) answer" where
  "validateCreateSubscriptionInput input = (let violations =
      validateSubscriptionSettings (cs_Priority input) (cs_CloseDelaySeconds input) (cs_RevisionDelaySeconds input)
      @ violation (err_of (ParseCode (cs_ProviderCode input)) \<noteq> None) ''provider'' ''must be a valid provider code''
      @ violation (err_of (ParseCode (cs_InstrumentCode input)) \<noteq> None \<or> \<not> HasPrefix (cs_InstrumentCode input) ''instrument.'')
        ''instrument_code'' ''must be a valid instrument code''
      @ violation (err_of (ParseBarInterval (cs_Interval input)) \<noteq> None) ''interval'' ''must be a supported interval value''
      @ reason_violation (cs_Reason input)
    in if violations \<noteq> [] then Inl (App (ValidationError violations))
       else Inr (cs_ProviderCode input, cs_InstrumentCode input, cs_Interval input,
         \<lparr>set_Enabled = cs_Enabled input, set_Priority = int16 (cs_Priority input),
          set_CloseDelaySeconds = cs_CloseDelaySeconds input, set_RevisionDelaySeconds = cs_RevisionDelaySeconds input\<rparr>))"

definition or_zero :: "int option \<Rightarrow> int" where
  "or_zero v = (case v of None \<Rightarrow> 0 | Some n \<Rightarrow> n)"

definition validateUpdateSubscriptionInput :: "UpdateSubscriptionInput \<Rightarrow> failure option" where
  "validateUpdateSubscriptionInput input = (let violations =
      violation (ID_IsZero (us_ID input)) ''subscription_id'' ''must be a valid UUID''
      @ violation (us_Enabled input = None \<and> us_Priority input = None \<and> us_CloseDelaySeconds input = None
          \<and> \<not> us_RevisionDelaySecondsSet input) ''body'' ''must include at least one mutable setting''
      @ filter (\<lambda>v. \<not> (fv_Field v = ''priority'' \<and> us_Priority input = None
            \<or> fv_Field v = ''close_delay_seconds'' \<and> us_CloseDelaySeconds input = None
            \<or> fv_Field v = ''revision_delay_seconds'' \<and> \<not> us_RevisionDelaySecondsSet input))
          (validateSubscriptionSettings (or_zero (us_Priority input)) (or_zero (us_CloseDelaySeconds input)) (us_RevisionDelaySeconds input))
      @ reason_violation (us_Reason input)
    in if violations \<noteq> [] then Some (App (ValidationError violations)) else None)"

definition validateSubscriptionSource :: "SubscriptionSource \<Rightarrow> Code \<Rightarrow> Code \<Rightarrow> time \<Rightarrow> error option" where
  "validateSubscriptionSource src providerCode instrumentCode now = first_error
     [guard (ID_IsZero (sus_ProviderID src) \<or> ID_IsZero (sus_InstrumentID src) \<or> ID_IsZero (sus_ProviderInstrumentID src)
        \<or> sus_ProviderCode src \<noteq> providerCode \<or> sus_InstrumentCode src \<noteq> instrumentCode
        \<or> Code_IsZero (sus_ProviderInstrumentCode src) \<or> sus_ProviderSymbol src = []
        \<or> (sus_ProviderStatus src \<noteq> ''active'' \<and> sus_ProviderStatus src \<noteq> ''degraded'')
        \<or> sus_InstrumentStatus src \<noteq> ''active'' \<or> \<not> sus_Enabled src
        \<or> \<not> effectiveAtWithin now (sus_ValidFrom src) (sus_ValidTo src)) ErrInvalidState,
      ProviderCapabilities_Validate (sus_Capabilities src)]"

definition validateSubscriptionRecord :: "SubscriptionRecord \<Rightarrow> error option" where
  "validateSubscriptionRecord r = (let sub = sur_Subscription r in first_error
     [guard (ID_IsZero (sub_ID sub) \<or> ID_IsZero (sub_ProviderInstrumentID sub) \<or> Code_IsZero (sur_ProviderCode r)
        \<or> Code_IsZero (sur_InstrumentCode r) \<or> Code_IsZero (sur_ProviderInstrumentCode r) \<or> sur_ProviderSymbol r = []
        \<or> sub_Priority sub < 0 \<or> sub_CloseDelaySeconds sub < 0 \<or> \<not> opt_all (\<lambda>d. \<not> d < 0) (sub_RevisionDelaySeconds sub)
        \<or> IsZero (sub_CreatedAt sub) \<or> IsZero (sub_UpdatedAt sub)) ErrInvalidData,
      err_of (ParseBarInterval (sub_Interval sub))])"

definition classifySubscriptionFailure :: "error \<Rightarrow> failure" where
  "classifySubscriptionFailure err =
     (if errors_Is err ErrDatabaseUnavailable \<or> errors_Is err ErrRetryable then Cause err
      else App (WrapError err ''INTERNAL_ERROR'' ''internal server error'' False []))"

subsection \<open>Commands and list (subscriptions.go)\<close>

text \<open>The command's time comes from \<^verbatim>\<open>domain.UTC\<close>, so its location is UTC.\<close>

definition audit_entry :: "AuditContext \<Rightarrow> string \<Rightarrow> string \<Rightarrow> time \<Rightarrow> SubscriptionAuditEntry" where
  "audit_entry auditContext action reason now =
     \<lparr>sae_Action = action, sae_RequestedBy = au_requestedBy auditContext, sae_ActorType = au_actorType auditContext,
      sae_RequestID = au_requestID auditContext, sae_Reason = reason, sae_OccurredAt = now, sae_OccurredAtUTC = True\<rparr>"

definition subscriptionAuditFromContext :: "request_context \<Rightarrow> string \<Rightarrow> string \<Rightarrow> time \<Rightarrow> SubscriptionAuditEntry answer" where
  "subscriptionAuditFromContext ctx action reason now =
     (case AuditContextFromContext ctx of
        None \<Rightarrow> Inl (App (WrapError ErrInvalidData ''INTERNAL_ERROR'' ''internal server error'' False []))
      | Some auditContext \<Rightarrow>
          (case SubscriptionAuditEntry_Validate (audit_entry auditContext action reason now) of
             Some e \<Rightarrow> Inl (App (WrapError e ''INTERNAL_ERROR'' ''internal server error'' False []))
           | None \<Rightarrow> Inr (audit_entry auditContext action reason now)))"

text \<open>
  The JSON of an audit entry. The encoder of \<^verbatim>\<open>time.Time\<close> refuses years outside 0 to 9999, its text is
  that of \<^verbatim>\<open>RFC3339Nano\<close>.
\<close>

definition audit_json :: "SubscriptionAuditEntry \<Rightarrow> json" where
  "audit_json e = JObject
     [(''action'', JString (sae_Action e)), (''requested_by'', JString (sae_RequestedBy e)),
      (''actor_type'', JString (sae_ActorType e)), (''request_id'', JString (sae_RequestID e)),
      (''reason'', JString (sae_Reason e)), (''occurred_at'', JString (Format_RFC3339Nano (sae_OccurredAt e)))]"

definition marshal_audit :: "SubscriptionAuditEntry \<Rightarrow> json result" where
  "marshal_audit e = (case time_In_Date UTC_location (sae_OccurredAt e) of (year, _, _) \<Rightarrow>
     if year < 0 \<or> year > 9999 then Inl (ErrPlain ''year outside of range'') else Inr (JArray [audit_json e]))"

definition new_subscription :: "ID \<Rightarrow> SubscriptionSource \<Rightarrow> BarInterval \<Rightarrow> SubscriptionSettings \<Rightarrow> json \<Rightarrow> time \<Rightarrow> CollectionSubscription" where
  "new_subscription i src interval settings entries now =
     \<lparr>sub_ID = i, sub_ProviderInstrumentID = sus_ProviderInstrumentID src, sub_Interval = interval,
      sub_Enabled = set_Enabled settings, sub_Priority = set_Priority settings, sub_CloseDelaySeconds = set_CloseDelaySeconds settings,
      sub_RevisionDelaySeconds = set_RevisionDelaySeconds settings, sub_Metadata = RawValue (JObject [(''audit_log'', entries)]),
      sub_CreatedAt = now, sub_UpdatedAt = now\<rparr>"

definition recordFromSubscription :: "CollectionSubscription \<Rightarrow> SubscriptionSource \<Rightarrow> SubscriptionRecord" where
  "recordFromSubscription sub src = \<lparr>sur_Subscription = sub, sur_ProviderCode = sus_ProviderCode src,
     sur_InstrumentCode = sus_InstrumentCode src, sur_ProviderInstrumentCode = sus_ProviderInstrumentCode src,
     sur_ProviderSymbol = sus_ProviderSymbol src\<rparr>"

text \<open>What \<^verbatim>\<open>Create\<close> does between resolving the sources and storing the row.\<close>

definition subscription_to_create ::
  "(Code \<times> Code \<times> BarInterval \<times> SubscriptionSettings) \<Rightarrow> SubscriptionSource list \<Rightarrow> ID result \<Rightarrow> SubscriptionAuditEntry \<Rightarrow> time
     \<Rightarrow> (CollectionSubscription \<times> SubscriptionSource) answer" where
  "subscription_to_create parsed sources newID audit now = (case parsed of (providerCode, instrumentCode, interval, settings) \<Rightarrow>
     (case sources of
        [src] \<Rightarrow>
          refusing (map_option (\<lambda>e. App (WrapError e ''CONFLICT'' ''provider instrument is not available for subscription'' False []))
            (validateSubscriptionSource src providerCode instrumentCode now))
          (refusing (failing (\<not> cap_Historical (sus_Capabilities src) \<or> interval \<notin> set (cap_Intervals (sus_Capabilities src)))
            (App (NewError ''UNSUPPORTED_INTERVAL'' ''provider instrument does not support the requested interval'' False
              [(''interval'', DetailText interval)])))
          (answered classifySubscriptionFailure newID (\<lambda>i.
           refusing (failing (ID_IsZero i) (classifySubscriptionFailure ErrInvalidData))
           (answered classifySubscriptionFailure (marshal_audit audit) (\<lambda>entries.
             Inr (new_subscription i src interval settings entries now, src))))))
      | _ \<Rightarrow> Inl (refused ''provider'' ''must resolve to exactly one provider instrument for instrument_code'')))"

definition Subscription_Create ::
  "'s SubscriptionStore \<Rightarrow> time \<Rightarrow> ID result \<Rightarrow> request_context \<Rightarrow> CreateSubscriptionInput \<Rightarrow> 's \<Rightarrow> SubscriptionRecord answer \<times> 's" where
  "Subscription_Create store now newID ctx input s =
     (case validateCreateSubscriptionInput input of Inl e \<Rightarrow> (Inl e, s) | Inr parsed \<Rightarrow>
     (case subscriptionAuditFromContext ctx ''create'' (cs_Reason input) now of Inl e \<Rightarrow> (Inl e, s) | Inr audit \<Rightarrow>
     (case FindSubscriptionSources store (fst parsed) (fst (snd parsed)) now s of
        (Inl e, s1) \<Rightarrow> (Inl (classifySubscriptionFailure e), s1)
      | (Inr sources, s1) \<Rightarrow>
     (case subscription_to_create parsed sources newID audit now of Inl e \<Rightarrow> (Inl e, s1) | Inr (sub, src) \<Rightarrow>
     (case CreateSubscription store sub s1 of
        (Inl e, s2) \<Rightarrow> (Inl (if errors_Is e ErrConflict
            then App (WrapError e ''SUBSCRIPTION_ALREADY_EXISTS'' ''collection subscription already exists'' False [])
            else classifySubscriptionFailure e), s2)
      | (Inr _, s2) \<Rightarrow> (Inr (recordFromSubscription sub src), s2))))))"

definition patched :: "'a option \<Rightarrow> 'a \<Rightarrow> 'a" where
  "patched patch current = (case patch of None \<Rightarrow> current | Some v \<Rightarrow> v)"

definition patched_settings :: "UpdateSubscriptionInput \<Rightarrow> CollectionSubscription \<Rightarrow> SubscriptionSettings" where
  "patched_settings input sub =
     \<lparr>set_Enabled = patched (us_Enabled input) (sub_Enabled sub),
      set_Priority = patched (map_option int16 (us_Priority input)) (sub_Priority sub),
      set_CloseDelaySeconds = patched (us_CloseDelaySeconds input) (sub_CloseDelaySeconds sub),
      set_RevisionDelaySeconds = (if us_RevisionDelaySecondsSet input then us_RevisionDelaySeconds input
         else sub_RevisionDelaySeconds sub)\<rparr>"

definition with_settings :: "SubscriptionSettings \<Rightarrow> time \<Rightarrow> CollectionSubscription \<Rightarrow> CollectionSubscription" where
  "with_settings settings now sub = sub\<lparr>sub_Enabled := set_Enabled settings, sub_Priority := set_Priority settings,
     sub_CloseDelaySeconds := set_CloseDelaySeconds settings, sub_RevisionDelaySeconds := set_RevisionDelaySeconds settings,
     sub_UpdatedAt := now\<rparr>"

definition subscription_not_found :: "error \<Rightarrow> failure" where
  "subscription_not_found e = (if errors_Is e ErrNotFound
     then App (WrapError e ''SUBSCRIPTION_NOT_FOUND'' ''collection subscription not found'' False [])
     else classifySubscriptionFailure e)"

definition Subscription_Update ::
  "'s SubscriptionStore \<Rightarrow> time \<Rightarrow> request_context \<Rightarrow> UpdateSubscriptionInput \<Rightarrow> 's \<Rightarrow> SubscriptionRecord answer \<times> 's" where
  "Subscription_Update store now ctx input s =
     (case validateUpdateSubscriptionInput input of Some e \<Rightarrow> (Inl e, s) | None \<Rightarrow>
     (case subscriptionAuditFromContext ctx ''update'' (us_Reason input) now of Inl e \<Rightarrow> (Inl e, s) | Inr audit \<Rightarrow>
     (case GetSubscriptionRecord store (us_ID input) s of
        (Inl e, s1) \<Rightarrow> (Inl (subscription_not_found e), s1)
      | (Inr r, s1) \<Rightarrow>
     (case validateSubscriptionRecord r of Some e \<Rightarrow> (Inl (classifySubscriptionFailure e), s1) | None \<Rightarrow>
       let settings = patched_settings input (sur_Subscription r) in
     (case UpdateSubscriptionSettings store (us_ID input) settings audit s1 of
        (Inl e, s2) \<Rightarrow> (Inl (subscription_not_found e), s2)
      | (Inr _, s2) \<Rightarrow> (Inr (r\<lparr>sur_Subscription := with_settings settings now (sur_Subscription r)\<rparr>), s2))))))"

fun subscription_records_loop :: "SubscriptionRecord list \<Rightarrow> failure option" where
  "subscription_records_loop [] = None"
| "subscription_records_loop (r # rs) = (case validateSubscriptionRecord r of
     Some e \<Rightarrow> Some (classifySubscriptionFailure e) | None \<Rightarrow> subscription_records_loop rs)"

definition Subscription_List :: "'s SubscriptionStore \<Rightarrow> SubscriptionFilter \<Rightarrow> 's \<Rightarrow> ServicePage answer \<times> 's" where
  "Subscription_List store input s =
     (case validateSubscriptionListInput input of Inl e \<Rightarrow> (Inl e, s) | Inr flt \<Rightarrow>
     (case ListSubscriptionRecords store flt s of
        (Inl e, s1) \<Rightarrow> (Inl (classifySubscriptionFailure e), s1)
      | (Inr records, s1) \<Rightarrow>
          (refusing (subscription_records_loop records)
            (if int (length records) > sf_Limit input
             then Inr \<lparr>svp_Items = take (nat (sf_Limit input)) records,
               svp_NextAfterID = Some (sub_ID (sur_Subscription (last (take (nat (sf_Limit input)) records))))\<rparr>
             else Inr \<lparr>svp_Items = records, svp_NextAfterID = None\<rparr>), s1)))"

subsection \<open>The PostgreSQL repository (subscription.go)\<close>

definition subscriptionArguments :: "CollectionSubscription \<Rightarrow> CollectionSubscription" where
  "subscriptionArguments sub = sub\<lparr>sub_Metadata := jsonValue (sub_Metadata sub),
     sub_CreatedAt := timestamptz (sub_CreatedAt sub), sub_UpdatedAt := timestamptz (sub_UpdatedAt sub)\<rparr>"

text \<open>Both delays are sent as four-byte integers; a \<^verbatim>\<open>priority\<close> is an \<^verbatim>\<open>int16\<close>, the width of its column.\<close>

definition encode_delays :: "int \<Rightarrow> int option \<Rightarrow> driver_error option" where
  "encode_delays closeDelay revisionDelay = first_failure [encode_int4 closeDelay, Option.bind revisionDelay encode_int4]"

definition subscription_row_checks :: "CollectionSubscription \<Rightarrow> driver_error option" where
  "subscription_row_checks sub = first_failure
     [violates (\<not> json_Valid (sub_Metadata sub)) ''22P02'' '''',
      violates (\<not> varchar_ok 8 (sub_Interval sub)) ''22001'' '''',
      violates (\<not> sub_CloseDelaySeconds sub \<ge> 0) ''23514'' ''ck_collection_close_delay'',
      violates (sub_Interval sub \<notin> set [''1h'', ''1d'']) ''23514'' ''ck_collection_interval'',
      violates (\<not> sub_Priority sub \<ge> 0) ''23514'' ''ck_collection_priority'',
      violates (\<not> opt_all (\<lambda>d. d \<ge> 0) (sub_RevisionDelaySeconds sub)) ''23514'' ''ck_collection_revision_delay'']"

definition same_collection :: "CollectionSubscription \<Rightarrow> CollectionSubscription \<Rightarrow> bool" where
  "same_collection a b \<longleftrightarrow> sub_ProviderInstrumentID a = sub_ProviderInstrumentID b \<and> sub_Interval a = sub_Interval b"

definition subscription_references :: "DB \<Rightarrow> CollectionSubscription \<Rightarrow> driver_error option" where
  "subscription_references s sub = first_failure
     [violates (sub_ID sub \<in> set (map sub_ID (db_subs s))) ''23505'' ''collection_subscriptions_pkey'',
      violates (list_ex (same_collection sub) (db_subs s)) ''23505'' ''uq_collection_subscription'',
      violates (sub_ProviderInstrumentID sub \<notin> set (map pi_ID (db_mappings s))) ''23503''
        ''collection_subscriptions_provider_instrument_id_fkey'']"

definition insert_subscription :: "CollectionSubscription \<Rightarrow> DB \<Rightarrow> (driver_error + unit) \<times> DB" where
  "insert_subscription subscription s = (let sub = subscriptionArguments subscription in
     case first_failure [encode_delays (sub_CloseDelaySeconds sub) (sub_RevisionDelaySeconds sub),
            subscription_row_checks sub, subscription_references s sub] of
       Some e \<Rightarrow> (Inl e, s)
     | None \<Rightarrow> (Inr (), s\<lparr>db_subs := db_subs s @ [sub]\<rparr>))"

definition db_CreateSubscription :: "faults \<Rightarrow> CollectionSubscription \<Rightarrow> DB \<Rightarrow> unit result \<times> DB" where
  "db_CreateSubscription f sub s =
     (if ID_IsZero (sub_ID sub) \<or> ID_IsZero (sub_ProviderInstrumentID sub) then (Inl ErrInvalidData, s)
      else map_errors (autocommit f (insert_subscription sub) s))"

definition db_GetSubscription :: "faults \<Rightarrow> ID \<Rightarrow> DB \<Rightarrow> CollectionSubscription result" where
  "db_GetSubscription f i s = checked (guard (ID_IsZero i) ErrInvalidData)
     (load_row f 0 (\<lambda>s. select_by sub_ID i (db_subs s)) scanSubscription s)"

text \<open>The rows a list joins, by identity, behind the cursor.\<close>

record subscription_row =
  sbr_Subscription :: CollectionSubscription
  sbr_Mapping :: mapping_row

definition subscription_rows :: "DB \<Rightarrow> subscription_row list" where
  "subscription_rows s = [\<lparr>sbr_Subscription = sub, sbr_Mapping = r\<rparr>.
     sub \<leftarrow> db_subs s, r \<leftarrow> mapping_rows s, pi_ID (mr_Mapping r) = sub_ProviderInstrumentID sub]"

definition subscription_matches :: "SubscriptionFilter \<Rightarrow> subscription_row \<Rightarrow> bool" where
  "subscription_matches flt r \<longleftrightarrow>
     (sf_ProviderCode flt \<noteq> [] \<longrightarrow> prov_Code (mr_Provider (sbr_Mapping r)) = sf_ProviderCode flt)
     \<and> (sf_InstrumentCode flt \<noteq> [] \<longrightarrow> inst_Code (mr_Instrument (sbr_Mapping r)) = sf_InstrumentCode flt)
     \<and> (sf_Interval flt \<noteq> [] \<longrightarrow> sub_Interval (sbr_Subscription r) = sf_Interval flt)
     \<and> opt_all (\<lambda>on. sub_Enabled (sbr_Subscription r) = on) (sf_Enabled flt)
     \<and> opt_all (\<lambda>i. sub_ID (sbr_Subscription r) > i) (sf_AfterID flt)"

definition subscriptions_query :: "SubscriptionFilter \<Rightarrow> int \<Rightarrow> DB \<Rightarrow> subscription_row list" where
  "subscriptions_query flt limit s = take (nat limit)
     (order_by (\<lambda>a b. sub_ID (sbr_Subscription a) < sub_ID (sbr_Subscription b)) (filter (subscription_matches flt) (subscription_rows s)))"

definition defaultSubscriptionPageSize :: int where "defaultSubscriptionPageSize = 50"
definition maximumSubscriptionPageSize :: int where "maximumSubscriptionPageSize = 100"

definition subscriptionPageLimit :: "int \<Rightarrow> int result" where
  "subscriptionPageLimit n = (if n = 0 then Inr defaultSubscriptionPageSize
     else if n < 0 \<or> n > maximumSubscriptionPageSize then Inl ErrInvalidData else Inr n)"

definition db_ListSubscriptions :: "faults \<Rightarrow> SubscriptionFilter \<Rightarrow> DB \<Rightarrow> SubscriptionPage result" where
  "db_ListSubscriptions f flt s = bind_result (subscriptionPageLimit (sf_Limit flt)) (\<lambda>limit.
     bind_result (query_rows f (\<lambda>r. scanSubscription (sbr_Subscription r)) (subscriptions_query flt (limit + 1) s)) (\<lambda>items.
       if int (length items) > limit
       then Inr \<lparr>sp_Items = take (nat limit) items, sp_NextAfterID = Some (sub_ID (items ! nat (limit - 1)))\<rparr>
       else Inr \<lparr>sp_Items = items, sp_NextAfterID = None\<rparr>))"

text \<open>\<^verbatim>\<open>jsonb_set\<close> of the key with the extended array; a value that is not an array starts a new one.\<close>

definition append_audit :: "json \<Rightarrow> RawMessage \<Rightarrow> driver_error + RawMessage" where
  "append_audit entries metadata = (case metadata of
     RawValue (JObject kvs) \<Rightarrow>
       Inr (RawValue (JObject (json_set ''audit_log''
         (json_concat (case map_of kvs ''audit_log'' of Some (JArray old) \<Rightarrow> JArray old | _ \<Rightarrow> JArray []) entries) kvs)))
   | RawValue (JArray _) \<Rightarrow> Inl (PgError ''22P02'' '''')
   | _ \<Rightarrow> Inl (PgError ''22023'' ''''))"

definition updated_subscription ::
  "SubscriptionSettings \<Rightarrow> json \<Rightarrow> time \<Rightarrow> CollectionSubscription \<Rightarrow> driver_error + CollectionSubscription" where
  "updated_subscription settings entries t sub =
     (case append_audit entries (sub_Metadata sub) of
        Inl e \<Rightarrow> Inl e
      | Inr metadata \<Rightarrow> Inr ((with_settings settings (timestamptz t) sub)\<lparr>sub_Metadata := metadata\<rparr>))"

definition settings_statement :: "ID \<Rightarrow> SubscriptionSettings \<Rightarrow> json \<Rightarrow> time \<Rightarrow> DB \<Rightarrow> (driver_error + int) \<times> DB" where
  "settings_statement i settings entries t s =
     (case encode_delays (set_CloseDelaySeconds settings) (set_RevisionDelaySeconds settings) of
        Some e \<Rightarrow> (Inl e, s)
      | None \<Rightarrow>
        (case find (\<lambda>r. sub_ID r = i) (db_subs s) of
           None \<Rightarrow> (Inr 0, s)
         | Some row \<Rightarrow>
           (case updated_subscription settings entries t row of
              Inl e \<Rightarrow> (Inl e, s)
            | Inr row' \<Rightarrow>
              (case subscription_row_checks row' of
                 Some e \<Rightarrow> (Inl e, s)
               | None \<Rightarrow> (Inr 1, s\<lparr>db_subs := update_where (\<lambda>r. sub_ID r = i) (\<lambda>_. row') (db_subs s)\<rparr>)))))"

definition db_UpdateSubscriptionSettings ::
  "faults \<Rightarrow> ID \<Rightarrow> SubscriptionSettings \<Rightarrow> SubscriptionAuditEntry \<Rightarrow> DB \<Rightarrow> unit result \<times> DB" where
  "db_UpdateSubscriptionSettings f i settings audit s =
     (if ID_IsZero i \<or> set_Priority settings < 0 \<or> set_CloseDelaySeconds settings < 0
        \<or> \<not> opt_all (\<lambda>d. \<not> d < 0) (set_RevisionDelaySeconds settings) then (Inl ErrInvalidData, s)
      else case SubscriptionAuditEntry_Validate audit of Some e \<Rightarrow> (Inl e, s) | None \<Rightarrow>
      (case marshal_audit audit of Inl e \<Rightarrow> (Inl e, s) | Inr entries \<Rightarrow>
      (case map_errors (autocommit f (settings_statement i settings entries (sae_OccurredAt audit)) s) of
         (Inl e, s1) \<Rightarrow> (Inl e, s1)
       | (Inr affected, s1) \<Rightarrow> (if affected = 0 then Inl ErrNotFound else Inr (), s1))))"

definition scanSubscriptionRecord :: "subscription_row \<Rightarrow> SubscriptionRecord result" where
  "scanSubscriptionRecord row = (let r = sbr_Mapping row; sub = sbr_Subscription row in
     bind_result (ParseCode (prov_Code (mr_Provider r))) (\<lambda>providerCode.
     bind_result (ParseCode (inst_Code (mr_Instrument r))) (\<lambda>instrumentCode.
     bind_result (ParseCode (pi_Code (mr_Mapping r))) (\<lambda>mappingCode.
       Inr \<lparr>sur_Subscription = sub\<lparr>sub_Metadata := normalizedJSON (sub_Metadata sub),
           sub_CreatedAt := TimeToDatabase (sub_CreatedAt sub), sub_UpdatedAt := TimeToDatabase (sub_UpdatedAt sub)\<rparr>,
         sur_ProviderCode = providerCode, sur_InstrumentCode = instrumentCode, sur_ProviderInstrumentCode = mappingCode,
         sur_ProviderSymbol = pi_ExternalSymbol (mr_Mapping r)\<rparr>))))"

definition db_ListSubscriptionRecords :: "faults \<Rightarrow> SubscriptionFilter \<Rightarrow> DB \<Rightarrow> SubscriptionRecord list result" where
  "db_ListSubscriptionRecords f flt s =
     (if sf_Limit flt \<le> 0 \<or> sf_Limit flt > MaximumSubscriptionsPageSize + 1 \<or> \<not> opt_all (\<lambda>i. \<not> ID_IsZero i) (sf_AfterID flt)
      then Inl ErrInvalidData
      else query_rows f scanSubscriptionRecord (subscriptions_query flt (sf_Limit flt) s))"

definition db_GetSubscriptionRecord :: "faults \<Rightarrow> ID \<Rightarrow> DB \<Rightarrow> SubscriptionRecord result" where
  "db_GetSubscriptionRecord f i s = checked (guard (ID_IsZero i) ErrInvalidData)
     (load_row f 0 (\<lambda>s. select_by (\<lambda>r. sub_ID (sbr_Subscription r)) i (subscription_rows s)) scanSubscriptionRecord s)"

definition scanSubscriptionSource :: "mapping_row \<Rightarrow> SubscriptionSource result" where
  "scanSubscriptionSource r = (let p = mr_Provider r; i = mr_Instrument r; m = mr_Mapping r in
     bind_result (ParseCode (prov_Code p)) (\<lambda>providerCode.
     bind_result (ParseCode (inst_Code i)) (\<lambda>instrumentCode.
     bind_result (ParseCode (pi_Code m)) (\<lambda>mappingCode.
     bind_result (ParseProviderStatus (prov_Status p)) (\<lambda>providerStatus.
     bind_result (ParseInstrumentStatus (inst_Status i)) (\<lambda>instrumentStatus.
       Inr \<lparr>sus_ProviderID = prov_ID p, sus_ProviderCode = providerCode, sus_ProviderStatus = providerStatus,
         sus_InstrumentID = inst_ID i, sus_InstrumentCode = instrumentCode, sus_InstrumentStatus = instrumentStatus,
         sus_ProviderInstrumentID = pi_ID m, sus_ProviderInstrumentCode = mappingCode, sus_ProviderSymbol = pi_ExternalSymbol m,
         sus_Capabilities = pi_Capabilities m, sus_Enabled = pi_Enabled m, sus_ValidFrom = pi_ValidFrom m,
         sus_ValidTo = pi_ValidTo m\<rparr>))))))"

definition subscription_sources :: "string \<Rightarrow> string \<Rightarrow> time \<Rightarrow> DB \<Rightarrow> mapping_row list" where
  "subscription_sources providerCode instrumentCode t s = take 2 (order_by row_first (filter (\<lambda>r.
     prov_Code (mr_Provider r) = providerCode \<and> inst_Code (mr_Instrument r) = instrumentCode
     \<and> inst_Status (mr_Instrument r) = ''active'' \<and> mapping_on r (timestamptz t)) (mapping_rows s)))"

definition db_FindSubscriptionSources :: "faults \<Rightarrow> string \<Rightarrow> string \<Rightarrow> time \<Rightarrow> DB \<Rightarrow> SubscriptionSource list result" where
  "db_FindSubscriptionSources f providerCode instrumentCode t s =
     (if providerCode = [] \<or> instrumentCode = [] \<or> IsZero t then Inl ErrInvalidData
      else query_rows f scanSubscriptionSource (subscription_sources providerCode instrumentCode t s))"

text \<open>
  The store of a command: \<open>f 0\<close> are the failures of its reading, \<open>f 1\<close> those of its writing, and \<open>others\<close> is
  what other clients did between the two.
\<close>

definition postgres_subscriptions :: "(nat \<Rightarrow> faults) \<Rightarrow> (DB \<Rightarrow> DB) \<Rightarrow> DB SubscriptionStore" where
  "postgres_subscriptions f others =
     \<lparr>CreateSubscription = (\<lambda>sub s. db_CreateSubscription (f 1) sub (others s)),
      UpdateSubscriptionSettings = (\<lambda>i settings audit s. db_UpdateSubscriptionSettings (f 1) i settings audit (others s)),
      ListSubscriptionRecords = (\<lambda>flt s. (db_ListSubscriptionRecords (f 0) flt s, s)),
      FindSubscriptionSources = (\<lambda>providerCode instrumentCode t s. (db_FindSubscriptionSources (f 0) providerCode instrumentCode t s, s)),
      GetSubscriptionRecord = (\<lambda>i s. (db_GetSubscriptionRecord (f 0) i s, s))\<rparr>"

end
