(* ===== verification/SubscriptionProperties.thy ===== *)
theory SubscriptionProperties
  imports Subscriptions
begin

text \<open>
  Properties of the subscription administration over PostgreSQL: the audit log of a subscription tells every
  change of it, what the commands do on each outcome, and the walk through the list pages.
\<close>

subsection \<open>The audit log\<close>

definition audit_log :: "CollectionSubscription \<Rightarrow> json list" where
  "audit_log sub = (case sub_Metadata sub of
     RawValue (JObject kvs) \<Rightarrow> (case map_of kvs ''audit_log'' of Some (JArray entries) \<Rightarrow> entries | _ \<Rightarrow> []) | _ \<Rightarrow> [])"

text \<open>Every pair of mapping and interval is collected once, from a mapping that exists.\<close>

definition subs_ok :: "DB \<Rightarrow> bool" where
  "subs_ok s \<longleftrightarrow> distinct (map sub_ID (db_subs s))
     \<and> distinct (map (\<lambda>sub. (sub_ProviderInstrumentID sub, sub_Interval sub)) (db_subs s))
     \<and> (\<forall>sub \<in> set (db_subs s). sub_ProviderInstrumentID sub \<in> set (map pi_ID (db_mappings s)))"

text \<open>A later version of a subscription: the same collection, and its log longer unless nothing changed.\<close>

definition audited :: "CollectionSubscription \<Rightarrow> CollectionSubscription \<Rightarrow> bool" where
  "audited old new \<longleftrightarrow> sub_ID new = sub_ID old \<and> sub_ProviderInstrumentID new = sub_ProviderInstrumentID old
     \<and> sub_Interval new = sub_Interval old \<and> sub_CreatedAt new = sub_CreatedAt old
     \<and> (\<exists>more. audit_log new = audit_log old @ more \<and> (more = [] \<longrightarrow> new = old))"

lemma audited_refl [simp]: "audited sub sub"
  by (simp add: audited_def)

lemma audited_trans: "audited a b \<Longrightarrow> audited b c \<Longrightarrow> audited a c"
  unfolding audited_def by auto

text \<open>What any client can do to the subscriptions, with any failures.\<close>

inductive subscription_step :: "DB \<Rightarrow> DB \<Rightarrow> bool" where
  created: "db_CreateSubscription f sub s = (r, s') \<Longrightarrow> subscription_step s s'"
| updated: "db_UpdateSubscriptionSettings f i settings audit s = (r, s') \<Longrightarrow> subscription_step s s'"

inductive subscription_steps :: "DB \<Rightarrow> DB \<Rightarrow> bool" where
  none: "subscription_steps s s"
| more: "subscription_steps s t \<Longrightarrow> subscription_step t u \<Longrightarrow> subscription_steps s u"

inductive_cases subscription_stepE: "subscription_step s s'"

lemma map_of_json_set: "map_of (json_set k v kvs) k = Some v"
proof (cases "k \<in> fst ` set kvs")
  case True
  then have "map_of (map (\<lambda>(j, w). (j, if j = k then v else w)) kvs) k = Some v" by (induction kvs) auto
  with True show ?thesis by (simp add: json_set_def)
next
  case False
  then have "map_of kvs k = None" by (simp add: map_of_eq_None_iff)
  with False show ?thesis by (simp add: json_set_def map_add_def)
qed

lemma append_audit_log:
  assumes "append_audit (JArray entries) (sub_Metadata sub) = Inr metadata"
  shows "audit_log (sub'\<lparr>sub_Metadata := metadata\<rparr>) = audit_log sub @ entries"
  using assms
  by (auto simp: append_audit_def audit_log_def json_concat_def map_of_json_set split: RawMessage.splits json.splits option.splits)

lemma updated_subscription_Inr:
  assumes "updated_subscription settings (JArray entries) t sub = Inr sub'"
  shows "audit_log sub' = audit_log sub @ entries"
    and "\<exists>metadata. sub' = (with_settings settings (timestamptz t) sub)\<lparr>sub_Metadata := metadata\<rparr>"
  using assms append_audit_log [of entries sub _ "with_settings settings (timestamptz t) sub"]
  by (auto simp: updated_subscription_def split: sum.splits)

lemma marshal_audit_Inr: "marshal_audit e = Inr entries \<Longrightarrow> entries = JArray [audit_json e]"
  by (auto simp: marshal_audit_def split: prod.splits if_splits)

subsection \<open>The statements\<close>

lemma insert_subscription_Inr:
  assumes "insert_subscription sub s = (Inr v, s')"
  shows "s' = s\<lparr>db_subs := db_subs s @ [subscriptionArguments sub]\<rparr> \<and> subscription_references s (subscriptionArguments sub) = None
    \<and> subscription_row_checks (subscriptionArguments sub) = None"
  using assms by (auto simp: insert_subscription_def Let_def split: option.splits)

lemma subscription_references_None:
  "subscription_references s sub = None \<longleftrightarrow> sub_ID sub \<notin> sub_ID ` set (db_subs s)
     \<and> (\<forall>x \<in> set (db_subs s). \<not> same_collection sub x) \<and> sub_ProviderInstrumentID sub \<in> pi_ID ` set (db_mappings s)"
  by (auto simp: subscription_references_def list_ex_iff)

lemma insert_subscription_ok:
  assumes "subs_ok s" "insert_subscription sub s = (Inr v, s')" shows "subs_ok s'"
  using assms(1) insert_subscription_Inr [OF assms(2)]
  by (auto simp: subs_ok_def subscription_references_None same_collection_def)

lemma settings_statement_Inr:
  assumes "settings_statement i settings entries t s = (Inr n, s')"
  shows "(n = 0 \<and> s' = s \<and> (\<forall>r \<in> set (db_subs s). sub_ID r \<noteq> i))
    \<or> (n = 1 \<and> (\<exists>row row'. find (\<lambda>r. sub_ID r = i) (db_subs s) = Some row \<and> updated_subscription settings entries t row = Inr row'
        \<and> s' = s\<lparr>db_subs := update_where (\<lambda>r. sub_ID r = i) (\<lambda>_. row') (db_subs s)\<rparr>))"
  using assms by (auto simp: settings_statement_def find_None_iff split: option.splits sum.splits)

lemma update_where_row:
  assumes "distinct (map sub_ID rows)" "find (\<lambda>r. sub_ID r = i) rows = Some row"
  shows "update_where (\<lambda>r. sub_ID r = i) (\<lambda>_. row') rows = update_where (\<lambda>r. r = row) (\<lambda>_. row') rows" "row \<in> set rows" "sub_ID row = i"
proof -
  from assms(2) have row: "row \<in> set rows" "sub_ID row = i" by (auto simp: find_Some_iff in_set_conv_nth)
  then show "row \<in> set rows" "sub_ID row = i" .
  have "sub_ID r = i \<longleftrightarrow> r = row" if "r \<in> set rows" for r
    using row that assms(1) by (auto simp: distinct_map inj_on_def)
  then show "update_where (\<lambda>r. sub_ID r = i) (\<lambda>_. row') rows = update_where (\<lambda>r. r = row) (\<lambda>_. row') rows"
    by (auto simp: update_where_def)
qed

text \<open>One applied update: one row gets the settings and the log entry, and the rest of the database is as before.\<close>

lemma settings_statement_effect:
  assumes "subs_ok s" "settings_statement i settings (JArray [entry]) t s = (Inr n, s')"
  shows "(n = 0 \<and> s' = s) \<or> (n = 1 \<and> (\<exists>row \<in> set (db_subs s). sub_ID row = i \<and> (\<exists>metadata.
      let row' = (with_settings settings (timestamptz t) row)\<lparr>sub_Metadata := metadata\<rparr> in
        audit_log row' = audit_log row @ [entry] \<and> s' = s\<lparr>db_subs := update_where (\<lambda>r. r = row) (\<lambda>_. row') (db_subs s)\<rparr>)))"
  using settings_statement_Inr [OF assms(2)]
proof (elim disjE conjE exE)
  fix row row'
  assume n: "n = 1" and row: "find (\<lambda>r. sub_ID r = i) (db_subs s) = Some row"
    and row': "updated_subscription settings (JArray [entry]) t row = Inr row'"
    and s': "s' = s\<lparr>db_subs := update_where (\<lambda>r. sub_ID r = i) (\<lambda>_. row') (db_subs s)\<rparr>"
  have "distinct (map sub_ID (db_subs s))" using assms(1) by (simp add: subs_ok_def)
  note rows = update_where_row [OF this row]
  from updated_subscription_Inr [OF row'] obtain metadata where
    "audit_log row' = audit_log row @ [entry]" "row' = (with_settings settings (timestamptz t) row)\<lparr>sub_Metadata := metadata\<rparr>" by blast
  with n rows s' show ?thesis by (intro disjI2) (auto simp: Let_def intro!: bexI [of _ row] exI [of _ metadata])
qed auto

lemma with_settings_keeps [simp]:
  "sub_ID (with_settings settings t sub) = sub_ID sub" "sub_ProviderInstrumentID (with_settings settings t sub) = sub_ProviderInstrumentID sub"
  "sub_Interval (with_settings settings t sub) = sub_Interval sub" "sub_CreatedAt (with_settings settings t sub) = sub_CreatedAt sub"
  by (simp_all add: with_settings_def)

lemma settings_statement_audited:
  assumes "subs_ok s" "settings_statement i settings (JArray [entry]) t s = (Inr n, s')"
  shows "subs_ok s' \<and> (\<forall>sub \<in> set (db_subs s). \<exists>sub' \<in> set (db_subs s'). audited sub sub')"
proof (cases "s' = s")
  case True
  then show ?thesis using assms(1) audited_refl by blast
next
  case False
  with settings_statement_effect [OF assms] obtain row metadata row' where row: "row \<in> set (db_subs s)"
    and row': "row' = (with_settings settings (timestamptz t) row)\<lparr>sub_Metadata := metadata\<rparr>" "audit_log row' = audit_log row @ [entry]"
    and s': "s' = s\<lparr>db_subs := update_where (\<lambda>r. r = row) (\<lambda>_. row') (db_subs s)\<rparr>" by (auto simp: Let_def)
  have same: "(sub_ID row', sub_ProviderInstrumentID row', sub_Interval row') = (sub_ID row, sub_ProviderInstrumentID row, sub_Interval row)"
    by (simp add: row'(1))
  have keys: "map key (update_where (\<lambda>r. r = row) (\<lambda>_. row') (db_subs s)) = map key (db_subs s)" if "key row' = key row" for key :: "_ \<Rightarrow> 'k"
    using that by (auto simp: update_where_def)
  have "subs_ok s'"
    using assms(1) same unfolding subs_ok_def s'
    by (simp add: keys [of sub_ID] keys [of "\<lambda>sub. (sub_ProviderInstrumentID sub, sub_Interval sub)"]) (auto simp: update_where_set)
  moreover have "audited row row'" using row'(2) by (simp add: audited_def row'(1))
  then have "audited sub (if sub = row then row' else sub)" for sub by (cases "sub = row") simp_all
  moreover have "(if sub = row then row' else sub) \<in> set (db_subs s')" if "sub \<in> set (db_subs s)" for sub
    using that by (simp add: s' update_where_def)
  ultimately show ?thesis by (intro conjI ballI bexI [where x = "if _ = row then row' else _"])
qed

lemma autocommit_preserves:
  assumes "autocommit f st s = (r, s')" "P s" "\<And>v t. st s = (Inr v, t) \<Longrightarrow> P t" shows "P s'"
  using autocommit_atomic [OF assms(1)] assms(2,3) by auto

lemma map_errors_snd: "snd (map_errors x) = snd x"
  by (cases x; cases "fst x") (auto simp: map_errors_def)

text \<open>A step leaves every subscription in a later version, and changes nothing else.\<close>

lemma subscription_step_audited:
  assumes "subscription_step s s'" "subs_ok s"
  shows "subs_ok s' \<and> (\<forall>sub \<in> set (db_subs s). \<exists>sub' \<in> set (db_subs s'). audited sub sub')"
proof -
  let ?P = "\<lambda>s'. subs_ok s' \<and> (\<forall>sub \<in> set (db_subs s). \<exists>sub' \<in> set (db_subs s'). audited sub sub')"
  have same: "?P s" using assms(2) audited_refl by blast
  from assms(1) show ?thesis
  proof cases
    case (created f sub r)
    show ?thesis
    proof (cases "ID_IsZero (sub_ID sub) \<or> ID_IsZero (sub_ProviderInstrumentID sub)")
      case True
      then show ?thesis using created same by (simp add: db_CreateSubscription_def)
    next
      case False
      then have "s' = snd (autocommit f (insert_subscription sub) s)"
        using created map_errors_snd [of "autocommit f (insert_subscription sub) s"] by (simp add: db_CreateSubscription_def)
      then obtain r' where auto: "autocommit f (insert_subscription sub) s = (r', s')" by (metis surjective_pairing)
      show ?thesis
      proof (rule autocommit_preserves [OF auto, of ?P])
        fix v t assume t: "insert_subscription sub s = (Inr v, t)"
        have "set (db_subs s) \<subseteq> set (db_subs t)" using insert_subscription_Inr [OF t] by auto
        then show "?P t" using insert_subscription_ok [OF assms(2) t] audited_refl by blast
      qed (rule same)
    qed
  next
    case (updated f i settings audit r)
    show ?thesis
    proof (cases "s' = s")
      case False
      then obtain entries where entries: "marshal_audit audit = Inr entries"
        and "s' = snd (autocommit f (settings_statement i settings entries (sae_OccurredAt audit)) s)"
        using updated map_errors_snd [of "autocommit f (settings_statement i settings _ (sae_OccurredAt audit)) s"]
        by (auto simp: db_UpdateSubscriptionSettings_def split: if_splits option.splits sum.splits prod.splits) (metis snd_conv)+
      then obtain r' where auto: "autocommit f (settings_statement i settings entries (sae_OccurredAt audit)) s = (r', s')"
        by (metis surjective_pairing)
      show ?thesis
        by (rule autocommit_preserves [OF auto, of ?P], rule same)
          (use settings_statement_audited [OF assms(2)] marshal_audit_Inr [OF entries] in blast)
    qed (use same in simp)
  qed
qed

lemma subscription_steps_audited:
  assumes "subscription_steps s s'" "subs_ok s"
  shows "subs_ok s' \<and> (\<forall>sub \<in> set (db_subs s). \<exists>sub' \<in> set (db_subs s'). audited sub sub')"
  using assms
proof (induction rule: subscription_steps.induct)
  case (more s t u)
  then have t: "subs_ok t" "\<forall>sub \<in> set (db_subs s). \<exists>sub' \<in> set (db_subs t). audited sub sub'" by auto
  from subscription_step_audited [OF more.hyps(2) t(1)] t(2) audited_trans show ?case by blast
qed (use audited_refl in blast)

lemma subscription_steps_trans: "subscription_steps t u \<Longrightarrow> subscription_steps s t \<Longrightarrow> subscription_steps s u"
  by (induction rule: subscription_steps.induct) (auto intro: subscription_steps.intros)

subsection \<open>The commands over PostgreSQL\<close>

text \<open>What a creation would insert: everything before the insertion.\<close>

definition creation :: "faults \<Rightarrow> time \<Rightarrow> ID result \<Rightarrow> request_context \<Rightarrow> CreateSubscriptionInput \<Rightarrow> DB
     \<Rightarrow> (CollectionSubscription \<times> SubscriptionSource) answer" where
  "creation f now newID ctx input s =
     bind_answer (validateCreateSubscriptionInput input) (\<lambda>parsed.
     bind_answer (subscriptionAuditFromContext ctx ''create'' (cs_Reason input) now) (\<lambda>audit.
     answered classifySubscriptionFailure (db_FindSubscriptionSources f (fst parsed) (fst (snd parsed)) now s) (\<lambda>sources.
       subscription_to_create parsed sources newID audit now)))"

lemma Subscription_Create_split:
  "Subscription_Create (postgres_subscriptions f others) now newID ctx input s =
     (case creation (f 0) now newID ctx input s of Inl e \<Rightarrow> (Inl e, s) | Inr (sub, src) \<Rightarrow>
       (case db_CreateSubscription (f 1) sub (others s) of
          (Inl e, s2) \<Rightarrow> (Inl (if errors_Is e ErrConflict
            then App (WrapError e ''SUBSCRIPTION_ALREADY_EXISTS'' ''collection subscription already exists'' False [])
            else classifySubscriptionFailure e), s2)
        | (Inr _, s2) \<Rightarrow> (Inr (recordFromSubscription sub src), s2)))"
  by (auto simp: Subscription_Create_def creation_def postgres_subscriptions_def bind_answer_def answered_def split: sum.splits)

lemma Subscription_Create_steps:
  assumes "Subscription_Create (postgres_subscriptions f others) now newID ctx input s = (r, s')" "subscription_steps s (others s)"
  shows "subscription_steps s s'"
proof (cases "creation (f 0) now newID ctx input s")
  case (Inl e)
  then show ?thesis using assms(1) by (simp add: Subscription_Create_split subscription_steps.none)
next
  case (Inr c)
  obtain sub src where c: "c = (sub, src)" by force
  obtain r2 s2 where "db_CreateSubscription (f 1) sub (others s) = (r2, s2)" by force
  moreover from this have "s' = s2" using assms(1) Inr c by (auto simp: Subscription_Create_split split: sum.splits)
  ultimately show ?thesis using assms(2) by (blast intro: subscription_steps.more subscription_step.created)
qed

lemma Subscription_Update_cases:
  assumes "Subscription_Update (postgres_subscriptions f others) now ctx input s = (r, s')"
  obtains (refused) e where "r = Inl e" "s' = s"
  | (sent) rec audit a r2 where "db_GetSubscriptionRecord (f 0) (us_ID input) s = Inr rec" "AuditContextFromContext ctx = Some a"
      "audit = audit_entry a ''update'' (us_Reason input) now"
      "db_UpdateSubscriptionSettings (f 1) (us_ID input) (patched_settings input (sur_Subscription rec)) audit (others s) = (r2, s')"
      "r = (case r2 of Inl e \<Rightarrow> Inl (subscription_not_found e)
        | Inr _ \<Rightarrow> Inr (rec\<lparr>sur_Subscription := with_settings (patched_settings input (sur_Subscription rec)) now (sur_Subscription rec)\<rparr>))"
  using assms
  by (auto simp: Subscription_Update_def postgres_subscriptions_def subscriptionAuditFromContext_def Let_def
      split: option.splits sum.splits prod.splits)

lemma Subscription_Update_steps:
  assumes "Subscription_Update (postgres_subscriptions f others) now ctx input s = (r, s')" "subscription_steps s (others s)"
  shows "subscription_steps s s'"
  using Subscription_Update_cases [OF assms(1)]
  by cases (use assms(2) in \<open>blast intro: subscription_steps.intros subscription_step.intros\<close>)+

text \<open>
  C31. Every change of a subscription is on record, in any interleaving of the commands of any number of
  administrators and with any failure of the driver or a commit: a subscription never disappears nor changes
  its identity, mapping, interval or creation time, its audit log only grows, and it grows with every change.
  No mapping is collected twice at one interval.
\<close>
theorem subscription_changes_audited:
  assumes "subs_ok s" "\<forall>t. subscription_steps t (others t)"
    and "Subscription_Create (postgres_subscriptions f others) now newID ctx create s = (r, s')
      \<or> Subscription_Update (postgres_subscriptions f others) now ctx update s = (r, s')"
  shows "subs_ok s' \<and> (\<forall>sub \<in> set (db_subs s). \<exists>sub' \<in> set (db_subs s'). audited sub sub')"
proof -
  have "subscription_steps s s'" using assms(2,3) Subscription_Create_steps Subscription_Update_steps by blast
  then show ?thesis using assms(1) by (rule subscription_steps_audited)
qed


subsection \<open>What a creation does\<close>

definition failure_code :: "failure \<Rightarrow> string" where
  "failure_code e = (case e of App a \<Rightarrow> ae_Code a | Cause _ \<Rightarrow> [])"

lemma classifySubscriptionFailure_code: "failure_code (classifySubscriptionFailure e) \<in> {[], ''INTERNAL_ERROR''}"
  by (simp add: failure_code_def classifySubscriptionFailure_def WrapError_def NewError_def)

lemma validateCreateSubscriptionInput_Inr:
  assumes "validateCreateSubscriptionInput input = Inr parsed"
  shows "parsed = (cs_ProviderCode input, cs_InstrumentCode input, cs_Interval input,
      \<lparr>set_Enabled = cs_Enabled input, set_Priority = cs_Priority input, set_CloseDelaySeconds = cs_CloseDelaySeconds input,
       set_RevisionDelaySeconds = cs_RevisionDelaySeconds input\<rparr>)
    \<and> 0 \<le> cs_Priority input \<and> 0 \<le> cs_CloseDelaySeconds input \<and> cs_CloseDelaySeconds input \<le> 2147483647
    \<and> opt_all (\<lambda>d. 0 \<le> d \<and> d \<le> 2147483647) (cs_RevisionDelaySeconds input) \<and> cs_Interval input \<in> {''1h'', ''1d''}"
  using assms
  by (auto simp: validateCreateSubscriptionInput_def Let_def validateSubscriptionSettings_def int16_id err_of_None_iff
      ParseBarInterval_def opt_all_def split: if_splits option.splits)

lemma creation_Inr:
  assumes "creation f now newID ctx input s = Inr (sub, src)"
  obtains parsed audit a i r where "validateCreateSubscriptionInput input = Inr parsed" "AuditContextFromContext ctx = Some a"
    "audit = audit_entry a ''create'' (cs_Reason input) now" "newID = Inr i" "i \<noteq> 0"
    "subscription_sources (cs_ProviderCode input) (cs_InstrumentCode input) now s = [r]" "scanSubscriptionSource r = Inr src"
    "cap_Historical (sus_Capabilities src)" "cs_Interval input \<in> set (cap_Intervals (sus_Capabilities src))"
    "validateSubscriptionSource src (cs_ProviderCode input) (cs_InstrumentCode input) now = None"
    "sub = new_subscription i src (cs_Interval input) (snd (snd (snd parsed))) (JArray [audit_json audit]) now"
proof -
  obtain parsed audit sources where parsed: "validateCreateSubscriptionInput input = Inr parsed"
    and audit: "subscriptionAuditFromContext ctx ''create'' (cs_Reason input) now = Inr audit"
    and sources: "db_FindSubscriptionSources f (fst parsed) (fst (snd parsed)) now s = Inr sources"
    and made: "subscription_to_create parsed sources newID audit now = Inr (sub, src)"
    using assms by (auto simp: creation_def bind_answer_Inr_iff answered_Inr_iff)
  note p = validateCreateSubscriptionInput_Inr [OF parsed]
  obtain i where i: "newID = Inr i" "i \<noteq> 0" and one: "sources = [src]" and src: "cap_Historical (sus_Capabilities src)"
    "cs_Interval input \<in> set (cap_Intervals (sus_Capabilities src))"
    "validateSubscriptionSource src (cs_ProviderCode input) (cs_InstrumentCode input) now = None"
    and sub: "sub = new_subscription i src (cs_Interval input) (snd (snd (snd parsed))) (JArray [audit_json audit]) now"
    using made p
    by (auto simp: subscription_to_create_def refusing_Inr_iff answered_Inr_iff failing_def ID_IsZero_def
        dest!: marshal_audit_Inr split: list.splits if_splits)
  have "list_all2 (\<lambda>r v. scanSubscriptionSource r = Inr v)
      (subscription_sources (cs_ProviderCode input) (cs_InstrumentCode input) now s) [src]"
    using sources p one by (auto simp: db_FindSubscriptionSources_def query_rows_def scan_rows_Inr split: if_splits option.splits)
  then obtain r where r: "subscription_sources (cs_ProviderCode input) (cs_InstrumentCode input) now s = [r]" "scanSubscriptionSource r = Inr src"
    by (auto simp: list_all2_Cons2)
  from audit obtain a where a: "AuditContextFromContext ctx = Some a" "audit = audit_entry a ''create'' (cs_Reason input) now"
    by (auto simp: subscriptionAuditFromContext_def split: option.splits)
  show thesis by (rule that [OF parsed a i r src sub])
qed

lemma scanSubscriptionSource_mapping: "scanSubscriptionSource r = Inr src \<Longrightarrow> sus_ProviderInstrumentID src = pi_ID (mr_Mapping r)
    \<and> sus_Capabilities src = pi_Capabilities (mr_Mapping r)"
  by (auto simp: scanSubscriptionSource_def Let_def bind_result_Inr_iff)

lemma subscription_sources_rows: "set (subscription_sources p i t s) \<subseteq> set (mapping_rows s)"
  unfolding subscription_sources_def by (auto dest!: in_set_takeD)

lemma mapping_rows_mapping: "r \<in> set (mapping_rows s) \<Longrightarrow> mr_Mapping r \<in> set (db_mappings s)"
  by (auto simp: mapping_rows_def split: if_splits)

text \<open>A prepared row passes every check of the table but those of the unique keys.\<close>

lemma creation_insertable:
  assumes "creation f now newID ctx input s = Inr (sub, src)"
  shows "insert_subscription sub s = (if (\<exists>x \<in> set (db_subs s). same_collection sub x \<or> sub_ID x = sub_ID sub)
     then (Inl (if sub_ID sub \<in> sub_ID ` set (db_subs s) then PgError ''23505'' ''collection_subscriptions_pkey''
            else PgError ''23505'' ''uq_collection_subscription''), s)
     else (Inr (), s\<lparr>db_subs := db_subs s @ [subscriptionArguments sub]\<rparr>))"
    and "sub_ID sub \<noteq> 0 \<and> sub_ProviderInstrumentID sub = sus_ProviderInstrumentID src \<and> sus_ProviderInstrumentID src \<noteq> 0"
proof -
  from creation_Inr [OF assms] obtain parsed a i r where parsed: "validateCreateSubscriptionInput input = Inr parsed" and i: "i \<noteq> 0"
    and r: "subscription_sources (cs_ProviderCode input) (cs_InstrumentCode input) now s = [r]" "scanSubscriptionSource r = Inr src"
    and src: "validateSubscriptionSource src (cs_ProviderCode input) (cs_InstrumentCode input) now = None"
    and sub: "sub = new_subscription i src (cs_Interval input) (snd (snd (snd parsed)))
      (JArray [audit_json (audit_entry a ''create'' (cs_Reason input) now)]) now" by metis
  note p = validateCreateSubscriptionInput_Inr [OF parsed]
  have "sus_ProviderInstrumentID src \<noteq> 0" using src by (simp add: validateSubscriptionSource_def ID_IsZero_def)
  then show "sub_ID sub \<noteq> 0 \<and> sub_ProviderInstrumentID sub = sus_ProviderInstrumentID src \<and> sus_ProviderInstrumentID src \<noteq> 0"
    using i by (simp add: sub new_subscription_def)
  have "r \<in> set (mapping_rows s)" using subscription_sources_rows [of "cs_ProviderCode input" "cs_InstrumentCode input" now s] r(1) by simp
  then have mapped: "sub_ProviderInstrumentID sub \<in> pi_ID ` set (db_mappings s)"
    using mapping_rows_mapping scanSubscriptionSource_mapping [OF r(2)] by (auto simp: sub new_subscription_def)
  have encoded: "encode_delays (sub_CloseDelaySeconds (subscriptionArguments sub)) (sub_RevisionDelaySeconds (subscriptionArguments sub)) = None"
    using p by (auto simp: encode_delays_def subscriptionArguments_def sub new_subscription_def int4_ok_def opt_all_def split: option.splits)
  have checks: "subscription_row_checks (subscriptionArguments sub) = None"
    using p by (auto simp: subscription_row_checks_def subscriptionArguments_def sub new_subscription_def opt_all_def
        json_Valid_def jsonValue_def varchar_ok_def RuneCountInString_def split: option.splits)
  have args: "sub_ID (subscriptionArguments sub) = sub_ID sub" "same_collection (subscriptionArguments sub) = same_collection sub"
    "sub_ProviderInstrumentID (subscriptionArguments sub) = sub_ProviderInstrumentID sub"
    by (auto simp: subscriptionArguments_def same_collection_def fun_eq_iff)
  show "insert_subscription sub s = (if (\<exists>x \<in> set (db_subs s). same_collection sub x \<or> sub_ID x = sub_ID sub)
     then (Inl (if sub_ID sub \<in> sub_ID ` set (db_subs s) then PgError ''23505'' ''collection_subscriptions_pkey''
            else PgError ''23505'' ''uq_collection_subscription''), s)
     else (Inr (), s\<lparr>db_subs := db_subs s @ [subscriptionArguments sub]\<rparr>))"
    using mapped encoded checks
    by (auto simp: insert_subscription_def Let_def subscription_references_def args violates_def list_ex_iff image_iff)
qed

lemma creation_Inl:
  assumes "creation f now newID ctx input s = Inl e" shows "failure_code e \<noteq> ''SUBSCRIPTION_ALREADY_EXISTS''"
  using assms classifySubscriptionFailure_code
  by (auto simp: creation_def bind_answer_def answered_def validateCreateSubscriptionInput_def Let_def subscriptionAuditFromContext_def
      subscription_to_create_def refusing_def failing_def failure_code_def ValidationError_def NewError_def WrapError_def refused_def
      classifySubscriptionFailure_def split: sum.splits option.splits list.splits if_splits)

text \<open>
  C32. What a creation does when the database answers. It creates exactly one row, from the only mapping of the
  named provider and instrument that is in effect and offers the interval, with the settings asked for and an
  audit log of one entry, the caller's; or it refuses, and then nothing has changed. The refusal is
  \<^verbatim>\<open>SUBSCRIPTION_ALREADY_EXISTS\<close> exactly when the row it prepared meets a stored one with its mapping and
  interval, or with its identity.
\<close>
theorem Subscription_Create_outcomes:
  assumes "Subscription_Create (postgres_subscriptions (\<lambda>_. no_faults) id) now newID ctx input s = (r, s')"
  shows "case r of
      Inr rec \<Rightarrow> (\<exists>m a sub. subscription_sources (cs_ProviderCode input) (cs_InstrumentCode input) now s = [m]
        \<and> cap_Historical (pi_Capabilities (mr_Mapping m)) \<and> cs_Interval input \<in> set (cap_Intervals (pi_Capabilities (mr_Mapping m)))
        \<and> AuditContextFromContext ctx = Some a \<and> sub = subscriptionArguments (sur_Subscription rec)
        \<and> s' = s\<lparr>db_subs := db_subs s @ [sub]\<rparr> \<and> (\<forall>x \<in> set (db_subs s). \<not> same_collection sub x)
        \<and> sub_ProviderInstrumentID sub = pi_ID (mr_Mapping m) \<and> sub_Interval sub = cs_Interval input
        \<and> sub_Enabled sub = cs_Enabled input \<and> sub_Priority sub = cs_Priority input
        \<and> sub_CloseDelaySeconds sub = cs_CloseDelaySeconds input \<and> sub_RevisionDelaySeconds sub = cs_RevisionDelaySeconds input
        \<and> audit_log sub = [audit_json (audit_entry a ''create'' (cs_Reason input) now)])
    | Inl e \<Rightarrow> s' = s \<and> (failure_code e = ''SUBSCRIPTION_ALREADY_EXISTS'' \<longleftrightarrow>
        (\<exists>sub src. creation no_faults now newID ctx input s = Inr (sub, src)
          \<and> (\<exists>x \<in> set (db_subs s). same_collection sub x \<or> sub_ID x = sub_ID sub)))"
proof (cases "creation no_faults now newID ctx input s")
  case (Inl e)
  then have "r = Inl e" "s' = s" using assms by (simp_all add: Subscription_Create_split)
  then show ?thesis using Inl creation_Inl [OF Inl] by simp
next
  case (Inr c)
  obtain sub src where c: "c = (sub, src)" by force
  note made = Inr [unfolded c]
  note insertion = creation_insertable [OF made]
  have create: "db_CreateSubscription no_faults sub s = map_errors (insert_subscription sub s)"
    using insertion(2) by (auto simp: db_CreateSubscription_def autocommit_def no_faults_def ID_IsZero_def insertion(1))
  show ?thesis
  proof (cases "\<exists>x \<in> set (db_subs s). same_collection sub x \<or> sub_ID x = sub_ID sub")
    case True
    then have "db_CreateSubscription no_faults sub s = (Inl (ErrJoin ErrConflict (ErrPlain ''23505'')), s)"
      unfolding create insertion(1) by (simp add: map_errors_def MapError_def)
    then show ?thesis using assms made True
      by (auto simp: Subscription_Create_split failure_code_def WrapError_def NewError_def)
  next
    case False
    then have "db_CreateSubscription no_faults sub s = (Inr (), s\<lparr>db_subs := db_subs s @ [subscriptionArguments sub]\<rparr>)"
      unfolding create insertion(1) by (simp add: map_errors_def)
    then have r: "r = Inr (recordFromSubscription sub src)" "s' = s\<lparr>db_subs := db_subs s @ [subscriptionArguments sub]\<rparr>"
      using assms made by (auto simp: Subscription_Create_split)
    from creation_Inr [OF made] obtain parsed a i m where parsed: "validateCreateSubscriptionInput input = Inr parsed"
      and a: "AuditContextFromContext ctx = Some a" and m: "subscription_sources (cs_ProviderCode input) (cs_InstrumentCode input) now s = [m]"
        "scanSubscriptionSource m = Inr src" and src: "cap_Historical (sus_Capabilities src)" "cs_Interval input \<in> set (cap_Intervals (sus_Capabilities src))"
      and sub: "sub = new_subscription i src (cs_Interval input) (snd (snd (snd parsed)))
        (JArray [audit_json (audit_entry a ''create'' (cs_Reason input) now)]) now" by metis
    have unique: "\<forall>x \<in> set (db_subs s). \<not> same_collection (subscriptionArguments sub) x"
      using False by (simp add: same_collection_def subscriptionArguments_def)
    show ?thesis
      unfolding r sum.case
      using validateCreateSubscriptionInput_Inr [OF parsed] scanSubscriptionSource_mapping [OF m(2)] m(1) a src unique
      by (intro exI [of _ m] exI [of _ a] exI [of _ "subscriptionArguments sub"])
        (simp add: recordFromSubscription_def subscriptionArguments_def sub new_subscription_def audit_log_def jsonValue_def)
  qed
qed

subsection \<open>An example\<close>

definition sample_request :: request_context where
  "sample_request = \<lparr>rc_principal = None, rc_audit = Some \<lparr>au_requestedBy = ''ada'', au_actorType = ''user'', au_requestID = ''r1''\<rparr>\<rparr>"

definition sample_creation :: CreateSubscriptionInput where
  "sample_creation = \<lparr>cs_ProviderCode = prov_Code (ec_Provider sample_execution), cs_InstrumentCode = inst_Code (ec_Instrument sample_execution),
     cs_Interval = ''1h'', cs_Enabled = True, cs_Priority = 7, cs_CloseDelaySeconds = 60, cs_RevisionDelaySeconds = None, cs_Reason = ''start''\<rparr>"

definition sample_patch :: "int option \<Rightarrow> int option \<Rightarrow> UpdateSubscriptionInput" where
  "sample_patch priority closeDelay = \<lparr>us_ID = 77, us_Enabled = None, us_Priority = priority, us_CloseDelaySeconds = closeDelay,
     us_RevisionDelaySeconds = None, us_RevisionDelaySecondsSet = False, us_Reason = ''tune''\<rparr>"

definition quiet_subscriptions :: "DB SubscriptionStore" where
  "quiet_subscriptions = postgres_subscriptions (\<lambda>_. no_faults) id"

definition sample_created :: "SubscriptionRecord answer \<times> DB" where
  "sample_created = Subscription_Create quiet_subscriptions (1000 * Hour) (Inr 77) sample_request sample_creation sample_catalog"

lemma sample_created_eq: "sample_created = (fst sample_created, snd sample_created)"
  by simp

lemma sample_created_subs: "subs_ok (snd sample_created) \<and> map sub_ID (db_subs (snd sample_created)) = [77]"
  by code_simp

text \<open>Once created, a second creation is refused with the code for it.\<close>

theorem Subscription_Create_outcomes_witness:
  "\<exists>e. Subscription_Create quiet_subscriptions (1001 * Hour) (Inr 78) sample_request sample_creation (snd sample_created) = (Inl e, snd sample_created)
    \<and> failure_code e = ''SUBSCRIPTION_ALREADY_EXISTS''"
proof -
  let ?again = "Subscription_Create quiet_subscriptions (1001 * Hour) (Inr 78) sample_request sample_creation (snd sample_created)"
  have "case fst ?again of Inl e \<Rightarrow> failure_code e = ''SUBSCRIPTION_ALREADY_EXISTS'' | Inr _ \<Rightarrow> False" by code_simp
  then obtain e where e: "fst ?again = Inl e" "failure_code e = ''SUBSCRIPTION_ALREADY_EXISTS''" by (auto split: sum.splits)
  then have "?again = (Inl e, snd ?again)" by (metis surjective_pairing)
  moreover from Subscription_Create_outcomes [OF this [unfolded quiet_subscriptions_def]] have "snd ?again = snd sample_created"
    by (simp add: quiet_subscriptions_def)
  ultimately show ?thesis using e(2) by auto
qed

theorem subscription_changes_audited_witness:
  "subs_ok (snd (Subscription_Update quiet_subscriptions (1002 * Hour) sample_request (sample_patch (Some 9) None) (snd sample_created)))
    \<and> map sub_Priority (db_subs (snd (Subscription_Update quiet_subscriptions (1002 * Hour) sample_request (sample_patch (Some 9) None)
        (snd sample_created)))) = [9]"
proof
  have "\<forall>t. subscription_steps t (id t)" by (simp add: subscription_steps.none)
  then show "subs_ok (snd (Subscription_Update quiet_subscriptions (1002 * Hour) sample_request (sample_patch (Some 9) None) (snd sample_created)))"
    using subscription_changes_audited [where others = id and f = "\<lambda>_. no_faults" and s = "snd sample_created"
        and update = "sample_patch (Some 9) None" and now = "1002 * Hour" and ctx = sample_request] sample_created_subs
    unfolding quiet_subscriptions_def by (metis surjective_pairing)
  show "map sub_Priority (db_subs (snd (Subscription_Update quiet_subscriptions (1002 * Hour) sample_request (sample_patch (Some 9) None)
        (snd sample_created)))) = [9]" by code_simp
qed

text \<open>
  Two patches of different settings that overlap: the later writer sends back the setting it had read before
  the other one changed it, and the other change is lost, although both are answered as applied and audited.
\<close>

lemma overlapping_patches_lose_one:
  "(let other = (\<lambda>s. snd (Subscription_Update quiet_subscriptions (1002 * Hour) sample_request (sample_patch (Some 9) None) s));
        s' = snd (Subscription_Update (postgres_subscriptions (\<lambda>_. no_faults) other) (1003 * Hour) sample_request
          (sample_patch None (Some 30)) (snd sample_created))
    in map (\<lambda>sub. (sub_Priority sub, sub_CloseDelaySeconds sub, length (audit_log sub))) (db_subs s') = [(7, 30, 3)])"
  by code_simp

end
