(* ===== verification/IngestionQueries.thy ===== *)
theory IngestionQueries
  imports Composition CatalogQueries
begin

text \<open>
  The ingestion status queries: application/ingestion_queries.go over repository/postgres/ingestion_queries.go.
  A run is filtered by the status the SQL statement derives from its tasks and reported with the one the
  service derives from their counts; the property at the end of \<open>RunPages\<close> says that they are the same.
\<close>

subsection \<open>Inputs and records (ingestion_queries.go)\<close>

definition MaximumIngestionManagementPageSize :: int where "MaximumIngestionManagementPageSize = 100"

text \<open>\<^verbatim>\<open>RunReadFilter\<close> and \<^verbatim>\<open>TaskReadFilter\<close> are other names of the input types.\<close>

record RunListInput =
  rl_RunType :: string
  rl_TriggerType :: string
  rl_Status :: string
  rl_RequestedBy :: string
  rl_CreatedFrom :: "time option"
  rl_CreatedTo :: "time option"
  rl_AfterID :: "ID option"
  rl_Limit :: int

record TaskListInput =
  tl_RunID :: "ID option"
  tl_Status :: string
  tl_ProviderCode :: string
  tl_InstrumentCode :: string
  tl_Interval :: string
  tl_CreatedFrom :: "time option"
  tl_CreatedTo :: "time option"
  tl_AfterID :: "ID option"
  tl_Limit :: int

text \<open>A \<^verbatim>\<open>map[string]string\<close> is a partial map.\<close>

record RunRecord =
  rr_Run :: IngestionRun
  rr_Snapshot :: RunTaskSnapshot
  rr_Summary :: RunSummary
  rr_Context :: "string \<rightharpoonup> string"

record TaskRecord =
  tkr_Task :: IngestionTask
  tkr_RunType :: string
  tkr_TriggerType :: string
  tkr_SubscriptionInterval :: string
  tkr_ProviderID :: ID
  tkr_ProviderCode :: Code
  tkr_InstrumentID :: ID
  tkr_InstrumentCode :: Code
  tkr_ProviderInstrumentID :: ID
  tkr_ProviderInstrumentCode :: Code
  tkr_ProviderSymbol :: string
  tkr_ErrorSummary :: "string option"
  tkr_SafeErrorDetails :: "string \<rightharpoonup> string"

record RunPage =
  rp_Items :: "RunRecord list"
  rp_NextAfterID :: "ID option"

record TaskPage =
  tp_Items :: "TaskRecord list"
  tp_NextAfterID :: "ID option"

record IngestionQueryReader =
  iq_ListRunRecords :: "RunListInput \<Rightarrow> RunRecord list result"
  iq_GetRunRecord :: "ID \<Rightarrow> RunRecord result"
  iq_ListTaskRecords :: "TaskListInput \<Rightarrow> TaskRecord list result"
  iq_GetTaskRecord :: "ID \<Rightarrow> TaskRecord result"

subsection \<open>Validation\<close>

definition run_types :: "string list" where
  "run_types = [''incremental'', ''backfill'', ''repair'', ''revision'']"

definition trigger_types :: "string list" where
  "trigger_types = [''scheduler'', ''manual'', ''recovery'']"

definition listed_task_statuses :: "string list" where
  "listed_task_statuses = [''pending'', ''running'', ''retry_wait'', ''success'', ''failed'', ''canceled'']"

definition oneOf :: "string \<Rightarrow> string list \<Rightarrow> bool" where
  "oneOf v allowed \<longleftrightarrow> list_ex (\<lambda>candidate. v = candidate) allowed"

lemma oneOf_iff [simp]: "oneOf v allowed \<longleftrightarrow> v \<in> set allowed"
  by (auto simp: oneOf_def list_ex_iff)

text \<open>\<^verbatim>\<open>utf8.ValidString\<close>: no byte stands alone that is not ASCII.\<close>

definition ValidString :: "string \<Rightarrow> bool" where
  "ValidString s \<longleftrightarrow> list_all (\<lambda>r. length r > 1 \<or> list_all (\<lambda>b. b < 128) r) (runes (map byte s))"

definition validOperationalText :: "string \<Rightarrow> int \<Rightarrow> bool" where
  "validOperationalText v maximum \<longleftrightarrow>
     \<not> (v = [] \<or> v \<noteq> TrimSpace v \<or> \<not> ValidString v \<or> RuneCountInString v > maximum) \<and> \<not> has_control v"

definition validateManagementPage :: "time option \<Rightarrow> time option \<Rightarrow> ID option \<Rightarrow> int \<Rightarrow> FieldViolation list" where
  "validateManagementPage createdFrom createdTo after limit =
     violation (\<not> opt_all (\<lambda>t. \<not> IsZero t) createdFrom) ''created_from'' ''must be a valid timestamp''
     @ violation (\<not> opt_all (\<lambda>t. \<not> IsZero t) createdTo) ''created_to'' ''must be a valid timestamp''
     @ violation (case (createdFrom, createdTo) of (Some a, Some b) \<Rightarrow> \<not> b > a | _ \<Rightarrow> False)
         ''created_from'' ''must be earlier than created_to''
     @ violation (\<not> opt_all (\<lambda>i. \<not> ID_IsZero i) after) ''cursor'' ''contains an invalid position''
     @ violation (limit < 1 \<or> limit > MaximumIngestionManagementPageSize) ''limit'' ''must be between 1 and 100''"

definition run_list_violations :: "RunListInput \<Rightarrow> FieldViolation list" where
  "run_list_violations input =
     violation (rl_RunType input \<noteq> [] \<and> \<not> oneOf (rl_RunType input) run_types) ''run_type'' ''is not supported''
     @ violation (rl_TriggerType input \<noteq> [] \<and> \<not> oneOf (rl_TriggerType input) trigger_types) ''trigger_type'' ''is not supported''
     @ violation (rl_Status input \<noteq> [] \<and> \<not> oneOf (rl_Status input)
         [''pending'', ''running'', ''partial'', ''success'', ''failed'', ''canceled'']) ''status'' ''is not supported''
     @ violation (rl_RequestedBy input \<noteq> [] \<and> \<not> validOperationalText (rl_RequestedBy input) 128)
         ''requested_by'' ''must be trimmed and at most 128 characters''
     @ validateManagementPage (rl_CreatedFrom input) (rl_CreatedTo input) (rl_AfterID input) (rl_Limit input)"

definition validateRunListInput :: "RunListInput \<Rightarrow> RunListInput answer" where
  "validateRunListInput input =
     (if run_list_violations input \<noteq> [] then Inl (App (ValidationError (run_list_violations input)))
      else Inr (input\<lparr>rl_Limit := rl_Limit input + 1\<rparr>))"

definition task_list_violations :: "TaskListInput \<Rightarrow> FieldViolation list" where
  "task_list_violations input =
     violation (\<not> opt_all (\<lambda>i. \<not> ID_IsZero i) (tl_RunID input)) ''run_id'' ''must be a valid UUID''
     @ violation (tl_Status input \<noteq> [] \<and> \<not> oneOf (tl_Status input) listed_task_statuses) ''status'' ''is not supported''
     @ violation (tl_ProviderCode input \<noteq> [] \<and> err_of (ParseCode (tl_ProviderCode input)) \<noteq> None)
         ''provider'' ''must be a valid provider code''
     @ violation (tl_InstrumentCode input \<noteq> [] \<and> \<not> (err_of (ParseCode (tl_InstrumentCode input)) = None
         \<and> HasPrefix (tl_InstrumentCode input) ''instrument.'')) ''instrument_code'' ''must be a valid instrument code''
     @ violation (tl_Interval input \<noteq> [] \<and> err_of (ParseBarInterval (tl_Interval input)) \<noteq> None)
         ''interval'' ''must be one of 1h or 1d''
     @ validateManagementPage (tl_CreatedFrom input) (tl_CreatedTo input) (tl_AfterID input) (tl_Limit input)"

definition validateTaskListInput :: "TaskListInput \<Rightarrow> TaskListInput answer" where
  "validateTaskListInput input =
     (if task_list_violations input \<noteq> [] then Inl (App (ValidationError (task_list_violations input)))
      else Inr (input\<lparr>tl_Limit := tl_Limit input + 1\<rparr>))"

subsection \<open>Enriching the records\<close>

text \<open>
  Decoding into \<^verbatim>\<open>map[string]any\<close>: of equal keys the last one stays, and \<^verbatim>\<open>null\<close> decodes to the empty map.
\<close>

definition sanitizeStringObject :: "RawMessage \<Rightarrow> string list \<Rightarrow> string \<rightharpoonup> string" where
  "sanitizeStringObject raw allowed = (case raw of
     RawValue (JObject kvs) \<Rightarrow> (\<lambda>k. if k \<in> set allowed then
        (case map_of (rev kvs) k of Some (JString t) \<Rightarrow> if validOperationalText t 512 then Some t else None | _ \<Rightarrow> None) else None)
   | _ \<Rightarrow> Map.empty)"

definition run_context_keys :: "string list" where
  "run_context_keys = [''trigger'', ''reason'', ''actor_type'', ''request_id'', ''provider'', ''instrument_code'', ''interval'',
     ''range_start'', ''range_end'']"

definition enrichRunRecord :: "RunRecord \<Rightarrow> RunRecord result" where
  "enrichRunRecord r =
     checked (guard (ID_IsZero (run_ID (rr_Run r)) \<or> rs_RunID (rr_Snapshot r) \<noteq> run_ID (rr_Run r) \<or> IsZero (run_CreatedAt (rr_Run r))
        \<or> \<not> oneOf (run_RunType (rr_Run r)) run_types \<or> \<not> oneOf (run_TriggerType (rr_Run r)) trigger_types) ErrInvalidData)
     (bind_result (SummarizeRun (rr_Snapshot r)) (\<lambda>summary.
        Inr (r\<lparr>rr_Summary := summary, rr_Context := sanitizeStringObject (run_Context (rr_Run r)) run_context_keys\<rparr>)))"

definition task_error_messages :: "(string \<times> string) list" where
  "task_error_messages =
     [(''rate_limited'', ''provider rate limit exceeded''), (''network'', ''provider network request failed''),
      (''temporary_unavailable'', ''provider temporarily unavailable''), (''unauthorized'', ''provider authentication failed''),
      (''invalid_instrument'', ''provider instrument is invalid''), (''unsupported_interval'', ''provider interval is unsupported''),
      (''bad_request'', ''provider rejected the request''), (''invalid_response'', ''provider returned an invalid response''),
      (''unknown'', ''provider request failed''), (''database_unavailable'', ''database temporarily unavailable''),
      (''temporary_failure'', ''service temporarily unavailable''), (''adapter_not_registered'', ''provider adapter is not registered''),
      (''provider_limit_exceeded'', ''provider pagination limit was exceeded''),
      (''configuration_not_found'', ''ingestion configuration was not found''),
      (''configuration_invalid'', ''ingestion configuration or data contract is invalid''), (''internal_error'', ''ingestion task failed''),
      (''lease_expired'', ''worker lease expired before completion''),
      (''lease_recovery_exhausted'', ''worker lease recovery limit was exhausted'')]"

definition normalizeTaskError :: "string option \<Rightarrow> string option \<times> string option" where
  "normalizeTaskError code = (case code of
     None \<Rightarrow> (None, None)
   | Some c \<Rightarrow> (case map_of task_error_messages c of
       Some message \<Rightarrow> (Some c, Some message)
     | None \<Rightarrow> (Some ''internal_error'', Some ''ingestion task failed'')))"

text \<open>The details keep their provider code only when it is a code.\<close>

definition safe_error_details :: "RawMessage \<Rightarrow> string \<rightharpoonup> string" where
  "safe_error_details raw = (let details = sanitizeStringObject raw [''provider_code''] in
     case details ''provider_code'' of
       Some code \<Rightarrow> if err_of (ParseCode code) \<noteq> None then details(''provider_code'' := None) else details
     | None \<Rightarrow> details)"

definition enrichTaskRecord :: "TaskRecord \<Rightarrow> TaskRecord result" where
  "enrichTaskRecord r = (let t = tkr_Task r in
     checked (first_error
       [guard (ID_IsZero (task_ID t) \<or> ID_IsZero (task_RunID t) \<or> ID_IsZero (task_SubscriptionID t)
          \<or> ID_IsZero (tkr_ProviderID r) \<or> ID_IsZero (tkr_InstrumentID r) \<or> ID_IsZero (tkr_ProviderInstrumentID r)
          \<or> Code_IsZero (tkr_ProviderCode r) \<or> Code_IsZero (tkr_InstrumentCode r) \<or> Code_IsZero (tkr_ProviderInstrumentCode r)
          \<or> tkr_ProviderSymbol r = [] \<or> \<not> task_RangeEnd t > task_RangeStart t \<or> IsZero (task_CreatedAt t) \<or> IsZero (task_UpdatedAt t)
          \<or> \<not> oneOf (task_Status t) listed_task_statuses
          \<or> \<not> oneOf (tkr_RunType r) run_types \<or> \<not> oneOf (tkr_TriggerType r) trigger_types) ErrInvalidData,
        guard (err_of (ParseBarInterval (tkr_SubscriptionInterval r)) \<noteq> None) ErrInvalidData])
     (Inr (r\<lparr>tkr_Task := t\<lparr>task_ErrorCode := fst (normalizeTaskError (task_ErrorCode t))\<rparr>,
         tkr_ErrorSummary := snd (normalizeTaskError (task_ErrorCode t)),
         tkr_SafeErrorDetails := safe_error_details (task_ErrorDetails t)\<rparr>)))"

definition classifyIngestionQueryFailure :: "error \<Rightarrow> bool \<Rightarrow> failure" where
  "classifyIngestionQueryFailure err task =
     (if errors_Is err ErrNotFound then
        (if task then App (WrapError err ''TASK_NOT_FOUND'' ''ingestion task not found'' False [])
         else App (WrapError err ''NOT_FOUND'' ''ingestion run not found'' False []))
      else if errors_Is err ErrDatabaseUnavailable \<or> errors_Is err ErrRetryable then Cause err
      else App (WrapError err ''INTERNAL_ERROR'' ''internal server error'' False []))"

subsection \<open>The queries\<close>

text \<open>Records are enriched in order; the first failure ends the request. \<open>scan_rows\<close> is that loop.\<close>

definition ListRuns :: "IngestionQueryReader \<Rightarrow> RunListInput \<Rightarrow> RunPage answer" where
  "ListRuns reader input =
     bind_answer (validateRunListInput input) (\<lambda>flt.
     answered (\<lambda>e. classifyIngestionQueryFailure e False) (iq_ListRunRecords reader flt) (\<lambda>loaded.
     answered (\<lambda>e. classifyIngestionQueryFailure e False) (scan_rows enrichRunRecord loaded) (\<lambda>records.
       case cut_page (\<lambda>r. run_ID (rr_Run r)) (nat (rl_Limit input)) records of
         (items, next) \<Rightarrow> Inr \<lparr>rp_Items = items, rp_NextAfterID = next\<rparr>)))"

definition GetRun :: "IngestionQueryReader \<Rightarrow> ID \<Rightarrow> RunRecord answer" where
  "GetRun reader i =
     refusing (failing (ID_IsZero i) (refused ''run_id'' ''must be a valid UUID''))
     (answered (\<lambda>e. classifyIngestionQueryFailure e False) (iq_GetRunRecord reader i) (\<lambda>r.
      answered (\<lambda>e. classifyIngestionQueryFailure e False) (enrichRunRecord r) Inr))"

definition ListTasks :: "IngestionQueryReader \<Rightarrow> TaskListInput \<Rightarrow> TaskPage answer" where
  "ListTasks reader input =
     bind_answer (validateTaskListInput input) (\<lambda>flt.
     answered (\<lambda>e. classifyIngestionQueryFailure e True) (iq_ListTaskRecords reader flt) (\<lambda>loaded.
     answered (\<lambda>e. classifyIngestionQueryFailure e True) (scan_rows enrichTaskRecord loaded) (\<lambda>records.
       case cut_page (\<lambda>r. task_ID (tkr_Task r)) (nat (tl_Limit input)) records of
         (items, next) \<Rightarrow> Inr \<lparr>tp_Items = items, tp_NextAfterID = next\<rparr>)))"

definition GetTask :: "IngestionQueryReader \<Rightarrow> ID \<Rightarrow> TaskRecord answer" where
  "GetTask reader i =
     refusing (failing (ID_IsZero i) (refused ''task_id'' ''must be a valid UUID''))
     (answered (\<lambda>e. classifyIngestionQueryFailure e True) (iq_GetTaskRecord reader i) (\<lambda>r.
      answered (\<lambda>e. classifyIngestionQueryFailure e True) (enrichTaskRecord r) Inr))"

subsection \<open>The PostgreSQL reader (ingestion_queries.go)\<close>

text \<open>The status of the common table expression; all counts are zero for a run without tasks.\<close>

definition derived_status :: "IngestionTask list \<Rightarrow> string" where
  "derived_status ts =
     (if status_count ''pending'' ts = int (length ts) then ''pending''
      else if int (length (filter (\<lambda>t. task_Status t \<in> set [''pending'', ''running'', ''retry_wait'']) ts)) > 0 then ''running''
      else if status_count ''success'' ts = int (length ts) then ''success''
      else if status_count ''failed'' ts = int (length ts) then ''failed''
      else if status_count ''canceled'' ts = int (length ts) then ''canceled''
      else ''partial'')"

definition run_matches :: "RunListInput \<Rightarrow> DB \<Rightarrow> IngestionRun \<Rightarrow> bool" where
  "run_matches flt s r \<longleftrightarrow>
     (rl_RunType flt \<noteq> [] \<longrightarrow> run_RunType r = rl_RunType flt)
     \<and> (rl_TriggerType flt \<noteq> [] \<longrightarrow> run_TriggerType r = rl_TriggerType flt)
     \<and> (rl_Status flt \<noteq> [] \<longrightarrow> derived_status (tasks_of_run s (run_ID r)) = rl_Status flt)
     \<and> (rl_RequestedBy flt \<noteq> [] \<longrightarrow> run_RequestedBy r = Some (rl_RequestedBy flt))
     \<and> opt_all (\<lambda>t. run_CreatedAt r \<ge> timestamptz t) (rl_CreatedFrom flt)
     \<and> opt_all (\<lambda>t. run_CreatedAt r < timestamptz t) (rl_CreatedTo flt)
     \<and> opt_all (\<lambda>i. run_ID r < i) (rl_AfterID flt)"

definition runs_query :: "RunListInput \<Rightarrow> DB \<Rightarrow> IngestionRun list" where
  "runs_query flt s = take (nat (rl_Limit flt)) (order_by (\<lambda>a b. run_ID a > run_ID b) (filter (run_matches flt s) (db_runs s)))"

definition zero_summary :: RunSummary where
  "zero_summary = \<lparr>sum_RunID = 0, sum_Status = [], sum_TaskCount = 0, sum_PendingCount = 0, sum_RunningCount = 0,
     sum_RetryWaitCount = 0, sum_SuccessCount = 0, sum_FailedCount = 0, sum_CanceledCount = 0,
     sum_EarliestStartedAt = None, sum_LatestFinishedAt = None\<rparr>"

definition scanRunManagementRecord :: "DB \<Rightarrow> IngestionRun \<Rightarrow> RunRecord result" where
  "scanRunManagementRecord s run = Inr \<lparr>rr_Run = run\<lparr>run_Context := normalizedJSON (run_Context run),
       run_ErrorSummary := normalizedJSON (run_ErrorSummary run)\<rparr>,
     rr_Snapshot = snapshot_of s (run_ID run), rr_Summary = zero_summary, rr_Context = Map.empty\<rparr>"

definition ListRunRecords :: "faults \<Rightarrow> RunListInput \<Rightarrow> DB \<Rightarrow> RunRecord list result" where
  "ListRunRecords f flt s =
     (if rl_Limit flt < 1 \<or> rl_Limit flt > MaximumIngestionManagementPageSize + 1 \<or> \<not> opt_all (\<lambda>i. \<not> ID_IsZero i) (rl_AfterID flt)
      then Inl ErrInvalidData
      else query_rows f (scanRunManagementRecord s) (runs_query flt s))"

definition GetRunRecord :: "faults \<Rightarrow> ID \<Rightarrow> DB \<Rightarrow> RunRecord result" where
  "GetRunRecord f i s = checked (guard (ID_IsZero i) ErrInvalidData)
     (load_row f 0 (\<lambda>s. select_by run_ID i (db_runs s)) (scanRunManagementRecord s) s)"

record task_row =
  tkw_Task :: IngestionTask
  tkw_Run :: IngestionRun
  tkw_Subscription :: CollectionSubscription
  tkw_Mapping :: mapping_row

definition task_rows :: "DB \<Rightarrow> task_row list" where
  "task_rows s = [\<lparr>tkw_Task = t, tkw_Run = run, tkw_Subscription = sub, tkw_Mapping = m\<rparr>.
     t \<leftarrow> db_tasks s, run \<leftarrow> db_runs s, run_ID run = task_RunID t,
     sub \<leftarrow> db_subs s, sub_ID sub = task_SubscriptionID t,
     m \<leftarrow> mapping_rows s, pi_ID (mr_Mapping m) = sub_ProviderInstrumentID sub]"

definition task_matches :: "TaskListInput \<Rightarrow> task_row \<Rightarrow> bool" where
  "task_matches flt r \<longleftrightarrow>
     opt_all (\<lambda>i. task_RunID (tkw_Task r) = i) (tl_RunID flt)
     \<and> (tl_Status flt \<noteq> [] \<longrightarrow> task_Status (tkw_Task r) = tl_Status flt)
     \<and> (tl_ProviderCode flt \<noteq> [] \<longrightarrow> prov_Code (mr_Provider (tkw_Mapping r)) = tl_ProviderCode flt)
     \<and> (tl_InstrumentCode flt \<noteq> [] \<longrightarrow> inst_Code (mr_Instrument (tkw_Mapping r)) = tl_InstrumentCode flt)
     \<and> (tl_Interval flt \<noteq> [] \<longrightarrow> sub_Interval (tkw_Subscription r) = tl_Interval flt)
     \<and> opt_all (\<lambda>t. task_CreatedAt (tkw_Task r) \<ge> timestamptz t) (tl_CreatedFrom flt)
     \<and> opt_all (\<lambda>t. task_CreatedAt (tkw_Task r) < timestamptz t) (tl_CreatedTo flt)
     \<and> opt_all (\<lambda>i. task_ID (tkw_Task r) < i) (tl_AfterID flt)"

definition tasks_query :: "TaskListInput \<Rightarrow> DB \<Rightarrow> task_row list" where
  "tasks_query flt s = take (nat (tl_Limit flt))
     (order_by (\<lambda>a b. task_ID (tkw_Task a) > task_ID (tkw_Task b)) (filter (task_matches flt) (task_rows s)))"

definition scanTaskManagementRecord :: "task_row \<Rightarrow> TaskRecord result" where
  "scanTaskManagementRecord r = (let m = tkw_Mapping r in
     bind_result (ParseCode (prov_Code (mr_Provider m))) (\<lambda>providerCode.
     bind_result (ParseCode (inst_Code (mr_Instrument m))) (\<lambda>instrumentCode.
     bind_result (ParseCode (pi_Code (mr_Mapping m))) (\<lambda>mappingCode.
       Inr \<lparr>tkr_Task = (tkw_Task r)\<lparr>task_ErrorDetails := normalizedJSON (task_ErrorDetails (tkw_Task r))\<rparr>,
         tkr_RunType = run_RunType (tkw_Run r), tkr_TriggerType = run_TriggerType (tkw_Run r),
         tkr_SubscriptionInterval = sub_Interval (tkw_Subscription r), tkr_ProviderID = prov_ID (mr_Provider m),
         tkr_ProviderCode = providerCode, tkr_InstrumentID = inst_ID (mr_Instrument m), tkr_InstrumentCode = instrumentCode,
         tkr_ProviderInstrumentID = pi_ID (mr_Mapping m), tkr_ProviderInstrumentCode = mappingCode,
         tkr_ProviderSymbol = pi_ExternalSymbol (mr_Mapping m), tkr_ErrorSummary = None, tkr_SafeErrorDetails = Map.empty\<rparr>))))"

definition ListTaskRecords :: "faults \<Rightarrow> TaskListInput \<Rightarrow> DB \<Rightarrow> TaskRecord list result" where
  "ListTaskRecords f flt s =
     (if tl_Limit flt < 1 \<or> tl_Limit flt > MaximumIngestionManagementPageSize + 1
        \<or> \<not> opt_all (\<lambda>i. \<not> ID_IsZero i) (tl_RunID flt) \<or> \<not> opt_all (\<lambda>i. \<not> ID_IsZero i) (tl_AfterID flt)
      then Inl ErrInvalidData
      else query_rows f scanTaskManagementRecord (tasks_query flt s))"

definition GetTaskRecord :: "faults \<Rightarrow> ID \<Rightarrow> DB \<Rightarrow> TaskRecord result" where
  "GetTaskRecord f i s = checked (guard (ID_IsZero i) ErrInvalidData)
     (load_row f 0 (\<lambda>s. select_by (\<lambda>r. task_ID (tkw_Task r)) i (task_rows s)) scanTaskManagementRecord s)"

definition postgres_ingestion :: "faults \<Rightarrow> DB \<Rightarrow> IngestionQueryReader" where
  "postgres_ingestion f s =
     \<lparr>iq_ListRunRecords = (\<lambda>flt. ListRunRecords f flt s), iq_GetRunRecord = (\<lambda>i. GetRunRecord f i s),
      iq_ListTaskRecords = (\<lambda>flt. ListTaskRecords f flt s), iq_GetTaskRecord = (\<lambda>i. GetTaskRecord f i s)\<rparr>"

end
