(* ===== verification/RunPages.thy ===== *)
theory RunPages
  imports IngestionQueries
begin

text \<open>
  The two derivations of a run's status agree, and following the cursors of the run list reads every run
  of the asked status once (an instance of the contract \<open>keyset_pages\<close>).
\<close>

subsection \<open>The two derivations of a status\<close>

lemma derived_status_run: "derived_status ts = run_status_of ts"
proof -
  have "0 < length (filter P ts) \<longleftrightarrow> list_ex P ts" for P :: "IngestionTask \<Rightarrow> bool"
    by (auto simp: list_ex_iff filter_empty_conv)
  then show ?thesis
    by (simp add: derived_status_def run_status_of_def status_count_all)
qed

lemma status_counts_total:
  assumes "\<forall>t \<in> set ts. task_Status t \<in> set task_statuses"
  shows "status_count st_pending ts + status_count st_running ts + status_count st_retry_wait ts + status_count st_success ts
    + status_count st_failed ts + status_count st_canceled ts = int (length ts)"
  using assms by (induction ts) (auto simp: status_count_def task_statuses_def)

lemma snapshot_summary:
  assumes "ts = tasks_of_run s i" "ts \<noteq> []" "i \<noteq> 0" "\<forall>t \<in> set ts. task_Status t \<in> set task_statuses"
  shows "\<exists>m. SummarizeRun (snapshot_of s i) = Inr m \<and> sum_Status m = derived_status ts"
proof -
  have n: "TaskCount (snapshot_of s i) = int (length ts)"
    using status_counts_total [OF assms(4)] by (simp add: TaskCount_def snapshot_of_def Let_def assms(1))
  have "validateRunTaskSnapshot (snapshot_of s i) = None"
    using n assms(2,3) by (simp add: validateRunTaskSnapshot_def snapshot_of_def Let_def ID_IsZero_def status_count_def)
  then obtain m where m: "SummarizeRun (snapshot_of s i) = Inr m" "sum_TaskCount m = TaskCount (snapshot_of s i)"
    "sum_PendingCount m = rs_PendingCount (snapshot_of s i)" "sum_RunningCount m = rs_RunningCount (snapshot_of s i)"
    "sum_RetryWaitCount m = rs_RetryWaitCount (snapshot_of s i)" "sum_SuccessCount m = rs_SuccessCount (snapshot_of s i)"
    "sum_FailedCount m = rs_FailedCount (snapshot_of s i)" "sum_CanceledCount m = rs_CanceledCount (snapshot_of s i)"
    by (simp add: SummarizeRun_def Let_def)
  then have "summary_matches m ts"
    using n assms(2) by (simp add: summary_matches_def snapshot_of_def Let_def assms(1))
  then show ?thesis using SummarizeRun_run_status [OF m(1)] m(1) derived_status_run by metis
qed

subsection \<open>The pages of the run list\<close>

definition runs_ok :: "DB \<Rightarrow> bool" where
  "runs_ok s \<longleftrightarrow> distinct (map run_ID (db_runs s)) \<and> (\<forall>r \<in> set (db_runs s). run_ID r \<noteq> 0 \<and> run_CreatedAt r \<noteq> 0
     \<and> run_RunType r \<in> set run_types \<and> run_TriggerType r \<in> set trigger_types \<and> tasks_of_run s (run_ID r) \<noteq> []
     \<and> (\<forall>t \<in> set (tasks_of_run s (run_ID r)). task_Status t \<in> set task_statuses))"

definition reported_run :: "DB \<Rightarrow> IngestionRun \<Rightarrow> RunRecord" where
  "reported_run s run =
     \<lparr>rr_Run = run\<lparr>run_Context := normalizedJSON (run_Context run), run_ErrorSummary := normalizedJSON (run_ErrorSummary run)\<rparr>,
      rr_Snapshot = snapshot_of s (run_ID run),
      rr_Summary = (case SummarizeRun (snapshot_of s (run_ID run)) of Inr m \<Rightarrow> m | Inl _ \<Rightarrow> zero_summary),
      rr_Context = sanitizeStringObject (normalizedJSON (run_Context run)) run_context_keys\<rparr>"

text \<open>The runs a client asked for, newest identity first, by the status they are reported with.\<close>

definition asked_runs :: "RunListInput \<Rightarrow> DB \<Rightarrow> RunRecord list" where
  "asked_runs input s = filter (\<lambda>r. rl_Status input = [] \<or> sum_Status (rr_Summary r) = rl_Status input)
     (map (reported_run s) (order_by (\<lambda>a b. run_ID a > run_ID b)
       (filter (run_matches (input\<lparr>rl_Status := [], rl_AfterID := None\<rparr>) s) (db_runs s))))"

definition run_page :: "DB \<times> RunListInput \<Rightarrow> ID option \<Rightarrow> (RunRecord list \<times> ID option) answer" where
  "run_page x cursor = (case x of (s, input) \<Rightarrow> map_sum id (\<lambda>p. (rp_Items p, rp_NextAfterID p))
     (ListRuns (postgres_ingestion no_faults s) (input\<lparr>rl_AfterID := cursor\<rparr>)))"

definition run_walk_ok :: "DB \<times> RunListInput \<Rightarrow> bool" where
  "run_walk_ok x \<longleftrightarrow> (case x of (s, input) \<Rightarrow> runs_ok s \<and> run_list_violations (input\<lparr>rl_AfterID := None\<rparr>) = [])"

lemma reported_run_status:
  assumes "runs_ok s" "r \<in> set (db_runs s)"
  shows "sum_Status (rr_Summary (reported_run s r)) = derived_status (tasks_of_run s (run_ID r))"
  using snapshot_summary [OF refl, of s "run_ID r"] assms by (auto simp: runs_ok_def reported_run_def)

lemma enrich_reported:
  assumes "runs_ok s" "r \<in> set (db_runs s)"
  shows "bind_result (scanRunManagementRecord s r) enrichRunRecord = Inr (reported_run s r)"
proof -
  obtain m where "SummarizeRun (snapshot_of s (run_ID r)) = Inr m"
    using snapshot_summary [OF refl, of s "run_ID r"] assms by (auto simp: runs_ok_def)
  then show ?thesis using assms
    by (simp add: scanRunManagementRecord_def enrichRunRecord_def reported_run_def runs_ok_def ID_IsZero_def IsZero_def snapshot_of_def Let_def)
qed

lemma scan_rows_map:
  assumes "\<forall>r \<in> set rows. scan r = Inr (g r)" shows "scan_rows scan rows = Inr (map g rows)"
  using assms by (induction rows) simp_all

lemma sorted_strictly:
  assumes "sorted_wrt (\<lambda>a b. \<not> key b > (key a :: 'k :: linorder)) xs" "distinct (map key xs)"
  shows "sorted_wrt (\<lambda>a b. key a > key b) xs"
  using assms
proof (induction xs)
  case (Cons x xs)
  have "key y < key x" if "y \<in> set xs" for y
    using Cons.prems that by (cases "key y" "key x" rule: linorder_cases) (auto simp: image_iff)
  then show ?case using Cons by simp
qed simp

lemma order_by_id_sorted:
  assumes "distinct (map key rows)"
  shows "sorted_wrt (\<lambda>a b. key a > key b) (order_by (\<lambda>a b. key a > (key b :: 'k :: linorder)) rows)"
proof (rule sorted_strictly)
  have "weak_order (\<lambda>a b. key a > key b)" by (auto simp: weak_order_def)
  then show "sorted_wrt (\<lambda>a b. \<not> key b > key a) (order_by (\<lambda>a b. key a > key b) rows)" by (rule order_by_sorted)
  show "distinct (map key (order_by (\<lambda>a b. key a > key b) rows))" using assms by (simp add: distinct_map)
qed

lemma sorted_unique:
  assumes "sorted_wrt (\<lambda>a b. key a > (key b :: 'k :: linorder)) xs" "sorted_wrt (\<lambda>a b. key a > key b) ys" "set xs = set ys"
  shows "xs = ys"
  using assms
proof (induction xs arbitrary: ys)
  case (Cons x xs)
  then obtain y zs where ys: "ys = y # zs" by (cases ys) auto
  have "x = y"
  proof (rule ccontr)
    assume "x \<noteq> y"
    then have "x \<in> set zs" "y \<in> set xs" using Cons.prems(3) ys by auto
    then show False using Cons.prems(1,2) ys by fastforce
  qed
  moreover have "x \<notin> set xs" "y \<notin> set zs" using Cons.prems(1,2) ys by auto
  then have "set xs = set zs" using Cons.prems(3) ys \<open>x = y\<close> by auto
  ultimately show ?case using Cons ys by simp
qed simp

text \<open>Filtering the rows of a statement and filtering its answer give the same list.\<close>

lemma order_by_filter:
  assumes "distinct (map key rows)"
  shows "order_by (\<lambda>a b. key a > (key b :: 'k :: linorder)) (filter P rows) = filter P (order_by (\<lambda>a b. key a > key b) rows)"
proof (rule sorted_unique)
  have "distinct (map key (filter P rows))" using assms by (rule distinct_map_filter)
  then show "sorted_wrt (\<lambda>a b. key a > key b) (order_by (\<lambda>a b. key a > key b) (filter P rows))" by (rule order_by_id_sorted)
  show "sorted_wrt (\<lambda>a b. key a > key b) (filter P (order_by (\<lambda>a b. key a > key b) rows))"
    by (rule sorted_wrt_filter [OF order_by_id_sorted [OF assms]])
qed auto

lemma run_matches_split:
  assumes "runs_ok s" "r \<in> set (db_runs s)"
  shows "run_matches (input\<lparr>rl_AfterID := cursor, rl_Limit := n\<rparr>) s r \<longleftrightarrow>
    run_matches (input\<lparr>rl_Status := [], rl_AfterID := None\<rparr>) s r
    \<and> (rl_Status input = [] \<or> sum_Status (rr_Summary (reported_run s r)) = rl_Status input)
    \<and> opt_all (\<lambda>i. i > run_ID r) cursor"
  using reported_run_status [OF assms] by (auto simp: run_matches_def opt_all_def)

lemma runs_query_asked:
  assumes "runs_ok s"
  shows "map (reported_run s) (runs_query (input\<lparr>rl_AfterID := cursor, rl_Limit := n\<rparr>) s)
    = take (nat n) (after_key (\<lambda>a b. a > b) (\<lambda>r. run_ID (rr_Run r)) cursor (asked_runs input s))"
proof -
  let ?newest = "order_by (\<lambda>a b. run_ID a > run_ID b)"
  let ?base = "run_matches (input\<lparr>rl_Status := [], rl_AfterID := None\<rparr>) s"
  let ?status = "\<lambda>r. rl_Status input = [] \<or> sum_Status (rr_Summary r) = rl_Status input"
  let ?Q = "\<lambda>r. ?status (reported_run s r) \<and> opt_all (\<lambda>i. i > run_ID r) cursor"
  have d: "distinct (map run_ID (db_runs s))" using assms by (simp add: runs_ok_def)
  have id: "run_ID (rr_Run (reported_run s r)) = run_ID r" for r by (simp add: reported_run_def)
  have "filter (run_matches (input\<lparr>rl_AfterID := cursor, rl_Limit := n\<rparr>) s) (db_runs s) = filter ?Q (filter ?base (db_runs s))"
    unfolding filter_filter by (intro filter_cong refl) (use run_matches_split [OF assms] in auto)
  then have "?newest (filter (run_matches (input\<lparr>rl_AfterID := cursor, rl_Limit := n\<rparr>) s) (db_runs s))
      = filter ?Q (?newest (filter ?base (db_runs s)))"
    using order_by_filter [OF distinct_map_filter [OF d, of ?base], of ?Q] by (simp only:)
  then have "map (reported_run s) (runs_query (input\<lparr>rl_AfterID := cursor, rl_Limit := n\<rparr>) s)
      = take (nat n) (map (reported_run s) (filter ?Q (?newest (filter ?base (db_runs s)))))"
    by (simp add: runs_query_def take_map)
  also have "map (reported_run s) (filter ?Q (?newest (filter ?base (db_runs s))))
      = filter (\<lambda>r. opt_all (\<lambda>i. i > run_ID (rr_Run r)) cursor) (filter ?status (map (reported_run s) (?newest (filter ?base (db_runs s)))))"
    by (simp add: filter_map comp_def id conj_commute)
  also have "\<dots> = after_key (\<lambda>a b. a > b) (\<lambda>r. run_ID (rr_Run r)) cursor (asked_runs input s)"
    by (cases cursor) (simp_all add: after_key_def asked_runs_def opt_all_def)
  finally show ?thesis .
qed

lemma asked_runs_sorted:
  assumes "runs_ok s"
  shows "sorted_wrt (\<lambda>a b. run_ID (rr_Run a) > run_ID (rr_Run b)) (asked_runs input s)"
proof -
  have "distinct (map run_ID (db_runs s))" using assms by (simp add: runs_ok_def)
  from order_by_id_sorted [OF distinct_map_filter [OF this]]
  show ?thesis by (simp add: asked_runs_def sorted_wrt_filter sorted_wrt_map reported_run_def)
qed

lemma asked_runs_ids: "runs_ok s \<Longrightarrow> r \<in> set (asked_runs input s) \<Longrightarrow> run_ID (rr_Run r) \<noteq> 0"
  by (auto simp: asked_runs_def runs_ok_def reported_run_def)

lemma scan_rows_bind:
  assumes "\<forall>r \<in> set rows. \<exists>v. scan r = Inr v \<and> next_scan v = Inr (g r)"
  shows "\<exists>vs. scan_rows scan rows = Inr vs \<and> scan_rows next_scan vs = Inr (map g rows)"
  using assms by (induction rows) auto

lemma run_page_serves:
  assumes "runs_ok s" "run_list_violations (input\<lparr>rl_AfterID := None\<rparr>) = []"
    and "cursor = None \<or> (\<exists>k. cursor = Some k \<and> k \<noteq> 0)"
  shows "run_page (s, input) cursor = Inr (cut_page (\<lambda>r. run_ID (rr_Run r)) (nat (rl_Limit input))
    (after_key (\<lambda>a b. a > b) (\<lambda>r. run_ID (rr_Run r)) cursor (asked_runs input s)))" and "0 < nat (rl_Limit input)"
proof -
  let ?rest = "after_key (\<lambda>a b. a > b) (\<lambda>r. run_ID (rr_Run r)) cursor (asked_runs input s)"
  let ?flt = "input\<lparr>rl_AfterID := cursor, rl_Limit := rl_Limit input + 1\<rparr>"
  have after: "opt_all (\<lambda>i. \<not> ID_IsZero i) cursor" using assms(3) by (auto simp: opt_all_def ID_IsZero_def)
  have valid: "run_list_violations (input\<lparr>rl_AfterID := cursor\<rparr>) = []"
    using assms(2) after by (simp add: run_list_violations_def validateManagementPage_def)
  have limit: "1 \<le> rl_Limit input" "rl_Limit input \<le> 100"
    using assms(2) by (simp_all add: run_list_violations_def validateManagementPage_def MaximumIngestionManagementPageSize_def)
  then show "0 < nat (rl_Limit input)" by simp
  have "\<forall>r \<in> set (runs_query ?flt s). \<exists>v. scanRunManagementRecord s r = Inr v \<and> enrichRunRecord v = Inr (reported_run s r)"
  proof
    fix r assume "r \<in> set (runs_query ?flt s)"
    then have "r \<in> set (db_runs s)" by (auto simp: runs_query_def dest!: in_set_takeD)
    from enrich_reported [OF assms(1) this] show "\<exists>v. scanRunManagementRecord s r = Inr v \<and> enrichRunRecord v = Inr (reported_run s r)"
      by (simp add: bind_result_Inr_iff)
  qed
  from scan_rows_bind [OF this] obtain loaded where loaded: "scan_rows (scanRunManagementRecord s) (runs_query ?flt s) = Inr loaded"
    "scan_rows enrichRunRecord loaded = Inr (map (reported_run s) (runs_query ?flt s))" by blast
  have "nat (rl_Limit input + 1) = Suc (nat (rl_Limit input))" using limit by simp
  then have rows: "map (reported_run s) (runs_query ?flt s) = take (Suc (nat (rl_Limit input))) ?rest"
    using runs_query_asked [OF assms(1), where input = input and cursor = cursor and n = "rl_Limit input + 1"] by (simp only:)
  have "iq_ListRunRecords (postgres_ingestion no_faults s) ?flt = Inr loaded"
    using loaded(1) limit after
    by (simp add: postgres_ingestion_def ListRunRecords_def query_rows_def no_faults_def MaximumIngestionManagementPageSize_def)
  then show "run_page (s, input) cursor = Inr (cut_page (\<lambda>r. run_ID (rr_Run r)) (nat (rl_Limit input)) ?rest)"
    using valid loaded(2) unfolding rows
    by (simp add: run_page_def ListRuns_def validateRunListInput_def cut_page_more split: prod.splits)
qed

interpretation run_pages: keyset_pages run_page run_walk_ok "\<lambda>x. asked_runs (snd x) (fst x)" "\<lambda>r. run_ID (rr_Run r)"
  "\<lambda>x a b. a > b" "\<lambda>x. nat (rl_Limit (snd x))"
proof unfold_locales
  fix x :: "DB \<times> RunListInput" and cursor :: "ID option"
  assume ok: "run_walk_ok x" and c: "cursor = None \<or> (\<exists>k \<in> (\<lambda>r. run_ID (rr_Run r)) ` set (asked_runs (snd x) (fst x)). cursor = Some k)"
  obtain s input where x: "x = (s, input)" by force
  have "cursor = None \<or> (\<exists>k. cursor = Some k \<and> k \<noteq> 0)"
    using c ok asked_runs_ids by (auto simp: x run_walk_ok_def)
  then show "run_page x cursor = Inr (cut_page (\<lambda>r. run_ID (rr_Run r)) (nat (rl_Limit (snd x)))
      (after_key (\<lambda>a b. a > b) (\<lambda>r. run_ID (rr_Run r)) cursor (asked_runs (snd x) (fst x))))"
    using ok run_page_serves(1) by (simp add: x run_walk_ok_def)
next
  fix x :: "DB \<times> RunListInput" assume ok: "run_walk_ok x"
  show "sorted_wrt (\<lambda>a b. run_ID (rr_Run a) > run_ID (rr_Run b)) (asked_runs (snd x) (fst x))"
    using ok asked_runs_sorted by (cases x) (simp add: run_walk_ok_def)
  show "0 < nat (rl_Limit (snd x))" using ok run_page_serves(2) by (cases x) (fastforce simp: run_walk_ok_def)
qed (auto simp: transp_def irreflp_def)

text \<open>
  C33. Following the cursors of the run list, a client reads exactly the runs it asked for, newest identity
  first, each once, and then stops. A run is asked for by the status the service reports for it, which it
  computes from the counts of the tasks; the status the statement computes in the database to filter by is
  the same in every case.
\<close>
theorem run_list_filters_reported_status:
  assumes "runs_ok s" "run_list_violations (input\<lparr>rl_AfterID := None\<rparr>) = []"
  shows "follow_pages (Suc (length (asked_runs input s))) (run_page (s, input)) None = Some (Inr (asked_runs input s))
    \<and> (\<forall>r \<in> set (asked_runs input s). rl_Status input = [] \<or> sum_Status (rr_Summary r) = rl_Status input)
    \<and> (\<forall>run \<in> set (db_runs s). run_matches (input\<lparr>rl_Status := [], rl_AfterID := None\<rparr>) s run \<longrightarrow>
        (rl_Status input = [] \<or> sum_Status (rr_Summary (reported_run s run)) = rl_Status input) \<longrightarrow>
        reported_run s run \<in> set (asked_runs input s))"
  using run_pages.walk_complete [of "(s, input)"] assms by (auto simp: run_walk_ok_def asked_runs_def)

definition sample_run_query :: RunListInput where
  "sample_run_query = \<lparr>rl_RunType = [], rl_TriggerType = [], rl_Status = ''pending'', rl_RequestedBy = [], rl_CreatedFrom = None,
     rl_CreatedTo = None, rl_AfterID = None, rl_Limit = 1\<rparr>"

definition sample_runs_db :: DB where
  "sample_runs_db = sample_db\<lparr>
     db_runs := [pending_run 9 ''run.9'' ''incremental'' ''scheduler'' None None emptyJSONObject (1002 * Hour),
       pending_run 10 ''run.10'' ''incremental'' ''scheduler'' None None emptyJSONObject (1002 * Hour),
       pending_run 11 ''run.11'' ''repair'' ''manual'' None None emptyJSONObject (1002 * Hour)],
     db_tasks := [sample_pending\<lparr>task_ID := 31, task_RunID := 9\<rparr>, sample_running\<lparr>task_ID := 32, task_RunID := 10\<rparr>,
       sample_pending\<lparr>task_ID := 33, task_RunID := 11\<rparr>]\<rparr>"

theorem run_list_filters_reported_status_witness:
  "follow_pages 3 (run_page (sample_runs_db, sample_run_query)) None = Some (Inr (asked_runs sample_run_query sample_runs_db))
    \<and> map (\<lambda>r. run_ID (rr_Run r)) (asked_runs sample_run_query sample_runs_db) = [11, 9]"
proof
  show ids: "map (\<lambda>r. run_ID (rr_Run r)) (asked_runs sample_run_query sample_runs_db) = [11, 9]" by code_simp
  have n: "length (asked_runs sample_run_query sample_runs_db) = 2" using arg_cong [OF ids, of length] by simp
  have "runs_ok sample_runs_db" by code_simp
  moreover have "run_list_violations (sample_run_query\<lparr>rl_AfterID := None\<rparr>) = []" by code_simp
  ultimately show "follow_pages 3 (run_page (sample_runs_db, sample_run_query)) None = Some (Inr (asked_runs sample_run_query sample_runs_db))"
    using run_list_filters_reported_status [of sample_runs_db sample_run_query] n by (simp add: eval_nat_numeral del: follow_pages.simps)
qed

end
