(* ===== verification/InstrumentQueries.thy ===== *)
theory InstrumentQueries
  imports CatalogQueries
begin

text \<open>
  The instrument queries: the selectable providers of an asset's instruments (application/instrument_options.go
  with \<^verbatim>\<open>ListInstrumentProviderOptions\<close> of repository/postgres/catalog.go) and the precision of a batch of
  instruments (application/instrument_precision.go).
\<close>

subsection \<open>Options (instrument_options.go)\<close>

definition MaximumInstrumentOptionsPageSize :: int where "MaximumInstrumentOptionsPageSize = 100"

record InstrumentOptionsInput =
  oi_AssetCode :: string
  oi_AfterInstrumentCode :: string
  oi_Limit :: int

record InstrumentOptionsFilter =
  of_AssetID :: ID
  of_AfterInstrumentCode :: "Code option"
  of_EffectiveAt :: time
  of_InstrumentLimit :: int

record InstrumentProviderOptionRecord =
  po_InstrumentID :: ID
  po_InstrumentCode :: Code
  po_InstrumentDisplayName :: string
  po_ProviderInstrumentID :: ID
  po_ProviderInstrumentCode :: Code
  po_ProviderCode :: Code
  po_ProviderDisplayName :: string
  po_IsDefault :: bool
  po_Priority :: int
  po_Capabilities :: ProviderCapabilities

record ProviderOption =
  op_Code :: Code
  op_DisplayName :: string
  op_IsDefault :: bool
  op_Priority :: int
  op_SupportedIntervals :: "BarInterval list"

record InstrumentOption =
  io_ID :: ID
  io_Code :: Code
  io_DisplayName :: string
  io_Providers :: "ProviderOption list"

record InstrumentOptionsPage =
  iop_Items :: "InstrumentOption list"
  iop_NextAfterInstrumentCode :: "Code option"

definition options_violations :: "InstrumentOptionsInput \<Rightarrow> FieldViolation list" where
  "options_violations input =
     violation (err_of (ParseCode (oi_AssetCode input)) \<noteq> None \<or> \<not> HasPrefix (oi_AssetCode input) ''asset.'')
       ''asset_code'' ''must be a valid asset code''
     @ violation (oi_Limit input \<le> 0 \<or> oi_Limit input > MaximumInstrumentOptionsPageSize)
         ''limit'' ''must be an integer between 1 and 100''
     @ violation (oi_AfterInstrumentCode input \<noteq> [] \<and> (err_of (ParseCode (oi_AfterInstrumentCode input)) \<noteq> None
         \<or> \<not> HasPrefix (oi_AfterInstrumentCode input) ''instrument.''))
         ''cursor'' ''contains an invalid instrument position''"

definition validateInstrumentOptionsInput :: "InstrumentOptionsInput \<Rightarrow> (Code \<times> Code option) answer" where
  "validateInstrumentOptionsInput input =
     (if options_violations input \<noteq> [] then Inl (App (ValidationError (options_violations input)))
      else Inr (oi_AssetCode input, if oi_AfterInstrumentCode input = [] then None else Some (oi_AfterInstrumentCode input)))"

definition validateInstrumentProviderOptionRecord :: "InstrumentProviderOptionRecord \<Rightarrow> error option" where
  "validateInstrumentProviderOptionRecord r = first_error
     [guard (ID_IsZero (po_InstrumentID r) \<or> ID_IsZero (po_ProviderInstrumentID r)
        \<or> \<not> HasPrefix (po_InstrumentCode r) ''instrument.'' \<or> \<not> HasPrefix (po_ProviderInstrumentCode r) ''provider.''
        \<or> Code_IsZero (po_ProviderCode r) \<or> TrimSpace (po_InstrumentDisplayName r) = []
        \<or> TrimSpace (po_ProviderDisplayName r) = [] \<or> po_Priority r < 0) ErrInvalidData,
      ProviderCapabilities_Validate (po_Capabilities r)]"

text \<open>The order of the rows: by instrument, and within one the preferred mapping first.\<close>

definition preferred :: "InstrumentProviderOptionRecord \<Rightarrow> InstrumentProviderOptionRecord \<Rightarrow> bool" where
  "preferred a b \<longleftrightarrow>
     (if po_IsDefault a \<noteq> po_IsDefault b then po_IsDefault a
      else if po_Priority a \<noteq> po_Priority b then po_Priority a < po_Priority b
      else if po_ProviderCode a \<noteq> po_ProviderCode b then text_before (po_ProviderCode a) (po_ProviderCode b)
      else text_before (po_ProviderInstrumentCode a) (po_ProviderInstrumentCode b))"

definition option_before :: "InstrumentProviderOptionRecord \<Rightarrow> InstrumentProviderOptionRecord \<Rightarrow> bool" where
  "option_before a b \<longleftrightarrow>
     (if po_InstrumentCode a \<noteq> po_InstrumentCode b then text_before (po_InstrumentCode a) (po_InstrumentCode b)
      else preferred a b)"

definition hasProviderOption :: "ProviderOption list \<Rightarrow> Code \<Rightarrow> bool" where
  "hasProviderOption options code \<longleftrightarrow> list_ex (\<lambda>option. op_Code option = code) options"

definition new_option :: "InstrumentProviderOptionRecord \<Rightarrow> InstrumentOption" where
  "new_option r = \<lparr>io_ID = po_InstrumentID r, io_Code = po_InstrumentCode r, io_DisplayName = po_InstrumentDisplayName r, io_Providers = []\<rparr>"

definition provider_option :: "InstrumentProviderOptionRecord \<Rightarrow> ProviderOption" where
  "provider_option r = \<lparr>op_Code = po_ProviderCode r, op_DisplayName = po_ProviderDisplayName r, op_IsDefault = po_IsDefault r,
     op_Priority = po_Priority r, op_SupportedIntervals = cap_Intervals (po_Capabilities r)\<rparr>"

text \<open>One pass of the grouping loop: the row opens an item or belongs to the last one.\<close>

definition group_row :: "InstrumentOption list \<Rightarrow> InstrumentProviderOptionRecord \<Rightarrow> InstrumentOption list result" where
  "group_row items r =
     (let opened = (if items = [] \<or> io_Code (last items) \<noteq> po_InstrumentCode r then items @ [new_option r] else items);
          item = last opened
      in if io_ID item \<noteq> po_InstrumentID r \<or> io_DisplayName item \<noteq> po_InstrumentDisplayName r then Inl ErrInvalidData
         else if hasProviderOption (io_Providers item) (po_ProviderCode r) then Inr opened
         else Inr (butlast opened @ [item\<lparr>io_Providers := io_Providers item @ [provider_option r]\<rparr>]))"

fun group_rows :: "InstrumentOption list \<Rightarrow> InstrumentProviderOptionRecord list \<Rightarrow> InstrumentOption list result" where
  "group_rows items [] = Inr items"
| "group_rows items (r # rs) = bind_result (group_row items r) (\<lambda>items. group_rows items rs)"

definition groupInstrumentOptions :: "InstrumentProviderOptionRecord list \<Rightarrow> InstrumentOption list result" where
  "groupInstrumentOptions rows =
     checked (first_error (map validateInstrumentProviderOptionRecord rows)) (group_rows [] (order_by option_before rows))"

definition classifyInstrumentOptionsFailure :: "error \<Rightarrow> failure" where
  "classifyInstrumentOptionsFailure err =
     (if errors_Is err ErrDatabaseUnavailable \<or> errors_Is err ErrRetryable then Cause err
      else App (WrapError err ''INTERNAL_ERROR'' ''internal server error'' False []))"

definition InstrumentOptions_List ::
  "(string \<Rightarrow> Asset result) \<Rightarrow> (InstrumentOptionsFilter \<Rightarrow> InstrumentProviderOptionRecord list result) \<Rightarrow> time
     \<Rightarrow> InstrumentOptionsInput \<Rightarrow> InstrumentOptionsPage answer" where
  "InstrumentOptions_List findAsset listOptions now input =
     bind_answer (validateInstrumentOptionsInput input) (\<lambda>(assetCode, afterCode).
     answered (\<lambda>e. if errors_Is e ErrNotFound then App (WrapError e ''ASSET_NOT_FOUND'' ''asset not found'' False [])
         else classifyInstrumentOptionsFailure e) (findAsset assetCode) (\<lambda>asset.
     refusing (failing (asset_Code asset \<noteq> assetCode) (classifyInstrumentOptionsFailure ErrInvalidData))
     (if asset_Status asset \<noteq> ''active'' then Inr \<lparr>iop_Items = [], iop_NextAfterInstrumentCode = None\<rparr>
      else
        answered classifyInstrumentOptionsFailure (listOptions \<lparr>of_AssetID = asset_ID asset, of_AfterInstrumentCode = afterCode,
            of_EffectiveAt = now, of_InstrumentLimit = oi_Limit input + 1\<rparr>) (\<lambda>rows.
        answered classifyInstrumentOptionsFailure (groupInstrumentOptions rows) (\<lambda>items.
          case cut_page io_Code (nat (oi_Limit input)) items of
            (page, next) \<Rightarrow> Inr \<lparr>iop_Items = page, iop_NextAfterInstrumentCode = next\<rparr>)))))"

subsection \<open>The option rows (catalog.go)\<close>

text \<open>
  \<^verbatim>\<open>metadata ->> 'display_name'\<close>: the text of a string, and the server's text form (\<open>jsonb_text\<close>) of any other
  value but null.
\<close>

definition json_field_text :: "(json \<Rightarrow> string) \<Rightarrow> RawMessage \<Rightarrow> string \<Rightarrow> string option" where
  "json_field_text jsonb_text raw k = (case raw of
     RawValue (JObject kvs) \<Rightarrow> (case map_of kvs k of
        None \<Rightarrow> None | Some JNull \<Rightarrow> None | Some (JString t) \<Rightarrow> Some t | Some v \<Rightarrow> Some (jsonb_text v))
   | _ \<Rightarrow> None)"

definition display_name :: "(json \<Rightarrow> string) \<Rightarrow> Instrument \<Rightarrow> string" where
  "display_name jsonb_text i = (case json_field_text jsonb_text (inst_Metadata i) ''display_name'' of
     None \<Rightarrow> inst_Symbol i | Some t \<Rightarrow> if t = [] then inst_Symbol i else t)"

definition selected_instruments :: "InstrumentOptionsFilter \<Rightarrow> DB \<Rightarrow> Instrument list" where
  "selected_instruments flt s = (let t = timestamptz (of_EffectiveAt flt) in
     take (nat (of_InstrumentLimit flt)) (order_by (\<lambda>a b. text_before (inst_Code a) (inst_Code b))
       [i \<leftarrow> db_instruments s. inst_AssetID i = of_AssetID flt \<and> instrument_on i t
          \<and> opt_all (\<lambda>c. text_before c (inst_Code i)) (of_AfterInstrumentCode flt)
          \<and> list_ex (\<lambda>r. inst_ID (mr_Instrument r) = inst_ID i \<and> mapping_on r t) (mapping_rows s)]))"

definition option_row_before :: "mapping_row \<Rightarrow> mapping_row \<Rightarrow> bool" where
  "option_row_before a b \<longleftrightarrow>
     (if inst_Code (mr_Instrument a) \<noteq> inst_Code (mr_Instrument b) then text_before (inst_Code (mr_Instrument a)) (inst_Code (mr_Instrument b))
      else if pi_IsDefault (mr_Mapping a) \<noteq> pi_IsDefault (mr_Mapping b) then pi_IsDefault (mr_Mapping a)
      else if pi_Priority (mr_Mapping a) \<noteq> pi_Priority (mr_Mapping b) then pi_Priority (mr_Mapping a) < pi_Priority (mr_Mapping b)
      else if prov_Code (mr_Provider a) \<noteq> prov_Code (mr_Provider b) then text_before (prov_Code (mr_Provider a)) (prov_Code (mr_Provider b))
      else text_before (pi_Code (mr_Mapping a)) (pi_Code (mr_Mapping b)))"

definition option_rows :: "InstrumentOptionsFilter \<Rightarrow> DB \<Rightarrow> mapping_row list" where
  "option_rows flt s = order_by option_row_before
     [r. i \<leftarrow> selected_instruments flt s, r \<leftarrow> mapping_rows s, inst_ID (mr_Instrument r) = inst_ID i,
        mapping_on r (timestamptz (of_EffectiveAt flt))]"

definition scanInstrumentProviderOptionRecord :: "(json \<Rightarrow> string) \<Rightarrow> mapping_row \<Rightarrow> InstrumentProviderOptionRecord result" where
  "scanInstrumentProviderOptionRecord jsonb_text r = (let i = mr_Instrument r; m = mr_Mapping r; p = mr_Provider r in
     bind_result (ParseCode (inst_Code i)) (\<lambda>instrumentCode.
     bind_result (ParseCode (pi_Code m)) (\<lambda>mappingCode.
     bind_result (ParseCode (prov_Code p)) (\<lambda>providerCode.
       Inr \<lparr>po_InstrumentID = inst_ID i, po_InstrumentCode = instrumentCode, po_InstrumentDisplayName = display_name jsonb_text i,
         po_ProviderInstrumentID = pi_ID m, po_ProviderInstrumentCode = mappingCode, po_ProviderCode = providerCode,
         po_ProviderDisplayName = prov_Name p, po_IsDefault = pi_IsDefault m, po_Priority = pi_Priority m,
         po_Capabilities = pi_Capabilities m\<rparr>))))"

definition ListInstrumentProviderOptions ::
  "(json \<Rightarrow> string) \<Rightarrow> faults \<Rightarrow> InstrumentOptionsFilter \<Rightarrow> DB \<Rightarrow> InstrumentProviderOptionRecord list result" where
  "ListInstrumentProviderOptions jsonb_text f flt s =
     (if ID_IsZero (of_AssetID flt) \<or> IsZero (of_EffectiveAt flt) \<or> of_InstrumentLimit flt \<le> 0
        \<or> of_InstrumentLimit flt > MaximumInstrumentOptionsPageSize + 1 \<or> of_AfterInstrumentCode flt = Some []
      then Inl ErrInvalidData
      else query_rows f (scanInstrumentProviderOptionRecord jsonb_text) (option_rows flt s))"

subsection \<open>Precision (instrument_precision.go)\<close>

definition MaximumInstrumentPrecisionBatchSize :: nat where "MaximumInstrumentPrecisionBatchSize = 100"

record InstrumentPrecisionItem =
  ipi_InstrumentID :: ID
  ipi_InstrumentCode :: Code
  ipi_PriceScale :: int
  ipi_QuantityScale :: int
  ipi_LotSize :: rat
  ipi_MinQuantity :: rat
  ipi_AsOf :: UTCInstant

record InstrumentPrecisionResult =
  ipr_Items :: "InstrumentPrecisionItem list"
  ipr_MissingInstrumentIDs :: "ID list"

text \<open>The loop over the texts: violations and the identities seen so far, in order of their first occurrence.\<close>

fun precision_ids_loop :: "platform \<Rightarrow> nat \<Rightarrow> FieldViolation list \<Rightarrow> ID list \<Rightarrow> string list \<Rightarrow> FieldViolation list \<times> ID list" where
  "precision_ids_loop pf index violations ids [] = (violations, ids)"
| "precision_ids_loop pf index violations ids (raw # rest) = (case ParseID pf raw of
     Inl _ \<Rightarrow> precision_ids_loop pf (Suc index) (violations @ [\<lparr>fv_Field = ''instrument_ids['' @ decimal index @ '']'',
         fv_Reason = ''must be a canonical UUID''\<rparr>]) ids rest
   | Inr i \<Rightarrow> precision_ids_loop pf (Suc index) violations (if i \<in> set ids then ids else ids @ [i]) rest)"

definition parseInstrumentPrecisionInput :: "platform \<Rightarrow> string list \<Rightarrow> ID list answer" where
  "parseInstrumentPrecisionInput pf raws =
     (if raws = [] then Inl (refused ''instrument_ids'' ''must contain at least one instrument ID'')
      else if length raws > MaximumInstrumentPrecisionBatchSize
        then Inl (refused ''instrument_ids'' ''must not contain more than 100 entries'')
      else (case precision_ids_loop pf 0 [] [] raws of (violations, ids) \<Rightarrow>
        if violations \<noteq> [] then Inl (App (ValidationError violations)) else Inr ids))"

definition instrumentHasUsablePrecision :: "Instrument \<Rightarrow> time \<Rightarrow> bool" where
  "instrumentHasUsablePrecision i effectiveAt \<longleftrightarrow> inst_Status i = ''active''
     \<and> effectiveAtWithin effectiveAt (inst_ValidFrom i) (inst_ValidTo i)
     \<and> inst_PriceScale i \<noteq> None \<and> inst_QuantityScale i \<noteq> None \<and> inst_LotSize i \<noteq> None \<and> inst_MinQuantity i \<noteq> None"

definition classifyInstrumentPrecisionFailure :: "error \<Rightarrow> failure" where
  "classifyInstrumentPrecisionFailure err =
     (if errors_Is err ErrDatabaseUnavailable \<or> errors_Is err ErrRetryable then Cause err
      else App (WrapError err ''INTERNAL_ERROR'' ''internal server error'' False []))"

fun index_instruments :: "(ID \<rightharpoonup> Instrument) \<Rightarrow> Instrument list \<Rightarrow> (ID \<rightharpoonup> Instrument) result" where
  "index_instruments byID [] = Inr byID"
| "index_instruments byID (i # rest) =
     (if ID_IsZero (inst_ID i) \<or> \<not> HasPrefix (inst_Code i) ''instrument.'' then Inl ErrInvalidData
      else index_instruments (byID(inst_ID i \<mapsto> i)) rest)"

definition precision_item :: "Instrument \<Rightarrow> UTCInstant \<Rightarrow> InstrumentPrecisionItem" where
  "precision_item i asOf = \<lparr>ipi_InstrumentID = inst_ID i, ipi_InstrumentCode = inst_Code i,
     ipi_PriceScale = the (inst_PriceScale i), ipi_QuantityScale = the (inst_QuantityScale i),
     ipi_LotSize = the (inst_LotSize i), ipi_MinQuantity = the (inst_MinQuantity i), ipi_AsOf = asOf\<rparr>"

fun precision_loop :: "(ID \<rightharpoonup> Instrument) \<Rightarrow> time \<Rightarrow> InstrumentPrecisionResult \<Rightarrow> ID list \<Rightarrow> InstrumentPrecisionResult result" where
  "precision_loop byID effectiveAt acc [] = Inr acc"
| "precision_loop byID effectiveAt acc (i # rest) = (case byID i of
     None \<Rightarrow> precision_loop byID effectiveAt (acc\<lparr>ipr_MissingInstrumentIDs := ipr_MissingInstrumentIDs acc @ [i]\<rparr>) rest
   | Some instrument \<Rightarrow>
       if \<not> instrumentHasUsablePrecision instrument effectiveAt
       then precision_loop byID effectiveAt (acc\<lparr>ipr_MissingInstrumentIDs := ipr_MissingInstrumentIDs acc @ [i]\<rparr>) rest
       else bind_result (NewUTCInstant (inst_UpdatedAt instrument)) (\<lambda>asOf.
         precision_loop byID effectiveAt (acc\<lparr>ipr_Items := ipr_Items acc @ [precision_item instrument asOf]\<rparr>) rest))"

definition InstrumentPrecision_Batch ::
  "platform \<Rightarrow> (ID list \<Rightarrow> Instrument list result) \<Rightarrow> time \<Rightarrow> string list \<Rightarrow> InstrumentPrecisionResult answer" where
  "InstrumentPrecision_Batch pf findInstruments now raws =
     bind_answer (parseInstrumentPrecisionInput pf raws) (\<lambda>ids.
     answered classifyInstrumentPrecisionFailure (findInstruments ids) (\<lambda>instruments.
     answered classifyInstrumentPrecisionFailure (index_instruments Map.empty instruments) (\<lambda>byID.
     answered classifyInstrumentPrecisionFailure (precision_loop byID now \<lparr>ipr_Items = [], ipr_MissingInstrumentIDs = []\<rparr> ids) Inr)))"

end
