(* ===== verification/OptionPages.thy ===== *)
theory OptionPages
  imports InstrumentQueries RunPages
begin

text \<open>
  The options query over the catalog in PostgreSQL: following its cursors, a client is served every available
  instrument once, each provider with the mapping preferred among its rows (an instance of \<open>keyset_pages\<close>).
\<close>

subsection \<open>Grouping rows\<close>

text \<open>The first row of every key.\<close>

fun first_by :: "('a \<Rightarrow> 'k) \<Rightarrow> 'a list \<Rightarrow> 'a list" where
  "first_by key [] = []"
| "first_by key (x # xs) = x # filter (\<lambda>y. key y \<noteq> key x) (first_by key xs)"

lemma first_by_subset: "set (first_by key xs) \<subseteq> set xs"
  by (induction xs) auto

lemma first_by_cong:
  assumes "\<forall>x \<in> set xs. key x = key' x" shows "first_by key xs = first_by key' xs"
  using assms
proof (induction xs)
  case (Cons x xs)
  then show ?case using first_by_subset [of key' xs] by (auto intro!: filter_cong)
qed simp

lemma first_by_map: "first_by key (map g xs) = map g (first_by (\<lambda>x. key (g x)) xs)"
  by (induction xs) (simp_all add: filter_map comp_def)

definition belongs :: "InstrumentOption \<Rightarrow> InstrumentProviderOptionRecord \<Rightarrow> bool" where
  "belongs item r \<longleftrightarrow> po_InstrumentCode r = io_Code item \<and> po_InstrumentID r = io_ID item \<and> po_InstrumentDisplayName r = io_DisplayName item"

lemma group_rows_belonging:
  assumes "\<forall>r \<in> set rs. belongs item r"
  shows "group_rows (items @ [item]) rs = Inr (items @ [item\<lparr>io_Providers := io_Providers item
    @ map provider_option (filter (\<lambda>r. \<not> hasProviderOption (io_Providers item) (po_ProviderCode r)) (first_by po_ProviderCode rs))\<rparr>])"
  using assms
proof (induction rs arbitrary: item)
  case (Cons r rs)
  let ?has = "\<lambda>r. hasProviderOption (io_Providers item) (po_ProviderCode r)"
  let ?other = "\<lambda>y. po_ProviderCode y \<noteq> po_ProviderCode r"
  have b: "belongs item r" "\<forall>r \<in> set rs. belongs item r" using Cons.prems by simp_all
  show ?case
  proof (cases "?has r")
    case True
    then have "group_row (items @ [item]) r = Inr (items @ [item])" using b(1) by (simp add: group_row_def belongs_def)
    moreover have "filter (\<lambda>y. \<not> ?has y \<and> ?other y) (first_by po_ProviderCode rs) = filter (\<lambda>y. \<not> ?has y) (first_by po_ProviderCode rs)"
      using True by (intro filter_cong) auto
    ultimately show ?thesis using Cons.IH [OF b(2)] True by (simp add: conj_commute)
  next
    case False
    let ?item = "item\<lparr>io_Providers := io_Providers item @ [provider_option r]\<rparr>"
    have "group_row (items @ [item]) r = Inr (items @ [?item])"
      using b(1) False by (simp add: group_row_def belongs_def)
    moreover have "\<forall>r \<in> set rs. belongs ?item r" using b(2) by (simp add: belongs_def)
    moreover have "filter (\<lambda>y. \<not> hasProviderOption (io_Providers ?item) (po_ProviderCode y)) (first_by po_ProviderCode rs)
        = filter (\<lambda>y. \<not> ?has y) (filter ?other (first_by po_ProviderCode rs))"
      unfolding filter_filter by (intro filter_cong refl) (auto simp: hasProviderOption_def provider_option_def)
    ultimately show ?thesis using Cons.IH [of ?item] False by simp
  qed
qed simp

definition item_of :: "InstrumentProviderOptionRecord list \<Rightarrow> InstrumentOption" where
  "item_of rows = (new_option (hd rows))\<lparr>io_Providers := map provider_option (first_by po_ProviderCode rows)\<rparr>"

definition one_instrument :: "InstrumentProviderOptionRecord list \<Rightarrow> bool" where
  "one_instrument rows \<longleftrightarrow> rows \<noteq> [] \<and> (\<forall>r \<in> set rows. belongs (new_option (hd rows)) r)"

lemma group_rows_block:
  assumes "one_instrument rows" and "items = [] \<or> io_Code (last items) \<noteq> po_InstrumentCode (hd rows)"
  shows "group_rows items rows = Inr (items @ [item_of rows])"
proof -
  obtain r rs where rows: "rows = r # rs" using assms(1) by (cases rows) (auto simp: one_instrument_def)
  have "group_rows items rows = group_rows (items @ [new_option r]) rows"
    using assms(2) by (simp add: rows group_row_def new_option_def)
  also have "\<dots> = Inr (items @ [item_of rows])"
    using group_rows_belonging [of rows "new_option r" items] assms(1)
    by (simp add: one_instrument_def rows item_of_def new_option_def hasProviderOption_def)
  finally show ?thesis .
qed

lemma group_rows_append: "group_rows items (xs @ ys) = bind_result (group_rows items xs) (\<lambda>items. group_rows items ys)"
  by (induction xs arbitrary: items) (auto simp: bind_result_def split: sum.splits)

lemma group_rows_blocks:
  assumes "\<forall>b \<in> set bs. one_instrument b" "distinct (map (\<lambda>b. po_InstrumentCode (hd b)) bs)"
    and "items = [] \<or> io_Code (last items) \<notin> set (map (\<lambda>b. po_InstrumentCode (hd b)) bs)"
  shows "group_rows items (concat bs) = Inr (items @ map item_of bs)"
  using assms
proof (induction bs arbitrary: items)
  case (Cons b bs)
  have "group_rows items b = Inr (items @ [item_of b])" using Cons.prems by (intro group_rows_block) auto
  moreover have "io_Code (item_of b) = po_InstrumentCode (hd b)" by (simp add: item_of_def new_option_def)
  then have "group_rows (items @ [item_of b]) (concat bs) = Inr ((items @ [item_of b]) @ map item_of bs)"
    using Cons.prems by (intro Cons.IH) auto
  ultimately show ?case by (simp add: group_rows_append)
qed simp

subsection \<open>Ordering rows\<close>

lemma order_by_sorted_id: "sorted_wrt (\<lambda>a b. \<not> before b a) rows \<Longrightarrow> order_by before rows = rows"
proof (induction rows)
  case (Cons x rows)
  then have "order_by before rows = rows" by simp
  then show ?case using Cons.prems by (cases rows) (simp_all add: order_by_def)
qed (simp add: order_by_def)

lemma filter_insert_by:
  assumes "weak_order before" "sorted_wrt (\<lambda>a b. \<not> before b a) ys"
  shows "filter P (insert_by before x ys) = (if P x then insert_by before x (filter P ys) else filter P ys)"
  using assms(2)
proof (induction ys)
  case (Cons y ys)
  show ?case
  proof (cases "before y x")
    case False
    have later: "\<not> before z x" if "z \<in> set (y # ys)" for z
      using that Cons.prems False weak_orderD(2) [OF assms(1) False, of z] by auto
    have front: "insert_by before x zs = x # zs" if "set zs \<subseteq> set (y # ys)" for zs
      using that later by (cases zs) auto
    have "insert_by before x (filter P (y # ys)) = x # filter P (y # ys)" by (rule front) (auto simp: filter_is_subset)
    then show ?thesis using False by (simp only: insert_by.simps filter.simps if_False)
  qed (use Cons in auto)
qed simp

lemma order_by_filtered:
  assumes "weak_order before" shows "order_by before (filter P rows) = filter P (order_by before rows)"
proof (induction rows)
  case (Cons x rows)
  have "order_by before (x # rows) = insert_by before x (order_by before rows)" for rows x by (simp add: order_by_def)
  then show ?case using Cons filter_insert_by [OF assms order_by_sorted [OF assms]] by simp
qed (simp add: order_by_def)

lemma foldr_insert_before:
  "\<forall>x \<in> set xs. \<forall>y \<in> set ys. \<not> before y x \<Longrightarrow> foldr (insert_by before) xs ys = order_by before xs @ ys"
proof (induction xs)
  case (Cons x xs)
  have "insert_by before x (zs @ ys) = insert_by before x zs @ ys" for zs
    using Cons.prems by (induction zs) (cases ys; simp)+
  with Cons show ?case by (simp add: order_by_def)
qed (simp add: order_by_def)

lemma order_by_concat:
  assumes "sorted_wrt (\<lambda>a b. \<forall>x \<in> set a. \<forall>y \<in> set b. \<not> before y x) bs"
  shows "order_by before (concat bs) = concat (map (order_by before) bs)"
  using assms
proof (induction bs)
  case (Cons b bs)
  have "order_by before (concat (b # bs)) = foldr (insert_by before) b (order_by before (concat bs))" by (simp add: order_by_def)
  also have "\<dots> = order_by before b @ order_by before (concat bs)"
    using Cons.prems by (intro foldr_insert_before) auto
  finally show ?case using Cons by simp
qed (simp add: order_by_def)

lemma weak_order_lex:
  assumes "\<And>x y. x \<noteq> y \<Longrightarrow> lt x y \<longleftrightarrow> \<not> lt y x"
    and "\<And>x y z. lt x y \<Longrightarrow> lt y z \<Longrightarrow> x \<noteq> y \<Longrightarrow> y \<noteq> z \<Longrightarrow> x \<noteq> z \<and> lt x z" and "weak_order before"
  shows "weak_order (\<lambda>a b. if key a \<noteq> key b then lt (key a) (key b) else before a b)"
  unfolding weak_order_def
proof (intro conjI allI impI)
  fix a b c
  let ?lex = "\<lambda>a b. if key a \<noteq> key b then lt (key a) (key b) else before a b"
  assume ba: "\<not> ?lex b a" and cb: "\<not> ?lex c b"
  show "\<not> ?lex c a"
  proof (cases "key a = key b \<and> key b = key c")
    case True
    with ba cb weak_orderD(2) [OF assms(3), of b a c] show ?thesis by simp
  next
    case False
    have ab: "key a \<noteq> key b \<Longrightarrow> lt (key a) (key b)" and bc: "key b \<noteq> key c \<Longrightarrow> lt (key b) (key c)"
      using ba cb assms(1) [of "key a" "key b"] assms(1) [of "key b" "key c"] by (auto split: if_splits)
    have "key a \<noteq> key c \<and> lt (key a) (key c)"
    proof (cases "key a = key b \<or> key b = key c")
      case True
      then show ?thesis using False ab bc by auto
    qed (use ab bc assms(2) in blast)
    then show ?thesis using assms(1) [of "key a" "key c"] by auto
  qed
next
  fix a b
  let ?lex = "\<lambda>a b. if key a \<noteq> key b then lt (key a) (key b) else before a b"
  assume "?lex a b"
  then show "\<not> ?lex b a" using assms(1) [of "key a" "key b"] weak_orderD(1) [OF assms(3), of a b] by (auto split: if_splits)
qed

lemma text_before_strict:
  "v \<noteq> w \<Longrightarrow> text_before v w \<longleftrightarrow> \<not> text_before w v"
  "text_before u v \<Longrightarrow> text_before v w \<Longrightarrow> u \<noteq> w \<and> text_before u w"
  "\<not> text_before v v"
proof -
  have inj: "map of_char v = (map of_char w :: nat list) \<longleftrightarrow> v = w" for v w :: string
    by (intro inj_map_eq_map) (simp add: inj_on_def)
  show "v \<noteq> w \<Longrightarrow> text_before v w \<longleftrightarrow> \<not> text_before w v"
    unfolding text_before_def using inj by (metis lexordp_linear lexordp_antisym lexordp_into_lexordp_eq)
  show irr: "\<not> text_before v v" for v unfolding text_before_def by (simp add: lexordp_irreflexive')
  show "text_before u v \<Longrightarrow> text_before v w \<Longrightarrow> u \<noteq> w \<and> text_before u w"
    using irr lexordp_trans unfolding text_before_def by metis
qed

lemma option_row_before_order: "weak_order option_row_before"
proof -
  have bytes: "weak_order (\<lambda>a b. text_before (pi_Code (mr_Mapping a)) (pi_Code (mr_Mapping b)))"
    using text_before_order unfolding weak_order_def by blast
  show ?thesis
    unfolding option_row_before_def [abs_def]
    by (intro weak_order_lex [where lt = text_before] weak_order_lex [where lt = "\<lambda>p q. p"] weak_order_lex [where lt = "(<)"] bytes)
      (auto dest: text_before_strict(1,2))
qed

subsection \<open>The pages of the options\<close>

text \<open>
  What a client is to be served at the instant \<open>t\<close>: the instruments of the asset that are active and have an
  active mapping, by code, each with the preferred mapping of each of its providers.
\<close>

definition available :: "ID \<Rightarrow> time \<Rightarrow> DB \<Rightarrow> Instrument list" where
  "available asset t s = order_by (\<lambda>a b. text_before (inst_Code a) (inst_Code b))
     [i \<leftarrow> db_instruments s. inst_AssetID i = asset \<and> instrument_on i t
        \<and> list_ex (\<lambda>r. inst_ID (mr_Instrument r) = inst_ID i \<and> mapping_on r t) (mapping_rows s)]"

definition preferred_rows :: "time \<Rightarrow> DB \<Rightarrow> Instrument \<Rightarrow> mapping_row list" where
  "preferred_rows t s i = order_by option_row_before [r \<leftarrow> mapping_rows s. inst_ID (mr_Instrument r) = inst_ID i \<and> mapping_on r t]"

definition option_of_row :: "mapping_row \<Rightarrow> ProviderOption" where
  "option_of_row r = \<lparr>op_Code = prov_Code (mr_Provider r), op_DisplayName = prov_Name (mr_Provider r),
     op_IsDefault = pi_IsDefault (mr_Mapping r), op_Priority = pi_Priority (mr_Mapping r),
     op_SupportedIntervals = cap_Intervals (pi_Capabilities (mr_Mapping r))\<rparr>"

definition served_option :: "(json \<Rightarrow> string) \<Rightarrow> time \<Rightarrow> DB \<Rightarrow> Instrument \<Rightarrow> InstrumentOption" where
  "served_option jt t s i = \<lparr>io_ID = inst_ID i, io_Code = inst_Code i, io_DisplayName = display_name jt i,
     io_Providers = map option_of_row (first_by (\<lambda>r. prov_Code (mr_Provider r)) (preferred_rows t s i))\<rparr>"

text \<open>The catalog the query can serve: its identities and codes are unique and its joined rows are accepted.\<close>

definition row_served :: "(json \<Rightarrow> string) \<Rightarrow> mapping_row \<Rightarrow> bool" where
  "row_served jt r \<longleftrightarrow> (case scanInstrumentProviderOptionRecord jt r of
     Inl _ \<Rightarrow> False | Inr v \<Rightarrow> validateInstrumentProviderOptionRecord v = None)"

definition options_ok :: "(json \<Rightarrow> string) \<Rightarrow> DB \<Rightarrow> bool" where
  "options_ok jt s \<longleftrightarrow> distinct (map inst_ID (db_instruments s)) \<and> distinct (map inst_Code (db_instruments s))
     \<and> (\<forall>r \<in> set (mapping_rows s). row_served jt r)"

definition record_of_row :: "(json \<Rightarrow> string) \<Rightarrow> mapping_row \<Rightarrow> InstrumentProviderOptionRecord" where
  "record_of_row jt r = (case scanInstrumentProviderOptionRecord jt r of Inr v \<Rightarrow> v | Inl _ \<Rightarrow> undefined)"

lemma row_served_record:
  assumes "row_served jt r"
  shows "scanInstrumentProviderOptionRecord jt r = Inr (record_of_row jt r)"
    and "validateInstrumentProviderOptionRecord (record_of_row jt r) = None"
    and "po_InstrumentID (record_of_row jt r) = inst_ID (mr_Instrument r)"
    and "po_InstrumentCode (record_of_row jt r) = inst_Code (mr_Instrument r)"
    and "po_InstrumentDisplayName (record_of_row jt r) = display_name jt (mr_Instrument r)"
    and "po_ProviderCode (record_of_row jt r) = prov_Code (mr_Provider r)"
    and "po_ProviderInstrumentCode (record_of_row jt r) = pi_Code (mr_Mapping r)"
    and "po_IsDefault (record_of_row jt r) = pi_IsDefault (mr_Mapping r)"
    and "po_Priority (record_of_row jt r) = pi_Priority (mr_Mapping r)"
    and "provider_option (record_of_row jt r) = option_of_row r"
  using assms
  by (auto simp: row_served_def record_of_row_def scanInstrumentProviderOptionRecord_def Let_def ParseCode_def bind_result_def
      provider_option_def option_of_row_def split: sum.splits if_splits)

lemma record_order:
  "row_served jt a \<Longrightarrow> row_served jt b \<Longrightarrow> option_before (record_of_row jt a) (record_of_row jt b) = option_row_before a b"
  by (simp add: option_before_def preferred_def option_row_before_def row_served_record)

text \<open>The codes of available instruments are codes a cursor may hold.\<close>

lemma available_codes:
  assumes "options_ok jt s" "i \<in> set (available asset t s)"
  shows "ParseCode (inst_Code i) = Inr (inst_Code i)" "HasPrefix (inst_Code i) ''instrument.''"
    and "i \<in> set (db_instruments s)" "preferred_rows t s i \<noteq> []"
proof -
  from assms(2) obtain r where r: "i \<in> set (db_instruments s)" "r \<in> set (mapping_rows s)" "inst_ID (mr_Instrument r) = inst_ID i"
    "mapping_on r t" by (auto simp: available_def list_ex_iff)
  have "mr_Instrument r \<in> set (db_instruments s)" using r(2) by (auto simp: mapping_rows_def)
  then have i: "mr_Instrument r = i" using assms(1) r by (auto simp: options_ok_def distinct_map inj_on_def)
  have "row_served jt r" using assms(1) r(2) by (simp add: options_ok_def)
  then show "ParseCode (inst_Code i) = Inr (inst_Code i)" "HasPrefix (inst_Code i) ''instrument.''"
    by (auto simp: i [symmetric] row_served_def scanInstrumentProviderOptionRecord_def Let_def ParseCode_def bind_result_def
        validateInstrumentProviderOptionRecord_def split: sum.splits if_splits)
  show "i \<in> set (db_instruments s)" by (rule r(1))
  have "r \<in> set (preferred_rows t s i)" using r by (simp add: preferred_rows_def)
  then show "preferred_rows t s i \<noteq> []" by auto
qed

lemma sorted_by_text:
  assumes "sorted_wrt (\<lambda>a b. \<not> text_before (key b) (key a)) xs" "distinct (map key xs)"
  shows "sorted_wrt (\<lambda>a b. text_before (key a) (key b)) xs"
  using assms
proof (induction xs)
  case (Cons x xs)
  then show ?case using text_before_strict(1) by (auto simp: image_iff)
qed simp

lemma available_sorted:
  assumes "options_ok jt s"
  shows "sorted_wrt (\<lambda>a b. text_before (inst_Code a) (inst_Code b)) (available asset t s)" "distinct (map inst_Code (available asset t s))"
proof -
  let ?rows = "[i \<leftarrow> db_instruments s. inst_AssetID i = asset \<and> instrument_on i t
        \<and> list_ex (\<lambda>r. inst_ID (mr_Instrument r) = inst_ID i \<and> mapping_on r t) (mapping_rows s)]"
  have d: "distinct (map inst_Code ?rows)" using assms by (intro distinct_map_filter) (simp add: options_ok_def)
  then show distinct: "distinct (map inst_Code (available asset t s))" by (simp add: available_def distinct_map)
  have "weak_order (\<lambda>a b. text_before (inst_Code a) (inst_Code b))" using text_before_order unfolding weak_order_def by blast
  then have "sorted_wrt (\<lambda>a b. \<not> text_before (inst_Code b) (inst_Code a)) (available asset t s)"
    unfolding available_def by (rule order_by_sorted)
  then show "sorted_wrt (\<lambda>a b. text_before (inst_Code a) (inst_Code b)) (available asset t s)"
    using distinct by (rule sorted_by_text)
qed

text \<open>The instruments a page selects are the available ones behind its cursor.\<close>

lemma selected_available:
  "selected_instruments flt s = take (nat (of_InstrumentLimit flt))
     (after_key text_before inst_Code (of_AfterInstrumentCode flt) (available (of_AssetID flt) (timestamptz (of_EffectiveAt flt)) s))"
proof -
  let ?t = "timestamptz (of_EffectiveAt flt)"
  let ?P = "\<lambda>i. inst_AssetID i = of_AssetID flt \<and> instrument_on i ?t
        \<and> list_ex (\<lambda>r. inst_ID (mr_Instrument r) = inst_ID i \<and> mapping_on r ?t) (mapping_rows s)"
  let ?Q = "\<lambda>i. opt_all (\<lambda>c. text_before c (inst_Code i)) (of_AfterInstrumentCode flt)"
  have order: "weak_order (\<lambda>a b. text_before (inst_Code a) (inst_Code b))" using text_before_order unfolding weak_order_def by blast
  have rows: "[i \<leftarrow> db_instruments s. inst_AssetID i = of_AssetID flt \<and> instrument_on i ?t \<and> ?Q i
      \<and> list_ex (\<lambda>r. inst_ID (mr_Instrument r) = inst_ID i \<and> mapping_on r ?t) (mapping_rows s)]
      = filter ?Q (filter ?P (db_instruments s))" by (auto intro: filter_cong)
  then have "selected_instruments flt s = take (nat (of_InstrumentLimit flt)) (filter ?Q (available (of_AssetID flt) ?t s))"
    unfolding selected_instruments_def Let_def rows available_def order_by_filtered [OF order] by (simp add: conj_ac)
  then show ?thesis by (cases "of_AfterInstrumentCode flt") (simp_all add: after_key_def opt_all_def)
qed

lemma concat_map_if: "concat (map (\<lambda>r. if P r then [r] else []) rows) = filter P rows"
  by (induction rows) simp_all

lemma option_rows_blocks:
  assumes "sorted_wrt (\<lambda>a b. text_before (inst_Code a) (inst_Code b)) (selected_instruments flt s)"
    and "set (selected_instruments flt s) \<subseteq> set (db_instruments s)" "distinct (map inst_ID (db_instruments s))"
  shows "option_rows flt s = concat (map (preferred_rows (timestamptz (of_EffectiveAt flt)) s) (selected_instruments flt s))"
proof -
  let ?t = "timestamptz (of_EffectiveAt flt)"
  let ?of = "\<lambda>i. [r \<leftarrow> mapping_rows s. inst_ID (mr_Instrument r) = inst_ID i \<and> mapping_on r ?t]"
  have inst: "mr_Instrument r = i" if "r \<in> set (?of i)" "i \<in> set (selected_instruments flt s)" for r i
  proof -
    have "mr_Instrument r \<in> set (db_instruments s)" "inst_ID (mr_Instrument r) = inst_ID i"
      using that(1) by (auto simp: mapping_rows_def)
    then show ?thesis using assms(2,3) that(2) by (auto simp: distinct_map inj_on_def)
  qed
  have "sorted_wrt (\<lambda>a b. \<forall>x \<in> set (?of a). \<forall>y \<in> set (?of b). \<not> option_row_before y x) (selected_instruments flt s)"
  proof (rule sorted_wrt_mono_rel [OF _ assms(1)], intro ballI)
    fix a b x y assume m: "a \<in> set (selected_instruments flt s)" "b \<in> set (selected_instruments flt s)"
      "text_before (inst_Code a) (inst_Code b)" "x \<in> set (?of a)" "y \<in> set (?of b)"
    have "mr_Instrument x = a" "mr_Instrument y = b" using inst m by blast+
    then show "\<not> option_row_before y x" using m(3) text_before_strict(2,3) unfolding option_row_before_def by auto
  qed
  then have "sorted_wrt (\<lambda>a b. \<forall>x \<in> set a. \<forall>y \<in> set b. \<not> option_row_before y x) (map ?of (selected_instruments flt s))"
    by (simp add: sorted_wrt_map)
  from order_by_concat [OF this]
  have "order_by option_row_before (concat (map ?of (selected_instruments flt s)))
    = concat (map (preferred_rows ?t s) (selected_instruments flt s))" by (simp add: comp_def preferred_rows_def [abs_def])
  moreover have "[r. i \<leftarrow> selected_instruments flt s, r \<leftarrow> mapping_rows s, inst_ID (mr_Instrument r) = inst_ID i, mapping_on r ?t]
    = concat (map ?of (selected_instruments flt s))"
    by (simp add: concat_map_if [symmetric] if_bool_eq_conj [symmetric] cong: if_cong) (intro arg_cong [where f = concat] map_cong refl; auto)
  ultimately show ?thesis by (simp only: option_rows_def)
qed

lemma grouped_options:
  assumes ok: "options_ok jt s" and sel: "sorted_wrt (\<lambda>a b. text_before (inst_Code a) (inst_Code b)) sel"
    and avail: "set sel \<subseteq> set (available asset t s)"
  shows "groupInstrumentOptions (map (record_of_row jt) (concat (map (preferred_rows t s) sel))) = Inr (map (served_option jt t s) sel)"
proof -
  let ?g = "record_of_row jt"
  let ?rows = "concat (map (preferred_rows t s) sel)"
  let ?block = "\<lambda>i. map ?g (preferred_rows t s i)"
  have rows: "r \<in> set (mapping_rows s)" "inst_ID (mr_Instrument r) = inst_ID i" if "r \<in> set (preferred_rows t s i)" for r i
    using that by (auto simp: preferred_rows_def)
  have served: "row_served jt r" if "r \<in> set (preferred_rows t s i)" for r i
    using rows(1) [OF that] ok by (simp add: options_ok_def)
  have inst: "mr_Instrument r = i" if "r \<in> set (preferred_rows t s i)" "i \<in> set sel" for r i
  proof -
    have "mr_Instrument r \<in> set (db_instruments s)" using rows(1) [OF that(1)] by (auto simp: mapping_rows_def)
    moreover have "i \<in> set (db_instruments s)" using available_codes(3) [OF ok] that(2) avail by blast
    ultimately show ?thesis using ok rows(2) [OF that(1)] by (auto simp: options_ok_def distinct_map inj_on_def)
  qed
  have valid: "first_error (map validateInstrumentProviderOptionRecord (map ?g ?rows)) = None"
    using served row_served_record(2) by (auto simp: first_error_None_iff)
  have sorted_block: "sorted_wrt (\<lambda>a b. \<not> option_row_before b a) (preferred_rows t s i)" for i
    unfolding preferred_rows_def by (rule order_by_sorted [OF option_row_before_order])
  have "sorted_wrt (\<lambda>a b. \<not> option_row_before b a) ?rows"
    using sel inst
  proof (induction sel)
    case (Cons i sel)
    have "\<not> option_row_before y x" if "x \<in> set (preferred_rows t s i)" "j \<in> set sel" "y \<in> set (preferred_rows t s j)" for x y j
    proof -
      have "mr_Instrument x = i" "mr_Instrument y = j" "text_before (inst_Code i) (inst_Code j)" using Cons.prems that by auto
      then show ?thesis using text_before_strict(2,3) unfolding option_row_before_def by auto
    qed
    moreover have "sorted_wrt (\<lambda>a b. \<not> option_row_before b a) (concat (map (preferred_rows t s) sel))"
      using Cons.prems by (intro Cons.IH) auto
    ultimately show ?case using sorted_block [of i] by (simp add: sorted_wrt_append)
  qed simp
  then have "sorted_wrt (\<lambda>a b. \<not> option_before b a) (map ?g ?rows)"
    unfolding sorted_wrt_map by (rule sorted_wrt_mono_rel [rotated]) (use served record_order in auto)
  then have sorted: "order_by option_before (map ?g ?rows) = concat (map ?block sel)"
    by (simp add: order_by_sorted_id map_concat comp_def)
  have ne: "preferred_rows t s i \<noteq> []" if "i \<in> set sel" for i using available_codes(4) [OF ok] that avail by blast
  have hd: "hd (?block i) = ?g (hd (preferred_rows t s i))" "hd (preferred_rows t s i) \<in> set (preferred_rows t s i)"
    if "i \<in> set sel" for i using ne [OF that] by (simp_all add: hd_map)
  have head: "new_option (hd (?block i)) = \<lparr>io_ID = inst_ID i, io_Code = inst_Code i, io_DisplayName = display_name jt i, io_Providers = []\<rparr>"
    if "i \<in> set sel" for i
    using row_served_record [OF served [OF hd(2) [OF that]]] inst [OF hd(2) [OF that] that] by (simp add: hd(1) [OF that] new_option_def)
  have code: "po_InstrumentCode (hd (?block i)) = inst_Code i" if "i \<in> set sel" for i
    using arg_cong [OF head [OF that], of io_Code] by (simp add: new_option_def)
  have one: "one_instrument (?block i)" if i: "i \<in> set sel" for i
    using row_served_record(3-5) [OF served] inst [OF _ i] ne [OF i]
    by (auto simp: one_instrument_def head [OF i] belongs_def)
  have item: "item_of (?block i) = served_option jt t s i" if "i \<in> set sel" for i
  proof -
    have "first_by (\<lambda>r. po_ProviderCode (?g r)) (preferred_rows t s i) = first_by (\<lambda>r. prov_Code (mr_Provider r)) (preferred_rows t s i)"
      using row_served_record(6) served by (intro first_by_cong) blast
    then have "map provider_option (first_by po_ProviderCode (?block i)) = map (\<lambda>r. provider_option (?g r)) (first_by (\<lambda>r. prov_Code (mr_Provider r)) (preferred_rows t s i))"
      by (simp add: first_by_map comp_def)
    also have "\<dots> = map option_of_row (first_by (\<lambda>r. prov_Code (mr_Provider r)) (preferred_rows t s i))"
    proof (rule map_cong [OF refl])
      fix r assume "r \<in> set (first_by (\<lambda>r. prov_Code (mr_Provider r)) (preferred_rows t s i))"
      then have "r \<in> set (preferred_rows t s i)" by (rule subsetD [OF first_by_subset])
      then show "provider_option (?g r) = option_of_row r" by (intro row_served_record(10) served)
    qed
    finally show ?thesis using head [OF that] by (simp add: item_of_def served_option_def)
  qed
  have "map (\<lambda>b. po_InstrumentCode (hd b)) (map ?block sel) = map inst_Code sel" using code by simp
  moreover have "distinct (map inst_Code sel)"
    using sel text_before_strict(3) by (induction sel) (auto simp: image_iff)
  ultimately have "distinct (map (\<lambda>b. po_InstrumentCode (hd b)) (map ?block sel))" by (simp only:)
  then have "group_rows [] (concat (map ?block sel)) = Inr ([] @ map item_of (map ?block sel))"
    by (intro group_rows_blocks) (use one in auto)
  also have "[] @ map item_of (map ?block sel) = map (served_option jt t s) sel" using item by simp
  finally show ?thesis unfolding groupInstrumentOptions_def valid sorted by (simp add: checked_def)
qed

text \<open>The circumstances of a walk: the text form of JSON values, the catalog, the instant, the request and its asset.\<close>

type_synonym options_walk = "(json \<Rightarrow> string) \<times> DB \<times> time \<times> InstrumentOptionsInput \<times> Asset"

definition options_page :: "options_walk \<Rightarrow> Code option \<Rightarrow> (InstrumentOption list \<times> Code option) answer" where
  "options_page x cursor = (case x of (jt, s, now, input, _) \<Rightarrow> map_sum id (\<lambda>p. (iop_Items p, iop_NextAfterInstrumentCode p))
     (InstrumentOptions_List (\<lambda>c. FindAssetByCode no_faults c s) (\<lambda>flt. ListInstrumentProviderOptions jt no_faults flt s) now
        (input\<lparr>oi_AfterInstrumentCode := (case cursor of None \<Rightarrow> [] | Some c \<Rightarrow> c)\<rparr>)))"

definition options_walk_ok :: "options_walk \<Rightarrow> bool" where
  "options_walk_ok x \<longleftrightarrow> (case x of (jt, s, now, input, asset) \<Rightarrow> options_ok jt s \<and> \<not> IsZero now
     \<and> options_violations (input\<lparr>oi_AfterInstrumentCode := []\<rparr>) = []
     \<and> FindAssetByCode no_faults (oi_AssetCode input) s = Inr asset \<and> asset_Status asset = ''active'')"

definition walk_options :: "options_walk \<Rightarrow> InstrumentOption list" where
  "walk_options x = (case x of (jt, s, now, input, asset) \<Rightarrow>
     map (served_option jt (timestamptz now) s) (available (asset_ID asset) (timestamptz now) s))"

lemma scanAsset_row:
  assumes "scanAsset row = Inr a" shows "asset_Code a = asset_Code row" "\<not> ID_IsZero (asset_ID a)"
  using assms
  by (auto simp: scanAsset_def NewAsset_def Let_def bind_result_Inr_iff checked_Inr_iff Asset_Validate_def validateIdentity_def
      ParseCode_def split: if_splits)

lemma found_asset:
  assumes "FindAssetByCode no_faults c s = Inr a" shows "asset_Code a = c" "\<not> ID_IsZero (asset_ID a)"
proof -
  obtain row where "asset_Code row = c" "scanAsset row = Inr a"
    using assms
    by (auto simp: FindAssetByCode_def load_row_def call_def reading_def no_faults_def select_by_def scanned_def find_Some_iff
        map_sum_def split: sum.splits option.splits prod.splits)
  then show "asset_Code a = c" "\<not> ID_IsZero (asset_ID a)" using scanAsset_row by blast+
qed

lemma options_page_serves:
  assumes ok: "options_walk_ok (jt, s, now, input, asset)"
    and c: "cursor = None \<or> (\<exists>i \<in> set (available (asset_ID asset) (timestamptz now) s). cursor = Some (inst_Code i))"
  shows "options_page (jt, s, now, input, asset) cursor
    = Inr (cut_page io_Code (nat (oi_Limit input)) (after_key text_before io_Code cursor (walk_options (jt, s, now, input, asset))))"
    and "0 < nat (oi_Limit input)"
proof -
  let ?t = "timestamptz now" let ?avail = "available (asset_ID asset) ?t s"
  let ?input = "input\<lparr>oi_AfterInstrumentCode := (case cursor of None \<Rightarrow> [] | Some c \<Rightarrow> c)\<rparr>"
  let ?flt = "\<lparr>of_AssetID = asset_ID asset, of_AfterInstrumentCode = cursor, of_EffectiveAt = now, of_InstrumentLimit = oi_Limit input + 1\<rparr>"
  let ?sel = "selected_instruments ?flt s"
  have w: "options_ok jt s" "\<not> IsZero now" "options_violations (input\<lparr>oi_AfterInstrumentCode := []\<rparr>) = []"
    "FindAssetByCode no_faults (oi_AssetCode input) s = Inr asset" "asset_Status asset = ''active''"
    using ok by (simp_all add: options_walk_ok_def)
  have cursor: "ParseCode k = Inr k" "HasPrefix k ''instrument.''" "k \<noteq> []" if "cursor = Some k" for k
    using c that available_codes(1,2) [OF w(1)] by (fastforce simp: HasPrefix_def)+
  have limit: "1 \<le> oi_Limit input" "oi_Limit input \<le> 100"
    using w(3) by (auto simp: options_violations_def violation_def MaximumInstrumentOptionsPageSize_def split: if_splits)
  then show "0 < nat (oi_Limit input)" by simp
  have "options_violations ?input = []"
    using w(3) cursor by (cases cursor) (auto simp: options_violations_def violation_def split: if_splits)
  moreover have "(if oi_AfterInstrumentCode ?input = [] then None else Some (oi_AfterInstrumentCode ?input)) = cursor"
    using cursor(3) by (cases cursor) auto
  ultimately have valid: "validateInstrumentOptionsInput ?input = Inr (oi_AssetCode input, cursor)"
    by (simp add: validateInstrumentOptionsInput_def)
  have sel: "?sel = take (Suc (nat (oi_Limit input))) (after_key text_before inst_Code cursor ?avail)"
    using limit by (simp add: selected_available nat_add_distrib)
  have sub: "set ?sel \<subseteq> set ?avail" unfolding sel by (auto simp: after_key_def dest!: in_set_takeD split: option.splits)
  have sorted: "sorted_wrt (\<lambda>a b. text_before (inst_Code a) (inst_Code b)) ?sel"
    using available_sorted(1) [OF w(1), of "asset_ID asset" ?t] unfolding sel
    by (auto simp: after_key_def sorted_wrt_take sorted_wrt_filter split: option.splits)
  have "option_rows ?flt s = concat (map (preferred_rows ?t s) ?sel)"
    using option_rows_blocks [OF sorted] sub available_codes(3) [OF w(1)] w(1) by (auto simp: options_ok_def)
  moreover have "\<forall>r \<in> set (option_rows ?flt s). scanInstrumentProviderOptionRecord jt r = Inr (record_of_row jt r)"
    using w(1) row_served_record(1) by (auto simp: option_rows_def options_ok_def)
  ultimately have rows: "ListInstrumentProviderOptions jt no_faults ?flt s = Inr (map (record_of_row jt) (concat (map (preferred_rows ?t s) ?sel)))"
    using w(2) found_asset(2) [OF w(4)] limit cursor(3)
    by (auto simp: ListInstrumentProviderOptions_def query_rows_def no_faults_def scan_rows_map MaximumInstrumentOptionsPageSize_def)
  have "map (served_option jt ?t s) ?sel
      = take (Suc (nat (oi_Limit input))) (after_key text_before io_Code cursor (walk_options (jt, s, now, input, asset)))"
    unfolding sel by (cases cursor) (simp_all add: after_key_def walk_options_def take_map filter_map comp_def served_option_def)
  with grouped_options [OF w(1) sorted sub] found_asset(1) [OF w(4)] valid rows w(4,5)
  show "options_page (jt, s, now, input, asset) cursor
    = Inr (cut_page io_Code (nat (oi_Limit input)) (after_key text_before io_Code cursor (walk_options (jt, s, now, input, asset))))"
    by (simp add: options_page_def InstrumentOptions_List_def bind_answer_def refusing_def failing_def cut_page_more split: prod.splits)
qed

interpretation option_pages: keyset_pages options_page options_walk_ok walk_options io_Code "\<lambda>x. text_before"
  "\<lambda>x. nat (oi_Limit (fst (snd (snd (snd x)))))"
proof unfold_locales
  fix x :: options_walk and cursor :: "Code option"
  assume ok: "options_walk_ok x" and c: "cursor = None \<or> (\<exists>k \<in> io_Code ` set (walk_options x). cursor = Some k)"
  obtain jt s now input asset where x: "x = (jt, s, now, input, asset)" by (cases x)
  have "cursor = None \<or> (\<exists>i \<in> set (available (asset_ID asset) (timestamptz now) s). cursor = Some (inst_Code i))"
    using c by (auto simp: x walk_options_def served_option_def)
  from options_page_serves(1) [OF ok [unfolded x] this]
  show "options_page x cursor = Inr (cut_page io_Code (nat (oi_Limit (fst (snd (snd (snd x))))))
      (after_key text_before io_Code cursor (walk_options x)))" by (simp add: x)
next
  fix x :: options_walk assume ok: "options_walk_ok x"
  obtain jt s now input asset where x: "x = (jt, s, now, input, asset)" by (cases x)
  show "sorted_wrt (\<lambda>a b. text_before (io_Code a) (io_Code b)) (walk_options x)"
    using ok available_sorted(1) [of jt s] by (simp add: x options_walk_ok_def walk_options_def sorted_wrt_map served_option_def)
  show "0 < nat (oi_Limit (fst (snd (snd (snd x)))))"
    using options_page_serves(2) [OF ok [unfolded x], of None] by (simp add: x)
qed (auto simp: transp_def irreflp_def dest: text_before_strict(2) simp: text_before_strict(3))

text \<open>
  C35. Following the cursors of the options list, a client reads every available instrument of the asset
  exactly once, in the order of the codes: those active and valid now with an enabled, valid mapping of a
  provider that is not disabled. Each comes with one option per such provider, taken from the mapping that is
  preferred among the provider's: the default first, then by priority and code.
\<close>
theorem option_pages_complete:
  assumes "options_ok jt s" "\<not> IsZero now" "options_violations (input\<lparr>oi_AfterInstrumentCode := []\<rparr>) = []"
    and "FindAssetByCode no_faults (oi_AssetCode input) s = Inr asset" "asset_Status asset = ''active''"
  shows "follow_pages (Suc (length (available (asset_ID asset) (timestamptz now) s))) (options_page (jt, s, now, input, asset)) None
    = Some (Inr (map (served_option jt (timestamptz now) s) (available (asset_ID asset) (timestamptz now) s)))"
proof -
  have "options_walk_ok (jt, s, now, input, asset)" using assms by (simp add: options_walk_ok_def)
  from option_pages.walk_complete [OF this] show ?thesis by (simp add: walk_options_def)
qed

definition sample_options_db :: DB where
  "sample_options_db = sample_catalog\<lparr>
     db_instruments := [(ec_Instrument sample_execution)\<lparr>inst_ID := 142, inst_Code := ''instrument.eth''\<rparr>, ec_Instrument sample_execution],
     db_mappings := [second_mapping, ec_ProviderInstrument sample_execution,
       second_mapping\<lparr>pi_ID := 541, pi_InstrumentID := 142, pi_Code := ''provider.bybit.eth''\<rparr>]\<rparr>"

definition sample_options_input :: InstrumentOptionsInput where
  "sample_options_input = \<lparr>oi_AssetCode = ''asset.btc'', oi_AfterInstrumentCode = [], oi_Limit = 1\<rparr>"

theorem option_pages_complete_witness:
  "\<exists>items. follow_pages 3 (options_page (\<lambda>v. [], sample_options_db, 1000 * Hour, sample_options_input, ec_Asset sample_execution)) None
      = Some (Inr items)
    \<and> map (\<lambda>i. (io_Code i, length (io_Providers i))) items = [(''instrument.btc'', 1), (''instrument.eth'', 1)]"
proof -
  let ?served = "map (served_option (\<lambda>v. []) (timestamptz (1000 * Hour)) sample_options_db)
     (available (asset_ID (ec_Asset sample_execution)) (timestamptz (1000 * Hour)) sample_options_db)"
  have items: "map (\<lambda>i. (io_Code i, length (io_Providers i))) ?served = [(''instrument.btc'', 1), (''instrument.eth'', 1)]" by code_simp
  have n: "Suc (length (available (asset_ID (ec_Asset sample_execution)) (timestamptz (1000 * Hour)) sample_options_db)) = 3"
    using arg_cong [OF items, of length] by simp
  have "options_ok (\<lambda>v. []) sample_options_db" by code_simp
  moreover have "\<not> IsZero (1000 * Hour)" by code_simp
  moreover have "options_violations (sample_options_input\<lparr>oi_AfterInstrumentCode := []\<rparr>) = []" by code_simp
  moreover have "FindAssetByCode no_faults (oi_AssetCode sample_options_input) sample_options_db = Inr (ec_Asset sample_execution)" by code_simp
  moreover have "asset_Status (ec_Asset sample_execution) = ''active''" by code_simp
  ultimately have "follow_pages 3 (options_page (\<lambda>v. [], sample_options_db, 1000 * Hour, sample_options_input, ec_Asset sample_execution)) None
      = Some (Inr ?served)"
    by (rule option_pages_complete [where jt = "\<lambda>v. []" and s = sample_options_db and now = "1000 * Hour" and
      input = sample_options_input and asset = "ec_Asset sample_execution", unfolded n])
  with items show ?thesis by (intro exI conjI)
qed

end
