(* ===== verification/InstrumentProperties.thy ===== *)
theory InstrumentProperties
  imports InstrumentQueries
begin

text \<open>
  The precision query partitions the instruments it was asked for, and the options query, over the catalog in
  PostgreSQL, serves every available instrument once with its providers in the preferred order (an instance of
  the contract \<open>keyset_pages\<close>).
\<close>

subsection \<open>Precision\<close>

text \<open>The first occurrences.\<close>

definition firsts :: "'a list \<Rightarrow> 'a list" where
  "firsts xs = rev (remdups (rev xs))"

lemma set_firsts [simp]: "set (firsts xs) = set xs"
  by (simp add: firsts_def)

lemma firsts_snoc: "firsts (xs @ [x]) = (if x \<in> set xs then firsts xs else firsts xs @ [x])"
  by (simp add: firsts_def)

lemma precision_ids_violations:
  "precision_ids_loop pf n vs ids raws = ([], out) \<Longrightarrow> vs = []"
  by (induction pf n vs ids raws rule: precision_ids_loop.induct) (auto split: sum.splits)

lemma precision_ids_firsts:
  assumes "precision_ids_loop pf n [] (firsts seen) raws = ([], out)"
  shows "\<exists>parsed. map (ParseID pf) raws = map Inr parsed \<and> out = firsts (seen @ parsed)"
  using assms
proof (induction raws arbitrary: n seen)
  case (Cons raw rest)
  then obtain i where i: "ParseID pf raw = Inr i" by (auto split: sum.splits dest!: precision_ids_violations)
  then have "precision_ids_loop pf (Suc n) [] (firsts (seen @ [i])) rest = ([], out)"
    using Cons.prems by (auto simp: firsts_snoc split: if_splits)
  from Cons.IH [OF this] obtain parsed where "map (ParseID pf) rest = map Inr parsed" "out = firsts (seen @ i # parsed)" by auto
  with i show ?case by (intro exI [of _ "i # parsed"]) simp
qed simp

lemma index_instruments_map:
  assumes "index_instruments m is = Inr byID" "distinct (map inst_ID is)"
  shows "byID i = (case find (\<lambda>x. inst_ID x = i) is of None \<Rightarrow> m i | Some x \<Rightarrow> Some x)"
  using assms
proof (induction m "is" rule: index_instruments.induct)
  case (2 m x rest)
  then have rest: "byID i = (case find (\<lambda>y. inst_ID y = i) rest of None \<Rightarrow> (m(inst_ID x \<mapsto> x)) i | Some y \<Rightarrow> Some y)"
    by (auto simp: fun_upd_def split: if_splits)
  show ?case
  proof (cases "inst_ID x = i")
    case True
    then have "find (\<lambda>y. inst_ID y = i) rest = None" using 2(3) by (auto simp: find_None_iff image_iff)
    with rest True show ?thesis by simp
  qed (use rest in \<open>simp split: option.splits\<close>)
qed simp

definition usable_in :: "Instrument list \<Rightarrow> time \<Rightarrow> ID \<Rightarrow> bool" where
  "usable_in instruments t i \<longleftrightarrow> list_ex (\<lambda>x. inst_ID x = i \<and> instrumentHasUsablePrecision x t) instruments"

definition item_of_instrument :: "time \<Rightarrow> Instrument \<Rightarrow> InstrumentPrecisionItem \<Rightarrow> bool" where
  "item_of_instrument t x item \<longleftrightarrow> instrumentHasUsablePrecision x t \<and> inst_ID x = ipi_InstrumentID item
     \<and> inst_Code x = ipi_InstrumentCode item \<and> inst_PriceScale x = Some (ipi_PriceScale item)
     \<and> inst_QuantityScale x = Some (ipi_QuantityScale item) \<and> inst_LotSize x = Some (ipi_LotSize item)
     \<and> inst_MinQuantity x = Some (ipi_MinQuantity item) \<and> NewUTCInstant (inst_UpdatedAt x) = Inr (ipi_AsOf item)"

lemma precision_loop_partition:
  assumes "precision_loop byID t acc ids = Inr r"
    and "\<And>i. byID i = find (\<lambda>x. inst_ID x = i) instruments" and "distinct (map inst_ID instruments)"
  shows "map ipi_InstrumentID (ipr_Items r) = map ipi_InstrumentID (ipr_Items acc) @ filter (usable_in instruments t) ids
    \<and> ipr_MissingInstrumentIDs r = ipr_MissingInstrumentIDs acc @ filter (\<lambda>i. \<not> usable_in instruments t i) ids
    \<and> (\<forall>item \<in> set (ipr_Items r). item \<in> set (ipr_Items acc) \<or> (\<exists>x \<in> set instruments. item_of_instrument t x item))"
  using assms(1)
proof (induction ids arbitrary: acc)
  case (Cons i rest)
  show ?case
  proof (cases "find (\<lambda>x. inst_ID x = i) instruments")
    case None
    then have "\<not> usable_in instruments t i" by (auto simp: usable_in_def find_None_iff list_ex_iff)
    with Cons.IH [of "acc\<lparr>ipr_MissingInstrumentIDs := ipr_MissingInstrumentIDs acc @ [i]\<rparr>"] Cons.prems None assms(2)
    show ?thesis by simp
  next
    case (Some x)
    then have x: "x \<in> set instruments" "inst_ID x = i" by (auto simp: find_Some_iff)
    then have use: "usable_in instruments t i \<longleftrightarrow> instrumentHasUsablePrecision x t"
      using assms(3) by (auto simp: usable_in_def list_ex_iff distinct_map inj_on_def)
    show ?thesis
    proof (cases "instrumentHasUsablePrecision x t")
      case False
      with Cons.IH [of "acc\<lparr>ipr_MissingInstrumentIDs := ipr_MissingInstrumentIDs acc @ [i]\<rparr>"] Cons.prems Some use assms(2)
      show ?thesis by simp
    next
      case True
      have "byID i = Some x" using Some assms(2) by simp
      with Cons.prems True obtain asOf where asOf: "NewUTCInstant (inst_UpdatedAt x) = Inr asOf"
        "precision_loop byID t (acc\<lparr>ipr_Items := ipr_Items acc @ [precision_item x asOf]\<rparr>) rest = Inr r"
        by (auto simp: bind_result_Inr_iff)
      have "item_of_instrument t x (precision_item x asOf)"
        using True asOf(1) by (auto simp: item_of_instrument_def precision_item_def instrumentHasUsablePrecision_def)
      moreover have "ipi_InstrumentID (precision_item x asOf) = i" using x(2) by (simp add: precision_item_def)
      ultimately show ?thesis using Cons.IH [OF asOf(2)] use True x(1) by auto
    qed
  qed
qed simp

lemma FindInstrumentsByIDs_rows:
  assumes "FindInstrumentsByIDs pf f ids s = Inr found"
  shows "list_all2 (\<lambda>row x. x = row\<lparr>inst_Metadata := inst_Metadata x\<rparr>) [i \<leftarrow> db_instruments s. inst_ID i \<in> set ids] found"
proof -
  have "list_all2 (\<lambda>r v. scanInstrument pf r = Inr v) [i \<leftarrow> db_instruments s. inst_ID i \<in> set ids] found"
    using assms by (auto simp: FindInstrumentsByIDs_def query_rows_def scan_rows_Inr split: if_splits option.splits)
  then show ?thesis
    by (rule list_all2_mono) (auto simp: scanInstrument_def NewInstrument_def Let_def bind_result_Inr_iff checked_Inr_iff
        ParseCode_def parse_enum_def ParseInstrumentType_def ParseInstrumentStatus_def split: if_splits)
qed

lemma found_usable:
  assumes "FindInstrumentsByIDs pf f ids s = Inr found"
  shows "i \<in> set ids \<Longrightarrow> usable_in found t i = usable_in (db_instruments s) t i"
    and "x \<in> set found \<Longrightarrow> item_of_instrument t x item \<Longrightarrow> \<exists>row \<in> set (db_instruments s). item_of_instrument t row item"
    and "distinct (map inst_ID (db_instruments s)) \<Longrightarrow> distinct (map inst_ID found)"
proof -
  let ?rows = "[i \<leftarrow> db_instruments s. inst_ID i \<in> set ids]"
  have same: "instrumentHasUsablePrecision (row\<lparr>inst_Metadata := m\<rparr>) t \<longleftrightarrow> instrumentHasUsablePrecision row t" for row m
    by (simp add: instrumentHasUsablePrecision_def)
  have rows: "list_all2 (\<lambda>row x. x = row\<lparr>inst_Metadata := inst_Metadata x\<rparr>) ?rows found"
    by (rule FindInstrumentsByIDs_rows [OF assms])
  have id: "inst_ID (row\<lparr>inst_Metadata := m\<rparr>) = inst_ID row" for row :: Instrument and m by simp
  have ids: "map inst_ID found = map inst_ID ?rows"
    using rows by (induction rule: list_all2_induct) (simp, metis id list.simps(9))
  have "usable_in found t i \<longleftrightarrow> usable_in ?rows t i"
    using rows
  proof (induction rule: list_all2_induct)
    case (Cons row rows x xs)
    have "inst_ID x = inst_ID row" "instrumentHasUsablePrecision x t = instrumentHasUsablePrecision row t"
      using Cons(1) id same by metis+
    with Cons show ?case by (simp add: usable_in_def)
  qed (simp add: usable_in_def)
  moreover have "usable_in ?rows t i \<longleftrightarrow> usable_in (db_instruments s) t i" if "i \<in> set ids"
    using that by (auto simp: usable_in_def list_ex_iff)
  ultimately show "i \<in> set ids \<Longrightarrow> usable_in found t i = usable_in (db_instruments s) t i" by simp
  show "distinct (map inst_ID found)" if "distinct (map inst_ID (db_instruments s))"
    unfolding ids using that by (rule distinct_map_filter)
  assume x: "x \<in> set found" "item_of_instrument t x item"
  from x(1) obtain k where k: "k < length found" "x = found ! k" by (auto simp: in_set_conv_nth)
  let ?row = "?rows ! k"
  have same_k: "found ! k = ?row\<lparr>inst_Metadata := inst_Metadata (found ! k)\<rparr>" and n: "k < length ?rows"
    using list_all2_nthD2 [OF rows k(1)] list_all2_lengthD [OF rows] k(1) by simp_all
  have keeps: "item_of_instrument t (row\<lparr>inst_Metadata := m\<rparr>) item = item_of_instrument t row item" for row m
    by (simp add: item_of_instrument_def same)
  have "item_of_instrument t ?row item" 
    using x(2) keeps [where row = ?row and m = "inst_Metadata (found ! k)"] unfolding k(2) by (simp only: same_k [symmetric])
  moreover have "?row \<in> set (db_instruments s)" using nth_mem [OF n] by simp
  ultimately show "\<exists>row \<in> set (db_instruments s). item_of_instrument t row item" by blast
qed

text \<open>
  A precision request is answered for every instrument it names: in the order of their first naming, each
  once, either as an item, exactly when the catalog has it active, valid now and with all four measures, whose
  values are those of that row, or among the missing ones.
\<close>
lemma precision_partitions_request:
  assumes "distinct (map inst_ID (db_instruments s))"
    and "InstrumentPrecision_Batch pf (\<lambda>ids. FindInstrumentsByIDs pf f ids s) now raws = Inr r"
  shows "\<exists>parsed. map (ParseID pf) raws = map Inr parsed
    \<and> map ipi_InstrumentID (ipr_Items r) = filter (usable_in (db_instruments s) now) (firsts parsed)
    \<and> ipr_MissingInstrumentIDs r = filter (\<lambda>i. \<not> usable_in (db_instruments s) now i) (firsts parsed)
    \<and> (\<forall>item \<in> set (ipr_Items r). \<exists>row \<in> set (db_instruments s). item_of_instrument now row item)"
proof -
  obtain ids found byID where ids: "parseInstrumentPrecisionInput pf raws = Inr ids"
    and found: "FindInstrumentsByIDs pf f ids s = Inr found" and byID: "index_instruments Map.empty found = Inr byID"
    and loop: "precision_loop byID now \<lparr>ipr_Items = [], ipr_MissingInstrumentIDs = []\<rparr> ids = Inr r"
    using assms(2) by (auto simp: InstrumentPrecision_Batch_def bind_answer_def answered_Inr_iff split: sum.splits)
  have "precision_ids_loop pf 0 [] [] raws = ([], ids)"
    using ids by (auto simp: parseInstrumentPrecisionInput_def split: if_splits prod.splits)
  then obtain parsed where parsed: "map (ParseID pf) raws = map Inr parsed" "ids = firsts parsed"
    using precision_ids_firsts [of pf 0 "[]" raws ids] by (auto simp: firsts_def)
  have d: "distinct (map inst_ID found)" by (rule found_usable(3) [OF found assms(1)])
  have "byID i = find (\<lambda>x. inst_ID x = i) found" for i
    using index_instruments_map [OF byID d, of i] by (simp split: option.splits)
  from precision_loop_partition [OF loop this d]
  have part: "map ipi_InstrumentID (ipr_Items r) = filter (usable_in found now) ids"
    "ipr_MissingInstrumentIDs r = filter (\<lambda>i. \<not> usable_in found now i) ids"
    "\<forall>item \<in> set (ipr_Items r). \<exists>x \<in> set found. item_of_instrument now x item" by simp_all
  have "filter (usable_in found now) ids = filter (usable_in (db_instruments s) now) ids"
    "filter (\<lambda>i. \<not> usable_in found now i) ids = filter (\<lambda>i. \<not> usable_in (db_instruments s) now i) ids"
    using found_usable(1) [OF found] by (auto intro!: filter_cong)
  then show ?thesis
    using parsed part found_usable(2) [OF found] by (intro exI [of _ parsed]) auto
qed

definition precision_db :: DB where
  "precision_db = sample_catalog\<lparr>db_instruments :=
     [(ec_Instrument sample_execution)\<lparr>inst_QuantityScale := Some 3, inst_LotSize := Some 1, inst_MinQuantity := Some 1\<rparr>,
      (ec_Instrument sample_execution)\<lparr>inst_ID := 142, inst_Code := ''instrument.eth''\<rparr>]\<rparr>"

definition digit_platform :: platform where
  "digit_platform = sample_platform\<lparr>UUID_Parse := (\<lambda>t. if t = ''42'' then Some 42 else if t = ''142'' then Some 142 else None)\<rparr>"

lemma precision_partitions_request_witness:
  "\<exists>r. InstrumentPrecision_Batch digit_platform (\<lambda>ids. FindInstrumentsByIDs digit_platform no_faults ids precision_db) (1000 * Hour)
      [''142'', ''42'', ''142''] = Inr r
    \<and> ipr_MissingInstrumentIDs r = filter (\<lambda>i. \<not> usable_in (db_instruments precision_db) (1000 * Hour) i) (firsts [142, 42, 142])
    \<and> ipr_MissingInstrumentIDs r = [142]"
proof -
  let ?answer = "InstrumentPrecision_Batch digit_platform (\<lambda>ids. FindInstrumentsByIDs digit_platform no_faults ids precision_db)
      (1000 * Hour) [''142'', ''42'', ''142'']"
  have "case ?answer of Inl _ \<Rightarrow> False | Inr r \<Rightarrow> ipr_MissingInstrumentIDs r = [142]" by code_simp
  then obtain r where r: "?answer = Inr r" "ipr_MissingInstrumentIDs r = [142]" by (auto split: sum.splits)
  have "distinct (map inst_ID (db_instruments precision_db))" by code_simp
  from precision_partitions_request [OF this r(1)] obtain parsed where
    p: "map (ParseID digit_platform) [''142'', ''42'', ''142''] = map Inr parsed"
      "ipr_MissingInstrumentIDs r = filter (\<lambda>i. \<not> usable_in (db_instruments precision_db) (1000 * Hour) i) (firsts parsed)" by blast
  have "map (ParseID digit_platform) [''142'', ''42'', ''142''] = map Inr [142, 42, 142]" by code_simp
  then have "parsed = [142, 42, 142]" using p(1) by auto
  with r p(2) show ?thesis by auto
qed

end
