(* ===== verification/StatusQuery.thy ===== *)
theory StatusQuery
  imports CatalogQueries USMarket
begin

text \<open>
  The provider health query: application/provider_status.go over repository/postgres/provider_status.go. The
  trading calendar is an argument and its functions need not return, so a list is an \<open>option\<close>.
\<close>

subsection \<open>Sources (provider_status.go)\<close>

definition providerUnhealthyFailureThreshold :: int where "providerUnhealthyFailureThreshold = 3"

abbreviation "ProviderHealthHealthy \<equiv> ''healthy''"
abbreviation "ProviderHealthDegraded \<equiv> ''degraded''"
abbreviation "ProviderHealthUnhealthy \<equiv> ''unhealthy''"
abbreviation "ProviderHealthUnknown \<equiv> ''unknown''"

record ProviderSubscriptionObservation =
  ob_SubscriptionID :: ID
  ob_ProviderMarket :: string
  ob_AssetType :: string
  ob_Interval :: BarInterval
  ob_CloseDelaySeconds :: int
  ob_LastClosedOpenTime :: "time option"
  ob_LastSuccessAt :: "time option"
  ob_LastFailureAt :: "time option"
  ob_ConsecutiveFailures :: int

record ProviderStatusSource =
  ps_ProviderID :: ID
  ps_ProviderCode :: Code
  ps_DisplayName :: string
  ps_ProviderType :: string
  ps_ConfiguredStatus :: string
  ps_Subscriptions :: "ProviderSubscriptionObservation list"

record ProviderScopeStatus =
  sc_Market :: string
  sc_SessionType :: string
  sc_Interval :: BarInterval
  sc_MarketState :: string
  sc_HealthStatus :: string
  sc_FreshnessStatus :: string
  sc_DataDelaySeconds :: "int option"
  sc_ActiveSubscriptions :: int
  sc_DelayedSubscriptions :: int
  sc_NextMarketOpenAt :: "time option"

record ProviderStatus =
  st_ProviderID :: ID
  st_ProviderCode :: Code
  st_DisplayName :: string
  st_ProviderType :: string
  st_ConfiguredStatus :: string
  st_HealthStatus :: string
  st_LastSuccessAt :: "time option"
  st_LastFailureAt :: "time option"
  st_ConsecutiveFailures :: int
  st_CheckedAt :: time
  st_Scopes :: "ProviderScopeStatus list"

record providerScopeKey =
  sk_market :: string
  sk_sessionType :: string
  sk_interval :: BarInterval

record subscriptionFreshnessProjection =
  fp_MarketState :: string
  fp_FreshnessStatus :: string
  fp_DataDelaySeconds :: "int option"
  fp_NextMarketOpenAt :: "time option"

subsection \<open>Helpers\<close>

text \<open>\<^verbatim>\<open>latestTime\<close>, \<^verbatim>\<open>earliestTime\<close> and \<^verbatim>\<open>maximumInt64\<close>.\<close>

fun latestTime :: "time option \<Rightarrow> time option \<Rightarrow> time option" where
  "latestTime current None = current"
| "latestTime None (Some v) = Some v"
| "latestTime (Some c) (Some v) = (if v > c then Some v else Some c)"

fun earliestTime :: "time option \<Rightarrow> time option \<Rightarrow> time option" where
  "earliestTime current None = current"
| "earliestTime None (Some v) = Some v"
| "earliestTime (Some c) (Some v) = (if v < c then Some v else Some c)"

fun maximumInt64 :: "int option \<Rightarrow> int option \<Rightarrow> int option" where
  "maximumInt64 current None = current"
| "maximumInt64 None (Some v) = Some v"
| "maximumInt64 (Some c) (Some v) = (if v > c then Some v else Some c)"

definition hasFailureThreshold :: "ProviderSubscriptionObservation list \<Rightarrow> bool" where
  "hasFailureThreshold values \<longleftrightarrow> list_ex (\<lambda>v. ob_ConsecutiveFailures v \<ge> providerUnhealthyFailureThreshold) values"

definition hasAnySuccess :: "ProviderSubscriptionObservation list \<Rightarrow> bool" where
  "hasAnySuccess values \<longleftrightarrow> list_ex (\<lambda>v. ob_LastSuccessAt v \<noteq> None) values"

definition classifyProviderStatusFailure :: "error \<Rightarrow> failure" where
  "classifyProviderStatusFailure err =
     (if errors_Is err ErrDatabaseUnavailable
      then App (WrapError err ''DATABASE_UNAVAILABLE'' ''database unavailable'' True [])
      else if errors_Is err ErrRetryable
      then App (WrapError err ''SERVICE_UNAVAILABLE'' ''service temporarily unavailable'' True [])
      else App (WrapError err ''INTERNAL_ERROR'' ''provider status is unavailable'' False []))"

definition providerScopeFor :: "ProviderSubscriptionObservation \<Rightarrow> providerScopeKey result" where
  "providerScopeFor ob =
     (if ID_IsZero (ob_SubscriptionID ob) \<or> ob_ProviderMarket ob = [] \<or> ob_CloseDelaySeconds ob < 0 \<or> ob_ConsecutiveFailures ob < 0
      then Inl ErrInvalidData
      else bind_result (ParseBarInterval (ob_Interval ob)) (\<lambda>_.
        if ob_AssetType ob = ''CRYPTO''
        then Inr \<lparr>sk_market = ''crypto_'' @ ob_ProviderMarket ob, sk_sessionType = ''continuous'', sk_interval = ob_Interval ob\<rparr>
        else if ob_AssetType ob = ''FX''
        then Inr \<lparr>sk_market = ''fx_'' @ ob_ProviderMarket ob, sk_sessionType = ''continuous'', sk_interval = ob_Interval ob\<rparr>
        else if ob_AssetType ob = ''STOCK'' \<or> ob_AssetType ob = ''ETF''
        then Inr \<lparr>sk_market = ob_ProviderMarket ob @ ''_equity'', sk_sessionType = ''regular'', sk_interval = ob_Interval ob\<rparr>
        else Inl ErrInvalidData))"

text \<open>The projection of one subscription, and whether the calendar ended.\<close>

definition continuous_freshness ::
  "BarInterval \<Rightarrow> ProviderSubscriptionObservation \<Rightarrow> time \<Rightarrow> duration \<Rightarrow> (subscriptionFreshnessProjection \<times> bool) result" where
  "continuous_freshness interval ob checkedAt delay =
     bind_result (CalculateLatestContinuousWindow interval WindowTriggerClose checkedAt delay) (\<lambda>window.
       let projection = \<lparr>fp_MarketState = MarketStateOpen, fp_FreshnessStatus = FreshnessStatusUnknown,
         fp_DataDelaySeconds = None, fp_NextMarketOpenAt = None\<rparr>
       in case (window, ob_LastClosedOpenTime ob) of
            (Some w, Some lastOpen) \<Rightarrow>
              if \<not> lastOpen < cw_RangeStart w
              then Inr (projection\<lparr>fp_FreshnessStatus := FreshnessStatusFresh, fp_DataDelaySeconds := Some 0\<rparr>, False)
              else Inr (projection\<lparr>fp_FreshnessStatus := FreshnessStatusDelayed,
                fp_DataDelaySeconds := Some ((cw_RangeStart w - lastOpen) div Second)\<rparr>, False)
          | _ \<Rightarrow> Inr (projection, False))"

definition subscriptionFreshness ::
  "TradingCalendar \<Rightarrow> providerScopeKey \<Rightarrow> ProviderSubscriptionObservation \<Rightarrow> time
     \<Rightarrow> (subscriptionFreshnessProjection \<times> bool) result option" where
  "subscriptionFreshness cal key ob checkedAt = (let delay = wrap64 (ob_CloseDelaySeconds ob * Second) in
     if sk_sessionType key = ''regular'' then
       (case CalculateUSFreshness (Some cal) \<lparr>fi_ObservedAt = checkedAt, fi_Interval = sk_interval key,
            fi_CloseDelay = delay, fi_LastClosedOpenTime = ob_LastClosedOpenTime ob\<rparr> of
          None \<Rightarrow> None
        | Some (Inl e) \<Rightarrow>
            if errors_Is e ErrCalendarOutOfRange
            then Some (Inr (\<lparr>fp_MarketState = '''', fp_FreshnessStatus = FreshnessStatusUnknown,
              fp_DataDelaySeconds = None, fp_NextMarketOpenAt = None\<rparr>, True))
            else Some (Inl e)
        | Some (Inr r) \<Rightarrow> Some (Inr (\<lparr>fp_MarketState = fr_MarketState r, fp_FreshnessStatus = fr_FreshnessStatus r,
              fp_DataDelaySeconds = fr_DataDelaySeconds r, fp_NextMarketOpenAt = fr_NextMarketOpenAt r\<rparr>, False)))
     else Some (continuous_freshness (sk_interval key) ob checkedAt delay))"

subsection \<open>A scope\<close>

text \<open>The variables of the loop of \<^verbatim>\<open>projectScope\<close>.\<close>

record scope_counts =
  ct_scope :: ProviderScopeStatus
  ct_fresh :: int
  ct_delayed :: int
  ct_unknown :: int
  ct_recentFailures :: int
  ct_severe :: int
  ct_allNotApplicable :: bool

definition intervalSeconds :: "providerScopeKey \<Rightarrow> int" where
  "intervalSeconds key = (if sk_interval key = BarInterval1Day then 86400 else 3600)"

definition recent_failure :: "ProviderSubscriptionObservation \<Rightarrow> bool" where
  "recent_failure ob \<longleftrightarrow> ob_ConsecutiveFailures ob > 0
     \<or> (case ob_LastFailureAt ob of None \<Rightarrow> False
        | Some f \<Rightarrow> (case ob_LastSuccessAt ob of None \<Rightarrow> True | Some s \<Rightarrow> f > s))"

definition observation_severe ::
  "providerScopeKey \<Rightarrow> ProviderSubscriptionObservation \<Rightarrow> subscriptionFreshnessProjection \<Rightarrow> bool \<Rightarrow> bool" where
  "observation_severe key ob p calendarFailure \<longleftrightarrow> calendarFailure
     \<or> (fp_FreshnessStatus p = FreshnessStatusDelayed
        \<and> (case fp_DataDelaySeconds p of None \<Rightarrow> False | Some d \<Rightarrow> d \<ge> 3 * intervalSeconds key))
     \<or> ob_ConsecutiveFailures ob \<ge> providerUnhealthyFailureThreshold"

definition scope_market :: "subscriptionFreshnessProjection \<Rightarrow> bool \<Rightarrow> ProviderScopeStatus \<Rightarrow> ProviderScopeStatus" where
  "scope_market p calendarFailure scope =
     (let scope = (if calendarFailure then scope\<lparr>sc_MarketState := ''unknown''\<rparr> else scope);
          scope = (if fp_MarketState p = MarketStateClosed \<and> sc_MarketState scope \<noteq> ''unknown''
                   then scope\<lparr>sc_MarketState := MarketStateClosed\<rparr> else scope)
      in scope\<lparr>sc_NextMarketOpenAt := earliestTime (sc_NextMarketOpenAt scope) (fp_NextMarketOpenAt p)\<rparr>)"

definition count_observation ::
  "providerScopeKey \<Rightarrow> ProviderSubscriptionObservation \<Rightarrow> subscriptionFreshnessProjection \<Rightarrow> bool \<Rightarrow> scope_counts \<Rightarrow> scope_counts" where
  "count_observation key ob p calendarFailure c =
     (let delayed = fp_FreshnessStatus p = FreshnessStatusDelayed; scope = scope_market p calendarFailure (ct_scope c) in
      \<lparr>ct_scope = (if delayed then scope\<lparr>sc_DelayedSubscriptions := sc_DelayedSubscriptions scope + 1,
           sc_DataDelaySeconds := maximumInt64 (sc_DataDelaySeconds scope) (fp_DataDelaySeconds p)\<rparr> else scope),
       ct_fresh = ct_fresh c + (if fp_FreshnessStatus p = FreshnessStatusFresh then 1 else 0),
       ct_delayed = ct_delayed c + (if delayed then 1 else 0),
       ct_unknown = ct_unknown c + (if fp_FreshnessStatus p = FreshnessStatusUnknown then 1 else 0),
       ct_recentFailures = ct_recentFailures c + (if recent_failure ob then 1 else 0),
       ct_severe = ct_severe c + (if observation_severe key ob p calendarFailure then 1 else 0),
       ct_allNotApplicable = (ct_allNotApplicable c \<and> fp_FreshnessStatus p = FreshnessStatusNotApplicable)\<rparr>)"

fun observations_loop ::
  "TradingCalendar \<Rightarrow> providerScopeKey \<Rightarrow> time \<Rightarrow> scope_counts \<Rightarrow> ProviderSubscriptionObservation list \<Rightarrow> scope_counts result option" where
  "observations_loop cal key checkedAt c [] = Some (Inr c)"
| "observations_loop cal key checkedAt c (ob # rest) =
     bind_run (subscriptionFreshness cal key ob checkedAt) (\<lambda>(p, calendarFailure).
       observations_loop cal key checkedAt (count_observation key ob p calendarFailure c) rest)"

definition scope_freshness :: "scope_counts \<Rightarrow> ProviderScopeStatus" where
  "scope_freshness c = (let scope = ct_scope c in
     if ct_allNotApplicable c then scope\<lparr>sc_FreshnessStatus := FreshnessStatusNotApplicable, sc_DataDelaySeconds := None\<rparr>
     else if ct_delayed c > 0 then scope\<lparr>sc_FreshnessStatus := FreshnessStatusDelayed\<rparr>
     else if ct_unknown c > 0 then scope\<lparr>sc_FreshnessStatus := FreshnessStatusUnknown\<rparr>
     else scope\<lparr>sc_FreshnessStatus := FreshnessStatusFresh, sc_DataDelaySeconds := Some 0\<rparr>)"

definition scope_health :: "scope_counts \<Rightarrow> ProviderSubscriptionObservation list \<Rightarrow> string" where
  "scope_health c obs = (let n = int (length obs) in
     if ct_severe c > 0 \<and> (ct_severe c \<ge> n \<or> hasFailureThreshold obs) then ProviderHealthUnhealthy
     else if ct_delayed c > 0 \<or> ct_recentFailures c > 0 \<or> ct_severe c > 0 \<or> (ct_unknown c > 0 \<and> ct_fresh c > 0)
     then ProviderHealthDegraded
     else if ct_unknown c = n then ProviderHealthUnknown
     else if ct_allNotApplicable c \<and> hasAnySuccess obs then ProviderHealthHealthy
     else if ct_fresh c = n then ProviderHealthHealthy
     else sc_HealthStatus (ct_scope c))"

definition projectScope ::
  "TradingCalendar \<Rightarrow> providerScopeKey \<Rightarrow> ProviderSubscriptionObservation list \<Rightarrow> time \<Rightarrow> ProviderScopeStatus result option" where
  "projectScope cal key obs checkedAt =
     (if obs = [] then Some (Inl ErrInvalidData)
      else bind_run (observations_loop cal key checkedAt
          \<lparr>ct_scope = \<lparr>sc_Market = sk_market key, sc_SessionType = sk_sessionType key, sc_Interval = sk_interval key,
               sc_MarketState = ''open'', sc_HealthStatus = ProviderHealthUnknown, sc_FreshnessStatus = FreshnessStatusUnknown,
               sc_DataDelaySeconds = None, sc_ActiveSubscriptions = int (length obs), sc_DelayedSubscriptions = 0,
               sc_NextMarketOpenAt = None\<rparr>,
           ct_fresh = 0, ct_delayed = 0, ct_unknown = 0, ct_recentFailures = 0, ct_severe = 0, ct_allNotApplicable = True\<rparr> obs)
        (\<lambda>c. Some (Inr ((scope_freshness c)\<lparr>sc_HealthStatus := scope_health c obs\<rparr>))))"

subsection \<open>A provider\<close>

text \<open>\<^verbatim>\<open>groups[key] = append(groups[key], observation)\<close>: the map as an association list, whose keys are sorted before they are used.\<close>

fun add_to_group :: "'k \<Rightarrow> 'v \<Rightarrow> ('k \<times> 'v list) list \<Rightarrow> ('k \<times> 'v list) list" where
  "add_to_group k v [] = [(k, [v])]"
| "add_to_group k v ((k', vs) # rest) = (if k' = k then (k', vs @ [v]) # rest else (k', vs) # add_to_group k v rest)"

fun group_loop ::
  "(providerScopeKey \<times> ProviderSubscriptionObservation list) list \<Rightarrow> ProviderStatus \<Rightarrow> ProviderSubscriptionObservation list
     \<Rightarrow> ((providerScopeKey \<times> ProviderSubscriptionObservation list) list \<times> ProviderStatus) result" where
  "group_loop groups status [] = Inr (groups, status)"
| "group_loop groups status (ob # rest) =
     bind_result (providerScopeFor ob) (\<lambda>key.
       group_loop (add_to_group key ob groups)
         (status\<lparr>st_LastSuccessAt := latestTime (st_LastSuccessAt status) (ob_LastSuccessAt ob),
            st_LastFailureAt := latestTime (st_LastFailureAt status) (ob_LastFailureAt ob),
            st_ConsecutiveFailures := (if ob_ConsecutiveFailures ob > st_ConsecutiveFailures status
              then ob_ConsecutiveFailures ob else st_ConsecutiveFailures status)\<rparr>) rest)"

definition scope_before :: "providerScopeKey \<Rightarrow> providerScopeKey \<Rightarrow> bool" where
  "scope_before a b \<longleftrightarrow>
     (if sk_market a \<noteq> sk_market b then text_before (sk_market a) (sk_market b)
      else if sk_sessionType a \<noteq> sk_sessionType b then text_before (sk_sessionType a) (sk_sessionType b)
      else text_before (sk_interval a) (sk_interval b))"

fun scopes_loop ::
  "TradingCalendar \<Rightarrow> ProviderStatusSource \<Rightarrow> time \<Rightarrow> (providerScopeKey \<times> ProviderSubscriptionObservation list) list
     \<Rightarrow> ProviderScopeStatus list result option" where
  "scopes_loop cal source checkedAt [] = Some (Inr [])"
| "scopes_loop cal source checkedAt ((key, obs) # rest) =
     bind_run (projectScope cal key obs checkedAt) (\<lambda>scope.
     bind_run (scopes_loop cal source checkedAt rest) (\<lambda>scopes.
       Some (Inr ((if ps_ConfiguredStatus source = ''disabled'' then scope\<lparr>sc_HealthStatus := ProviderHealthUnknown\<rparr> else scope) # scopes))))"

text \<open>The loop over the scopes returns at the first that is unhealthy or degraded.\<close>

fun health_loop :: "bool \<Rightarrow> bool \<Rightarrow> ProviderScopeStatus list \<Rightarrow> string" where
  "health_loop hasHealthy hasUnknown [] =
     (if hasUnknown \<and> hasHealthy then ProviderHealthDegraded
      else if hasHealthy then ProviderHealthHealthy else ProviderHealthUnknown)"
| "health_loop hasHealthy hasUnknown (scope # rest) =
     (if sc_HealthStatus scope = ProviderHealthUnhealthy then ProviderHealthUnhealthy
      else if sc_HealthStatus scope = ProviderHealthDegraded then ProviderHealthDegraded
      else health_loop (hasHealthy \<or> sc_HealthStatus scope = ProviderHealthHealthy)
             (hasUnknown \<or> sc_HealthStatus scope = ProviderHealthUnknown) rest)"

definition summarizeProviderHealth :: "ProviderScopeStatus list \<Rightarrow> string" where
  "summarizeProviderHealth scopes = (if scopes = [] then ProviderHealthUnknown else health_loop False False scopes)"

definition start_status :: "ProviderStatusSource \<Rightarrow> time \<Rightarrow> ProviderStatus" where
  "start_status source checkedAt =
     \<lparr>st_ProviderID = ps_ProviderID source, st_ProviderCode = ps_ProviderCode source, st_DisplayName = ps_DisplayName source,
      st_ProviderType = ps_ProviderType source, st_ConfiguredStatus = ps_ConfiguredStatus source,
      st_HealthStatus = ProviderHealthUnknown, st_LastSuccessAt = None, st_LastFailureAt = None, st_ConsecutiveFailures = 0,
      st_CheckedAt = checkedAt, st_Scopes = []\<rparr>"

definition finish_status :: "ProviderStatusSource \<Rightarrow> ProviderStatus \<Rightarrow> ProviderScopeStatus list \<Rightarrow> ProviderStatus" where
  "finish_status source status0 scopes =
     (let status = status0\<lparr>st_Scopes := scopes\<rparr>; health = summarizeProviderHealth scopes in
      if ps_ConfiguredStatus source = ''disabled'' then status
      else status\<lparr>st_HealthStatus := (if ps_ConfiguredStatus source = ''degraded'' \<and> health = ProviderHealthHealthy
        then ProviderHealthDegraded else health)\<rparr>)"

definition projectProvider :: "TradingCalendar \<Rightarrow> ProviderStatusSource \<Rightarrow> time \<Rightarrow> ProviderStatus result option" where
  "projectProvider cal source checkedAt =
     (if ID_IsZero (ps_ProviderID source) \<or> Code_IsZero (ps_ProviderCode source) \<or> ps_DisplayName source = []
      then Some (Inl ErrInvalidData)
      else bind_run (Some (ParseProviderType (ps_ProviderType source))) (\<lambda>_.
        bind_run (Some (ParseProviderStatus (ps_ConfiguredStatus source))) (\<lambda>_.
        bind_run (Some (group_loop [] (start_status source checkedAt) (ps_Subscriptions source))) (\<lambda>(groups, status).
        bind_run (scopes_loop cal source checkedAt (order_by (\<lambda>a b. scope_before (fst a) (fst b)) groups)) (\<lambda>scopes.
          Some (Inr (finish_status source status scopes)))))))"

fun providers_loop :: "TradingCalendar \<Rightarrow> time \<Rightarrow> ProviderStatusSource list \<Rightarrow> ProviderStatus list result option" where
  "providers_loop cal checkedAt [] = Some (Inr [])"
| "providers_loop cal checkedAt (source # rest) =
     bind_run (projectProvider cal source checkedAt) (\<lambda>status.
     bind_run (providers_loop cal checkedAt rest) (\<lambda>statuses. Some (Inr (status # statuses))))"

definition ProviderStatus_List ::
  "(time \<Rightarrow> ProviderStatusSource list result) \<Rightarrow> time \<Rightarrow> TradingCalendar \<Rightarrow> ProviderStatus list answer option" where
  "ProviderStatus_List listSources checkedAt cal =
     (if IsZero checkedAt
      then Some (Inl (App (WrapError ErrInvalidData ''INTERNAL_ERROR'' ''provider status clock is invalid'' False [])))
      else map_option (map_sum classifyProviderStatusFailure id)
        (bind_run (Some (listSources checkedAt)) (\<lambda>sources.
         bind_run (providers_loop cal checkedAt sources) (\<lambda>statuses.
           Some (Inr (order_by (\<lambda>a b. text_before (st_ProviderCode a) (st_ProviderCode b)) statuses))))))"

subsection \<open>The sources in PostgreSQL (repository/postgres/provider_status.go)\<close>

definition newest :: "time list \<Rightarrow> time option" where
  "newest ts = (if ts = [] then None else Some (Max (set ts)))"

definition stats_success :: "ID \<Rightarrow> DB \<Rightarrow> time option" where
  "stats_success subscription s = newest (concat (map (\<lambda>t. if task_SubscriptionID t = subscription \<and> task_Status t = st_success
     then (case task_FinishedAt t of None \<Rightarrow> [] | Some f \<Rightarrow> [f]) else []) (db_tasks s)))"

definition stats_failure :: "ID \<Rightarrow> DB \<Rightarrow> time option" where
  "stats_failure subscription s = newest (map task_UpdatedAt [t \<leftarrow> db_tasks s. task_SubscriptionID t = subscription
     \<and> task_Status t \<in> set [st_failed, st_retry_wait] \<and> task_ErrorCode t \<noteq> None])"

definition status_source_on :: "source_row \<Rightarrow> time \<Rightarrow> bool" where
  "status_source_on r t \<longleftrightarrow> sub_Enabled (sr_Subscription r) \<and> pi_Enabled (sr_Mapping r)
     \<and> valid_at (pi_ValidFrom (sr_Mapping r)) (pi_ValidTo (sr_Mapping r)) t
     \<and> cap_Historical (pi_Capabilities (sr_Mapping r))
     \<and> sub_Interval (sr_Subscription r) \<in> set (cap_Intervals (pi_Capabilities (sr_Mapping r)))
     \<and> inst_Status (sr_Instrument r) = ''active''
     \<and> valid_at (inst_ValidFrom (sr_Instrument r)) (inst_ValidTo (sr_Instrument r)) t \<and> asset_Status (sr_Asset r) = ''active''"

text \<open>A row of \<^verbatim>\<open>active_sources\<close>; \<^verbatim>\<open>GREATEST\<close> ignores nulls.\<close>

definition observed :: "DB \<Rightarrow> source_row \<Rightarrow> ProviderSubscriptionObservation" where
  "observed s r = (let sub = sr_Subscription r; checkpoint = db_checkpoints s (sub_ID sub) in
     \<lparr>ob_SubscriptionID = sub_ID sub, ob_ProviderMarket = pi_ProviderMarket (sr_Mapping r), ob_AssetType = asset_AssetType (sr_Asset r),
      ob_Interval = sub_Interval sub, ob_CloseDelaySeconds = sub_CloseDelaySeconds sub,
      ob_LastClosedOpenTime = Option.bind checkpoint cp_LastClosedOpenTime,
      ob_LastSuccessAt = latestTime (Option.bind checkpoint cp_LastSuccessAt) (stats_success (sub_ID sub) s),
      ob_LastFailureAt = stats_failure (sub_ID sub) s,
      ob_ConsecutiveFailures = (case checkpoint of None \<Rightarrow> 0 | Some c \<Rightarrow> cp_ConsecutiveFailures c)\<rparr>)"

definition active_sources :: "time \<Rightarrow> DB \<Rightarrow> source_row list" where
  "active_sources t s = [r. sub \<leftarrow> db_subs s, r \<leftarrow> source_rows s sub, status_source_on r t]"

text \<open>The rows of the statement: every provider with its sources, or once without; nulls come last.\<close>

definition status_row_before ::
  "Provider \<times> ProviderSubscriptionObservation option \<Rightarrow> Provider \<times> ProviderSubscriptionObservation option \<Rightarrow> bool" where
  "status_row_before a b \<longleftrightarrow>
     (if prov_Code (fst a) \<noteq> prov_Code (fst b) then text_before (prov_Code (fst a)) (prov_Code (fst b))
      else (case (snd a, snd b) of
         (Some x, Some y) \<Rightarrow>
           if ob_ProviderMarket x \<noteq> ob_ProviderMarket y then text_before (ob_ProviderMarket x) (ob_ProviderMarket y)
           else if ob_Interval x \<noteq> ob_Interval y then text_before (ob_Interval x) (ob_Interval y)
           else ob_SubscriptionID x < ob_SubscriptionID y
       | (Some _, None) \<Rightarrow> True
       | (None, _) \<Rightarrow> False))"

definition left_join :: "'a list \<Rightarrow> 'a option list" where
  "left_join xs = (if xs = [] then [None] else map Some xs)"

definition status_rows :: "time \<Rightarrow> DB \<Rightarrow> (Provider \<times> ProviderSubscriptionObservation option) list" where
  "status_rows t s = order_by status_row_before
     [(p, ob). p \<leftarrow> db_providers s,
        ob \<leftarrow> left_join (map (observed s) [r \<leftarrow> active_sources t s. pi_ProviderID (sr_Mapping r) = prov_ID p])]"

definition scanProviderStatusSourceRow ::
  "Provider \<times> ProviderSubscriptionObservation option \<Rightarrow> (Provider \<times> ProviderSubscriptionObservation option) result" where
  "scanProviderStatusSourceRow row = (case row of (p, ob) \<Rightarrow>
     bind_result (ParseCode (prov_Code p)) (\<lambda>code.
     bind_result (ParseProviderType (prov_ProviderType p)) (\<lambda>providerType.
     bind_result (ParseProviderStatus (prov_Status p)) (\<lambda>status.
       case ob of
         None \<Rightarrow> Inr (p, None)
       | Some x \<Rightarrow>
           bind_result (ParseAssetType (ob_AssetType x)) (\<lambda>_.
           bind_result (ParseBarInterval (ob_Interval x)) (\<lambda>_. Inr (p, Some x)))))))"

text \<open>\<^verbatim>\<open>indexes\<close> finds the value of a provider; a new provider is appended.\<close>

fun add_source :: "Provider \<Rightarrow> ProviderSubscriptionObservation option \<Rightarrow> ProviderStatusSource list \<Rightarrow> ProviderStatusSource list" where
  "add_source p ob [] = [\<lparr>ps_ProviderID = prov_ID p, ps_ProviderCode = prov_Code p, ps_DisplayName = prov_Name p,
     ps_ProviderType = prov_ProviderType p, ps_ConfiguredStatus = prov_Status p,
     ps_Subscriptions = (case ob of None \<Rightarrow> [] | Some x \<Rightarrow> [x])\<rparr>]"
| "add_source p ob (v # rest) =
     (if ps_ProviderID v = prov_ID p
      then v\<lparr>ps_Subscriptions := ps_Subscriptions v @ (case ob of None \<Rightarrow> [] | Some x \<Rightarrow> [x])\<rparr> # rest
      else v # add_source p ob rest)"

definition ListProviderStatusSources :: "faults \<Rightarrow> time \<Rightarrow> DB \<Rightarrow> ProviderStatusSource list result" where
  "ListProviderStatusSources f effectiveAt s =
     (if IsZero effectiveAt then Inl ErrInvalidData
      else bind_result (query_rows f scanProviderStatusSourceRow (status_rows (timestamptz effectiveAt) s)) (\<lambda>rows.
        Inr (fold (\<lambda>(p, ob). add_source p ob) rows [])))"

end
