(* ===== verification/ProviderHealth.thy ===== *)
theory ProviderHealth
  imports StatusQuery OptionPages
begin

text \<open>
  What a client of the provider health query may rely on: every provider of the directory is listed once with
  all its active subscriptions, and one called healthy has no subscription that fails or lags.
\<close>

subsection \<open>Scopes\<close>

lemma observations_counted:
  assumes "observations_loop cal key now c obs = Some (Inr c')"
  shows "ct_recentFailures c \<le> ct_recentFailures c' \<and> ct_severe c \<le> ct_severe c' \<and> ct_fresh c' \<le> ct_fresh c + int (length obs)
    \<and> sc_ActiveSubscriptions (ct_scope c') = sc_ActiveSubscriptions (ct_scope c)
    \<and> sc_HealthStatus (ct_scope c') = sc_HealthStatus (ct_scope c)
    \<and> (ct_recentFailures c' = ct_recentFailures c \<longrightarrow> (\<forall>ob \<in> set obs. \<not> recent_failure ob))
    \<and> (ct_severe c' = ct_severe c \<longrightarrow> (\<forall>ob \<in> set obs. \<exists>p. subscriptionFreshness cal key ob now = Some (Inr (p, False))))
    \<and> (ct_allNotApplicable c' \<longrightarrow> ct_allNotApplicable c \<and> (\<forall>ob \<in> set obs. \<exists>p b. subscriptionFreshness cal key ob now = Some (Inr (p, b))
         \<and> fp_FreshnessStatus p = FreshnessStatusNotApplicable))
    \<and> (ct_fresh c' = ct_fresh c + int (length obs) \<longrightarrow> (\<forall>ob \<in> set obs. \<exists>p b. subscriptionFreshness cal key ob now = Some (Inr (p, b))
         \<and> fp_FreshnessStatus p = FreshnessStatusFresh))"
  using assms
proof (induction obs arbitrary: c)
  case (Cons ob obs)
  then obtain p b where p: "subscriptionFreshness cal key ob now = Some (Inr (p, b))"
    "observations_loop cal key now (count_observation key ob p b c) obs = Some (Inr c')" by (auto simp: bind_run_Inr_iff)
  let ?d = "count_observation key ob p b c"
  have d: "ct_recentFailures ?d = ct_recentFailures c + (if recent_failure ob then 1 else 0)"
    "ct_severe ?d = ct_severe c + (if observation_severe key ob p b then 1 else 0)"
    "ct_fresh ?d = ct_fresh c + (if fp_FreshnessStatus p = FreshnessStatusFresh then 1 else 0)"
    "ct_allNotApplicable ?d = (ct_allNotApplicable c \<and> fp_FreshnessStatus p = FreshnessStatusNotApplicable)"
    "sc_ActiveSubscriptions (ct_scope ?d) = sc_ActiveSubscriptions (ct_scope c)"
    "sc_HealthStatus (ct_scope ?d) = sc_HealthStatus (ct_scope c)"
    by (simp_all add: count_observation_def Let_def scope_market_def)
  have b: "\<not> b" if "\<not> observation_severe key ob p b" using that by (simp add: observation_severe_def)
  from Cons.IH [OF p(2)] have rest: "ct_recentFailures ?d \<le> ct_recentFailures c'" "ct_severe ?d \<le> ct_severe c'"
    "ct_fresh c' \<le> ct_fresh ?d + int (length obs)"
    "sc_ActiveSubscriptions (ct_scope c') = sc_ActiveSubscriptions (ct_scope ?d)" "sc_HealthStatus (ct_scope c') = sc_HealthStatus (ct_scope ?d)"
    "ct_recentFailures c' = ct_recentFailures ?d \<Longrightarrow> \<forall>ob \<in> set obs. \<not> recent_failure ob"
    "ct_severe c' = ct_severe ?d \<Longrightarrow> \<forall>ob \<in> set obs. \<exists>p. subscriptionFreshness cal key ob now = Some (Inr (p, False))"
    "ct_allNotApplicable c' \<Longrightarrow> ct_allNotApplicable ?d \<and> (\<forall>ob \<in> set obs. \<exists>p b. subscriptionFreshness cal key ob now = Some (Inr (p, b))
         \<and> fp_FreshnessStatus p = FreshnessStatusNotApplicable)"
    "ct_fresh c' = ct_fresh ?d + int (length obs) \<Longrightarrow> \<forall>ob \<in> set obs. \<exists>p b. subscriptionFreshness cal key ob now = Some (Inr (p, b))
         \<and> fp_FreshnessStatus p = FreshnessStatusFresh" by blast+
  let ?fresh = "\<lambda>ob st. \<exists>p b. subscriptionFreshness cal key ob now = Some (Inr (p, b)) \<and> fp_FreshnessStatus p = st"
  have "\<forall>ob \<in> set (ob # obs). \<not> recent_failure ob" if "ct_recentFailures c' = ct_recentFailures c"
  proof -
    have "ct_recentFailures c' = ct_recentFailures ?d" "\<not> recent_failure ob" using that rest(1) d(1) by (auto split: if_splits)
    then show ?thesis using rest(6) by simp
  qed
  moreover have "\<forall>ob \<in> set (ob # obs). \<exists>p. subscriptionFreshness cal key ob now = Some (Inr (p, False))" if "ct_severe c' = ct_severe c"
  proof -
    have "ct_severe c' = ct_severe ?d" "\<not> observation_severe key ob p b" using that rest(2) d(2) by (auto split: if_splits)
    then show ?thesis using rest(7) b p(1) by simp
  qed
  moreover have "ct_allNotApplicable c \<and> (\<forall>ob \<in> set (ob # obs). ?fresh ob FreshnessStatusNotApplicable)" if "ct_allNotApplicable c'"
    using rest(8) [OF that] d(4) p(1) by auto
  moreover have "\<forall>ob \<in> set (ob # obs). ?fresh ob FreshnessStatusFresh" if "ct_fresh c' = ct_fresh c + int (length (ob # obs))"
  proof -
    have "ct_fresh c' = ct_fresh ?d + int (length obs)" "fp_FreshnessStatus p = FreshnessStatusFresh"
      using that rest(3) d(3) by (auto split: if_splits)
    then show ?thesis using rest(9) p(1) by auto
  qed
  moreover have "ct_recentFailures c \<le> ct_recentFailures c'" "ct_severe c \<le> ct_severe c'" "ct_fresh c' \<le> ct_fresh c + int (length (ob # obs))"
    using rest(1-3) d(1-3) by (simp_all split: if_splits)
  moreover have "sc_ActiveSubscriptions (ct_scope c') = sc_ActiveSubscriptions (ct_scope c)"
    "sc_HealthStatus (ct_scope c') = sc_HealthStatus (ct_scope c)" using rest(4,5) d(5,6) by (simp_all only:)
  ultimately show ?case by blast
qed simp

definition health_statuses :: "string list" where
  "health_statuses = [ProviderHealthHealthy, ProviderHealthDegraded, ProviderHealthUnhealthy, ProviderHealthUnknown]"

text \<open>The subscription does not fail, and it is up to date or its market is closed.\<close>

definition in_order :: "TradingCalendar \<Rightarrow> time \<Rightarrow> ProviderSubscriptionObservation \<Rightarrow> bool" where
  "in_order cal now ob \<longleftrightarrow> ob_ConsecutiveFailures ob = 0 \<and> \<not> recent_failure ob
     \<and> (case providerScopeFor ob of
          Inl _ \<Rightarrow> False
        | Inr key \<Rightarrow> (case subscriptionFreshness cal key ob now of
            Some (Inr (p, calendarFailure)) \<Rightarrow> \<not> calendarFailure \<and> fp_FreshnessStatus p \<in> set [FreshnessStatusFresh, FreshnessStatusNotApplicable]
          | _ \<Rightarrow> False))"

lemma projectScope_facts:
  assumes "projectScope cal key obs now = Some (Inr scope)"
  shows "sc_ActiveSubscriptions scope = int (length obs)" and "sc_HealthStatus scope \<in> set health_statuses"
    and "sc_HealthStatus scope = ProviderHealthHealthy \<Longrightarrow> \<forall>ob \<in> set obs. providerScopeFor ob = Inr key \<Longrightarrow> \<forall>ob \<in> set obs. in_order cal now ob"
proof -
  let ?start = "\<lparr>ct_scope = \<lparr>sc_Market = sk_market key, sc_SessionType = sk_sessionType key, sc_Interval = sk_interval key,
               sc_MarketState = ''open'', sc_HealthStatus = ProviderHealthUnknown, sc_FreshnessStatus = FreshnessStatusUnknown,
               sc_DataDelaySeconds = None, sc_ActiveSubscriptions = int (length obs), sc_DelayedSubscriptions = 0,
               sc_NextMarketOpenAt = None\<rparr>,
           ct_fresh = 0, ct_delayed = 0, ct_unknown = 0, ct_recentFailures = 0, ct_severe = 0, ct_allNotApplicable = True\<rparr>"
  obtain c where c: "observations_loop cal key now ?start obs = Some (Inr c)"
    and scope: "scope = (scope_freshness c)\<lparr>sc_HealthStatus := scope_health c obs\<rparr>"
    using assms by (auto simp: projectScope_def bind_run_Inr_iff split: if_splits)
  note counted = observations_counted [OF c, simplified]
  show "sc_ActiveSubscriptions scope = int (length obs)" using counted by (simp add: scope scope_freshness_def Let_def)
  show "sc_HealthStatus scope \<in> set health_statuses"
    using counted by (simp add: scope scope_health_def Let_def health_statuses_def)
  assume healthy: "sc_HealthStatus scope = ProviderHealthHealthy" and key: "\<forall>ob \<in> set obs. providerScopeFor ob = Inr key"
  have "sc_HealthStatus (ct_scope c) = ProviderHealthUnknown" using counted by blast
  then have ok: "ct_recentFailures c \<le> 0" "ct_severe c \<le> 0" "ct_allNotApplicable c \<or> ct_fresh c = int (length obs)"
    using healthy by (auto simp: scope scope_health_def Let_def split: if_splits)
  then have "ct_recentFailures c = 0" "ct_severe c = 0" using counted by linarith+
  then have none: "\<forall>ob \<in> set obs. \<not> recent_failure ob" "\<forall>ob \<in> set obs. \<exists>p. subscriptionFreshness cal key ob now = Some (Inr (p, False))"
    using counted by blast+
  show "\<forall>ob \<in> set obs. in_order cal now ob"
  proof
    fix ob assume ob: "ob \<in> set obs"
    then obtain p where p: "subscriptionFreshness cal key ob now = Some (Inr (p, False))" using none by blast
    have "fp_FreshnessStatus p \<in> set [FreshnessStatusFresh, FreshnessStatusNotApplicable]"
      using ok(3) counted ob p by auto
    moreover have "0 \<le> ob_ConsecutiveFailures ob" using key ob by (auto simp: providerScopeFor_def split: if_splits)
    moreover have "\<not> recent_failure ob" "providerScopeFor ob = Inr key" using none key ob by blast+
    ultimately show "in_order cal now ob" using p by (auto simp: in_order_def recent_failure_def)
  qed
qed

lemma health_loop_healthy:
  assumes "health_loop hh hu scopes = ProviderHealthHealthy" "\<forall>sc \<in> set scopes. sc_HealthStatus sc \<in> set health_statuses"
  shows "\<not> hu \<and> (\<forall>sc \<in> set scopes. sc_HealthStatus sc = ProviderHealthHealthy)"
  using assms by (induction scopes arbitrary: hh hu) (auto simp: health_statuses_def split: if_splits)

text \<open>A degraded scope hides an unhealthy one behind it.\<close>

lemma degraded_hides_unhealthy:
  "sc_HealthStatus a = ProviderHealthDegraded \<Longrightarrow> summarizeProviderHealth (a # rest) = ProviderHealthDegraded"
  by (simp add: summarizeProviderHealth_def)

subsection \<open>Providers\<close>

text \<open>A group holds, in their order, the subscriptions of its key, and every subscription is in one.\<close>

definition grouped :: "(providerScopeKey \<times> ProviderSubscriptionObservation list) list \<Rightarrow> ProviderSubscriptionObservation list \<Rightarrow> bool" where
  "grouped groups obs \<longleftrightarrow> sum_list (map (\<lambda>g. length (snd g)) groups) = length obs
     \<and> (\<forall>ob \<in> set obs. \<exists>g \<in> set groups. ob \<in> set (snd g))
     \<and> (\<forall>g \<in> set groups. snd g \<noteq> [] \<and> (\<forall>ob \<in> set (snd g). providerScopeFor ob = Inr (fst g)))"

lemma add_to_group_length: "sum_list (map (\<lambda>g. length (snd g)) (add_to_group k v gs)) = Suc (sum_list (map (\<lambda>g. length (snd g)) gs))"
  by (induction k v gs rule: add_to_group.induct) simp_all

lemma add_to_group_member: "(\<exists>g \<in> set (add_to_group k v gs). x \<in> set (snd g)) \<longleftrightarrow> x = v \<or> (\<exists>g \<in> set gs. x \<in> set (snd g))"
  by (induction k v gs rule: add_to_group.induct) auto

lemma add_to_group_elems:
  assumes "\<forall>g \<in> set gs. snd g \<noteq> [] \<and> (\<forall>v \<in> set (snd g). P v (fst g))" "P v k"
  shows "\<forall>g \<in> set (add_to_group k v gs). snd g \<noteq> [] \<and> (\<forall>v \<in> set (snd g). P v (fst g))"
  using assms by (induction k v gs rule: add_to_group.induct) auto

lemma add_to_group_grouped:
  assumes "grouped groups obs" "providerScopeFor ob = Inr key" shows "grouped (add_to_group key ob groups) (obs @ [ob])"
  unfolding grouped_def
proof (intro conjI)
  show "sum_list (map (\<lambda>g. length (snd g)) (add_to_group key ob groups)) = length (obs @ [ob])"
    using assms(1) by (simp add: grouped_def add_to_group_length)
  have "\<forall>ob \<in> set obs. \<exists>g \<in> set groups. ob \<in> set (snd g)" using assms(1) unfolding grouped_def by blast
  then show "\<forall>x \<in> set (obs @ [ob]). \<exists>g \<in> set (add_to_group key ob groups). x \<in> set (snd g)"
    unfolding add_to_group_member by simp
  have "\<forall>g \<in> set groups. snd g \<noteq> [] \<and> (\<forall>ob \<in> set (snd g). providerScopeFor ob = Inr (fst g))"
    using assms(1) unfolding grouped_def by blast
  from add_to_group_elems [of groups "\<lambda>ob key. providerScopeFor ob = Inr key", OF this assms(2)]
  show "\<forall>g \<in> set (add_to_group key ob groups). snd g \<noteq> [] \<and> (\<forall>ob \<in> set (snd g). providerScopeFor ob = Inr (fst g))" .
qed

lemma group_loop_grouped:
  assumes "group_loop groups status obs = Inr (groups', status')" "grouped groups seen"
  shows "grouped groups' (seen @ obs) \<and> st_ProviderID status' = st_ProviderID status \<and> st_ProviderCode status' = st_ProviderCode status
    \<and> st_ConfiguredStatus status' = st_ConfiguredStatus status \<and> st_HealthStatus status' = st_HealthStatus status"
  using assms
proof (induction groups status obs arbitrary: seen rule: group_loop.induct)
  case (2 groups status ob rest)
  then obtain key where key: "providerScopeFor ob = Inr key" by (auto simp: bind_result_Inr_iff)
  show ?case using 2(1) [OF _ add_to_group_grouped [OF 2(3) key]] 2(2) key by simp
qed simp

lemma scopes_loop_list:
  assumes "scopes_loop cal source now groups = Some (Inr scopes)"
  shows "list_all2 (\<lambda>g scope. \<exists>sc. projectScope cal (fst g) (snd g) now = Some (Inr sc)
    \<and> scope = (if ps_ConfiguredStatus source = ''disabled'' then sc\<lparr>sc_HealthStatus := ProviderHealthUnknown\<rparr> else sc)) groups scopes"
  using assms
proof (induction groups arbitrary: scopes)
  case (Cons g groups)
  obtain key obs where g: "g = (key, obs)" by force
  then obtain sc rest where sc: "projectScope cal key obs now = Some (Inr sc)" and rest: "scopes_loop cal source now groups = Some (Inr rest)"
    and scopes: "scopes = (if ps_ConfiguredStatus source = ''disabled'' then sc\<lparr>sc_HealthStatus := ProviderHealthUnknown\<rparr> else sc) # rest"
    using Cons.prems by (auto simp: bind_run_Inr_iff)
  show ?case unfolding scopes list_all2_Cons using Cons.IH [OF rest] sc g by (intro conjI) auto
qed simp

lemma sum_list_order_by: "sum_list (map (f :: 'a \<Rightarrow> nat) (order_by before xs)) = sum_list (map f xs)"
proof -
  have "sum_list (map f (insert_by before x ys)) = f x + sum_list (map f ys)" for x ys
    by (induction ys) auto
  then show ?thesis by (induction xs) (simp_all add: order_by_def)
qed

lemma sum_list_lengths: "sum_list (map (\<lambda>x. int (f x)) xs) = int (sum_list (map f xs))"
  by (induction xs) simp_all

lemma grouped_order: "grouped (order_by before groups) obs = grouped groups obs"
  by (simp add: grouped_def sum_list_order_by)

lemma projectProvider_facts:
  assumes "projectProvider cal source now = Some (Inr status)"
  shows "st_ProviderID status = ps_ProviderID source" "st_ProviderCode status = ps_ProviderCode source"
    and "st_ConfiguredStatus status = ps_ConfiguredStatus source"
    and "sum_list (map sc_ActiveSubscriptions (st_Scopes status)) = int (length (ps_Subscriptions source))"
    and "ps_ConfiguredStatus source = ''disabled'' \<Longrightarrow> st_HealthStatus status = ProviderHealthUnknown
      \<and> (\<forall>sc \<in> set (st_Scopes status). sc_HealthStatus sc = ProviderHealthUnknown)"
    and "st_HealthStatus status = ProviderHealthHealthy \<Longrightarrow> ps_ConfiguredStatus source = ''active''
      \<and> ps_Subscriptions source \<noteq> [] \<and> (\<forall>ob \<in> set (ps_Subscriptions source). in_order cal now ob)"
proof -
  let ?before = "\<lambda>a b :: providerScopeKey \<times> ProviderSubscriptionObservation list. scope_before (fst a) (fst b)"
  obtain configured_status groups st0 scopes where g: "group_loop [] (start_status source now) (ps_Subscriptions source) = Inr (groups, st0)"
    and configured_status: "ParseProviderStatus (ps_ConfiguredStatus source) = Inr configured_status"
    and scopes: "scopes_loop cal source now (order_by ?before groups) = Some (Inr scopes)"
    and finish: "status = finish_status source st0 scopes"
    using assms by (auto simp: projectProvider_def bind_run_Inr_iff split: if_split_asm)
  note status = finish [unfolded finish_status_def]
  have configured: "ps_ConfiguredStatus source \<in> set [''active'', ''disabled'', ''degraded'']"
    using configured_status by (auto simp: ParseProviderStatus_def parse_enum_def split: if_splits)
  have "grouped [] []" by (simp add: grouped_def)
  from group_loop_grouped [OF g this] have groups: "grouped groups (ps_Subscriptions source)"
    and st0: "st_ProviderID st0 = ps_ProviderID source" "st_ProviderCode st0 = ps_ProviderCode source"
      "st_ConfiguredStatus st0 = ps_ConfiguredStatus source" "st_HealthStatus st0 = ProviderHealthUnknown"
    by (simp_all add: start_status_def)
  show "st_ProviderID status = ps_ProviderID source" "st_ProviderCode status = ps_ProviderCode source"
    "st_ConfiguredStatus status = ps_ConfiguredStatus source"
    using st0 by (simp_all add: status Let_def)
  have st_scopes: "st_Scopes status = scopes" by (simp add: status Let_def)
  let ?gs = "order_by ?before groups"
  have gs: "grouped ?gs (ps_Subscriptions source)" using groups by (simp only: grouped_order)
  note all = scopes_loop_list [OF scopes]
  have "map sc_ActiveSubscriptions scopes = map (\<lambda>g. int (length (snd g))) ?gs"
    using all by (induction rule: list_all2_induct) (auto simp: projectScope_facts(1))
  then show "sum_list (map sc_ActiveSubscriptions (st_Scopes status)) = int (length (ps_Subscriptions source))"
    using gs by (simp add: st_scopes grouped_def sum_list_lengths)
  show "st_HealthStatus status = ProviderHealthUnknown \<and> (\<forall>sc \<in> set (st_Scopes status). sc_HealthStatus sc = ProviderHealthUnknown)"
    if disabled: "ps_ConfiguredStatus source = ''disabled''"
  proof
    show "st_HealthStatus status = ProviderHealthUnknown" using st0 disabled by (simp add: status Let_def)
    show "\<forall>sc \<in> set (st_Scopes status). sc_HealthStatus sc = ProviderHealthUnknown"
      unfolding st_scopes using all disabled by (induction rule: list_all2_induct) auto
  qed
  assume healthy: "st_HealthStatus status = ProviderHealthHealthy"
  then have active: "ps_ConfiguredStatus source \<noteq> ''disabled''" "ps_ConfiguredStatus source \<noteq> ''degraded''"
    and summary: "summarizeProviderHealth scopes = ProviderHealthHealthy"
    using st0 by (auto simp: status Let_def split: if_splits)
  have projected: "list_all2 (\<lambda>g scope. projectScope cal (fst g) (snd g) now = Some (Inr scope)) ?gs scopes"
    using all active(1) by simp
  then have "\<forall>sc \<in> set scopes. sc_HealthStatus sc \<in> set health_statuses"
    by (induction rule: list_all2_induct) (auto dest: projectScope_facts(2))
  then have "\<forall>sc \<in> set scopes. sc_HealthStatus sc = ProviderHealthHealthy"
    using summary health_loop_healthy [of False False scopes] by (auto simp: summarizeProviderHealth_def split: if_splits)
  with projected have "\<forall>g \<in> set ?gs. \<exists>sc. projectScope cal (fst g) (snd g) now = Some (Inr sc) \<and> sc_HealthStatus sc = ProviderHealthHealthy"
    by (induction rule: list_all2_induct) auto
  then have order: "\<forall>g \<in> set ?gs. \<forall>ob \<in> set (snd g). in_order cal now ob"
    using projectScope_facts(3) gs unfolding grouped_def by blast
  have "ps_ConfiguredStatus source = ''active''" using configured active by auto
  moreover have "scopes \<noteq> []" using summary by (auto simp: summarizeProviderHealth_def)
  then have "?gs \<noteq> []" using projected by auto
  then have "ps_Subscriptions source \<noteq> []" using gs unfolding grouped_def by (cases ?gs) auto
  moreover have "\<forall>ob \<in> set (ps_Subscriptions source). in_order cal now ob" using order gs unfolding grouped_def by blast
  ultimately show "ps_ConfiguredStatus source = ''active'' \<and> ps_Subscriptions source \<noteq> []
      \<and> (\<forall>ob \<in> set (ps_Subscriptions source). in_order cal now ob)" by blast
qed

subsection \<open>Sources\<close>

definition subs_of :: "ID \<Rightarrow> (Provider \<times> ProviderSubscriptionObservation option) list \<Rightarrow> ProviderSubscriptionObservation list" where
  "subs_of i rows = concat (map (\<lambda>(p, ob). if prov_ID p = i then (case ob of None \<Rightarrow> [] | Some x \<Rightarrow> [x]) else []) rows)"

lemma subs_of_append [simp]: "subs_of i (xs @ ys) = subs_of i xs @ subs_of i ys"
  by (simp add: subs_of_def)

lemma subs_of_absent: "i \<notin> set (map (\<lambda>row. prov_ID (fst row)) rows) \<Longrightarrow> subs_of i rows = []"
  by (induction rows) (auto simp: subs_of_def)

definition source_of :: "Provider \<Rightarrow> ProviderStatusSource \<Rightarrow> bool" where
  "source_of p v \<longleftrightarrow> ps_ProviderID v = prov_ID p \<and> ps_ProviderCode v = prov_Code p \<and> ps_ConfiguredStatus v = prov_Status p"

definition new_source :: "Provider \<Rightarrow> ProviderSubscriptionObservation option \<Rightarrow> ProviderStatusSource" where
  "new_source p ob = \<lparr>ps_ProviderID = prov_ID p, ps_ProviderCode = prov_Code p, ps_DisplayName = prov_Name p,
     ps_ProviderType = prov_ProviderType p, ps_ConfiguredStatus = prov_Status p,
     ps_Subscriptions = (case ob of None \<Rightarrow> [] | Some x \<Rightarrow> [x])\<rparr>"

lemma add_source_new: "prov_ID p \<notin> set (map ps_ProviderID vs) \<Longrightarrow> add_source p ob vs = vs @ [new_source p ob]"
  by (induction vs) (auto simp: new_source_def)

lemma add_source_old:
  "prov_ID p \<in> set (map ps_ProviderID vs) \<Longrightarrow> distinct (map ps_ProviderID vs) \<Longrightarrow> add_source p ob vs
    = map (\<lambda>v. if ps_ProviderID v = prov_ID p then v\<lparr>ps_Subscriptions := ps_Subscriptions v @ (case ob of None \<Rightarrow> [] | Some x \<Rightarrow> [x])\<rparr> else v) vs"
proof (induction vs)
  case (Cons v vs)
  show ?case
  proof (cases "ps_ProviderID v = prov_ID p")
    case True
    then have "map (\<lambda>v. if ps_ProviderID v = prov_ID p then v\<lparr>ps_Subscriptions := ps_Subscriptions v @ (case ob of None \<Rightarrow> [] | Some x \<Rightarrow> [x])\<rparr> else v) vs = vs"
      using Cons.prems(2) by (intro map_idI) (auto simp: image_iff)
    then show ?thesis using True by simp
  qed (use Cons in auto)
qed simp

definition sources_of_rows :: "(Provider \<times> ProviderSubscriptionObservation option) list \<Rightarrow> ProviderStatusSource list" where
  "sources_of_rows rows = fold (\<lambda>(p, ob). add_source p ob) rows []"

lemma sources_of_rows:
  "distinct (map ps_ProviderID (sources_of_rows rows))
    \<and> set (map ps_ProviderID (sources_of_rows rows)) = set (map (\<lambda>row. prov_ID (fst row)) rows)
    \<and> (\<forall>v \<in> set (sources_of_rows rows). \<exists>p \<in> set (map fst rows). source_of p v \<and> ps_Subscriptions v = subs_of (prov_ID p) rows)"
proof (induction rows rule: rev_induct)
  case Nil show ?case by (simp add: sources_of_rows_def)
next
  case (snoc row rows)
  obtain p ob where row: "row = (p, ob)" by force
  let ?vs = "sources_of_rows rows"
  let ?more = "case ob of None \<Rightarrow> [] | Some x \<Rightarrow> [x]"
  have step: "sources_of_rows (rows @ [row]) = add_source p ob ?vs" by (simp add: sources_of_rows_def row)
  have vs: "distinct (map ps_ProviderID ?vs)" "set (map ps_ProviderID ?vs) = set (map (\<lambda>row. prov_ID (fst row)) rows)"
    "\<forall>v \<in> set ?vs. \<exists>p \<in> set (map fst rows). source_of p v \<and> ps_Subscriptions v = subs_of (prov_ID p) rows" using snoc.IH by blast+
  have one: "subs_of i [row] = (if prov_ID p = i then ?more else [])" for i by (simp add: subs_of_def row)
  show ?case
  proof (cases "prov_ID p \<in> set (map ps_ProviderID ?vs)")
    case False
    then have absent: "subs_of (prov_ID p) rows = []" using vs(2) by (intro subs_of_absent) simp
    have "\<exists>q \<in> set (map fst (rows @ [row])). source_of q v \<and> ps_Subscriptions v = subs_of (prov_ID q) (rows @ [row])"
      if v: "v \<in> set (?vs @ [new_source p ob])" for v
    proof (cases "v \<in> set ?vs")
      case True
      then obtain q where q: "q \<in> set (map fst rows)" "source_of q v" "ps_Subscriptions v = subs_of (prov_ID q) rows" using vs(3) by blast
      have "prov_ID p \<noteq> prov_ID q" using False True q(2) by (auto simp: source_of_def image_iff)
      with q one show ?thesis by auto
    next
      case new: False
      then have "v = new_source p ob" using v by simp
      then have "source_of p v \<and> ps_Subscriptions v = subs_of (prov_ID p) (rows @ [row])"
        using absent one by (simp add: source_of_def new_source_def)
      then show ?thesis using row by simp
    qed
    moreover have "prov_ID p \<notin> ps_ProviderID ` set ?vs" "ps_ProviderID (new_source p ob) = prov_ID p"
      using False by (simp_all add: new_source_def)
    ultimately show ?thesis using vs(1,2) unfolding step add_source_new [OF False] by (auto simp: row)
  next
    case True
    let ?u = "\<lambda>v. if ps_ProviderID v = prov_ID p then v\<lparr>ps_Subscriptions := ps_Subscriptions v @ ?more\<rparr> else v"
    have ids: "map ps_ProviderID (map ?u ?vs) = map ps_ProviderID ?vs" by simp
    have old: "\<exists>q \<in> set (map fst (rows @ [row])). source_of q (?u v) \<and> ps_Subscriptions (?u v) = subs_of (prov_ID q) (rows @ [row])"
      if v: "v \<in> set ?vs" for v
    proof -
      obtain q where q: "q \<in> set (map fst rows)" "source_of q v" "ps_Subscriptions v = subs_of (prov_ID q) rows" using vs(3) v by blast
      then have "source_of q (?u v) \<and> ps_Subscriptions (?u v) = subs_of (prov_ID q) (rows @ [row])"
        using one by (auto simp: source_of_def)
      moreover have "q \<in> set (map fst (rows @ [row]))" using q(1) by simp
      ultimately show ?thesis by blast
    qed
    show ?thesis
      unfolding step add_source_old [OF True vs(1)]
    proof (intro conjI ballI)
      show "distinct (map ps_ProviderID (map ?u ?vs))" unfolding ids by (rule vs(1))
      show "set (map ps_ProviderID (map ?u ?vs)) = set (map (\<lambda>row. prov_ID (fst row)) (rows @ [row]))"
        unfolding ids using vs(2) True by (auto simp: row)
      fix w assume "w \<in> set (map ?u ?vs)"
      then obtain v where "v \<in> set ?vs" "w = ?u v" by (simp only: set_map) (erule imageE, blast)
      then show "\<exists>q \<in> set (map fst (rows @ [row])). source_of q w \<and> ps_Subscriptions w = subs_of (prov_ID q) (rows @ [row])"
        using old by (simp only:)
    qed
  qed
qed

subsection \<open>The rows of the statement\<close>

definition active_of :: "time \<Rightarrow> DB \<Rightarrow> Provider \<Rightarrow> source_row list" where
  "active_of t s p = [r \<leftarrow> active_sources t s. pi_ProviderID (sr_Mapping r) = prov_ID p]"

lemma left_join_subs: "subs_of i (map (Pair p) (left_join xs)) = (if prov_ID p = i then xs else [])"
proof -
  have "subs_of i (map (Pair p) (map Some xs)) = (if prov_ID p = i then xs else [])"
    by (induction xs) (simp_all add: subs_of_def)
  then show ?thesis by (cases xs) (simp_all add: left_join_def subs_of_def)
qed

lemma joined_subs:
  assumes "distinct (map prov_ID ps)"
  shows "subs_of (prov_ID p) (concat (map (\<lambda>p. map (Pair p) (left_join (f p))) ps)) = concat (map (\<lambda>q. if prov_ID q = prov_ID p then f q else []) ps)"
  by (induction ps) (simp_all add: left_join_subs subs_of_def [of _ "[]"])

lemma only_one: "distinct (map prov_ID ps) \<Longrightarrow> p \<in> set ps \<Longrightarrow> concat (map (\<lambda>q. if prov_ID q = prov_ID p then f q else []) ps) = f p"
proof (induction ps)
  case (Cons q ps)
  show ?case
  proof (cases "q = p")
    case True
    then have "\<forall>q \<in> set ps. prov_ID q \<noteq> prov_ID p" using Cons.prems(1) by (auto simp: image_iff)
    then have "concat (map (\<lambda>q. if prov_ID q = prov_ID p then f q else []) ps) = []" by simp
    with True show ?thesis by simp
  next
    case False
    then have "p \<in> set ps" using Cons.prems(2) by simp
    moreover then have "prov_ID q \<noteq> prov_ID p" using Cons.prems(1) by (auto simp: image_iff)
    ultimately show ?thesis using Cons by simp
  qed
qed simp

lemma status_rows_subs:
  assumes "distinct (map prov_ID (db_providers s))" "p \<in> set (db_providers s)"
  shows "length (subs_of (prov_ID p) (status_rows t s)) = length (active_of t s p)"
    and "set (subs_of (prov_ID p) (status_rows t s)) = observed s ` set (active_of t s p)"
    and "set (map fst (status_rows t s)) = set (db_providers s)"
proof -
  let ?f = "\<lambda>p. map (observed s) (active_of t s p)"
  let ?rows = "concat (map (\<lambda>p. map (Pair p) (left_join (?f p))) (db_providers s))"
  have rows: "status_rows t s = order_by status_row_before ?rows" by (simp add: status_rows_def active_of_def)
  have "subs_of (prov_ID p) ?rows = concat (map (\<lambda>q. if prov_ID q = prov_ID p then ?f q else []) (db_providers s))"
    by (rule joined_subs [OF assms(1)])
  also have "\<dots> = ?f p" by (rule only_one [OF assms])
  finally have subs: "subs_of (prov_ID p) ?rows = ?f p" .
  have "length (subs_of i (order_by status_row_before ?rows)) = length (subs_of i ?rows)" for i
    unfolding subs_of_def length_concat map_map by (rule sum_list_order_by)
  then show "length (subs_of (prov_ID p) (status_rows t s)) = length (active_of t s p)" unfolding rows using subs by simp
  have "set (subs_of i (order_by status_row_before ?rows)) = set (subs_of i ?rows)" for i
    unfolding subs_of_def set_concat set_map set_order_by by (rule refl)
  then show "set (subs_of (prov_ID p) (status_rows t s)) = observed s ` set (active_of t s p)" unfolding rows using subs by simp
  have "\<exists>ob. ob \<in> set (left_join xs)" for xs :: "ProviderSubscriptionObservation list" by (cases xs) (auto simp: left_join_def)
  then show "set (map fst (status_rows t s)) = set (db_providers s)" unfolding rows by (force simp: image_iff)
qed

subsection \<open>The list\<close>

lemma ListProviderStatusSources_rows:
  assumes "ListProviderStatusSources f now s = Inr sources"
  shows "sources = sources_of_rows (status_rows (timestamptz now) s)"
proof -
  obtain rows where rows: "scan_rows scanProviderStatusSourceRow (status_rows (timestamptz now) s) = Inr rows"
    and sources: "sources = sources_of_rows rows"
    using assms by (auto simp: ListProviderStatusSources_def query_rows_def bind_result_Inr_iff sources_of_rows_def split: if_splits option.splits)
  have "scanProviderStatusSourceRow row = Inr v \<Longrightarrow> row = v" for row v
    by (auto simp: scanProviderStatusSourceRow_def bind_result_Inr_iff split: option.splits prod.splits)
  from list_all2_mono [OF rows [unfolded scan_rows_Inr] this] have "list_all2 (=) (status_rows (timestamptz now) s) rows" .
  then show ?thesis using sources by (simp add: list.rel_eq)
qed

lemma providers_loop_list:
  "providers_loop cal now sources = Some (Inr statuses) \<Longrightarrow>
    list_all2 (\<lambda>source status. projectProvider cal source now = Some (Inr status)) sources statuses"
  by (induction sources arbitrary: statuses) (auto simp: bind_run_Inr_iff)

lemma ProviderStatus_List_sources:
  assumes "ProviderStatus_List (\<lambda>t. ListProviderStatusSources f t s) now cal = Some (Inr statuses)"
  shows "\<exists>sts. list_all2 (\<lambda>source status. projectProvider cal source now = Some (Inr status))
      (sources_of_rows (status_rows (timestamptz now) s)) sts
    \<and> statuses = order_by (\<lambda>a b. text_before (st_ProviderCode a) (st_ProviderCode b)) sts"
proof -
  have run: "\<exists>y. r = Some (Inr y) \<and> x = y" if "map_option (map_sum classifyProviderStatusFailure id) r = Some (Inr x)"
    for r :: "ProviderStatus list result option" and x
    using that by (cases r) (auto simp: map_sum_def split: sum.splits)
  have "\<not> IsZero now" using assms by (auto simp: ProviderStatus_List_def)
  from run [OF assms [unfolded ProviderStatus_List_def if_not_P [OF this]]] obtain sources sts where "ListProviderStatusSources f now s = Inr sources"
    "providers_loop cal now sources = Some (Inr sts)"
    "statuses = order_by (\<lambda>a b. text_before (st_ProviderCode a) (st_ProviderCode b)) sts"
    by (auto simp: bind_run_Inr_iff)
  then show ?thesis using ListProviderStatusSources_rows providers_loop_list by blast
qed

text \<open>Every status belongs to a provider of the directory and reports all its active subscriptions.\<close>

lemma listed_provider:
  assumes "catalog_ok s"
    and "list_all2 (\<lambda>source status. projectProvider cal source now = Some (Inr status)) (sources_of_rows (status_rows (timestamptz now) s)) sts"
    and "status \<in> set sts"
  shows "\<exists>p \<in> set (db_providers s). \<exists>v. projectProvider cal v now = Some (Inr status) \<and> source_of p v
    \<and> length (ps_Subscriptions v) = length (active_of (timestamptz now) s p)
    \<and> set (ps_Subscriptions v) = observed s ` set (active_of (timestamptz now) s p)"
proof -
  obtain k where k: "k < length sts" "status = sts ! k" using assms(3) by (auto simp: in_set_conv_nth)
  let ?v = "sources_of_rows (status_rows (timestamptz now) s) ! k"
  have v: "projectProvider cal ?v now = Some (Inr status)" "?v \<in> set (sources_of_rows (status_rows (timestamptz now) s))"
    using list_all2_nthD2 [OF assms(2) k(1)] list_all2_lengthD [OF assms(2)] k by simp_all
  then obtain p where p: "p \<in> set (map fst (status_rows (timestamptz now) s))" "source_of p ?v"
    "ps_Subscriptions ?v = subs_of (prov_ID p) (status_rows (timestamptz now) s)"
    using sources_of_rows [of "status_rows (timestamptz now) s"] by blast
  have d: "distinct (map prov_ID (db_providers s))" using assms(1) by (simp add: catalog_ok_def)
  have mem: "p \<in> set (db_providers s)"
  proof (cases "db_providers s")
    case Nil
    then show ?thesis using p(1) by (simp add: status_rows_def order_by_def)
  next
    case (Cons q ps)
    then show ?thesis using p(1) status_rows_subs(3) [OF d, of q] by simp
  qed
  show ?thesis
    using v(1) p(2,3) mem status_rows_subs(1,2) [OF d mem] by (intro bexI [of _ p] exI [of _ ?v]) simp_all
qed

lemma listed_codes:
  assumes "catalog_ok s"
    and "list_all2 (\<lambda>source status. projectProvider cal source now = Some (Inr status)) (sources_of_rows (status_rows (timestamptz now) s)) sts"
  shows "distinct (map st_ProviderCode sts)" "set (map st_ProviderCode sts) = set (map prov_Code (db_providers s))"
proof -
  let ?vs = "sources_of_rows (status_rows (timestamptz now) s)"
  have ids: "map st_ProviderID sts = map ps_ProviderID ?vs" "map st_ProviderCode sts = map ps_ProviderCode ?vs"
    using assms(2) by (induction rule: list_all2_induct) (simp_all add: projectProvider_facts(1,2))
  have d: "distinct (map prov_ID (db_providers s))" "distinct (map prov_Code (db_providers s))"
    using assms(1) by (simp_all add: catalog_ok_def)
  have providers: "set (map fst (status_rows (timestamptz now) s)) = set (db_providers s)"
  proof (cases "db_providers s")
    case Nil
    then show ?thesis by (simp add: status_rows_def order_by_def)
  next
    case (Cons q ps)
    then show ?thesis using status_rows_subs(3) [OF d(1), of q] by simp
  qed
  note facts = sources_of_rows [of "status_rows (timestamptz now) s", unfolded providers]
  have source: "\<exists>p \<in> set (db_providers s). source_of p v" if "v \<in> set ?vs" for v using facts that by blast
  have "inj_on ps_ProviderCode (set ?vs)"
  proof (rule inj_onI)
    fix v w assume vw: "v \<in> set ?vs" "w \<in> set ?vs" "ps_ProviderCode v = ps_ProviderCode w"
    obtain p q where pq: "p \<in> set (db_providers s)" "source_of p v" "q \<in> set (db_providers s)" "source_of q w" using source vw(1,2) by blast
    then have "prov_Code p = prov_Code q" using vw(3) by (simp add: source_of_def)
    then have "p = q" using d(2) pq(1,3) by (simp add: distinct_map inj_on_def)
    then have "ps_ProviderID v = ps_ProviderID w" using pq(2,4) by (simp add: source_of_def)
    then show "v = w" using facts vw(1,2) by (simp add: distinct_map inj_on_def)
  qed
  moreover have "distinct ?vs" using facts by (simp add: distinct_map)
  ultimately show "distinct (map st_ProviderCode sts)" unfolding ids by (simp add: distinct_map)
  have "set (map ps_ProviderID ?vs) = prov_ID ` set (db_providers s)"
    using facts providers [symmetric] by (simp add: image_image)
  then have served: "\<exists>v \<in> set ?vs. source_of p v" if p: "p \<in> set (db_providers s)" for p
  proof -
    from p \<open>set (map ps_ProviderID ?vs) = prov_ID ` set (db_providers s)\<close> have "prov_ID p \<in> ps_ProviderID ` set ?vs"
      by (metis image_eqI set_map)
    then obtain v where v: "v \<in> set ?vs" "ps_ProviderID v = prov_ID p" by auto
    then obtain q where q: "q \<in> set (db_providers s)" "source_of q v" using source by blast
    have "q = p" using q v(2) d(1) p by (simp add: source_of_def distinct_map inj_on_def)
    with q v(1) show ?thesis by blast
  qed
  show "set (map st_ProviderCode sts) = set (map prov_Code (db_providers s))"
    unfolding ids
  proof (intro equalityI subsetI)
    fix c assume "c \<in> set (map ps_ProviderCode ?vs)"
    then obtain v where v: "v \<in> set ?vs" "c = ps_ProviderCode v" by auto
    from source [OF v(1)] v(2) show "c \<in> set (map prov_Code (db_providers s))" by (auto simp: source_of_def)
  next
    fix c assume "c \<in> set (map prov_Code (db_providers s))"
    then obtain p where p: "p \<in> set (db_providers s)" "c = prov_Code p" by auto
    from served [OF p(1)] obtain v where "v \<in> set ?vs" "ps_ProviderCode v = c" using p(2) by (auto simp: source_of_def)
    then show "c \<in> set (map ps_ProviderCode ?vs)" by auto
  qed
qed

lemma by_provider_code_order: "weak_order (\<lambda>a b. text_before (st_ProviderCode a) (st_ProviderCode b))"
  using text_before_order unfolding weak_order_def by blast

text \<open>
  C36. An answered provider status list shows every provider of the directory exactly once, in the order of the
  codes, and accounts for every active subscription of the provider in exactly one scope: the scopes' numbers of
  active subscriptions add up to it. A disabled provider is unknown, and so are all its scopes.
\<close>
theorem provider_status_complete:
  assumes "catalog_ok s" and "ProviderStatus_List (\<lambda>t. ListProviderStatusSources f t s) now cal = Some (Inr statuses)"
  shows "sorted_wrt text_before (map st_ProviderCode statuses)
    \<and> set (map st_ProviderCode statuses) = set (map prov_Code (db_providers s))
    \<and> (\<forall>status \<in> set statuses. \<exists>p \<in> set (db_providers s). st_ProviderID status = prov_ID p \<and> st_ProviderCode status = prov_Code p
        \<and> sum_list (map sc_ActiveSubscriptions (st_Scopes status)) = int (length (active_of (timestamptz now) s p))
        \<and> (prov_Status p = ''disabled'' \<longrightarrow> st_HealthStatus status = ProviderHealthUnknown
             \<and> (\<forall>sc \<in> set (st_Scopes status). sc_HealthStatus sc = ProviderHealthUnknown)))"
proof (intro conjI ballI)
  from ProviderStatus_List_sources [OF assms(2)] obtain sts where
    sts: "list_all2 (\<lambda>source status. projectProvider cal source now = Some (Inr status)) (sources_of_rows (status_rows (timestamptz now) s)) sts"
    and statuses: "statuses = order_by (\<lambda>a b. text_before (st_ProviderCode a) (st_ProviderCode b)) sts" by blast
  have d: "distinct (map st_ProviderCode statuses)" using listed_codes(1) [OF assms(1) sts] by (simp add: statuses distinct_map)
  show "sorted_wrt text_before (map st_ProviderCode statuses)"
    unfolding sorted_wrt_map by (rule sorted_by_text [OF _ d]) (unfold statuses, rule order_by_sorted [OF by_provider_code_order])
  show "set (map st_ProviderCode statuses) = set (map prov_Code (db_providers s))"
    using listed_codes(2) [OF assms(1) sts] by (simp add: statuses)
  fix status assume "status \<in> set statuses"
  then have "status \<in> set sts" by (simp add: statuses)
  from listed_provider [OF assms(1) sts this] obtain p v where pv: "p \<in> set (db_providers s)" "projectProvider cal v now = Some (Inr status)"
    "source_of p v" "length (ps_Subscriptions v) = length (active_of (timestamptz now) s p)" by blast
  then show "\<exists>p \<in> set (db_providers s). st_ProviderID status = prov_ID p \<and> st_ProviderCode status = prov_Code p
        \<and> sum_list (map sc_ActiveSubscriptions (st_Scopes status)) = int (length (active_of (timestamptz now) s p))
        \<and> (prov_Status p = ''disabled'' \<longrightarrow> st_HealthStatus status = ProviderHealthUnknown
             \<and> (\<forall>sc \<in> set (st_Scopes status). sc_HealthStatus sc = ProviderHealthUnknown))"
    using projectProvider_facts(1,2,4,5) [OF pv(2)] by (intro bexI [of _ p]) (simp_all add: source_of_def)
qed


definition sample_status_db :: DB where
  "sample_status_db = sample_catalog\<lparr>db_subs := [ec_Subscription sample_execution],
     db_checkpoints := [5 \<mapsto> \<lparr>cp_SubscriptionID = 5, cp_LastSuccessOpenTime = Some (1003 * Hour), cp_LastClosedOpenTime = Some (1003 * Hour),
       cp_LastAttemptAt = Some (1004 * Hour), cp_LastSuccessAt = Some (1004 * Hour), cp_ConsecutiveFailures = 0, cp_UpdatedAt = 1004 * Hour\<rparr>]\<rparr>"

definition sample_status_answer :: "ProviderStatus list answer option" where
  "sample_status_answer = ProviderStatus_List (\<lambda>t. ListProviderStatusSources no_faults t sample_status_db) (1004 * Hour + 300 * Second) nyse_port"

lemma sample_status:
  "\<exists>status. sample_status_answer = Some (Inr [status]) \<and> st_HealthStatus status = ProviderHealthHealthy"
proof -
  have "case sample_status_answer of Some (Inr [status]) \<Rightarrow> st_HealthStatus status = ProviderHealthHealthy | _ \<Rightarrow> False" by code_simp
  then show ?thesis by (auto split: option.splits sum.splits list.splits)
qed

lemma sample_status_catalog: "catalog_ok sample_status_db"
  by code_simp

theorem provider_status_complete_witness:
  "\<exists>status p. sample_status_answer = Some (Inr [status]) \<and> st_ProviderID status = prov_ID p
    \<and> sum_list (map sc_ActiveSubscriptions (st_Scopes status)) = int (length (active_of (timestamptz (1004 * Hour + 300 * Second)) sample_status_db p))"
proof -
  obtain status where status: "sample_status_answer = Some (Inr [status])" using sample_status by blast
  from provider_status_complete [OF sample_status_catalog status [unfolded sample_status_answer_def]] status
  show ?thesis by auto
qed


end
