(* ===== verification/Bybit.thy ===== *)
theory Bybit
  imports Ingestion
begin

text \<open>
  The Bybit Spot adapter (providers/bybit): the HTTP client with its error classification, the mapping of
  tickers and klines, and the backward paging of bars. The transport and the JSON decoder of the response
  envelope are arguments; what the exchange answers is an argument of the theorems in \<open>BybitPages\<close>.
\<close>

subsection \<open>Numbers and times of the wire\<close>

text \<open>\<^verbatim>\<open>strconv.ParseInt(value, 10, 64)\<close> and \<^verbatim>\<open>strconv.FormatInt\<close> (\<open>int_text\<close>).\<close>

definition parse_digits :: "string \<Rightarrow> nat option" where
  "parse_digits s = (if s \<noteq> [] \<and> list_all (\<lambda>c. 48 \<le> byte c \<and> byte c \<le> 57) s then Some (read_decimal s) else None)"

definition ParseInt :: "string \<Rightarrow> int option" where
  "ParseInt s =
     (case s of
        [] \<Rightarrow> None
      | c # rest \<Rightarrow>
          if c = CHR ''-'' then (case parse_digits rest of None \<Rightarrow> None | Some n \<Rightarrow> if int n \<le> 2 ^ 63 then Some (- int n) else None)
          else (case parse_digits (if c = CHR ''+'' then rest else s) of
                  None \<Rightarrow> None | Some n \<Rightarrow> if int n < 2 ^ 63 then Some (int n) else None))"

definition Millisecond :: duration where "Millisecond = 1000000"

definition UnixMilli :: "time \<Rightarrow> int" where
  "UnixMilli t = (t - unix_epoch * Second) div Millisecond"

definition time_UnixMilli :: "int \<Rightarrow> time" where
  "time_UnixMilli ms = unix_epoch * Second + ms * Millisecond"

subsection \<open>Errors (errors.go, client.go)\<close>

definition providerError :: "Code \<Rightarrow> string \<Rightarrow> string \<Rightarrow> duration option \<Rightarrow> error option \<Rightarrow> error" where
  "providerError providerCode code message retryAfter cause =
     (case NewProviderError providerCode code message retryAfter cause of
        Inl e \<Rightarrow> e
      | Inr p \<Rightarrow> ErrProvider (pe_ProviderCode p) (pe_Code p) (pe_Message p) (pe_RetryAfter p) (pe_Cause p))"

definition badRequestError :: "Code \<Rightarrow> string \<Rightarrow> error option \<Rightarrow> error" where
  "badRequestError providerCode message = providerError providerCode ''bad_request'' message None"

definition invalidInstrumentError :: "Code \<Rightarrow> string \<Rightarrow> error option \<Rightarrow> error" where
  "invalidInstrumentError providerCode message = providerError providerCode ''invalid_instrument'' message None"

definition unsupportedIntervalError :: "Code \<Rightarrow> error option \<Rightarrow> error" where
  "unsupportedIntervalError providerCode = providerError providerCode ''unsupported_interval'' ''provider interval is unsupported'' None"

definition invalidResponseError :: "Code \<Rightarrow> string \<Rightarrow> error option \<Rightarrow> error" where
  "invalidResponseError providerCode message = providerError providerCode ''invalid_response'' message None"

text \<open>
  A response as the client sees it: its status, its headers (\<^verbatim>\<open>Header.Get\<close>, empty when absent), its body read
  up to one byte more than the limit, or the failure to read it. \<open>ParseTime\<close> is that of net/http.
\<close>

record http_response =
  hr_StatusCode :: int
  hr_Header :: "string \<Rightarrow> string"
  hr_Body :: "error + string"

type_synonym header_time = "string \<Rightarrow> time option"

definition retryAfterHeader :: "header_time \<Rightarrow> (string \<Rightarrow> string) \<Rightarrow> time \<Rightarrow> duration option" where
  "retryAfterHeader ParseTime header now =
     (let value = TrimSpace (header ''Retry-After'');
          at_time = (case ParseTime value of Some t \<Rightarrow> if t > now then Some (t - now) else None | None \<Rightarrow> None)
      in if value = [] then None
         else (case ParseInt value of
             Some seconds \<Rightarrow> if seconds > 0 then Some (wrap64 (seconds * Second)) else at_time
           | None \<Rightarrow> at_time))"

definition retryDelay :: "header_time \<Rightarrow> (string \<Rightarrow> string) \<Rightarrow> time \<Rightarrow> duration \<Rightarrow> duration" where
  "retryDelay ParseTime header now fallback =
     (let reset = TrimSpace (header ''X-Bapi-Limit-Reset-Timestamp'')
      in case retryAfterHeader ParseTime header now of
           Some d \<Rightarrow> d
         | None \<Rightarrow> if reset = [] then fallback
             else (case ParseInt reset of
                 None \<Rightarrow> fallback
               | Some ms \<Rightarrow> if time_UnixMilli ms > now then time_UnixMilli ms - now else fallback))"

definition truncateTechnicalBody :: "string \<Rightarrow> string" where
  "truncateTechnicalBody body = take 256 (TrimSpace body)"

definition classifyHTTPError :: "header_time \<Rightarrow> Code \<Rightarrow> time \<Rightarrow> http_response \<Rightarrow> string \<Rightarrow> error" where
  "classifyHTTPError ParseTime providerCode now response body =
     (let cause = Some (ErrPlain (''bybit HTTP status '' @ int_text (hr_StatusCode response) @ '': '' @ truncateTechnicalBody body));
          status = hr_StatusCode response
      in if status = 401 then providerError providerCode ''unauthorized'' ''provider rejected authorization'' None cause
         else if status = 403 then providerError providerCode ''rate_limited'' ''provider access is temporarily forbidden''
           (Some (retryDelay ParseTime (hr_Header response) now (10 * Minute))) cause
         else if status = 429 then providerError providerCode ''rate_limited'' ''provider rate limit reached''
           (Some (retryDelay ParseTime (hr_Header response) now Second)) cause
         else if status \<in> set [400, 404, 405] then badRequestError providerCode ''provider rejected market request'' cause
         else if status \<ge> 500
           then providerError providerCode ''temporary_unavailable'' ''provider service is unavailable'' None cause
         else providerError providerCode ''unknown'' ''provider returned an unexpected HTTP status'' None cause)"

definition classifyRetCode :: "header_time \<Rightarrow> Code \<Rightarrow> time \<Rightarrow> (string \<Rightarrow> string) \<Rightarrow> int \<Rightarrow> string \<Rightarrow> error" where
  "classifyRetCode ParseTime providerCode now header retCode retMessage =
     (let cause = Some (ErrPlain (''bybit retCode '' @ int_text retCode @ '': '' @ retMessage)) in
      if retCode \<in> set [10006, 429] then providerError providerCode ''rate_limited'' ''provider rate limit reached''
          (Some (retryDelay ParseTime header now Second)) cause
      else if retCode \<in> set [10000, 10016, 500000, 170001, 170007, 170032]
        then providerError providerCode ''temporary_unavailable'' ''provider service is temporarily unavailable'' None cause
      else if retCode \<in> set [-2015, 33004, 10003, 10004, 10005, 10007, 10008, 10009, 10010, 10024, 10027]
        then providerError providerCode ''unauthorized'' ''provider authorization or access was rejected'' None cause
      else if retCode \<in> set [10029, 170121, 181012]
        then providerError providerCode ''invalid_instrument'' ''provider instrument is invalid'' None cause
      else if retCode \<in> set [10001, 10002, 10017]
        then badRequestError providerCode ''provider rejected market request parameters'' cause
      else providerError providerCode ''unknown'' ''provider returned an unclassified error'' None cause)"

subsection \<open>The client (client.go)\<close>

record 'r responseEnvelope =
  en_RetCode :: int
  en_RetMsg :: string
  en_Result :: 'r
  en_Time :: int

text \<open>The adapter's configuration, and what a request over the network comes to.\<close>

record URL =
  url_Scheme :: string
  url_User :: "string option"
  url_Host :: string
  url_Path :: string
  url_RawQuery :: string
  url_Fragment :: string

record Adapter =
  ba_providerCode :: Code
  ba_baseURL :: URL
  ba_userAgent :: string
  ba_maxResponseBytes :: int

datatype 'r decoded = Malformed error | TrailingData | Decoded "'r responseEnvelope"

datatype http_outcome = DoFails error | Responds http_response

text \<open>The query of a request, in the order the code lists its parameters.\<close>

type_synonym url_values = "(string \<times> string) list"

record network =
  nw_Do :: "string \<Rightarrow> url_values \<Rightarrow> http_outcome"
  nw_ctx :: "error option" \<comment> \<open>\<^verbatim>\<open>ctx.Err()\<close> after a failed request\<close>
  nw_now :: time
  nw_ParseTime :: header_time

definition getJSON :: "(string \<Rightarrow> 'r decoded) \<Rightarrow> network \<Rightarrow> Adapter \<Rightarrow> string \<Rightarrow> url_values \<Rightarrow> 'r responseEnvelope result" where
  "getJSON decode nw a path query = (let code = ba_providerCode a in
     case nw_Do nw path query of
       DoFails e \<Rightarrow> (case nw_ctx nw of
           Some c \<Rightarrow> Inl c
         | None \<Rightarrow> Inl (providerError code ''network'' ''provider network request failed'' None (Some e)))
     | Responds response \<Rightarrow> (case hr_Body response of
           Inl e \<Rightarrow> Inl (providerError code ''network'' ''provider response could not be read'' None (Some e))
         | Inr body \<Rightarrow>
             if int (length body) > ba_maxResponseBytes a
             then Inl (invalidResponseError code ''provider response exceeded size limit'' None)
             else if hr_StatusCode response < 200 \<or> hr_StatusCode response \<ge> 300
             then Inl (classifyHTTPError (nw_ParseTime nw) code (nw_now nw) response body)
             else (case decode body of
                 Malformed e \<Rightarrow> Inl (invalidResponseError code ''provider returned malformed JSON'' (Some e))
               | TrailingData \<Rightarrow> Inl (invalidResponseError code ''provider returned trailing JSON'' None)
               | Decoded envelope \<Rightarrow>
                   if en_RetCode envelope \<noteq> 0
                   then Inl (classifyRetCode (nw_ParseTime nw) code (nw_now nw) (hr_Header response)
                     (en_RetCode envelope) (en_RetMsg envelope))
                   else if en_Time envelope \<le> 0
                   then Inl (invalidResponseError code ''provider response time is missing'' None)
                   else Inr envelope)))"

subsection \<open>Mapping (mapping.go)\<close>

definition spotMarket :: string where "spotMarket = ''spot''"

definition maxQuoteBatchSize :: nat where "maxQuoteBatchSize = 100"
definition maxBarsPerRequest :: int where "maxBarsPerRequest = 1000"

definition spotSymbolPattern :: "string \<Rightarrow> bool" where
  "spotSymbolPattern s \<longleftrightarrow> s \<noteq> [] \<and> list_all (\<lambda>c. (65 \<le> byte c \<and> byte c \<le> 90) \<or> (48 \<le> byte c \<and> byte c \<le> 57)) s"

definition validateSpotReference :: "Adapter \<Rightarrow> ProviderInstrumentRef \<Rightarrow> error option" where
  "validateSpotReference a r = (case ProviderInstrumentRef_Validate r of
     Some e \<Rightarrow> Some (badRequestError (ba_providerCode a) ''provider instrument reference is invalid'' (Some e))
   | None \<Rightarrow>
       if ref_ProviderCode r \<noteq> ba_providerCode a \<or> ref_ProviderMarket r \<noteq> spotMarket \<or> ref_AssetType r \<noteq> ''CRYPTO''
         \<or> ref_InstrumentType r \<noteq> ''SPOT'' \<or> \<not> spotSymbolPattern (ref_ExternalSymbol r)
       then Some (invalidInstrumentError (ba_providerCode a) ''provider instrument is not a Bybit Spot mapping'' None)
       else None)"

definition bybitInterval :: "BarInterval \<Rightarrow> (string \<times> duration) result" where
  "bybitInterval interval =
     (if interval = BarInterval1Hour then Inr (''60'', Hour)
      else if interval = BarInterval1Day then Inr (''D'', 24 * Hour)
      else Inl (ErrPlain ''unsupported Bybit interval''))"

definition parseRequiredDecimal :: "platform \<Rightarrow> string \<Rightarrow> rat result" where
  "parseRequiredDecimal pf value =
     (if value = [] then Inl (ErrPlain ''required decimal is empty'') else ParseDecimal pf value)"

definition parseOptionalDecimal :: "platform \<Rightarrow> string \<Rightarrow> rat option result" where
  "parseOptionalDecimal pf value =
     (if value = [] then Inr None else bind_result (ParseDecimal pf value) (\<lambda>d. Inr (Some d)))"

definition instantFromMilliseconds :: "int \<Rightarrow> UTCInstant result" where
  "instantFromMilliseconds ms =
     (if ms \<le> 0 then Inl (ErrPlain ''timestamp milliseconds must be positive'') else NewUTCInstant (time_UnixMilli ms))"

definition defaultResponseLimit :: int where "defaultResponseLimit = 4 * 2 ^ 20"

definition TrimRight_slash :: "string \<Rightarrow> string" where
  "TrimRight_slash s = rev (dropWhile (\<lambda>c. c = CHR ''/'') (rev s))"

text \<open>\<^verbatim>\<open>New\<close> of the adapters over HTTP, which differ in their constants; \<open>Parse\<close> is \<^verbatim>\<open>url.Parse\<close>, and the client and the clock of the configuration belong to \<open>network\<close>.\<close>

definition adapter_New :: "string \<Rightarrow> string \<Rightarrow> int \<Rightarrow> (string \<Rightarrow> URL option) \<Rightarrow> string \<Rightarrow> string \<Rightarrow> int \<Rightarrow> Adapter result" where
  "adapter_New providerName DefaultBaseURL limit Parse config_BaseURL config_UserAgent config_MaxResponseBytes =
     (let baseURL = (if TrimSpace config_BaseURL = [] then DefaultBaseURL else TrimSpace config_BaseURL);
          responseLimit = (if config_MaxResponseBytes = 0 then limit else config_MaxResponseBytes);
          userAgent = (if TrimSpace config_UserAgent = [] then ''xr-trading-market-info/1'' else TrimSpace config_UserAgent)
      in case Parse baseURL of
           None \<Rightarrow> Inl ErrInvalidData
         | Some u \<Rightarrow>
             if (url_Scheme u \<noteq> ''http'' \<and> url_Scheme u \<noteq> ''https'') \<or> url_Host u = [] \<or> url_User u \<noteq> None
               \<or> url_RawQuery u \<noteq> [] \<or> url_Fragment u \<noteq> []
             then Inl ErrInvalidData
             else bind_result (ParseCode providerName) (\<lambda>providerCode.
               if responseLimit < 0 then Inl ErrInvalidData
               else if list_ex (\<lambda>c. byte c \<in> set [10, 13]) userAgent then Inl ErrInvalidData
               else Inr \<lparr>ba_providerCode = providerCode, ba_baseURL = u\<lparr>url_Path := TrimRight_slash (url_Path u)\<rparr>,
                 ba_userAgent = userAgent, ba_maxResponseBytes = responseLimit\<rparr>))"

definition bybit_New :: "(string \<Rightarrow> URL option) \<Rightarrow> string \<Rightarrow> string \<Rightarrow> int \<Rightarrow> Adapter result" where
  "bybit_New = adapter_New ''bybit'' ''https://api.bybit.com'' defaultResponseLimit"

definition bybit_Capabilities :: "error option \<Rightarrow> Adapter \<Rightarrow> AdapterCapabilities result" where
  "bybit_Capabilities ctx_err a = checked ctx_err (Inr \<lparr>ac_ProviderCode = ba_providerCode a, ac_Markets = [\<lparr>pmc_ProviderMarket = spotMarket,
     pmc_AssetTypes = [''CRYPTO''], pmc_InstrumentTypes = [''SPOT''], pmc_SupportsQuote = True, pmc_SupportsBars = True,
     pmc_Intervals = [BarInterval1Hour, BarInterval1Day], pmc_MaxBatchSize = int maxQuoteBatchSize,
     pmc_MaxBarsPerRequest = maxBarsPerRequest\<rparr>]\<rparr>)"

subsection \<open>Bars (bars.go)\<close>

definition cursorPrefix :: string where "cursorPrefix = ''v1:end-ms:''"

record klineResult =
  kr_Category :: string
  kr_Symbol :: string
  kr_List :: "RawMessage list"

text \<open>\<^verbatim>\<open>json.Unmarshal\<close> into a slice of strings; \<^verbatim>\<open>null\<close> leaves it empty.\<close>

fun those_strings :: "json list \<Rightarrow> string list result" where
  "those_strings [] = Inr []"
| "those_strings (v # vs) = bind_result (json_string (RawValue v)) (\<lambda>t. bind_result (those_strings vs) (\<lambda>ts. Inr (t # ts)))"

definition json_strings :: "RawMessage \<Rightarrow> string list result" where
  "json_strings raw = (case raw of
     RawValue JNull \<Rightarrow> Inr []
   | RawValue (JArray vs) \<Rightarrow> those_strings vs
   | _ \<Rightarrow> Inl (ErrPlain ''json''))"

definition ceilUnixMilliseconds :: "time \<Rightarrow> int" where
  "ceilUnixMilliseconds t = (if t mod Millisecond \<noteq> 0 then UnixMilli t + 1 else UnixMilli t)"

definition exclusiveEndMilliseconds :: "time \<Rightarrow> int" where
  "exclusiveEndMilliseconds t = ceilUnixMilliseconds t"

definition effectiveEndMilliseconds :: "FetchBarsRequest \<Rightarrow> int result" where
  "effectiveEndMilliseconds r = (let end_ms = exclusiveEndMilliseconds (fbr_EndTime r) in
     if fbr_Cursor r = [] then Inr end_ms
     else if \<not> HasPrefix (fbr_Cursor r) cursorPrefix then Inl (ErrPlain ''unexpected cursor version'')
     else (case ParseInt (drop (length cursorPrefix) (fbr_Cursor r)) of
         None \<Rightarrow> Inl (ErrPlain ''cursor is outside request range'')
       | Some parsed \<Rightarrow>
           if parsed \<le> ceilUnixMilliseconds (fbr_StartTime r) \<or> parsed \<ge> end_ms
           then Inl (ErrPlain ''cursor is outside request range'') else Inr parsed))"

text \<open>The decimals of a kline, in order; the first that does not parse fails it.\<close>

fun parse_decimals :: "platform \<Rightarrow> string list \<Rightarrow> rat list result" where
  "parse_decimals pf [] = Inr []"
| "parse_decimals pf (v # vs) = bind_result (parseRequiredDecimal pf v) (\<lambda>d. bind_result (parse_decimals pf vs) (\<lambda>ds. Inr (d # ds)))"

definition kline_bar ::
  "ProviderInstrumentRef \<Rightarrow> BarInterval \<Rightarrow> time \<Rightarrow> time \<Rightarrow> rat list \<Rightarrow> UTCInstant \<Rightarrow> UTCInstant \<Rightarrow> RawMessage \<Rightarrow> ProviderBar" where
  "kline_bar r interval openTime closeTime decimals providerTime receivedAt raw =
     \<lparr>pb_ProviderInstrumentID = ref_ProviderInstrumentID r, pb_InstrumentID = ref_InstrumentID r, pb_AssetID = ref_AssetID r,
      pb_ProviderCode = ref_ProviderCode r, pb_Interval = interval, pb_OpenTime = openTime, pb_CloseTime = closeTime,
      pb_Open = decimals ! 0, pb_High = decimals ! 1, pb_Low = decimals ! 2, pb_Close = decimals ! 3,
      pb_BaseVolume = Some (decimals ! 4), pb_QuoteVolume = Some (decimals ! 5), pb_TradeCount = None,
      pb_IsClosed = (\<not> closeTime > providerTime \<and> \<not> closeTime > receivedAt),
      pb_ProviderUpdatedAt = None, pb_ReceivedAt = receivedAt, pb_RawPayload = raw\<rparr>"

definition mapKline ::
  "platform \<Rightarrow> ProviderInstrumentRef \<Rightarrow> BarInterval \<Rightarrow> duration \<Rightarrow> UTCInstant \<Rightarrow> UTCInstant \<Rightarrow> RawMessage
     \<Rightarrow> (ProviderBar \<times> int) result" where
  "mapKline pf r interval duration providerTime receivedAt raw =
     (case json_strings raw of
        Inl _ \<Rightarrow> Inl (ErrPlain ''decode Bybit kline tuple'')
      | Inr texts \<Rightarrow>
          if length texts \<noteq> 7 then Inl (ErrPlain ''decode Bybit kline tuple'')
          else (case ParseInt (texts ! 0) of
              None \<Rightarrow> Inl (ErrPlain ''parse Bybit kline start'')
            | Some openMilliseconds \<Rightarrow>
                if openMilliseconds \<le> 0 then Inl (ErrPlain ''parse Bybit kline start'')
                else bind_result (instantFromMilliseconds openMilliseconds) (\<lambda>openTime.
                  bind_result (NewUTCInstant (openTime + duration)) (\<lambda>closeTime.
                  bind_result (parse_decimals pf (tl texts)) (\<lambda>decimals.
                    let bar = kline_bar r interval openTime closeTime decimals providerTime receivedAt raw in
                    checked (ProviderBar_ValidateFor bar r) (Inr (bar, openMilliseconds)))))))"

fun klines_loop ::
  "platform \<Rightarrow> Adapter \<Rightarrow> FetchBarsRequest \<Rightarrow> duration \<Rightarrow> UTCInstant \<Rightarrow> UTCInstant \<Rightarrow> int set \<Rightarrow> ProviderBar list \<Rightarrow> RawMessage list
     \<Rightarrow> ProviderBar list result" where
  "klines_loop pf a r duration providerTime receivedAt seen bars [] = Inr bars"
| "klines_loop pf a r duration providerTime receivedAt seen bars (raw # raws) =
     (case mapKline pf (fbr_Instrument r) (fbr_Interval r) duration providerTime receivedAt raw of
        Inl e \<Rightarrow> Inl (invalidResponseError (ba_providerCode a) ''provider bar fields are invalid'' (Some e))
      | Inr (bar, openMilliseconds) \<Rightarrow>
          if openMilliseconds \<in> seen
          then Inl (invalidResponseError (ba_providerCode a) ''provider returned a duplicate bar'' None)
          else klines_loop pf a r duration providerTime receivedAt (insert openMilliseconds seen) (bars @ [bar]) raws)"

definition kline_query :: "FetchBarsRequest \<Rightarrow> string \<Rightarrow> int \<Rightarrow> int \<Rightarrow> url_values" where
  "kline_query r interval startMilliseconds effectiveEnd =
     [(''category'', spotMarket), (''symbol'', ref_ExternalSymbol (fbr_Instrument r)), (''interval'', interval),
      (''start'', int_text startMilliseconds), (''end'', int_text (effectiveEnd - 1)), (''limit'', int_text (fbr_Limit r))]"

text \<open>The page of the mapped and sorted bars.\<close>

definition bars_page_of :: "FetchBarsRequest \<Rightarrow> ProviderBar list \<Rightarrow> FetchBarsResult" where
  "bars_page_of r bars =
     (if int (length bars) = fbr_Limit r \<and> bars \<noteq> [] \<and> pb_OpenTime (bars ! 0) > fbr_StartTime r
      then \<lparr>fbs_Bars = bars, fbs_NextCursor = cursorPrefix @ int_text (UnixMilli (pb_OpenTime (bars ! 0))), fbs_HasMore = True\<rparr>
      else \<lparr>fbs_Bars = bars, fbs_NextCursor = [], fbs_HasMore = False\<rparr>)"

definition bars_of_envelope ::
  "platform \<Rightarrow> network \<Rightarrow> Adapter \<Rightarrow> FetchBarsRequest \<Rightarrow> duration \<Rightarrow> klineResult responseEnvelope \<Rightarrow> FetchBarsResult result" where
  "bars_of_envelope pf nw a r duration envelope = (let code = ba_providerCode a in
     if kr_Category (en_Result envelope) \<noteq> spotMarket
       \<or> kr_Symbol (en_Result envelope) \<noteq> ref_ExternalSymbol (fbr_Instrument r)
     then Inl (invalidResponseError code ''provider returned an unexpected bar source'' None)
     else (case instantFromMilliseconds (en_Time envelope) of
       Inl e \<Rightarrow> Inl (invalidResponseError code ''provider returned an invalid response time'' (Some e))
     | Inr providerTime \<Rightarrow> (case NewUTCInstant (nw_now nw) of
         Inl e \<Rightarrow> Inl (invalidResponseError code ''collection clock returned an invalid time'' (Some e))
       | Inr receivedAt \<Rightarrow>
           bind_result (klines_loop pf a r duration providerTime receivedAt {} [] (kr_List (en_Result envelope))) (\<lambda>bars.
             let page = bars_page_of r (sort_key pb_OpenTime bars) in
             (case FetchBarsResult_Validate page r of
                Some e \<Rightarrow> Inl (invalidResponseError code ''provider bar page violated adapter contract'' (Some e))
              | None \<Rightarrow> Inr page)))))"

definition FetchBars ::
  "platform \<Rightarrow> (string \<Rightarrow> klineResult decoded) \<Rightarrow> network \<Rightarrow> Adapter \<Rightarrow> FetchBarsRequest \<Rightarrow> FetchBarsResult result" where
  "FetchBars pf decode nw a r = (let code = ba_providerCode a in
     case FetchBarsRequest_Validate r of
       Some e \<Rightarrow> Inl (badRequestError code ''provider bar request is invalid'' (Some e))
     | None \<Rightarrow> (case validateSpotReference a (fbr_Instrument r) of
       Some e \<Rightarrow> Inl e
     | None \<Rightarrow> (case bybitInterval (fbr_Interval r) of
       Inl e \<Rightarrow> Inl (unsupportedIntervalError code (Some e))
     | Inr (interval, duration) \<Rightarrow>
         if fbr_Limit r > maxBarsPerRequest
         then Inl (badRequestError code ''provider bar request exceeds adapter limit'' None)
         else (case effectiveEndMilliseconds r of
           Inl e \<Rightarrow> Inl (badRequestError code ''provider bar cursor is invalid'' (Some e))
         | Inr effectiveEnd \<Rightarrow>
             if ceilUnixMilliseconds (fbr_StartTime r) \<le> 0 \<or> effectiveEnd \<le> ceilUnixMilliseconds (fbr_StartTime r)
             then Inl (badRequestError code ''provider bar cursor is invalid'' None)
             else bind_result (getJSON decode nw a ''/v5/market/kline''
                 (kline_query r interval (ceilUnixMilliseconds (fbr_StartTime r)) effectiveEnd))
               (bars_of_envelope pf nw a r duration)))))"

subsection \<open>Quotes (quotes.go)\<close>

record tickerResult =
  tr_Category :: string
  tr_List :: "RawMessage list"

record spotTicker =
  tk_Symbol :: string
  tk_BidPrice :: string
  tk_BidSize :: string
  tk_AskPrice :: string
  tk_AskSize :: string
  tk_LastPrice :: string
  tk_Previous24H :: string
  tk_High24H :: string
  tk_Low24H :: string
  tk_Turnover24H :: string
  tk_BaseVolume24H :: string

text \<open>
  \<^verbatim>\<open>json.Unmarshal\<close> into a struct of strings: members are matched to the tags by folded names (for ASCII tags
  the letters' cases, the long s and the Kelvin sign), a later member overwrites an earlier one, \<^verbatim>\<open>null\<close>
  leaves the field, and a value of another kind is an error.
\<close>

function fold_name :: "nat list \<Rightarrow> nat list" where
  "fold_name [] = []"
| "fold_name (b # bs) =
     (if b = 197 \<and> take 1 bs = [191] then 115 # fold_name (drop 1 bs)
      else if b = 226 \<and> take 2 bs = [132, 170] then 107 # fold_name (drop 2 bs)
      else (if 65 \<le> b \<and> b \<le> 90 then b + 32 else b) # fold_name bs)"
  by pat_completeness auto
termination by (relation "measure length") auto

definition same_name :: "string \<Rightarrow> string \<Rightarrow> bool" where
  "same_name key tag \<longleftrightarrow> fold_name (map byte key) = fold_name (map byte tag)"

fun set_member :: "string \<Rightarrow> string \<Rightarrow> (string \<times> string) list \<Rightarrow> (string \<times> string) list" where
  "set_member key v [] = []"
| "set_member key v ((tag, old) # rest) = (if same_name key tag then (tag, v) # rest else (tag, old) # set_member key v rest)"

fun decode_members :: "bool \<Rightarrow> (string \<times> string) list \<Rightarrow> (string \<times> json) list \<Rightarrow> (string \<times> string) list result" where
  "decode_members failed texts [] = (if failed then Inl (ErrPlain ''json'') else Inr texts)"
| "decode_members failed texts ((key, v) # rest) =
     (if list_ex (\<lambda>(tag, _). same_name key tag) texts
      then (case v of
          JString t \<Rightarrow> decode_members failed (set_member key t texts) rest
        | JNull \<Rightarrow> decode_members failed texts rest
        | _ \<Rightarrow> decode_members True texts rest)
      else decode_members failed texts rest)"

definition ticker_tags :: "string list" where
  "ticker_tags = [''symbol'', ''bid1Price'', ''bid1Size'', ''ask1Price'', ''ask1Size'', ''lastPrice'', ''prevPrice24h'',
     ''highPrice24h'', ''lowPrice24h'', ''turnover24h'', ''volume24h'']"

definition member_text :: "(string \<times> string) list \<Rightarrow> string \<Rightarrow> string" where
  "member_text texts tag = (case map_of texts tag of None \<Rightarrow> [] | Some t \<Rightarrow> t)"

definition unmarshal_ticker :: "RawMessage \<Rightarrow> spotTicker result" where
  "unmarshal_ticker raw =
     bind_result (case raw of
         RawValue (JObject kvs) \<Rightarrow> decode_members False (map (\<lambda>tag. (tag, [])) ticker_tags) kvs
       | RawValue JNull \<Rightarrow> Inr []
       | _ \<Rightarrow> Inl (ErrPlain ''json'')) (\<lambda>texts. let text = member_text texts in
       Inr \<lparr>tk_Symbol = text ''symbol'', tk_BidPrice = text ''bid1Price'', tk_BidSize = text ''bid1Size'',
         tk_AskPrice = text ''ask1Price'', tk_AskSize = text ''ask1Size'', tk_LastPrice = text ''lastPrice'',
         tk_Previous24H = text ''prevPrice24h'', tk_High24H = text ''highPrice24h'', tk_Low24H = text ''lowPrice24h'',
         tk_Turnover24H = text ''turnover24h'', tk_BaseVolume24H = text ''volume24h''\<rparr>)"

fun parse_optionals :: "platform \<Rightarrow> string list \<Rightarrow> rat option list result" where
  "parse_optionals pf [] = Inr []"
| "parse_optionals pf (v # vs) = bind_result (parseOptionalDecimal pf v) (\<lambda>d. bind_result (parse_optionals pf vs) (\<lambda>ds. Inr (d # ds)))"

definition mapTicker ::
  "platform \<Rightarrow> ProviderInstrumentRef \<Rightarrow> spotTicker \<Rightarrow> UTCInstant \<Rightarrow> UTCInstant \<Rightarrow> RawMessage \<Rightarrow> ProviderQuote result" where
  "mapTicker pf r ticker marketTime receivedAt raw =
     bind_result (parseRequiredDecimal pf (tk_LastPrice ticker)) (\<lambda>lastPrice.
     bind_result (parse_optionals pf [tk_BidPrice ticker, tk_BidSize ticker, tk_AskPrice ticker, tk_AskSize ticker,
         tk_Previous24H ticker, tk_High24H ticker, tk_Low24H ticker, tk_BaseVolume24H ticker, tk_Turnover24H ticker]) (\<lambda>parsed.
       let quote = \<lparr>pq_ProviderInstrumentID = ref_ProviderInstrumentID r, pq_InstrumentID = ref_InstrumentID r,
         pq_AssetID = ref_AssetID r, pq_ProviderCode = ref_ProviderCode r, pq_LastPrice = lastPrice,
         pq_BidPrice = parsed ! 0, pq_BidSize = parsed ! 1, pq_AskPrice = parsed ! 2, pq_AskSize = parsed ! 3,
         pq_Open24H = parsed ! 4, pq_High24H = parsed ! 5, pq_Low24H = parsed ! 6,
         pq_BaseVolume24H = parsed ! 7, pq_QuoteVolume24H = parsed ! 8,
         pq_MarketTime = marketTime, pq_ReceivedAt = receivedAt, pq_RawPayload = raw\<rparr>
       in checked (ProviderQuote_ValidateFor quote r) (Inr quote)))"

fun requested_loop ::
  "Adapter \<Rightarrow> (string \<rightharpoonup> ProviderInstrumentRef) \<Rightarrow> ProviderInstrumentRef list \<Rightarrow> (string \<rightharpoonup> ProviderInstrumentRef) result" where
  "requested_loop a requested [] = Inr requested"
| "requested_loop a requested (r # rs) = (case validateSpotReference a r of
     Some e \<Rightarrow> Inl e
   | None \<Rightarrow>
       if requested (ref_ExternalSymbol r) \<noteq> None
       then Inl (invalidInstrumentError (ba_providerCode a) ''provider symbol is mapped more than once'' None)
       else requested_loop a (requested(ref_ExternalSymbol r \<mapsto> r)) rs)"

definition validateSpotReferences :: "Adapter \<Rightarrow> ProviderInstrumentRef list \<Rightarrow> nat \<Rightarrow> (string \<rightharpoonup> ProviderInstrumentRef) result" where
  "validateSpotReferences a references maximum =
     (case ValidateLatestQuoteBatch (ba_providerCode a) references [] of
        Some e \<Rightarrow> Inl (badRequestError (ba_providerCode a) ''provider instrument references are invalid'' (Some e))
      | None \<Rightarrow>
          if length references > maximum
          then Inl (badRequestError (ba_providerCode a) ''provider quote batch exceeds adapter limit'' None)
          else requested_loop a Map.empty references)"

fun tickers_loop ::
  "platform \<Rightarrow> Adapter \<Rightarrow> bool \<Rightarrow> (string \<rightharpoonup> ProviderInstrumentRef) \<Rightarrow> UTCInstant \<Rightarrow> UTCInstant \<Rightarrow> string set \<Rightarrow> ProviderQuote list
     \<Rightarrow> RawMessage list \<Rightarrow> ProviderQuote list result" where
  "tickers_loop pf a single requested marketTime receivedAt seen quotes [] = Inr quotes"
| "tickers_loop pf a single requested marketTime receivedAt seen quotes (raw # raws) = (let code = ba_providerCode a in
     case unmarshal_ticker raw of
       Inl e \<Rightarrow> Inl (invalidResponseError code ''provider returned a malformed ticker'' (Some e))
     | Inr ticker \<Rightarrow>
         if tk_Symbol ticker = [] then Inl (invalidResponseError code ''provider ticker symbol is missing'' None)
         else if tk_Symbol ticker \<in> seen then Inl (invalidResponseError code ''provider returned a duplicate ticker'' None)
         else (case requested (tk_Symbol ticker) of
             None \<Rightarrow>
               if single then Inl (invalidResponseError code ''provider returned an unrequested ticker'' None)
               else tickers_loop pf a single requested marketTime receivedAt (insert (tk_Symbol ticker) seen) quotes raws
           | Some r \<Rightarrow> (case mapTicker pf r ticker marketTime receivedAt raw of
               Inl e \<Rightarrow> Inl (invalidResponseError code ''provider ticker fields are invalid'' (Some e))
             | Inr quote \<Rightarrow> tickers_loop pf a single requested marketTime receivedAt (insert (tk_Symbol ticker) seen) (quotes @ [quote]) raws)))"

definition FetchLatestQuotes ::
  "platform \<Rightarrow> (string \<Rightarrow> tickerResult decoded) \<Rightarrow> network \<Rightarrow> Adapter \<Rightarrow> ProviderInstrumentRef list \<Rightarrow> ProviderQuote list result" where
  "FetchLatestQuotes pf decode nw a references = (let code = ba_providerCode a; single = length references = 1 in
     bind_result (validateSpotReferences a references maxQuoteBatchSize) (\<lambda>requested.
     bind_result (getJSON decode nw a ''/v5/market/tickers''
         ([(''category'', spotMarket)] @ (if single then [(''symbol'', ref_ExternalSymbol (references ! 0))] else []))) (\<lambda>envelope.
       if tr_Category (en_Result envelope) \<noteq> spotMarket
       then Inl (invalidResponseError code ''provider returned an unexpected market category'' None)
       else (case instantFromMilliseconds (en_Time envelope) of
         Inl e \<Rightarrow> Inl (invalidResponseError code ''provider returned an invalid market time'' (Some e))
       | Inr marketTime \<Rightarrow> (case NewUTCInstant (nw_now nw) of
           Inl e \<Rightarrow> Inl (invalidResponseError code ''collection clock returned an invalid time'' (Some e))
         | Inr receivedAt \<Rightarrow>
             bind_result (tickers_loop pf a single requested marketTime receivedAt {} [] (tr_List (en_Result envelope))) (\<lambda>quotes.
               (case ValidateLatestQuoteBatch code references quotes of
                  Some e \<Rightarrow> Inl (invalidResponseError code ''provider ticker batch violated adapter contract'' (Some e))
                | None \<Rightarrow> Inr quotes)))))))"

end
