(* ===== verification/CoinGecko.thy ===== *)
theory CoinGecko
  imports Bybit "HOL-Library.Char_ord"
begin

text \<open>
  The CoinGecko adapter (providers/coingecko): reference rates of currencies. A daily bar is made of the last
  price the exchange reports for a UTC day. The transport and the JSON decoders of the two answers are arguments;
  the two adapters' identical error constructors and construction steps are those of \<open>Bybit\<close>.
\<close>

subsection \<open>Construction and mapping (adapter.go, mapping.go)\<close>

definition cg_maxQuoteBatchSize :: nat where "cg_maxQuoteBatchSize = 50"
definition cg_maxBarsPerRequest :: int where "cg_maxBarsPerRequest = 366"
definition fxMarket :: string where "fxMarket = ''fx''"

definition cg_New :: "(string \<Rightarrow> URL option) \<Rightarrow> string \<Rightarrow> string \<Rightarrow> int \<Rightarrow> Adapter result" where
  "cg_New = adapter_New ''coingecko'' ''https://api.coingecko.com'' (2 ^ 20)"

definition cg_Capabilities :: "error option \<Rightarrow> Adapter \<Rightarrow> AdapterCapabilities result" where
  "cg_Capabilities ctx_err a = checked ctx_err (Inr \<lparr>ac_ProviderCode = ba_providerCode a, ac_Markets = [\<lparr>pmc_ProviderMarket = fxMarket,
     pmc_AssetTypes = [''FX''], pmc_InstrumentTypes = [''FX''], pmc_SupportsQuote = True, pmc_SupportsBars = True,
     pmc_Intervals = [BarInterval1Day], pmc_MaxBatchSize = int cg_maxQuoteBatchSize,
     pmc_MaxBarsPerRequest = cg_maxBarsPerRequest\<rparr>]\<rparr>)"

definition lower_or_digit :: "char \<Rightarrow> bool" where
  "lower_or_digit c \<longleftrightarrow> (97 \<le> byte c \<and> byte c \<le> 122) \<or> (48 \<le> byte c \<and> byte c \<le> 57)"

text \<open>The expression \<^verbatim>\<open>[a-z0-9]+(-[a-z0-9]+)*\<close> as its automaton, with whether a part has begun.\<close>

fun kebab_from :: "bool \<Rightarrow> string \<Rightarrow> bool" where
  "kebab_from begun [] = begun"
| "kebab_from begun (c # cs) = (if lower_or_digit c then kebab_from True cs else c = CHR ''-'' \<and> begun \<and> kebab_from False cs)"

definition coinGeckoIDPattern :: "string \<Rightarrow> bool" where
  "coinGeckoIDPattern s = kebab_from False s"

definition currencyPattern :: "string \<Rightarrow> bool" where
  "currencyPattern s \<longleftrightarrow> 2 \<le> length s \<and> length s \<le> 10 \<and> list_all (\<lambda>c. 65 \<le> byte c \<and> byte c \<le> 90) s"

definition validateFXReference :: "Adapter \<Rightarrow> ProviderInstrumentRef \<Rightarrow> error option" where
  "validateFXReference a r = (case ProviderInstrumentRef_Validate r of
     Some e \<Rightarrow> Some (badRequestError (ba_providerCode a) ''provider instrument reference is invalid'' (Some e))
   | None \<Rightarrow>
       if ref_ProviderCode r \<noteq> ba_providerCode a \<or> ref_ProviderMarket r \<noteq> fxMarket \<or> ref_AssetType r \<noteq> ''FX''
         \<or> ref_InstrumentType r \<noteq> ''FX'' \<or> \<not> coinGeckoIDPattern (ref_ExternalSymbol r) \<or> \<not> currencyPattern (ref_QuoteCurrency r)
       then Some (invalidInstrumentError (ba_providerCode a) ''provider instrument is not a CoinGecko FX mapping'' None)
       else None)"

text \<open>\<^verbatim>\<open>strings.ToLower\<close> on the validated ASCII texts.\<close>

definition lower_ascii :: "string \<Rightarrow> string" where
  "lower_ascii = map (\<lambda>c. if 65 \<le> byte c \<and> byte c \<le> 90 then char_of (byte c + 32) else c)"

text \<open>A \<^verbatim>\<open>json.Number\<close> is the text of the number, empty when it was \<^verbatim>\<open>null\<close> or missing.\<close>

type_synonym number = string

definition parseDecimalFromNumber :: "platform \<Rightarrow> number \<Rightarrow> rat result" where
  "parseDecimalFromNumber pf v = (if v = [] then Inl (ErrPlain ''required decimal is empty'') else ParseDecimal pf v)"

definition number_json :: "number \<Rightarrow> json" where
  "number_json v = JNumber (if v = [] then ''0'' else v)"

definition instantFromSeconds :: "int \<Rightarrow> UTCInstant result" where
  "instantFromSeconds s =
     (if s \<le> 0 then Inl (ErrPlain ''timestamp seconds must be positive'') else NewUTCInstant ((unix_epoch + s) * Second))"

definition Unix :: "time \<Rightarrow> int" where
  "Unix t = t div Second - unix_epoch"

record civilDay =
  cd_year :: int
  cd_month :: int
  cd_day :: int

definition civilDayOf :: "time \<Rightarrow> civilDay" where
  "civilDayOf t = (let (y, m, d) = time_In_Date UTC_location t in \<lparr>cd_year = y, cd_month = m, cd_day = d\<rparr>)"

definition midnightUTC :: "civilDay \<Rightarrow> time" where
  "midnightUTC d = time_Date UTC_location (cd_year d) (cd_month d) (cd_day d) 0 0 0"

subsection \<open>The client (client.go)\<close>

definition cg_retryDelay :: "header_time \<Rightarrow> (string \<Rightarrow> string) \<Rightarrow> time \<Rightarrow> duration \<Rightarrow> duration" where
  "cg_retryDelay ParseTime header now fallback =
     (case retryAfterHeader ParseTime header now of Some d \<Rightarrow> d | None \<Rightarrow> fallback)"

definition cg_classifyHTTPError :: "header_time \<Rightarrow> Code \<Rightarrow> time \<Rightarrow> http_response \<Rightarrow> string \<Rightarrow> error" where
  "cg_classifyHTTPError ParseTime providerCode now response body =
     (let cause = Some (ErrPlain (''coingecko HTTP status '' @ int_text (hr_StatusCode response) @ '': '' @ truncateTechnicalBody body));
          status = hr_StatusCode response
      in if status \<in> set [401, 403] then providerError providerCode ''unauthorized'' ''provider rejected authorization'' None cause
         else if status = 429 then providerError providerCode ''rate_limited'' ''provider rate limit reached''
           (Some (cg_retryDelay ParseTime (hr_Header response) now Minute)) cause
         else if status \<in> set [400, 404, 405] then badRequestError providerCode ''provider rejected market request'' cause
         else if status \<ge> 500
           then providerError providerCode ''temporary_unavailable'' ''provider service is unavailable'' None cause
         else providerError providerCode ''unknown'' ''provider returned an unexpected HTTP status'' None cause)"

text \<open>\<open>Valid\<close> is \<^verbatim>\<open>json.Valid\<close>.\<close>

definition doGet :: "(string \<Rightarrow> bool) \<Rightarrow> network \<Rightarrow> Adapter \<Rightarrow> string \<Rightarrow> url_values \<Rightarrow> string result" where
  "doGet Valid nw a path query = (let code = ba_providerCode a in
     case nw_Do nw path query of
       DoFails e \<Rightarrow> (case nw_ctx nw of
           Some c \<Rightarrow> Inl c
         | None \<Rightarrow> Inl (providerError code ''network'' ''provider network request failed'' None (Some e)))
     | Responds response \<Rightarrow> (case hr_Body response of
           Inl e \<Rightarrow> Inl (providerError code ''network'' ''provider response could not be read'' None (Some e))
         | Inr body \<Rightarrow>
             if int (length body) > ba_maxResponseBytes a
             then Inl (invalidResponseError code ''provider response exceeded size limit'' None)
             else if hr_StatusCode response < 200 \<or> hr_StatusCode response \<ge> 300
             then Inl (cg_classifyHTTPError (nw_ParseTime nw) code (nw_now nw) response body)
             else if \<not> Valid body then Inl (invalidResponseError code ''provider returned malformed JSON'' None)
             else Inr body))"

subsection \<open>Bars (bars.go)\<close>

definition barsCursorPrefix :: string where "barsCursorPrefix = ''v1:next-open-ms:''"

definition parseBarsCursor :: "string \<Rightarrow> time result" where
  "parseBarsCursor cursor =
     (if \<not> HasPrefix cursor barsCursorPrefix then Inl (ErrPlain ''unexpected cursor version'')
      else (case ParseInt (drop (length barsCursorPrefix) cursor) of
          None \<Rightarrow> Inl (ErrPlain ''parse cursor'')
        | Some ms \<Rightarrow> Inr (time_UnixMilli ms)))"

record dayPoint =
  dp_price :: rat
  dp_at :: UTCInstant
  dp_raw :: json

type_synonym price_point = "number \<times> number"

text \<open>The loop over the points: the last point of each day, and the days in the order they first appear.\<close>

fun points_loop ::
  "platform \<Rightarrow> Code \<Rightarrow> (civilDay \<rightharpoonup> dayPoint) \<Rightarrow> civilDay list \<Rightarrow> price_point list \<Rightarrow> ((civilDay \<rightharpoonup> dayPoint) \<times> civilDay list) result" where
  "points_loop pf code days order [] = Inr (days, order)"
| "points_loop pf code days order ((at_text, price_text) # rest) =
     (case ParseInt at_text of
        None \<Rightarrow> Inl (invalidResponseError code ''provider price timestamp is not a valid integer'' (Some (ErrPlain ''number'')))
      | Some milliseconds \<Rightarrow> (case instantFromMilliseconds milliseconds of
        Inl e \<Rightarrow> Inl (invalidResponseError code ''provider returned an invalid price timestamp'' (Some e))
      | Inr pointTime \<Rightarrow> (case parseDecimalFromNumber pf price_text of
        Inl e \<Rightarrow> Inl (invalidResponseError code ''provider price is not a valid decimal'' (Some e))
      | Inr price \<Rightarrow>
          let day = civilDayOf pointTime in
          points_loop pf code
            (days(day \<mapsto> \<lparr>dp_price = price, dp_at = pointTime, dp_raw = JArray [number_json at_text, number_json price_text]\<rparr>))
            (if days day = None then order @ [day] else order) rest)))"

definition synthetic_payload :: "json \<Rightarrow> RawMessage" where
  "synthetic_payload raw = RawValue (JObject [(''ohlc_synthesized_from_single_price'', JBool True),
     (''note'', JString ''CoinGecko's free tier gives one price per day, not real OHLC; open=high=low=close=that single observed price and volume=0 (RM0 DEC-006).''),
     (''raw_price_point'', raw)])"

definition day_bar :: "ProviderInstrumentRef \<Rightarrow> rat \<Rightarrow> UTCInstant \<Rightarrow> time \<Rightarrow> dayPoint \<Rightarrow> ProviderBar" where
  "day_bar r zeroVolume receivedAt openTime point = (let closeTime = openTime + 24 * Hour in
     \<lparr>pb_ProviderInstrumentID = ref_ProviderInstrumentID r, pb_InstrumentID = ref_InstrumentID r, pb_AssetID = ref_AssetID r,
      pb_ProviderCode = ref_ProviderCode r, pb_Interval = BarInterval1Day, pb_OpenTime = openTime, pb_CloseTime = closeTime,
      pb_Open = dp_price point, pb_High = dp_price point, pb_Low = dp_price point, pb_Close = dp_price point,
      pb_BaseVolume = Some zeroVolume, pb_QuoteVolume = Some zeroVolume, pb_TradeCount = None,
      pb_IsClosed = (\<not> closeTime > receivedAt), pb_ProviderUpdatedAt = Some (dp_at point),
      pb_ReceivedAt = receivedAt, pb_RawPayload = synthetic_payload (dp_raw point)\<rparr>)"

text \<open>The days come from the loop over the points, so each has its point.\<close>

fun days_loop ::
  "Code \<Rightarrow> ProviderInstrumentRef \<Rightarrow> rat \<Rightarrow> UTCInstant \<Rightarrow> (civilDay \<rightharpoonup> dayPoint) \<Rightarrow> ProviderBar list \<Rightarrow> civilDay list
     \<Rightarrow> ProviderBar list result" where
  "days_loop code r zeroVolume receivedAt days bars [] = Inr bars"
| "days_loop code r zeroVolume receivedAt days bars (day # rest) =
     (case NewUTCInstant (midnightUTC day) of
        Inl e \<Rightarrow> Inl (invalidResponseError code ''computed bar open time is invalid'' (Some e))
      | Inr _ \<Rightarrow> (case NewUTCInstant (midnightUTC day + 24 * Hour) of
        Inl e \<Rightarrow> Inl (invalidResponseError code ''computed bar close time is invalid'' (Some e))
      | Inr _ \<Rightarrow>
          let bar = day_bar r zeroVolume receivedAt (midnightUTC day) (the (days day)) in
          (case ProviderBar_ValidateFor bar r of
             Some e \<Rightarrow> Inl (invalidResponseError code ''provider bar fields are invalid'' (Some e))
           | None \<Rightarrow> days_loop code r zeroVolume receivedAt days (bars @ [bar]) rest)))"

definition eligible_days :: "time \<Rightarrow> time \<Rightarrow> civilDay list \<Rightarrow> civilDay list" where
  "eligible_days effectiveStart endTime order =
     filter (\<lambda>day. \<not> midnightUTC day < effectiveStart \<and> midnightUTC day < endTime) (sort_key midnightUTC order)"

definition chart_path :: "string \<Rightarrow> string" where
  "chart_path coin = ''/api/v3/coins/'' @ coin @ ''/market_chart/range''"

definition chart_query :: "FetchBarsRequest \<Rightarrow> time \<Rightarrow> url_values" where
  "chart_query r effectiveStart =
     [(''vs_currency'', lower_ascii (ref_QuoteCurrency (fbr_Instrument r))),
      (''from'', int_text (Unix effectiveStart)), (''to'', int_text (Unix (fbr_EndTime r)))]"

definition chart_page ::
  "platform \<Rightarrow> Code \<Rightarrow> FetchBarsRequest \<Rightarrow> UTCInstant \<Rightarrow> (civilDay \<rightharpoonup> dayPoint) \<Rightarrow> civilDay list \<Rightarrow> FetchBarsResult result" where
  "chart_page pf code r receivedAt days eligible =
     (let more = int (length eligible) > fbr_Limit r;
          selected = (if more then take (nat (fbr_Limit r)) eligible else eligible) in
      case ParseDecimal pf ''0'' of
        Inl e \<Rightarrow> Inl (invalidResponseError code ''internal zero volume decimal is invalid'' (Some e))
      | Inr zeroVolume \<Rightarrow>
          bind_result (days_loop code (fbr_Instrument r) zeroVolume receivedAt days [] selected) (\<lambda>bars.
            let page = \<lparr>fbs_Bars = bars,
                fbs_NextCursor = (if more then barsCursorPrefix @ int_text (UnixMilli (midnightUTC (eligible ! nat (fbr_Limit r)))) else []),
                fbs_HasMore = more\<rparr> in
            (case FetchBarsResult_Validate page r of
               Some e \<Rightarrow> Inl (invalidResponseError code ''provider bar page violated adapter contract'' (Some e))
             | None \<Rightarrow> Inr page)))"

definition bars_of_chart ::
  "platform \<Rightarrow> network \<Rightarrow> Adapter \<Rightarrow> FetchBarsRequest \<Rightarrow> time \<Rightarrow> price_point list \<Rightarrow> FetchBarsResult result" where
  "bars_of_chart pf nw a r effectiveStart prices = (let code = ba_providerCode a in
     case NewUTCInstant (nw_now nw) of
       Inl e \<Rightarrow> Inl (invalidResponseError code ''collection clock returned an invalid time'' (Some e))
     | Inr receivedAt \<Rightarrow>
         bind_result (points_loop pf code Map.empty [] prices) (\<lambda>(days, order).
           chart_page pf code r receivedAt days (eligible_days effectiveStart (fbr_EndTime r) order)))"

definition effective_start :: "FetchBarsRequest \<Rightarrow> time option" where
  "effective_start r =
     (if fbr_Cursor r = [] then Some (fbr_StartTime r)
      else (case parseBarsCursor (fbr_Cursor r) of
          Inl _ \<Rightarrow> None
        | Inr cursorStart \<Rightarrow> if cursorStart < fbr_StartTime r \<or> \<not> cursorStart < fbr_EndTime r then None else Some cursorStart))"

text \<open>\<open>decode\<close> is \<^verbatim>\<open>json.Unmarshal\<close> into the list of pairs of numbers.\<close>

definition cg_FetchBars ::
  "platform \<Rightarrow> (string \<Rightarrow> bool) \<Rightarrow> (string \<Rightarrow> error + price_point list) \<Rightarrow> network \<Rightarrow> Adapter \<Rightarrow> FetchBarsRequest
     \<Rightarrow> FetchBarsResult result" where
  "cg_FetchBars pf Valid decode nw a r = (let code = ba_providerCode a in
     case FetchBarsRequest_Validate r of
       Some e \<Rightarrow> Inl (badRequestError code ''provider bar request is invalid'' (Some e))
     | None \<Rightarrow> (case validateFXReference a (fbr_Instrument r) of
       Some e \<Rightarrow> Inl e
     | None \<Rightarrow>
         if fbr_Interval r \<noteq> BarInterval1Day then Inl (unsupportedIntervalError code (Some (ErrPlain ''unsupported CoinGecko interval'')))
         else if fbr_Limit r > cg_maxBarsPerRequest
         then Inl (badRequestError code ''provider bar request exceeds adapter limit'' None)
         else (case effective_start r of
           None \<Rightarrow> Inl (badRequestError code ''provider bar cursor is invalid''
             (case parseBarsCursor (fbr_Cursor r) of Inl e \<Rightarrow> Some e | Inr _ \<Rightarrow> None))
         | Some effectiveStart \<Rightarrow>
             bind_result (doGet Valid nw a (chart_path (ref_ExternalSymbol (fbr_Instrument r))) (chart_query r effectiveStart)) (\<lambda>body.
               case decode body of
                 Inl e \<Rightarrow> Inl (invalidResponseError code ''provider returned a malformed market_chart response'' (Some e))
               | Inr prices \<Rightarrow> bars_of_chart pf nw a r effectiveStart prices))))"

subsection \<open>Quotes (quotes.go)\<close>

definition lastUpdatedSuffix :: string where "lastUpdatedSuffix = ''_last_updated_at''"

fun pairs_loop :: "Adapter \<Rightarrow> string set \<Rightarrow> ProviderInstrumentRef list \<Rightarrow> error option" where
  "pairs_loop a pairs [] = None"
| "pairs_loop a pairs (r # rs) = (case validateFXReference a r of
     Some e \<Rightarrow> Some e
   | None \<Rightarrow>
       let pairKey = lower_ascii (ref_ExternalSymbol r) @ ''|'' @ lower_ascii (ref_QuoteCurrency r) in
       if pairKey \<in> pairs
       then Some (invalidInstrumentError (ba_providerCode a) ''provider coin id and currency pair is mapped more than once'' None)
       else pairs_loop a (insert pairKey pairs) rs)"

definition validateFXReferences :: "Adapter \<Rightarrow> ProviderInstrumentRef list \<Rightarrow> nat \<Rightarrow> error option" where
  "validateFXReferences a references maximum =
     (case ValidateLatestQuoteBatch (ba_providerCode a) references [] of
        Some e \<Rightarrow> Some (badRequestError (ba_providerCode a) ''provider instrument references are invalid'' (Some e))
      | None \<Rightarrow>
          if length references > maximum
          then Some (badRequestError (ba_providerCode a) ''provider quote batch exceeds adapter limit'' None)
          else pairs_loop a {} references)"

definition sortedKeys :: "string list \<Rightarrow> string list" where
  "sortedKeys keys = sort (remdups keys)"

definition Join_comma :: "string list \<Rightarrow> string" where
  "Join_comma ts = concat (case ts of [] \<Rightarrow> [] | t # rest \<Rightarrow> t # map (\<lambda>u. '','' @ u) rest)"

text \<open>
  The decoded answer: the members of each coin, keys without repetition; \<^verbatim>\<open>json.Marshal\<close> writes a map in the
  order of its keys.
\<close>

type_synonym coin_members = "(string \<times> number) list"

definition members_payload :: "coin_members \<Rightarrow> RawMessage" where
  "members_payload submap = RawValue (JObject (map (\<lambda>(k, v). (k, number_json v)) (sort_key fst submap)))"

fun coins_loop ::
  "platform \<Rightarrow> Code \<Rightarrow> UTCInstant \<Rightarrow> (string \<times> coin_members) list \<Rightarrow> ProviderQuote list \<Rightarrow> ProviderInstrumentRef list
     \<Rightarrow> ProviderQuote list result" where
  "coins_loop pf code receivedAt payload quotes [] = Inr quotes"
| "coins_loop pf code receivedAt payload quotes (r # rs) = (let currency = lower_ascii (ref_QuoteCurrency r) in
     case map_of payload (ref_ExternalSymbol r) of
       None \<Rightarrow> coins_loop pf code receivedAt payload quotes rs
     | Some submap \<Rightarrow> (case (map_of submap currency, map_of submap (currency @ lastUpdatedSuffix)) of
         (Some priceNumber, Some updatedNumber) \<Rightarrow> (case parseDecimalFromNumber pf priceNumber of
             Inl e \<Rightarrow> Inl (invalidResponseError code ''provider price is not a valid decimal'' (Some e))
           | Inr price \<Rightarrow> (case ParseInt updatedNumber of
             None \<Rightarrow> Inl (invalidResponseError code ''provider last_updated_at is not a valid integer'' (Some (ErrPlain ''number'')))
           | Some updatedSeconds \<Rightarrow> (case instantFromSeconds updatedSeconds of
             Inl e \<Rightarrow> Inl (invalidResponseError code ''provider returned an invalid last_updated_at'' (Some e))
           | Inr marketTime \<Rightarrow>
               let quote = \<lparr>pq_ProviderInstrumentID = ref_ProviderInstrumentID r, pq_InstrumentID = ref_InstrumentID r,
                 pq_AssetID = ref_AssetID r, pq_ProviderCode = ref_ProviderCode r, pq_LastPrice = price,
                 pq_BidPrice = None, pq_BidSize = None, pq_AskPrice = None, pq_AskSize = None,
                 pq_Open24H = None, pq_High24H = None, pq_Low24H = None, pq_BaseVolume24H = None, pq_QuoteVolume24H = None,
                 pq_MarketTime = marketTime, pq_ReceivedAt = receivedAt, pq_RawPayload = members_payload submap\<rparr> in
               (case ProviderQuote_ValidateFor quote r of
                  Some e \<Rightarrow> Inl (invalidResponseError code ''provider quote fields are invalid'' (Some e))
                | None \<Rightarrow> coins_loop pf code receivedAt payload (quotes @ [quote]) rs))))
       | _ \<Rightarrow> Inl (invalidResponseError code ''provider omitted requested currency fields for a known coin id'' None)))"

definition cg_FetchLatestQuotes ::
  "platform \<Rightarrow> (string \<Rightarrow> bool) \<Rightarrow> (string \<Rightarrow> error + (string \<times> coin_members) list) \<Rightarrow> network \<Rightarrow> Adapter
     \<Rightarrow> ProviderInstrumentRef list \<Rightarrow> ProviderQuote list result" where
  "cg_FetchLatestQuotes pf Valid decode nw a references = (let code = ba_providerCode a in
     case validateFXReferences a references cg_maxQuoteBatchSize of Some e \<Rightarrow> Inl e | None \<Rightarrow>
     bind_result (doGet Valid nw a ''/api/v3/simple/price''
         [(''ids'', Join_comma (sortedKeys (map ref_ExternalSymbol references))),
          (''vs_currencies'', Join_comma (sortedKeys (map (\<lambda>r. lower_ascii (ref_QuoteCurrency r)) references))),
          (''include_last_updated_at'', ''true'')]) (\<lambda>body.
       case decode body of
         Inl e \<Rightarrow> Inl (invalidResponseError code ''provider returned a malformed simple/price response'' (Some e))
       | Inr payload \<Rightarrow> (case NewUTCInstant (nw_now nw) of
           Inl e \<Rightarrow> Inl (invalidResponseError code ''collection clock returned an invalid time'' (Some e))
         | Inr receivedAt \<Rightarrow>
             bind_result (coins_loop pf code receivedAt payload [] references) (\<lambda>quotes.
               (case ValidateLatestQuoteBatch code references quotes of
                  Some e \<Rightarrow> Inl (invalidResponseError code ''provider quote batch violated adapter contract'' (Some e))
                | None \<Rightarrow> Inr quotes)))))"

end
