(* ===== verification/BybitPages.thy ===== *)
theory BybitPages
  imports Bybit
begin

text \<open>
  The Bybit adapter and the page loop of the ingestion service, composed over an exchange that answers its
  kline endpoint as documented: the newest klines of the asked span first, at most as many as asked for. The
  adapter pages backwards by an end timestamp, and no kline is lost or fetched twice on the way.
\<close>

subsection \<open>Numbers\<close>

lemma byte_digit: "k < 10 \<Longrightarrow> byte (char_of (48 + k)) = 48 + (k :: nat)"
  by simp

lemma decimal_digits: "decimal n \<noteq> [] \<and> list_all (\<lambda>c. 48 \<le> byte c \<and> byte c \<le> 57) (decimal n)"
proof (induction n rule: decimal.induct)
  case (1 n)
  have d: "48 \<le> byte (char_of (48 + k)) \<and> byte (char_of (48 + k)) \<le> 57" if "k < 10" for k :: nat
    using byte_digit [OF that] that by simp
  show ?case
  proof (cases "n < 10")
    case True
    with d [of n] show ?thesis by (simp add: decimal.simps [of n])
  next
    case False
    with 1 d [of "n mod 10"] show ?thesis by (simp add: decimal.simps [of n])
  qed
qed

lemma parse_digits_decimal: "parse_digits (decimal n) = Some n"
  using decimal_digits [of n] by (simp add: parse_digits_def read_decimal_decimal)

lemma ParseInt_int_text:
  assumes "0 \<le> n" "n < 2 ^ 63" shows "ParseInt (int_text n) = Some n"
proof -
  have t: "int_text n = decimal (nat n)" using assms(1) by (simp add: int_text_def)
  obtain c cs where c: "decimal (nat n) = c # cs" using decimal_digits [of "nat n"] by (cases "decimal (nat n)") auto
  then have "48 \<le> byte c" "byte c \<le> 57" using decimal_digits [of "nat n"] by simp_all
  then have "c \<noteq> CHR ''-''" "c \<noteq> CHR ''+''" by auto
  then show ?thesis
    using assms parse_digits_decimal [of "nat n"] unfolding t by (simp add: ParseInt_def c)
qed

lemma int_text_length: "0 \<le> n \<Longrightarrow> n < 2 ^ 63 \<Longrightarrow> length (int_text n) \<le> 20"
  using decimal_length [of "nat n" 20] by (simp add: int_text_def nat_less_iff)

lemma UnixMilli_inverse [simp]: "UnixMilli (time_UnixMilli ms) = ms"
  by (simp add: UnixMilli_def time_UnixMilli_def Millisecond_def)

lemma time_UnixMilli_less: "time_UnixMilli a < time_UnixMilli b \<longleftrightarrow> a < b"
  by (simp add: time_UnixMilli_def Millisecond_def)

lemma ceil_less: "time_UnixMilli ms < t \<longleftrightarrow> ms < ceilUnixMilliseconds t"
proof -
  let ?u = "t - unix_epoch * Second"
  have m: "t mod Millisecond = ?u mod Millisecond"
    by (simp add: unix_epoch_def Second_def Millisecond_def mod_diff_eq [symmetric])
  show ?thesis
  proof (cases "?u mod 1000000 = 0")
    case True
    then obtain q where "?u = 1000000 * q" by auto
    then show ?thesis using m by (simp add: ceilUnixMilliseconds_def UnixMilli_def time_UnixMilli_def Millisecond_def) linarith
  next
    case False
    have "?u = 1000000 * (?u div 1000000) + ?u mod 1000000" "0 \<le> ?u mod 1000000" "?u mod 1000000 < 1000000" by simp_all
    with False show ?thesis
      using m by (simp only: ceilUnixMilliseconds_def UnixMilli_def time_UnixMilli_def Millisecond_def if_True if_False simp_thms) linarith
  qed
qed

lemma whole_start:
  assumes "t mod Millisecond = 0" shows "time_UnixMilli (ceilUnixMilliseconds t) = t"
proof -
  have "(t - unix_epoch * Second) mod Millisecond = 0"
    using assms by (simp add: unix_epoch_def Second_def Millisecond_def mod_diff_eq [symmetric])
  then have "Millisecond * ((t - unix_epoch * Second) div Millisecond) = t - unix_epoch * Second"
    by (metis mult_div_mod_eq add.right_neutral)
  then show ?thesis using assms by (simp add: ceilUnixMilliseconds_def UnixMilli_def time_UnixMilli_def mult.commute)
qed

subsection \<open>A page\<close>

type_synonym kline = "int \<times> RawMessage" \<comment> \<open>its open time in Unix milliseconds, its encoding\<close>

definition kline_as :: "platform \<Rightarrow> FetchBarsRequest \<Rightarrow> duration \<Rightarrow> kline \<Rightarrow> ProviderBar \<Rightarrow> bool" where
  "kline_as pf r duration k b \<longleftrightarrow>
     (\<exists>pt ra. mapKline pf (fbr_Instrument r) (fbr_Interval r) duration pt ra (snd k) = Inr (b, fst k))"

lemma mapKline_bar:
  assumes "mapKline pf r interval duration pt ra raw = Inr (b, ms)"
  shows "\<exists>cl ds. b = kline_bar r interval (time_UnixMilli ms) cl ds pt ra raw \<and> ProviderBar_ValidateFor b r = None \<and> 0 < ms"
proof -
  obtain texts where t: "json_strings raw = Inr texts" using assms by (cases "json_strings raw") (simp_all add: mapKline_def)
  then have n: "length texts = 7" using assms by (simp add: mapKline_def split: if_split_asm)
  obtain m where m: "ParseInt (texts ! 0) = Some m" "0 < m"
    using assms t n by (simp add: mapKline_def split: option.splits if_split_asm)
  show ?thesis
    using assms t n m
    by (auto simp: mapKline_def Let_def bind_result_Inr_iff checked_Inr_iff instantFromMilliseconds_def NewUTCInstant_def split: if_split_asm)
qed

lemma kline_as_bar:
  assumes "kline_as pf r duration k b"
  shows "pb_OpenTime b = time_UnixMilli (fst k)" "pb_Interval b = fbr_Interval r" "ProviderBar_ValidateFor b (fbr_Instrument r) = None"
  using assms by (auto simp: kline_as_def kline_bar_def dest!: mapKline_bar)

lemma kline_as_cursor: "kline_as pf (r\<lparr>fbr_Cursor := c\<rparr>) duration = kline_as pf r duration"
  by (intro ext) (simp add: kline_as_def)

lemma klines_loop_maps:
  assumes "\<forall>k \<in> set ks. \<exists>b. mapKline pf (fbr_Instrument r) (fbr_Interval r) duration pt ra (snd k) = Inr (b, fst k)"
    and "distinct (map fst ks)" "fst ` set ks \<inter> seen = {}"
  shows "\<exists>new. klines_loop pf a r duration pt ra seen bars (map snd ks) = Inr (bars @ new) \<and> list_all2 (kline_as pf r duration) ks new"
  using assms
proof (induction ks arbitrary: seen bars)
  case (Cons k ks)
  then obtain b where b: "mapKline pf (fbr_Instrument r) (fbr_Interval r) duration pt ra (snd k) = Inr (b, fst k)" by auto
  have "\<exists>new. klines_loop pf a r duration pt ra (insert (fst k) seen) (bars @ [b]) (map snd ks) = Inr ((bars @ [b]) @ new)
      \<and> list_all2 (kline_as pf r duration) ks new"
    using Cons.prems by (intro Cons.IH) auto
  then obtain new where "klines_loop pf a r duration pt ra (insert (fst k) seen) (bars @ [b]) (map snd ks) = Inr ((bars @ [b]) @ new)"
    "list_all2 (kline_as pf r duration) ks new" by blast
  moreover have "kline_as pf r duration k b" using b by (auto simp: kline_as_def)
  ultimately show ?case using b Cons.prems(3) by (intro exI [of _ "b # new"]) simp
qed simp

lemma klines_times:
  "list_all2 (kline_as pf r duration) ks bars \<Longrightarrow> map pb_OpenTime bars = map (\<lambda>k. time_UnixMilli (fst k)) ks"
  by (induction rule: list_all2_induct) (simp_all add: kline_as_bar(1))

lemma sort_descending:
  assumes "list_all2 (kline_as pf r duration) (rev ks) bars" "sorted_wrt (\<lambda>j k. fst j < fst k) ks"
  shows "list_all2 (kline_as pf r duration) ks (sort_key pb_OpenTime bars)"
proof -
  have up: "list_all2 (kline_as pf r duration) ks (rev bars)" using assms(1) list_all2_rev by (metis rev_rev_ident)
  have "sorted_wrt (<) (map pb_OpenTime (rev bars))"
    unfolding klines_times [OF up] using assms(2) by (simp add: sorted_wrt_map time_UnixMilli_less)
  then have s: "sorted (map pb_OpenTime (rev bars))" "distinct (map pb_OpenTime (rev bars))"
    by (simp_all only: strict_sorted_iff)
  have "sort_key pb_OpenTime bars = rev bars"
    by (rule sort_key_inj_key_eq) (use s in \<open>simp_all add: distinct_map\<close>)
  with up show ?thesis by simp
qed

lemma page_loop_klines:
  assumes "list_all2 (kline_as pf r duration) ks bars" "sorted_wrt (\<lambda>j k. fst j < fst k) ks"
    and "\<forall>k \<in> set ks. fbr_StartTime r \<le> time_UnixMilli (fst k) \<and> time_UnixMilli (fst k) < fbr_EndTime r"
    and "\<forall>k \<in> set ks. case previous of None \<Rightarrow> True | Some t \<Rightarrow> t < time_UnixMilli (fst k)"
  shows "page_bars_loop r previous bars = None"
  using assms
proof (induction arbitrary: previous rule: list_all2_induct)
  case (Cons k ks b bars)
  have "page_bars_loop r (Some (time_UnixMilli (fst k))) bars = None"
    using Cons.prems by (intro Cons.IH) (auto simp: time_UnixMilli_less)
  then show ?case using kline_as_bar [OF Cons.hyps(1)] Cons.prems(2,3) by (auto split: option.splits)
qed simp

subsection \<open>The exchange\<close>

text \<open>
  The documented behaviour of the kline endpoint: for a symbol and an interval it holds a series of klines and
  answers a span \<open>[first, latest]\<close> with those that open in it, the newest first, at most \<open>n\<close> of them.
\<close>

definition newest_klines :: "kline list \<Rightarrow> int \<Rightarrow> int \<Rightarrow> int \<Rightarrow> RawMessage list" where
  "newest_klines series first latest n = map snd (take (nat n) (rev (filter (\<lambda>k. first \<le> fst k \<and> fst k \<le> latest) series)))"

definition answers_klines ::
  "(string \<Rightarrow> klineResult decoded) \<Rightarrow> Adapter \<Rightarrow> string \<Rightarrow> string \<Rightarrow> kline list \<Rightarrow> network \<Rightarrow> bool" where
  "answers_klines decode a symbol interval series nw \<longleftrightarrow> (\<forall>first latest n. 0 < first \<longrightarrow> first \<le> latest \<longrightarrow> latest < 2 ^ 63 \<longrightarrow> 0 < n \<longrightarrow> n \<le> 1000 \<longrightarrow>
     (\<exists>response body envelope. nw_Do nw ''/v5/market/kline'' [(''category'', spotMarket), (''symbol'', symbol), (''interval'', interval),
          (''start'', int_text first), (''end'', int_text latest), (''limit'', int_text n)] = Responds response
        \<and> hr_StatusCode response = 200 \<and> hr_Body response = Inr body \<and> int (length body) \<le> ba_maxResponseBytes a
        \<and> decode body = Decoded envelope \<and> en_RetCode envelope = 0 \<and> 0 < en_Time envelope
        \<and> en_Result envelope = \<lparr>kr_Category = spotMarket, kr_Symbol = symbol, kr_List = newest_klines series first latest n\<rparr>))"

text \<open>A kline the adapter can map, whatever the clocks say.\<close>

definition mappable :: "platform \<Rightarrow> FetchBarsRequest \<Rightarrow> duration \<Rightarrow> kline \<Rightarrow> bool" where
  "mappable pf r duration k \<longleftrightarrow> (\<forall>pt ra. pt \<noteq> 0 \<longrightarrow> ra \<noteq> 0 \<longrightarrow>
     (\<exists>b. mapKline pf (fbr_Instrument r) (fbr_Interval r) duration pt ra (snd k) = Inr (b, fst k)))"

definition in_span :: "int \<Rightarrow> int \<Rightarrow> kline list \<Rightarrow> kline list" where
  "in_span first end_ms series = filter (\<lambda>k. first \<le> fst k \<and> fst k < end_ms) series"

text \<open>The circumstances of a fetch.\<close>

definition fetchable :: "platform \<Rightarrow> Adapter \<Rightarrow> FetchBarsRequest \<Rightarrow> string \<Rightarrow> duration \<Rightarrow> kline list \<Rightarrow> bool" where
  "fetchable pf a r interval duration series \<longleftrightarrow> FetchBarsRequest_Validate r = None \<and> fbr_Limit r \<le> maxBarsPerRequest
     \<and> validateSpotReference a (fbr_Instrument r) = None \<and> bybitInterval (fbr_Interval r) = Inr (interval, duration)
     \<and> fbr_StartTime r mod Millisecond = 0 \<and> 0 < ceilUnixMilliseconds (fbr_StartTime r)
     \<and> ceilUnixMilliseconds (fbr_EndTime r) < 2 ^ 63
     \<and> sorted_wrt (\<lambda>j k. fst j < fst k) series \<and> (\<forall>k \<in> set series. mappable pf r duration k)"

text \<open>The klines of a page, and those it leaves to the next one.\<close>

definition page_klines :: "FetchBarsRequest \<Rightarrow> int \<Rightarrow> kline list \<Rightarrow> kline list" where
  "page_klines r E series = rev (take (nat (fbr_Limit r)) (rev (in_span (ceilUnixMilliseconds (fbr_StartTime r)) E series)))"

definition later_pages :: "FetchBarsRequest \<Rightarrow> int \<Rightarrow> kline list \<Rightarrow> kline list" where
  "later_pages r E series = (let rest = in_span (ceilUnixMilliseconds (fbr_StartTime r)) E series
     in take (length rest - nat (fbr_Limit r)) rest)"

lemma page_split: "in_span (ceilUnixMilliseconds (fbr_StartTime r)) E series = later_pages r E series @ page_klines r E series"
  by (simp add: page_klines_def later_pages_def Let_def take_rev)

lemma page_facts:
  assumes "fetchable pf a r interval duration series" "k \<in> set (page_klines r E series)"
  shows "k \<in> set series" "ceilUnixMilliseconds (fbr_StartTime r) \<le> fst k" "fst k < E" "mappable pf r duration k"
proof -
  have "k \<in> set (in_span (ceilUnixMilliseconds (fbr_StartTime r)) E series)" using assms(2) unfolding page_split by simp
  then show "k \<in> set series" "ceilUnixMilliseconds (fbr_StartTime r) \<le> fst k" "fst k < E" by (simp_all add: in_span_def)
  then show "mappable pf r duration k" using assms(1) by (simp add: fetchable_def)
qed

lemma pages_sorted:
  assumes "fetchable pf a r interval duration series"
  shows "sorted_wrt (\<lambda>j k. fst j < fst k) (later_pages r E series @ page_klines r E series)"
    "sorted_wrt (\<lambda>j k. fst j < fst k) (page_klines r E series)" "distinct (map fst (page_klines r E series))"
proof -
  show all: "sorted_wrt (\<lambda>j k. fst j < fst k) (later_pages r E series @ page_klines r E series)"
    using assms unfolding page_split [symmetric] by (simp add: fetchable_def in_span_def sorted_wrt_filter)
  then show page: "sorted_wrt (\<lambda>j k. fst j < fst k) (page_klines r E series)" by (simp add: sorted_wrt_append)
  then have "sorted_wrt (<) (map fst (page_klines r E series))" by (simp add: sorted_wrt_map)
  then show "distinct (map fst (page_klines r E series))" by (simp only: strict_sorted_iff)
qed

lemma page_first:
  assumes "list_all2 (kline_as pf r duration) (page_klines r E series) bars" "bars \<noteq> []"
  shows "pb_OpenTime (bars ! 0) = time_UnixMilli (fst (page_klines r E series ! 0))"
    "page_klines r E series ! 0 \<in> set (page_klines r E series)"
proof -
  have "0 < length (page_klines r E series)" using assms list_all2_lengthD [OF assms(1)] by auto
  then show "pb_OpenTime (bars ! 0) = time_UnixMilli (fst (page_klines r E series ! 0))"
    "page_klines r E series ! 0 \<in> set (page_klines r E series)"
    using list_all2_nthD [OF assms(1), of 0] by (simp_all add: kline_as_bar(1))
qed

text \<open>The page after this one asks for what opens before its first kline.\<close>

lemma page_before:
  assumes "fetchable pf a r interval duration series" "page_klines r E series \<noteq> []"
  shows "in_span (ceilUnixMilliseconds (fbr_StartTime r)) (fst (page_klines r E series ! 0)) series = later_pages r E series"
proof -
  let ?S = "ceilUnixMilliseconds (fbr_StartTime r)" let ?page = "page_klines r E series" let ?o = "fst (?page ! 0)"
  obtain p ps where ps: "?page = p # ps" using assms(2) by (cases ?page) auto
  have "?o < E" using page_facts(3) [OF assms(1)] ps by simp
  then have "in_span ?S ?o series = filter (\<lambda>k. fst k < ?o) (in_span ?S E series)" by (auto simp: in_span_def intro: filter_cong)
  also have "\<dots> = filter (\<lambda>k. fst k < ?o) (later_pages r E series) @ filter (\<lambda>k. fst k < ?o) ?page"
    by (subst page_split) (rule filter_append)
  also have "filter (\<lambda>k. fst k < ?o) ?page = []" using pages_sorted(2) [OF assms(1), of E] ps by (auto simp: filter_empty_conv)
  also have "filter (\<lambda>k. fst k < ?o) (later_pages r E series) = later_pages r E series"
    using pages_sorted(1) [OF assms(1), of E] ps by (intro filter_True) (simp add: sorted_wrt_append)
  finally show ?thesis by simp
qed

text \<open>A page that announces no further one is the last.\<close>

lemma page_last:
  assumes ok: "fetchable pf a r interval duration series" and bars: "list_all2 (kline_as pf r duration) (page_klines r E series) bars"
    and "\<not> fbs_HasMore (bars_page_of r bars)"
  shows "later_pages r E series = []"
proof (cases "length (page_klines r E series) = nat (fbr_Limit r)")
  case True
  let ?S = "ceilUnixMilliseconds (fbr_StartTime r)" let ?k = "page_klines r E series ! 0"
  have limit: "0 < fbr_Limit r" using ok by (simp add: fetchable_def FetchBarsRequest_Validate_def)
  have len: "length bars = nat (fbr_Limit r)" using list_all2_lengthD [OF bars] True by simp
  then have "bars \<noteq> []" using limit by auto
  note k = page_first [OF bars this]
  have "time_UnixMilli ?S = fbr_StartTime r" using ok by (intro whole_start) (simp add: fetchable_def)
  moreover have "\<not> pb_OpenTime (bars ! 0) > fbr_StartTime r"
    using assms(3) len limit \<open>bars \<noteq> []\<close> by (auto simp: bars_page_of_def split: if_splits)
  ultimately have "fst ?k \<le> ?S" using k(1) time_UnixMilli_less [of ?S "fst ?k"] by simp
  have "False" if "j \<in> set (later_pages r E series)" for j
  proof -
    have "j \<in> set (in_span ?S E series)" using that unfolding page_split by simp
    then have "?S \<le> fst j" by (simp add: in_span_def)
    moreover have "fst j < fst ?k" using pages_sorted(1) [OF ok, of E] that k(2) by (simp add: sorted_wrt_append)
    ultimately show False using \<open>fst ?k \<le> ?S\<close> by simp
  qed
  then show ?thesis by (meson last_in_set)
next
  case False
  then show ?thesis by (simp add: page_klines_def later_pages_def Let_def split: if_split_asm)
qed

text \<open>A page that ends at \<open>E\<close>: the first, or one whose cursor says so.\<close>

definition ends_at :: "FetchBarsRequest \<Rightarrow> string \<Rightarrow> int \<Rightarrow> bool" where
  "ends_at r c E \<longleftrightarrow> effectiveEndMilliseconds (r\<lparr>fbr_Cursor := c\<rparr>) = Inr E \<and> ceilUnixMilliseconds (fbr_StartTime r) < E
     \<and> E \<le> ceilUnixMilliseconds (fbr_EndTime r) \<and> (c = [] \<or> c = cursorPrefix @ int_text E)"

lemma page_request:
  assumes "fetchable pf a r interval duration series" "ends_at r c E"
  shows "0 < E" "E < 2 ^ 63" "0 < fbr_Limit r" "fbr_Limit r \<le> 1000" "FetchBarsRequest_Validate (r\<lparr>fbr_Cursor := c\<rparr>) = None"
proof -
  have ok: "FetchBarsRequest_Validate r = None" "fbr_Limit r \<le> maxBarsPerRequest"
    "0 < ceilUnixMilliseconds (fbr_StartTime r)" "ceilUnixMilliseconds (fbr_EndTime r) < 2 ^ 63" using assms(1) by (simp_all add: fetchable_def)
  then show E: "0 < E" "E < 2 ^ 63" using assms(2) unfolding ends_at_def by linarith+
  show "0 < fbr_Limit r" "fbr_Limit r \<le> 1000" using ok(1,2) by (simp_all add: FetchBarsRequest_Validate_def maxBarsPerRequest_def)
  have "length c \<le> 31" using assms(2) int_text_length [of E] E by (auto simp: ends_at_def cursorPrefix_def)
  then show "FetchBarsRequest_Validate (r\<lparr>fbr_Cursor := c\<rparr>) = None"
    using ok(1) by (simp add: FetchBarsRequest_Validate_def maximumAdapterCursorLength_def)
qed

lemma page_answer:
  assumes ok: "fetchable pf a r interval duration series" and c: "ends_at r c E"
    and nw: "answers_klines decode a (ref_ExternalSymbol (fbr_Instrument r)) interval series nw"
  obtains envelope where
    "getJSON decode nw a ''/v5/market/kline'' (kline_query (r\<lparr>fbr_Cursor := c\<rparr>) interval (ceilUnixMilliseconds (fbr_StartTime r)) E) = Inr envelope"
    "0 < en_Time envelope" "en_Result envelope = \<lparr>kr_Category = spotMarket, kr_Symbol = ref_ExternalSymbol (fbr_Instrument r),
       kr_List = map snd (rev (page_klines r E series))\<rparr>"
proof -
  let ?S = "ceilUnixMilliseconds (fbr_StartTime r)"
  note req = page_request [OF ok c]
  have S: "0 < ?S" "?S \<le> E - 1" "E - 1 < 2 ^ 63" using ok c req(2) by (simp_all add: fetchable_def ends_at_def)
  obtain response body envelope where answer:
    "nw_Do nw ''/v5/market/kline'' (kline_query (r\<lparr>fbr_Cursor := c\<rparr>) interval ?S E) = Responds response"
    "hr_StatusCode response = 200" "hr_Body response = Inr body" "int (length body) \<le> ba_maxResponseBytes a"
    "decode body = Decoded envelope" "en_RetCode envelope = 0" "0 < en_Time envelope"
    "en_Result envelope = \<lparr>kr_Category = spotMarket, kr_Symbol = ref_ExternalSymbol (fbr_Instrument r),
       kr_List = newest_klines series ?S (E - 1) (fbr_Limit r)\<rparr>"
    using nw [unfolded answers_klines_def, rule_format, OF S req(3,4)] by (auto simp: kline_query_def)
  have "filter (\<lambda>k. ?S \<le> fst k \<and> fst k \<le> E - 1) series = in_span ?S E series" by (auto simp: in_span_def intro: filter_cong)
  then have "newest_klines series ?S (E - 1) (fbr_Limit r) = map snd (rev (page_klines r E series))"
    by (simp add: newest_klines_def page_klines_def)
  then show thesis using answer by (intro that [of envelope]) (simp_all add: getJSON_def Let_def)
qed

lemma page_mapped:
  assumes "fetchable pf a r interval duration series" "pt \<noteq> 0" "ra \<noteq> 0"
  shows "\<exists>new. klines_loop pf a (r\<lparr>fbr_Cursor := c\<rparr>) duration pt ra {} [] (map snd (rev (page_klines r E series))) = Inr new
    \<and> list_all2 (kline_as pf r duration) (page_klines r E series) (sort_key pb_OpenTime new)"
proof -
  let ?r = "r\<lparr>fbr_Cursor := c\<rparr>" let ?page = "page_klines r E series"
  have "\<exists>b. mapKline pf (fbr_Instrument ?r) (fbr_Interval ?r) duration pt ra (snd k) = Inr (b, fst k)" if "k \<in> set (rev ?page)" for k
    using page_facts(4) [OF assms(1), of k E] that assms(2,3) by (simp add: mappable_def)
  then have maps: "\<forall>k \<in> set (rev ?page). \<exists>b. mapKline pf (fbr_Instrument ?r) (fbr_Interval ?r) duration pt ra (snd k) = Inr (b, fst k)" by blast
  from klines_loop_maps [OF maps, of "{}" a "[]"] pages_sorted(3) [OF assms(1), of E] obtain new where
    new: "klines_loop pf a ?r duration pt ra {} [] (map snd (rev ?page)) = Inr new" "list_all2 (kline_as pf ?r duration) (rev ?page) new"
    by (auto simp: rev_map [symmetric])
  then show ?thesis using sort_descending [OF new(2) pages_sorted(2) [OF assms(1)]] by (simp add: kline_as_cursor)
qed

lemma page_valid:
  assumes ok: "fetchable pf a r interval duration series" and c: "ends_at r c E"
    and bars: "list_all2 (kline_as pf r duration) (page_klines r E series) bars"
  shows "FetchBarsResult_Validate (bars_page_of r bars) (r\<lparr>fbr_Cursor := c\<rparr>) = None"
proof -
  let ?r = "r\<lparr>fbr_Cursor := c\<rparr>" let ?page = "page_klines r E series" let ?S = "ceilUnixMilliseconds (fbr_StartTime r)"
  note req = page_request [OF ok c]
  have start: "time_UnixMilli ?S = fbr_StartTime r" "0 < ?S" using ok by (auto simp: fetchable_def intro: whole_start)
  have n: "int (length bars) \<le> fbr_Limit r" using list_all2_lengthD [OF bars] req(3) by (simp add: page_klines_def)
  have "fbr_StartTime r \<le> time_UnixMilli (fst k) \<and> time_UnixMilli (fst k) < fbr_EndTime r" if "k \<in> set ?page" for k
  proof -
    have "time_UnixMilli ?S \<le> time_UnixMilli (fst k)" using page_facts(2) [OF ok that] by (simp add: time_UnixMilli_def Millisecond_def)
    moreover have "fst k < ceilUnixMilliseconds (fbr_EndTime r)" using page_facts(3) [OF ok that] c by (simp add: ends_at_def)
    ultimately show ?thesis by (simp add: start(1) ceil_less)
  qed
  then have loop: "page_bars_loop ?r None bars = None"
    using page_loop_klines [of pf ?r duration ?page bars None] bars pages_sorted(2) [OF ok, of E] by (simp add: kline_as_cursor)
  have cursor: "cursorPrefix @ int_text (UnixMilli (pb_OpenTime (bars ! 0))) \<noteq> c
      \<and> length (cursorPrefix @ int_text (UnixMilli (pb_OpenTime (bars ! 0)))) \<le> 2048" if "bars \<noteq> []"
  proof -
    let ?o = "fst (?page ! 0)"
    have o: "?S \<le> ?o" "?o < E" "UnixMilli (pb_OpenTime (bars ! 0)) = ?o"
      using page_first [OF bars that] page_facts(2,3) [OF ok] by simp_all
    then have "length (int_text ?o) \<le> 20" "int_text ?o \<noteq> int_text E"
      using int_text_length [of ?o] ParseInt_int_text [of ?o] ParseInt_int_text [of E] start(2) req(1,2) by auto
    then show ?thesis using c o(3) by (auto simp: ends_at_def cursorPrefix_def)
  qed
  show ?thesis
    using cursor req(5) n loop
    by (auto simp: FetchBarsResult_Validate_def bars_page_of_def maximumAdapterCursorLength_def cursorPrefix_def)
qed

lemma FetchBars_page:
  assumes ok: "fetchable pf a r interval duration series" and c: "ends_at r c E"
    and nw: "answers_klines decode a (ref_ExternalSymbol (fbr_Instrument r)) interval series nw" "nw_now nw \<noteq> 0"
  shows "\<exists>bars. list_all2 (kline_as pf r duration) (page_klines r E series) bars
    \<and> FetchBars pf decode nw a (r\<lparr>fbr_Cursor := c\<rparr>) = Inr (bars_page_of r bars)
    \<and> FetchBarsResult_Validate (bars_page_of r bars) (r\<lparr>fbr_Cursor := c\<rparr>) = None"
proof -
  let ?S = "ceilUnixMilliseconds (fbr_StartTime r)" let ?r = "r\<lparr>fbr_Cursor := c\<rparr>"
  obtain envelope where env: "getJSON decode nw a ''/v5/market/kline'' (kline_query ?r interval ?S E) = Inr envelope"
    "0 < en_Time envelope" "en_Result envelope = \<lparr>kr_Category = spotMarket, kr_Symbol = ref_ExternalSymbol (fbr_Instrument r),
       kr_List = map snd (rev (page_klines r E series))\<rparr>" by (rule page_answer [OF ok c nw(1)])
  let ?pt = "time_UnixMilli (en_Time envelope)"
  have pt: "?pt \<noteq> 0" using env(2) by (simp add: time_UnixMilli_def Millisecond_def unix_epoch_def Second_def)
  obtain new where new: "klines_loop pf a ?r duration ?pt (nw_now nw) {} [] (map snd (rev (page_klines r E series))) = Inr new"
    "list_all2 (kline_as pf r duration) (page_klines r E series) (sort_key pb_OpenTime new)" using page_mapped [OF ok pt nw(2)] by blast
  note valid = page_valid [OF ok c new(2)]
  have page: "bars_page_of ?r bs = bars_page_of r bs" for bs by (simp add: bars_page_of_def)
  have "bars_of_envelope pf nw a ?r duration envelope = Inr (bars_page_of r (sort_key pb_OpenTime new))"
    using env(2,3) nw(2) pt new(1) valid
    by (simp add: bars_of_envelope_def instantFromMilliseconds_def NewUTCInstant_def IsZero_def page Let_def)
  then have "FetchBars pf decode nw a ?r = Inr (bars_page_of r (sort_key pb_OpenTime new))"
    using page_request(5) [OF ok c] ok c env(1) by (simp add: FetchBars_def fetchable_def ends_at_def Let_def)
  with new(2) valid show ?thesis by blast
qed

subsection \<open>All pages\<close>

lemma collected:
  assumes "list_all2 (kline_as pf r duration) ks bars" "distinct (map fst ks)" "\<forall>k \<in> set ks. time_UnixMilli (fst k) \<notin> seen"
  shows "collect_bars seen acc bars = Inr (seen \<union> (\<lambda>k. time_UnixMilli (fst k)) ` set ks, acc @ bars)"
proof -
  have times: "map pb_OpenTime bars = map (\<lambda>k. time_UnixMilli (fst k)) ks" by (rule klines_times [OF assms(1)])
  then have s: "pb_OpenTime ` set bars = (\<lambda>k. time_UnixMilli (fst k)) ` set ks" by (metis set_map)
  have "distinct (map (\<lambda>k. time_UnixMilli (fst k)) ks)"
    using assms(2) by (auto simp: distinct_map inj_on_def time_UnixMilli_def Millisecond_def)
  then have "distinct (map pb_OpenTime bars)" by (simp only: times)
  moreover have "pb_OpenTime ` set bars \<inter> seen = {}" using assms(3) s by auto
  ultimately show ?thesis by (simp add: collect_bars_Inr_iff s)
qed

text \<open>The cursor of a page leads to the page before it.\<close>

lemma next_page:
  assumes ok: "fetchable pf a r interval duration series" and c: "ends_at r c E"
    and bars: "list_all2 (kline_as pf r duration) (page_klines r E series) bars" and more: "fbs_HasMore (bars_page_of r bars)"
  defines "o' \<equiv> fst (page_klines r E series ! 0)"
  shows "fbs_NextCursor (bars_page_of r bars) = cursorPrefix @ int_text o'" "ends_at r (cursorPrefix @ int_text o') o'"
    "in_span (ceilUnixMilliseconds (fbr_StartTime r)) o' series = later_pages r E series"
    "length (in_span (ceilUnixMilliseconds (fbr_StartTime r)) E series) = length (later_pages r E series) + nat (fbr_Limit r)"
proof -
  let ?S = "ceilUnixMilliseconds (fbr_StartTime r)"
  have b: "int (length bars) = fbr_Limit r" "bars \<noteq> []" "fbr_StartTime r < pb_OpenTime (bars ! 0)"
    using more by (auto simp: bars_page_of_def split: if_splits)
  note k = page_first [OF bars b(2)]
  show "fbs_NextCursor (bars_page_of r bars) = cursorPrefix @ int_text o'" using b k(1) by (simp add: bars_page_of_def o'_def)
  have start: "time_UnixMilli ?S = fbr_StartTime r" using ok by (intro whole_start) (simp add: fetchable_def)
  have o: "?S < o'" "o' < E" "E \<le> ceilUnixMilliseconds (fbr_EndTime r)"
    using b(3) k start time_UnixMilli_less [of ?S o'] page_facts(3) [OF ok k(2)] c by (simp_all add: o'_def ends_at_def)
  have "0 < ?S" "E < 2 ^ 63" using ok page_request(2) [OF ok c] by (simp_all add: fetchable_def)
  then have "ParseInt (int_text o') = Some o'" using o by (intro ParseInt_int_text) linarith+
  then show "ends_at r (cursorPrefix @ int_text o') o'"
    using o by (simp add: ends_at_def effectiveEndMilliseconds_def exclusiveEndMilliseconds_def HasPrefix_def cursorPrefix_def Let_def)
  have "page_klines r E series \<noteq> []" using b(2) list_all2_lengthD [OF bars] by auto
  then show "in_span ?S o' series = later_pages r E series" unfolding o'_def by (rule page_before [OF ok])
  show "length (in_span ?S E series) = length (later_pages r E series) + nat (fbr_Limit r)"
    using b(1) list_all2_lengthD [OF bars] unfolding page_split by simp
qed

lemma fetch_loop_klines:
  assumes ok: "fetchable pf a r interval duration series" and reg: "Registry_ValidateBarsRequest reg r = None"
    and env: "\<And>i. env_ctx_page env i = None" "\<And>i. env_fetch env i = FetchBars pf decode (nw i) a"
    and nw: "\<And>i. answers_klines decode a (ref_ExternalSymbol (fbr_Instrument r)) interval series (nw i)" "\<And>i. nw_now (nw i) \<noteq> 0"
    and c: "ends_at r c E"
    and fuel: "int (length (in_span (ceilUnixMilliseconds (fbr_StartTime r)) E series)) < int left * fbr_Limit r"
    and fresh: "\<forall>k \<in> set (in_span (ceilUnixMilliseconds (fbr_StartTime r)) E series). time_UnixMilli (fst k) \<notin> seen"
  shows "\<exists>perm new. mset perm = mset (in_span (ceilUnixMilliseconds (fbr_StartTime r)) E series)
    \<and> list_all2 (kline_as pf r duration) perm new
    \<and> fetch_loop reg env page left seen bars (r\<lparr>fbr_Cursor := c\<rparr>) = Inr (sort_key pb_OpenTime (bars @ new))"
  using c fuel fresh
proof (induction left arbitrary: page seen bars c E)
  case (Suc left)
  let ?S = "ceilUnixMilliseconds (fbr_StartTime r)" let ?now = "page_klines r E series" let ?later = "later_pages r E series"
  obtain new where new: "list_all2 (kline_as pf r duration) ?now new"
    "FetchBars pf decode (nw page) a (r\<lparr>fbr_Cursor := c\<rparr>) = Inr (bars_page_of r new)"
    "FetchBarsResult_Validate (bars_page_of r new) (r\<lparr>fbr_Cursor := c\<rparr>) = None"
    using FetchBars_page [OF ok Suc.prems(1) nw(1) nw(2)] by blast
  have valid: "Registry_ValidateBarsRequest reg (r\<lparr>fbr_Cursor := c\<rparr>) = None"
    using reg page_request(5) [OF ok Suc.prems(1)]
    by (auto simp: Registry_ValidateBarsRequest_def split: option.split_asm sum.split_asm if_split_asm)
  let ?seen = "seen \<union> (\<lambda>k. time_UnixMilli (fst k)) ` set ?now"
  have fresh: "\<forall>k \<in> set ?now \<union> set ?later. time_UnixMilli (fst k) \<notin> seen" using Suc.prems(3) unfolding page_split by auto
  then have collect: "collect_bars seen bars new = Inr (?seen, bars @ new)"
    using new(1) pages_sorted(3) [OF ok] by (intro collected) auto
  have bars_page: "fbs_Bars (bars_page_of r new) = new" by (simp add: bars_page_of_def)
  show ?case
  proof (cases "fbs_HasMore (bars_page_of r new)")
    case False
    then have "?now = in_span ?S E series" using page_last [OF ok new(1)] page_split [of r E series] by simp
    moreover have "fetch_loop reg env page (Suc left) seen bars (r\<lparr>fbr_Cursor := c\<rparr>) = Inr (sort_key pb_OpenTime (bars @ new))"
      using False valid new(2,3) collect by (simp add: env bars_page)
    ultimately show ?thesis using new(1) by (intro exI [of _ ?now] exI [of _ new]) simp
  next
    case True
    let ?o = "fst (?now ! 0)"
    note np = next_page [OF ok Suc.prems(1) new(1) True]
    have "int (length (in_span ?S ?o series)) < int left * fbr_Limit r"
      using Suc.prems(2) np(3,4) page_request(3) [OF ok Suc.prems(1)] by (simp add: algebra_simps)
    moreover have "time_UnixMilli (fst k) \<notin> ?seen" if "k \<in> set ?later" for k
    proof -
      have "fst k < fst j" if "j \<in> set ?now" for j
        using pages_sorted(1) [OF ok, of E] \<open>k \<in> set ?later\<close> that by (simp add: sorted_wrt_append)
      then have "time_UnixMilli (fst k) \<noteq> time_UnixMilli (fst j)" if "j \<in> set ?now" for j
        using that by (fastforce simp: time_UnixMilli_def Millisecond_def)
      then show ?thesis using fresh that by auto
    qed
    then have "\<forall>k \<in> set (in_span ?S ?o series). time_UnixMilli (fst k) \<notin> ?seen" by (simp add: np(3))
    ultimately obtain perm more_new where p: "mset perm = mset ?later" "list_all2 (kline_as pf r duration) perm more_new"
      "fetch_loop reg env (page + 1) left ?seen (bars @ new) (r\<lparr>fbr_Cursor := cursorPrefix @ int_text ?o\<rparr>)
         = Inr (sort_key pb_OpenTime ((bars @ new) @ more_new))"
      using Suc.IH [OF np(2), where page = "page + 1" and bars = "bars @ new" and seen = ?seen] unfolding np(3) by blast
    have "fetch_loop reg env page (Suc left) seen bars (r\<lparr>fbr_Cursor := c\<rparr>) = Inr (sort_key pb_OpenTime (bars @ new @ more_new))"
      using True valid new(2,3) collect p(3) np(1) by (simp add: env bars_page)
    moreover have "mset (?now @ perm) = mset (in_span ?S E series)" using p(1) by (simp add: page_split)
    moreover have "list_all2 (kline_as pf r duration) (?now @ perm) (new @ more_new)" using new(1) p(2) by (rule list_all2_appendI)
    ultimately show ?thesis by blast
  qed
qed simp

lemma matched_sorted:
  assumes "list_all2 (kline_as pf r duration) perm new" "mset perm = mset ks" "sorted_wrt (\<lambda>j k. fst j < fst k) ks"
  shows "list_all2 (kline_as pf r duration) ks (sort_key pb_OpenTime new)"
proof -
  from list_all2_reorder_left_invariance [OF assms(1) assms(2) [symmetric]]
  obtain bars where bars: "list_all2 (kline_as pf r duration) ks bars" "mset bars = mset new" by blast
  have "sorted_wrt (<) (map pb_OpenTime bars)"
    unfolding klines_times [OF bars(1)] using assms(3) by (simp add: sorted_wrt_map time_UnixMilli_less)
  then have s: "sorted (map pb_OpenTime bars)" "distinct (map pb_OpenTime bars)" by (simp_all only: strict_sorted_iff)
  have "set bars = set new" using bars(2) by (metis set_mset_mset)
  then have "sort_key pb_OpenTime new = bars"
    by (intro sort_key_inj_key_eq) (use s bars(2) in \<open>simp_all add: distinct_map\<close>)
  with bars(1) show ?thesis by simp
qed


subsection \<open>A sample exchange\<close>

lemma mappable_by_parts:
  assumes "json_strings raw = Inr texts" "length texts = 7" "ParseInt (texts ! 0) = Some ms" "0 < ms"
    and "parse_decimals pf (tl texts) = Inr ds" "0 < duration"
    and "ProviderBar_ValidateFor (kline_bar (fbr_Instrument r) (fbr_Interval r) (time_UnixMilli ms) (time_UnixMilli ms + duration) ds 1 1 raw)
      (fbr_Instrument r) = None"
  shows "mappable pf r duration (ms, raw)"
  unfolding mappable_def
proof (intro allI impI)
  fix pt ra :: time assume ra: "ra \<noteq> 0"
  let ?b = "kline_bar (fbr_Instrument r) (fbr_Interval r) (time_UnixMilli ms) (time_UnixMilli ms + duration) ds pt ra raw"
  have "0 < time_UnixMilli ms" using assms(4) by (simp add: time_UnixMilli_def Millisecond_def unix_epoch_def Second_def)
  moreover have "ProviderBar_ValidateFor ?b (fbr_Instrument r) = None"
    using assms(7) ra
    by (simp add: ProviderBar_ValidateFor_def ProviderBar_Validate_def kline_bar_def NewBar_def Let_def Bar_Validate_def IsZero_def Bar_Source_def
        checked_def split: option.splits)
  ultimately show "\<exists>b. mapKline pf (fbr_Instrument r) (fbr_Interval r) duration pt ra (snd (ms, raw)) = Inr (b, fst (ms, raw))"
    using assms(1-6) by (simp add: mapKline_def instantFromMilliseconds_def NewUTCInstant_def IsZero_def Let_def)
qed

definition sample_kline :: "int \<Rightarrow> kline" where
  "sample_kline ms = (ms, RawValue (JArray (map JString [int_text ms, ''10'', ''10'', ''10'', ''10'', ''10'', ''10''])))"

definition sample_series :: "kline list" where
  "sample_series = map (\<lambda>h. sample_kline (h * 3600000)) [999, 1000, 1001, 1002]"

definition bybit_request :: FetchBarsRequest where
  "bybit_request = sample_request\<lparr>fbr_StartTime := time_UnixMilli (1000 * 3600000), fbr_EndTime := time_UnixMilli (1002 * 3600000),
     fbr_Limit := 1\<rparr>"

definition decimal_platform :: platform where
  "decimal_platform = sample_platform\<lparr>Decimal_Parse := (\<lambda>t. Some (of_nat (read_decimal t)))\<rparr>"

text \<open>Its bodies name the hours of the klines.\<close>

definition sample_network :: network where
  "sample_network = \<lparr>nw_Do = (\<lambda>path query. let first = the (ParseInt (the (map_of query ''start'')));
       latest = the (ParseInt (the (map_of query ''end''))); n = the (ParseInt (the (map_of query ''limit''))) in
     Responds \<lparr>hr_StatusCode = 200, hr_Header = (\<lambda>h. []), hr_Body =
       Inr (map (\<lambda>k. char_of (nat (fst k div 3600000 - 999))) (take (nat n) (rev (filter (\<lambda>k. first \<le> fst k \<and> fst k \<le> latest) sample_series))))\<rparr>),
     nw_ctx = None, nw_now = time_UnixMilli (1003 * 3600000), nw_ParseTime = (\<lambda>t. None)\<rparr>"

definition sample_decode :: "string \<Rightarrow> klineResult decoded" where
  "sample_decode body = Decoded \<lparr>en_RetCode = 0, en_RetMsg = ''OK'', en_Result = \<lparr>kr_Category = spotMarket, kr_Symbol = ''BTCUSDT'',
     kr_List = map (\<lambda>c. snd (sample_kline ((int (of_char c) + 999) * 3600000))) body\<rparr>, en_Time = 1003 * 3600000\<rparr>"

definition sample_adapter :: Adapter where
  "sample_adapter = \<lparr>ba_providerCode = ''bybit'', ba_baseURL = \<lparr>url_Scheme = ''https'', url_User = None, url_Host = ''api.bybit.com'',
       url_Path = [], url_RawQuery = [], url_Fragment = []\<rparr>, ba_userAgent = ''xr-trading-market-info/1'', ba_maxResponseBytes = 4194304\<rparr>"

definition bybit_env :: env where
  "bybit_env = sample_env\<lparr>env_fetch := (\<lambda>i. FetchBars decimal_platform sample_decode sample_network sample_adapter)\<rparr>"

lemma sample_answers: "answers_klines sample_decode sample_adapter ''BTCUSDT'' ''60'' sample_series sample_network"
  unfolding answers_klines_def
proof (intro allI impI)
  fix first latest n :: int assume a: "0 < first" "first \<le> latest" "latest < 2 ^ 63" "0 < n" "n \<le> 1000"
  let ?ks = "take (nat n) (rev (filter (\<lambda>k. first \<le> fst k \<and> fst k \<le> latest) sample_series))"
  let ?body = "map (\<lambda>k. char_of (nat (fst k div 3600000 - 999))) ?ks :: string"
  have p: "ParseInt (int_text first) = Some first" "ParseInt (int_text latest) = Some latest" "ParseInt (int_text n) = Some n"
    using a by (auto intro: ParseInt_int_text)
  have inverse: "\<forall>k \<in> set sample_series. snd (sample_kline ((int (of_char (char_of (nat (fst k div 3600000 - 999)) :: char)) + 999) * 3600000)) = snd k"
    by (simp add: sample_series_def sample_kline_def)
  have sub: "set ?ks \<subseteq> set sample_series" by (auto dest!: in_set_takeD)
  have "map (\<lambda>c. snd (sample_kline ((int (of_char c) + 999) * 3600000))) ?body = map snd ?ks"
    unfolding map_map comp_def by (rule map_cong [OF refl]) (use sub inverse in blast)
  then have decode: "sample_decode ?body = Decoded \<lparr>en_RetCode = 0, en_RetMsg = ''OK'', en_Result = \<lparr>kr_Category = spotMarket, kr_Symbol = ''BTCUSDT'',
     kr_List = newest_klines sample_series first latest n\<rparr>, en_Time = 1003 * 3600000\<rparr>"
    by (simp only: sample_decode_def newest_klines_def)
  have "length sample_series = 4" by (simp add: sample_series_def)
  then have "length (filter (\<lambda>k. first \<le> fst k \<and> fst k \<le> latest) sample_series) \<le> 4" by (metis length_filter_le)
  then have n: "int (length ?body) \<le> ba_maxResponseBytes sample_adapter" by (simp add: sample_adapter_def)
  let ?q = "[(''category'', spotMarket), (''symbol'', ''BTCUSDT''), (''interval'', ''60''), (''start'', int_text first),
       (''end'', int_text latest), (''limit'', int_text n)]"
  let ?envelope = "\<lparr>en_RetCode = 0, en_RetMsg = ''OK'', en_Result = \<lparr>kr_Category = spotMarket, kr_Symbol = ''BTCUSDT'',
     kr_List = newest_klines sample_series first latest n\<rparr>, en_Time = 1003 * 3600000\<rparr> :: klineResult responseEnvelope"
  have "nw_Do sample_network ''/v5/market/kline'' ?q = Responds \<lparr>hr_StatusCode = 200, hr_Header = (\<lambda>h. []), hr_Body = Inr ?body\<rparr>"
    by (simp add: sample_network_def p)
  then show "\<exists>response body envelope. nw_Do sample_network ''/v5/market/kline'' ?q = Responds response
        \<and> hr_StatusCode response = 200 \<and> hr_Body response = Inr body \<and> int (length body) \<le> ba_maxResponseBytes sample_adapter
        \<and> sample_decode body = Decoded envelope \<and> en_RetCode envelope = 0 \<and> 0 < en_Time envelope
        \<and> en_Result envelope = \<lparr>kr_Category = spotMarket, kr_Symbol = ''BTCUSDT'', kr_List = newest_klines sample_series first latest n\<rparr>"
    using decode n by (intro exI [of _ "\<lparr>hr_StatusCode = 200, hr_Header = (\<lambda>h. []), hr_Body = Inr ?body\<rparr>"] exI [of _ ?body]
      exI [of _ ?envelope] conjI) simp_all
qed

lemma raw_irrelevant:
  "json_Valid raw \<Longrightarrow> json_Valid raw' \<Longrightarrow> ProviderBar_ValidateFor (kline_bar r interval t cl ds pt ra raw) ref
    = ProviderBar_ValidateFor (kline_bar r interval t cl ds pt ra raw') ref"
  by (simp add: ProviderBar_ValidateFor_def ProviderBar_Validate_def kline_bar_def validOptionalJSON_def)

lemma sample_mappable: "k \<in> set sample_series \<Longrightarrow> mappable decimal_platform bybit_request Hour k"
proof -
  have parts: "\<forall>ms \<in> set [999 * 3600000, 1000 * 3600000, 1001 * 3600000, 1002 * 3600000 :: int].
      0 < ms \<and> ms < 2 ^ 63 \<and> ProviderBar_ValidateFor (kline_bar (fbr_Instrument bybit_request) (fbr_Interval bybit_request) (time_UnixMilli ms)
        (time_UnixMilli ms + Hour) [10, 10, 10, 10, 10, 10] 1 1 (RawValue JNull)) (fbr_Instrument bybit_request) = None" by code_simp
  have ds: "parse_decimals decimal_platform [''10'', ''10'', ''10'', ''10'', ''10'', ''10''] = Inr [10, 10, 10, 10, 10, 10]" by code_simp
  assume "k \<in> set sample_series"
  then obtain ms where k: "k = sample_kline ms" "ms \<in> set [999 * 3600000, 1000 * 3600000, 1001 * 3600000, 1002 * 3600000]"
    by (auto simp: sample_series_def)
  note ms = bspec [OF parts k(2)]
  let ?raw = "snd (sample_kline ms)"
  have strings: "json_strings ?raw = Inr [int_text ms, ''10'', ''10'', ''10'', ''10'', ''10'', ''10'']" "json_Valid ?raw"
    by (simp_all add: sample_kline_def json_strings_def json_string_def json_Valid_def)
  have "json_Valid (RawValue JNull)" by (simp add: json_Valid_def)
  from raw_irrelevant [OF strings(2) this] ms have valid: "ProviderBar_ValidateFor (kline_bar (fbr_Instrument bybit_request) (fbr_Interval bybit_request) (time_UnixMilli ms)
        (time_UnixMilli ms + Hour) [10, 10, 10, 10, 10, 10] 1 1 ?raw) (fbr_Instrument bybit_request) = None" by simp
  have "ParseInt (int_text ms) = Some ms" using ms by (intro ParseInt_int_text) simp_all
  then have "mappable decimal_platform bybit_request Hour (ms, ?raw)"
    using ms ds valid by (intro mappable_by_parts [OF strings(1)]) simp_all
  then show "mappable decimal_platform bybit_request Hour k" by (simp add: k(1) sample_kline_def)
qed

lemma sample_fetchable: "fetchable decimal_platform sample_adapter bybit_request ''60'' Hour sample_series"
proof -
  have "FetchBarsRequest_Validate bybit_request = None \<and> fbr_Limit bybit_request \<le> maxBarsPerRequest
     \<and> validateSpotReference sample_adapter (fbr_Instrument bybit_request) = None
     \<and> bybitInterval (fbr_Interval bybit_request) = Inr (''60'', Hour)
     \<and> fbr_StartTime bybit_request mod Millisecond = 0 \<and> 0 < ceilUnixMilliseconds (fbr_StartTime bybit_request)
     \<and> ceilUnixMilliseconds (fbr_EndTime bybit_request) < 2 ^ 63" by code_simp
  moreover have "sorted_wrt (\<lambda>j k. fst j < fst k) sample_series" by (simp add: sample_series_def sample_kline_def)
  ultimately show ?thesis using sample_mappable by (simp add: fetchable_def)
qed


end
