(* ===== verification/CoinGeckoPages.thy ===== *)
theory CoinGeckoPages
  imports CoinGecko BybitPages
begin

text \<open>
  The CoinGecko adapter and the page loop of the ingestion service, composed over an exchange that answers its
  chart endpoint with some of the prices it observed: at least one of every day of the asked span that has any.
  The adapter pages forward by the first day it has not served.
\<close>

subsection \<open>Days\<close>

definition day_start :: "time \<Rightarrow> time" where
  "day_start t = t - t mod (24 * Hour)"

lemma day_values: "24 * Hour = 86400 * Second" "(0 :: int) < 24 * Hour" "unix_epoch * Second = 719162 * (24 * Hour)"
  by (simp_all add: Hour_def Minute_def Second_def unix_epoch_def)

lemma day_start_bounds: "day_start t \<le> t" "t < day_start t + 24 * Hour" "day_start t mod (24 * Hour) = 0"
proof -
  have "0 \<le> t mod (24 * Hour)" "t mod (24 * Hour) < 24 * Hour" using day_values(2) by (rule pos_mod_sign, rule pos_mod_bound)
  then show "day_start t \<le> t" "t < day_start t + 24 * Hour" by (simp_all add: day_start_def)
  show "day_start t mod (24 * Hour) = 0" by (simp add: day_start_def minus_mod_eq_mult_div)
qed

lemma day_start_div: "day_start t = t div Second div 86400 * 86400 * Second"
proof -
  have "t div Second div 86400 = t div (24 * Hour)" unfolding day_values(1) by (simp add: zdiv_zmult2_eq mult.commute [of 86400])
  moreover have "t div (24 * Hour) * (24 * Hour) = day_start t" by (simp add: day_start_def minus_mod_eq_div_mult)
  ultimately show ?thesis unfolding day_values(1) by simp
qed

lemma midnight_of_day: "midnightUTC (civilDayOf t) = day_start t"
proof -
  obtain y m d where c: "civil (t div Second div 86400) = (y, m, d)" by (metis prod_cases3)
  then show ?thesis using civil_correct(2) [OF c]
    by (simp add: midnightUTC_def civilDayOf_def time_In_Date_UTC time_Date_UTC day_start_div)
qed

lemma same_day: "civilDayOf s = civilDayOf t \<longleftrightarrow> day_start s = day_start t"
proof
  assume "civilDayOf s = civilDayOf t"
  then show "day_start s = day_start t" by (metis midnight_of_day)
next
  assume "day_start s = day_start t"
  then have "s div Second div 86400 = t div Second div 86400" by (simp add: day_start_div Second_def)
  then show "civilDayOf s = civilDayOf t" by (simp add: civilDayOf_def time_In_Date_UTC)
qed

lemma day_start_least: "u mod (24 * Hour) = 0 \<Longrightarrow> u \<le> t \<Longrightarrow> u \<le> day_start t"
proof -
  assume "u mod (24 * Hour) = 0" "u \<le> t"
  then have "u = u div (24 * Hour) * (24 * Hour)" "u div (24 * Hour) \<le> t div (24 * Hour)"
    using day_values(2) by (auto simp: minus_mod_eq_div_mult [symmetric] intro: zdiv_mono1)
  then have "u \<le> t div (24 * Hour) * (24 * Hour)" using day_values(2) by (metis mult_right_mono order_less_imp_le)
  then show "u \<le> day_start t" by (simp add: day_start_def minus_mod_eq_div_mult)
qed

lemma day_start_unix:
  assumes "0 < ms" "ms < 2 ^ 63"
  shows "0 \<le> UnixMilli (day_start (time_UnixMilli ms))" "UnixMilli (day_start (time_UnixMilli ms)) < 2 ^ 63"
    "time_UnixMilli (UnixMilli (day_start (time_UnixMilli ms))) = day_start (time_UnixMilli ms)" "0 < day_start (time_UnixMilli ms)"
proof -
  let ?d = "day_start (time_UnixMilli ms)"
  have "unix_epoch * Second \<le> time_UnixMilli ms" using assms(1) by (simp add: time_UnixMilli_def Millisecond_def)
  then have low: "unix_epoch * Second \<le> ?d" by (intro day_start_least) (simp_all add: day_values(3))
  then show "0 \<le> UnixMilli ?d" "0 < ?d" by (simp_all add: UnixMilli_def Millisecond_def unix_epoch_def Second_def)
  have "Millisecond dvd 24 * Hour" "Millisecond dvd unix_epoch * Second"
    by (simp_all add: Millisecond_def Hour_def Minute_def Second_def unix_epoch_def)
  moreover have "24 * Hour dvd ?d" using day_start_bounds(3) by (simp add: dvd_eq_mod_eq_0)
  ultimately have "Millisecond dvd ?d - unix_epoch * Second" by (meson dvd_diff dvd_trans)
  then show eq: "time_UnixMilli (UnixMilli ?d) = ?d" by (simp add: time_UnixMilli_def UnixMilli_def)
  have "time_UnixMilli (UnixMilli ?d) \<le> time_UnixMilli ms" unfolding eq by (rule day_start_bounds(1))
  then show "UnixMilli ?d < 2 ^ 63" using assms(2) by (simp add: time_UnixMilli_def Millisecond_def)
qed

subsection \<open>The points of an answer\<close>

text \<open>The point the adapter keeps for a pair of numbers.\<close>

definition point_as :: "platform \<Rightarrow> price_point \<Rightarrow> dayPoint \<Rightarrow> bool" where
  "point_as pf p dp \<longleftrightarrow> (\<exists>ms. ParseInt (fst p) = Some ms \<and> 0 < ms \<and> dp_at dp = time_UnixMilli ms
     \<and> parseDecimalFromNumber pf (snd p) = Inr (dp_price dp) \<and> dp_raw dp = JArray [number_json (fst p), number_json (snd p)])"

lemma ParseInt_bound: "ParseInt s = Some n \<Longrightarrow> n < 2 ^ 63"
  by (auto simp: ParseInt_def split: list.splits if_splits option.splits)

lemma point_as_unique: "point_as pf p dp \<Longrightarrow> point_as pf p dq \<Longrightarrow> dp = dq"
  by (auto simp: point_as_def)

definition points_ok :: "platform \<Rightarrow> (civilDay \<rightharpoonup> dayPoint) \<Rightarrow> civilDay list \<Rightarrow> price_point set \<Rightarrow> bool" where
  "points_ok pf days order P \<longleftrightarrow> dom days = set order \<and> distinct order
     \<and> set order = {civilDayOf (dp_at dp) | p dp. p \<in> P \<and> point_as pf p dp}
     \<and> (\<forall>day dp. days day = Some dp \<longrightarrow> civilDayOf (dp_at dp) = day \<and> (\<exists>p \<in> P. point_as pf p dp))"

lemma points_loop_step:
  assumes "point_as pf p dp"
  shows "points_loop pf code days order (p # rest) = (let day = civilDayOf (dp_at dp) in
    points_loop pf code (days(day \<mapsto> dp)) (if days day = None then order @ [day] else order) rest)"
proof -
  obtain ms where ms: "ParseInt (fst p) = Some ms" "0 < ms" "dp_at dp = time_UnixMilli ms"
    "parseDecimalFromNumber pf (snd p) = Inr (dp_price dp)" "dp_raw dp = JArray [number_json (fst p), number_json (snd p)]"
    using assms by (auto simp: point_as_def)
  have "time_UnixMilli ms \<noteq> 0" using ms(2) by (simp add: time_UnixMilli_def Millisecond_def unix_epoch_def Second_def)
  then show ?thesis
    using ms by (cases p; cases dp) (simp add: instantFromMilliseconds_def NewUTCInstant_def IsZero_def Let_def)
qed

lemma points_loop_ok:
  assumes "points_ok pf days order P" "\<forall>p \<in> set rest. \<exists>dp. point_as pf p dp"
  shows "\<exists>days' order'. points_loop pf code days order rest = Inr (days', order') \<and> points_ok pf days' order' (P \<union> set rest)"
  using assms
proof (induction rest arbitrary: days order P)
  case (Cons p rest)
  then obtain dp where dp: "point_as pf p dp" by auto
  let ?day = "civilDayOf (dp_at dp)" let ?order = "if days ?day = None then order @ [?day] else order"
  have new: "{civilDayOf (dp_at dq) | q dq. q \<in> insert p P \<and> point_as pf q dq}
      = insert ?day {civilDayOf (dp_at dq) | q dq. q \<in> P \<and> point_as pf q dq}"
    using dp point_as_unique [OF dp] by blast
  have ok: "dom days = set order" "distinct order" "set order = {civilDayOf (dp_at dp) | p dp. p \<in> P \<and> point_as pf p dp}"
    "\<forall>day dp. days day = Some dp \<longrightarrow> civilDayOf (dp_at dp) = day \<and> (\<exists>p \<in> P. point_as pf p dp)"
    using Cons.prems(1) unfolding points_ok_def by - (elim conjE, assumption)+
  have "points_ok pf (days(?day \<mapsto> dp)) ?order (insert p P)"
    unfolding points_ok_def
  proof (intro conjI allI impI)
    have known: "days ?day = None \<longleftrightarrow> ?day \<notin> set order" using ok(1) by (metis domIff)
    then have order: "set ?order = insert ?day (set order)" by auto
    then show "dom (days(?day \<mapsto> dp)) = set ?order" by (simp only: dom_fun_upd ok(1)) simp
    show "distinct ?order" using ok(2) known by simp
    show "set ?order = {civilDayOf (dp_at dq) | q dq. q \<in> insert p P \<and> point_as pf q dq}" by (simp only: order new ok(3))
  next
    fix day dq assume "(days(?day \<mapsto> dp)) day = Some dq"
    then show "civilDayOf (dp_at dq) = day" "\<exists>p \<in> insert p P. point_as pf p dq"
      using ok(4) dp by (auto split: if_split_asm)
  qed
  moreover have "\<forall>p \<in> set rest. \<exists>dp. point_as pf p dp" using Cons.prems(2) by simp
  ultimately have "\<exists>days' order'. points_loop pf code (days(?day \<mapsto> dp)) ?order rest = Inr (days', order')
      \<and> points_ok pf days' order' (insert p P \<union> set rest)" by (rule Cons.IH)
  then obtain days' order' where
    "points_loop pf code (days(?day \<mapsto> dp)) ?order rest = Inr (days', order')" "points_ok pf days' order' (insert p P \<union> set rest)"
    by blast
  moreover have "insert p P \<union> set rest = P \<union> set (p # rest)" by auto
  ultimately show ?case by (simp add: points_loop_step [OF dp] Let_def)
qed simp

subsection \<open>The exchange\<close>

text \<open>
  What the chart endpoint of a currency pair has observed is a set of pairs of numbers, a time in milliseconds
  and a price. Asked for a span of seconds it answers with observations of that span, as many as the granularity
  it chooses gives, but at least one of each day that has any in the span.
\<close>

definition day_of_point :: "price_point \<Rightarrow> time" where
  "day_of_point p = (case ParseInt (fst p) of Some ms \<Rightarrow> day_start (time_UnixMilli ms) | None \<Rightarrow> 0)"

definition observed_between :: "int \<Rightarrow> int \<Rightarrow> price_point set \<Rightarrow> price_point set" where
  "observed_between first latest P = {p \<in> P. \<exists>ms. ParseInt (fst p) = Some ms \<and> first * 1000 \<le> ms \<and> ms \<le> latest * 1000}"

definition answers_chart ::
  "(string \<Rightarrow> bool) \<Rightarrow> (string \<Rightarrow> error + price_point list) \<Rightarrow> Adapter \<Rightarrow> ProviderInstrumentRef \<Rightarrow> price_point set \<Rightarrow> network \<Rightarrow> bool" where
  "answers_chart Valid decode a r P nw \<longleftrightarrow> (\<forall>first latest. 0 \<le> first \<longrightarrow> first \<le> latest \<longrightarrow> latest < 2 ^ 63 \<longrightarrow>
     (\<exists>response body prices. nw_Do nw (chart_path (ref_ExternalSymbol r))
          [(''vs_currency'', lower_ascii (ref_QuoteCurrency r)), (''from'', int_text first), (''to'', int_text latest)] = Responds response
        \<and> hr_StatusCode response = 200 \<and> hr_Body response = Inr body \<and> int (length body) \<le> ba_maxResponseBytes a
        \<and> Valid body \<and> decode body = Inr prices \<and> set prices \<subseteq> observed_between first latest P
        \<and> day_of_point ` observed_between first latest P \<subseteq> day_of_point ` set prices))"

text \<open>The days of a request that have an observation no later than its end.\<close>

definition rate_days :: "FetchBarsRequest \<Rightarrow> price_point set \<Rightarrow> time set" where
  "rate_days r P = {d. \<exists>p \<in> P. \<exists>ms. ParseInt (fst p) = Some ms \<and> ms \<le> Unix (fbr_EndTime r) * 1000
     \<and> d = day_start (time_UnixMilli ms) \<and> fbr_StartTime r \<le> d \<and> d < fbr_EndTime r}"

definition rate_bar :: "platform \<Rightarrow> price_point set \<Rightarrow> FetchBarsRequest \<Rightarrow> time \<Rightarrow> ProviderBar \<Rightarrow> bool" where
  "rate_bar pf P r d b \<longleftrightarrow> (\<exists>p \<in> P. \<exists>dp zero ra. point_as pf p dp \<and> day_start (dp_at dp) = d \<and> ParseDecimal pf ''0'' = Inr zero
     \<and> b = day_bar (fbr_Instrument r) zero ra d dp \<and> ProviderBar_ValidateFor b (fbr_Instrument r) = None)"

lemma rate_bar_open: "rate_bar pf P r d b \<Longrightarrow> pb_OpenTime b = d"
  by (auto simp: rate_bar_def day_bar_def Let_def midnight_of_day)

lemma rate_bars_open: "list_all2 (rate_bar pf P r) ds bars \<Longrightarrow> map pb_OpenTime bars = ds"
  by (induction rule: list_all2_induct) (simp_all add: rate_bar_open)

text \<open>The circumstances of a fetch: each observation is a price, and the bar made of it is valid.\<close>

definition chartable :: "platform \<Rightarrow> Adapter \<Rightarrow> FetchBarsRequest \<Rightarrow> price_point set \<Rightarrow> bool" where
  "chartable pf a r P \<longleftrightarrow> FetchBarsRequest_Validate r = None \<and> validateFXReference a (fbr_Instrument r) = None
     \<and> fbr_Interval r = BarInterval1Day \<and> fbr_Limit r \<le> cg_maxBarsPerRequest
     \<and> 0 \<le> Unix (fbr_StartTime r) \<and> Unix (fbr_EndTime r) < 2 ^ 63
     \<and> (\<exists>zero. ParseDecimal pf ''0'' = Inr zero \<and> (\<forall>p \<in> P. \<exists>dp. point_as pf p dp \<and> (\<forall>ra. ra \<noteq> 0 \<longrightarrow>
          ProviderBar_ValidateFor (day_bar (fbr_Instrument r) zero ra (day_start (dp_at dp)) dp) (fbr_Instrument r) = None)))"

lemma rate_days_finite: "finite (rate_days r P)"
  by (rule finite_subset [of _ "{fbr_StartTime r..<fbr_EndTime r}"]) (auto simp: rate_days_def)

lemma point_day: "point_as pf p dp \<Longrightarrow> day_of_point p = day_start (dp_at dp)"
  by (auto simp: point_as_def day_of_point_def)

lemma span_of_day:
  assumes "s \<le> day_start (time_UnixMilli ms)"
  shows "Unix s * 1000 \<le> ms"
proof -
  have "(Unix s + unix_epoch) * Second \<le> s" by (simp add: Unix_def minus_mod_eq_div_mult [symmetric] Second_def)
  also have "\<dots> \<le> time_UnixMilli ms" using assms day_start_bounds(1) by (rule order_trans)
  finally show ?thesis by (simp add: time_UnixMilli_def Millisecond_def Second_def algebra_simps)
qed

lemma answered_days:
  assumes "set prices \<subseteq> observed_between (Unix s) (Unix (fbr_EndTime r)) P"
    and "day_of_point ` observed_between (Unix s) (Unix (fbr_EndTime r)) P \<subseteq> day_of_point ` set prices"
    and "fbr_StartTime r \<le> s"
  shows "{d \<in> day_of_point ` set prices. s \<le> d \<and> d < fbr_EndTime r} = {d \<in> rate_days r P. s \<le> d}"
proof (intro set_eqI iffI)
  fix d assume "d \<in> {d \<in> day_of_point ` set prices. s \<le> d \<and> d < fbr_EndTime r}"
  then obtain p where p: "p \<in> set prices" "d = day_of_point p" "s \<le> d" "d < fbr_EndTime r" by auto
  then obtain ms where "p \<in> P" "ParseInt (fst p) = Some ms" "ms \<le> Unix (fbr_EndTime r) * 1000"
    using assms(1) by (auto simp: observed_between_def)
  moreover from this p(2) have "d = day_start (time_UnixMilli ms)" by (simp add: day_of_point_def)
  ultimately show "d \<in> {d \<in> rate_days r P. s \<le> d}" using p(3,4) assms(3) by (auto simp: rate_days_def)
next
  fix d assume "d \<in> {d \<in> rate_days r P. s \<le> d}"
  then obtain p ms where p: "p \<in> P" "ParseInt (fst p) = Some ms" "ms \<le> Unix (fbr_EndTime r) * 1000"
    "d = day_start (time_UnixMilli ms)" "s \<le> d" "d < fbr_EndTime r" by (auto simp: rate_days_def)
  then have "p \<in> observed_between (Unix s) (Unix (fbr_EndTime r)) P" using span_of_day [of s ms] by (auto simp: observed_between_def)
  moreover have "day_of_point p = d" using p(2,4) by (simp add: day_of_point_def)
  ultimately show "d \<in> {d \<in> day_of_point ` set prices. s \<le> d \<and> d < fbr_EndTime r}" using assms(2) p(5,6) by blast
qed

lemma eligible_sorted:
  assumes "points_ok pf days order (set prices)" "\<forall>p \<in> set prices. \<exists>dp. point_as pf p dp"
  shows "map midnightUTC (eligible_days s en order) = sorted_list_of_set {d \<in> day_of_point ` set prices. s \<le> d \<and> d < en}"
proof -
  let ?el = "eligible_days s en order"
  have order: "set order = {civilDayOf (dp_at dp) | p dp. p \<in> set prices \<and> point_as pf p dp}" "distinct order"
    using assms(1) unfolding points_ok_def by blast+
  have "midnightUTC ` set order = day_of_point ` set prices"
  proof (intro set_eqI iffI)
    fix d assume "d \<in> midnightUTC ` set order"
    then obtain p dp where "p \<in> set prices" "point_as pf p dp" "d = midnightUTC (civilDayOf (dp_at dp))" unfolding order(1) by blast
    then show "d \<in> day_of_point ` set prices" by (metis imageI midnight_of_day point_day)
  next
    fix d assume "d \<in> day_of_point ` set prices"
    then obtain p dp where "p \<in> set prices" "point_as pf p dp" "d = day_of_point p" using assms(2) by blast
    moreover from this have "d = midnightUTC (civilDayOf (dp_at dp))" by (simp only: midnight_of_day point_day)
    ultimately show "d \<in> midnightUTC ` set order" unfolding order(1) by blast
  qed
  moreover have "set (map midnightUTC ?el) = {d \<in> midnightUTC ` set order. s \<le> d \<and> d < en}"
    by (auto simp: eligible_days_def)
  ultimately have "set (map midnightUTC ?el) = {d \<in> day_of_point ` set prices. s \<le> d \<and> d < en}" by simp
  moreover have "inj_on midnightUTC (set order)" unfolding order(1) by (rule inj_onI) (auto simp: midnight_of_day same_day)
  then have "distinct (map midnightUTC ?el)"
    using order(2) by (auto simp: eligible_days_def distinct_map intro: inj_on_subset)
  moreover have "sorted (map midnightUTC ?el)" by (simp add: eligible_days_def sorted_filter)
  ultimately show ?thesis by (metis sorted_distinct_set_unique finite_set sorted_list_of_set)
qed

subsection \<open>One page\<close>

lemma days_loop_bars:
  "\<forall>day \<in> set sel. 0 < midnightUTC day \<and> ProviderBar_ValidateFor (day_bar ref zero ra (midnightUTC day) (the (days day))) ref = None
     \<Longrightarrow> days_loop code ref zero ra days bars sel = Inr (bars @ map (\<lambda>day. day_bar ref zero ra (midnightUTC day) (the (days day))) sel)"
proof (induction sel arbitrary: bars)
  case (Cons day sel)
  have "0 < midnightUTC day + 24 * Hour" using Cons.prems day_values(2) by (simp add: add_pos_pos)
  then show ?case using Cons by (simp add: NewUTCInstant_def IsZero_def Let_def)
qed simp

lemma rate_day:
  assumes "chartable pf a r P" "d \<in> rate_days r P"
  shows "0 \<le> UnixMilli d" "UnixMilli d < 2 ^ 63" "time_UnixMilli (UnixMilli d) = d" "0 < d"
    "fbr_StartTime r \<le> d" "d < fbr_EndTime r" "ParseInt (int_text (UnixMilli d)) = Some (UnixMilli d)"
proof -
  obtain p ms where p: "p \<in> P" "ParseInt (fst p) = Some ms" "d = day_start (time_UnixMilli ms)" "fbr_StartTime r \<le> d" "d < fbr_EndTime r"
    using assms(2) by (auto simp: rate_days_def)
  have "0 < ms" using assms(1) p(1,2) by (fastforce simp: chartable_def point_as_def)
  note ms = day_start_unix [OF this ParseInt_bound [OF p(2)], folded p(3)]
  show "0 \<le> UnixMilli d" "UnixMilli d < 2 ^ 63" "time_UnixMilli (UnixMilli d) = d" "0 < d" by (rule ms)+
  show "fbr_StartTime r \<le> d" "d < fbr_EndTime r" by (rule p(4,5))+
  show "ParseInt (int_text (UnixMilli d)) = Some (UnixMilli d)" by (rule ParseInt_int_text [OF ms(1,2)])
qed

definition rate_cursor :: "time \<Rightarrow> string" where
  "rate_cursor d = barsCursorPrefix @ int_text (UnixMilli d)"

lemma rate_cursor_props:
  assumes "chartable pf a r P" "d \<in> rate_days r P"
  shows "effective_start (r\<lparr>fbr_Cursor := rate_cursor d\<rparr>) = Some d" "rate_cursor d \<noteq> []" "length (rate_cursor d) \<le> 2048"
    "d' \<in> rate_days r P \<Longrightarrow> rate_cursor d = rate_cursor d' \<longleftrightarrow> d = d'"
proof -
  note d = rate_day [OF assms]
  show "effective_start (r\<lparr>fbr_Cursor := rate_cursor d\<rparr>) = Some d" using d
    by (simp add: effective_start_def parseBarsCursor_def rate_cursor_def HasPrefix_def barsCursorPrefix_def)
  show "rate_cursor d \<noteq> []" by (simp add: rate_cursor_def barsCursorPrefix_def)
  show "length (rate_cursor d) \<le> 2048" using int_text_length [OF d(1,2)] by (simp add: rate_cursor_def barsCursorPrefix_def)
  assume "d' \<in> rate_days r P"
  note d' = rate_day [OF assms(1) this]
  show "rate_cursor d = rate_cursor d' \<longleftrightarrow> d = d'" 
  proof
    assume "rate_cursor d = rate_cursor d'"
    then have "int_text (UnixMilli d) = int_text (UnixMilli d')" by (simp add: rate_cursor_def)
    then have "UnixMilli d = UnixMilli d'" using d(7) d'(7) by (metis option.inject)
    then show "d = d'" using d(3) d'(3) by metis
  qed simp
qed

text \<open>The page of the days that are left.\<close>

definition rate_page :: "FetchBarsRequest \<Rightarrow> time list \<Rightarrow> ProviderBar list \<Rightarrow> FetchBarsResult" where
  "rate_page r ds bars = (let more = int (length ds) > fbr_Limit r in
     \<lparr>fbs_Bars = bars, fbs_NextCursor = (if more then rate_cursor (ds ! nat (fbr_Limit r)) else []), fbs_HasMore = more\<rparr>)"

lemma page_loop_rates:
  assumes "list_all2 (rate_bar pf P r) ds bars" "sorted_wrt (<) ds" "\<forall>d \<in> set ds. fbr_StartTime r \<le> d \<and> d < fbr_EndTime r"
    and "\<forall>d \<in> set ds. case previous of None \<Rightarrow> True | Some t \<Rightarrow> t < d" "fbr_Interval r = BarInterval1Day"
  shows "page_bars_loop (r\<lparr>fbr_Cursor := c\<rparr>) previous bars = None"
  using assms(1-4)
proof (induction arbitrary: previous rule: list_all2_induct)
  case (Cons d ds b bars)
  have "page_bars_loop (r\<lparr>fbr_Cursor := c\<rparr>) (Some d) bars = None" using Cons.prems by (intro Cons.IH) auto
  moreover have "ProviderBar_ValidateFor b (fbr_Instrument r) = None" "pb_Interval b = BarInterval1Day"
    using Cons.hyps(1) by (auto simp: rate_bar_def day_bar_def Let_def)
  ultimately show ?case using rate_bar_open [OF Cons.hyps(1)] Cons.prems(2,3) assms(5) by (auto split: option.splits)
qed simp

text \<open>The days that are left at the start of a page, and where its cursor comes from.\<close>

definition left_days :: "FetchBarsRequest \<Rightarrow> price_point set \<Rightarrow> time \<Rightarrow> time list" where
  "left_days r P s = sorted_list_of_set {d \<in> rate_days r P. s \<le> d}"

definition at_page :: "FetchBarsRequest \<Rightarrow> price_point set \<Rightarrow> string \<Rightarrow> time \<Rightarrow> bool" where
  "at_page r P c s \<longleftrightarrow> (c = [] \<and> s = fbr_StartTime r) \<or> (s \<in> rate_days r P \<and> c = rate_cursor s)"

lemma left_days_props:
  "set (left_days r P s) = {d \<in> rate_days r P. s \<le> d}" "sorted_wrt (<) (left_days r P s)"
  using rate_days_finite [of r P] by (simp_all add: left_days_def)

lemma rate_page_valid:
  assumes "chartable pf a r P" "at_page r P c s" "list_all2 (rate_bar pf P r) (take (nat (fbr_Limit r)) (left_days r P s)) bars"
  shows "FetchBarsResult_Validate (rate_page r (left_days r P s) bars) (r\<lparr>fbr_Cursor := c\<rparr>) = None"
proof -
  let ?ds = "left_days r P s" let ?n = "nat (fbr_Limit r)" let ?r = "r\<lparr>fbr_Cursor := c\<rparr>"
  have ok: "FetchBarsRequest_Validate r = None" "fbr_Interval r = BarInterval1Day" using assms(1) by (simp_all add: chartable_def)
  then have limit: "0 < fbr_Limit r" by (simp add: FetchBarsRequest_Validate_def)
  have "length c \<le> 2048" using assms(2) rate_cursor_props(3) [OF assms(1)] by (auto simp: at_page_def)
  then have req: "FetchBarsRequest_Validate ?r = None"
    using ok(1) by (simp add: FetchBarsRequest_Validate_def maximumAdapterCursorLength_def)
  have loop: "page_bars_loop ?r None bars = None"
    using left_days_props [of r P s] rate_day(5,6) [OF assms(1)]
    by (intro page_loop_rates [OF assms(3)]) (auto simp: sorted_wrt_take ok(2) dest!: in_set_takeD)
  have len: "length bars = min (length ?ds) ?n" using list_all2_lengthD [OF assms(3)] by simp
  have new: "rate_cursor (?ds ! ?n) \<noteq> [] \<and> rate_cursor (?ds ! ?n) \<noteq> c \<and> length (rate_cursor (?ds ! ?n)) \<le> 2048" if "?n < length ?ds"
  proof -
    have in_rates: "?ds ! ?n \<in> rate_days r P" using nth_mem [OF that] by (simp add: left_days_props)
    have "?ds ! 0 < ?ds ! ?n" using left_days_props(2) that limit by (simp add: sorted_wrt_iff_nth_less)
    moreover have "?ds ! 0 \<in> set ?ds" using that by (intro nth_mem) linarith
    then have "s \<le> ?ds ! 0" by (simp add: left_days_props)
    ultimately have "?ds ! ?n \<noteq> s" by simp
    then have "rate_cursor (?ds ! ?n) \<noteq> c"
      using assms(2) rate_cursor_props(2,4) [OF assms(1) in_rates] unfolding at_page_def by metis
    with rate_cursor_props(2,3) [OF assms(1) in_rates] show ?thesis by blast
  qed
  show ?thesis
    using new req loop len limit
    by (cases "?n < length ?ds")
       (auto simp: FetchBarsResult_Validate_def rate_page_def maximumAdapterCursorLength_def Let_def)
qed

text \<open>The price the endpoint gives no volume for.\<close>

definition valid_rates :: "platform \<Rightarrow> FetchBarsRequest \<Rightarrow> rat \<Rightarrow> price_point set \<Rightarrow> bool" where
  "valid_rates pf r zero P \<longleftrightarrow> ParseDecimal pf ''0'' = Inr zero \<and> (\<forall>p \<in> P. \<exists>dp. point_as pf p dp \<and> (\<forall>ra. ra \<noteq> 0 \<longrightarrow>
     ProviderBar_ValidateFor (day_bar (fbr_Instrument r) zero ra (day_start (dp_at dp)) dp) (fbr_Instrument r) = None))"

lemma kept_bar:
  assumes "valid_rates pf r zero P" "points_ok pf days order (set prices)" "set prices \<subseteq> P" "ra \<noteq> 0" "day \<in> set order"
  shows "rate_bar pf P r (midnightUTC day) (day_bar (fbr_Instrument r) zero ra (midnightUTC day) (the (days day)))"
proof -
  have "day \<in> dom days" using assms(2,5) unfolding points_ok_def by simp
  then obtain dp where dp: "days day = Some dp" by auto
  then obtain p where p: "civilDayOf (dp_at dp) = day" "p \<in> P" "point_as pf p dp"
    using assms(2,3) unfolding points_ok_def by blast
  obtain dq where "point_as pf p dq"
    "\<forall>ra. ra \<noteq> 0 \<longrightarrow> ProviderBar_ValidateFor (day_bar (fbr_Instrument r) zero ra (day_start (dp_at dq)) dq) (fbr_Instrument r) = None"
    using assms(1) p(2) unfolding valid_rates_def by blast
  moreover from this(1) have "dq = dp" using p(3) by (rule point_as_unique)
  moreover have midnight: "midnightUTC day = day_start (dp_at dp)" using p(1) midnight_of_day by metis
  ultimately have "ProviderBar_ValidateFor (day_bar (fbr_Instrument r) zero ra (midnightUTC day) dp) (fbr_Instrument r) = None"
    using assms(4) by simp
  moreover have "ParseDecimal pf ''0'' = Inr zero" using assms(1) by (simp add: valid_rates_def)
  ultimately show ?thesis using p dp midnight unfolding rate_bar_def by (intro bexI [of _ p] exI [of _ dp] exI [of _ zero] exI [of _ ra]) simp_all
qed

lemma chart_page_rates:
  assumes ok: "chartable pf a r P" and page: "at_page r P c s" and "ra \<noteq> 0" "set prices \<subseteq> P"
    and points: "points_ok pf days order (set prices)"
    and days: "map midnightUTC (eligible_days s (fbr_EndTime r) order) = left_days r P s"
  shows "\<exists>bars. list_all2 (rate_bar pf P r) (take (nat (fbr_Limit r)) (left_days r P s)) bars
    \<and> chart_page pf code (r\<lparr>fbr_Cursor := c\<rparr>) ra days (eligible_days s (fbr_EndTime r) order) = Inr (rate_page r (left_days r P s) bars)"
proof -
  let ?el = "eligible_days s (fbr_EndTime r) order" let ?n = "nat (fbr_Limit r)" let ?ds = "left_days r P s"
  obtain zero where zero: "valid_rates pf r zero P" using ok unfolding chartable_def valid_rates_def by blast
  have limit: "0 < fbr_Limit r" using ok by (simp add: chartable_def FetchBarsRequest_Validate_def)
  let ?bar = "\<lambda>day. day_bar (fbr_Instrument r) zero ra (midnightUTC day) (the (days day))"
  let ?sel = "take ?n ?el" let ?bars = "map ?bar ?sel"
  have day: "rate_bar pf P r (midnightUTC day) (?bar day) \<and> 0 < midnightUTC day" if "day \<in> set ?sel" for day
  proof -
    have el: "day \<in> set ?el" using that by (rule in_set_takeD)
    then have "midnightUTC day \<in> set ?ds" unfolding days [symmetric] by simp
    moreover have "day \<in> set order" using el by (simp add: eligible_days_def)
    ultimately show ?thesis using kept_bar [OF zero points assms(4,3)] rate_day(4) [OF ok] by (simp add: left_days_props)
  qed
  then have loop: "days_loop code (fbr_Instrument r) zero ra days [] ?sel = Inr ?bars"
    by (subst days_loop_bars) (auto simp: rate_bar_def)
  have "list_all2 (rate_bar pf P r) (map midnightUTC ?sel) ?bars"
    unfolding list_all2_map1 list_all2_map2 by (rule list.rel_refl_strong) (use day in blast)
  then have bars: "list_all2 (rate_bar pf P r) (take ?n ?ds) ?bars" by (simp only: take_map [symmetric] days)
  have len: "length ?el = length ?ds" unfolding days [symmetric] by simp
  have sel: "(if int (length ?el) > fbr_Limit r then ?sel else ?el) = ?sel" using limit by simp
  have cursor: "midnightUTC (?el ! ?n) = ?ds ! ?n" if "int (length ?el) > fbr_Limit r"
    unfolding days [symmetric] using that limit by (intro nth_map [symmetric]) simp
  have zero': "ParseDecimal pf ''0'' = Inr zero" using zero by (simp add: valid_rates_def)
  have "rate_page r ?ds ?bars = \<lparr>fbs_Bars = ?bars, fbs_NextCursor = (if int (length ?el) > fbr_Limit r
      then barsCursorPrefix @ int_text (UnixMilli (midnightUTC (?el ! ?n))) else []), fbs_HasMore = int (length ?el) > fbr_Limit r\<rparr>"
    using cursor by (simp add: rate_page_def rate_cursor_def Let_def len)
  then have "chart_page pf code (r\<lparr>fbr_Cursor := c\<rparr>) ra days ?el = Inr (rate_page r ?ds ?bars)"
    using rate_page_valid [OF ok page bars] zero' loop by (simp add: chart_page_def Let_def sel cong: if_cong)
  with bars show ?thesis by blast
qed

lemma at_page_start:
  assumes "chartable pf a r P" "at_page r P c s"
  shows "effective_start (r\<lparr>fbr_Cursor := c\<rparr>) = Some s" "fbr_StartTime r \<le> s" "s < fbr_EndTime r"
    "FetchBarsRequest_Validate (r\<lparr>fbr_Cursor := c\<rparr>) = None"
proof -
  have ok: "FetchBarsRequest_Validate r = None" using assms(1) by (simp add: chartable_def)
  have "length c \<le> 2048" using assms(2) rate_cursor_props(3) [OF assms(1)] by (auto simp: at_page_def)
  then show "FetchBarsRequest_Validate (r\<lparr>fbr_Cursor := c\<rparr>) = None"
    using ok by (simp add: FetchBarsRequest_Validate_def maximumAdapterCursorLength_def)
  have "effective_start (r\<lparr>fbr_Cursor := c\<rparr>) = Some s \<and> fbr_StartTime r \<le> s \<and> s < fbr_EndTime r"
  proof (cases "s \<in> rate_days r P \<and> c = rate_cursor s")
    case True
    then show ?thesis using rate_cursor_props(1) [OF assms(1)] rate_day(5,6) [OF assms(1)] by blast
  next
    case False
    then show ?thesis using assms(2) ok by (auto simp: at_page_def effective_start_def FetchBarsRequest_Validate_def)
  qed
  then show "effective_start (r\<lparr>fbr_Cursor := c\<rparr>) = Some s" "fbr_StartTime r \<le> s" "s < fbr_EndTime r" by blast+
qed

lemma Unix_mono: "s \<le> t \<Longrightarrow> Unix s \<le> Unix t"
  by (simp add: Unix_def zdiv_mono1 Second_def)

lemma cg_FetchBars_page:
  assumes ok: "chartable pf a r P" and page: "at_page r P c s"
    and nw: "answers_chart Valid decode a (fbr_Instrument r) P nw" "nw_now nw \<noteq> 0"
  shows "\<exists>bars. list_all2 (rate_bar pf P r) (take (nat (fbr_Limit r)) (left_days r P s)) bars
    \<and> cg_FetchBars pf Valid decode nw a (r\<lparr>fbr_Cursor := c\<rparr>) = Inr (rate_page r (left_days r P s) bars)"
proof -
  let ?r = "r\<lparr>fbr_Cursor := c\<rparr>"
  note start = at_page_start [OF ok page]
  have span: "0 \<le> Unix s" "Unix s \<le> Unix (fbr_EndTime r)" "Unix (fbr_EndTime r) < 2 ^ 63"
    using start(3) Unix_mono [OF start(2)] ok by (simp_all add: Unix_mono chartable_def)
  obtain response body prices where answer:
    "nw_Do nw (chart_path (ref_ExternalSymbol (fbr_Instrument r))) (chart_query ?r s) = Responds response"
    "hr_StatusCode response = 200" "hr_Body response = Inr body" "int (length body) \<le> ba_maxResponseBytes a" "Valid body"
    "decode body = Inr prices" "set prices \<subseteq> observed_between (Unix s) (Unix (fbr_EndTime r)) P"
    "day_of_point ` observed_between (Unix s) (Unix (fbr_EndTime r)) P \<subseteq> day_of_point ` set prices"
    using nw(1) [unfolded answers_chart_def, rule_format, OF span] by (auto simp: chart_query_def)
  have get: "doGet Valid nw a (chart_path (ref_ExternalSymbol (fbr_Instrument r))) (chart_query ?r s) = Inr body"
    using answer(1-5) by (simp add: doGet_def Let_def)
  have sub: "set prices \<subseteq> P" using answer(7) by (auto simp: observed_between_def)
  then have mapped: "\<forall>p \<in> set prices. \<exists>dp. point_as pf p dp" using ok unfolding chartable_def by blast
  have "points_ok pf Map.empty [] {}" by (simp add: points_ok_def)
  from points_loop_ok [OF this mapped, of "ba_providerCode a"] obtain days order where
    points: "points_loop pf (ba_providerCode a) Map.empty [] prices = Inr (days, order)" "points_ok pf days order (set prices)" by auto
  have "map midnightUTC (eligible_days s (fbr_EndTime r) order) = left_days r P s"
    using eligible_sorted [OF points(2) mapped, of s "fbr_EndTime r"] answered_days [OF answer(7,8) start(2)]
    by (simp add: left_days_def)
  from chart_page_rates [OF ok page nw(2) sub points(2) this, of "ba_providerCode a"] obtain bars where
    bars: "list_all2 (rate_bar pf P r) (take (nat (fbr_Limit r)) (left_days r P s)) bars"
      "chart_page pf (ba_providerCode a) ?r (nw_now nw) days (eligible_days s (fbr_EndTime r) order) = Inr (rate_page r (left_days r P s) bars)"
    by blast
  have "bars_of_chart pf nw a ?r s prices = Inr (rate_page r (left_days r P s) bars)"
    using nw(2) points(1) bars(2) by (simp add: bars_of_chart_def NewUTCInstant_def IsZero_def Let_def)
  then have "cg_FetchBars pf Valid decode nw a ?r = Inr (rate_page r (left_days r P s) bars)"
    using ok start(1,4) get answer(6) by (simp add: cg_FetchBars_def chartable_def Let_def)
  with bars(1) show ?thesis by blast
qed

subsection \<open>All pages\<close>

lemma left_days_next:
  assumes "fbr_Limit r > 0" "n = nat (fbr_Limit r)" "n < length (left_days r P s)"
  shows "left_days r P (left_days r P s ! n) = drop n (left_days r P s)"
proof -
  let ?ds = "left_days r P s" let ?d = "?ds ! n"
  have sorted: "sorted_wrt (<) ?ds" by (rule left_days_props)
  have "s \<le> ?d" using nth_mem [OF assms(3)] by (simp add: left_days_props)
  then have "set (left_days r P ?d) = {d \<in> set ?ds. ?d \<le> d}" by (auto simp: left_days_props)
  also have "\<dots> = set (drop n ?ds)"
  proof (intro set_eqI iffI)
    fix d assume "d \<in> {d \<in> set ?ds. ?d \<le> d}"
    then obtain i where i: "i < length ?ds" "d = ?ds ! i" "?d \<le> ?ds ! i" by (auto simp: in_set_conv_nth)
    then have "n \<le> i" using sorted assms(3) by (meson leD linorder_not_le sorted_wrt_iff_nth_less)
    then show "d \<in> set (drop n ?ds)" using i by (auto simp: in_set_conv_nth intro!: exI [of _ "i - n"])
  next
    fix d assume "d \<in> set (drop n ?ds)"
    then obtain i where "i < length (drop n ?ds)" "d = drop n ?ds ! i" by (metis in_set_conv_nth)
    then have i: "n + i < length ?ds" "d = ?ds ! (n + i)" by simp_all
    then have "?d \<le> d" using sorted by (cases "i = 0") (auto simp: sorted_wrt_iff_nth_less less_imp_le)
    with i show "d \<in> {d \<in> set ?ds. ?d \<le> d}" by auto
  qed
  finally have "set (left_days r P ?d) = set (drop n ?ds)" .
  moreover have "sorted_wrt (<) (left_days r P ?d)" "sorted_wrt (<) (drop n ?ds)" using sorted left_days_props(2) by (simp_all add: sorted_wrt_drop)
  ultimately show ?thesis by (simp only: strict_sorted_iff) (metis sorted_distinct_set_unique)
qed

lemma fetch_loop_rates:
  assumes ok: "chartable pf a r P" and reg: "Registry_ValidateBarsRequest reg r = None"
    and env: "\<And>i. env_ctx_page env i = None" "\<And>i. env_fetch env i = cg_FetchBars pf Valid decode (nw i) a"
    and nw: "\<And>i. answers_chart Valid decode a (fbr_Instrument r) P (nw i)" "\<And>i. nw_now (nw i) \<noteq> 0"
    and page: "at_page r P c s" and fuel: "0 < left" "int (length (left_days r P s)) \<le> int left * fbr_Limit r"
    and fresh: "set (left_days r P s) \<inter> seen = {}"
  shows "\<exists>new. list_all2 (rate_bar pf P r) (left_days r P s) new
    \<and> fetch_loop reg env page_number left seen bars (r\<lparr>fbr_Cursor := c\<rparr>) = Inr (sort_key pb_OpenTime (bars @ new))"
  using page fuel fresh
proof (induction left arbitrary: page_number seen bars c s)
  case (Suc left)
  let ?r = "r\<lparr>fbr_Cursor := c\<rparr>" let ?ds = "left_days r P s" let ?n = "nat (fbr_Limit r)"
  have limit: "0 < fbr_Limit r" using ok by (simp add: chartable_def FetchBarsRequest_Validate_def)
  obtain now where now: "list_all2 (rate_bar pf P r) (take ?n ?ds) now"
    "cg_FetchBars pf Valid decode (nw page_number) a ?r = Inr (rate_page r ?ds now)"
    using cg_FetchBars_page [OF ok Suc.prems(1) nw(1) nw(2)] by blast
  have "FetchBarsRequest_Validate ?r = None" using at_page_start(4) [OF ok Suc.prems(1)] .
  then have valid: "Registry_ValidateBarsRequest reg ?r = None" "FetchBarsResult_Validate (rate_page r ?ds now) ?r = None"
    using reg rate_page_valid [OF ok Suc.prems(1) now(1)]
    by (auto simp: Registry_ValidateBarsRequest_def split: option.split_asm sum.split_asm if_split_asm)
  have opens: "map pb_OpenTime now = take ?n ?ds" by (rule rate_bars_open [OF now(1)])
  then have opened: "pb_OpenTime ` set now = set (take ?n ?ds)" by (metis set_map)
  have distinct: "distinct ?ds" using left_days_props(2) [of r P s] by (simp only: strict_sorted_iff)
  have collect: "collect_bars seen bars now = Inr (seen \<union> set (take ?n ?ds), bars @ now)"
    using Suc.prems(4) distinct by (auto simp: collect_bars_Inr_iff opens opened dest: in_set_takeD)
  show ?case
  proof (cases "?n < length ?ds")
    case False
    then have "\<not> fbs_HasMore (rate_page r ?ds now)" "take ?n ?ds = ?ds" using limit by (simp_all add: rate_page_def Let_def)
    then show ?thesis using now valid collect by (intro exI [of _ now]) (simp add: env rate_page_def Let_def)
  next
    case True
    let ?d = "?ds ! ?n"
    have more: "fbr_Limit r < int (length ?ds)" using True limit by linarith
    have rest: "left_days r P ?d = drop ?n ?ds" by (rule left_days_next [OF limit refl True])
    have "at_page r P (rate_cursor ?d) ?d" using nth_mem [OF True] by (simp add: at_page_def left_days_props)
    moreover have "int (length (left_days r P ?d)) \<le> int left * fbr_Limit r" using Suc.prems(3) limit True
      by (simp add: rest algebra_simps)
    moreover from this have "0 < left" using True limit by (cases left) (simp_all add: rest)
    moreover have "set (left_days r P ?d) \<inter> (seen \<union> set (take ?n ?ds)) = {}"
      using Suc.prems(4) distinct set_take_disj_set_drop_if_distinct [OF distinct order_refl, of ?n] by (auto simp: rest dest: in_set_dropD)
    ultimately have "\<exists>later. list_all2 (rate_bar pf P r) (left_days r P ?d) later
        \<and> fetch_loop reg env (page_number + 1) left (seen \<union> set (take ?n ?ds)) (bars @ now) (r\<lparr>fbr_Cursor := rate_cursor ?d\<rparr>)
          = Inr (sort_key pb_OpenTime ((bars @ now) @ later))" by (intro Suc.IH)
    then obtain later where later: "list_all2 (rate_bar pf P r) (drop ?n ?ds) later"
      "fetch_loop reg env (page_number + 1) left (seen \<union> set (take ?n ?ds)) (bars @ now) (r\<lparr>fbr_Cursor := rate_cursor ?d\<rparr>)
         = Inr (sort_key pb_OpenTime ((bars @ now) @ later))"
      unfolding rest by blast
    have "list_all2 (rate_bar pf P r) ?ds (now @ later)" using list_all2_appendI [OF now(1) later(1)] by simp
    moreover have "fetch_loop reg env page_number (Suc left) seen bars ?r = Inr (sort_key pb_OpenTime (bars @ now @ later))"
      using now(2) valid collect later(2) more by (simp add: env rate_page_def Let_def)
    ultimately show ?thesis by blast
  qed
qed simp


subsection \<open>A sample exchange\<close>

text \<open>One price at noon of each of three days; a request for the last two days, one per page.\<close>

definition sample_point :: "int \<Rightarrow> price_point" where
  "sample_point n = (int_text (n * 86400000 + 43200000), ''1'')"

definition sample_points :: "price_point set" where
  "sample_points = sample_point ` {1, 2, 3}"

definition fx_adapter :: Adapter where
  "fx_adapter = sample_adapter\<lparr>ba_providerCode := ''coingecko''\<rparr>"

definition fx_ref :: ProviderInstrumentRef where
  "fx_ref = (fbr_Instrument sample_request)\<lparr>ref_ProviderCode := ''coingecko'', ref_ProviderMarket := fxMarket, ref_AssetType := ''FX'',
     ref_InstrumentType := ''FX'', ref_ExternalSymbol := ''tether'', ref_QuoteCurrency := ''USD''\<rparr>"

definition fx_request :: FetchBarsRequest where
  "fx_request = sample_request\<lparr>fbr_Instrument := fx_ref, fbr_Interval := BarInterval1Day,
     fbr_StartTime := time_UnixMilli (2 * 86400000), fbr_EndTime := time_UnixMilli (4 * 86400000), fbr_Limit := 1\<rparr>"

lemma fx_valid: "FetchBarsRequest_Validate fx_request = None" "validateFXReference fx_adapter fx_ref = None"
  by code_simp+

lemma fx_price: "parseDecimalFromNumber decimal_platform ''1'' = Inr 1" "ParseDecimal decimal_platform ''0'' = Inr 0"
  by code_simp+

lemma sample_point_as:
  assumes "n \<in> {1, 2, 3}"
  shows "point_as decimal_platform (sample_point n) \<lparr>dp_price = 1, dp_at = time_UnixMilli (n * 86400000 + 43200000),
    dp_raw = JArray [number_json (int_text (n * 86400000 + 43200000)), number_json ''1'']\<rparr>"
proof -
  have "ParseInt (int_text (n * 86400000 + 43200000)) = Some (n * 86400000 + 43200000)"
    using assms by (intro ParseInt_int_text) auto
  then show ?thesis using assms fx_price by (auto simp: point_as_def sample_point_def)
qed

lemma valid_at_any_time:
  assumes "ProviderBar_ValidateFor (day_bar ref zero 1 openTime (dp\<lparr>dp_raw := JNull\<rparr>)) ref = None" "ra \<noteq> 0"
  shows "ProviderBar_ValidateFor (day_bar ref zero ra openTime dp) ref = None"
  using assms
  by (simp add: ProviderBar_ValidateFor_def ProviderBar_Validate_def day_bar_def NewBar_def Let_def Bar_Validate_def IsZero_def Bar_Source_def
      checked_def synthetic_payload_def validOptionalJSON_def json_Valid_def split: option.splits)

lemma noon_day: "n \<in> {1, 2, 3} \<Longrightarrow> day_start (time_UnixMilli (n * 86400000 + 43200000)) = time_UnixMilli (n * 86400000)"
  by (auto simp: day_start_def time_UnixMilli_def Millisecond_def unix_epoch_def Second_def Hour_def Minute_def)

lemma sample_chartable: "chartable decimal_platform fx_adapter fx_request sample_points"
proof -
  have valid: "\<forall>n \<in> set [1, 2, 3 :: int]. ProviderBar_ValidateFor (day_bar fx_ref 0 1 (time_UnixMilli (n * 86400000))
      \<lparr>dp_price = 1, dp_at = time_UnixMilli (n * 86400000 + 43200000), dp_raw = JNull\<rparr>) fx_ref = None" by code_simp
  have "\<exists>dp. point_as decimal_platform p dp \<and> (\<forall>ra. ra \<noteq> 0 \<longrightarrow>
      ProviderBar_ValidateFor (day_bar fx_ref 0 ra (day_start (dp_at dp)) dp) fx_ref = None)" if "p \<in> sample_points" for p
  proof -
    from that obtain n where n: "p = sample_point n" "n \<in> {1, 2, 3}" unfolding sample_points_def by blast
    then have "n \<in> set [1, 2, 3]" by simp
    note now = bspec [OF valid this]
    show ?thesis unfolding n(1)
      by (intro exI conjI allI impI, rule sample_point_as [OF n(2)], rule valid_at_any_time) (use now noon_day [OF n(2)] in simp_all)
  qed
  moreover have "fbr_Instrument fx_request = fx_ref" "fbr_Interval fx_request = BarInterval1Day" "fbr_Limit fx_request = 1"
    "fbr_StartTime fx_request = time_UnixMilli (2 * 86400000)" "fbr_EndTime fx_request = time_UnixMilli (4 * 86400000)"
    by (simp_all add: fx_request_def)
  ultimately show ?thesis using fx_valid fx_price(2)
    by (simp add: chartable_def cg_maxBarsPerRequest_def Unix_def time_UnixMilli_def Millisecond_def unix_epoch_def Second_def)
qed

lemma ParseInt_sample_point: "n \<in> {1, 2, 3} \<Longrightarrow> ParseInt (fst (sample_point n)) = Some (n * 86400000 + 43200000)"
  unfolding sample_point_def fst_conv by (intro ParseInt_int_text) auto

lemma sample_rate_days: "rate_days fx_request sample_points = {time_UnixMilli (2 * 86400000), time_UnixMilli (3 * 86400000)}"
proof -
  have points: "(\<exists>p \<in> sample_points. \<exists>ms. ParseInt (fst p) = Some ms \<and> Q ms) \<longleftrightarrow> (\<exists>n \<in> {1, 2, 3}. Q (n * 86400000 + 43200000))" for Q
    unfolding sample_points_def bex_simps(7) by (rule bex_cong [OF refl]) (simp add: ParseInt_sample_point)
  have "rate_days fx_request sample_points = {d. \<exists>n \<in> {1, 2, 3}. n * 86400000 + 43200000 \<le> Unix (fbr_EndTime fx_request) * 1000
      \<and> d = day_start (time_UnixMilli (n * 86400000 + 43200000)) \<and> fbr_StartTime fx_request \<le> d \<and> d < fbr_EndTime fx_request}"
    unfolding rate_days_def points by (rule refl)
  also have "\<dots> = {d. \<exists>n \<in> {1, 2, 3}. n * 86400000 + 43200000 \<le> Unix (fbr_EndTime fx_request) * 1000
      \<and> d = time_UnixMilli (n * 86400000) \<and> fbr_StartTime fx_request \<le> d \<and> d < fbr_EndTime fx_request}"
    by (intro Collect_cong bex_cong [OF refl]) (simp add: noon_day)
  also have "\<dots> = {time_UnixMilli (2 * 86400000), time_UnixMilli (3 * 86400000)}"
    by (auto simp: fx_request_def Unix_def time_UnixMilli_def Millisecond_def unix_epoch_def Second_def)
  finally show ?thesis .
qed

text \<open>Its bodies name the days of the points.\<close>

definition noon_days :: "int \<Rightarrow> int \<Rightarrow> nat list" where
  "noon_days first latest =
     filter (\<lambda>n. first * 1000 \<le> int n * 86400000 + 43200000 \<and> int n * 86400000 + 43200000 \<le> latest * 1000) [1, 2, 3]"

definition fx_network :: network where
  "fx_network = \<lparr>nw_Do = (\<lambda>path query. let first = the (ParseInt (the (map_of query ''from''))); latest = the (ParseInt (the (map_of query ''to''))) in
     Responds \<lparr>hr_StatusCode = 200, hr_Header = (\<lambda>h. []), hr_Body = Inr (map char_of (noon_days first latest))\<rparr>),
     nw_ctx = None, nw_now = time_UnixMilli (5 * 86400000), nw_ParseTime = (\<lambda>t. None)\<rparr>"

definition fx_decode :: "string \<Rightarrow> error + price_point list" where
  "fx_decode body = Inr (map (\<lambda>c. sample_point (int (of_char c))) body)"

lemma sample_answers_chart: "answers_chart (\<lambda>body. True) fx_decode fx_adapter fx_ref sample_points fx_network"
  unfolding answers_chart_def
proof (intro allI impI)
  fix first latest :: int assume a: "0 \<le> first" "first \<le> latest" "latest < 2 ^ 63"
  let ?ns = "noon_days first latest" let ?prices = "map (\<lambda>n. sample_point (int n)) ?ns"
  have p: "ParseInt (int_text first) = Some first" "ParseInt (int_text latest) = Some latest" using a by (auto intro: ParseInt_int_text)
  have do_it: "nw_Do fx_network (chart_path (ref_ExternalSymbol fx_ref)) [(''vs_currency'', lower_ascii (ref_QuoteCurrency fx_ref)),
      (''from'', int_text first), (''to'', int_text latest)]
    = Responds \<lparr>hr_StatusCode = 200, hr_Header = (\<lambda>h. []), hr_Body = Inr (map char_of ?ns)\<rparr>" by (simp add: fx_network_def p)
  have small: "\<forall>n \<in> set ?ns. n \<in> {1, 2, 3}" "length ?ns \<le> 3" by (auto simp: noon_days_def)
  have "map (\<lambda>n. sample_point (int (of_char (char_of n)))) ?ns = ?prices" by (rule map_cong [OF refl]) (use small(1) in auto)
  then have decoded: "fx_decode (map char_of ?ns) = Inr ?prices" by (simp add: fx_decode_def comp_def)
  have "observed_between first latest sample_points = sample_point ` {n \<in> {1, 2, 3}. first * 1000 \<le> n * 86400000 + 43200000 \<and> n * 86400000 + 43200000 \<le> latest * 1000}"
    using ParseInt_sample_point by (auto simp: observed_between_def sample_points_def)
  also have "\<dots> = set ?prices" by (auto simp: noon_days_def)
  finally have "set ?prices = observed_between first latest sample_points" by (rule sym)
  moreover have "length (map char_of ?ns :: string) \<le> 3" using small(2) by simp
  ultimately show "\<exists>response body prices. nw_Do fx_network (chart_path (ref_ExternalSymbol fx_ref)) [(''vs_currency'', lower_ascii (ref_QuoteCurrency fx_ref)),
      (''from'', int_text first), (''to'', int_text latest)] = Responds response \<and> hr_StatusCode response = 200 \<and> hr_Body response = Inr body
      \<and> int (length body) \<le> ba_maxResponseBytes fx_adapter \<and> True \<and> fx_decode body = Inr prices
      \<and> set prices \<subseteq> observed_between first latest sample_points
      \<and> day_of_point ` observed_between first latest sample_points \<subseteq> day_of_point ` set prices"
    using do_it decoded
    by (intro exI [of _ "\<lparr>hr_StatusCode = 200, hr_Header = (\<lambda>h. []), hr_Body = Inr (map char_of ?ns)\<rparr>"] exI [of _ "map char_of ?ns"]
        exI [of _ ?prices] conjI) (simp_all add: fx_adapter_def sample_adapter_def)
qed

definition fx_registry :: Registry where
  "fx_registry = (case cg_Capabilities None fx_adapter of
     Inr caps \<Rightarrow> (let adapter = \<lparr>ad_key = 0, ad_ProviderCode = ''coingecko'', ad_Capabilities = Inr caps\<rparr> in
       \<lparr>reg_entries = (\<lambda>c. if c = ''coingecko'' then Some \<lparr>re_adapter = adapter, re_capabilities = caps\<rparr> else None), reg_ordered = [adapter]\<rparr>)
   | Inl _ \<Rightarrow> sample_registry)"

definition fx_env :: env where
  "fx_env = sample_env\<lparr>env_fetch := (\<lambda>i. cg_FetchBars decimal_platform (\<lambda>body. True) fx_decode fx_network fx_adapter)\<rparr>"


end
