(* ===== verification/AdapterErrors.thy ===== *)
theory AdapterErrors
  imports BybitPages CoinGecko
begin

text \<open>
  The error contract of the adapters over HTTP: a failure of any operation is the cancellation of the caller or
  a classified provider error of the adapter's own provider, as long as the delay of \<^verbatim>\<open>Retry-After\<close> fits a
  duration; a delay that does not fit loses the classification.
\<close>

text \<open>A message that may be shown and stored; all messages of the adapters are printable ASCII texts.\<close>

definition safe_message :: "string \<Rightarrow> bool" where
  "safe_message m \<longleftrightarrow> m \<noteq> [] \<and> TrimSpace m = m \<and> RuneCountInString m \<le> 512"

lemma safe_printing:
  "m \<noteq> [] \<Longrightarrow> printing (hd m) \<Longrightarrow> printing (last m) \<Longrightarrow> length m \<le> 512 \<Longrightarrow> safe_message m"
  using TrimSpace_printing [of m] length_runes [of "map byte m"] by (simp add: safe_message_def RuneCountInString_def)

lemmas message_simps = safe_printing printing_def

text \<open>An error classified for the provider with one of some codes.\<close>

definition provider_classified :: "Code \<Rightarrow> string set \<Rightarrow> error \<Rightarrow> bool" where
  "provider_classified provider codes e \<longleftrightarrow> (\<exists>p. AsProviderError e = Some p \<and> pe_ProviderCode p = provider \<and> pe_Code p \<in> codes
     \<and> (\<forall>d. pe_RetryAfter p = Some d \<longrightarrow> 0 < d))"

lemma classified_mono: "provider_classified provider codes e \<Longrightarrow> codes \<subseteq> codes' \<Longrightarrow> provider_classified provider codes' e"
  by (auto simp: provider_classified_def)

lemma providerError_classified:
  assumes "provider \<noteq> []" "safe_message m" "c \<in> set provider_error_codes"
    and "\<And>d. after = Some d \<Longrightarrow> 0 < d \<and> Retryable c"
  shows "provider_classified provider {c} (providerError provider c m after cause)"
proof -
  have "ProviderError_Validate \<lparr>pe_ProviderCode = provider, pe_Code = c, pe_Message = m, pe_RetryAfter = after, pe_Cause = cause\<rparr> = None"
    using assms by (cases after) (auto simp: safe_message_def ProviderError_Validate_def ParseProviderErrorCode_def Code_IsZero_def guard_def)
  then show ?thesis using assms(4)
    by (auto simp: provider_classified_def providerError_def NewProviderError_def AsProviderError_def checked_def)
qed

definition adapter_codes :: "string set" where "adapter_codes = set provider_error_codes"

lemma plain_classified:
  assumes "provider \<noteq> []" "safe_message m"
  shows "provider_classified provider adapter_codes (badRequestError provider m cause)"
    "provider_classified provider adapter_codes (invalidInstrumentError provider m cause)"
    "provider_classified provider adapter_codes (invalidResponseError provider m cause)"
    "c \<in> set provider_error_codes \<Longrightarrow> provider_classified provider adapter_codes (providerError provider c m None cause)"
  unfolding badRequestError_def invalidInstrumentError_def invalidResponseError_def adapter_codes_def
  by (rule classified_mono [OF providerError_classified]; use assms in \<open>simp add: provider_error_codes_def message_simps\<close>)+

subsection \<open>Delays\<close>

definition retry_after_fits :: "(string \<Rightarrow> string) \<Rightarrow> bool" where
  "retry_after_fits header \<longleftrightarrow> (case ParseInt (TrimSpace (header ''Retry-After'')) of None \<Rightarrow> True | Some s \<Rightarrow> s * Second < 2 ^ 63)"

lemma retryAfter_positive:
  assumes "retry_after_fits header" "retryAfterHeader ParseTime header now = Some d"
  shows "0 < d"
proof -
  have "0 < wrap64 (s * Second)" if "0 < s" "ParseInt (TrimSpace (header ''Retry-After'')) = Some s" for s
  proof -
    have "0 < s * Second" using that(1) by (simp add: Second_def)
    moreover have "s * Second < 2 ^ 63" using assms(1) that(2) by (simp add: retry_after_fits_def)
    ultimately show ?thesis by (simp add: wrap64_id)
  qed
  then show ?thesis using assms(2) by (auto simp: retryAfterHeader_def Let_def split: option.split_asm if_split_asm)
qed

lemma retryDelay_positive:
  "retry_after_fits header \<Longrightarrow> 0 < fallback \<Longrightarrow> 0 < retryDelay ParseTime header now fallback"
  using retryAfter_positive [of header ParseTime now]
  by (auto simp: retryDelay_def Let_def split: option.split)

lemma delayed_classified:
  assumes "provider \<noteq> []" "safe_message m" "0 < d"
  shows "provider_classified provider adapter_codes (providerError provider ''rate_limited'' m (Some d) cause)"
  unfolding adapter_codes_def
  by (rule classified_mono [OF providerError_classified])
     (use assms in \<open>auto simp: provider_error_codes_def Retryable_def\<close>)

subsection \<open>The operations\<close>

lemma classifyHTTPError_classified:
  "provider \<noteq> [] \<Longrightarrow> retry_after_fits (hr_Header response)
     \<Longrightarrow> provider_classified provider adapter_codes (classifyHTTPError ParseTime provider now response body)"
  unfolding classifyHTTPError_def Let_def
  by (simp add: plain_classified delayed_classified retryDelay_positive message_simps provider_error_codes_def)

lemma classifyRetCode_classified:
  "provider \<noteq> [] \<Longrightarrow> retry_after_fits header
     \<Longrightarrow> provider_classified provider adapter_codes (classifyRetCode ParseTime provider now header retCode retMessage)"
  unfolding classifyRetCode_def Let_def
  by (simp add: plain_classified delayed_classified retryDelay_positive message_simps provider_error_codes_def)

definition adapter_failure :: "network \<Rightarrow> Adapter \<Rightarrow> error \<Rightarrow> bool" where
  "adapter_failure nw a e \<longleftrightarrow> nw_ctx nw = Some e \<or> provider_classified (ba_providerCode a) adapter_codes e"

definition fitting_network :: "network \<Rightarrow> bool" where
  "fitting_network nw \<longleftrightarrow> (\<forall>path query response. nw_Do nw path query = Responds response \<longrightarrow> retry_after_fits (hr_Header response))"

lemma adapter_failure_plain:
  assumes "ba_providerCode a \<noteq> []" "safe_message m"
  shows "adapter_failure nw a (badRequestError (ba_providerCode a) m cause)"
    "adapter_failure nw a (invalidInstrumentError (ba_providerCode a) m cause)"
    "adapter_failure nw a (invalidResponseError (ba_providerCode a) m cause)"
    "adapter_failure nw a (providerError (ba_providerCode a) ''network'' m None cause)"
  using assms by (simp_all add: adapter_failure_def plain_classified provider_error_codes_def)

lemma adapter_failure_interval:
  "ba_providerCode a \<noteq> [] \<Longrightarrow> adapter_failure nw a (unsupportedIntervalError (ba_providerCode a) cause)"
  by (simp add: adapter_failure_def unsupportedIntervalError_def plain_classified provider_error_codes_def message_simps)

lemma adapter_failure_ctx: "nw_ctx nw = Some e \<Longrightarrow> adapter_failure nw a e"
  by (simp add: adapter_failure_def)

lemmas failure_simps = adapter_failure_plain adapter_failure_interval message_simps

lemma getJSON_failure:
  assumes "ba_providerCode a \<noteq> []" "fitting_network nw" "getJSON decode nw a path query = Inl e"
  shows "adapter_failure nw a e"
  using assms(3) assms(1) spec [OF spec [OF spec [OF assms(2) [unfolded fitting_network_def]]], of path query]
  by (auto simp: getJSON_def Let_def failure_simps adapter_failure_def [of nw a "classifyHTTPError _ _ _ _ _"]
      adapter_failure_def [of nw a "classifyRetCode _ _ _ _ _ _"] classifyHTTPError_classified classifyRetCode_classified
      intro: adapter_failure_ctx
      split: http_outcome.split_asm option.split_asm sum.split_asm if_split_asm decoded.split_asm)

lemma validateSpotReference_failure:
  "ba_providerCode a \<noteq> [] \<Longrightarrow> validateSpotReference a r = Some e \<Longrightarrow> adapter_failure nw a e"
  by (auto simp: validateSpotReference_def failure_simps split: option.split_asm if_split_asm)

lemma klines_loop_failure:
  "ba_providerCode a \<noteq> [] \<Longrightarrow> klines_loop pf a r duration pt ra seen bars raws = Inl e \<Longrightarrow> adapter_failure nw a e"
  by (induction raws arbitrary: seen bars) (auto simp: failure_simps split: sum.split_asm if_split_asm)

lemma bars_of_envelope_failure:
  "ba_providerCode a \<noteq> [] \<Longrightarrow> bars_of_envelope pf nw a r duration envelope = Inl e \<Longrightarrow> adapter_failure nw a e"
  unfolding bars_of_envelope_def Let_def bind_result_def
  by (auto simp: failure_simps dest: klines_loop_failure split: sum.split_asm option.split_asm if_split_asm)

lemma FetchBars_failure:
  assumes "ba_providerCode a \<noteq> []" "fitting_network nw" "FetchBars pf decode nw a r = Inl e"
  shows "adapter_failure nw a e"
  using assms(3) assms(1) unfolding FetchBars_def Let_def bind_result_def
  by (auto simp: failure_simps split: sum.split_asm option.split_asm if_split_asm prod.split_asm
      dest: validateSpotReference_failure bars_of_envelope_failure getJSON_failure [OF assms(1,2)])

lemma requested_loop_failure:
  "ba_providerCode a \<noteq> [] \<Longrightarrow> requested_loop a requested refs = Inl e \<Longrightarrow> adapter_failure nw a e"
  by (induction refs arbitrary: requested) (auto simp: failure_simps dest: validateSpotReference_failure split: option.split_asm if_split_asm)

lemma validateSpotReferences_failure:
  "ba_providerCode a \<noteq> [] \<Longrightarrow> validateSpotReferences a refs n = Inl e \<Longrightarrow> adapter_failure nw a e"
  by (auto simp: validateSpotReferences_def failure_simps dest: requested_loop_failure split: option.split_asm if_split_asm)

lemma tickers_loop_failure:
  "ba_providerCode a \<noteq> [] \<Longrightarrow> tickers_loop pf a single requested mt ra seen quotes raws = Inl e \<Longrightarrow> adapter_failure nw a e"
  by (induction raws arbitrary: seen quotes)
     (auto simp: Let_def failure_simps split: sum.split_asm option.split_asm if_split_asm)

lemma FetchLatestQuotes_failure:
  assumes "ba_providerCode a \<noteq> []" "fitting_network nw" "FetchLatestQuotes pf decode nw a refs = Inl e"
  shows "adapter_failure nw a e"
  using assms(3) assms(1) unfolding FetchLatestQuotes_def Let_def bind_result_def
  by (auto simp: failure_simps split: sum.split_asm option.split_asm if_split_asm
      dest: validateSpotReferences_failure tickers_loop_failure getJSON_failure [OF assms(1,2)])

subsection \<open>CoinGecko\<close>

lemma cg_classifyHTTPError_classified:
  assumes "provider \<noteq> []" "retry_after_fits (hr_Header response)"
  shows "provider_classified provider adapter_codes (cg_classifyHTTPError ParseTime provider now response body)"
proof -
  have "0 < cg_retryDelay ParseTime (hr_Header response) now Minute"
    using retryAfter_positive [OF assms(2), of ParseTime now] by (auto simp: cg_retryDelay_def split: option.split)
  then show ?thesis
    unfolding cg_classifyHTTPError_def Let_def
    using assms by (simp add: plain_classified delayed_classified message_simps provider_error_codes_def)
qed

lemma doGet_failure:
  assumes "ba_providerCode a \<noteq> []" "fitting_network nw" "doGet Valid nw a path query = Inl e"
  shows "adapter_failure nw a e"
  using assms(3) assms(1) spec [OF spec [OF spec [OF assms(2) [unfolded fitting_network_def]]], of path query]
  by (auto simp: doGet_def Let_def failure_simps adapter_failure_def [of nw a "cg_classifyHTTPError _ _ _ _ _"]
      cg_classifyHTTPError_classified intro: adapter_failure_ctx
      split: http_outcome.split_asm option.split_asm sum.split_asm if_split_asm)

lemma validateFXReference_failure:
  "ba_providerCode a \<noteq> [] \<Longrightarrow> validateFXReference a r = Some e \<Longrightarrow> adapter_failure nw a e"
  by (auto simp: validateFXReference_def failure_simps split: option.split_asm if_split_asm)

lemma points_loop_failure:
  "ba_providerCode a \<noteq> [] \<Longrightarrow> points_loop pf (ba_providerCode a) days order prices = Inl e \<Longrightarrow> adapter_failure nw a e"
  by (induction pf "ba_providerCode a" days order prices rule: points_loop.induct)
     (auto simp: Let_def failure_simps split: option.split_asm sum.split_asm)

lemma days_loop_failure:
  "ba_providerCode a \<noteq> [] \<Longrightarrow> days_loop (ba_providerCode a) ref zero ra days bars sel = Inl e \<Longrightarrow> adapter_failure nw a e"
  by (induction sel arbitrary: bars) (auto simp: Let_def failure_simps split: option.split_asm sum.split_asm)

lemma chart_page_failure:
  "ba_providerCode a \<noteq> [] \<Longrightarrow> chart_page pf (ba_providerCode a) r ra days el = Inl e \<Longrightarrow> adapter_failure nw a e"
  unfolding chart_page_def Let_def bind_result_def
  by (auto simp: failure_simps dest: days_loop_failure split: sum.split_asm option.split_asm)

lemma bars_of_chart_failure:
  "ba_providerCode a \<noteq> [] \<Longrightarrow> bars_of_chart pf nw a r s prices = Inl e \<Longrightarrow> adapter_failure nw a e"
  unfolding bars_of_chart_def Let_def bind_result_def
  by (auto simp: failure_simps dest: points_loop_failure chart_page_failure split: sum.split_asm prod.split_asm)

lemma cg_FetchBars_failure:
  assumes "ba_providerCode a \<noteq> []" "fitting_network nw" "cg_FetchBars pf Valid decode nw a r = Inl e"
  shows "adapter_failure nw a e"
  using assms(3) assms(1) unfolding cg_FetchBars_def Let_def bind_result_def
  by (auto simp: failure_simps split: sum.split_asm option.split_asm if_split_asm
      dest: validateFXReference_failure bars_of_chart_failure doGet_failure [OF assms(1,2)])

lemma pairs_loop_failure:
  "ba_providerCode a \<noteq> [] \<Longrightarrow> pairs_loop a pairs refs = Some e \<Longrightarrow> adapter_failure nw a e"
  by (induction refs arbitrary: pairs)
     (auto simp: Let_def failure_simps dest: validateFXReference_failure split: option.split_asm if_split_asm)

lemma coins_loop_failure:
  "ba_providerCode a \<noteq> [] \<Longrightarrow> coins_loop pf (ba_providerCode a) ra payload quotes refs = Inl e \<Longrightarrow> adapter_failure nw a e"
  by (induction refs arbitrary: quotes)
     (auto simp: Let_def failure_simps split: option.split_asm sum.split_asm)

lemma cg_FetchLatestQuotes_failure:
  assumes "ba_providerCode a \<noteq> []" "fitting_network nw" "cg_FetchLatestQuotes pf Valid decode nw a refs = Inl e"
  shows "adapter_failure nw a e"
  using assms(3) assms(1) unfolding cg_FetchLatestQuotes_def validateFXReferences_def Let_def bind_result_def
  by (auto simp: failure_simps split: sum.split_asm option.split_asm if_split_asm
      dest: pairs_loop_failure coins_loop_failure doGet_failure [OF assms(1,2)])


text \<open>An exchange that asks to be left alone for two seconds.\<close>

definition busy_network :: "string \<Rightarrow> network" where
  "busy_network seconds = \<lparr>nw_Do = (\<lambda>path query. Responds \<lparr>hr_StatusCode = 429,
       hr_Header = (\<lambda>h. if h = ''Retry-After'' then seconds else []), hr_Body = Inr ''slow down''\<rparr>),
     nw_ctx = None, nw_now = time_UnixMilli (1003 * 3600000), nw_ParseTime = (\<lambda>t. None)\<rparr>"

definition no_quotes :: "string \<Rightarrow> tickerResult decoded" where "no_quotes body = TrailingData"


lemma unclassified: "d \<le> 0 \<Longrightarrow> providerError provider c m (Some d) cause = ErrInvalidData"
  by (auto simp: Let_def err_of_def providerError_def NewProviderError_def ProviderError_Validate_def checked_def guard_def
      ParseProviderErrorCode_def invalidContract_def)

text \<open>A delay that overflows a duration loses the classification of a rate limit.\<close>

lemma overflowing_retry_after:
  "AsProviderError (classifyHTTPError (\<lambda>t. None) ''bybit'' 0
     \<lparr>hr_StatusCode = 429, hr_Header = (\<lambda>h. if h = ''Retry-After'' then ''9223372037'' else []), hr_Body = Inr []\<rparr> []) = None"
proof -
  have "parse_digits ''9223372037'' = Some 9223372037" "TrimSpace ''9223372037'' = ''9223372037''" 
    by (simp add: parse_digits_def read_decimal_def) code_simp
  then have "ParseInt ''9223372037'' = Some 9223372037" by (simp add: ParseInt_def)
  moreover note \<open>TrimSpace _ = _\<close>
  ultimately have "retryDelay (\<lambda>t. None) (\<lambda>h. if h = ''Retry-After'' then ''9223372037'' else []) 0 Second = - 9223372036709551616"
    by (simp add: retryDelay_def retryAfterHeader_def Let_def wrap64_def Second_def)
  then show ?thesis by (simp add: classifyHTTPError_def Let_def unclassified AsProviderError_def)
qed

end
