(* ===== verification/Spec2Isabelle.thy ===== *)
theory Spec2Isabelle
  imports QueueProperties MarketProperties Composition Worker BarQuery QuoteQuery SubscriptionProperties RunPages OptionPages
    InstrumentProperties ProviderHealth CoinGeckoPages AdapterErrors
begin

text \<open>
  Verification library of the market-info service (\<^verbatim>\<open>src/market-info-service\<close>, Go; paths below are relative to
  its \<^verbatim>\<open>internal\<close> directory).

  The service collects market data for a trading system. A scheduler turns subscriptions into windows of time
  that have to be collected, and stores each as a run with one task in PostgreSQL; workers claim tasks under a
  lease, fetch bars or quotes through a provider adapter, and commit the data, the checkpoint and the end of the
  task in one transaction; administrators create backfills, retry and cancel tasks and change subscriptions; and
  query services read the collected data and the state of the collection page by page.

  \<^bold>\<open>Conventions\<close>

  A Go function that returns a value and an error is a function to \<open>'a result\<close> (\<open>Inl\<close> the error); a
  \<^verbatim>\<open>Validate\<close> method returns \<open>error option\<close>, its checks listed in source order (\<open>first_error\<close>). Errors
  are values (\<open>error\<close> in \<open>Prelude\<close>) with what \<^verbatim>\<open>errors.Is\<close> and \<^verbatim>\<open>errors.As\<close> can tell of them; texts
  of wrapped errors are left out. Strings are byte strings (\<open>GoText\<close> has the UTF-8 decoding Go does on them);
  a \<^verbatim>\<open>time.Time\<close> is its instant in nanoseconds as an \<open>int\<close> (\<open>GoTime\<close>), durations are 64-bit and the
  arithmetic that can overflow wraps (\<open>wrap64\<close>); decimals are rationals, JSON documents the datatype
  \<open>json\<close>. An interface of Go is a record of functions, as its callers see it.

  Code that is not in the repository is an argument: the platform record \<open>pf\<close> (decimal parsing, hashing,
  UUIDs), time zones (\<open>location\<close>), the \<open>session\<close> with PostgreSQL (what the other clients do before
  each operation, which rows they hold locked, and its \<open>faults\<close>: every call of the driver and every commit may
  fail), the HTTP transport and the decoders of the
  adapters.

  \<^bold>\<open>Theories\<close>

  \<^item> \<open>Prelude\<close>, \<open>GoText\<close>, \<open>GoTime\<close>: errors, results, wrap-around, byte strings, the parts of
    \<^verbatim>\<open>strings\<close>, \<^verbatim>\<open>strconv\<close>, \<^verbatim>\<open>unicode/utf8\<close> and \<^verbatim>\<open>time\<close> the service calls.
  \<^item> \<open>Domain\<close>, \<open>Catalog\<close>, \<open>MarketData\<close> (domain/): identities, codes, instants, enumerations, catalog
    entities, subscriptions, bars, quotes, ranges, runs, tasks, checkpoints, quality issues and their validators.
  \<^item> \<open>Ports\<close> (ingestion/ports, providers/registry.go): provider errors, requests and results with their
    contracts, the registry of adapters.
  \<^item> \<open>MarketTime\<close> (markettime/calendar.go): the NYSE calendar with its holiday rules and overrides, and the
    searches for the next and previous session. The locales \<open>session_calendar\<close> and \<open>trading_calendar\<close> are the
    contract the scheduler relies on; \<open>nyse\<close> interprets them on the calendar of the code.
  \<^item> \<open>Window\<close>, \<open>USMarket\<close>, \<open>CatchUp\<close>, \<open>USCatchUp\<close> (scheduler/window.go, freshness.go, catchup.go):
    which window is due, for markets that never close and for US sessions; which past windows are missing.
  \<^item> \<open>Ingestion\<close> (ingestion/service.go, run.go, retry.go, quality.go, contracts.go): the execution of a task
    over the interface \<open>Store\<close>, the page loop over an adapter, the retry policy, the summary of a run.
  \<^item> \<open>Scheduler\<close> (scheduler/incremental.go): one scan over the store interface; the locale \<open>paging\<close> is what
    its walk through the targets needs of the store.
  \<^item> \<open>ManualTasks\<close> (ingestion/backfill.go, manual_tasks.go): backfill, manual retry, cancellation.
  \<^item> \<open>Database\<close>, \<open>TaskTables\<close>, \<open>ExecutionStore\<close>, \<open>MarketTables\<close>, \<open>CatalogQueries\<close>
    (repository/postgres and its migrations): the tables (\<open>DB\<close>), transactions, error mapping, and every
    operation as the statements it sends, with the columns' precision and the constraints in the order the server
    checks them.
  \<^item> \<open>Worker\<close> (ingestion/worker/worker.go, servicehost/): the claim loops of a worker as slots of an
    \<open>inductive\<close> step relation, the host that starts and stops the components, the periodic scheduling loop.
  \<^item> \<open>Application\<close> (application/errors.go, auth.go): errors, callers, permissions, audit contexts; the
    contract \<open>keyset_pages\<close> of all paged lists.
  \<^item> \<open>Subscriptions\<close>, \<open>BarQuery\<close>, \<open>QuoteQuery\<close>, \<open>IngestionQueries\<close>, \<open>StatusQuery\<close>,
    \<open>InstrumentQueries\<close> (application/ with the matching files of repository/postgres): the administrator's
    subscription commands and the read side.
  \<^item> \<open>Bybit\<close> (providers/bybit), \<open>CoinGecko\<close> (providers/coingecko): the adapters, from construction to the
    classification of every answer.

  \<^bold>\<open>What is shown\<close>

  \<^item> \<open>TaskLifecycle\<close>, \<open>QueueProperties\<close>: the invariant of the task table over every operation and every
    failure of a statement; an attempt is committed once; finished tasks do not change; at most one active retry
    or backfill; the claim order; expired leases are freed; scheduling the same work twice adds nothing.
  \<^item> \<open>MarketProperties\<close>: the bar table refines a history of contents that grows by changed contents only; its
    revisions are numbered without gaps.
  \<^item> \<open>Window\<close>, \<open>USMarket\<close>, \<open>CatchUp\<close>, \<open>USCatchUp\<close>, \<open>MarketTime\<close>: the windows returned are exactly
    those of a declarative description, the session searches find the first and last session, freshness counts
    trading time, no delay overflows.
  \<^item> \<open>Ingestion\<close>, \<open>Scheduler\<close>, \<open>Composition\<close>, \<open>Worker\<close>: nothing is written after a lease has expired;
    the pages of a fetch come back whole and in order; failures are retried by the policy; the counters of a scan
    add up; over the PostgreSQL model a scan ends, a refreshed run agrees with its tasks, an executed task is
    settled or its lease can be recovered, a worker executes what it claims once and stops when it is told to.
  \<^item> \<open>SubscriptionProperties\<close>, \<open>BarQuery\<close>, \<open>QuoteQuery\<close>, \<open>RunPages\<close>, \<open>OptionPages\<close>,
    \<open>InstrumentProperties\<close>, \<open>ProviderHealth\<close>: the audit log tells every change; each list, followed by its
    cursors, shows every row once; a written bar is read back; the newest quote is served; the two derivations of a
    run's status agree; a provider called healthy has no failing or lagging subscription.
  \<^item> \<open>BybitPages\<close>, \<open>CoinGeckoPages\<close>, \<open>AdapterErrors\<close>: over an exchange that answers as documented, paging
    backward returns exactly the klines asked for, and paging forward one bar for each day with a price; every
    failure carries a classification the retry policy knows.

  \<^bold>\<open>Loops, bounds and fuel\<close>

  Loops over lists are structural recursion; a loop over days or windows has a measure. The walks from session to
  session (\<open>latestEligibleUSBar\<close>, \<open>trading_duration_loop\<close>) end only if the calendar does its part, and the
  loop over the pages of a scan (\<open>scan_pages\<close>) only if the store does, so they are
  \<open>partial_function (option)\<close>; the properties show that there is a value, under the contract
  \<open>trading_calendar\<close> and over the PostgreSQL store. The page loop of a fetch is bounded by the configured
  number of pages. \<open>follow_pages n\<close> reads at most \<open>n\<close> pages of a list; the completeness theorems take any
  \<open>n\<close> above the number of rows, which is enough because a page that is not the last holds a row. The step
  relation of a worker has no bound; \<open>worker_stops\<close> counts the steps a cancelled worker has left.

  \<^bold>\<open>Not modelled\<close>

  \<^item> Checks for nil contexts, receivers and dependencies; conversions to UTC, which keep the instant; texts of
    wrapped errors and log records; the text layout of instants (RFC 3339) and the generation of UUIDs.
  \<^item> Of PostgreSQL: the normalisation of \<^verbatim>\<open>jsonb\<close> keys, collations other than the order of bytes, texts that
    are not UTF-8 or hold NUL, waiting for row locks (a locked row is skipped or the statement runs later), the
    order of rows a statement leaves open, and snapshots spanning several statements. The capabilities column holds
    the parsed value.
  \<^item> Instants beyond what 64-bit milliseconds hold, and the saturation of \<^verbatim>\<open>Time.Sub\<close>.
  \<^item> The HTTP API (api/httpapi), which decodes requests and encodes answers around the use cases modelled here; the
    Longbridge adapter, which wraps the SDK of a vendor behind the same interface; configuration,
    observability, SQL text assembly (the queries are modelled by what they select), migrations, connection pools,
    entry points and signals; the Python backtesting backend and the browser frontend.
\<close>

end
